(* ===== verification/Prelude.thy ===== *)
theory Prelude
  imports Main "HOL-Library.Word"
begin

unbundle bit_operations_syntax

text \<open>
  Shared vocabulary of the development.

  The firmware is C for a 32-bit Cortex-M target. Its fixed-width integers are modelled as
  words of the same width, so that \<open>+\<close>, \<open>-\<close> and \<open>*\<close> wrap exactly as the code's do after the
  assignment truncates the promoted result; pointers are addresses of type \<open>nat\<close> with
  \<open>None\<close> for \<open>NULL\<close> where the code tests for it.

  The theory also holds the two named collections the component theories fill
  (\<open>wf_intros\<close>: preservation of well-formedness, \<open>abs_simps\<close>: what an operation does to the
  abstract view of a component) and the generic lemmas on words, lists and modular
  arithmetic that several components share.
\<close>

type_synonym u8 = "8 word"
type_synonym u16 = "16 word"
type_synonym u32 = "32 word"
type_synonym u64 = "64 word"
type_synonym i8 = "8 word"
type_synonym i32 = "32 word"
type_synonym byte = "8 word"

named_theorems wf_intros
named_theorems abs_simps

section \<open>Words\<close>

lemma unat_inc:
  fixes x :: "'a::len word"
  assumes "x < y"
  shows "unat (x + 1) = Suc (unat x)"
proof -
  have "unat x < unat y" using assms by (simp add: word_less_nat_alt)
  moreover have "unat y < 2 ^ LENGTH('a)" by (rule unsigned_less)
  ultimately have "Suc (unat x) < 2 ^ LENGTH('a)" by linarith
  then show ?thesis by (simp add: unat_word_ariths)
qed

lemma unat_dec:
  fixes x :: "'a::len word"
  assumes "x \<noteq> 0"
  shows "unat (x - 1) = unat x - 1"
proof -
  have "(1::'a word) \<le> x" using assms by (simp add: word_le_nat_alt unat_gt_0 Suc_leI)
  then show ?thesis by (simp add: unat_sub)
qed

lemma unat_pos:
  fixes x :: "'a::len word"
  shows "x \<noteq> 0 \<longleftrightarrow> 0 < unat x"
  by (simp add: unat_gt_0)

lemma unat_u8_lt [simp]: "unat (x :: u8) < 256"
  using unsigned_less [of x] by simp

lemma unat_u16_lt [simp]: "unat (x :: u16) < 65536"
  using unsigned_less [of x] by simp

lemma unat_u32_lt [simp]: "unat (x :: u32) < 4294967296"
  using unsigned_less [of x] by simp

lemma unat_of_nat_lt: "n < 2 ^ LENGTH('a) \<Longrightarrow> unat (of_nat n :: 'a::len word) = n"
  by (simp add: unsigned_of_nat take_bit_nat_eq_self)

lemma unat_ucast_mod: "unat (ucast (x :: 'b::len word) :: 'a::len word) = unat x mod 2 ^ LENGTH('a)"
  by (simp add: unsigned_ucast_eq unsigned_take_bit_eq take_bit_eq_mod)

lemma unat_plus_lt:
  fixes x y :: "'a::len word"
  shows "unat x + unat y < 2 ^ LENGTH('a) \<Longrightarrow> unat (x + y) = unat x + unat y"
  by (simp add: unat_word_ariths)

section \<open>Lists and modular indices\<close>

lemma take_drop_nth_Cons:
  "i < length xs \<Longrightarrow> drop i xs = xs ! i # drop (Suc i) xs"
  by (rule Cons_nth_drop_Suc [symmetric])

lemma mod_add_inj:
  fixes d i j n :: nat
  assumes "i < n" "j < n" "(d + i) mod n = (d + j) mod n"
  shows "i = j"
proof -
  have "int n dvd int (d + i) - int (d + j)"
    using assms(3) by (metis mod_eq_dvd_iff of_nat_mod)
  then have "int n dvd int i - int j" by simp
  moreover have "\<bar>int i - int j\<bar> < int n" using assms(1,2) by linarith
  ultimately have "int i - int j = 0"
    using dvd_imp_le_int [of "int i - int j" "int n"] by fastforce
  then show ?thesis by simp
qed

lemma map_upt_shift:
  "map f [Suc 0..<Suc n] = map (\<lambda>i. f (Suc i)) [0..<n]"
  by (simp only: map_Suc_upt [symmetric] map_map comp_def)

end
