(* ===== verification/Fifo.thy ===== *)
theory Fifo
  imports Prelude
begin

text \<open>
  The contract of a bounded first-in first-out container, as the wireless stack relies on it:
  the fragmentation layer keeps its fragment counts in a \<open>circular_queue\<close> and every
  connection keeps its frames in an \<open>xlayer_queue\<close>. The locale \<open>bounded_fifo\<close> fixes the two
  operations together with the abstract list of items and assumes their laws; the lemmas are
  proved once from those laws and reach the two implementations through the interpretations
  in the theories \<open>Circular_Queue\<close> and \<open>Xlayer_Queue\<close>.
\<close>

datatype 'a fifo_op = Enq 'a | Deq

text \<open>
  A run of operations: the items the container accepted, the items it handed out, and the
  final state.
\<close>

fun fifo_run ::
  "('a \<Rightarrow> 's \<Rightarrow> bool \<times> 's) \<Rightarrow> ('s \<Rightarrow> 'a option \<times> 's) \<Rightarrow> 'a fifo_op list \<Rightarrow> 's
    \<Rightarrow> 'a list \<times> 'a list \<times> 's" where
  "fifo_run enq deq [] s = ([], [], s)"
| "fifo_run enq deq (Enq x # ops) s =
     (let (ok, s1) = enq x s; (acc, out, s2) = fifo_run enq deq ops s1
      in (if ok then x # acc else acc, out, s2))"
| "fifo_run enq deq (Deq # ops) s =
     (let (r, s1) = deq s; (acc, out, s2) = fifo_run enq deq ops s1
      in (acc, (case r of None \<Rightarrow> out | Some x \<Rightarrow> x # out), s2))"

locale bounded_fifo =
  fixes inv :: "'s \<Rightarrow> bool"
    and fits :: "'s \<Rightarrow> 'a \<Rightarrow> bool"
    and items :: "'s \<Rightarrow> 'a list"
    and cap :: "'s \<Rightarrow> nat"
    and enq :: "'a \<Rightarrow> 's \<Rightarrow> bool \<times> 's"
    and deq :: "'s \<Rightarrow> 'a option \<times> 's"
  assumes bound: "inv s \<Longrightarrow> length (items s) \<le> cap s"
    and enq_room: "\<lbrakk>inv s; fits s x; length (items s) < cap s\<rbrakk>
          \<Longrightarrow> fst (enq x s) \<and> items (snd (enq x s)) = items s @ [x]"
    and enq_full: "\<lbrakk>inv s; length (items s) = cap s\<rbrakk> \<Longrightarrow> enq x s = (False, s)"
    and enq_inv: "\<lbrakk>inv s; fits s x\<rbrakk> \<Longrightarrow> inv (snd (enq x s))"
    and enq_cap: "\<lbrakk>inv s; fits s x\<rbrakk> \<Longrightarrow> cap (snd (enq x s)) = cap s"
    and deq_empty: "\<lbrakk>inv s; items s = []\<rbrakk> \<Longrightarrow> deq s = (None, s)"
    and deq_Cons: "\<lbrakk>inv s; items s = x # xs\<rbrakk>
          \<Longrightarrow> fst (deq s) = Some x \<and> items (snd (deq s)) = xs"
    and deq_inv: "inv s \<Longrightarrow> inv (snd (deq s))"
    and deq_cap: "inv s \<Longrightarrow> cap (snd (deq s)) = cap s"
begin

text \<open>A state in which every item of a run may be offered at the moment it is offered.\<close>

fun offers_fit :: "'a fifo_op list \<Rightarrow> 's \<Rightarrow> bool" where
  "offers_fit [] s = True"
| "offers_fit (Enq x # ops) s = (fits s x \<and> offers_fit ops (snd (enq x s)))"
| "offers_fit (Deq # ops) s = offers_fit ops (snd (deq s))"

lemma offers_fit_all:
  assumes "\<And>s x. fits s x"
  shows "offers_fit ops s"
proof (induction ops arbitrary: s)
  case (Cons op ops)
  show ?case
  proof (cases op)
    case (Enq x)
    have "fits s x" by (rule assms)
    moreover have "offers_fit ops (snd (enq x s))" by (rule Cons.IH)
    ultimately show ?thesis unfolding Enq by simp
  next
    case Deq
    have "offers_fit ops (snd (deq s))" by (rule Cons.IH)
    then show ?thesis unfolding Deq by simp
  qed
qed simp

lemma enq_items:
  assumes "inv s" "fits s x"
  shows "items (snd (enq x s)) = (if fst (enq x s) then items s @ [x] else items s)"
proof (cases "length (items s) < cap s")
  case True
  with assms enq_room show ?thesis by simp
next
  case False
  with bound [OF assms(1)] have "length (items s) = cap s" by simp
  with assms enq_full show ?thesis by simp
qed

lemma enq_accepts_iff:
  assumes "inv s" "fits s x"
  shows "fst (enq x s) \<longleftrightarrow> length (items s) < cap s"
proof (cases "length (items s) < cap s")
  case True
  with assms enq_room show ?thesis by simp
next
  case False
  with bound [OF assms(1)] have "length (items s) = cap s" by simp
  with assms enq_full show ?thesis by simp
qed

lemma deq_items:
  assumes "inv s"
  shows "items s = (case fst (deq s) of None \<Rightarrow> [] | Some x \<Rightarrow> [x]) @ items (snd (deq s))"
proof (cases "items s")
  case Nil
  with assms deq_empty show ?thesis by simp
next
  case (Cons x xs)
  with assms deq_Cons show ?thesis by simp
qed

text \<open>
  First in, first out: whatever is done to the container, the items it hands out followed by
  the items it still holds are the items it held followed by the items it accepted.
\<close>

lemma run_order:
  assumes "inv s" "offers_fit ops s" "fifo_run enq deq ops s = (acc, out, s')"
  shows "out @ items s' = items s @ acc \<and> inv s' \<and> cap s' = cap s"
  using assms
proof (induction ops arbitrary: s acc out)
  case Nil
  then show ?case by simp
next
  case (Cons op ops)
  show ?case
  proof (cases op)
    case (Enq x)
    obtain ok s1 where e: "enq x s = (ok, s1)" by (cases "enq x s") auto
    obtain a o1 t where f: "fifo_run enq deq ops s1 = (a, o1, t)"
      by (cases "fifo_run enq deq ops s1") auto
    have i1: "inv s1" and c1: "cap s1 = cap s" and of1: "offers_fit ops s1"
      using Cons.prems Enq e enq_inv [of s x] enq_cap [of s x] by auto
    have it: "items s1 = (if ok then items s @ [x] else items s)"
      using enq_items [of s x] Cons.prems Enq e by simp
    have t: "t = s'" using Cons.prems(3) Enq e f by simp
    from Cons.IH [OF i1 of1 f [unfolded t]] Cons.prems(3) Enq e f it c1
    show ?thesis by (auto split: if_splits)
  next
    case Deq
    obtain r s1 where e: "deq s = (r, s1)" by (cases "deq s") auto
    obtain a o1 t where f: "fifo_run enq deq ops s1 = (a, o1, t)"
      by (cases "fifo_run enq deq ops s1") auto
    have i1: "inv s1" and c1: "cap s1 = cap s" and of1: "offers_fit ops s1"
      using Cons.prems Deq e deq_inv [of s] deq_cap [of s] by auto
    have it: "items s = (case r of None \<Rightarrow> [] | Some y \<Rightarrow> [y]) @ items s1"
      using deq_items [of s] Cons.prems(1) e by simp
    have t: "t = s'" using Cons.prems(3) Deq e f by simp
    from Cons.IH [OF i1 of1 f [unfolded t]] Cons.prems(3) Deq e f it c1
    show ?thesis by (auto split: option.splits)
  qed
qed

text \<open>No overflow and no loss: the container never holds more than its capacity.\<close>

lemma run_bound:
  assumes "inv s" "offers_fit ops s" "fifo_run enq deq ops s = (acc, out, s')"
  shows "length (items s) + length acc \<le> cap s + length out"
proof -
  from run_order [OF assms] have o: "out @ items s' = items s @ acc" and i: "inv s'"
    and c: "cap s' = cap s" by auto
  from o have "length out + length (items s') = length (items s) + length acc"
    by (metis length_append)
  with bound [OF i] c show ?thesis by simp
qed

end

end
