(* ===== verification/Circular_Queue.thy ===== *)
theory Circular_Queue
  imports Fifo
begin

text \<open>
  The circular queue of \<open>library/queue/circular_queue.c\<close>: a ring of fixed-size slots in a
  caller-provided buffer, two iterators into it and a count of free slots. The queue hands out
  slot addresses; the caller reads and writes the slot itself, so the memory is a separate
  function from addresses to items.

  \<open>circular_queue_wf\<close> is the representation invariant, \<open>circular_queue_slots\<close> the addresses
  of the occupied slots from the oldest on. The lemmas show that every operation keeps the
  invariant and acts on the slots as a FIFO does, and the theory interprets
  \<open>bounded_fifo\<close> on the idiom all callers use (\<open>cq_put\<close>: take a free slot, fill it,
  enqueue; \<open>cq_take\<close>: read the front, dequeue).
\<close>

record circular_queue =
  enqueue_it :: nat
  dequeue_it :: nat
  buffer_begin :: nat
  buffer_end :: nat
  item_size :: u32
  capacity :: u32
  free_space :: u32

section \<open>Operations\<close>

definition circular_queue_init :: "nat \<Rightarrow> u32 \<Rightarrow> u32 \<Rightarrow> circular_queue" where
  "circular_queue_init buffer cap sz =
     \<lparr>enqueue_it = buffer, dequeue_it = buffer, buffer_begin = buffer,
      buffer_end = buffer + unat (cap * sz),
      item_size = sz, capacity = cap, free_space = cap\<rparr>"

definition circular_queue_size :: "circular_queue \<Rightarrow> u32" where
  "circular_queue_size q = capacity q - free_space q"

definition circular_queue_capacity :: "circular_queue \<Rightarrow> u32" where
  "circular_queue_capacity q = capacity q"

definition circular_queue_free_space :: "circular_queue \<Rightarrow> u32" where
  "circular_queue_free_space q = free_space q"

definition circular_queue_is_empty :: "circular_queue \<Rightarrow> bool" where
  "circular_queue_is_empty q = (if circular_queue_size q = 0 then True else False)"

definition circular_queue_is_full :: "circular_queue \<Rightarrow> bool" where
  "circular_queue_is_full q = (if free_space q = 0 then True else False)"

definition circular_queue_front_raw :: "circular_queue \<Rightarrow> nat" where
  "circular_queue_front_raw q = dequeue_it q"

definition circular_queue_front :: "circular_queue \<Rightarrow> nat option" where
  "circular_queue_front q =
     (if circular_queue_is_empty q then None else Some (circular_queue_front_raw q))"

definition circular_queue_get_free_slot_raw :: "circular_queue \<Rightarrow> nat" where
  "circular_queue_get_free_slot_raw q = enqueue_it q"

definition circular_queue_get_free_slot :: "circular_queue \<Rightarrow> nat option" where
  "circular_queue_get_free_slot q =
     (if circular_queue_is_full q then None else Some (circular_queue_get_free_slot_raw q))"

definition circular_queue_enqueue_raw :: "circular_queue \<Rightarrow> circular_queue" where
  "circular_queue_enqueue_raw q =
     (let q1 = q\<lparr>enqueue_it := enqueue_it q + unat (item_size q)\<rparr>
      in if enqueue_it q1 \<ge> buffer_end q1 then q1\<lparr>enqueue_it := buffer_begin q1\<rparr> else q1)"

definition circular_queue_enqueue :: "circular_queue \<Rightarrow> bool \<times> circular_queue" where
  "circular_queue_enqueue q =
     (if \<not> circular_queue_is_full q
      then (True, circular_queue_enqueue_raw (q\<lparr>free_space := free_space q - 1\<rparr>))
      else (False, q))"

definition circular_queue_dequeue_raw :: "circular_queue \<Rightarrow> circular_queue" where
  "circular_queue_dequeue_raw q =
     (let q1 = q\<lparr>dequeue_it := dequeue_it q + unat (item_size q)\<rparr>
      in if dequeue_it q1 \<ge> buffer_end q1 then q1\<lparr>dequeue_it := buffer_begin q1\<rparr> else q1)"

definition circular_queue_dequeue :: "circular_queue \<Rightarrow> bool \<times> circular_queue" where
  "circular_queue_dequeue q =
     (if \<not> circular_queue_is_empty q
      then (let q1 = circular_queue_dequeue_raw q
            in (True, q1\<lparr>free_space := free_space q1 + 1\<rparr>))
      else (False, q))"

text \<open>
  How callers use the queue (\<open>wps_frag_send\<close>, the request queues of \<open>wps.c\<close>): fill the free
  slot before enqueueing it, read the front slot before dequeueing it.
\<close>

definition cq_put :: "'a \<Rightarrow> circular_queue \<times> (nat \<Rightarrow> 'a) \<Rightarrow> bool \<times> circular_queue \<times> (nat \<Rightarrow> 'a)" where
  "cq_put x s =
     (case circular_queue_get_free_slot (fst s) of
        None \<Rightarrow> (False, s)
      | Some a \<Rightarrow> (case circular_queue_enqueue (fst s) of
                     (ok, q) \<Rightarrow> (ok, q, (snd s)(a := x))))"

definition cq_take :: "circular_queue \<times> (nat \<Rightarrow> 'a) \<Rightarrow> 'a option \<times> circular_queue \<times> (nat \<Rightarrow> 'a)" where
  "cq_take s =
     (case circular_queue_front (fst s) of
        None \<Rightarrow> (None, s)
      | Some a \<Rightarrow> (Some (snd s a), snd (circular_queue_dequeue (fst s)), snd s))"

section \<open>Representation invariant and abstract view\<close>

definition cq_slot :: "circular_queue \<Rightarrow> nat \<Rightarrow> nat" where
  "cq_slot q i = buffer_begin q + (i mod unat (capacity q)) * unat (item_size q)"

definition cq_used :: "circular_queue \<Rightarrow> nat" where
  "cq_used q = unat (capacity q) - unat (free_space q)"

definition cq_index :: "circular_queue \<Rightarrow> nat" where
  "cq_index q = (dequeue_it q - buffer_begin q) div unat (item_size q)"

definition circular_queue_wf :: "circular_queue \<Rightarrow> bool" where
  "circular_queue_wf q \<longleftrightarrow>
     0 < unat (item_size q) \<and> 0 < unat (capacity q) \<and>
     buffer_end q = buffer_begin q + unat (capacity q) * unat (item_size q) \<and>
     free_space q \<le> capacity q \<and>
     cq_index q < unat (capacity q) \<and>
     dequeue_it q = cq_slot q (cq_index q) \<and>
     enqueue_it q = cq_slot q (cq_index q + cq_used q)"

definition circular_queue_slots :: "circular_queue \<Rightarrow> nat list" where
  "circular_queue_slots q = map (\<lambda>i. cq_slot q (cq_index q + i)) [0..<cq_used q]"

definition cq_items :: "circular_queue \<times> (nat \<Rightarrow> 'a) \<Rightarrow> 'a list" where
  "cq_items s = map (snd s) (circular_queue_slots (fst s))"

lemma length_slots [simp]: "length (circular_queue_slots q) = cq_used q"
  by (simp add: circular_queue_slots_def)

lemma cq_used_le: "cq_used q \<le> unat (capacity q)"
  by (simp add: cq_used_def)

lemma unat_size: "free_space q \<le> capacity q \<Longrightarrow> unat (circular_queue_size q) = cq_used q"
  by (simp add: circular_queue_size_def cq_used_def unat_sub)

lemma is_empty_iff: "circular_queue_wf q \<Longrightarrow> circular_queue_is_empty q \<longleftrightarrow> cq_used q = 0"
  using unat_size [of q]
  by (auto simp: circular_queue_is_empty_def circular_queue_wf_def unat_eq_zero [symmetric] simp del: unat_eq_zero)

lemma is_full_iff: "circular_queue_wf q \<Longrightarrow> circular_queue_is_full q \<longleftrightarrow> cq_used q = unat (capacity q)"
  by (auto simp: circular_queue_is_full_def circular_queue_wf_def cq_used_def word_le_nat_alt unat_eq_zero [symmetric]
           simp del: unat_eq_zero)

text \<open>Advancing an iterator by one slot and wrapping at the end is addition modulo the capacity.\<close>

lemma slot_step:
  assumes c: "0 < c" and s: "0 < (s::nat)"
  shows "(if b + (i mod c) * s + s \<ge> b + c * s then b else b + (i mod c) * s + s)
         = b + (Suc i mod c) * s"
proof (cases "Suc (i mod c) = c")
  case True
  then have "Suc i mod c = 0" by (simp add: mod_Suc)
  moreover have "(i mod c) * s + s = c * s" using True by (metis mult_Suc add.commute)
  ultimately show ?thesis by simp
next
  case False
  then have e: "Suc i mod c = Suc (i mod c)" by (simp add: mod_Suc)
  have "Suc (i mod c) < c" using False c by (metis Suc_leI le_neq_implies_less mod_less_divisor)
  then have "Suc (i mod c) * s < c * s" using s by (rule mult_less_mono1)
  with e show ?thesis by simp
qed

lemma slot_inj:
  assumes "circular_queue_wf q" "i < unat (capacity q)" "j < unat (capacity q)"
    and "cq_slot q (k + i) = cq_slot q (k + j)"
  shows "i = j"
  using assms mod_add_inj [of i "unat (capacity q)" j k]
  by (auto simp: cq_slot_def circular_queue_wf_def)

lemma distinct_slots:
  assumes "circular_queue_wf q"
  shows "distinct (circular_queue_slots q)"
proof -
  have "inj_on (\<lambda>i. cq_slot q (cq_index q + i)) (set [0..<cq_used q])"
  proof (rule inj_onI)
    fix i j
    assume "i \<in> set [0..<cq_used q]" "j \<in> set [0..<cq_used q]"
      and e: "cq_slot q (cq_index q + i) = cq_slot q (cq_index q + j)"
    then have "i < unat (capacity q)" "j < unat (capacity q)"
      using cq_used_le [of q] by simp_all
    then show "i = j" by (rule slot_inj [OF assms _ _ e])
  qed
  then show ?thesis by (simp add: circular_queue_slots_def distinct_map)
qed

lemma slot_bounds:
  assumes "circular_queue_wf q"
  shows "buffer_begin q \<le> cq_slot q i \<and> cq_slot q i + unat (item_size q) \<le> buffer_end q"
proof -
  have "Suc (i mod unat (capacity q)) \<le> unat (capacity q)"
    using assms by (simp add: circular_queue_wf_def Suc_leI)
  then have "Suc (i mod unat (capacity q)) * unat (item_size q)
               \<le> unat (capacity q) * unat (item_size q)" by (rule mult_le_mono1)
  with assms show ?thesis by (simp add: cq_slot_def circular_queue_wf_def)
qed

lemma wf_init [wf_intros]:
  assumes "0 < unat cap" "0 < unat sz" "unat cap * unat sz < 2 ^ 32"
  shows "circular_queue_wf (circular_queue_init b cap sz)"
  using assms
  by (simp add: circular_queue_wf_def circular_queue_init_def cq_slot_def cq_index_def cq_used_def
        unat_word_ariths)

lemma slots_init [abs_simps]: "circular_queue_slots (circular_queue_init b cap sz) = []"
  by (simp add: circular_queue_slots_def circular_queue_init_def cq_used_def)

lemma init_items: "cq_items (circular_queue_init b cap sz, m) = []"
  by (simp add: cq_items_def slots_init)

section \<open>Enqueue\<close>

lemma free_slot_eq:
  "circular_queue_wf q \<Longrightarrow> circular_queue_get_free_slot q =
     (if cq_used q = unat (capacity q) then None else Some (cq_slot q (cq_index q + cq_used q)))"
  by (auto simp: circular_queue_get_free_slot_def is_full_iff circular_queue_get_free_slot_raw_def
        circular_queue_wf_def)

lemma enqueue_fields:
  assumes "circular_queue_wf q" "cq_used q < unat (capacity q)"
  shows "circular_queue_enqueue q =
    (True, q\<lparr>free_space := free_space q - 1, enqueue_it := cq_slot q (cq_index q + Suc (cq_used q))\<rparr>)"
proof -
  have ne: "\<not> circular_queue_is_full q" using assms is_full_iff by simp
  have e: "enqueue_it q = cq_slot q (cq_index q + cq_used q)"
    and c: "0 < unat (capacity q)" and s: "0 < unat (item_size q)"
    and b: "buffer_end q = buffer_begin q + unat (capacity q) * unat (item_size q)"
    using assms by (auto simp: circular_queue_wf_def)
  from slot_step [OF c s, of "buffer_begin q" "cq_index q + cq_used q"] ne e b
  show ?thesis
    by (auto simp: circular_queue_enqueue_def circular_queue_enqueue_raw_def Let_def cq_slot_def
          split: if_splits)
qed

lemma free_dec:
  assumes "circular_queue_wf q" "cq_used q < unat (capacity q)"
  shows "unat (free_space q - 1) = unat (free_space q) - 1" "0 < unat (free_space q)"
proof -
  show "0 < unat (free_space q)" using assms(2) by (simp add: cq_used_def)
  then show "unat (free_space q - 1) = unat (free_space q) - 1"
    by (intro unat_dec) (simp add: unat_pos)
qed

lemma enqueue_view:
  assumes "circular_queue_wf q" "cq_used q < unat (capacity q)"
    and "circular_queue_enqueue q = (ok, q')"
  shows "ok" "circular_queue_wf q'" "cq_used q' = Suc (cq_used q)" "capacity q' = capacity q"
    "cq_index q' = cq_index q" "cq_slot q' = cq_slot q"
proof -
  have q': "q' = q\<lparr>free_space := free_space q - 1, enqueue_it := cq_slot q (cq_index q + Suc (cq_used q))\<rparr>"
    and "ok" using assms enqueue_fields by auto
  show ok by fact
  show slot: "cq_slot q' = cq_slot q" by (rule ext) (simp add: q' cq_slot_def)
  show ix: "cq_index q' = cq_index q" by (simp add: q' cq_index_def)
  show cp: "capacity q' = capacity q" by (simp add: q')
  have le: "free_space q \<le> capacity q" using assms(1) by (simp add: circular_queue_wf_def)
  show us: "cq_used q' = Suc (cq_used q)"
    using free_dec [OF assms(1,2)] le by (simp add: q' cq_used_def word_le_nat_alt)
  have "free_space q' \<le> capacity q'"
    using free_dec [OF assms(1,2)] le by (simp add: q' word_le_nat_alt)
  with assms(1) ix slot us cp show "circular_queue_wf q'"
    by (simp add: circular_queue_wf_def) (simp add: q')
qed

lemma enqueue_slots:
  assumes "circular_queue_wf q" "cq_used q < unat (capacity q)"
    and "circular_queue_enqueue q = (ok, q')"
  shows "circular_queue_slots q' = circular_queue_slots q @ [cq_slot q (cq_index q + cq_used q)]"
  using enqueue_view [OF assms] by (simp add: circular_queue_slots_def)

lemma enqueue_full:
  "circular_queue_wf q \<Longrightarrow> cq_used q = unat (capacity q) \<Longrightarrow> circular_queue_enqueue q = (False, q)"
  by (simp add: circular_queue_enqueue_def is_full_iff)

section \<open>Dequeue\<close>

lemma front_eq:
  "circular_queue_wf q \<Longrightarrow> circular_queue_front q =
     (if cq_used q = 0 then None else Some (cq_slot q (cq_index q)))"
  by (auto simp: circular_queue_front_def is_empty_iff circular_queue_front_raw_def circular_queue_wf_def)

lemma dequeue_fields:
  assumes "circular_queue_wf q" "0 < cq_used q"
  shows "circular_queue_dequeue q =
    (True, q\<lparr>dequeue_it := cq_slot q (Suc (cq_index q)), free_space := free_space q + 1\<rparr>)"
proof -
  have ne: "\<not> circular_queue_is_empty q" using assms is_empty_iff by simp
  have e: "dequeue_it q = cq_slot q (cq_index q)"
    and c: "0 < unat (capacity q)" and s: "0 < unat (item_size q)"
    and b: "buffer_end q = buffer_begin q + unat (capacity q) * unat (item_size q)"
    using assms by (auto simp: circular_queue_wf_def)
  from slot_step [OF c s, of "buffer_begin q" "cq_index q"] ne e b
  show ?thesis
    by (auto simp: circular_queue_dequeue_def circular_queue_dequeue_raw_def Let_def cq_slot_def
          split: if_splits)
qed

lemma dequeue_view:
  assumes "circular_queue_wf q" "0 < cq_used q" "circular_queue_dequeue q = (ok, q')"
  shows "ok" "circular_queue_wf q'" "cq_used q' = cq_used q - 1" "capacity q' = capacity q"
    "cq_slot q' = cq_slot q" "cq_index q' = Suc (cq_index q) mod unat (capacity q)"
proof -
  have q': "q' = q\<lparr>dequeue_it := cq_slot q (Suc (cq_index q)), free_space := free_space q + 1\<rparr>"
    and "ok" using assms dequeue_fields by auto
  show ok by fact
  show slot: "cq_slot q' = cq_slot q" by (rule ext) (simp add: q' cq_slot_def)
  show cp: "capacity q' = capacity q" by (simp add: q')
  have c: "0 < unat (capacity q)" and s: "0 < unat (item_size q)"
    and le: "free_space q \<le> capacity q"
    using assms(1) by (auto simp: circular_queue_wf_def)
  show ix: "cq_index q' = Suc (cq_index q) mod unat (capacity q)"
    using s by (simp add: q' cq_index_def cq_slot_def)
  have "free_space q < capacity q" using assms(2) by (simp add: cq_used_def word_less_nat_alt)
  then have fs: "unat (free_space q + 1) = Suc (unat (free_space q))" by (rule unat_inc)
  show us: "cq_used q' = cq_used q - 1" using fs by (simp add: q' cq_used_def)
  have "free_space q' \<le> capacity q'"
    using fs assms(2) by (simp add: q' cq_used_def word_le_nat_alt)
  moreover have "cq_slot q (Suc (cq_index q) mod unat (capacity q) + (cq_used q - 1))
                 = cq_slot q (cq_index q + cq_used q)"
    using assms(2) by (cases "cq_used q") (simp_all add: cq_slot_def mod_add_left_eq)
  moreover have "cq_slot q (Suc (cq_index q) mod unat (capacity q)) = cq_slot q (Suc (cq_index q))"
    by (simp add: cq_slot_def)
  ultimately show "circular_queue_wf q'"
    using assms(1) ix slot us cp c by (simp add: circular_queue_wf_def) (simp add: q')
qed

lemma dequeue_slots:
  assumes "circular_queue_wf q" "0 < cq_used q" "circular_queue_dequeue q = (ok, q')"
  shows "circular_queue_slots q = cq_slot q (cq_index q) # circular_queue_slots q'"
proof -
  note v = dequeue_view [OF assms]
  have "[0..<cq_used q] = 0 # map Suc [0..<cq_used q - 1]"
    using assms(2) by (simp add: upt_conv_Cons map_Suc_upt)
  then have "circular_queue_slots q =
      cq_slot q (cq_index q) # map (\<lambda>i. cq_slot q (cq_index q + Suc i)) [0..<cq_used q - 1]"
    by (simp add: circular_queue_slots_def)
  moreover have "map (\<lambda>i. cq_slot q (cq_index q + Suc i)) [0..<cq_used q - 1] = circular_queue_slots q'"
    using v by (simp add: circular_queue_slots_def cq_slot_def mod_add_left_eq)
  ultimately show ?thesis by simp
qed

section \<open>The FIFO contract\<close>

text \<open>
  A free slot is not one of the occupied ones, so filling it leaves the queued items alone.
\<close>

lemma free_slot_fresh:
  assumes "circular_queue_wf q" "cq_used q < unat (capacity q)"
  shows "cq_slot q (cq_index q + cq_used q) \<notin> set (circular_queue_slots q)"
proof
  assume "cq_slot q (cq_index q + cq_used q) \<in> set (circular_queue_slots q)"
  then obtain i where i: "i < cq_used q"
    and e: "cq_slot q (cq_index q + cq_used q) = cq_slot q (cq_index q + i)"
    by (auto simp: circular_queue_slots_def)
  from slot_inj [OF assms(1) assms(2) _ e] i assms(2) show False by simp
qed

interpretation cq: bounded_fifo
  "\<lambda>s. circular_queue_wf (fst s)" "\<lambda>_ _. True" cq_items "\<lambda>s. unat (capacity (fst s))"
  "cq_put :: 'a \<Rightarrow> _" "cq_take :: _ \<Rightarrow> 'a option \<times> _"
proof unfold_locales
  fix s :: "circular_queue \<times> (nat \<Rightarrow> 'a)" and x :: 'a and xs
  assume wf: "circular_queue_wf (fst s)"
  obtain ok q where e: "circular_queue_enqueue (fst s) = (ok, q)"
    by (cases "circular_queue_enqueue (fst s)") auto
  obtain ok' q' where d: "circular_queue_dequeue (fst s) = (ok', q')"
    by (cases "circular_queue_dequeue (fst s)") auto
  show "length (cq_items s) \<le> unat (capacity (fst s))"
    using cq_used_le by (simp add: cq_items_def)
  show "fst (cq_put x s) \<and> cq_items (snd (cq_put x s)) = cq_items s @ [x]"
    if "length (cq_items s) < unat (capacity (fst s))"
    using that free_slot_fresh [OF wf] enqueue_slots [OF wf _ e] enqueue_view(1) [OF wf _ e] e
    by (auto simp: cq_put_def cq_items_def free_slot_eq [OF wf])
  show "cq_put x s = (False, s)" if "length (cq_items s) = unat (capacity (fst s))"
    using that by (simp add: cq_put_def cq_items_def free_slot_eq [OF wf])
  show "circular_queue_wf (fst (snd (cq_put x s)))"
    using enqueue_view(2) [OF wf _ e] e wf cq_used_le [of "fst s"]
    by (auto simp: cq_put_def free_slot_eq [OF wf] split: option.splits)
  show "unat (capacity (fst (snd (cq_put x s)))) = unat (capacity (fst s))"
    using enqueue_view(4) [OF wf _ e] e wf cq_used_le [of "fst s"]
    by (auto simp: cq_put_def free_slot_eq [OF wf] split: option.splits)
  show "cq_take s = (None, s)" if "cq_items s = []"
    using that by (simp add: cq_take_def cq_items_def front_eq [OF wf]
        length_0_conv [symmetric] del: length_0_conv)
  show "fst (cq_take s) = Some x \<and> cq_items (snd (cq_take s)) = xs" if c: "cq_items s = x # xs"
  proof -
    from c have "length (cq_items s) = Suc (length xs)" by simp
    then have u: "0 < cq_used (fst s)" by (simp add: cq_items_def)
    with dequeue_slots [OF wf u d] c d show ?thesis
      by (auto simp: cq_take_def cq_items_def front_eq [OF wf])
  qed
  show "circular_queue_wf (fst (snd (cq_take s)))"
    using dequeue_view(2) [OF wf _ d] d wf
    by (auto simp: cq_take_def front_eq [OF wf] split: option.splits)
  show "unat (capacity (fst (snd (cq_take s)))) = unat (capacity (fst s))"
    using dequeue_view(4) [OF wf _ d] d wf
    by (auto simp: cq_take_def front_eq [OF wf] split: option.splits)
qed

lemma cq_offers: "cq.offers_fit ops s"
  by (rule cq.offers_fit_all) simp

section \<open>Properties\<close>

text \<open>
  C25. First in, first out, with nothing lost or duplicated: whatever sequence of fill-and-enqueue
  and read-and-dequeue steps is run on a well-formed circular queue, the items handed out
  followed by those still queued are the items that were queued followed by the items
  accepted, in order, and the queue is well-formed again.
\<close>

theorem circular_queue_fifo_order:
  assumes "circular_queue_wf q" "fifo_run cq_put cq_take ops (q, m) = (acc, out, q', m')"
  shows "out @ cq_items (q', m') = cq_items (q, m) @ acc \<and> circular_queue_wf q' \<and> capacity q' = capacity q"
  using cq.run_order [of "(q, m)" ops acc out "(q', m')"] assms
  by (simp add: word_unat_eq_iff cq_offers)

theorem circular_queue_fifo_order_witness:
  "case fifo_run cq_put cq_take [Enq 7, Enq 8, Enq 9, Deq, Enq 5, Deq] (circular_queue_init 100 2 4, \<lambda>_. 0 :: nat)
   of (acc, out, q', m') \<Rightarrow> acc = [7, 8, 5] \<and> out = [7, 8] \<and> out @ cq_items (q', m') = [7, 8, 5]"
proof -
  let ?ops = "[Enq 7, Enq 8, Enq 9, Deq, Enq 5, Deq]"
  have wf: "circular_queue_wf (circular_queue_init 100 2 4)" by (rule wf_init) simp_all
  obtain acc out q' m' where r: "fifo_run cq_put cq_take ?ops (circular_queue_init 100 2 4, \<lambda>_. 0 :: nat)
      = (acc, out, q', m')" by (metis prod.exhaust)
  have "acc = [7, 8, 5] \<and> out = [7, 8]"
    using r by (simp add: cq_put_def cq_take_def circular_queue_init_def circular_queue_get_free_slot_def
      circular_queue_get_free_slot_raw_def circular_queue_is_full_def circular_queue_enqueue_def
      circular_queue_enqueue_raw_def circular_queue_dequeue_def circular_queue_dequeue_raw_def
      circular_queue_front_def circular_queue_front_raw_def circular_queue_is_empty_def
      circular_queue_size_def Let_def split: if_splits)
  then show ?thesis
    using circular_queue_fifo_order [OF wf r] init_items [of 100 2 4 "\<lambda>_. 0 :: nat"] r by simp
qed

text \<open>
  Memory safety of the circular queue: in a well-formed queue the slots in use are pairwise
  different, every one of them lies wholly inside the buffer on an item boundary, and the slot
  offered for the next item is none of them.
\<close>

theorem circular_queue_slots_safe:
  assumes "circular_queue_wf q"
  shows "distinct (circular_queue_slots q) \<and>
    list_all (\<lambda>a. buffer_begin q \<le> a \<and> a + unat (item_size q) \<le> buffer_end q \<and>
      (a - buffer_begin q) mod unat (item_size q) = 0) (circular_queue_slots q) \<and>
    (case circular_queue_get_free_slot q of
       None \<Rightarrow> length (circular_queue_slots q) = unat (circular_queue_capacity q)
     | Some a \<Rightarrow> a \<notin> set (circular_queue_slots q) \<and> buffer_begin q \<le> a \<and> a + unat (item_size q) \<le> buffer_end q)"
proof -
  have "cq_used q \<noteq> unat (capacity q) \<Longrightarrow> cq_used q < unat (capacity q)"
    using cq_used_le [of q] by simp
  moreover have "(cq_slot q i - buffer_begin q) mod unat (item_size q) = 0" for i
    by (simp add: cq_slot_def)
  ultimately show ?thesis
    using distinct_slots [OF assms] slot_bounds [OF assms] free_slot_fresh [OF assms]
    by (simp add: free_slot_eq [OF assms] circular_queue_slots_def list_all_iff circular_queue_capacity_def)
qed

theorem circular_queue_slots_safe_witness:
  "circular_queue_slots (snd (circular_queue_enqueue (circular_queue_init 100 3 4))) = [100] \<and>
   circular_queue_get_free_slot (snd (circular_queue_enqueue (circular_queue_init 100 3 4))) = Some 104 \<and>
   distinct (circular_queue_slots (snd (circular_queue_enqueue (circular_queue_init 100 3 4))))"
proof -
  let ?q = "snd (circular_queue_enqueue (circular_queue_init 100 3 4))"
  have i: "circular_queue_wf (circular_queue_init 100 3 4)" by (rule wf_init) simp_all
  have u: "cq_used (circular_queue_init 100 3 4) < unat (capacity (circular_queue_init 100 3 4))"
    by (simp add: cq_used_def circular_queue_init_def)
  have wf: "circular_queue_wf ?q" using enqueue_view(2) [OF i u] by (cases "circular_queue_enqueue (circular_queue_init 100 3 4)") simp
  show ?thesis
    using circular_queue_slots_safe [OF wf]
    by (simp add: circular_queue_slots_def cq_slot_def cq_used_def cq_index_def circular_queue_init_def
      circular_queue_enqueue_def circular_queue_enqueue_raw_def circular_queue_is_full_def Let_def
      circular_queue_get_free_slot_def circular_queue_get_free_slot_raw_def)
qed

end
