(* ===== verification/Circular_Data.thy ===== *)
theory Circular_Data
  imports Prelude
begin

text \<open>
  The payload memory of \<open>xlayer/xlayer_circular_data.c\<close>: a byte buffer from which contiguous
  areas are allocated at \<open>head\<close> and released at \<open>tail\<close>, in allocation order. \<open>last_head\<close> lets the
  most recent allocation be taken back. Addresses are \<open>nat\<close>, indices \<open>u16\<close>; the comparisons the
  code makes after promotion to \<open>int\<close> are on \<open>unat\<close>.

  \<open>cd_inv c live\<close> relates a container to the list of its live blocks, oldest first; the lemmas
  show that allocation, release of the oldest block and taking back the newest one keep it as long
  as an allocation does not fill the buffer to the last byte. The last section shows what happens when
  one does, and two orders of operations in which a release fails or goes wrong.
\<close>

record xlayer_circular_data =
  cd_buffer :: nat
  cd_buffer_size :: u16
  cd_head :: u16
  cd_tail :: u16
  cd_last_head :: u16

section \<open>Operations\<close>

definition xlayer_circular_data_init :: "nat \<Rightarrow> u16 \<Rightarrow> xlayer_circular_data" where
  "xlayer_circular_data_init data sz =
     \<lparr>cd_buffer = data, cd_buffer_size = sz, cd_head = 0, cd_tail = 0, cd_last_head = 0\<rparr>"

definition xlayer_circular_data_allocate_space ::
  "xlayer_circular_data option \<Rightarrow> u16 \<Rightarrow> nat option \<times> xlayer_circular_data option" where
  "xlayer_circular_data_allocate_space circ_data required_space =
     (case circ_data of
        None \<Rightarrow> (None, None)
      | Some c \<Rightarrow>
          (let (out_data, last_head) =
             (if cd_head c \<ge> cd_tail c then
                (let free_bytes_to_end = cd_buffer_size c - cd_head c;
                     free_bytes_from_begin = cd_tail c
                 in if free_bytes_to_end \<ge> required_space
                    then (Some (cd_buffer c + unat (cd_head c)), cd_head c)
                    else if free_bytes_from_begin \<ge> required_space
                    then (Some (cd_buffer c), 0)
                    else (None, cd_head c))
              else
                (let free_bytes_middle = cd_tail c - cd_head c
                 in if free_bytes_middle \<ge> required_space
                    then (Some (cd_buffer c + unat (cd_head c)), cd_head c)
                    else (None, cd_head c)))
           in case out_data of
                None \<Rightarrow> (None, Some c)
              | Some a \<Rightarrow> (Some a, Some (c\<lparr>cd_last_head := last_head, cd_head := last_head + required_space\<rparr>))))"

definition xlayer_circular_data_free_space ::
  "xlayer_circular_data option \<Rightarrow> nat option \<Rightarrow> u16 \<Rightarrow> u16 \<times> xlayer_circular_data option" where
  "xlayer_circular_data_free_space circ_data data free_bytes =
     (case (circ_data, data) of
        (Some c, Some d) \<Rightarrow>
          if free_bytes = 0 then (0, circ_data)
          else (let free_buff_idx = word_of_int (int d - int (cd_buffer c)) :: u16 in
            if cd_last_head c = free_buff_idx
            then (free_bytes, Some (c\<lparr>cd_head := cd_last_head c\<rparr>))
            else (let tail = (if unat (cd_tail c) + unat free_bytes > unat (cd_buffer_size c)
                              then 0 else cd_tail c)
                  in if free_buff_idx \<noteq> tail then (0, circ_data)
                     else (free_bytes, Some (c\<lparr>cd_tail := tail + free_bytes\<rparr>))))
      | _ \<Rightarrow> (0, circ_data))"

definition xlayer_circular_data_flush :: "xlayer_circular_data \<Rightarrow> xlayer_circular_data" where
  "xlayer_circular_data_flush c = c\<lparr>cd_head := 0, cd_tail := 0\<rparr>"

definition xlayer_circular_data_get_head :: "xlayer_circular_data \<Rightarrow> u16" where
  "xlayer_circular_data_get_head c = cd_head c"

definition xlayer_circular_data_get_tail :: "xlayer_circular_data \<Rightarrow> u16" where
  "xlayer_circular_data_get_tail c = cd_tail c"

definition xlayer_circular_data_get_last_head :: "xlayer_circular_data \<Rightarrow> u16" where
  "xlayer_circular_data_get_last_head c = cd_last_head c"

text \<open>The sizing functions: the \<open>int\<close> product is truncated to 16 bits on return.\<close>

definition xlayer_circular_data_get_tx_required_bytes :: "u16 \<Rightarrow> u8 \<Rightarrow> u16 \<Rightarrow> u16" where
  "xlayer_circular_data_get_tx_required_bytes queue_size header_size max_payload_size =
     of_nat (unat queue_size * (2 + unat header_size + unat max_payload_size))"

definition xlayer_circular_data_get_rx_required_bytes :: "u16 \<Rightarrow> u16 \<Rightarrow> u16" where
  "xlayer_circular_data_get_rx_required_bytes queue_size max_payload_size =
     of_nat (unat queue_size * unat max_payload_size)"

section \<open>Live blocks\<close>

text \<open>Blocks \<open>(offset, length)\<close> that tile the interval from \<open>a\<close> to \<open>b\<close> in order.\<close>

fun tiles :: "nat \<Rightarrow> (nat \<times> nat) list \<Rightarrow> nat \<Rightarrow> bool" where
  "tiles a [] b = (a = b)"
| "tiles a ((off, n) # bs) b = (off = a \<and> 0 < n \<and> tiles (a + n) bs b)"

definition blocks_disjoint :: "nat \<times> nat \<Rightarrow> nat \<times> nat \<Rightarrow> bool" where
  "blocks_disjoint x y \<longleftrightarrow> fst x + snd x \<le> fst y \<or> fst y + snd y \<le> fst x"

text \<open>
  Either the live blocks tile the bytes from \<open>tail\<close> to \<open>head\<close>, or they wrap: \<open>xs\<close> tiles the bytes
  from \<open>tail\<close> to some \<open>e\<close> near the end and \<open>ys\<close> the bytes from 0 to \<open>head\<close>. Only the newest block
  can start at \<open>last_head\<close>.
\<close>

definition cd_wrapped :: "xlayer_circular_data \<Rightarrow> (nat \<times> nat) list \<Rightarrow> (nat \<times> nat) list \<Rightarrow> nat \<Rightarrow> bool" where
  "cd_wrapped c xs ys e \<longleftrightarrow> cd_head c < cd_tail c \<and> tiles (unat (cd_tail c)) xs e \<and>
     tiles 0 ys (unat (cd_head c)) \<and> e \<le> unat (cd_buffer_size c)"

definition cd_placed :: "xlayer_circular_data \<Rightarrow> (nat \<times> nat) list \<Rightarrow> bool" where
  "cd_placed c live \<longleftrightarrow> cd_head c \<le> cd_buffer_size c \<and> cd_tail c \<le> cd_buffer_size c \<and>
     (cd_tail c \<le> cd_head c \<and> tiles (unat (cd_tail c)) live (unat (cd_head c)) \<or>
      (\<exists>xs ys e. live = xs @ ys \<and> cd_wrapped c xs ys e))"

definition cd_inv :: "xlayer_circular_data \<Rightarrow> (nat \<times> nat) list \<Rightarrow> bool" where
  "cd_inv c live \<longleftrightarrow> cd_placed c live \<and> (\<forall>b\<in>set (butlast live). fst b \<noteq> unat (cd_last_head c))"

lemma tiles_le: "tiles a bs b \<Longrightarrow> a \<le> b"
  by (induction a bs b rule: tiles.induct) auto

lemma tiles_snoc: "tiles a bs b \<Longrightarrow> 0 < n \<Longrightarrow> tiles a (bs @ [(b, n)]) (b + n)"
  by (induction a bs b rule: tiles.induct) auto

lemma tiles_within: "tiles a bs b \<Longrightarrow> x \<in> set bs \<Longrightarrow> a \<le> fst x \<and> fst x + snd x \<le> b \<and> 0 < snd x"
proof (induction a bs b rule: tiles.induct)
  case (2 a off n bs b)
  then show ?case using tiles_le [of "a + n" bs b] by force
qed simp

lemma tiles_snocD: "tiles a (bs @ [(off, n)]) b \<Longrightarrow> tiles a bs off \<and> b = off + n \<and> 0 < n"
  by (induction a bs b rule: tiles.induct) auto

lemma placed_positive: "cd_placed c live \<Longrightarrow> x \<in> set live \<Longrightarrow> 0 < snd x"
  by (auto simp: cd_placed_def cd_wrapped_def dest: tiles_within)

lemma inv_init: "cd_inv (xlayer_circular_data_init data sz) []"
  by (simp add: cd_inv_def cd_placed_def xlayer_circular_data_init_def)

lemma inv_flush: "cd_inv (xlayer_circular_data_flush c) []"
  by (simp add: cd_inv_def cd_placed_def xlayer_circular_data_flush_def)

lemma unat_add_le:
  fixes x y z :: u16
  assumes "unat x + unat y \<le> unat z"
  shows "unat (x + y) = unat x + unat y"
proof -
  have "unat x + unat y < 65536" using assms unat_u16_lt [of z] by linarith
  then show ?thesis by (simp add: unat_word_ariths)
qed

text \<open>Where an allocation goes, in terms of the indices.\<close>

lemma alloc_cases:
  assumes "xlayer_circular_data_allocate_space (Some c) n = (Some a, Some c')"
    and "cd_head c \<le> cd_buffer_size c" "cd_tail c \<le> cd_buffer_size c"
  obtains (at_end) "cd_tail c \<le> cd_head c" "unat (cd_head c) + unat n \<le> unat (cd_buffer_size c)"
      "a = cd_buffer c + unat (cd_head c)" "c' = c\<lparr>cd_last_head := cd_head c, cd_head := cd_head c + n\<rparr>"
  | (at_begin) "cd_tail c \<le> cd_head c" "unat (cd_buffer_size c) < unat (cd_head c) + unat n" "n \<le> cd_tail c"
      "a = cd_buffer c" "c' = c\<lparr>cd_last_head := 0, cd_head := n\<rparr>"
  | (in_middle) "cd_head c < cd_tail c" "unat (cd_head c) + unat n \<le> unat (cd_tail c)"
      "a = cd_buffer c + unat (cd_head c)" "c' = c\<lparr>cd_last_head := cd_head c, cd_head := cd_head c + n\<rparr>"
proof (cases "cd_tail c \<le> cd_head c")
  case True
  have e: "unat (cd_buffer_size c - cd_head c) = unat (cd_buffer_size c) - unat (cd_head c)"
    using assms(2) by (rule unat_sub)
  have hs: "unat (cd_head c) \<le> unat (cd_buffer_size c)" using assms(2) by (simp add: word_le_nat_alt)
  show ?thesis
  proof (cases "n \<le> cd_buffer_size c - cd_head c")
    case fit: True
    then have "unat n \<le> unat (cd_buffer_size c) - unat (cd_head c)" using e by (simp add: word_le_nat_alt)
    then show ?thesis using at_end assms(1) True fit hs
      by (simp add: xlayer_circular_data_allocate_space_def Let_def)
  next
    case nofit: False
    then have "unat (cd_buffer_size c) - unat (cd_head c) < unat n" using e by (simp add: word_le_nat_alt)
    then have "unat (cd_buffer_size c) < unat (cd_head c) + unat n" by linarith
    then show ?thesis using at_begin assms(1) True nofit
      by (auto simp: xlayer_circular_data_allocate_space_def Let_def split: if_splits)
  qed
next
  case False
  then have lt: "cd_head c < cd_tail c" by simp
  then have "unat (cd_tail c - cd_head c) = unat (cd_tail c) - unat (cd_head c)"
    by (intro unat_sub) simp
  moreover have "unat (cd_head c) < unat (cd_tail c)" using lt by (simp add: word_less_nat_alt)
  ultimately have "n \<le> cd_tail c - cd_head c \<Longrightarrow> unat (cd_head c) + unat n \<le> unat (cd_tail c)"
    by (simp add: word_le_nat_alt)
  then show ?thesis using in_middle lt assms(1) False
    by (auto simp: xlayer_circular_data_allocate_space_def Let_def split: if_splits)
qed

text \<open>
  An allocation that does not make \<open>head\<close> meet \<open>tail\<close> keeps the invariant with the new block
  appended, lies in the buffer and is disjoint from every live block.
\<close>

lemma placed_alloc:
  assumes inv: "cd_placed c live" and n: "0 < unat n"
    and al: "xlayer_circular_data_allocate_space (Some c) n = (Some a, Some c')"
    and ne: "cd_head c' \<noteq> cd_tail c'"
  shows "cd_placed c' (live @ [(a - cd_buffer c, unat n)])" "cd_buffer c \<le> a"
    "a + unat n \<le> cd_buffer c + unat (cd_buffer_size c)"
    "\<forall>b\<in>set live. blocks_disjoint b (a - cd_buffer c, unat n)"
    "cd_buffer c' = cd_buffer c" "cd_buffer_size c' = cd_buffer_size c"
proof -
  let ?h = "unat (cd_head c)" and ?t = "unat (cd_tail c)" and ?s = "unat (cd_buffer_size c)"
  have hs: "?h \<le> ?s" "?t \<le> ?s" "cd_head c \<le> cd_buffer_size c" "cd_tail c \<le> cd_buffer_size c"
    using inv by (simp_all add: cd_placed_def word_le_nat_alt)
  have "cd_placed c' (live @ [(a - cd_buffer c, unat n)]) \<and> cd_buffer c \<le> a \<and>
    a + unat n \<le> cd_buffer c + ?s \<and> (\<forall>b\<in>set live. blocks_disjoint b (a - cd_buffer c, unat n)) \<and>
    cd_buffer c' = cd_buffer c \<and> cd_buffer_size c' = cd_buffer_size c"
    using al hs(3,4)
  proof (cases rule: alloc_cases)
    case at_end
    then have t: "tiles ?t live ?h" using inv by (auto simp: cd_placed_def cd_wrapped_def)
    have hn: "unat (cd_head c + n) = ?h + unat n" using at_end(2) by (rule unat_add_le)
    have "?t \<le> ?h" using at_end(1) by (simp add: word_le_nat_alt)
    then show ?thesis
      using at_end hs t hn tiles_snoc [OF t n] tiles_within [OF t]
      by (auto simp: cd_placed_def word_le_nat_alt blocks_disjoint_def)
  next
    case at_begin
    then have t: "tiles ?t live ?h" using inv by (auto simp: cd_placed_def cd_wrapped_def)
    have nt: "unat n < ?t"
      using at_begin(3,5) ne by (auto simp: word_le_nat_alt le_less word_unat_eq_iff)
    have "cd_wrapped c' live [(0, unat n)] ?h"
      using at_begin t hs n nt by (simp add: cd_wrapped_def word_less_nat_alt)
    moreover have "blocks_disjoint b (0, unat n)" if "b \<in> set live" for b
      using tiles_within [OF t that] nt by (simp add: blocks_disjoint_def)
    ultimately show ?thesis
      using at_begin hs nt by (auto simp: cd_placed_def word_le_nat_alt)
  next
    case in_middle
    then obtain xs ys e where w: "live = xs @ ys" "cd_wrapped c xs ys e"
      using inv by (auto simp: cd_placed_def)
    then have x: "tiles ?t xs e" and y: "tiles 0 ys ?h" and es: "e \<le> ?s" by (auto simp: cd_wrapped_def)
    have "unat (cd_head c) + unat n \<le> unat (cd_tail c)" by (rule in_middle(2))
    then have hn: "unat (cd_head c + n) = ?h + unat n" by (rule unat_add_le)
    have lt: "?h + unat n < ?t" using in_middle(2,4) ne hn by (auto simp: le_less word_unat_eq_iff)
    have "cd_wrapped c' xs (ys @ [(?h, unat n)]) e"
      using w(2) in_middle hn lt tiles_snoc [OF y n] by (auto simp: cd_wrapped_def word_less_nat_alt)
    then show ?thesis
      using in_middle hs lt hn w(1) tiles_within [OF x] tiles_within [OF y] tiles_le [OF x]
      by (fastforce simp: cd_placed_def word_le_nat_alt blocks_disjoint_def)
  qed
  then show "cd_placed c' (live @ [(a - cd_buffer c, unat n)])" "cd_buffer c \<le> a"
    "a + unat n \<le> cd_buffer c + ?s" "\<forall>b\<in>set live. blocks_disjoint b (a - cd_buffer c, unat n)"
    "cd_buffer c' = cd_buffer c" "cd_buffer_size c' = cd_buffer_size c" by blast+
qed

lemma inv_alloc:
  assumes inv: "cd_inv c live" and n: "0 < unat n"
    and al: "xlayer_circular_data_allocate_space (Some c) n = (Some a, Some c')"
    and ne: "cd_head c' \<noteq> cd_tail c'"
  shows "cd_inv c' (live @ [(a - cd_buffer c, unat n)])"
proof -
  have p: "cd_placed c live" using inv by (simp add: cd_inv_def)
  note i = placed_alloc [OF p n al ne]
  have "cd_head c \<le> cd_buffer_size c" "cd_tail c \<le> cd_buffer_size c" using p by (simp_all add: cd_placed_def)
  with al have "unat (cd_last_head c') = a - cd_buffer c" by (cases rule: alloc_cases) simp_all
  moreover have "fst b \<noteq> a - cd_buffer c" if "b \<in> set live" for b
    using i(4) that placed_positive [OF p that] n by (fastforce simp: blocks_disjoint_def)
  ultimately show ?thesis using i(1) by (simp add: cd_inv_def)
qed

text \<open>Taking back the newest block, the one at \<open>last_head\<close>, is accepted and keeps the rest.\<close>

lemma inv_take_back:
  assumes inv: "cd_inv c (live @ [(off, unat n)])" and n: "0 < unat n" and new: "unat (cd_last_head c) = off"
  shows "xlayer_circular_data_free_space (Some c) (Some (cd_buffer c + off)) n = (n, Some (c\<lparr>cd_head := cd_last_head c\<rparr>)) \<and>
    cd_inv (c\<lparr>cd_head := cd_last_head c\<rparr>) live"
proof
  have nz: "n \<noteq> 0" using n by auto
  have idx: "word_of_int (int (cd_buffer c + off) - int (cd_buffer c)) = cd_last_head c" unfolding new [symmetric] by simp
  show "xlayer_circular_data_free_space (Some c) (Some (cd_buffer c + off)) n = (n, Some (c\<lparr>cd_head := cd_last_head c\<rparr>))"
    using nz unfolding xlayer_circular_data_free_space_def by (simp add: Let_def idx [simplified])
  have p: "cd_placed c (live @ [(off, unat n)])" and f: "\<forall>b\<in>set live. fst b \<noteq> off" using inv new by (simp_all add: cd_inv_def)
  have hs: "unat (cd_head c) \<le> unat (cd_buffer_size c)" "unat (cd_tail c) \<le> unat (cd_buffer_size c)"
    using p by (simp_all add: cd_placed_def word_le_nat_alt)
  from p consider (flat) "tiles (unat (cd_tail c)) (live @ [(off, unat n)]) (unat (cd_head c))"
    | (wrap) xs ys e where "live @ [(off, unat n)] = xs @ ys" "cd_wrapped c xs ys e" by (auto simp: cd_placed_def)
  then have "cd_placed (c\<lparr>cd_head := cd_last_head c\<rparr>) live"
  proof cases
    case flat
    from tiles_snocD [OF this] show ?thesis
      using hs new tiles_le [of _ live off] by (auto simp: cd_placed_def word_le_nat_alt)
  next
    case wrap
    then have w: "tiles (unat (cd_tail c)) xs e" "tiles 0 ys (unat (cd_head c))" "e \<le> unat (cd_buffer_size c)"
      "unat (cd_head c) < unat (cd_tail c)" by (simp_all add: cd_wrapped_def word_less_nat_alt)
    show ?thesis
    proof (cases ys rule: rev_cases)
      case Nil
      with wrap(1) w(1) have "tiles (unat (cd_tail c)) (live @ [(off, unat n)]) e" by simp
      from tiles_snocD [OF this] show ?thesis
        using hs w new tiles_le [of _ live off] by (auto simp: cd_placed_def word_le_nat_alt)
    next
      case (snoc zs z)
      with wrap(1) have l: "live = xs @ zs" "z = (off, unat n)" by simp_all
      have t: "tiles 0 zs off" "unat (cd_head c) = off + unat n" using w(2) snoc l(2) by (simp_all add: tiles_snocD)
      have "cd_wrapped (c\<lparr>cd_head := cd_last_head c\<rparr>) xs zs e"
        using t w new by (simp add: cd_wrapped_def word_less_nat_alt)
      moreover have "cd_last_head c \<le> cd_buffer_size c" "cd_tail c \<le> cd_buffer_size c"
        using t hs new by (simp_all add: word_le_nat_alt)
      ultimately show ?thesis using l(1) by (auto simp: cd_placed_def)
    qed
  qed
  then show "cd_inv (c\<lparr>cd_head := cd_last_head c\<rparr>) live"
    using f new by (auto simp: cd_inv_def dest: in_set_butlastD)
qed

text \<open>Releasing the oldest block keeps the rest when it is accepted and changes nothing when it is not.\<close>

lemma inv_free_oldest:
  assumes inv: "cd_inv c ((off, unat n) # live)" and n: "0 < unat n"
    and fr: "xlayer_circular_data_free_space (Some c) (Some (cd_buffer c + off)) n = (r, Some c')"
  shows "if r = 0 then c' = c else r = n \<and> cd_inv c' live"
proof (cases "unat (cd_last_head c) = off")
  case True
  have "live = []" using inv True by (cases live rule: rev_cases) (auto simp: cd_inv_def)
  then show ?thesis using inv_take_back [of c "[]" off n] inv n True fr by auto
next
  case old: False
  let ?h = "unat (cd_head c)" and ?t = "unat (cd_tail c)" and ?s = "unat (cd_buffer_size c)"
  have p: "cd_placed c ((off, unat n) # live)" using inv by (simp add: cd_inv_def)
  have keep: "cd_inv (c\<lparr>cd_tail := t\<rparr>) live" if "cd_placed (c\<lparr>cd_tail := t\<rparr>) live" for t
    using that inv by (auto simp: cd_inv_def split: if_splits)
  have hs: "?h \<le> ?s" "?t \<le> ?s" using p by (simp_all add: cd_placed_def word_le_nat_alt)
  have nz: "n \<noteq> 0" using n by auto
  have idx: "word_of_int (int (cd_buffer c + off) - int (cd_buffer c)) = (of_nat off :: u16)" by simp
  from p consider
      (flat) "cd_tail c \<le> cd_head c" "off = ?t" "tiles (?t + unat n) live ?h"
    | (top) xs ys e where "live = xs @ ys" "off = ?t" "tiles (?t + unat n) xs e" "cd_wrapped c ((off, unat n) # xs) ys e"
    | (bottom) "off = 0" "cd_wrapped c [] ((0, unat n) # live) ?t"
    unfolding cd_placed_def
  proof (elim conjE disjE exE)
    fix xs ys e
    assume l: "(off, unat n) # live = xs @ ys" and w: "cd_wrapped c xs ys e"
    show thesis
    proof (cases xs)
      case Nil
      with l w bottom show ?thesis by (auto simp: cd_wrapped_def)
    next
      case (Cons x zs)
      with l w top [of zs ys e] show ?thesis by (auto simp: cd_wrapped_def)
    qed
  qed (auto simp: flat)
  then show ?thesis
  proof cases
    case flat
    have tn: "?t + unat n \<le> ?s" using tiles_le [OF flat(3)] hs by simp
    have u: "unat (cd_tail c + n) = ?t + unat n" using tn by (rule unat_add_le)
    have o: "of_nat off = cd_tail c" "cd_last_head c \<noteq> cd_tail c" using flat(2) old by auto
    have "cd_placed (c\<lparr>cd_tail := cd_tail c + n\<rparr>) live"
      using flat tn hs u tiles_le [OF flat(3)] by (auto simp: cd_placed_def word_le_nat_alt)
    from keep [OF this] show ?thesis using fr tn nz idx old o
      by (auto simp: xlayer_circular_data_free_space_def Let_def split: if_splits)
  next
    case top
    have w: "e \<le> ?s" "?h < ?t" using top(4) by (simp_all add: cd_wrapped_def word_less_nat_alt)
    have tn: "?t + unat n \<le> ?s" using tiles_le [OF top(3)] w by simp
    have u: "unat (cd_tail c + n) = ?t + unat n" using tn by (rule unat_add_le)
    have o: "of_nat off = cd_tail c" "cd_last_head c \<noteq> cd_tail c" using top(2) old by auto
    have "cd_wrapped (c\<lparr>cd_tail := cd_tail c + n\<rparr>) xs ys e"
      using top u w by (auto simp: cd_wrapped_def word_less_nat_alt)
    then have "cd_placed (c\<lparr>cd_tail := cd_tail c + n\<rparr>) live"
      using top(1) tn hs u by (auto simp: cd_placed_def word_le_nat_alt)
    from keep [OF this] show ?thesis using fr tn nz idx old o
      by (auto simp: xlayer_circular_data_free_space_def Let_def split: if_splits)
  next
    case bottom
    have w: "tiles (unat n) live ?h" "?h < ?t" using bottom by (auto simp: cd_wrapped_def word_less_nat_alt)
    have "cd_placed (c\<lparr>cd_tail := n\<rparr>) live"
      using w hs tiles_le [OF w(1)] by (auto simp: cd_placed_def word_le_nat_alt)
    from keep [OF this] show ?thesis using fr nz old bottom(1) w
      by (auto simp: xlayer_circular_data_free_space_def Let_def unat_eq_zero split: if_splits)
  qed
qed

section \<open>Reachable states\<close>

text \<open>
  The states a container goes through, with the list of blocks handed out and not successfully
  released, oldest first: users allocate, release the oldest block, take the newest back, and flush.
  A release that returns 0 leaves its block in the list. An allocation that fills the buffer up to
  \<open>tail\<close> is excluded.
\<close>

inductive cd_reach :: "nat \<Rightarrow> u16 \<Rightarrow> xlayer_circular_data \<Rightarrow> (nat \<times> nat) list \<Rightarrow> bool"
  for data :: nat and sz :: u16 where
  init: "cd_reach data sz (xlayer_circular_data_init data sz) []"
| alloc: "\<lbrakk>cd_reach data sz c live; 0 < unat n;
     xlayer_circular_data_allocate_space (Some c) n = (Some a, Some c'); cd_head c' \<noteq> cd_tail c'\<rbrakk>
   \<Longrightarrow> cd_reach data sz c' (live @ [(a - data, unat n)])"
| release: "\<lbrakk>cd_reach data sz c ((off, unat n) # live); 0 < unat n;
     xlayer_circular_data_free_space (Some c) (Some (data + off)) n = (r, Some c')\<rbrakk>
   \<Longrightarrow> cd_reach data sz c' (if r = 0 then (off, unat n) # live else live)"
| take_back: "\<lbrakk>cd_reach data sz c (live @ [(off, unat n)]); 0 < unat n; unat (cd_last_head c) = off;
     xlayer_circular_data_free_space (Some c) (Some (data + off)) n = (r, Some c')\<rbrakk>
   \<Longrightarrow> cd_reach data sz c' (if r = 0 then live @ [(off, unat n)] else live)"
| flush: "cd_reach data sz c live \<Longrightarrow> cd_reach data sz (xlayer_circular_data_flush c) []"

lemma free_frame:
  "xlayer_circular_data_free_space (Some c) d n = (r, Some c')
     \<Longrightarrow> cd_buffer c' = cd_buffer c \<and> cd_buffer_size c' = cd_buffer_size c"
  by (auto simp: xlayer_circular_data_free_space_def Let_def split: option.splits if_splits)

lemma reach_inv:
  assumes "cd_reach data sz c live"
  shows "cd_inv c live \<and> cd_buffer c = data \<and> cd_buffer_size c = sz \<and>
    (\<forall>b\<in>set live. fst b + snd b \<le> unat sz) \<and> sorted_wrt blocks_disjoint live"
  using assms
proof induction
  case init
  show ?case using inv_init by (simp add: xlayer_circular_data_init_def)
next
  case (alloc c live n a c')
  then have b: "cd_buffer c = data" "cd_buffer_size c = sz" by simp_all
  have p: "cd_placed c live" using alloc.IH by (simp add: cd_inv_def)
  note i = placed_alloc [OF p alloc.hyps(2,3,4)] inv_alloc [OF conjunct1 [OF alloc.IH] alloc.hyps(2,3,4)]
  have "a - data + unat n \<le> unat sz" using i(2,3) unfolding b by arith
  with i b alloc.IH show ?case by (auto simp: sorted_wrt_append)
next
  case (release c off n live r c')
  then have b: "cd_buffer c = data" "cd_buffer_size c = sz" by simp_all
  from inv_free_oldest [OF conjunct1 [OF release.IH] release.hyps(2)] release.hyps(3) b
  have "if r = 0 then c' = c else cd_inv c' live" by (auto split: if_splits)
  with release.IH free_frame [OF release.hyps(3)] show ?case by (auto split: if_splits)
next
  case (take_back c live off n r c')
  then have b: "cd_buffer c = data" by simp
  from inv_take_back [OF conjunct1 [OF take_back.IH] take_back.hyps(2,3)] take_back.hyps(2,4) b
  have "r \<noteq> 0" "cd_inv c' live" by auto
  with take_back.IH free_frame [OF take_back.hyps(4)] show ?case by (auto simp: sorted_wrt_append)
next
  case (flush c live)
  then show ?case using inv_flush by (simp add: xlayer_circular_data_flush_def)
qed

section \<open>Properties\<close>

text \<open>
  C18. Memory safety of the payload memory. In every state reached by allocations that leave
  at least one byte free, releases of the oldest block, taking back of the newest, and flushes, all
  blocks not yet released lie inside the buffer and no two of them share a byte; a further such
  allocation is inside the buffer and overlaps none of them.
\<close>

theorem xlayer_circular_data_no_overlap:
  assumes "cd_reach data sz c live" "0 < unat n"
    and "xlayer_circular_data_allocate_space (Some c) n = (Some a, Some c')" "cd_head c' \<noteq> cd_tail c'"
  shows "sorted_wrt blocks_disjoint live \<and> list_all (\<lambda>b. fst b + snd b \<le> unat sz) live \<and>
    data \<le> a \<and> a + unat n \<le> data + unat sz \<and> list_all (\<lambda>b. blocks_disjoint b (a - data, unat n)) live"
proof -
  note r = reach_inv [OF assms(1)]
  have "cd_placed c live" using r by (simp add: cd_inv_def)
  from placed_alloc [OF this assms(2-4)] r show ?thesis by (simp add: list_all_iff)
qed

lemma cd_reach_example: "cd_reach 1000 10 \<lparr>cd_buffer = 1000, cd_buffer_size = 10, cd_head = 8,
    cd_tail = 4, cd_last_head = 4\<rparr> [(4, 4)]"
proof -
  let ?c0 = "xlayer_circular_data_init 1000 10"
  let ?c1 = "\<lparr>cd_buffer = 1000, cd_buffer_size = 10, cd_head = 4, cd_tail = 0, cd_last_head = 0\<rparr>"
  let ?c2 = "?c1\<lparr>cd_head := 8, cd_last_head := 4\<rparr>"
  have 1: "cd_reach 1000 10 ?c1 ([] @ [(1000 - 1000, unat (4 :: u16))])"
    by (rule cd_reach.alloc [OF cd_reach.init])
      (simp_all add: xlayer_circular_data_allocate_space_def xlayer_circular_data_init_def)
  have 2: "cd_reach 1000 10 ?c2 ([(0, unat (4 :: u16))] @ [(1004 - 1000, unat (4 :: u16))])"
    by (rule cd_reach.alloc [where c = ?c1])
      (use 1 in \<open>simp_all add: xlayer_circular_data_allocate_space_def\<close>)
  have "cd_reach 1000 10 \<lparr>cd_buffer = 1000, cd_buffer_size = 10, cd_head = 8, cd_tail = 4, cd_last_head = 4\<rparr>
      (if (4 :: u16) = 0 then [(0, unat (4 :: u16)), (4, 4)] else [(4, 4)])"
    by (rule cd_reach.release [where c = ?c2 and off = 0 and n = 4 and r = 4])
      (use 2 in \<open>simp_all add: xlayer_circular_data_free_space_def Let_def\<close>)
  then show ?thesis by simp
qed

theorem xlayer_circular_data_no_overlap_witness:
  "fst (xlayer_circular_data_allocate_space (Some \<lparr>cd_buffer = 1000, cd_buffer_size = 10, cd_head = 8,
      cd_tail = 4, cd_last_head = 4\<rparr>) 3) = Some 1000 \<and> blocks_disjoint (4, 4) (0, 3)"
  using xlayer_circular_data_no_overlap [OF cd_reach_example, of 3 1000]
  by (simp add: xlayer_circular_data_allocate_space_def)

text \<open>
  In-order release: in such a state releasing the oldest block either returns its length and leaves
  exactly the other blocks live, or returns 0 and changes nothing.
\<close>

lemma xlayer_circular_data_release_in_order:
  assumes "cd_reach data sz c ((off, unat n) # live)" "0 < unat n"
  shows "\<exists>r c'. xlayer_circular_data_free_space (Some c) (Some (data + off)) n = (r, Some c')
    \<and> (r = 0 \<and> c' = c \<or> r = n \<and> cd_reach data sz c' live)"
proof -
  have i: "cd_inv c ((off, unat n) # live)" "cd_buffer c = data" using reach_inv [OF assms(1)] by simp_all
  obtain r c' where f: "xlayer_circular_data_free_space (Some c) (Some (data + off)) n = (r, Some c')"
    by (cases "xlayer_circular_data_free_space (Some c) (Some (data + off)) n")
      (auto simp: xlayer_circular_data_free_space_def Let_def split: if_splits)
  with inv_free_oldest [OF i(1) assms(2)] i(2) have "if r = 0 then c' = c else r = n" by (auto split: if_splits)
  with f cd_reach.release [OF assms f] show ?thesis by (auto split: if_splits)
qed

text \<open>
  The second case arises: once a block at the beginning has been taken back, a small block may be placed
  there although it would fit at the end. When everything before it is released, the release does not
  see that the blocks wrapped, and refuses it.
\<close>

lemma xlayer_circular_data_release_refused:
  "let alloc = (\<lambda>n c. snd (xlayer_circular_data_allocate_space c n));
       free = (\<lambda>a n c. snd (xlayer_circular_data_free_space c (Some a) n));
       c = alloc 1 (alloc 1 (free 1000 4 (alloc 4 (free 1000 6 (alloc 3 (alloc 6 (Some (xlayer_circular_data_init 1000 10))))))))
   in xlayer_circular_data_free_space (free 1006 3 c) (Some 1000) 1 = (0, free 1006 3 c)"
  by code_simp

text \<open>
  The check of the order misses one case: with the blocks at 8 and 9 still live the block at the beginning,
  allocated after them, is released although it is not the oldest, because it does not fit after
  \<open>tail\<close>; the next allocation overlaps a live block.
\<close>

lemma xlayer_circular_data_order_unchecked:
  "let alloc = (\<lambda>n c. snd (xlayer_circular_data_allocate_space c n));
       free = (\<lambda>a n c. snd (xlayer_circular_data_free_space c (Some a) n));
       c = alloc 3 (alloc 3 (free 1000 8 (alloc 1 (alloc 1 (alloc 8 (Some (xlayer_circular_data_init 1000 10)))))))
   in fst (xlayer_circular_data_free_space c (Some 1000) 3) = 3 \<and>
      fst (xlayer_circular_data_allocate_space (free 1000 3 c) 4) = Some 1006"
  by (simp add: xlayer_circular_data_init_def xlayer_circular_data_allocate_space_def
      xlayer_circular_data_free_space_def Let_def)

text \<open>
  A completely filled buffer looks empty: when an allocation makes \<open>head\<close> meet \<open>tail\<close>, the
  next allocation that fits between \<open>head\<close> and the end is granted although every byte is in use.
\<close>

lemma xlayer_circular_data_full_overlaps:
  assumes "cd_head c = cd_tail c" "0 < unat n" "unat (cd_head c) + unat n \<le> unat (cd_buffer_size c)"
    and "live = [(unat (cd_tail c), unat (cd_buffer_size c) - unat (cd_tail c)), (0, unat (cd_head c))]"
  shows "\<exists>c'. xlayer_circular_data_allocate_space (Some c) n = (Some (cd_buffer c + unat (cd_head c)), Some c')
    \<and> \<not> blocks_disjoint (hd live) (unat (cd_head c), unat n)"
proof -
  have "cd_head c \<le> cd_buffer_size c" using assms(3) by (simp add: word_le_nat_alt)
  then have "unat (cd_buffer_size c - cd_head c) = unat (cd_buffer_size c) - unat (cd_head c)"
    by (rule unat_sub)
  then have "n \<le> cd_buffer_size c - cd_head c" using assms(3) by (simp add: word_le_nat_alt)
  then have "xlayer_circular_data_allocate_space (Some c) n = (Some (cd_buffer c + unat (cd_head c)),
      Some (c\<lparr>cd_last_head := cd_head c, cd_head := cd_head c + n\<rparr>))"
    using assms(1) by (simp add: xlayer_circular_data_allocate_space_def Let_def)
  then show ?thesis using assms by (simp add: blocks_disjoint_def)
qed

text \<open>The state arises from two allocations, two releases and two more allocations.\<close>

lemma xlayer_circular_data_full_overlaps_witness:
  "let alloc = (\<lambda>n c. snd (xlayer_circular_data_allocate_space c n));
       free = (\<lambda>a n c. snd (xlayer_circular_data_free_space c (Some a) n));
       c = alloc 6 (free 1000 6 (alloc 4 (alloc 6 (Some (xlayer_circular_data_init 1000 10)))))
   in c = Some \<lparr>cd_buffer = 1000, cd_buffer_size = 10, cd_head = 6, cd_tail = 6, cd_last_head = 0\<rparr>
    \<and> fst (xlayer_circular_data_allocate_space c 4) = Some 1006"
  using xlayer_circular_data_full_overlaps
    [of "\<lparr>cd_buffer = 1000, cd_buffer_size = 10, cd_head = 6, cd_tail = 6, cd_last_head = 0\<rparr>" 4 "[(6, 4), (0, 6)]"]
  by (auto simp: xlayer_circular_data_init_def xlayer_circular_data_allocate_space_def
      xlayer_circular_data_free_space_def Let_def)

end
