(* ===== verification/Radio_Types.thy ===== *)
theory Radio_Types
  imports Prelude
begin

text \<open>
  The enumerations and plain structures the layers exchange: the radio's configuration
  enumerations of \<open>phy/sr1100/sr1100_def.h\<close>, the frame outcome, the phase information of
  \<open>link_phase.h\<close>, the cross-layer frame of \<open>xlayer/xlayer.h\<close> and the errors of \<open>wps_error.h\<close>. Enumerators whose value the code computes with
  are given by a function to that value.
\<close>

datatype sleep_lvl = SLEEP_IDLE_NO_WAKEONCE | SLEEP_IDLE | SLEEP_SHALLOW | SLEEP_DEEP

datatype chip_rate_cfg = CHIP_RATE_20_48_MHZ | CHIP_RATE_27_30_MHZ | CHIP_RATE_40_96_MHZ

datatype isi_mitig = ISI_MITIG_0 | ISI_MITIG_1 | ISI_MITIG_2 | ISI_MITIG_3

datatype sfd_length =
  SFD_LENGTH_32_OOK | SFD_LENGTH_16_1BIT_PPM | SFD_LENGTH_32_1BIT_PPM | SFD_LENGTH_64_1BIT_PPM

datatype frame_outcome =
    FRAME_RECEIVED
  | FRAME_RECEIVED_DATA_SIZE_INVALID
  | FRAME_RECEIVED_HEADER_SIZE_INVALID
  | FRAME_LOST
  | FRAME_REJECTED
  | FRAME_SENT_ACK
  | FRAME_SENT_ACK_LOST
  | FRAME_SENT_ACK_REJECTED
  | FRAME_WAIT

definition MS_TO_US :: nat where "MS_TO_US = 1000"

record phase_info =
  rx_waited1 :: u8
  rx_waited0 :: u8
  phase1 :: i8
  phase2 :: i8
  phase3 :: i8
  phase4 :: i8

record xlayer_frame =
  source_address :: u16
  destination_address :: u16
  header_memory :: nat
  header_begin_it :: nat
  header_end_it :: nat
  payload_memory :: nat
  payload_begin_it :: nat
  payload_end_it :: nat
  time_stamp :: u64
  retry_count :: u16
  header_memory_size :: u8
  payload_memory_size :: u8
  user_payload :: u8
  max_frame_size :: u8
  frame_outcome :: frame_outcome

record xlayer_cfg =
  cfg_rnsi_raw :: u32
  cfg_rssi_raw :: u32
  cfg_phases_info :: phase_info

record xlayer =
  xl_config :: xlayer_cfg
  xl_frame :: xlayer_frame

text \<open>The errors of the wireless protocol stack (\<open>wps_error.h\<close>).\<close>

datatype wps_error =
    WPS_NO_ERROR
  | WPS_NOT_INIT_ERROR
  | WPS_RX_OVERRUN_ERROR
  | WPS_PHY_CRITICAL_ERROR
  | WPS_QUEUE_EMPTY_ERROR
  | WPS_QUEUE_FULL_ERROR
  | WPS_WRONG_TX_SIZE_ERROR
  | WPS_WRONG_RX_SIZE_ERROR
  | WPS_CONN_THROTTLE_NOT_INITIALIZED_ERROR
  | WPS_ALREADY_CONNECTED_ERROR
  | WPS_ALREADY_DISCONNECTED_ERROR
  | WPS_CHANNEL_SEQUENCE_NOT_INITIALIZED_ERROR
  | WPS_RADIO_NOT_INITIALIZED_ERROR
  | WPS_ACK_DISABLED_ERROR
  | WPS_WRITE_REQUEST_QUEUE_FULL
  | WPS_READ_REQUEST_QUEUE_FULL
  | WPS_REQUEST_QUEUE_FULL
  | WPS_WRITE_REQUEST_XFER_TOO_LARGE
  | WPS_FRAGMENT_ERROR
  | WPS_CONNECT_EVENT
  | WPS_DISCONNECT_EVENT
  | WPS_DISCONNECT_TIMEOUT_ERROR
  | WPS_TIMESLOT_CONN_LIMIT_REACHED_ERROR
  | WPS_SCHEDULE_RATIO_REQUEST_QUEUE_FULL
  | WPS_NOT_ENOUGH_MEMORY_ERROR
  | WPS_CHANNEL_SEQUENCE_INIT_ERROR
  | WPS_CONNECTION_NOT_ASSIGNED_TO_SCHEDULER
  | WPS_CONNECTION_NOT_ALLOCATED
  | WPS_THROTTLING_PATTERN_NOT_ALLOCATED
  | WPS_FRAG_FAILED_TO_SET_CALLBACK
  | WPS_SPECTRAL_CONFIG_FAILED
  | WPS_INVALID_CHIP_REPET
  | WPS_HEADER_SIZE_ERROR
  | WPS_NON_MATCHING_SAME_TIMESLOT_CONN_FIELD_ERROR
  | WPS_PRIO_NOT_ENABLE_ON_ALL_CONN_ERROR
  | WPS_NOT_ALLOWED_CONN_PRIORITY_CONFIGURATION_ERROR

end
