(* ===== verification/Xlayer_Queue.thy ===== *)
theory Xlayer_Queue
  imports Fifo Radio_Types
begin

text \<open>
  The cross-layer queue of \<open>xlayer/xlayer_queue.c\<close>: intrusive singly linked lists of frame
  nodes, one free list per pool and one list per connection, over a shared store of nodes and
  queues. Nodes and queues are addressed by \<open>nat\<close> (byte addresses; \<open>sizeof_node\<close>, a parameter,
  is the size of a node), \<open>NULL\<close> is \<open>None\<close>, and the two file-scope statics of the C file are
  fields of the store.

  The code never clears \<open>head\<close>, \<open>tail\<close> or a node's \<open>next\<close>: the list of a queue is the first
  \<open>size\<close> nodes reached from \<open>head\<close> (\<open>xq_items\<close>), and \<open>xq_wf\<close> says that there are that many,
  that they are distinct and that \<open>tail\<close> is the last of them. Reading \<open>next\<close> through a \<open>NULL\<close>
  pointer, which the code would do on an ill-formed queue only, is read as \<open>NULL\<close>; \<open>xq_wf\<close>
  excludes it.
\<close>

record xlayer_queue_node =
  xn_data :: nat
  xn_xlayer :: xlayer
  home_xlayer_queue :: nat
  xn_next :: "nat option"
  copy_count :: u8

record xlayer_queue =
  xq_head :: "nat option"
  xq_tail :: "nat option"
  xq_size :: u16
  xq_max_size :: u16
  free_xlayer_queue_type :: bool
  xq_name :: string
  prev_xlayer_queue :: "nat option"

record xlayer_queue_stats =
  xlayer_queue_size :: u16
  xlayer_queue_max_size :: u16
  xlayer_queue_name :: string
  xlayer_queue_free_type :: bool

record xheap =
  xnodes :: "nat \<Rightarrow> xlayer_queue_node"
  xqueues :: "nat \<Rightarrow> xlayer_queue"
  last_xlayer_queue :: "nat option"
  stats_q_ptr :: "nat option"

definition upd_node :: "nat \<Rightarrow> (xlayer_queue_node \<Rightarrow> xlayer_queue_node) \<Rightarrow> xheap \<Rightarrow> xheap" where
  "upd_node a f h = h\<lparr>xnodes := (xnodes h)(a := f (xnodes h a))\<rparr>"

definition upd_queue :: "nat \<Rightarrow> (xlayer_queue \<Rightarrow> xlayer_queue) \<Rightarrow> xheap \<Rightarrow> xheap" where
  "upd_queue q f h = h\<lparr>xqueues := (xqueues h)(q := f (xqueues h q))\<rparr>"

definition upd_frame :: "(xlayer_frame \<Rightarrow> xlayer_frame) \<Rightarrow> xlayer_queue_node \<Rightarrow> xlayer_queue_node" where
  "upd_frame f n = n\<lparr>xn_xlayer := (xn_xlayer n)\<lparr>xl_frame := f (xl_frame (xn_xlayer n))\<rparr>\<rparr>"

section \<open>Operations\<close>

text \<open>The node loop of the two pool initialisers; \<open>p\<close> is \<open>node_ptr\<close>.\<close>

fun xq_init_nodes :: "nat \<Rightarrow> nat \<Rightarrow> nat \<Rightarrow> nat \<Rightarrow> xheap \<Rightarrow> xheap" where
  "xq_init_nodes sizeof_node q p 0 h = h"
| "xq_init_nodes sizeof_node q p (Suc k) h =
     xq_init_nodes sizeof_node q (p + sizeof_node) k
       (upd_node p (\<lambda>n. upd_frame (\<lambda>f. f\<lparr>source_address := 0, destination_address := 0,
             time_stamp := 0, retry_count := 0, max_frame_size := 0, user_payload := 0\<rparr>)
           (n\<lparr>xn_next := Some (p + sizeof_node), home_xlayer_queue := q, copy_count := 1\<rparr>)) h)"

fun xq_init_nodes_with_header ::
  "nat \<Rightarrow> u16 \<Rightarrow> nat \<Rightarrow> nat \<Rightarrow> nat \<Rightarrow> nat \<Rightarrow> xheap \<Rightarrow> xheap" where
  "xq_init_nodes_with_header sizeof_node data_size q p data 0 h = h"
| "xq_init_nodes_with_header sizeof_node data_size q p data (Suc k) h =
     xq_init_nodes_with_header sizeof_node data_size q (p + sizeof_node) (data + unat data_size) k
       (upd_node p (\<lambda>n. upd_frame (\<lambda>f. f\<lparr>source_address := 0, destination_address := 0,
             time_stamp := 0, retry_count := 0, header_memory_size := ucast data_size,
             header_memory := data, user_payload := 0\<rparr>)
           (n\<lparr>xn_next := Some (p + sizeof_node), xn_data := data, home_xlayer_queue := q,
              copy_count := 1\<rparr>)) h)"

text \<open>What both initialisers do after the loop, on the free queue \<open>q\<close>.\<close>

definition xq_init_free_queue :: "nat \<Rightarrow> nat \<Rightarrow> nat \<Rightarrow> u16 \<Rightarrow> string \<Rightarrow> xheap \<Rightarrow> xheap" where
  "xq_init_free_queue sizeof_node pool q num_nodes name h =
     (let tail = pool + unat num_nodes * sizeof_node - sizeof_node;
          h1 = upd_node tail (\<lambda>n. n\<lparr>xn_next := None\<rparr>) h;
          h2 = upd_queue q (\<lambda>u. u\<lparr>xq_head := Some pool, xq_tail := Some tail, xq_size := num_nodes,
                 xq_max_size := num_nodes, xq_name := name, free_xlayer_queue_type := True,
                 prev_xlayer_queue := last_xlayer_queue h1\<rparr>) h1
      in h2\<lparr>last_xlayer_queue := Some q\<rparr>)"

definition xlayer_queue_init_pool :: "nat \<Rightarrow> nat \<Rightarrow> nat \<Rightarrow> u16 \<Rightarrow> string \<Rightarrow> xheap \<Rightarrow> xheap" where
  "xlayer_queue_init_pool sizeof_node pool q num_nodes name h =
     xq_init_free_queue sizeof_node pool q num_nodes name
       (xq_init_nodes sizeof_node q pool (unat num_nodes) (h\<lparr>last_xlayer_queue := None\<rparr>))"

definition xlayer_queue_init_pool_with_header_data ::
  "nat \<Rightarrow> nat \<Rightarrow> nat \<Rightarrow> u16 \<Rightarrow> u16 \<Rightarrow> string \<Rightarrow> xheap \<Rightarrow> xheap" where
  "xlayer_queue_init_pool_with_header_data sizeof_node pool q num_nodes data_size name h =
     xq_init_free_queue sizeof_node pool q num_nodes name
       (xq_init_nodes_with_header sizeof_node data_size q pool
          (pool + sizeof_node * unat num_nodes) (unat num_nodes) (h\<lparr>last_xlayer_queue := None\<rparr>))"

definition xlayer_queue_init_queue :: "nat \<Rightarrow> u16 \<Rightarrow> string \<Rightarrow> xheap \<Rightarrow> xheap" where
  "xlayer_queue_init_queue q max_size name h =
     (upd_queue q (\<lambda>u. u\<lparr>xq_head := None, xq_tail := None, xq_size := 0, xq_max_size := max_size,
        xq_name := name, free_xlayer_queue_type := False,
        prev_xlayer_queue := last_xlayer_queue h\<rparr>) h)\<lparr>last_xlayer_queue := Some q\<rparr>"

definition next_of :: "xheap \<Rightarrow> nat option \<Rightarrow> nat option" where
  "next_of h p = (case p of None \<Rightarrow> None | Some a \<Rightarrow> xn_next (xnodes h a))"

definition xlayer_queue_dequeue_node :: "nat \<Rightarrow> xheap \<Rightarrow> nat option \<times> xheap" where
  "xlayer_queue_dequeue_node q h =
     (let u = xqueues h q in
      if xq_size u = 0 then (None, h)
      else if xq_size u = 1 then
        (xq_head u, upd_queue q (\<lambda>u. u\<lparr>xq_size := xq_size u - 1\<rparr>) h)
      else
        (xq_head u, upd_queue q (\<lambda>u. u\<lparr>xq_head := next_of h (xq_head u),
                                      xq_size := xq_size u - 1\<rparr>) h))"

definition xlayer_queue_enqueue_node :: "nat \<Rightarrow> nat option \<Rightarrow> xheap \<Rightarrow> bool \<times> xheap" where
  "xlayer_queue_enqueue_node q node h =
     (case node of
        None \<Rightarrow> (False, h)
      | Some a \<Rightarrow>
          (let u = xqueues h q in
           if xq_size u < xq_max_size u then
             (let h1 = (if xq_size u = 0
                        then upd_queue q (\<lambda>u. u\<lparr>xq_head := Some a\<rparr>) h
                        else (case xq_tail u of
                                None \<Rightarrow> h
                              | Some t \<Rightarrow> upd_node t (\<lambda>n. n\<lparr>xn_next := Some a\<rparr>) h))
              in (True, upd_queue q (\<lambda>u. u\<lparr>xq_tail := Some a, xq_size := xq_size u + 1\<rparr>) h1))
           else (False, h)))"

definition xlayer_queue_enqueue_at_head :: "nat \<Rightarrow> nat option \<Rightarrow> xheap \<Rightarrow> bool \<times> xheap" where
  "xlayer_queue_enqueue_at_head q node h =
     (case node of
        None \<Rightarrow> (False, h)
      | Some a \<Rightarrow>
          (let u = xqueues h q in
           if xq_size u < xq_max_size u then
             (let h1 = (if xq_size u = 0
                        then upd_queue q (\<lambda>u. u\<lparr>xq_head := Some a\<rparr>) h
                        else upd_queue q (\<lambda>u. u\<lparr>xq_head := Some a\<rparr>)
                               (upd_node a (\<lambda>n. n\<lparr>xn_next := xq_head u\<rparr>) h))
              in (True, upd_queue q (\<lambda>u. u\<lparr>xq_size := xq_size u + 1\<rparr>) h1))
           else (False, h)))"

definition xlayer_queue_get_free_node :: "nat \<Rightarrow> xheap \<Rightarrow> nat option \<times> xheap" where
  "xlayer_queue_get_free_node q h =
     (if free_xlayer_queue_type (xqueues h q) then xlayer_queue_dequeue_node q h else (None, h))"

definition xlayer_queue_free_node :: "nat option \<Rightarrow> xheap \<Rightarrow> xheap" where
  "xlayer_queue_free_node node h =
     (case node of
        None \<Rightarrow> h
      | Some a \<Rightarrow>
          (if copy_count (xnodes h a) = 1
           then snd (xlayer_queue_enqueue_node (home_xlayer_queue (xnodes h a)) (Some a) h)
           else upd_node a (\<lambda>n. n\<lparr>copy_count := copy_count n - 1\<rparr>) h))"

definition xlayer_queue_get_node :: "nat \<Rightarrow> xheap \<Rightarrow> nat option" where
  "xlayer_queue_get_node q h =
     (if free_xlayer_queue_type (xqueues h q) \<or> xq_size (xqueues h q) = 0 then None
      else xq_head (xqueues h q))"

definition xlayer_queue_get_size :: "nat option \<Rightarrow> xheap \<Rightarrow> u16" where
  "xlayer_queue_get_size q h = (case q of None \<Rightarrow> 0 | Some a \<Rightarrow> xq_size (xqueues h a))"

definition xlayer_queue_get_max_size :: "nat option \<Rightarrow> xheap \<Rightarrow> u16" where
  "xlayer_queue_get_max_size q h = (case q of None \<Rightarrow> 0 | Some a \<Rightarrow> xq_max_size (xqueues h a))"

definition xlayer_queue_get_free_space :: "nat option \<Rightarrow> xheap \<Rightarrow> u16" where
  "xlayer_queue_get_free_space q h = xlayer_queue_get_max_size q h - xlayer_queue_get_size q h"

text \<open>The \<open>while\<close> loop of the flush; \<open>None\<close> is a flush that does not return.\<close>

partial_function (option) xq_flush_loop :: "nat \<Rightarrow> nat option \<Rightarrow> xheap \<Rightarrow> xheap option" where
  "xq_flush_loop q node h =
     (case node of
        None \<Rightarrow> Some h
      | Some a \<Rightarrow>
          (let h1 = xlayer_queue_free_node (Some a) h;
               r = xlayer_queue_dequeue_node q h1
           in xq_flush_loop q (fst r) (snd r)))"

definition xlayer_queue_flush :: "nat \<Rightarrow> xheap \<Rightarrow> xheap option" where
  "xlayer_queue_flush q h =
     (if free_xlayer_queue_type (xqueues h q) then Some h
      else if xq_size (xqueues h q) = 0 then Some h
      else (let r = xlayer_queue_dequeue_node q h in xq_flush_loop q (fst r) (snd r)))"

text \<open>The search loop of the unlink: the queue found and the one that points to it.\<close>

partial_function (option) xq_unlink_find ::
  "nat \<Rightarrow> nat option \<Rightarrow> nat option \<Rightarrow> xheap \<Rightarrow> (nat option \<times> nat option) option" where
  "xq_unlink_find q q_ptr prev_qptr h =
     (case q_ptr of
        None \<Rightarrow> Some (None, prev_qptr)
      | Some p \<Rightarrow> if p = q then Some (Some p, prev_qptr)
                  else xq_unlink_find q (prev_xlayer_queue (xqueues h p)) (Some p) h)"

definition xlayer_queue_unlink :: "nat \<Rightarrow> xheap \<Rightarrow> xheap option" where
  "xlayer_queue_unlink q h =
     (if free_xlayer_queue_type (xqueues h q) then Some h
      else map_option (\<lambda>(q_ptr, prev_qptr).
        (case q_ptr of
           None \<Rightarrow> h
         | Some p \<Rightarrow>
             if q_ptr = last_xlayer_queue h
             then h\<lparr>last_xlayer_queue := prev_xlayer_queue (xqueues h p)\<rparr>
             else (case prev_qptr of
                     None \<Rightarrow> h
                   | Some pv \<Rightarrow> upd_queue pv
                       (\<lambda>u. u\<lparr>prev_xlayer_queue := prev_xlayer_queue (xqueues h p)\<rparr>) h)))
        (xq_unlink_find q (last_xlayer_queue h) (last_xlayer_queue h) h))"

definition xlayer_queue_get_stats :: "bool \<Rightarrow> xheap \<Rightarrow> xlayer_queue_stats option \<times> xheap" where
  "xlayer_queue_get_stats first h =
     (let p = (if first then last_xlayer_queue h
               else (case stats_q_ptr h of None \<Rightarrow> None
                     | Some a \<Rightarrow> prev_xlayer_queue (xqueues h a)))
      in (map_option (\<lambda>a. let u = xqueues h a in
             \<lparr>xlayer_queue_size = xq_size u, xlayer_queue_max_size = xq_max_size u,
              xlayer_queue_name = xq_name u, xlayer_queue_free_type = free_xlayer_queue_type u\<rparr>) p,
          h\<lparr>stats_q_ptr := p\<rparr>))"

definition xlayer_queue_inc_copy_count :: "nat \<Rightarrow> xheap \<Rightarrow> xheap" where
  "xlayer_queue_inc_copy_count a = upd_node a (\<lambda>n. n\<lparr>copy_count := copy_count n + 1\<rparr>)"

definition XLAYER_QUEUE_SPI_COMM_ADDITIONAL_BYTES :: nat where
  "XLAYER_QUEUE_SPI_COMM_ADDITIONAL_BYTES = 2"

definition xlayer_queue_set_tx_frame_buffer :: "u8 \<Rightarrow> nat \<Rightarrow> xlayer_frame \<Rightarrow> xlayer_frame" where
  "xlayer_queue_set_tx_frame_buffer header_size buffer f =
     (let hb = buffer + (unat header_size + XLAYER_QUEUE_SPI_COMM_ADDITIONAL_BYTES - 1)
      in f\<lparr>header_begin_it := hb,
           payload_begin_it := buffer + (unat header_size + XLAYER_QUEUE_SPI_COMM_ADDITIONAL_BYTES),
           header_end_it := hb, header_memory := buffer\<rparr>)"

definition xlayer_queue_get_tx_required_bytes :: "nat \<Rightarrow> u16 \<Rightarrow> u16" where
  "xlayer_queue_get_tx_required_bytes sizeof_node num_nodes = of_nat (unat num_nodes * sizeof_node)"

definition xlayer_queue_get_rx_required_bytes :: "nat \<Rightarrow> u16 \<Rightarrow> u8 \<Rightarrow> u16" where
  "xlayer_queue_get_rx_required_bytes sizeof_node num_nodes max_header_size =
     of_nat (unat num_nodes * (sizeof_node + unat max_header_size))"

section \<open>Representation invariant and abstract view\<close>

fun xq_walk :: "xheap \<Rightarrow> nat \<Rightarrow> nat option \<Rightarrow> nat list" where
  "xq_walk h 0 p = []"
| "xq_walk h (Suc n) None = []"
| "xq_walk h (Suc n) (Some a) = a # xq_walk h n (xn_next (xnodes h a))"

definition xq_items :: "xheap \<Rightarrow> nat \<Rightarrow> nat list" where
  "xq_items h q = xq_walk h (unat (xq_size (xqueues h q))) (xq_head (xqueues h q))"

definition xq_cap :: "xheap \<Rightarrow> nat \<Rightarrow> nat" where
  "xq_cap h q = unat (xq_max_size (xqueues h q))"

definition xq_wf :: "xheap \<Rightarrow> nat \<Rightarrow> bool" where
  "xq_wf h q \<longleftrightarrow>
     length (xq_items h q) = unat (xq_size (xqueues h q)) \<and>
     xq_size (xqueues h q) \<le> xq_max_size (xqueues h q) \<and>
     distinct (xq_items h q) \<and>
     (xq_items h q \<noteq> [] \<longrightarrow> xq_tail (xqueues h q) = Some (last (xq_items h q)))"

text \<open>
  A set of queues is separated when each is well-formed and no node is on two of them: the
  state the pools and the connections keep.
\<close>

definition xheap_wf :: "nat set \<Rightarrow> xheap \<Rightarrow> bool" where
  "xheap_wf qs h \<longleftrightarrow>
     (\<forall>q\<in>qs. xq_wf h q) \<and>
     (\<forall>q\<in>qs. \<forall>r\<in>qs. q \<noteq> r \<longrightarrow> set (xq_items h q) \<inter> set (xq_items h r) = {})"

lemma upd_node_simps [simp]:
  "xqueues (upd_node a f h) = xqueues h"
  "xnodes (upd_node a f h) = (xnodes h)(a := f (xnodes h a))"
  "last_xlayer_queue (upd_node a f h) = last_xlayer_queue h"
  by (simp_all add: upd_node_def)

lemma upd_queue_simps [simp]:
  "xnodes (upd_queue q f h) = xnodes h"
  "xqueues (upd_queue q f h) = (xqueues h)(q := f (xqueues h q))"
  "last_xlayer_queue (upd_queue q f h) = last_xlayer_queue h"
  by (simp_all add: upd_queue_def)

lemma walk_numeral [simp]:
  "xq_walk h (numeral k) p =
     (case p of None \<Rightarrow> [] | Some a \<Rightarrow> a # xq_walk h (pred_numeral k) (xn_next (xnodes h a)))"
  by (cases p) (simp_all add: numeral_eq_Suc)

lemma init_nodes_numeral [simp]:
  "xq_init_nodes sz q p (numeral k) h = xq_init_nodes sz q (p + sz) (pred_numeral k)
     (upd_node p (\<lambda>n. upd_frame (\<lambda>f. f\<lparr>source_address := 0, destination_address := 0,
           time_stamp := 0, retry_count := 0, max_frame_size := 0, user_payload := 0\<rparr>)
         (n\<lparr>xn_next := Some (p + sz), home_xlayer_queue := q, copy_count := 1\<rparr>)) h)"
  by (simp add: numeral_eq_Suc)

lemma length_walk: "length (xq_walk h n p) \<le> n"
  by (induction h n p rule: xq_walk.induct) auto

text \<open>A walk reads the \<open>next\<close> field of every node it visits but the last.\<close>

lemma walk_cong:
  assumes "\<And>a. a \<in> set (butlast (xq_walk h n p)) \<Longrightarrow> xn_next (xnodes h' a) = xn_next (xnodes h a)"
    and "length (xq_walk h n p) = n"
  shows "xq_walk h' n p = xq_walk h n p"
  using assms
proof (induction h n p rule: xq_walk.induct)
  case (3 h n a)
  show ?case
  proof (cases n)
    case 0
    then show ?thesis by simp
  next
    case (Suc m)
    let ?w = "xq_walk h n (xn_next (xnodes h a))"
    have len: "length ?w = n" using "3.prems"(2) by simp
    then have ne: "?w \<noteq> []" using Suc by auto
    have eq: "xn_next (xnodes h' a) = xn_next (xnodes h a)"
      using "3.prems"(1) [of a] ne by simp
    have "xq_walk h' n (xn_next (xnodes h a)) = ?w"
      using "3.IH" "3.prems"(1) len ne by simp
    with eq show ?thesis by simp
  qed
qed auto

lemma walk_frame:
  assumes "xnodes h' = xnodes h"
  shows "xq_walk h' n p = xq_walk h n p"
proof (induction n arbitrary: p)
  case 0
  show ?case by simp
next
  case (Suc n)
  then show ?case by (cases p) (simp_all add: assms)
qed

lemma items_frame:
  assumes "xnodes h' = xnodes h" "xqueues h' q = xqueues h q"
  shows "xq_items h' q = xq_items h q" "xq_wf h' q = xq_wf h q"
  using assms walk_frame [OF assms(1)] by (simp_all add: xq_items_def xq_wf_def)

lemma walk_snoc:
  assumes "length (xq_walk h n p) = n" "0 < n"
    and "xn_next (xnodes h (last (xq_walk h n p))) = Some a"
  shows "xq_walk h (Suc n) p = xq_walk h n p @ [a]"
  using assms
proof (induction h n p rule: xq_walk.induct)
  case (3 h n b)
  show ?case
  proof (cases n)
    case 0
    with "3.prems" show ?thesis by simp
  next
    case (Suc m)
    let ?w = "xq_walk h n (xn_next (xnodes h b))"
    have len: "length ?w = n" using "3.prems"(1) by simp
    then have ne: "?w \<noteq> []" using Suc by auto
    have "xq_walk h (Suc n) (xn_next (xnodes h b)) = ?w @ [a]"
      using "3.IH" "3.prems"(3) len ne Suc by simp
    then show ?thesis by simp
  qed
qed auto

lemma wf_head:
  assumes "xq_wf h q" "xq_size (xqueues h q) \<noteq> 0"
  shows "xq_head (xqueues h q) = Some (hd (xq_items h q))" "xq_items h q \<noteq> []"
proof -
  have n: "0 < unat (xq_size (xqueues h q))" using assms(2) by (simp add: unat_pos)
  with assms(1) show ne: "xq_items h q \<noteq> []" by (auto simp: xq_wf_def)
  obtain m where m: "unat (xq_size (xqueues h q)) = Suc m" using n by (cases "unat (xq_size (xqueues h q))") auto
  show "xq_head (xqueues h q) = Some (hd (xq_items h q))"
    using ne m by (cases "xq_head (xqueues h q)") (auto simp: xq_items_def)
qed

lemma wf_size:
  "xq_wf h q \<Longrightarrow> xq_size (xqueues h q) = 0 \<longleftrightarrow> xq_items h q = []"
  by (metis length_0_conv unat_eq_zero xq_wf_def)

lemma wf_bound: "xq_wf h q \<Longrightarrow> length (xq_items h q) \<le> xq_cap h q"
  by (simp add: xq_wf_def xq_cap_def word_le_nat_alt)

lemma wf_full_iff:
  "xq_wf h q \<Longrightarrow> xq_size (xqueues h q) < xq_max_size (xqueues h q) \<longleftrightarrow> length (xq_items h q) < xq_cap h q"
  by (simp add: xq_wf_def xq_cap_def word_less_nat_alt)

section \<open>Enqueue at the tail\<close>

lemma node_enqueue_full:
  "xq_wf h q \<Longrightarrow> length (xq_items h q) = xq_cap h q \<Longrightarrow> xlayer_queue_enqueue_node q (Some a) h = (False, h)"
  using wf_full_iff [of h q] by (simp add: xlayer_queue_enqueue_node_def)

text \<open>
  The whole effect of a successful enqueue: the node is appended, the capacity is kept, and
  only the \<open>next\<close> field of the old tail and the queue itself are written.
\<close>

lemma enqueue_effect:
  assumes wf: "xq_wf h q" and room: "length (xq_items h q) < xq_cap h q"
    and e: "xlayer_queue_enqueue_node q (Some a) h = (ok, h')"
  shows "ok" "xq_size (xqueues h' q) = xq_size (xqueues h q) + 1"
    "xq_tail (xqueues h' q) = Some a"
    "xq_max_size (xqueues h' q) = xq_max_size (xqueues h q)"
    "free_xlayer_queue_type (xqueues h' q) = free_xlayer_queue_type (xqueues h q)"
    "q' \<noteq> q \<Longrightarrow> xqueues h' q' = xqueues h q'"
    "xn_next (xnodes h' b) =
       (if xq_items h q \<noteq> [] \<and> b = last (xq_items h q) then Some a else xn_next (xnodes h b))"
    "copy_count (xnodes h' b) = copy_count (xnodes h b)"
    "home_xlayer_queue (xnodes h' b) = home_xlayer_queue (xnodes h b)"
    "xq_items h q \<noteq> [] \<Longrightarrow> xq_head (xqueues h' q) = xq_head (xqueues h q)"
    "xq_items h q = [] \<Longrightarrow> xq_head (xqueues h' q) = Some a"
proof -
  have lt: "xq_size (xqueues h q) < xq_max_size (xqueues h q)"
    using wf room wf_full_iff by blast
  have t: "xq_items h q \<noteq> [] \<Longrightarrow> xq_tail (xqueues h q) = Some (last (xq_items h q))"
    using wf by (simp add: xq_wf_def)
  have h': "ok \<and> h' = (if xq_items h q = []
      then upd_queue q (\<lambda>u. u\<lparr>xq_tail := Some a, xq_size := xq_size u + 1\<rparr>)
             (upd_queue q (\<lambda>u. u\<lparr>xq_head := Some a\<rparr>) h)
      else upd_queue q (\<lambda>u. u\<lparr>xq_tail := Some a, xq_size := xq_size u + 1\<rparr>)
             (upd_node (last (xq_items h q)) (\<lambda>n. n\<lparr>xn_next := Some a\<rparr>) h))"
    using e lt t wf_size [OF wf]
    by (cases "xq_items h q = []") (auto simp: xlayer_queue_enqueue_node_def Let_def)
  show "ok" "xq_size (xqueues h' q) = xq_size (xqueues h q) + 1" "xq_tail (xqueues h' q) = Some a"
    "xq_max_size (xqueues h' q) = xq_max_size (xqueues h q)"
    "free_xlayer_queue_type (xqueues h' q) = free_xlayer_queue_type (xqueues h q)"
    "q' \<noteq> q \<Longrightarrow> xqueues h' q' = xqueues h q'"
    "copy_count (xnodes h' b) = copy_count (xnodes h b)"
    "home_xlayer_queue (xnodes h' b) = home_xlayer_queue (xnodes h b)"
    "xn_next (xnodes h' b) =
       (if xq_items h q \<noteq> [] \<and> b = last (xq_items h q) then Some a else xn_next (xnodes h b))"
    "xq_items h q \<noteq> [] \<Longrightarrow> xq_head (xqueues h' q) = xq_head (xqueues h q)"
    "xq_items h q = [] \<Longrightarrow> xq_head (xqueues h' q) = Some a"
    using h' by (simp_all split: if_splits)
qed

lemma butlast_distinct_last:
  "distinct xs \<Longrightarrow> xs \<noteq> [] \<Longrightarrow> last xs \<notin> set (butlast xs)"
  by (metis append_butlast_last_id distinct.simps(2) distinct1_rotate rotate1.simps(2))

lemma enqueue_items:
  assumes wf: "xq_wf h q" and room: "length (xq_items h q) < xq_cap h q"
    and e: "xlayer_queue_enqueue_node q (Some a) h = (ok, h')"
  shows "xq_items h' q = xq_items h q @ [a]"
proof -
  note eff = enqueue_effect [OF wf room e]
  let ?n = "unat (xq_size (xqueues h q))"
  have lt: "xq_size (xqueues h q) < xq_max_size (xqueues h q)" using wf room wf_full_iff by blast
  have n': "unat (xq_size (xqueues h' q)) = Suc ?n" using eff(2) unat_inc [OF lt] by simp
  show ?thesis
  proof (cases "xq_items h q = []")
    case True
    then have "?n = 0" using wf by (simp add: xq_wf_def)
    with True eff(11) n' show ?thesis by (simp add: xq_items_def)
  next
    case False
    have len: "length (xq_walk h ?n (xq_head (xqueues h q))) = ?n"
      using wf by (simp add: xq_wf_def xq_items_def)
    have dis: "distinct (xq_items h q)" using wf by (simp add: xq_wf_def)
    have w: "xq_walk h' ?n (xq_head (xqueues h q)) = xq_items h q"
      unfolding xq_items_def
      using eff(7) butlast_distinct_last [OF dis False] False len
      by (intro walk_cong) (auto simp: xq_items_def)
    have "xq_walk h' (Suc ?n) (xq_head (xqueues h q)) = xq_items h q @ [a]"
    proof -
      have n: "0 < ?n" using False wf by (simp add: xq_wf_def flip: length_greater_0_conv)
      have nx: "xn_next (xnodes h' (last (xq_items h q))) = Some a" using eff(7) False by simp
      show ?thesis
        using walk_snoc [of h' ?n "xq_head (xqueues h q)" a] w n nx len by (simp add: xq_items_def)
    qed
    with n' eff(10) [OF False] show ?thesis by (simp add: xq_items_def)
  qed
qed

lemma enqueue_wf [wf_intros]:
  assumes wf: "xq_wf h q" and fresh: "a \<notin> set (xq_items h q)"
    and e: "xlayer_queue_enqueue_node q (Some a) h = (ok, h')"
  shows "xq_wf h' q"
proof (cases "length (xq_items h q) < xq_cap h q")
  case True
  note eff = enqueue_effect [OF wf True e] and it = enqueue_items [OF wf True e]
  have lt: "xq_size (xqueues h q) < xq_max_size (xqueues h q)" using wf True wf_full_iff by blast
  then have "unat (xq_size (xqueues h' q)) = Suc (unat (xq_size (xqueues h q)))"
    and "xq_size (xqueues h' q) \<le> xq_max_size (xqueues h' q)"
    using eff(2,4) unat_inc [OF lt] by (simp_all add: word_le_nat_alt word_less_nat_alt)
  with it wf fresh eff(3) show ?thesis by (simp add: xq_wf_def)
next
  case False
  with wf_bound [OF wf] node_enqueue_full [OF wf] e wf show ?thesis by simp
qed

text \<open>Separated queues do not see an enqueue on another one.\<close>

lemma enqueue_others:
  assumes wf: "xq_wf h q" and e: "xlayer_queue_enqueue_node q (Some a) h = (ok, h')"
    and o: "q' \<noteq> q" "xq_wf h q'" "set (xq_items h q') \<inter> set (xq_items h q) = {}"
  shows "xq_items h' q' = xq_items h q' \<and> xq_wf h' q'"
proof (cases "length (xq_items h q) < xq_cap h q")
  case True
  note eff = enqueue_effect [OF wf True e]
  have "xq_walk h' (unat (xq_size (xqueues h q'))) (xq_head (xqueues h q')) = xq_items h q'"
    unfolding xq_items_def
  proof (rule walk_cong)
    fix b
    assume "b \<in> set (butlast (xq_walk h (unat (xq_size (xqueues h q'))) (xq_head (xqueues h q'))))"
    then have "b \<in> set (xq_items h q')" by (auto simp: xq_items_def dest: in_set_butlastD)
    then have "b \<notin> set (xq_items h q)" using o(3) by auto
    then show "xn_next (xnodes h' b) = xn_next (xnodes h b)"
      using eff(7) [of b] by auto
  next
    show "length (xq_walk h (unat (xq_size (xqueues h q'))) (xq_head (xqueues h q')))
            = unat (xq_size (xqueues h q'))"
      using o(2) by (simp add: xq_wf_def xq_items_def)
  qed
  with eff(6) [OF o(1)] o(2) show ?thesis by (simp add: xq_items_def xq_wf_def)
next
  case False
  with wf_bound [OF wf] node_enqueue_full [OF wf] e o(2) show ?thesis by simp
qed

section \<open>Dequeue\<close>

lemma dequeue_empty: "xq_wf h q \<Longrightarrow> xq_items h q = [] \<Longrightarrow> xlayer_queue_dequeue_node q h = (None, h)"
  using wf_size [of h q] by (simp add: xlayer_queue_dequeue_node_def)

lemma dequeue_Cons:
  assumes wf: "xq_wf h q" and it: "xq_items h q = a # ns"
    and d: "xlayer_queue_dequeue_node q h = (r, h')"
  shows "r = Some a" "xq_items h' q = ns" "xq_wf h' q" "xnodes h' = xnodes h"
    "q' \<noteq> q \<Longrightarrow> xqueues h' q' = xqueues h q'" "xq_cap h' q = xq_cap h q"
    "free_xlayer_queue_type (xqueues h' q) = free_xlayer_queue_type (xqueues h q)"
proof -
  let ?s = "xq_size (xqueues h q)"
  have ne: "?s \<noteq> 0" using it wf_size [OF wf] by simp
  have hd: "xq_head (xqueues h q) = Some a" using wf_head [OF wf ne] it by simp
  have len: "Suc (length ns) = unat ?s" using wf it by (simp add: xq_wf_def)
  have s1: "unat (?s - 1) = length ns" using unat_dec [OF ne] len by simp
  have one: "?s = 1 \<longleftrightarrow> ns = []"
    using len by (auto simp: word_unat_eq_iff)
  have h': "r = Some a \<and> h' = upd_queue q (\<lambda>u. if ns = [] then u\<lparr>xq_size := xq_size u - 1\<rparr>
      else u\<lparr>xq_head := xn_next (xnodes h a), xq_size := xq_size u - 1\<rparr>) h"
    using d ne one
    by (cases "ns = []")
      (auto simp: xlayer_queue_dequeue_node_def hd next_of_def upd_queue_def Let_def)
  then show "r = Some a" "xnodes h' = xnodes h" "q' \<noteq> q \<Longrightarrow> xqueues h' q' = xqueues h q'"
    "xq_cap h' q = xq_cap h q"
    "free_xlayer_queue_type (xqueues h' q) = free_xlayer_queue_type (xqueues h q)"
    by (simp_all add: xq_cap_def)
  have sz: "xq_size (xqueues h' q) = ?s - 1"
    and tl: "xq_tail (xqueues h' q) = xq_tail (xqueues h q)"
    and mx: "xq_max_size (xqueues h' q) = xq_max_size (xqueues h q)"
    and nh: "ns \<noteq> [] \<Longrightarrow> xq_head (xqueues h' q) = xn_next (xnodes h a)"
    using h' by simp_all
  have w: "xq_walk h (length ns) (xn_next (xnodes h a)) = ns"
    using it by (simp add: xq_items_def hd len [symmetric])
  show items: "xq_items h' q = ns"
  proof (cases "ns = []")
    case True
    then show ?thesis using sz s1 by (simp add: xq_items_def)
  next
    case False
    then show ?thesis
      using sz s1 nh w walk_frame [OF \<open>xnodes h' = xnodes h\<close>] by (simp add: xq_items_def)
  qed
  have "?s - 1 \<le> ?s" using ne by (simp add: word_le_nat_alt unat_dec)
  then have "?s - 1 \<le> xq_max_size (xqueues h q)" using wf by (auto simp: xq_wf_def)
  with items wf it sz s1 tl mx show "xq_wf h' q" by (auto simp: xq_wf_def)
qed

lemma dequeue_others:
  assumes wf: "xq_wf h q" and d: "xlayer_queue_dequeue_node q h = (r, h')" and "q' \<noteq> q"
  shows "xq_items h' q' = xq_items h q'" "xq_wf h' q' = xq_wf h q'"
proof -
  have "xnodes h' = xnodes h \<and> xqueues h' q' = xqueues h q'"
  proof (cases "xq_items h q")
    case Nil
    with dequeue_empty [OF wf] d show ?thesis by simp
  next
    case (Cons a ns)
    with dequeue_Cons [OF wf Cons d] \<open>q' \<noteq> q\<close> show ?thesis by simp
  qed
  then show "xq_items h' q' = xq_items h q'" "xq_wf h' q' = xq_wf h q'"
    using items_frame [of h' h q'] by simp_all
qed

section \<open>Separated queues\<close>

lemma xheap_enqueue:
  assumes wf: "xheap_wf qs h" and q: "q \<in> qs" and fresh: "\<forall>r\<in>qs. a \<notin> set (xq_items h r)"
    and room: "length (xq_items h q) < xq_cap h q"
    and e: "xlayer_queue_enqueue_node q (Some a) h = (ok, h')"
  shows "xheap_wf qs h'" "r \<in> qs \<Longrightarrow> xq_items h' r = xq_items h r @ (if r = q then [a] else [])"
    "xq_cap h' r = xq_cap h r"
    "free_xlayer_queue_type (xqueues h' r) = free_xlayer_queue_type (xqueues h r)"
proof -
  have wq: "xq_wf h q" using wf q by (simp add: xheap_wf_def)
  have it: "r \<in> qs \<Longrightarrow> xq_items h' r = xq_items h r @ (if r = q then [a] else [])" for r
    using enqueue_items [OF wq room e] enqueue_others [OF wq e, of r] wf q
    by (auto simp: xheap_wf_def)
  then show "r \<in> qs \<Longrightarrow> xq_items h' r = xq_items h r @ (if r = q then [a] else [])" .
  have "r \<in> qs \<Longrightarrow> xq_wf h' r" for r
    using enqueue_wf [OF wq _ e] enqueue_others [OF wq e, of r] wf q fresh
    by (cases "r = q") (auto simp: xheap_wf_def)
  moreover have "set (xq_items h' p) \<inter> set (xq_items h' r) = {}"
    if pr: "p \<in> qs" "r \<in> qs" "p \<noteq> r" for p r
  proof -
    have "set (xq_items h p) \<inter> set (xq_items h r) = {}" using wf pr by (simp add: xheap_wf_def)
    then show ?thesis using it [OF pr(1)] it [OF pr(2)] fresh pr by (auto simp: disjoint_iff)
  qed
  ultimately show "xheap_wf qs h'" by (simp add: xheap_wf_def)
  show "xq_cap h' r = xq_cap h r"
    using enqueue_effect(4) [OF wq room e] enqueue_effect(6) [OF wq room e, of r]
    by (cases "r = q") (simp_all add: xq_cap_def)
  show "free_xlayer_queue_type (xqueues h' r) = free_xlayer_queue_type (xqueues h r)"
    using enqueue_effect(5) [OF wq room e] enqueue_effect(6) [OF wq room e, of r]
    by (cases "r = q") simp_all
qed

lemma xheap_dequeue:
  assumes wf: "xheap_wf qs h" and q: "q \<in> qs" and it: "xq_items h q = a # ns"
    and d: "xlayer_queue_dequeue_node q h = (r, h')"
  shows "xheap_wf qs h'" "r = Some a" "xq_items h' q = ns" "xnodes h' = xnodes h"
    "\<forall>p. p \<noteq> q \<longrightarrow> xq_items h' p = xq_items h p" "\<forall>p. xq_cap h' p = xq_cap h p"
    "\<forall>p\<in>qs. a \<notin> set (xq_items h' p)"
proof -
  have wq: "xq_wf h q" using wf q by (simp add: xheap_wf_def)
  note c = dequeue_Cons [OF wq it d]
  show "r = Some a" "xq_items h' q = ns" "xnodes h' = xnodes h" using c by simp_all
  show o: "\<forall>p. p \<noteq> q \<longrightarrow> xq_items h' p = xq_items h p"
    using dequeue_others [OF wq d] by blast
  show "\<forall>p. xq_cap h' p = xq_cap h p"
  proof
    fix p
    show "xq_cap h' p = xq_cap h p" using c(5) [of p] c(6) by (cases "p = q") (simp_all add: xq_cap_def)
  qed
  have sub: "set (xq_items h' p) \<subseteq> set (xq_items h p)" for p
    using o c(2) it by (cases "p = q") auto
  have "\<forall>p\<in>qs. xq_wf h' p"
    using wf c(3) dequeue_others(2) [OF wq d] by (metis xheap_wf_def)
  moreover have "\<forall>p\<in>qs. \<forall>r\<in>qs. p \<noteq> r \<longrightarrow> set (xq_items h' p) \<inter> set (xq_items h' r) = {}"
    using wf sub unfolding xheap_wf_def by blast
  ultimately show "xheap_wf qs h'" by (simp add: xheap_wf_def)
  have dis: "distinct (a # ns)" using wq it by (simp add: xq_wf_def)
  have "p \<in> qs \<Longrightarrow> a \<notin> set (xq_items h' p)" for p
  proof (cases "p = q")
    case True
    with c(2) dis show ?thesis by simp
  next
    case False
    assume "p \<in> qs"
    then have "set (xq_items h p) \<inter> set (xq_items h q) = {}"
      using wf q False by (simp add: xheap_wf_def)
    with it o False show ?thesis by auto
  qed
  then show "\<forall>p\<in>qs. a \<notin> set (xq_items h' p)" by blast
qed

section \<open>Freeing and flushing\<close>

definition returns_to :: "xheap \<Rightarrow> nat \<Rightarrow> nat \<Rightarrow> bool" where
  "returns_to h r n \<longleftrightarrow> copy_count (xnodes h n) = 1 \<and> home_xlayer_queue (xnodes h n) = r"

lemma free_node_shared:
  assumes "copy_count (xnodes h a) \<noteq> 1"
  shows "xq_items (xlayer_queue_free_node (Some a) h) q = xq_items h q"
    "xqueues (xlayer_queue_free_node (Some a) h) = xqueues h"
    "xheap_wf qs (xlayer_queue_free_node (Some a) h) = xheap_wf qs h"
proof -
  let ?h = "xlayer_queue_free_node (Some a) h"
  have h': "?h = upd_node a (\<lambda>n. n\<lparr>copy_count := copy_count n - 1\<rparr>) h"
    using assms by (simp add: xlayer_queue_free_node_def)
  have w: "xq_walk ?h n p = xq_walk h n p" for n p
  proof (induction n arbitrary: p)
    case (Suc n)
    then show ?case by (cases p) (simp_all add: h')
  qed simp
  show qq: "xqueues ?h = xqueues h" by (simp add: h')
  have i: "xq_items ?h q = xq_items h q" for q by (simp add: xq_items_def qq w)
  then show "xq_items ?h q = xq_items h q" .
  show "xheap_wf qs ?h = xheap_wf qs h" by (simp add: xheap_wf_def xq_wf_def i qq)
qed

text \<open>
  Freeing a node nobody holds: it goes back to its home queue when this was the last copy and
  only its copy count drops otherwise. Nothing else changes.
\<close>

lemma free_node_effect:
  fixes h :: xheap and a :: nat
  assumes wf: "xheap_wf qs h" and fresh: "\<forall>r\<in>qs. a \<notin> set (xq_items h r)"
    and home: "home_xlayer_queue (xnodes h a) \<in> qs"
    and room: "length (xq_items h (home_xlayer_queue (xnodes h a))) < xq_cap h (home_xlayer_queue (xnodes h a))"
  defines "h' \<equiv> xlayer_queue_free_node (Some a) h"
  shows "xheap_wf qs h'" "r \<in> qs \<Longrightarrow> xq_items h' r = xq_items h r @ (if returns_to h r a then [a] else [])"
    "xq_cap h' r = xq_cap h r" "b \<noteq> a \<Longrightarrow> copy_count (xnodes h' b) = copy_count (xnodes h b)"
    "home_xlayer_queue (xnodes h' b) = home_xlayer_queue (xnodes h b)"
proof -
  have "xheap_wf qs h' \<and>
    (r \<in> qs \<longrightarrow> xq_items h' r = xq_items h r @ (if returns_to h r a then [a] else [])) \<and>
    xq_cap h' r = xq_cap h r \<and> (b \<noteq> a \<longrightarrow> copy_count (xnodes h' b) = copy_count (xnodes h b)) \<and>
    home_xlayer_queue (xnodes h' b) = home_xlayer_queue (xnodes h b)"
  proof (cases "copy_count (xnodes h a) = 1")
  case True
  let ?q = "home_xlayer_queue (xnodes h a)"
  obtain ok g where e: "xlayer_queue_enqueue_node ?q (Some a) h = (ok, g)"
    by (cases "xlayer_queue_enqueue_node ?q (Some a) h") auto
  have g: "h' = g" using True e by (simp add: h'_def xlayer_queue_free_node_def)
  have wq: "xq_wf h ?q" using wf home by (simp add: xheap_wf_def)
  show ?thesis
    using xheap_enqueue [OF wf home fresh room e] enqueue_effect(8,9) [OF wq room e] True g
    by (auto simp: returns_to_def)
  next
  case False
  then have "h' = upd_node a (\<lambda>n. n\<lparr>copy_count := copy_count n - 1\<rparr>) h"
    by (simp add: h'_def xlayer_queue_free_node_def)
  then show ?thesis
    using free_node_shared [OF False] False wf by (simp add: h'_def returns_to_def xq_cap_def)
  qed
  then show "xheap_wf qs h'" "r \<in> qs \<Longrightarrow> xq_items h' r = xq_items h r @ (if returns_to h r a then [a] else [])"
    "xq_cap h' r = xq_cap h r" "b \<noteq> a \<Longrightarrow> copy_count (xnodes h' b) = copy_count (xnodes h b)"
    "home_xlayer_queue (xnodes h' b) = home_xlayer_queue (xnodes h b)"
    by blast+
qed

text \<open>
  The flush loop, holding node \<open>a\<close> while \<open>ns\<close> is still queued: it returns, the queue is
  empty, and every other queue received exactly the nodes that had it as home and no other
  copy, in order.
\<close>

lemma flush_loop:
  assumes "xheap_wf qs h" "q \<in> qs" "xq_items h q = ns" "distinct (a # ns)"
    "\<forall>r\<in>qs. a \<notin> set (xq_items h r)"
    "\<forall>n\<in>set (a # ns). home_xlayer_queue (xnodes h n) \<in> qs - {q}"
    "\<forall>r\<in>qs - {q}. length (xq_items h r) + length [n\<leftarrow>a # ns. home_xlayer_queue (xnodes h n) = r] \<le> xq_cap h r"
  shows "\<exists>h'. xq_flush_loop q (Some a) h = Some h' \<and> xheap_wf qs h' \<and> xq_items h' q = [] \<and>
     (\<forall>r\<in>qs - {q}. xq_items h' r = xq_items h r @ filter (returns_to h r) (a # ns))"
  using assms
proof (induction ns arbitrary: a h)
  case (Nil a h)
  let ?h1 = "xlayer_queue_free_node (Some a) h"
  have hm: "home_xlayer_queue (xnodes h a) \<in> qs - {q}" using Nil.prems by simp
  with Nil.prems(7) have "length (xq_items h (home_xlayer_queue (xnodes h a)))
      < xq_cap h (home_xlayer_queue (xnodes h a))" by force
  note f = free_node_effect [OF Nil.prems(1,5) _ this]
  have i1: "xq_items ?h1 q = []" using f(2) [of q] hm Nil.prems(2,3) by (auto simp: returns_to_def)
  moreover have w1: "xheap_wf qs ?h1" using f hm by simp
  ultimately have "xlayer_queue_dequeue_node q ?h1 = (None, ?h1)"
    using dequeue_empty [of ?h1 q] Nil.prems(2) by (simp add: xheap_wf_def)
  then have "xq_flush_loop q (Some a) h = Some ?h1"
    by (simp add: xq_flush_loop.simps [of q "Some a"] xq_flush_loop.simps [of q None])
  then show ?case using i1 w1 f(2) hm by auto
next
  case (Cons c ns a h)
  let ?h1 = "xlayer_queue_free_node (Some a) h"
  have hm: "home_xlayer_queue (xnodes h a) \<in> qs - {q}" using Cons.prems by simp
  with Cons.prems(7) have room: "length (xq_items h (home_xlayer_queue (xnodes h a)))
      < xq_cap h (home_xlayer_queue (xnodes h a))" by force
  note f = free_node_effect [OF Cons.prems(1,5) _ room]
  have hq: "home_xlayer_queue (xnodes h a) \<in> qs" using hm by simp
  have w1: "xheap_wf qs ?h1" using f(1) hq by simp
  have i1: "xq_items ?h1 q = c # ns"
    using f(2) [of q] hm hq Cons.prems(2,3) by (auto simp: returns_to_def)
  obtain x h2 where d: "xlayer_queue_dequeue_node q ?h1 = (x, h2)"
    by (cases "xlayer_queue_dequeue_node q ?h1") auto
  note x = xheap_dequeue [OF w1 Cons.prems(2) i1 d]
  have same: "copy_count (xnodes h2 n) = copy_count (xnodes h n) \<and>
      home_xlayer_queue (xnodes h2 n) = home_xlayer_queue (xnodes h n)" if "n \<in> set (c # ns)" for n
    using f(4,5) [of n] hq x(4) that Cons.prems(4) by auto
  have it2: "xq_items h2 r = xq_items h r @ (if returns_to h r a then [a] else [])"
    if "r \<in> qs - {q}" for r
    using f(2) [of r] hq x(5) that by simp
  have ret: "filter (returns_to h2 r) (c # ns) = filter (returns_to h r) (c # ns)" for r
    by (intro filter_cong refl) (use same in \<open>simp add: returns_to_def\<close>)
  have hf: "[n\<leftarrow>c # ns. home_xlayer_queue (xnodes h2 n) = r] = [n\<leftarrow>c # ns. home_xlayer_queue (xnodes h n) = r]"
    for r by (intro filter_cong refl) (use same in simp)
  have "\<exists>h'. xq_flush_loop q (Some c) h2 = Some h' \<and> xheap_wf qs h' \<and> xq_items h' q = [] \<and>
     (\<forall>r\<in>qs - {q}. xq_items h' r = xq_items h2 r @ filter (returns_to h2 r) (c # ns))"
  proof (rule Cons.IH [OF x(1) Cons.prems(2) x(3) _ x(7)])
    show "distinct (c # ns)" using Cons.prems(4) by simp
    show "\<forall>n\<in>set (c # ns). home_xlayer_queue (xnodes h2 n) \<in> qs - {q}"
      using same Cons.prems(6) by simp
    show "\<forall>r\<in>qs - {q}. length (xq_items h2 r)
        + length [n\<leftarrow>c # ns. home_xlayer_queue (xnodes h2 n) = r] \<le> xq_cap h2 r"
    proof
      fix r assume r: "r \<in> qs - {q}"
      have "xq_cap h2 r = xq_cap h r" using x(6) f(3) hq by simp
      moreover have "length [n\<leftarrow>a # c # ns. home_xlayer_queue (xnodes h n) = r] =
          (if home_xlayer_queue (xnodes h a) = r then 1 else 0)
          + length [n\<leftarrow>c # ns. home_xlayer_queue (xnodes h n) = r]" by simp
      ultimately
      show "length (xq_items h2 r) + length [n\<leftarrow>c # ns. home_xlayer_queue (xnodes h2 n) = r] \<le> xq_cap h2 r"
        using Cons.prems(7) [rule_format, OF r] unfolding it2 [OF r] hf [of r]
        by (auto simp: returns_to_def simp del: filter.simps split: if_splits)
    qed
  qed
  then obtain h' where l: "xq_flush_loop q (Some c) h2 = Some h'" and p: "xheap_wf qs h'" "xq_items h' q = []"
    and o: "\<forall>r\<in>qs - {q}. xq_items h' r = xq_items h2 r @ filter (returns_to h2 r) (c # ns)" by blast
  have "xq_flush_loop q (Some a) h = Some h'"
    using l d x(2) by (simp add: xq_flush_loop.simps [of q "Some a"])
  moreover have "\<forall>r\<in>qs - {q}. xq_items h' r = xq_items h r @ filter (returns_to h r) (a # c # ns)"
    using o it2 ret by auto
  ultimately show ?case using p by blast
qed

lemma flush_returns:
  assumes wf: "xheap_wf qs h" and q: "q \<in> qs" and conn: "\<not> free_xlayer_queue_type (xqueues h q)"
    and home: "\<forall>n\<in>set (xq_items h q). home_xlayer_queue (xnodes h n) \<in> qs - {q}"
    and room: "\<forall>r\<in>qs - {q}. length (xq_items h r)
          + length [n\<leftarrow>xq_items h q. home_xlayer_queue (xnodes h n) = r] \<le> xq_cap h r"
  shows "\<exists>h'. xlayer_queue_flush q h = Some h' \<and> xheap_wf qs h' \<and> xq_items h' q = [] \<and>
     (\<forall>r\<in>qs - {q}. xq_items h' r = xq_items h r @ filter (returns_to h r) (xq_items h q))"
proof (cases "xq_items h q")
  case Nil
  then have "xq_size (xqueues h q) = 0" using wf_size [of h q] wf q by (simp add: xheap_wf_def)
  with Nil wf conn show ?thesis by (simp add: xlayer_queue_flush_def)
next
  case (Cons a ns)
  have wq: "xq_wf h q" using wf q by (simp add: xheap_wf_def)
  have ne: "xq_size (xqueues h q) \<noteq> 0" using wf_size [OF wq] Cons by simp
  obtain x h2 where d: "xlayer_queue_dequeue_node q h = (x, h2)"
    by (cases "xlayer_queue_dequeue_node q h") auto
  note x = xheap_dequeue [OF wf q Cons d]
  have dis: "distinct (a # ns)" using wq Cons by (simp add: xq_wf_def)
  have home2: "\<forall>n\<in>set (a # ns). home_xlayer_queue (xnodes h2 n) \<in> qs - {q}"
    and room2: "\<forall>r\<in>qs - {q}. length (xq_items h2 r)
          + length [n\<leftarrow>a # ns. home_xlayer_queue (xnodes h2 n) = r] \<le> xq_cap h2 r"
    using home room x(4,5,6) Cons by simp_all
  obtain h' where l: "xq_flush_loop q (Some a) h2 = Some h'" "xheap_wf qs h'" "xq_items h' q = []"
    and o: "\<forall>r\<in>qs - {q}. xq_items h' r = xq_items h2 r @ filter (returns_to h2 r) (a # ns)"
    using flush_loop [OF x(1) q x(3) dis x(7) home2 room2] by blast
  have "xlayer_queue_flush q h = Some h'" using l d x(2) conn ne by (simp add: xlayer_queue_flush_def)
  moreover have "returns_to h2 r = returns_to h r" for r
    by (rule ext) (simp add: returns_to_def x(4))
  ultimately show ?thesis using l o x(5) Cons by auto
qed

section \<open>Enqueue at the head\<close>

lemma enqueue_at_head_items:
  assumes wf: "xq_wf h q" and ne: "xq_items h q \<noteq> []" and room: "length (xq_items h q) < xq_cap h q"
    and fresh: "a \<notin> set (xq_items h q)"
    and e: "xlayer_queue_enqueue_at_head q (Some a) h = (ok, h')"
  shows "ok" "xq_items h' q = a # xq_items h q" "xq_wf h' q"
proof -
  let ?s = "xq_size (xqueues h q)"
  have lt: "?s < xq_max_size (xqueues h q)" using wf room wf_full_iff by blast
  have nz: "?s \<noteq> 0" using wf_size [OF wf] ne by simp
  have h': "ok \<and> h' = upd_queue q (\<lambda>u. u\<lparr>xq_size := xq_size u + 1\<rparr>)
      (upd_queue q (\<lambda>u. u\<lparr>xq_head := Some a\<rparr>)
        (upd_node a (\<lambda>n. n\<lparr>xn_next := xq_head (xqueues h q)\<rparr>) h))"
    using e lt nz by (auto simp: xlayer_queue_enqueue_at_head_def Let_def)
  then show ok by simp
  have n: "unat (?s + 1) = Suc (unat ?s)" by (rule unat_inc [OF lt])
  have "xq_walk h' (unat ?s) (xq_head (xqueues h q)) = xq_walk h (unat ?s) (xq_head (xqueues h q))"
  proof (rule walk_cong)
    fix b assume "b \<in> set (butlast (xq_walk h (unat ?s) (xq_head (xqueues h q))))"
    then have "b \<in> set (xq_items h q)" by (auto simp: xq_items_def dest: in_set_butlastD)
    with fresh show "xn_next (xnodes h' b) = xn_next (xnodes h b)" using h' by auto
  next
    show "length (xq_walk h (unat ?s) (xq_head (xqueues h q))) = unat ?s"
      using wf by (simp add: xq_wf_def xq_items_def)
  qed
  then show it: "xq_items h' q = a # xq_items h q" using h' n by (simp add: xq_items_def)
  have "?s + 1 \<le> xq_max_size (xqueues h q)" using n lt by (simp add: word_le_nat_alt word_less_nat_alt)
  then show "xq_wf h' q" using wf it h' n fresh ne by (simp add: xq_wf_def)
qed

text \<open>
  On an empty queue the function sets \<open>head\<close> but not \<open>tail\<close>: the next enqueue links the new
  node behind whatever node \<open>tail\<close> was left at, and the node is not on the queue.
\<close>

lemma enqueue_at_head_empty:
  assumes wf: "xq_wf h q" and mt: "xq_items h q = []" and room: "2 \<le> xq_cap h q"
    and tl: "xq_tail (xqueues h q) = Some t" "t \<noteq> a" and nx: "xn_next (xnodes h a) \<noteq> Some b" and ab: "a \<noteq> b"
    and e: "xlayer_queue_enqueue_at_head q (Some a) h = (ok1, h1)"
    and f: "xlayer_queue_enqueue_node q (Some b) h1 = (ok2, h2)"
  shows "ok1" "ok2" "xq_size (xqueues h2 q) = 2" "b \<notin> set (xq_items h2 q)"
proof -
  have z: "xq_size (xqueues h q) = 0" using wf_size [OF wf] mt by simp
  have m: "2 \<le> unat (xq_max_size (xqueues h q))" using room by (simp add: xq_cap_def)
  then have lt: "0 < xq_max_size (xqueues h q)" "1 < xq_max_size (xqueues h q)"
    by (simp_all add: word_less_nat_alt)
  have h1: "ok1 \<and> h1 = upd_queue q (\<lambda>u. u\<lparr>xq_size := xq_size u + 1\<rparr>) (upd_queue q (\<lambda>u. u\<lparr>xq_head := Some a\<rparr>) h)"
    using e z lt by (auto simp: xlayer_queue_enqueue_at_head_def Let_def)
  have h2: "ok2 \<and> h2 = upd_queue q (\<lambda>u. u\<lparr>xq_tail := Some b, xq_size := xq_size u + 1\<rparr>)
      (upd_node t (\<lambda>n. n\<lparr>xn_next := Some b\<rparr>) h1)"
    using f h1 z lt tl by (auto simp: xlayer_queue_enqueue_node_def Let_def)
  show ok1 ok2 using h1 h2 by simp_all
  show s: "xq_size (xqueues h2 q) = 2" using h1 h2 z by simp
  have "xq_items h2 q = a # xq_walk h2 1 (xn_next (xnodes h a))"
  proof -
    have hd: "xq_head (xqueues h2 q) = Some a" and nx: "xn_next (xnodes h2 a) = xn_next (xnodes h a)"
      using h1 h2 tl(2) by auto
    have two: "unat (2 :: u16) = Suc (Suc 0)" by simp
    show ?thesis by (simp only: xq_items_def s two hd xq_walk.simps nx One_nat_def)
  qed
  moreover have "b \<notin> set (xq_walk h2 1 (xn_next (xnodes h a)))"
    using nx by (cases "xn_next (xnodes h a)") (simp_all)
  ultimately show "b \<notin> set (xq_items h2 q)" using ab by simp
qed

section \<open>Pool initialisation\<close>

lemma init_nodes_frame: "xqueues (xq_init_nodes sz q p k h) = xqueues h"
  by (induction sz q p k h rule: xq_init_nodes.induct) simp_all

lemma init_nodes_before:
  "a < p \<Longrightarrow> xnodes (xq_init_nodes sz q p k h) a = xnodes h a"
  by (induction sz q p k h rule: xq_init_nodes.induct) simp_all

lemma init_nodes_node:
  assumes "0 < sz" "i < k"
  shows "xn_next (xnodes (xq_init_nodes sz q p k h) (p + i * sz)) = Some (p + Suc i * sz) \<and>
    home_xlayer_queue (xnodes (xq_init_nodes sz q p k h) (p + i * sz)) = q \<and>
    copy_count (xnodes (xq_init_nodes sz q p k h) (p + i * sz)) = 1"
  using assms
proof (induction k arbitrary: i p h)
  case (Suc k)
  show ?case
  proof (cases i)
    case 0
    then show ?thesis using Suc.prems(1) by (simp add: init_nodes_before upd_frame_def)
  next
    case (Suc j)
    then show ?thesis using Suc.prems Suc.IH [of j "p + sz"] by (simp add: algebra_simps)
  qed
qed simp

lemma walk_chain:
  assumes "\<And>i. i + 1 < n \<Longrightarrow> xn_next (xnodes h (p + i * sz)) = Some (p + Suc i * sz)"
  shows "xq_walk h n (Some p) = map (\<lambda>i. p + i * sz) [0..<n]"
  using assms
proof (induction n arbitrary: p)
  case (Suc n)
  show ?case
  proof (cases n)
    case 0
    then show ?thesis by simp
  next
    case (Suc m)
    have "xq_walk h n (Some (p + sz)) = map (\<lambda>i. (p + sz) + i * sz) [0..<n]"
    proof (rule Suc.IH)
      fix i assume "i + 1 < n"
      then show "xn_next (xnodes h (p + sz + i * sz)) = Some (p + sz + Suc i * sz)"
        using Suc.prems [of "Suc i"] by (simp add: algebra_simps)
    qed
    moreover have "xn_next (xnodes h p) = Some (p + sz)" using Suc.prems [of 0] Suc by simp
    moreover have "map (\<lambda>i. p + i * sz) [0..<Suc n] = p # map (\<lambda>i. (p + sz) + i * sz) [0..<n]"
      using map_upt_shift [of "\<lambda>i. p + i * sz" n]
      by (simp add: upt_conv_Cons algebra_simps del: upt_Suc)
    ultimately show ?thesis by simp
  qed
qed simp

text \<open>
  The free queue of a fresh pool holds the pool's nodes in address order, each with a single
  copy and with the free queue as its home.
\<close>

lemma init_pool_items:
  fixes pool q sz :: nat and num :: u16 and name :: string and h :: xheap
  assumes sz: "0 < sz" and n: "0 < unat num"
  defines "h' \<equiv> xlayer_queue_init_pool sz pool q num name h"
  shows "xq_items h' q = map (\<lambda>i. pool + i * sz) [0..<unat num]" "xq_wf h' q"
    "xq_cap h' q = unat num" "free_xlayer_queue_type (xqueues h' q)"
    "\<forall>a\<in>set (xq_items h' q). returns_to h' q a"
proof -
  let ?n = "unat num" and ?g = "xq_init_nodes sz q pool (unat num) (h\<lparr>last_xlayer_queue := None\<rparr>)"
  let ?t = "pool + unat num * sz - sz"
  have tail: "?t = pool + (?n - 1) * sz" using n by (cases ?n) simp_all
  have h': "xnodes h' = (xnodes ?g)(?t := (xnodes ?g ?t)\<lparr>xn_next := None\<rparr>)"
    "xq_head (xqueues h' q) = Some pool" "xq_tail (xqueues h' q) = Some ?t"
    "xq_size (xqueues h' q) = num" "xq_max_size (xqueues h' q) = num"
    "free_xlayer_queue_type (xqueues h' q)"
    by (simp_all add: h'_def xlayer_queue_init_pool_def xq_init_free_queue_def Let_def)
  have "xq_walk h' ?n (Some pool) = map (\<lambda>i. pool + i * sz) [0..<?n]"
  proof (rule walk_chain)
    fix i assume i: "i + 1 < ?n"
    then have "pool + i * sz \<noteq> ?t" unfolding tail using sz by simp
    then show "xn_next (xnodes h' (pool + i * sz)) = Some (pool + Suc i * sz)"
      using init_nodes_node [OF sz, of i ?n q pool] i h'(1) by simp
  qed
  then show it: "xq_items h' q = map (\<lambda>i. pool + i * sz) [0..<?n]" using h' by (simp add: xq_items_def)
  have "distinct (map (\<lambda>i. pool + i * sz) [0..<?n])" using sz by (simp add: distinct_map inj_on_def)
  moreover have "last (map (\<lambda>i. pool + i * sz) [0..<?n]) = ?t" using n tail by (simp add: last_map)
  ultimately show "xq_wf h' q" using it h' by (simp add: xq_wf_def)
  show "xq_cap h' q = ?n" "free_xlayer_queue_type (xqueues h' q)" using h' by (simp_all add: xq_cap_def)
  have "returns_to h' q (pool + i * sz)" if i: "i < ?n" for i
  proof -
    have "copy_count (xnodes h' a) = copy_count (xnodes ?g a) \<and>
        home_xlayer_queue (xnodes h' a) = home_xlayer_queue (xnodes ?g a)" for a using h'(1) by simp
    then show ?thesis using init_nodes_node [OF sz i] by (simp add: returns_to_def)
  qed
  then show "\<forall>a\<in>set (xq_items h' q). returns_to h' q a" using it by auto
qed

lemma init_queue_items:
  "xq_items (xlayer_queue_init_queue q mx name h) q = []"
  "xq_wf (xlayer_queue_init_queue q mx name h) q"
  "xq_cap (xlayer_queue_init_queue q mx name h) q = unat mx"
  "\<not> free_xlayer_queue_type (xqueues (xlayer_queue_init_queue q mx name h) q)"
  by (simp_all add: xlayer_queue_init_queue_def xq_items_def xq_wf_def xq_cap_def)

section \<open>The FIFO contract\<close>

interpretation xq: bounded_fifo
  "\<lambda>h. xq_wf h q" "\<lambda>h a. a \<notin> set (xq_items h q)" "\<lambda>h. xq_items h q" "\<lambda>h. xq_cap h q"
  "\<lambda>a. xlayer_queue_enqueue_node q (Some a)" "xlayer_queue_dequeue_node q" for q
proof unfold_locales
  fix h a ns
  assume wf: "xq_wf h q"
  obtain ok g where e: "xlayer_queue_enqueue_node q (Some a) h = (ok, g)"
    by (cases "xlayer_queue_enqueue_node q (Some a) h") auto
  obtain x d where d: "xlayer_queue_dequeue_node q h = (x, d)"
    by (cases "xlayer_queue_dequeue_node q h") auto
  show "length (xq_items h q) \<le> xq_cap h q" by (rule wf_bound [OF wf])
  show "fst (xlayer_queue_enqueue_node q (Some a) h) \<and>
      xq_items (snd (xlayer_queue_enqueue_node q (Some a) h)) q = xq_items h q @ [a]"
    if "length (xq_items h q) < xq_cap h q"
    using enqueue_effect(1) [OF wf that e] enqueue_items [OF wf that e] e by simp
  show full: "xlayer_queue_enqueue_node q (Some a) h = (False, h)" if "length (xq_items h q) = xq_cap h q"
    by (rule node_enqueue_full [OF wf that])
  show "xq_wf (snd (xlayer_queue_enqueue_node q (Some a) h)) q" if "a \<notin> set (xq_items h q)"
    using enqueue_wf [OF wf that e] e by simp
  show "xq_cap (snd (xlayer_queue_enqueue_node q (Some a) h)) q = xq_cap h q"
  proof (cases "length (xq_items h q) < xq_cap h q")
    case True
    with enqueue_effect(4) [OF wf True e] e show ?thesis by (simp add: xq_cap_def)
  next
    case False
    with wf_bound [OF wf] full show ?thesis by simp
  qed
  show "xlayer_queue_dequeue_node q h = (None, h)" if "xq_items h q = []"
    by (rule dequeue_empty [OF wf that])
  show "fst (xlayer_queue_dequeue_node q h) = Some a \<and> xq_items (snd (xlayer_queue_dequeue_node q h)) q = ns"
    if "xq_items h q = a # ns"
    using dequeue_Cons(1,2) [OF wf that d] d by simp
  have "xq_wf (snd (xlayer_queue_dequeue_node q h)) q \<and> xq_cap (snd (xlayer_queue_dequeue_node q h)) q = xq_cap h q"
  proof (cases "xq_items h q")
    case Nil
    with dequeue_empty [OF wf] wf show ?thesis by simp
  next
    case (Cons b bs)
    with dequeue_Cons(3,6) [OF wf Cons d] d show ?thesis by simp
  qed
  then show "xq_wf (snd (xlayer_queue_dequeue_node q h)) q"
    and "xq_cap (snd (xlayer_queue_dequeue_node q h)) q = xq_cap h q" by simp_all
qed

section \<open>Properties\<close>

text \<open>A store as the C start-up code leaves it, with every static object zeroed.\<close>

definition zero_node :: xlayer_queue_node where
  "zero_node = \<lparr>xn_data = 0, xn_xlayer = \<lparr>xl_config = \<lparr>cfg_rnsi_raw = 0, cfg_rssi_raw = 0,
       cfg_phases_info = \<lparr>rx_waited1 = 0, rx_waited0 = 0, phase1 = 0, phase2 = 0, phase3 = 0, phase4 = 0\<rparr>\<rparr>,
     xl_frame = \<lparr>source_address = 0, destination_address = 0, header_memory = 0, header_begin_it = 0,
       header_end_it = 0, payload_memory = 0, payload_begin_it = 0, payload_end_it = 0, time_stamp = 0,
       retry_count = 0, header_memory_size = 0, payload_memory_size = 0, user_payload = 0,
       max_frame_size = 0, frame_outcome = FRAME_RECEIVED\<rparr>\<rparr>,
     home_xlayer_queue = 0, xn_next = None, copy_count = 0\<rparr>"

definition zero_queue :: xlayer_queue where
  "zero_queue = \<lparr>xq_head = None, xq_tail = None, xq_size = 0, xq_max_size = 0,
     free_xlayer_queue_type = False, xq_name = [], prev_xlayer_queue = None\<rparr>"

definition zero_store :: xheap where
  "zero_store = \<lparr>xnodes = \<lambda>_. zero_node, xqueues = \<lambda>_. zero_queue,
     last_xlayer_queue = None, stats_q_ptr = None\<rparr>"

lemmas xq_eval =
  zero_store_def zero_node_def zero_queue_def xlayer_queue_init_pool_def xlayer_queue_init_queue_def
  xq_init_free_queue_def upd_frame_def xlayer_queue_enqueue_node_def xlayer_queue_dequeue_node_def
  xlayer_queue_get_free_node_def next_of_def Let_def

text \<open>The callers' side of the contract: a node is offered only while it is not on the queue.\<close>

fun xq_offers_fresh :: "nat \<Rightarrow> nat fifo_op list \<Rightarrow> xheap \<Rightarrow> bool" where
  "xq_offers_fresh q [] h = True"
| "xq_offers_fresh q (Enq a # ops) h = (a \<notin> set (xq_items h q) \<and>
     xq_offers_fresh q ops (snd (xlayer_queue_enqueue_node q (Some a) h)))"
| "xq_offers_fresh q (Deq # ops) h = xq_offers_fresh q ops (snd (xlayer_queue_dequeue_node q h))"

lemma xq_offers: "xq.offers_fit q ops h = xq_offers_fresh q ops h"
  by (induction q ops h rule: xq_offers_fresh.induct) simp_all

text \<open>
  C23. First in, first out on a connection queue: over any sequence of enqueue and dequeue calls
  that offers only nodes not already on the queue, the nodes handed out followed by those still
  linked are the nodes linked before followed by the accepted ones, in order, and the queue's
  links stay well-formed.
\<close>

theorem xlayer_queue_fifo_order:
  assumes "xq_wf h q" "xq_offers_fresh q ops h"
    and "fifo_run (\<lambda>a. xlayer_queue_enqueue_node q (Some a)) (xlayer_queue_dequeue_node q) ops h = (acc, out, h')"
  shows "out @ xq_items h' q = xq_items h q @ acc \<and> xq_wf h' q \<and> xq_cap h' q = xq_cap h q"
  using xq.run_order assms by (simp add: xq_offers)

theorem xlayer_queue_fifo_order_witness:
  "case fifo_run (\<lambda>a. xlayer_queue_enqueue_node 7 (Some a)) (xlayer_queue_dequeue_node 7)
     [Enq 40, Enq 50, Deq, Enq 60, Enq 70, Deq] (xlayer_queue_init_queue 7 2 ''tx'' zero_store)
   of (acc, out, h') \<Rightarrow> acc = [40, 50, 60] \<and> out = [40, 50] \<and> xq_items h' 7 = [60]"
proof -
  let ?h = "xlayer_queue_init_queue 7 2 ''tx'' zero_store" and ?ops = "[Enq 40, Enq 50, Deq, Enq 60, Enq 70, Deq]"
  obtain acc out h' where r: "fifo_run (\<lambda>a. xlayer_queue_enqueue_node 7 (Some a))
      (xlayer_queue_dequeue_node 7) ?ops ?h = (acc, out, h')" by (metis prod.exhaust)
  have "acc = [40, 50, 60] \<and> out = [40, 50]" using r by (simp add: xq_eval)
  moreover have "xq_offers_fresh 7 ?ops ?h" by (simp add: xq_eval xq_items_def)
  ultimately show ?thesis
    using xlayer_queue_fifo_order [OF init_queue_items(2) _ r] r by (simp add: init_queue_items)
qed

text \<open>
  A fresh pool: after \<open>xlayer_queue_init_pool\<close> the free queue holds exactly the pool's nodes,
  in address order and \<open>sizeof(xlayer_queue_node_t)\<close> apart, is full, well-formed and of the free
  type, and every node has one copy and the free queue as its home, so it comes back there.
\<close>

theorem xlayer_queue_init_pool_correct:
  assumes "0 < sizeof_node" "0 < unat num_nodes"
  shows "xq_items (xlayer_queue_init_pool sizeof_node pool q num_nodes name h) q
      = map (\<lambda>i. pool + i * sizeof_node) [0..<unat num_nodes]
    \<and> xq_wf (xlayer_queue_init_pool sizeof_node pool q num_nodes name h) q
    \<and> xq_cap (xlayer_queue_init_pool sizeof_node pool q num_nodes name h) q = unat num_nodes
    \<and> list_all (returns_to (xlayer_queue_init_pool sizeof_node pool q num_nodes name h) q)
        (xq_items (xlayer_queue_init_pool sizeof_node pool q num_nodes name h) q)"
  using init_pool_items [OF assms] by (simp add: list_all_iff)

theorem xlayer_queue_init_pool_correct_witness:
  "xq_items (xlayer_queue_init_pool 8 1000 7 3 ''pool'' zero_store) 7 = [1000, 1008, 1016]"
  using xlayer_queue_init_pool_correct [of 8 3 1000 7 "''pool''" zero_store]
  by (simp add: upt_rec)

text \<open>
  C4. Flushing conserves nodes. On queues that share no node, flushing a connection queue whose
  nodes' home queues have room returns, empties the queue, appends to every home queue exactly
  the flushed nodes that belong to it and have no other copy, in order, and leaves all queues
  well-formed and disjoint.
\<close>

theorem xlayer_queue_flush_conserves:
  assumes "xheap_wf qs h" "q \<in> qs" "\<not> free_xlayer_queue_type (xqueues h q)"
    and "\<forall>n\<in>set (xq_items h q). home_xlayer_queue (xnodes h n) \<in> qs - {q}"
    and "\<forall>r\<in>qs - {q}. length (xq_items h r)
          + length [n\<leftarrow>xq_items h q. home_xlayer_queue (xnodes h n) = r] \<le> xq_cap h r"
  shows "\<exists>h'. xlayer_queue_flush q h = Some h' \<and> xheap_wf qs h' \<and> xq_items h' q = [] \<and>
     (\<forall>r\<in>qs - {q}. xq_items h' r = xq_items h r @ filter (returns_to h r) (xq_items h q))"
  by (rule flush_returns [OF assms])

theorem xlayer_queue_flush_conserves_witness:
  "\<exists>h'. xlayer_queue_flush 9 (snd (xlayer_queue_enqueue_node 9 (Some 1000)
        (snd (xlayer_queue_get_free_node 7 (xlayer_queue_init_queue 9 4 ''tx''
          (xlayer_queue_init_pool 8 1000 7 2 ''pool'' zero_store)))))) = Some h'
      \<and> xq_items h' 9 = [] \<and> xq_items h' 7 = [1008, 1000]"
proof -
  define h where "h = snd (xlayer_queue_enqueue_node 9 (Some 1000)
        (snd (xlayer_queue_get_free_node 7 (xlayer_queue_init_queue 9 4 ''tx''
          (xlayer_queue_init_pool 8 1000 7 2 ''pool'' zero_store)))))"
  have i: "xq_items h 9 = [1000]" "xq_items h 7 = [1008]" by (simp_all add: h_def xq_eval xq_items_def)
  have "xq_wf h 9" "xq_wf h 7" unfolding xq_wf_def i by (simp_all add: h_def xq_eval)
  then have w: "xheap_wf {7, 9} h" using i by (simp add: xheap_wf_def)
  have f: "\<not> free_xlayer_queue_type (xqueues h 9)" "home_xlayer_queue (xnodes h 1000) = 7"
    "xq_cap h 7 = 2" "copy_count (xnodes h 1000) = 1" by (simp_all add: h_def xq_eval xq_cap_def)
  have s: "{7, 9} - {9 :: nat} = {7}" by auto
  obtain h' where "xlayer_queue_flush 9 h = Some h'" "xq_items h' 9 = []"
    and "xq_items h' 7 = xq_items h 7 @ filter (returns_to h 7) (xq_items h 9)"
    using xlayer_queue_flush_conserves [OF w, of 9] i f unfolding s by auto
  then show ?thesis using i f unfolding h_def [symmetric] by (auto simp: returns_to_def)
qed

text \<open>
  Priority insertion: on a non-empty queue with room, \<open>xlayer_queue_enqueue_at_head\<close> puts the
  node in front of all others and keeps the queue well-formed.
\<close>

theorem xlayer_queue_enqueue_at_head_first:
  assumes "xq_wf h q" "xq_items h q \<noteq> []" "length (xq_items h q) < xq_cap h q" "a \<notin> set (xq_items h q)"
  shows "fst (xlayer_queue_enqueue_at_head q (Some a) h)
    \<and> xq_items (snd (xlayer_queue_enqueue_at_head q (Some a) h)) q = a # xq_items h q
    \<and> xq_wf (snd (xlayer_queue_enqueue_at_head q (Some a) h)) q"
proof -
  obtain ok h' where e: "xlayer_queue_enqueue_at_head q (Some a) h = (ok, h')" by (metis prod.exhaust)
  from enqueue_at_head_items [OF assms e] e show ?thesis by simp
qed

theorem xlayer_queue_enqueue_at_head_first_witness:
  "xq_items (snd (xlayer_queue_enqueue_at_head 9 (Some 60)
     (snd (xlayer_queue_enqueue_node 9 (Some 50) (xlayer_queue_init_queue 9 4 ''tx'' zero_store))))) 9 = [60, 50]"
proof -
  let ?h = "snd (xlayer_queue_enqueue_node 9 (Some 50) (xlayer_queue_init_queue 9 4 ''tx'' zero_store))"
  have i: "xq_items ?h 9 = [50]" by (simp add: xq_eval xq_items_def)
  have "xq_wf ?h 9" unfolding xq_wf_def i by (simp add: xq_eval)
  moreover have "xq_cap ?h 9 = 4" by (simp add: xq_eval xq_cap_def)
  ultimately show ?thesis using xlayer_queue_enqueue_at_head_first [of ?h 9 60] i by simp
qed

text \<open>
  Priority insertion into an empty queue loses the next frame: \<open>xlayer_queue_enqueue_at_head\<close>
  leaves \<open>tail\<close> on a node that has left the queue, so the node of the next
  \<open>xlayer_queue_enqueue_node\<close> is accepted and counted but is not on the queue.
\<close>

theorem xlayer_queue_enqueue_at_head_empty_loses:
  assumes "xq_wf h q" "xq_items h q = []" "2 \<le> xq_cap h q" "xq_tail (xqueues h q) = Some t"
    and "t \<noteq> a" "xn_next (xnodes h a) \<noteq> Some b" "a \<noteq> b"
    and "xlayer_queue_enqueue_at_head q (Some a) h = (ok1, h1)"
    and "xlayer_queue_enqueue_node q (Some b) h1 = (ok2, h2)"
  shows "ok1 \<and> ok2 \<and> xq_size (xqueues h2 q) = 2 \<and> b \<notin> set (xq_items h2 q)"
  using enqueue_at_head_empty [OF assms] by simp

theorem xlayer_queue_enqueue_at_head_empty_loses_witness:
  "60 \<notin> set (xq_items (snd (xlayer_queue_enqueue_node 9 (Some 60) (snd (xlayer_queue_enqueue_at_head 9 (Some 50)
     (snd (xlayer_queue_dequeue_node 9 (snd (xlayer_queue_enqueue_node 9 (Some 40)
       (xlayer_queue_init_queue 9 4 ''tx'' zero_store))))))))) 9)"
proof -
  define h where "h = snd (xlayer_queue_dequeue_node 9 (snd (xlayer_queue_enqueue_node 9 (Some 40)
       (xlayer_queue_init_queue 9 4 ''tx'' zero_store))))"
  have i: "xq_items h 9 = []" by (simp add: h_def xq_eval xq_items_def)
  have "xq_wf h 9" unfolding xq_wf_def i by (simp add: h_def xq_eval)
  moreover have "xq_cap h 9 = 4" "xq_tail (xqueues h 9) = Some 40" "xn_next (xnodes h 50) = None"
    by (simp_all add: h_def xq_eval xq_cap_def)
  moreover obtain ok1 h1 ok2 h2 where e: "xlayer_queue_enqueue_at_head 9 (Some 50) h = (ok1, h1)"
    "xlayer_queue_enqueue_node 9 (Some 60) h1 = (ok2, h2)" by (metis prod.exhaust)
  ultimately have "60 \<notin> set (xq_items h2 9)"
    using xlayer_queue_enqueue_at_head_empty_loses [OF _ i _ _ _ _ _ e, of 40] by simp
  with e show ?thesis unfolding h_def [symmetric] by simp
qed

end
