(* ===== verification/Bit_Macros.thy ===== *)
theory Bit_Macros
  imports Radio_Types
begin

text \<open>
  The mask macros of \<open>phy/sr_bit_macros.h\<close>, shared by the MAC header, the clear channel assessment and
  the registers of the transceiver. They compute on C integers after the usual promotions; a mask
  has at most 16 bits, so 32-bit words give the same results.
\<close>

definition BIT :: "nat \<Rightarrow> u32" where
  "BIT n = push_bit n 1"

definition BITS8 :: "nat \<Rightarrow> nat \<Rightarrow> u32" where
  "BITS8 b a = drop_bit (7 - b) 0xff AND NOT (push_bit a 1 - 1)"

definition BITS16 :: "nat \<Rightarrow> nat \<Rightarrow> u32" where
  "BITS16 b a = drop_bit (15 - b) 0xffff AND NOT (push_bit a 1 - 1)"

definition BITS2SHIFT :: "u32 \<Rightarrow> u32" where
  "BITS2SHIFT msk = msk AND (- msk)"

definition MASK2VAL :: "u32 \<Rightarrow> u32 \<Rightarrow> u32" where
  "MASK2VAL val msk = (val AND msk) div BITS2SHIFT msk"

definition MOV2MASK :: "u32 \<Rightarrow> u32 \<Rightarrow> u32" where
  "MOV2MASK val msk = (val * BITS2SHIFT msk) AND msk"

definition MASK_MAX_VALUE :: "u32 \<Rightarrow> u32" where
  "MASK_MAX_VALUE msk = msk div BITS2SHIFT msk"

end
