(* ===== verification/Mac_Header.thy ===== *)
theory Mac_Header
  imports Bit_Macros
begin

text \<open>
  The first byte of the MAC header, which carries the time slot identifier and the stop-and-wait
  sequence number (\<open>wps_mac_protocols.c\<close>, masks in \<open>wps_mac_def.h\<close>).
\<close>

definition HEADER_BYTE0_SEQ_NUM_MASK :: u32 where
  "HEADER_BYTE0_SEQ_NUM_MASK = BITS8 7 6"

definition HEADER_BYTE0_TIME_SLOT_ID_MASK :: u32 where
  "HEADER_BYTE0_TIME_SLOT_ID_MASK = BITS8 5 0"

text \<open>
  \<open>wps_mac_send_timeslot_id_saw\<close> writes this byte; the two readers take the fields back out.
\<close>

definition timeslot_id_saw_byte :: "u16 \<Rightarrow> u8 \<Rightarrow> u8" where
  "timeslot_id_saw_byte index seq_num =
     ucast (MASK2VAL (ucast index) HEADER_BYTE0_TIME_SLOT_ID_MASK OR
            MOV2MASK (ucast seq_num) HEADER_BYTE0_SEQ_NUM_MASK)"

definition timeslot_id_of_byte :: "u8 \<Rightarrow> u8" where
  "timeslot_id_of_byte b = ucast (MASK2VAL (ucast b) HEADER_BYTE0_TIME_SLOT_ID_MASK)"

definition seq_num_of_byte :: "u8 \<Rightarrow> u8" where
  "seq_num_of_byte b = ucast (MASK2VAL (ucast b) HEADER_BYTE0_SEQ_NUM_MASK)"

lemma header_masks:
  "HEADER_BYTE0_SEQ_NUM_MASK = push_bit 6 (mask 2)" "HEADER_BYTE0_TIME_SLOT_ID_MASK = mask 6"
  "BITS2SHIFT (push_bit 6 (mask 2)) = 64" "BITS2SHIFT (mask 6) = 1"
  by (simp_all add: HEADER_BYTE0_SEQ_NUM_MASK_def HEADER_BYTE0_TIME_SLOT_ID_MASK_def BITS8_def
      BITS2SHIFT_def mask_eq_exp_minus_1)

lemma word_div_64: "(x :: u32) div 64 = drop_bit 6 x"
  by (simp add: drop_bit_eq_div)

lemma word_mult_64: "(x :: u32) * 64 = push_bit 6 x"
  by (simp add: push_bit_eq_mult)

lemmas header_bits = MASK2VAL_def MOV2MASK_def header_masks word_div_64 word_mult_64 bit_simps

lemma seq_num_of_header: "seq_num_of_byte (timeslot_id_saw_byte index s) = take_bit 2 s"
  by (rule bit_word_eqI) (auto simp: seq_num_of_byte_def timeslot_id_saw_byte_def header_bits)

lemma timeslot_id_of_header: "timeslot_id_of_byte (timeslot_id_saw_byte index s) = ucast (take_bit 6 index)"
  by (rule bit_word_eqI) (auto simp: timeslot_id_of_byte_def timeslot_id_saw_byte_def header_bits)

end
