(* ===== verification/Saw_Arq.thy ===== *)
theory Saw_Arq
  imports Mac_Header
begin

text \<open>
  The stop-and-wait ARQ of \<open>link_saw_arq.c\<close> and \<open>link_saw_arq.h\<close>, and the link it gives rise to when
  two MAC instances use it: the sender writes its sequence number into the frame header
  (\<open>wps_mac_send_timeslot_id_saw\<close>), increments it and dequeues the frame when an
  acknowledgement comes back (\<open>process_tx_main\<close>, and \<open>process_tx_main_empty\<close> for an empty
  frame), and drops a timed-out frame (\<open>flush_timeout_frames_before_sending\<close>); the receiver
  updates its own copy from the header and discards duplicates (\<open>process_rx_main\<close>).

  The radio is the environment: it loses the frame, or delivers it and loses the
  acknowledgement, or delivers both. \<open>saw_step\<close> is the transition relation of the pair and
  \<open>saw_reach\<close> its reflexive closure from an arbitrary start.
\<close>

record saw_arq =
  ttl_tick :: u64
  ttl_retries :: u16
  default_seq_num :: u8
  seq_num :: u8
  duplicate :: bool
  duplicate_count :: u32
  saw_retry_count :: u32
  saw_enable :: bool

definition TX_DEFAULT_SAW_INDEX :: u8 where "TX_DEFAULT_SAW_INDEX = 2"

definition RX_DEFAULT_SAW_INDEX :: u8 where "RX_DEFAULT_SAW_INDEX = 3"

section \<open>Operations\<close>

definition link_saw_arq_init :: "u16 \<Rightarrow> u16 \<Rightarrow> u8 \<Rightarrow> bool \<Rightarrow> saw_arq" where
  "link_saw_arq_init ttl_t ttl_r init_board_seq en =
     \<lparr>ttl_tick = ucast ttl_t, ttl_retries = ttl_r, default_seq_num = init_board_seq,
      seq_num = init_board_seq, duplicate = False, duplicate_count = 0, saw_retry_count = 0,
      saw_enable = en\<rparr>"

definition link_saw_arq_reset :: "saw_arq \<Rightarrow> saw_arq" where
  "link_saw_arq_reset s = (if saw_enable s then s\<lparr>seq_num := default_seq_num s\<rparr> else s)"

definition link_saw_arq_is_frame_timeout ::
  "saw_arq \<Rightarrow> u64 \<Rightarrow> u16 \<Rightarrow> u64 \<Rightarrow> bool \<times> saw_arq" where
  "link_saw_arq_is_frame_timeout s stamp retries current_time =
     (let delta_t = ucast (current_time - stamp) :: u16 in
      if \<not> saw_enable s then (True, s)
      else (let time_timeout = (if ttl_tick s = 0 then False else ucast delta_t \<ge> ttl_tick s);
                retries_timeout = (if ttl_retries s = 0 then False else retries \<ge> ttl_retries s);
                timeout = (time_timeout \<or> retries_timeout)
            in (timeout,
                if retries > 0 \<and> timeout = False
                then s\<lparr>saw_retry_count := saw_retry_count s + 1\<rparr> else s)))"

definition link_saw_arq_get_seq_num :: "saw_arq \<Rightarrow> u8" where
  "link_saw_arq_get_seq_num s = seq_num s"

definition link_saw_arq_inc_seq_num :: "saw_arq \<Rightarrow> saw_arq" where
  "link_saw_arq_inc_seq_num s =
     (let s1 = s\<lparr>seq_num := seq_num s AND 1\<rparr> in s1\<lparr>seq_num := seq_num s1 XOR 1\<rparr>)"

definition link_saw_arq_update_rx_seq_num :: "saw_arq \<Rightarrow> u8 \<Rightarrow> saw_arq" where
  "link_saw_arq_update_rx_seq_num s n = s\<lparr>duplicate := (n = seq_num s), seq_num := n AND 1\<rparr>"

definition link_saw_arq_is_rx_frame_duplicate :: "saw_arq \<Rightarrow> bool" where
  "link_saw_arq_is_rx_frame_duplicate s = (if \<not> saw_enable s then False else duplicate s)"

definition link_saw_arq_get_duplicate_count :: "saw_arq \<Rightarrow> u32" where
  "link_saw_arq_get_duplicate_count s = duplicate_count s"

definition link_saw_arq_get_retry_count :: "saw_arq \<Rightarrow> u32" where
  "link_saw_arq_get_retry_count s = saw_retry_count s"

definition link_saw_arq_reset_stats :: "saw_arq \<Rightarrow> saw_arq" where
  "link_saw_arq_reset_stats s = s\<lparr>saw_retry_count := 0, duplicate_count := 0\<rparr>"

definition link_saw_arq_incr_duplicate_count :: "saw_arq \<Rightarrow> saw_arq" where
  "link_saw_arq_incr_duplicate_count s = s\<lparr>duplicate_count := duplicate_count s + 1\<rparr>"

definition is_saw_arq_guaranteed_delivery_mode :: "saw_arq \<Rightarrow> bool" where
  "is_saw_arq_guaranteed_delivery_mode s = (ttl_tick s = 0 \<and> ttl_retries s = 0)"

text \<open>\<open>wps_connection_enable_stop_and_wait_arq\<close>: which end of the connection this device is.\<close>

definition wps_connection_enable_stop_and_wait_arq ::
  "bool \<Rightarrow> u16 \<Rightarrow> u16 \<Rightarrow> u32 \<Rightarrow> u32 \<Rightarrow> saw_arq option" where
  "wps_connection_enable_stop_and_wait_arq ack_en dest_addr local_addr retry deadline =
     (if ack_en = False then None
      else (let board_seq = (if local_addr = dest_addr then RX_DEFAULT_SAW_INDEX
                             else TX_DEFAULT_SAW_INDEX)
            in Some (link_saw_arq_init (ucast deadline) (ucast retry) board_seq True)))"

definition wps_connection_disable_stop_and_wait_arq :: saw_arq where
  "wps_connection_disable_stop_and_wait_arq = link_saw_arq_init 0 0 0 False"

section \<open>The link\<close>

record 'p saw_link =
  sl_tx :: saw_arq
  sl_rx :: saw_arq
  sl_queue :: "'p list"
  sl_delivered :: "'p list"
  sl_acked :: "'p list"

datatype radio_outcome = Frame_Not_Received | Ack_Not_Received | Frame_Acked

text \<open>
  The receiver's part for a frame with header byte \<open>b\<close> and payload \<open>p\<close> (\<open>None\<close>: an empty frame):
  sequence number first, then the duplicate count, then delivery.
\<close>

definition saw_receive :: "u8 \<Rightarrow> 'p option \<Rightarrow> 'p saw_link \<Rightarrow> 'p saw_link" where
  "saw_receive b p l =
     (let rx = link_saw_arq_update_rx_seq_num (sl_rx l) (seq_num_of_byte b);
          dup = link_saw_arq_is_rx_frame_duplicate rx
      in case p of
           None \<Rightarrow> l\<lparr>sl_rx := rx\<rparr>
         | Some x \<Rightarrow> if dup then l\<lparr>sl_rx := link_saw_arq_incr_duplicate_count rx\<rparr>
                     else l\<lparr>sl_rx := rx, sl_delivered := sl_delivered l @ [x]\<rparr>)"

definition saw_data_exchange :: "u16 \<Rightarrow> radio_outcome \<Rightarrow> 'p \<Rightarrow> 'p saw_link \<Rightarrow> 'p saw_link" where
  "saw_data_exchange ts out p l =
     (let b = timeslot_id_saw_byte ts (link_saw_arq_get_seq_num (sl_tx l));
          l1 = (if out = Frame_Not_Received then l else saw_receive b (Some p) l)
      in if out = Frame_Acked
         then l1\<lparr>sl_tx := (if saw_enable (sl_tx l1) then link_saw_arq_inc_seq_num (sl_tx l1) else sl_tx l1),
                 sl_queue := tl (sl_queue l1), sl_acked := sl_acked l1 @ [p]\<rparr>
         else if saw_enable (sl_tx l1) then l1
         else l1\<lparr>sl_queue := tl (sl_queue l1)\<rparr>)"

definition saw_empty_exchange :: "u16 \<Rightarrow> radio_outcome \<Rightarrow> 'p saw_link \<Rightarrow> 'p saw_link" where
  "saw_empty_exchange ts out l =
     (let b = timeslot_id_saw_byte ts (link_saw_arq_get_seq_num (sl_tx l));
          l1 = (if out = Frame_Not_Received then l else saw_receive b None l)
      in if out = Frame_Acked then l1\<lparr>sl_tx := link_saw_arq_inc_seq_num (sl_tx l1)\<rparr> else l1)"

text \<open>
  One step of the pair. While there is no data, empty frames are sent; \<open>empties\<close> are the outcomes
  they may have, none if the connection does not send them (\<open>auto_sync_enable\<close>). The time-out
  drop is the one \<open>prepare_tx_main\<close> guards with the guaranteed-delivery test.
\<close>

inductive saw_step :: "radio_outcome set \<Rightarrow> 'p saw_link \<Rightarrow> 'p saw_link \<Rightarrow> bool" for empties :: "radio_outcome set" where
  offer: "saw_step empties l (l\<lparr>sl_queue := sl_queue l @ [p]\<rparr>)"
| data: "sl_queue l = p # ps \<Longrightarrow> saw_step empties l (saw_data_exchange ts out p l)"
| empty: "out \<in> empties \<Longrightarrow> sl_queue l = [] \<Longrightarrow> saw_step empties l (saw_empty_exchange ts out l)"
| timeout: "\<lbrakk>sl_queue l = p # ps; saw_enable (sl_tx l);
     is_saw_arq_guaranteed_delivery_mode (sl_tx l) = False;
     link_saw_arq_is_frame_timeout (sl_tx l) stamp retries now = (True, tx)\<rbrakk>
   \<Longrightarrow> saw_step empties l (l\<lparr>sl_tx := tx, sl_queue := ps\<rparr>)"

inductive_cases saw_stepE: "saw_step empties l l'"

inductive saw_reach :: "radio_outcome set \<Rightarrow> 'p saw_link \<Rightarrow> 'p saw_link \<Rightarrow> bool" for empties :: "radio_outcome set" and l0 :: "'p saw_link" where
  start: "saw_reach empties l0 l0"
| step: "saw_reach empties l0 l \<Longrightarrow> saw_step empties l l' \<Longrightarrow> saw_reach empties l0 l'"

definition saw_link_init :: "saw_arq \<Rightarrow> saw_arq \<Rightarrow> 'p saw_link" where
  "saw_link_init tx rx = \<lparr>sl_tx = tx, sl_rx = rx, sl_queue = [], sl_delivered = [], sl_acked = []\<rparr>"

section \<open>Established connections\<close>

text \<open>
  Both ends run the protocol without time-outs and their one-bit numbers are past the initial
  two-bit ones. The receiver's number differs from the sender's exactly when the frame at the
  head of the queue has not been delivered yet.
\<close>

definition saw_ends :: "'p saw_link \<Rightarrow> bool" where
  "saw_ends l \<longleftrightarrow> saw_enable (sl_tx l) \<and> saw_enable (sl_rx l) \<and>
     is_saw_arq_guaranteed_delivery_mode (sl_tx l)"

definition saw_established :: "'p saw_link \<Rightarrow> bool" where
  "saw_established l \<longleftrightarrow> saw_ends l \<and> seq_num (sl_tx l) \<in> {0, 1} \<and> seq_num (sl_rx l) \<in> {0, 1} \<and>
     (seq_num (sl_rx l) = seq_num (sl_tx l) \<longrightarrow> sl_queue l \<noteq> [])"

text \<open>What has been delivered but not acknowledged.\<close>

definition saw_pending :: "'p saw_link \<Rightarrow> 'p list" where
  "saw_pending l = (if seq_num (sl_rx l) = seq_num (sl_tx l) then [hd (sl_queue l)] else [])"

lemmas saw_simps =
  link_saw_arq_get_seq_num_def link_saw_arq_inc_seq_num_def link_saw_arq_update_rx_seq_num_def
  link_saw_arq_is_rx_frame_duplicate_def link_saw_arq_incr_duplicate_count_def seq_num_of_header
  saw_receive_def saw_ends_def is_saw_arq_guaranteed_delivery_mode_def Let_def

lemma take2_bit [simp]: "take_bit 2 (0 :: u8) = 0" "take_bit 2 (1 :: u8) = 1" "take_bit 2 (2 :: u8) = 2"
  by simp_all

lemma established_step:
  assumes "saw_step empties l l'" "saw_established l" "sl_delivered l = base @ sl_acked l @ saw_pending l"
    and "Ack_Not_Received \<notin> empties"
  shows "saw_established l' \<and> sl_delivered l' = base @ sl_acked l' @ saw_pending l'"
  using assms(1)
proof (cases rule: saw_step.cases)
  case (offer p)
  then show ?thesis using assms(2,3)
    by (auto simp: saw_established_def saw_pending_def saw_ends_def)
next
  case (data p ps ts out)
  have t: "seq_num (sl_tx l) = 0 \<or> seq_num (sl_tx l) = 1" and r: "seq_num (sl_rx l) = 0 \<or> seq_num (sl_rx l) = 1"
    using assms(2) by (auto simp: saw_established_def)
  show ?thesis
    using t r data assms(2,3)
    by (cases out; elim disjE) (simp_all add: saw_data_exchange_def saw_established_def saw_pending_def saw_simps)
next
  case (empty out ts)
  have t: "seq_num (sl_tx l) = 0 \<or> seq_num (sl_tx l) = 1" and r: "seq_num (sl_rx l) = 0 \<or> seq_num (sl_rx l) = 1"
    and ne: "seq_num (sl_rx l) \<noteq> seq_num (sl_tx l)"
    using assms(2) empty by (auto simp: saw_established_def)
  show ?thesis
    using t r ne empty assms(2,3,4)
    by (cases out; elim disjE) (simp_all add: saw_empty_exchange_def saw_established_def saw_pending_def saw_simps)
next
  case (timeout p ps stamp retries now tx)
  then show ?thesis using assms(2) by (simp add: saw_established_def saw_ends_def)
qed

lemma established_reach:
  assumes "saw_reach empties l0 l" "saw_established l0" "sl_delivered l0 = base @ sl_acked l0 @ saw_pending l0"
    and "Ack_Not_Received \<notin> empties"
  shows "saw_established l \<and> sl_delivered l = base @ sl_acked l @ saw_pending l"
  using assms
proof (induction rule: saw_reach.induct)
  case (step l l')
  then show ?case using established_step [of empties l l' base] by blast
qed simp

section \<open>From initialisation\<close>

text \<open>
  The initial numbers are 2 at the sender and 3 at the receiver, and the receiver keeps only the
  low bit of what it hears: until the first acknowledgement arrives it takes every copy of the
  first frame for a new one.
\<close>

definition first_repeated :: "nat \<Rightarrow> 'p list \<Rightarrow> 'p list" where
  "first_repeated k ds = (case ds of [] \<Rightarrow> [] | x # xs \<Rightarrow> replicate k x @ ds)"

definition saw_first_frame :: "'p saw_link \<Rightarrow> bool" where
  "saw_first_frame l \<longleftrightarrow> saw_ends l \<and> sl_acked l = [] \<and> seq_num (sl_tx l) = 2 \<and>
     (seq_num (sl_rx l) = 3 \<and> sl_delivered l = [] \<or>
      seq_num (sl_rx l) = 0 \<and> sl_queue l \<noteq> [] \<and> (\<exists>k. sl_delivered l = replicate (Suc k) (hd (sl_queue l))))"

definition saw_later_frames :: "'p saw_link \<Rightarrow> bool" where
  "saw_later_frames l \<longleftrightarrow> saw_established l \<and> sl_acked l \<noteq> [] \<and>
     (\<exists>k. sl_delivered l = replicate k (hd (sl_acked l)) @ sl_acked l @ saw_pending l)"

lemma first_step:
  assumes "saw_step {} l l'" "saw_first_frame l"
  shows "saw_first_frame l' \<or> saw_later_frames l'"
  using assms(1)
proof (cases rule: saw_step.cases)
  case (offer p)
  then show ?thesis using assms(2) by (auto simp: saw_first_frame_def saw_ends_def)
next
  case (data p ps ts out)
  have one: "replicate k p @ [p] = replicate (Suc k) p" for k by (simp add: replicate_append_same)
  from assms(2) consider
      (new) "seq_num (sl_rx l) = 3" "sl_delivered l = []"
    | (again) k where "seq_num (sl_rx l) = 0" "sl_delivered l = replicate (Suc k) p"
    using data by (auto simp: saw_first_frame_def)
  then show ?thesis
  proof cases
    case new
    then show ?thesis using data assms(2)
      by (cases out) (auto simp: saw_data_exchange_def saw_first_frame_def saw_later_frames_def
        saw_established_def saw_pending_def saw_simps intro: exI [of _ 0])
  next
    case (again k)
    then show ?thesis using data assms(2)
      by (cases out) (auto simp: saw_data_exchange_def saw_first_frame_def saw_later_frames_def
        saw_established_def saw_pending_def saw_simps one
        intro: exI [of _ "Suc k"])
  qed
next
  case (timeout p ps stamp retries now tx)
  then show ?thesis using assms(2) by (simp add: saw_first_frame_def saw_ends_def)
qed simp

lemma acked_grows: "saw_step s l l' \<Longrightarrow> \<exists>xs. sl_acked l' = sl_acked l @ xs"
  by (induction rule: saw_step.induct)
    (auto simp: saw_data_exchange_def saw_empty_exchange_def saw_receive_def Let_def split: option.splits)

lemma later_step:
  assumes "saw_step {} l l'" "saw_later_frames l"
  shows "saw_later_frames l'"
proof -
  obtain k where e: "saw_established l" and ne: "sl_acked l \<noteq> []"
    and d: "sl_delivered l = replicate k (hd (sl_acked l)) @ sl_acked l @ saw_pending l"
    using assms(2) by (auto simp: saw_later_frames_def)
  obtain xs where a: "sl_acked l' = sl_acked l @ xs" using acked_grows [OF assms(1)] by blast
  from established_step [OF assms(1) e d] show ?thesis
    using ne a by (auto simp: saw_later_frames_def)
qed

lemma init_reach:
  assumes "saw_reach {} l0 l" "saw_first_frame l0"
  shows "saw_first_frame l \<or> saw_later_frames l"
  using assms by (induction rule: saw_reach.induct) (use first_step later_step in blast)+

section \<open>Properties\<close>


definition saw_example :: "nat saw_link" where
  "saw_example = saw_link_init ((link_saw_arq_init 0 0 2 True)\<lparr>seq_num := 1\<rparr>)
     ((link_saw_arq_init 0 0 3 True)\<lparr>seq_num := 0\<rparr>)"


text \<open>
  From initialisation on nothing is lost and the order is kept: the receiver has been given
  the acknowledged frames, plus at most the one outstanding, in order, with only the very first
  frame possibly repeated.
\<close>

theorem saw_arq_init_no_loss:
  assumes "wps_connection_enable_stop_and_wait_arq True dst src 0 0 = Some tx"
    and "wps_connection_enable_stop_and_wait_arq True dst dst 0 0 = Some rx" "src \<noteq> dst"
    and "saw_reach {} (saw_link_init tx rx) l"
  shows "\<exists>k ds. (ds = sl_acked l \<or> (\<exists>p ps. sl_queue l = p # ps \<and> ds = sl_acked l @ [p]))
    \<and> sl_delivered l = first_repeated k ds"
proof -
  have "saw_first_frame (saw_link_init tx rx)"
    using assms(1-3) by (auto simp: saw_first_frame_def saw_link_init_def saw_simps link_saw_arq_init_def
      wps_connection_enable_stop_and_wait_arq_def TX_DEFAULT_SAW_INDEX_def RX_DEFAULT_SAW_INDEX_def)
  from init_reach [OF assms(4) this] show ?thesis
  proof
    assume f: "saw_first_frame l"
    show ?thesis
    proof (cases "sl_delivered l = []")
      case True
      with f show ?thesis by (auto simp: saw_first_frame_def first_repeated_def intro!: exI [of _ "[]"])
    next
      case False
      with f obtain k p ps where "sl_queue l = p # ps" "sl_delivered l = replicate (Suc k) p" "sl_acked l = []"
        by (cases "sl_queue l") (auto simp: saw_first_frame_def)
      then show ?thesis
        by (intro exI [of _ k] exI [of _ "[p]"]) (simp add: first_repeated_def replicate_append_same)
    qed
  next
    assume r: "saw_later_frames l"
    then obtain k a as where a: "sl_acked l = a # as"
      and d: "sl_delivered l = replicate k a @ (a # as) @ saw_pending l"
      by (cases "sl_acked l") (auto simp: saw_later_frames_def)
    have "saw_pending l = [] \<or> (\<exists>p ps. sl_queue l = p # ps \<and> saw_pending l = [p])"
      using r by (cases "sl_queue l") (auto simp: saw_later_frames_def saw_established_def saw_pending_def)
    then show ?thesis using a d
      by (intro exI [of _ k] exI [of _ "sl_acked l @ saw_pending l"]) (auto simp: first_repeated_def)
  qed
qed

lemmas saw_eval = saw_data_exchange_def saw_empty_exchange_def saw_link_init_def link_saw_arq_init_def
  wps_connection_enable_stop_and_wait_arq_def TX_DEFAULT_SAW_INDEX_def RX_DEFAULT_SAW_INDEX_def saw_simps

theorem saw_arq_init_no_loss_witness:
  "\<exists>l :: nat saw_link. saw_reach {} (saw_link_init (link_saw_arq_init 0 0 2 True) (link_saw_arq_init 0 0 3 True)) l
     \<and> sl_acked l = [7] \<and> sl_delivered l = [7] \<and> (\<exists>k ds. [7] = first_repeated k ds \<and> ds \<noteq> ([] :: nat list))"
proof -
  let ?l0 = "saw_link_init (link_saw_arq_init 0 0 2 True) (link_saw_arq_init 0 0 3 True) :: nat saw_link"
  let ?l1 = "?l0\<lparr>sl_queue := sl_queue ?l0 @ [7]\<rparr>"
  let ?l2 = "saw_data_exchange 5 Frame_Acked 7 ?l1"
  have 1: "saw_reach {} ?l0 ?l1" by (rule saw_reach.step [OF saw_reach.start saw_step.offer])
  have "saw_step {} ?l1 ?l2" by (rule saw_step.data) (simp add: saw_link_init_def)
  with 1 have 2: "saw_reach {} ?l0 ?l2" by (rule saw_reach.step)
  then obtain l where l: "l = ?l2" "saw_reach {} ?l0 l" by blast
  have r: "sl_queue l = []" "sl_acked l = [7]" "sl_delivered l = [7]" unfolding l(1) by (simp_all add: saw_eval)
  have "wps_connection_enable_stop_and_wait_arq True 9 4 0 0 = Some (link_saw_arq_init 0 0 2 True)"
    "wps_connection_enable_stop_and_wait_arq True 9 9 0 0 = Some (link_saw_arq_init 0 0 3 True)"
    by (simp_all add: saw_eval)
  from saw_arq_init_no_loss [OF this _ l(2)] r
  obtain k and ds :: "nat list" where "[7] = first_repeated k ds" "ds = [7]" by auto
  with l(2) r show ?thesis by blast
qed

text \<open>
  The first frame can be delivered twice: after initialisation, when the acknowledgement of
  the first frame is lost, its retransmission is not recognised as a duplicate, because the
  receiver stored only the low bit of the two-bit initial number.
\<close>

theorem saw_arq_first_frame_twice:
  assumes "wps_connection_enable_stop_and_wait_arq True dst src 0 0 = Some tx"
    and "wps_connection_enable_stop_and_wait_arq True dst dst 0 0 = Some rx" "src \<noteq> dst"
  shows "\<exists>l. saw_reach empties (saw_link_init tx rx) l \<and> sl_acked l = [p] \<and> sl_delivered l = [p, p]"
proof -
  let ?l0 = "saw_link_init tx rx"
  let ?l1 = "?l0\<lparr>sl_queue := sl_queue ?l0 @ [p]\<rparr>"
  let ?l2 = "saw_data_exchange 0 Ack_Not_Received p ?l1"
  let ?l3 = "saw_data_exchange 0 Frame_Acked p ?l2"
  have i: "tx = link_saw_arq_init 0 0 2 True" "rx = link_saw_arq_init 0 0 3 True"
    using assms by (auto simp: saw_eval)
  have q: "sl_queue ?l1 = [p]" "sl_queue ?l2 = [p]" by (simp_all add: i saw_eval)
  have 1: "saw_reach empties ?l0 ?l1" by (rule saw_reach.step [OF saw_reach.start saw_step.offer])
  have 2: "saw_reach empties ?l0 ?l2" by (rule saw_reach.step [OF 1 saw_step.data [OF q(1)]])
  have 3: "saw_reach empties ?l0 ?l3" by (rule saw_reach.step [OF 2 saw_step.data [OF q(2)]])
  have "sl_acked ?l3 = [p]" "sl_delivered ?l3 = [p, p]" by (simp_all add: i saw_eval)
  with 3 show ?thesis by blast
qed

theorem saw_arq_first_frame_twice_witness:
  "\<exists>l. saw_reach {} (saw_link_init (link_saw_arq_init 0 0 2 True) (link_saw_arq_init 0 0 3 True)) l
     \<and> sl_acked l = [CHR ''a''] \<and> sl_delivered l = [CHR ''a'', CHR ''a'']"
  by (rule saw_arq_first_frame_twice [of 9 4]) (simp_all add: saw_eval)

text \<open>
  An empty frame can swallow a data frame: on an established connection that sends empty
  frames, when an empty frame arrives but its acknowledgement is lost, the next data frame
  carries the same number, so the receiver discards it as a duplicate and acknowledges it. The
  sender reports it sent; it is never delivered.
\<close>

theorem saw_arq_empty_frame_swallows_data:
  assumes "saw_established l0" "sl_queue l0 = []"
  shows "\<exists>l. saw_reach UNIV l0 l \<and> sl_acked l = sl_acked l0 @ [p] \<and> sl_delivered l = sl_delivered l0
    \<and> sl_queue l = []"
proof -
  let ?l1 = "saw_empty_exchange 0 Ack_Not_Received l0"
  let ?l2 = "?l1\<lparr>sl_queue := sl_queue ?l1 @ [p]\<rparr>"
  let ?l3 = "saw_data_exchange 0 Frame_Acked p ?l2"
  have t: "seq_num (sl_tx l0) = 0 \<or> seq_num (sl_tx l0) = 1" "saw_enable (sl_rx l0)" "saw_enable (sl_tx l0)"
    using assms(1) by (auto simp: saw_established_def saw_ends_def)
  have q: "sl_queue ?l2 = [p]" by (simp add: assms(2) saw_empty_exchange_def saw_receive_def Let_def)
  have 1: "saw_reach UNIV l0 ?l1" by (rule saw_reach.step [OF saw_reach.start saw_step.empty]) (simp_all add: assms)
  have 2: "saw_reach UNIV l0 ?l2" by (rule saw_reach.step [OF 1 saw_step.offer])
  have 3: "saw_reach UNIV l0 ?l3" by (rule saw_reach.step [OF 2 saw_step.data [OF q]])
  have "sl_acked ?l3 = sl_acked l0 @ [p]" "sl_delivered ?l3 = sl_delivered l0" "sl_queue ?l3 = []"
    using t assms(2) by (auto simp: saw_data_exchange_def saw_empty_exchange_def saw_simps)
  with 3 show ?thesis by blast
qed

theorem saw_arq_empty_frame_swallows_data_witness:
  "\<exists>l. saw_reach UNIV saw_example l \<and> sl_acked l = [7] \<and> sl_delivered l = [] \<and> sl_queue l = []"
  using saw_arq_empty_frame_swallows_data [of saw_example 7]
  by (simp add: saw_example_def saw_link_init_def link_saw_arq_init_def saw_established_def saw_simps)

text \<open>
  The time-out of a frame, for ages that fit the 16-bit difference the code computes: with
  the module enabled it fires exactly when a configured age or a configured number of tries is
  reached, and the retry statistic counts the retries that did not time out.
\<close>

theorem link_saw_arq_timeout_spec:
  assumes "saw_enable s" "unat (now - stamp) < 2 ^ 16"
  shows "(fst (link_saw_arq_is_frame_timeout s stamp retries now) \<longleftrightarrow>
      (ttl_tick s \<noteq> 0 \<and> unat (ttl_tick s) \<le> unat (now - stamp)) \<or>
      (ttl_retries s \<noteq> 0 \<and> unat (ttl_retries s) \<le> unat retries))
    \<and> saw_retry_count (snd (link_saw_arq_is_frame_timeout s stamp retries now)) =
      (if retries \<noteq> 0 \<and> \<not> fst (link_saw_arq_is_frame_timeout s stamp retries now)
       then saw_retry_count s + 1 else saw_retry_count s)"
proof
  have "unat (ucast (ucast (now - stamp) :: u16) :: u64) = unat (now - stamp)"
    using assms(2) by (simp add: unsigned_ucast_eq unsigned_take_bit_eq take_bit_nat_eq_self)
  then show "fst (link_saw_arq_is_frame_timeout s stamp retries now) \<longleftrightarrow>
      (ttl_tick s \<noteq> 0 \<and> unat (ttl_tick s) \<le> unat (now - stamp)) \<or>
      (ttl_retries s \<noteq> 0 \<and> unat (ttl_retries s) \<le> unat retries)"
    using assms(1) by (auto simp: link_saw_arq_is_frame_timeout_def Let_def word_le_nat_alt)
  show "saw_retry_count (snd (link_saw_arq_is_frame_timeout s stamp retries now)) =
      (if retries \<noteq> 0 \<and> \<not> fst (link_saw_arq_is_frame_timeout s stamp retries now)
       then saw_retry_count s + 1 else saw_retry_count s)"
    using assms(1) by (auto simp: link_saw_arq_is_frame_timeout_def Let_def word_gt_0)
qed

theorem link_saw_arq_timeout_spec_witness:
  "fst (link_saw_arq_is_frame_timeout (link_saw_arq_init 100 3 2 True) 5000 1 5100)
   \<and> \<not> fst (link_saw_arq_is_frame_timeout (link_saw_arq_init 100 3 2 True) 5000 1 5099)"
  using link_saw_arq_timeout_spec [of "link_saw_arq_init 100 3 2 True" 5100 5000 1]
    link_saw_arq_timeout_spec [of "link_saw_arq_init 100 3 2 True" 5099 5000 1]
  by (simp add: link_saw_arq_init_def)

text \<open>
  Beyond 16 bits the age wraps: with only an age limit configured, a frame whose age is a
  multiple of 65536 ticks never times out, however old it is.
\<close>

theorem link_saw_arq_timeout_wraps:
  assumes "saw_enable s" "ttl_retries s = 0" "unat (now - stamp) mod 2 ^ 16 = 0"
  shows "\<not> fst (link_saw_arq_is_frame_timeout s stamp retries now)"
proof -
  have "(ucast (now - stamp) :: u16) = 0"
    using assms(3) by (simp add: word_unat_eq_iff unsigned_ucast_eq take_bit_eq_mod)
  then show ?thesis using assms(1,2) by (simp add: link_saw_arq_is_frame_timeout_def Let_def word_le_nat_alt unat_gt_0)
qed

theorem link_saw_arq_timeout_wraps_witness:
  "\<not> fst (link_saw_arq_is_frame_timeout (link_saw_arq_init 100 0 2 True) 5000 1 70536)"
  using link_saw_arq_timeout_wraps [of "link_saw_arq_init 100 0 2 True" 70536 5000 1]
  by (simp add: link_saw_arq_init_def)

end
