(* ===== verification/Link_Status.thy ===== *)
theory Link_Status
  imports Radio_Types
begin

text \<open>
  Four small link modules, each a record and its operations: the connection status of
  \<open>link_connect_status.c\<close>, the ranging sample buffer of \<open>link_phase.c\<close>, the fallback thresholds of
  \<open>link_fallback.c\<close> and the credits of \<open>link_credit_flow_ctrl.h\<close> (built with
  \<open>CREDIT_FLOW_CTRL_STAT_ENABLE\<close> 0). Arrays are lists; the caller's array has the length the
  configuration announces, which the invariants state.
\<close>

section \<open>Connection status\<close>

datatype connect_status = CONNECT_STATUS_CONNECTED | CONNECT_STATUS_DISCONNECTED

record connect_status_cfg =
  cfg_connect_count :: u8
  cfg_disconnect_duration_ms :: u8

record link_connect_status =
  connect_count :: u8
  disconnect_duration_us :: u16
  received_count :: u8
  lost_duration_us :: u16
  conn_status :: connect_status

definition MAX_DISCONNECT_DURATION_MS :: u8 where "MAX_DISCONNECT_DURATION_MS = 65"

text \<open>The initialiser also clamps the caller's configuration, which is returned.\<close>

definition link_connect_status_init :: "connect_status_cfg \<Rightarrow> link_connect_status \<times> connect_status_cfg" where
  "link_connect_status_init cfg =
     (let cfg1 = (if cfg_disconnect_duration_ms cfg > MAX_DISCONNECT_DURATION_MS
                  then cfg\<lparr>cfg_disconnect_duration_ms := MAX_DISCONNECT_DURATION_MS\<rparr> else cfg)
      in (\<lparr>connect_count = cfg_connect_count cfg,
           disconnect_duration_us = of_nat (unat (cfg_disconnect_duration_ms cfg1) * MS_TO_US),
           received_count = 0, lost_duration_us = 0, conn_status = CONNECT_STATUS_DISCONNECTED\<rparr>, cfg1))"

text \<open>The two groups of frame outcomes the \<open>switch\<close> statements tell apart; \<open>FRAME_WAIT\<close> is neither.\<close>

definition outcome_lost :: "frame_outcome \<Rightarrow> bool" where
  "outcome_lost out \<longleftrightarrow> out \<in> {FRAME_RECEIVED_DATA_SIZE_INVALID, FRAME_RECEIVED_HEADER_SIZE_INVALID,
     FRAME_REJECTED, FRAME_LOST, FRAME_SENT_ACK_LOST, FRAME_SENT_ACK_REJECTED}"

definition outcome_good :: "frame_outcome \<Rightarrow> bool" where
  "outcome_good out \<longleftrightarrow> out \<in> {FRAME_RECEIVED, FRAME_SENT_ACK}"

definition link_update_connect_status ::
  "link_connect_status \<Rightarrow> frame_outcome \<Rightarrow> bool \<Rightarrow> bool \<Rightarrow> u32 \<Rightarrow> bool \<times> link_connect_status" where
  "link_update_connect_status s out sync_status always_connected time_elapsed_us =
     (let s1 =
        (if sync_status = False then s\<lparr>conn_status := CONNECT_STATUS_DISCONNECTED\<rparr>
         else if always_connected
         then s\<lparr>conn_status := CONNECT_STATUS_CONNECTED, received_count := 0, lost_duration_us := 0\<rparr>
         else case conn_status s of
           CONNECT_STATUS_CONNECTED \<Rightarrow>
             if outcome_lost out then
               (let s2 = s\<lparr>lost_duration_us := ucast (ucast (lost_duration_us s) + time_elapsed_us)\<rparr>
                in if lost_duration_us s2 \<ge> disconnect_duration_us s2
                   then s2\<lparr>conn_status := CONNECT_STATUS_DISCONNECTED, received_count := 0, lost_duration_us := 0\<rparr>
                   else s2)
             else if outcome_good out then s\<lparr>lost_duration_us := 0\<rparr>
             else s
         | CONNECT_STATUS_DISCONNECTED \<Rightarrow>
             if outcome_good out then
               (let s2 = s\<lparr>received_count := received_count s + 1\<rparr>
                in if received_count s2 \<ge> connect_count s2
                   then s2\<lparr>conn_status := CONNECT_STATUS_CONNECTED, received_count := 0, lost_duration_us := 0\<rparr>
                   else s2)
             else if outcome_lost out then s\<lparr>received_count := 0\<rparr>
             else s)
      in (conn_status s \<noteq> conn_status s1, s1))"

definition link_connect_status_reset :: "link_connect_status \<Rightarrow> link_connect_status" where
  "link_connect_status_reset s =
     s\<lparr>lost_duration_us := 0, received_count := 0, conn_status := CONNECT_STATUS_DISCONNECTED\<rparr>"

section \<open>Ranging samples\<close>

record phase_infos =
  local_info :: phase_info
  remote_info :: phase_info

record link_phase =
  phase_info_buffer :: "phase_infos list"
  max_sample_count :: u8
  current_sample_count :: u8
  was_phase_read :: bool

definition link_phase_init :: "phase_infos list \<Rightarrow> u8 \<Rightarrow> link_phase" where
  "link_phase_init buf n =
     \<lparr>phase_info_buffer = buf, max_sample_count = n, current_sample_count = 0, was_phase_read = True\<rparr>"

definition link_phase_add_data :: "link_phase \<Rightarrow> phase_info \<Rightarrow> phase_info \<Rightarrow> bool \<times> link_phase" where
  "link_phase_add_data p loc rem =
     (if \<not> was_phase_read p then (True, p)
      else (let p1 = p\<lparr>phase_info_buffer := (phase_info_buffer p)[unat (current_sample_count p) :=
                     \<lparr>local_info = loc, remote_info = rem\<rparr>],
                   current_sample_count := current_sample_count p + 1\<rparr>
            in if current_sample_count p1 \<ge> max_sample_count p1
               then (True, p1\<lparr>was_phase_read := False\<rparr>)
               else (False, p1)))"

definition link_phase_get_metrics_array :: "link_phase \<Rightarrow> u8 \<times> phase_infos list option" where
  "link_phase_get_metrics_array p =
     (if current_sample_count p \<ge> max_sample_count p
      then (max_sample_count p, Some (phase_info_buffer p)) else (0, None))"

definition link_phase_done :: "link_phase \<Rightarrow> bool \<times> link_phase" where
  "link_phase_done p = (True, p\<lparr>was_phase_read := True, current_sample_count := 0\<rparr>)"

section \<open>Fallback thresholds\<close>

record link_fallback =
  fb_threshold :: "u8 list option"
  threshold_count :: u8

definition link_fallback_init :: "u8 list \<Rightarrow> u8 \<Rightarrow> link_fallback" where
  "link_fallback_init threshold n = \<lparr>fb_threshold = Some threshold, threshold_count = n\<rparr>"

definition link_fallback_disable :: link_fallback where
  "link_fallback_disable = \<lparr>fb_threshold = None, threshold_count = 0\<rparr>"

text \<open>The search loop from index \<open>i\<close> on the remaining thresholds, with the index found so far.\<close>

fun fallback_search :: "u8 \<Rightarrow> u8 list \<Rightarrow> u8 \<Rightarrow> bool \<times> u8 \<Rightarrow> bool \<times> u8" where
  "fallback_search payload_size [] i r = r"
| "fallback_search payload_size (t # ts) i r =
     (if payload_size \<le> t then fallback_search payload_size ts (i + 1) (True, i) else r)"

definition link_fallback_get_index :: "link_fallback \<Rightarrow> u8 \<Rightarrow> bool \<times> u8" where
  "link_fallback_get_index f payload_size =
     (case fb_threshold f of
        None \<Rightarrow> (False, 0)
      | Some ts \<Rightarrow>
          if threshold_count f = 0 then (False, 0)
          else fallback_search payload_size (take (unat (threshold_count f)) ts) 0 (False, 0))"

section \<open>Credits\<close>

record credit_flow_ctrl =
  cfc_enabled :: bool
  credits_count :: u8
  skipped_frames_count :: u8
  notify_missed_credits_count :: u8

definition CREDIT_FLOW_CTRL_SKIPPED_FRAMES_THRESHOLD :: u8 where
  "CREDIT_FLOW_CTRL_SKIPPED_FRAMES_THRESHOLD = 3"

definition link_credit_flow_ctrl_init :: "bool \<Rightarrow> u8 \<Rightarrow> credit_flow_ctrl" where
  "link_credit_flow_ctrl_init en n =
     \<lparr>cfc_enabled = en, credits_count = n, skipped_frames_count = 0, notify_missed_credits_count = 0\<rparr>"

definition link_credit_flow_ctrl_is_available :: "credit_flow_ctrl \<Rightarrow> bool \<times> credit_flow_ctrl" where
  "link_credit_flow_ctrl_is_available c =
     (if cfc_enabled c \<and> credits_count c = 0
      then (False, c\<lparr>skipped_frames_count := skipped_frames_count c + 1\<rparr>) else (True, c))"

definition link_credit_flow_ctrl_frame_ack_received :: "credit_flow_ctrl \<Rightarrow> credit_flow_ctrl" where
  "link_credit_flow_ctrl_frame_ack_received c =
     (let c1 = (if credits_count c > 0 then c\<lparr>credits_count := credits_count c - 1\<rparr> else c)
      in c1\<lparr>skipped_frames_count := 0\<rparr>)"

definition link_credit_flow_ctrl_is_skipped_frames_exceed :: "credit_flow_ctrl \<Rightarrow> bool" where
  "link_credit_flow_ctrl_is_skipped_frames_exceed c =
     (cfc_enabled c \<and> skipped_frames_count c > CREDIT_FLOW_CTRL_SKIPPED_FRAMES_THRESHOLD)"

definition link_credit_flow_ctrl_auto_frame_sent :: "credit_flow_ctrl \<Rightarrow> credit_flow_ctrl" where
  "link_credit_flow_ctrl_auto_frame_sent c =
     (let c1 = (if credits_count c > 0 then c\<lparr>credits_count := credits_count c - 1\<rparr> else c)
      in c1\<lparr>notify_missed_credits_count := 0\<rparr>)"

section \<open>Connection status lemmas\<close>

lemma outcome_disjoint: "outcome_good out \<Longrightarrow> \<not> outcome_lost out"
  by (auto simp: outcome_good_def outcome_lost_def)

definition connect_status_inv :: "link_connect_status \<Rightarrow> bool" where
  "connect_status_inv s \<longleftrightarrow> received_count s < connect_count s \<and> lost_duration_us s < disconnect_duration_us s \<and>
     (conn_status s = CONNECT_STATUS_CONNECTED \<longrightarrow> received_count s = 0)"

text \<open>A run of outcomes with the time elapsed before each, in sync and not forced connected.\<close>

fun connect_status_run :: "link_connect_status \<Rightarrow> (frame_outcome \<times> u32) list \<Rightarrow> link_connect_status" where
  "connect_status_run s [] = s"
| "connect_status_run s ((out, dt) # es) =
     connect_status_run (snd (link_update_connect_status s out True False dt)) es"

lemma update_good:
  assumes "outcome_good out" "conn_status s = CONNECT_STATUS_DISCONNECTED"
  shows "snd (link_update_connect_status s out True False dt) =
    (if connect_count s \<le> received_count s + 1
     then s\<lparr>conn_status := CONNECT_STATUS_CONNECTED, received_count := 0, lost_duration_us := 0\<rparr>
     else s\<lparr>received_count := received_count s + 1\<rparr>)"
  using assms by (auto simp: link_update_connect_status_def Let_def)

lemma update_lost:
  assumes "outcome_lost out" "conn_status s = CONNECT_STATUS_CONNECTED"
    and "unat (lost_duration_us s) + unat dt < 2 ^ 16"
  shows "snd (link_update_connect_status s out True False dt) =
    (if unat (disconnect_duration_us s) \<le> unat (lost_duration_us s) + unat dt
     then s\<lparr>conn_status := CONNECT_STATUS_DISCONNECTED, received_count := 0, lost_duration_us := 0\<rparr>
     else s\<lparr>lost_duration_us := of_nat (unat (lost_duration_us s) + unat dt)\<rparr>)"
proof -
  have l: "unat (ucast (lost_duration_us s) :: u32) = unat (lost_duration_us s)"
    using unat_u16_lt [of "lost_duration_us s"] by (simp add: unat_ucast_mod del: unat_u16_lt)
  have "unat (ucast (lost_duration_us s) + dt) = unat (lost_duration_us s) + unat dt"
    using assms(3) unat_plus_lt [of "ucast (lost_duration_us s)" dt] l by simp
  then have "unat (ucast (ucast (lost_duration_us s) + dt) :: u16) = unat (lost_duration_us s) + unat dt"
    using assms(3) by (simp add: unat_ucast_mod)
  moreover have n: "unat (of_nat (unat (lost_duration_us s) + unat dt) :: u16) = unat (lost_duration_us s) + unat dt"
    by (rule unat_of_nat_lt) (use assms(3) in simp)
  ultimately have "(ucast (ucast (lost_duration_us s) + dt) :: u16) = of_nat (unat (lost_duration_us s) + unat dt)"
    by (simp only: word_unat_eq_iff)
  moreover note n
  ultimately show ?thesis using assms(1,2)
    by (simp add: link_update_connect_status_def Let_def word_le_nat_alt)
qed

lemma run_good_counts:
  assumes "conn_status s = CONNECT_STATUS_DISCONNECTED" "list_all (\<lambda>e. outcome_good (fst e)) es"
    and "unat (received_count s) + length es < unat (connect_count s)"
  shows "connect_status_run s es = s\<lparr>received_count := received_count s + of_nat (length es)\<rparr>"
  using assms
proof (induction es arbitrary: s)
  case (Cons e es)
  obtain out dt where e: "e = (out, dt)" by (cases e)
  have "unat (received_count s) + 1 < unat (connect_count s)" using Cons.prems(3) by simp
  then have u: "unat (received_count s + 1) = unat (received_count s) + 1"
    using unat_inc [of "received_count s" "connect_count s"] by (simp add: word_less_nat_alt)
  then have "\<not> connect_count s \<le> received_count s + 1"
    using Cons.prems(3) by (simp add: word_le_nat_alt)
  then show ?case
    using Cons.prems Cons.IH [of "s\<lparr>received_count := received_count s + 1\<rparr>"] u
    by (simp add: e update_good algebra_simps)
qed simp

lemma run_lost_disconnected:
  assumes "conn_status s = CONNECT_STATUS_DISCONNECTED" "list_all (\<lambda>e. outcome_lost (fst e)) es"
  shows "conn_status (connect_status_run s es) = CONNECT_STATUS_DISCONNECTED"
  using assms
proof (induction es arbitrary: s)
  case (Cons e es)
  obtain out dt where e: "e = (out, dt)" by (cases e)
  have "conn_status (snd (link_update_connect_status s out True False dt)) = CONNECT_STATUS_DISCONNECTED"
    using Cons.prems outcome_disjoint [of out] by (auto simp: e link_update_connect_status_def Let_def)
  then show ?case using Cons by (simp add: e)
qed simp

lemma run_lost:
  assumes "conn_status s = CONNECT_STATUS_CONNECTED" "list_all (\<lambda>e. outcome_lost (fst e)) es"
    and "unat (lost_duration_us s) + (\<Sum>e\<leftarrow>es. unat (snd e)) < 2 ^ 16"
    and "lost_duration_us s < disconnect_duration_us s"
  shows "conn_status (connect_status_run s es) = CONNECT_STATUS_CONNECTED \<longleftrightarrow>
    unat (lost_duration_us s) + (\<Sum>e\<leftarrow>es. unat (snd e)) < unat (disconnect_duration_us s)"
  using assms
proof (induction es arbitrary: s)
  case Nil
  then show ?case by (simp add: word_less_nat_alt)
next
  case (Cons e es)
  obtain out dt where e: "e = (out, dt)" by (cases e)
  have b: "unat (lost_duration_us s) + unat dt < 2 ^ 16" and lo: "outcome_lost out"
    using Cons.prems(2,3) by (simp_all add: e)
  note u = update_lost [OF lo Cons.prems(1) b]
  show ?case
  proof (cases "unat (disconnect_duration_us s) \<le> unat (lost_duration_us s) + unat dt")
    case True
    have "conn_status (connect_status_run (s\<lparr>conn_status := CONNECT_STATUS_DISCONNECTED, received_count := 0,
        lost_duration_us := 0\<rparr>) es) = CONNECT_STATUS_DISCONNECTED"
      by (rule run_lost_disconnected) (use Cons.prems(2) in simp_all)
    with True u show ?thesis by (simp add: e)
  next
    case False
    let ?s = "s\<lparr>lost_duration_us := of_nat (unat (lost_duration_us s) + unat dt)\<rparr>"
    have "unat (of_nat (unat (lost_duration_us s) + unat dt) :: u16) = unat (lost_duration_us s) + unat dt"
      by (rule unat_of_nat_lt) (use b in simp)
    then have n: "unat (lost_duration_us ?s) = unat (lost_duration_us s) + unat dt" by simp
    have "conn_status (connect_status_run ?s es) = CONNECT_STATUS_CONNECTED \<longleftrightarrow>
        unat (lost_duration_us ?s) + (\<Sum>e\<leftarrow>es. unat (snd e)) < unat (disconnect_duration_us ?s)"
      by (rule Cons.IH) (use Cons.prems n False in \<open>simp_all add: e word_less_nat_alt\<close>)
    with False u n show ?thesis by (simp add: e add.assoc)
  qed
qed

text \<open>Every update keeps the counters below their limits and reports whether the status changed.\<close>

lemma connect_status_inv_update [wf_intros]:
  assumes "connect_status_inv s"
  shows "connect_status_inv (snd (link_update_connect_status s out sy al dt))"
    and "fst (link_update_connect_status s out sy al dt) \<longleftrightarrow>
      conn_status (snd (link_update_connect_status s out sy al dt)) \<noteq> conn_status s"
proof -
  have p: "0 < connect_count s" "0 < disconnect_duration_us s"
    using assms by (auto simp: connect_status_inv_def intro: le_less_trans [OF word_zero_le])
  show "connect_status_inv (snd (link_update_connect_status s out sy al dt))"
    using assms p by (cases "conn_status s")
      (auto simp: link_update_connect_status_def connect_status_inv_def Let_def not_le)
  show "fst (link_update_connect_status s out sy al dt) \<longleftrightarrow>
      conn_status (snd (link_update_connect_status s out sy al dt)) \<noteq> conn_status s"
    by (auto simp: link_update_connect_status_def Let_def)
qed

section \<open>Ranging sample lemmas\<close>

text \<open>
  Collecting: samples go to consecutive entries; the call that stores the last one reports the
  data ready and the buffer is then frozen until \<open>link_phase_done\<close>.
\<close>

fun link_phase_collect :: "link_phase \<Rightarrow> (phase_info \<times> phase_info) list \<Rightarrow> bool list \<times> link_phase" where
  "link_phase_collect p [] = ([], p)"
| "link_phase_collect p ((loc, rem) # xs) =
     (let (r, p1) = link_phase_add_data p loc rem; (rs, p2) = link_phase_collect p1 xs in (r # rs, p2))"

lemma collect_step:
  assumes "was_phase_read p" "current_sample_count p < max_sample_count p"
    and "unat (max_sample_count p) \<le> length (phase_info_buffer p)"
    and "link_phase_collect p xs = (rs, p')" "unat (current_sample_count p) + length xs \<le> unat (max_sample_count p)"
  shows "take (unat (current_sample_count p) + length xs) (phase_info_buffer p') =
      take (unat (current_sample_count p)) (phase_info_buffer p)
        @ map (\<lambda>(l, r). \<lparr>local_info = l, remote_info = r\<rparr>) xs \<and>
    unat (current_sample_count p') = unat (current_sample_count p) + length xs \<and>
    max_sample_count p' = max_sample_count p \<and>
    (was_phase_read p' \<longleftrightarrow> unat (current_sample_count p) + length xs < unat (max_sample_count p)) \<and>
    length (phase_info_buffer p') = length (phase_info_buffer p)"
  using assms
proof (induction xs arbitrary: p rs)
  case Nil
  then show ?case by (simp add: word_less_nat_alt)
next
  case (Cons x xs)
  obtain loc rem where x: "x = (loc, rem)" by (cases x)
  let ?c = "unat (current_sample_count p)"
  let ?q = "p\<lparr>phase_info_buffer := (phase_info_buffer p)[?c := \<lparr>local_info = loc, remote_info = rem\<rparr>],
              current_sample_count := current_sample_count p + 1\<rparr>"
  have c: "unat (current_sample_count p + 1) = Suc ?c" by (rule unat_inc [OF Cons.prems(2)])
  have cl: "?c < length (phase_info_buffer p)" using Cons.prems(2,3) by (simp add: word_less_nat_alt)
  have tk: "take (Suc ?c) (phase_info_buffer ?q) = take ?c (phase_info_buffer p) @ [\<lparr>local_info = loc, remote_info = rem\<rparr>]"
    using cl by (simp add: take_Suc_conv_app_nth)
  show ?case
  proof (cases "current_sample_count p + 1 < max_sample_count p")
    case True
    then have "link_phase_add_data p loc rem = (False, ?q)"
      using Cons.prems(1) by (simp add: link_phase_add_data_def Let_def)
    then obtain rs' where r: "link_phase_collect ?q xs = (rs', p')"
      using Cons.prems(4) by (auto simp: x split: prod.splits)
    show ?thesis
      using Cons.IH [OF _ _ _ r] Cons.prems True c tk by (simp add: word_less_nat_alt x)
  next
    case False
    then have "unat (max_sample_count p) \<le> ?c + 1" using c by (simp add: word_less_nat_alt)
    moreover have "?c + Suc (length xs) \<le> unat (max_sample_count p)" using Cons.prems(5) by simp
    ultimately have "length xs = 0" "?c + 1 = unat (max_sample_count p)" by linarith+
    then have "xs = []" "?c + 1 = unat (max_sample_count p)" by simp_all
    moreover have "link_phase_add_data p loc rem = (True, ?q\<lparr>was_phase_read := False\<rparr>)"
      using False Cons.prems(1) by (simp add: link_phase_add_data_def Let_def)
    ultimately show ?thesis using Cons.prems(4) c tk by (auto simp: x)
  qed
qed

section \<open>Fallback lemmas\<close>

lemma fallback_search_spec:
  "unat i + length ts \<le> 256 \<Longrightarrow> fallback_search n ts i (a, j) =
     (case length (takeWhile (\<lambda>t. n \<le> t) ts) of 0 \<Rightarrow> (a, j) | Suc k \<Rightarrow> (True, i + of_nat k))"
proof (induction n ts i "(a, j)" arbitrary: a j rule: fallback_search.induct)
  case (2 n t ts i)
  show ?case
  proof (cases "n \<le> t \<and> ts \<noteq> []")
    case True
    then obtain u us where "ts = u # us" by (cases ts) auto
    with "2.prems" have "unat i < 255" by simp
    then have "unat (i + 1) = Suc (unat i)" by (simp add: unat_word_ariths)
    with True 2 show ?thesis by (auto split: nat.splits)
  next
    case False
    then show ?thesis by auto
  qed
qed simp

text \<open>The index found is that of the last of the leading thresholds the payload does not exceed.\<close>

lemma link_fallback_get_index_spec:
  assumes "fb_threshold f = Some ts" "length ts = unat (threshold_count f)"
  shows "link_fallback_get_index f n =
    (case length (takeWhile (\<lambda>t. n \<le> t) ts) of 0 \<Rightarrow> (False, 0) | Suc k \<Rightarrow> (True, of_nat k))"
proof (cases "threshold_count f = 0")
  case True
  with assms show ?thesis by (simp add: link_fallback_get_index_def)
next
  case False
  have "length ts < 256" using assms(2) by simp
  with False assms fallback_search_spec [of 0 ts n False 0] show ?thesis
    by (simp add: link_fallback_get_index_def split: nat.split)
qed

section \<open>Properties\<close>

text \<open>
  C35. Becoming connected: from the disconnected state of \<open>link_connect_status_reset\<close> a run of at
  most \<open>connect_count\<close> good frames ends connected exactly when it has \<open>connect_count\<close> of them;
  until then each one is counted.
\<close>

theorem link_connect_status_connects:
  assumes "0 < connect_count s" "list_all (\<lambda>e. outcome_good (fst e)) es" "length es \<le> unat (connect_count s)"
  defines "s' \<equiv> connect_status_run (link_connect_status_reset s) es"
  shows "(conn_status s' = CONNECT_STATUS_CONNECTED \<longleftrightarrow> length es = unat (connect_count s)) \<and>
    unat (received_count s') = length es mod unat (connect_count s)"
proof (cases "length es = unat (connect_count s)")
  case False
  then have l: "length es < unat (connect_count s)" using assms(3) by simp
  have "s' = (link_connect_status_reset s)\<lparr>received_count := of_nat (length es)\<rparr>"
    unfolding s'_def using assms(2) l
    by (subst run_good_counts) (simp_all add: link_connect_status_reset_def)
  moreover have "unat (of_nat (length es) :: u8) = length es"
    using l unat_u8_lt [of "connect_count s"] by (intro unat_of_nat_lt) (simp del: unat_u8_lt)
  ultimately show ?thesis using False l by (simp add: link_connect_status_reset_def)
next
  case True
  then have "es \<noteq> []" using assms(1) by (auto simp: word_less_nat_alt)
  then obtain fs out dt where es: "es = fs @ [(out, dt)]" by (metis rev_exhaust surj_pair)
  let ?t = "(link_connect_status_reset s)\<lparr>received_count := of_nat (length fs)\<rparr>"
  have l: "length fs < unat (connect_count s)" using True es by simp
  have run: "connect_status_run t (fs @ gs) = connect_status_run (connect_status_run t fs) gs" for t gs
    by (induction fs arbitrary: t) auto
  have "connect_status_run (link_connect_status_reset s) fs = ?t"
    using assms(2) l es by (subst run_good_counts) (simp_all add: link_connect_status_reset_def)
  moreover have n: "unat (of_nat (length fs) :: u8) = length fs"
    using l unat_u8_lt [of "connect_count s"] by (intro unat_of_nat_lt) (simp del: unat_u8_lt)
  have "unat (of_nat (length fs) + 1 :: u8) = Suc (length fs)"
    using unat_inc [of "of_nat (length fs) :: u8" "connect_count s"] l n by (simp add: word_less_nat_alt)
  then have "connect_count s \<le> of_nat (length fs) + 1" using True es by (simp add: word_le_nat_alt)
  ultimately have "s' = ?t\<lparr>conn_status := CONNECT_STATUS_CONNECTED, received_count := 0, lost_duration_us := 0\<rparr>"
    unfolding s'_def es run using assms(2)
    by (simp add: es update_good link_connect_status_reset_def)
  then show ?thesis using True assms(1) by (simp add: link_connect_status_reset_def)
qed

theorem link_connect_status_connects_witness:
  "conn_status (connect_status_run (link_connect_status_reset
     (fst (link_connect_status_init \<lparr>cfg_connect_count = 2, cfg_disconnect_duration_ms = 10\<rparr>)))
     [(FRAME_RECEIVED, 5), (FRAME_SENT_ACK, 7)]) = CONNECT_STATUS_CONNECTED"
  using link_connect_status_connects [of "fst (link_connect_status_init
      \<lparr>cfg_connect_count = 2, cfg_disconnect_duration_ms = 10\<rparr>)" "[(FRAME_RECEIVED, 5), (FRAME_SENT_ACK, 7)]"]
  by (simp add: link_connect_status_init_def outcome_good_def)

text \<open>
  Losing the connection: a connected link that has just received a frame stays connected
  through a run of lost frames exactly as long as the time elapsed over the run is shorter than
  the configured duration, for total times that fit the 16-bit accumulator.
\<close>

theorem link_connect_status_disconnects:
  assumes "conn_status s = CONNECT_STATUS_CONNECTED" "lost_duration_us s = 0" "0 < disconnect_duration_us s"
    and "list_all (\<lambda>e. outcome_lost (fst e)) es" "(\<Sum>e\<leftarrow>es. unat (snd e)) < 2 ^ 16"
  shows "conn_status (connect_status_run s es) = CONNECT_STATUS_CONNECTED \<longleftrightarrow>
    (\<Sum>e\<leftarrow>es. unat (snd e)) < unat (disconnect_duration_us s)"
  using run_lost [OF assms(1,4)] assms by simp

definition connected_example :: link_connect_status where
  "connected_example = (fst (link_connect_status_init \<lparr>cfg_connect_count = 2, cfg_disconnect_duration_ms = 10\<rparr>))
     \<lparr>conn_status := CONNECT_STATUS_CONNECTED\<rparr>"

theorem link_connect_status_disconnects_witness:
  "conn_status (connect_status_run connected_example [(FRAME_LOST, 6000), (FRAME_REJECTED, 3999)]) = CONNECT_STATUS_CONNECTED
   \<and> conn_status (connect_status_run connected_example [(FRAME_LOST, 6000), (FRAME_REJECTED, 4000)]) = CONNECT_STATUS_DISCONNECTED"
  using link_connect_status_disconnects [of connected_example "[(FRAME_LOST, 6000), (FRAME_REJECTED, 3999)]"]
    link_connect_status_disconnects [of connected_example "[(FRAME_LOST, 6000), (FRAME_REJECTED, 4000)]"]
  by (cases "conn_status (connect_status_run connected_example [(FRAME_LOST, 6000), (FRAME_REJECTED, 4000)])")
    (simp_all add: connected_example_def link_connect_status_init_def outcome_lost_def
      MAX_DISCONNECT_DURATION_MS_def MS_TO_US_def del: connect_status_run.simps)

text \<open>
  The accumulator wraps: a frame lost after a time that is a multiple of 65536 microseconds
  leaves a connected link unchanged, although every configurable duration is shorter than that.
\<close>

theorem link_connect_status_elapsed_wraps:
  assumes "conn_status s = CONNECT_STATUS_CONNECTED" "outcome_lost out" "unat dt mod 2 ^ 16 = 0"
    and "lost_duration_us s < disconnect_duration_us s"
  shows "link_update_connect_status s out True False dt = (False, s)"
proof -
  have "unat (ucast (ucast (lost_duration_us s) + dt) :: u16) = unat (lost_duration_us s)"
  proof -
    have "unat (ucast (lost_duration_us s) :: u32) = unat (lost_duration_us s)"
      using unat_u16_lt [of "lost_duration_us s"] by (simp add: unat_ucast_mod del: unat_u16_lt)
    then have "unat (ucast (ucast (lost_duration_us s) + dt) :: u16)
        = (unat (lost_duration_us s) + unat dt) mod 2 ^ 32 mod 2 ^ 16"
      by (simp only: unat_ucast_mod [where 'a = 16] unat_word_ariths) simp
    also have "\<dots> = (unat (lost_duration_us s) + unat dt) mod 2 ^ 16"
      by (rule mod_mod_cancel) simp
    also have "\<dots> = (unat (lost_duration_us s) + unat dt mod 2 ^ 16) mod 2 ^ 16"
      by (rule mod_add_right_eq [symmetric])
    also have "\<dots> = unat (lost_duration_us s)" using assms(3) by simp
    finally show ?thesis .
  qed
  then have "(ucast (ucast (lost_duration_us s) + dt) :: u16) = lost_duration_us s"
    by (simp only: word_unat_eq_iff)
  then show ?thesis using assms by (simp add: link_update_connect_status_def)
qed

theorem link_connect_status_elapsed_wraps_witness:
  "link_update_connect_status connected_example FRAME_LOST True False 131072 = (False, connected_example)
   \<and> disconnect_duration_us connected_example = 10000"
  using link_connect_status_elapsed_wraps [of connected_example FRAME_LOST 131072]
  by (simp add: connected_example_def link_connect_status_init_def outcome_lost_def MAX_DISCONNECT_DURATION_MS_def
      MS_TO_US_def)

text \<open>
  Collecting ranging samples: from \<open>link_phase_init\<close> with a buffer large enough, adding
  exactly \<open>max_sample_count\<close> samples fills the buffer with them in order, makes them available
  through \<open>link_phase_get_metrics_array\<close>, and freezes the buffer until it has been read.
\<close>

theorem link_phase_collects_samples:
  assumes "0 < unat n" "unat n \<le> length buf" "length xs = unat n"
    and "link_phase_collect (link_phase_init buf n) xs = (rs, p)"
  shows "\<exists>b. link_phase_get_metrics_array p = (n, Some b)
    \<and> take (unat n) b = map (\<lambda>(l, r). \<lparr>local_info = l, remote_info = r\<rparr>) xs
    \<and> (\<forall>l r. link_phase_add_data p l r = (True, p))"
proof -
  have "0 < n" using assms(1) by (simp add: word_less_nat_alt)
  then have "take (unat n) (phase_info_buffer p) = map (\<lambda>(l, r). \<lparr>local_info = l, remote_info = r\<rparr>) xs
      \<and> unat (current_sample_count p) = unat n \<and> max_sample_count p = n \<and> \<not> was_phase_read p"
    using collect_step [OF _ _ _ assms(4)] assms(2,3) by (simp add: link_phase_init_def)
  then show ?thesis by (simp add: link_phase_get_metrics_array_def link_phase_add_data_def word_le_nat_alt)
qed

definition phase_example :: "u8 \<Rightarrow> phase_info" where
  "phase_example x = \<lparr>rx_waited1 = 0, rx_waited0 = x, phase1 = 1, phase2 = 2, phase3 = 3, phase4 = 4\<rparr>"

theorem link_phase_collects_samples_witness:
  "\<exists>b. link_phase_get_metrics_array (snd (link_phase_collect (link_phase_init
        (replicate 2 \<lparr>local_info = phase_example 0, remote_info = phase_example 0\<rparr>) 2)
        [(phase_example 1, phase_example 2), (phase_example 3, phase_example 4)])) = (2, Some b)
     \<and> map local_info (take 2 b) = [phase_example 1, phase_example 3]"
proof -
  let ?xs = "[(phase_example 1, phase_example 2), (phase_example 3, phase_example 4)]"
  obtain rs p where c: "link_phase_collect (link_phase_init
      (replicate 2 \<lparr>local_info = phase_example 0, remote_info = phase_example 0\<rparr>) 2) ?xs = (rs, p)"
    by (metis prod.exhaust)
  from link_phase_collects_samples [OF _ _ _ c] c show ?thesis by auto
qed

end
