(* ===== verification/Link_Protocol.thy ===== *)
theory Link_Protocol
  imports Prelude
begin

text \<open>
  The header multiplexer of \<open>link_protocol.c\<close>: a table of up to ten small protocols, each with a
  size, an identifier and a pair of callbacks, laid out one after the other in the frame header.

  The callbacks act on the device state \<open>'s\<close> their \<open>instance\<close> pointer leads to: \<open>pi_send\<close> gives
  the bytes written at the pointer it receives and the new state, \<open>pi_receive\<close> updates the state from the bytes
  that start there. Buffers are byte lists; \<open>write_at\<close> is the write through a pointer into one.
\<close>

datatype link_error =
  LINK_PROTO_NO_ERROR | LINK_PROTO_NO_BUFFER | LINK_PROTO_TOO_MANY_PROTO | LINK_PROTO_NO_MORE_SPACE

record 's link_protocol_info =
  pi_send :: "'s \<Rightarrow> byte list \<times> 's"
  pi_receive :: "byte list \<Rightarrow> 's \<Rightarrow> 's"
  pi_size :: u8
  pi_id :: u8
  pi_index :: u8

record 's link_protocol =
  lp_index :: u8
  current_buffer_offset :: u8
  current_number_of_protocol :: u8
  max_buffer_size :: u16
  protocol_info :: "'s link_protocol_info list"

definition MAX_NUMBER_OF_PROTOCOL :: nat where "MAX_NUMBER_OF_PROTOCOL = 10"

text \<open>A table entry cleared by \<open>memset\<close>; it is never called.\<close>

definition null_protocol :: "'s link_protocol_info" where
  "null_protocol = \<lparr>pi_send = \<lambda>s. ([], s), pi_receive = \<lambda>_ s. s, pi_size = 0, pi_id = 0, pi_index = 0\<rparr>"

definition write_at :: "nat \<Rightarrow> 'a list \<Rightarrow> 'a list \<Rightarrow> 'a list" where
  "write_at off bs buf = take off buf @ bs @ drop (off + length bs) buf"

section \<open>Operations\<close>

definition link_protocol_init :: "u16 \<Rightarrow> 's link_protocol" where
  "link_protocol_init max_size =
     \<lparr>lp_index = 0, current_buffer_offset = 0, current_number_of_protocol = 0,
      max_buffer_size = max_size, protocol_info = replicate MAX_NUMBER_OF_PROTOCOL null_protocol\<rparr>"

definition link_protocol_add ::
  "'s link_protocol \<Rightarrow> 's link_protocol_info \<Rightarrow> link_error \<times> 's link_protocol" where
  "link_protocol_add lp info =
     (if unat (current_number_of_protocol lp) < MAX_NUMBER_OF_PROTOCOL then
        if unat (current_buffer_offset lp) < unat (max_buffer_size lp) then
          (LINK_PROTO_NO_ERROR,
           lp\<lparr>protocol_info := (protocol_info lp)[unat (current_number_of_protocol lp) :=
                 info\<lparr>pi_index := current_buffer_offset lp\<rparr>],
              current_number_of_protocol := current_number_of_protocol lp + 1,
              current_buffer_offset := current_buffer_offset lp + pi_size info\<rparr>)
        else (LINK_PROTO_NO_MORE_SPACE, lp)
      else (LINK_PROTO_TOO_MANY_PROTO, lp))"

text \<open>The registered protocols: the entries the loops run over.\<close>

definition lp_protocols :: "'s link_protocol \<Rightarrow> 's link_protocol_info list" where
  "lp_protocols lp = take (unat (current_number_of_protocol lp)) (protocol_info lp)"

fun lp_send_loop ::
  "'s link_protocol_info list \<Rightarrow> u32 \<Rightarrow> byte list \<Rightarrow> 's \<Rightarrow> u32 \<times> byte list \<times> 's" where
  "lp_send_loop [] size_to_send buf s = (size_to_send, buf, s)"
| "lp_send_loop (p # ps) size_to_send buf s =
     lp_send_loop ps (size_to_send + ucast (pi_size p)) (write_at (unat size_to_send) (fst (pi_send p s)) buf)
       (snd (pi_send p s))"

definition link_protocol_send_buffer :: "'s link_protocol \<Rightarrow> 's \<Rightarrow> byte list \<Rightarrow> u32 \<times> byte list \<times> 's" where
  "link_protocol_send_buffer lp s buf = lp_send_loop (lp_protocols lp) 0 buf s"

text \<open>\<open>pos\<close> is \<open>receive_buffer\<close>, \<open>stop\<close> is \<open>receive_buffer_end\<close>, both relative to the start.\<close>

fun lp_receive_loop :: "'s link_protocol_info list \<Rightarrow> nat \<Rightarrow> nat \<Rightarrow> byte list \<Rightarrow> 's \<Rightarrow> 's" where
  "lp_receive_loop [] pos stop buf s = s"
| "lp_receive_loop (p # ps) pos stop buf s =
     (if pos < stop
      then lp_receive_loop ps (pos + unat (pi_size p)) stop buf (pi_receive p (drop pos buf) s)
      else s)"

definition link_protocol_receive_buffer :: "'s link_protocol \<Rightarrow> byte list \<Rightarrow> u32 \<Rightarrow> 's \<Rightarrow> 's" where
  "link_protocol_receive_buffer lp buf n s = lp_receive_loop (lp_protocols lp) 0 (unat n) buf s"

fun lp_find_offset :: "'s link_protocol_info list \<Rightarrow> u8 \<Rightarrow> u8" where
  "lp_find_offset [] protocol_id = 0"
| "lp_find_offset (p # ps) protocol_id =
     (if pi_id p = protocol_id then pi_index p + 1 else lp_find_offset ps protocol_id)"

definition link_protocol_get_buffer_offset :: "'s link_protocol \<Rightarrow> u8 \<Rightarrow> u8" where
  "link_protocol_get_buffer_offset lp protocol_id = lp_find_offset (lp_protocols lp) protocol_id"

section \<open>Layout\<close>

text \<open>Registering a list of protocols, stopping at the first error.\<close>

fun link_protocol_add_all ::
  "'s link_protocol_info list \<Rightarrow> 's link_protocol \<Rightarrow> 's link_protocol option" where
  "link_protocol_add_all [] lp = Some lp"
| "link_protocol_add_all (p # ps) lp =
     (case link_protocol_add lp p of
        (LINK_PROTO_NO_ERROR, lp1) \<Rightarrow> link_protocol_add_all ps lp1
      | _ \<Rightarrow> None)"

definition total_size :: "'s link_protocol_info list \<Rightarrow> nat" where
  "total_size ps = (\<Sum>p\<leftarrow>ps. unat (pi_size p))"

fun laid_out :: "nat \<Rightarrow> 's link_protocol_info list \<Rightarrow> 's link_protocol_info list" where
  "laid_out off [] = []"
| "laid_out off (p # ps) = p\<lparr>pi_index := of_nat off\<rparr> # laid_out (off + unat (pi_size p)) ps"

definition lp_wf :: "'s link_protocol \<Rightarrow> bool" where
  "lp_wf lp \<longleftrightarrow> length (protocol_info lp) = MAX_NUMBER_OF_PROTOCOL \<and>
     unat (current_number_of_protocol lp) \<le> MAX_NUMBER_OF_PROTOCOL"

lemma total_simps [simp]:
  "total_size [] = 0" "total_size (p # ps) = unat (pi_size p) + total_size ps"
  "total_size (ps @ qs) = total_size ps + total_size qs"
  by (simp_all add: total_size_def)

lemma total_laid_out [simp]: "total_size (laid_out off ps) = total_size ps"
  by (induction off ps rule: laid_out.induct) simp_all

lemma laid_out_append: "laid_out off (ps @ qs) = laid_out off ps @ laid_out (off + total_size ps) qs"
  by (induction off ps rule: laid_out.induct) (simp_all add: add.assoc)

lemma length_laid_out [simp]: "length (laid_out off ps) = length ps"
  by (induction off ps rule: laid_out.induct) simp_all

lemma add_accepts:
  assumes "lp_wf lp" "link_protocol_add lp p = (LINK_PROTO_NO_ERROR, lp')"
  shows "lp_wf lp'" "lp_protocols lp' = lp_protocols lp @ [p\<lparr>pi_index := current_buffer_offset lp\<rparr>]"
    "current_buffer_offset lp' = current_buffer_offset lp + pi_size p"
    "max_buffer_size lp' = max_buffer_size lp"
proof -
  let ?n = "unat (current_number_of_protocol lp)"
  have n: "?n < MAX_NUMBER_OF_PROTOCOL"
    and lp': "lp' = lp\<lparr>protocol_info := (protocol_info lp)[?n := p\<lparr>pi_index := current_buffer_offset lp\<rparr>],
        current_number_of_protocol := current_number_of_protocol lp + 1,
        current_buffer_offset := current_buffer_offset lp + pi_size p\<rparr>"
    using assms(2) by (auto simp: link_protocol_add_def split: if_splits)
  have s: "unat (current_number_of_protocol lp + 1) = Suc ?n"
    using n by (subst unat_plus_lt) (simp_all add: MAX_NUMBER_OF_PROTOCOL_def)
  show "lp_wf lp'" using assms(1) n s by (simp add: lp_wf_def lp')
  show "lp_protocols lp' = lp_protocols lp @ [p\<lparr>pi_index := current_buffer_offset lp\<rparr>]"
    using assms(1) n s by (simp add: lp_protocols_def lp' lp_wf_def take_Suc_conv_app_nth)
  show "current_buffer_offset lp' = current_buffer_offset lp + pi_size p"
    "max_buffer_size lp' = max_buffer_size lp" by (simp_all add: lp')
qed

lemma add_all_layout:
  assumes "link_protocol_add_all ps lp = Some lp'" "lp_wf lp"
    and "current_buffer_offset lp = of_nat (total_size (lp_protocols lp))"
  shows "lp_wf lp' \<and> lp_protocols lp' = lp_protocols lp @ laid_out (total_size (lp_protocols lp)) ps \<and>
    current_buffer_offset lp' = of_nat (total_size (lp_protocols lp'))"
  using assms
proof (induction ps lp rule: link_protocol_add_all.induct)
  case (2 p ps lp)
  obtain lp1 where a: "link_protocol_add lp p = (LINK_PROTO_NO_ERROR, lp1)"
    and r: "link_protocol_add_all ps lp1 = Some lp'"
    using "2.prems"(1) by (auto split: prod.splits link_error.splits)
  note v = add_accepts [OF "2.prems"(2) a]
  have o: "current_buffer_offset lp1 = of_nat (total_size (lp_protocols lp1))"
    using v(2,3) "2.prems"(3) by simp
  from "2.IH" [OF a [symmetric] refl r v(1) o] v(2) "2.prems"(3) show ?case by simp
qed simp

lemma init_layout:
  assumes "link_protocol_add_all ps (link_protocol_init max_size) = Some lp"
  shows "lp_protocols lp = laid_out 0 ps"
proof -
  let ?i = "link_protocol_init max_size"
  have w: "lp_wf ?i" and e: "lp_protocols ?i = []" and o: "current_buffer_offset ?i = 0"
    by (simp_all add: lp_wf_def link_protocol_init_def lp_protocols_def)
  have "current_buffer_offset ?i = of_nat (total_size (lp_protocols ?i))" by (simp add: e o)
  from add_all_layout [OF assms w this] show ?thesis by (simp add: e)
qed

section \<open>Transfer\<close>

text \<open>
  What the multiplexer expects of a protocol: it has bytes to carry, its transmit callback fills
  exactly its size, and its receive callback looks at no byte beyond it.
\<close>

definition protocol_contract :: "'s link_protocol_info \<Rightarrow> bool" where
  "protocol_contract p \<longleftrightarrow> 0 < unat (pi_size p) \<and> (\<forall>s. length (fst (pi_send p s)) = unat (pi_size p)) \<and>
     (\<forall>bs t. pi_receive p bs t = pi_receive p (take (unat (pi_size p)) bs) t)"

text \<open>The bytes each protocol contributes, and the sender's state after all of them.\<close>

fun header_parts :: "'s \<Rightarrow> 's link_protocol_info list \<Rightarrow> byte list list" where
  "header_parts s [] = []"
| "header_parts s (p # ps) = fst (pi_send p s) # header_parts (snd (pi_send p s)) ps"

definition header_bytes :: "'s \<Rightarrow> 's link_protocol_info list \<Rightarrow> byte list" where
  "header_bytes s ps = concat (header_parts s ps)"

definition header_state :: "'s \<Rightarrow> 's link_protocol_info list \<Rightarrow> 's" where
  "header_state s ps = fold (\<lambda>p s. snd (pi_send p s)) ps s"

text \<open>What the receive callbacks do with those parts.\<close>

definition header_received :: "'s \<Rightarrow> 's link_protocol_info list \<Rightarrow> 's \<Rightarrow> 's" where
  "header_received s ps t = fold (\<lambda>(p, bs). pi_receive p bs) (zip ps (header_parts s ps)) t"

lemma header_simps [simp]:
  "header_bytes s [] = []" "header_bytes s (p # ps) = fst (pi_send p s) @ header_bytes (snd (pi_send p s)) ps"
  "header_state s [] = s" "header_state s (p # ps) = header_state (snd (pi_send p s)) ps"
  "header_received s [] t = t"
  "header_received s (p # ps) t = header_received (snd (pi_send p s)) ps (pi_receive p (fst (pi_send p s)) t)"
  by (simp_all add: header_bytes_def header_state_def header_received_def)

lemma length_header_bytes:
  "list_all protocol_contract ps \<Longrightarrow> length (header_bytes s ps) = total_size ps"
  by (induction ps arbitrary: s) (simp_all add: protocol_contract_def)

lemma header_laid_out [simp]:
  "header_bytes s (laid_out off ps) = header_bytes s ps"
  "header_state s (laid_out off ps) = header_state s ps"
  "header_received s (laid_out off ps) t = header_received s ps t"
  by (induction off ps arbitrary: s t rule: laid_out.induct) simp_all

lemma contract_laid_out [simp]: "list_all protocol_contract (laid_out off ps) = list_all protocol_contract ps"
  by (induction off ps rule: laid_out.induct) (simp_all add: protocol_contract_def)

lemma send_loop:
  assumes "list_all protocol_contract ps" "unat off + total_size ps < 2 ^ 32"
    and "unat off + total_size ps \<le> length buf"
  shows "lp_send_loop ps off buf s = (of_nat (unat off + total_size ps),
    take (unat off) buf @ header_bytes s ps @ drop (unat off + total_size ps) buf, header_state s ps)"
  using assms
proof (induction ps off buf s rule: lp_send_loop.induct)
  case (2 p ps off buf s)
  let ?n = "unat (pi_size p)" and ?bs = "fst (pi_send p s)" and ?s = "snd (pi_send p s)"
  have bs: "length ?bs = ?n" using "2.prems"(1) by (simp add: protocol_contract_def)
  have u: "unat (ucast (pi_size p) :: u32) = ?n"
    using unat_u8_lt [of "pi_size p"] by (simp add: unat_ucast_mod del: unat_u8_lt)
  have o: "unat (off + ucast (pi_size p)) = unat off + ?n"
    using "2.prems"(2) u by (subst unat_plus_lt) simp_all
  have "length (write_at (unat off) ?bs buf) = length buf"
    using "2.prems"(3) bs by (simp add: write_at_def)
  then have "lp_send_loop (p # ps) off buf s = (of_nat (unat off + total_size (p # ps)),
      take (unat off + ?n) (write_at (unat off) ?bs buf) @ header_bytes ?s ps
        @ drop (unat off + total_size (p # ps)) (write_at (unat off) ?bs buf), header_state ?s ps)"
    using "2.IH" "2.prems" o by (simp add: add.assoc)
  moreover have "take (unat off + ?n) (write_at (unat off) ?bs buf) = take (unat off) buf @ ?bs"
    using "2.prems"(3) bs by (simp add: write_at_def)
  moreover have "drop (unat off + total_size (p # ps)) (write_at (unat off) ?bs buf)
      = drop (unat off + total_size (p # ps)) buf"
    using "2.prems"(3) bs by (simp add: write_at_def ac_simps)
  ultimately show ?case by simp
qed simp

lemma receive_loop:
  assumes "list_all protocol_contract ps" "length pre = pos" "stop = pos + total_size ps"
  shows "lp_receive_loop ps pos stop (pre @ header_bytes s ps @ post) t = header_received s ps t"
  using assms
proof (induction ps arbitrary: pre pos s t)
  case (Cons p ps)
  let ?n = "unat (pi_size p)" and ?bs = "fst (pi_send p s)" and ?s = "snd (pi_send p s)"
  have pc: "protocol_contract p" using Cons.prems(1) by simp
  then have bs: "length ?bs = ?n" and n: "0 < ?n" by (simp_all add: protocol_contract_def)
  have r: "pi_receive p bs t = pi_receive p (take ?n bs) t" for bs
    using pc unfolding protocol_contract_def by blast
  have "lp_receive_loop ps (pos + ?n) stop ((pre @ ?bs) @ header_bytes ?s ps @ post) u = header_received ?s ps u" for u
    by (rule Cons.IH) (use Cons.prems bs in simp_all)
  moreover have "pi_receive p (?bs @ header_bytes ?s ps @ post) t = pi_receive p ?bs t"
    using r [of "?bs @ header_bytes ?s ps @ post"] bs by simp
  ultimately show ?case using Cons.prems n by simp
qed simp

lemma find_offset:
  assumes "distinct (map pi_id ps)" "i < length ps" "off + total_size ps < 256"
  shows "lp_find_offset (laid_out off ps) (pi_id (ps ! i)) = of_nat (off + total_size (take i ps)) + 1"
  using assms
proof (induction off ps arbitrary: i rule: laid_out.induct)
  case (2 off p ps)
  show ?case
  proof (cases i)
    case (Suc j)
    then have "pi_id p \<noteq> pi_id (ps ! j)" using "2.prems"(1,2) by auto
    with Suc "2.IH" [of j] "2.prems" show ?thesis by (simp add: add.assoc)
  qed simp
qed simp

lemma send_then_receive:
  assumes "link_protocol_add_all ps (link_protocol_init max_size) = Some lp"
    and "list_all protocol_contract ps" "total_size ps < 256" "total_size ps \<le> length buf"
    and "link_protocol_send_buffer lp s buf = (n, header, s')"
  shows "link_protocol_receive_buffer lp header n t = header_received s ps t"
proof -
  have p: "lp_protocols lp = laid_out 0 ps" by (rule init_layout [OF assms(1)])
  have "(n, header, s') = (of_nat (total_size ps), header_bytes s ps @ drop (total_size ps) buf, header_state s ps)"
    using send_loop [of "laid_out 0 ps" 0 buf s] assms p by (simp add: link_protocol_send_buffer_def)
  moreover have "unat (of_nat (total_size ps) :: u32) = total_size ps"
    using assms(3) by (intro unat_of_nat_lt) simp
  ultimately have "unat n = total_size ps" "header = header_bytes s ps @ drop (total_size ps) buf" by auto
  moreover have "lp_receive_loop (laid_out 0 ps) 0 (total_size ps) ([] @ header_bytes s (laid_out 0 ps) @ drop (total_size ps) buf) t
      = header_received s (laid_out 0 ps) t"
    by (rule receive_loop) (use assms(2) in simp_all)
  ultimately show ?thesis by (simp add: link_protocol_receive_buffer_def p)
qed

section \<open>Properties\<close>

text \<open>
  Header layout: protocols registered from a fresh table without error occupy consecutive,
  non-overlapping byte ranges, \<open>link_protocol_send_buffer\<close> writes each one's bytes in its range,
  leaves the rest of the buffer alone and reports the total size, and
  \<open>link_protocol_get_buffer_offset\<close> gives one more than where a protocol's range starts.
\<close>

theorem link_protocol_layout:
  assumes "link_protocol_add_all ps (link_protocol_init max_size) = Some lp"
    and "list_all protocol_contract ps" "total_size ps < 256" "total_size ps \<le> length buf"
  shows "link_protocol_send_buffer lp s buf
      = (of_nat (total_size ps), header_bytes s ps @ drop (total_size ps) buf, header_state s ps) \<and>
    (distinct (map pi_id ps) \<longrightarrow> (\<forall>i<length ps. link_protocol_get_buffer_offset lp (pi_id (ps ! i))
      = of_nat (total_size (take i ps)) + 1))"
proof -
  have p: "lp_protocols lp = laid_out 0 ps" by (rule init_layout [OF assms(1)])
  have "lp_send_loop (laid_out 0 ps) 0 buf s
      = (of_nat (total_size ps), header_bytes s ps @ drop (total_size ps) buf, header_state s ps)"
    using send_loop [of "laid_out 0 ps" 0 buf s] assms by simp
  moreover have "distinct (map pi_id ps) \<longrightarrow> (\<forall>i<length ps. lp_find_offset (laid_out 0 ps) (pi_id (ps ! i))
      = of_nat (total_size (take i ps)) + 1)"
    using find_offset [of ps _ 0] assms(3) by simp
  ultimately show ?thesis by (simp add: link_protocol_send_buffer_def link_protocol_get_buffer_offset_def p)
qed

definition copy_protocol :: "u8 \<Rightarrow> nat \<Rightarrow> byte list link_protocol_info" where
  "copy_protocol ident k = \<lparr>pi_send = \<lambda>s. (take 2 (drop k s @ [0, 0]), s),
     pi_receive = \<lambda>bs s. write_at k (take 2 bs) s, pi_size = 2, pi_id = ident, pi_index = 0\<rparr>"

lemma copy_fields [simp]: "pi_size (copy_protocol ident k) = 2" "pi_id (copy_protocol ident k) = ident"
  by (simp_all add: copy_protocol_def)

lemma copy_contract: "protocol_contract (copy_protocol ident k)"
  by (auto simp: protocol_contract_def copy_protocol_def min_def)

theorem link_protocol_layout_witness:
  "\<exists>lp. link_protocol_add_all [copy_protocol 3 0, copy_protocol 5 2] (link_protocol_init 10) = Some lp
     \<and> link_protocol_send_buffer lp [1, 2, 3, 4] [0, 0, 0, 0, 9] = (4, [1, 2, 3, 4, 9], [1, 2, 3, 4])
     \<and> link_protocol_get_buffer_offset lp 5 = 3"
proof -
  let ?ps = "[copy_protocol 3 0, copy_protocol 5 2]"
  obtain lp where lp: "link_protocol_add_all ?ps (link_protocol_init 10) = Some lp"
    by (simp add: link_protocol_add_def link_protocol_init_def MAX_NUMBER_OF_PROTOCOL_def copy_protocol_def)
  have c: "list_all protocol_contract ?ps" using copy_contract by simp
  have t: "total_size ?ps = 4" by (simp add: copy_protocol_def)
  have "header_bytes [1, 2, 3, 4] ?ps = [1, 2, 3, 4]" "header_state [1, 2, 3, 4] ?ps = [1, 2, 3, 4]"
    by (simp_all add: copy_protocol_def)
  moreover have "link_protocol_send_buffer lp [1, 2, 3, 4] [0, 0, 0, 0, 9]
      = (of_nat (total_size ?ps), header_bytes [1, 2, 3, 4] ?ps @ drop (total_size ?ps) [0, 0, 0, 0, 9],
        header_state [1, 2, 3, 4] ?ps) \<and>
    (distinct (map pi_id ?ps) \<longrightarrow> (\<forall>i<length ?ps. link_protocol_get_buffer_offset lp (pi_id (?ps ! i))
      = of_nat (total_size (take i ?ps)) + 1))"
    by (rule link_protocol_layout [OF lp c]) (simp_all add: copy_protocol_def)
  moreover have d: "distinct (map pi_id ?ps)" "pi_id (?ps ! 1) = 5" "total_size (take 1 ?ps) = 2" "1 < length ?ps"
    by (simp_all add: copy_protocol_def)
  ultimately have "link_protocol_get_buffer_offset lp (pi_id (?ps ! 1)) = of_nat (total_size (take 1 ?ps)) + 1"
    and "link_protocol_send_buffer lp [1, 2, 3, 4] [0, 0, 0, 0, 9] = (4, [1, 2, 3, 4, 9], [1, 2, 3, 4])"
    using t by auto
  with lp d show ?thesis by auto
qed

text \<open>
  C19. Header round trip: what one device writes with \<open>link_protocol_send_buffer\<close> another device
  with the same table reads back with \<open>link_protocol_receive_buffer\<close>: every protocol's receive
  callback runs once, in registration order, on exactly the bytes its transmit callback produced.
\<close>

theorem link_protocol_round_trip:
  assumes "link_protocol_add_all ps (link_protocol_init max_size) = Some lp"
    and "list_all protocol_contract ps" "total_size ps < 256" "total_size ps \<le> length buf"
    and "link_protocol_send_buffer lp s buf = (n, header, s')"
  shows "link_protocol_receive_buffer lp header n t
    = fold (\<lambda>(p, bs). pi_receive p bs) (zip ps (header_parts s ps)) t"
  using send_then_receive [OF assms, of t] by (simp add: header_received_def)

theorem link_protocol_round_trip_witness:
  "\<exists>lp n header s'. link_protocol_add_all [copy_protocol 3 0, copy_protocol 5 2] (link_protocol_init 10) = Some lp
     \<and> link_protocol_send_buffer lp [1, 2, 3, 4] (replicate 5 0) = (n, header, s')
     \<and> link_protocol_receive_buffer lp header n [0, 0, 0, 0] = [1, 2, 3, 4]"
proof -
  let ?ps = "[copy_protocol 3 0, copy_protocol 5 2]"
  obtain lp where lp: "link_protocol_add_all ?ps (link_protocol_init 10) = Some lp"
    by (simp add: link_protocol_add_def link_protocol_init_def MAX_NUMBER_OF_PROTOCOL_def copy_protocol_def)
  have c: "list_all protocol_contract ?ps" using copy_contract by simp
  have t: "total_size ?ps = 4" by (simp add: copy_protocol_def)
  obtain n header s' where s: "link_protocol_send_buffer lp [1, 2, 3, 4] (replicate 5 0) = (n, header, s')"
    by (metis prod.exhaust)
  have "link_protocol_receive_buffer lp header n [0, 0, 0, 0] = [1, 2, 3, 4]"
    using link_protocol_round_trip [OF lp c _ _ s, of "[0, 0, 0, 0]"] t
    by (simp add: copy_protocol_def write_at_def)
  with lp s show ?thesis by blast
qed

text \<open>
  The space check is on the start only: a protocol is accepted whenever the current offset is
  below the limit, even when its bytes end beyond it, and sending then writes past the limit.
\<close>

theorem link_protocol_add_ignores_size:
  assumes "current_number_of_protocol lp < 10" "unat (current_buffer_offset lp) < unat (max_buffer_size lp)"
    and "unat (max_buffer_size lp) < unat (current_buffer_offset lp) + unat (pi_size p)"
    and "unat (current_buffer_offset lp) + unat (pi_size p) < 256"
  shows "fst (link_protocol_add lp p) = LINK_PROTO_NO_ERROR \<and>
    unat (max_buffer_size lp) < unat (current_buffer_offset (snd (link_protocol_add lp p)))"
proof -
  have "unat (current_number_of_protocol lp) < MAX_NUMBER_OF_PROTOCOL"
    using assms(1) by (simp add: word_less_nat_alt MAX_NUMBER_OF_PROTOCOL_def)
  moreover have "unat (current_buffer_offset lp + pi_size p) = unat (current_buffer_offset lp) + unat (pi_size p)"
    using assms(4) by (subst unat_plus_lt) simp_all
  ultimately show ?thesis using assms(2,3) by (simp add: link_protocol_add_def)
qed

theorem link_protocol_add_ignores_size_witness:
  "fst (link_protocol_add (link_protocol_init 1) (copy_protocol 3 0)) = LINK_PROTO_NO_ERROR \<and>
   unat (current_buffer_offset (snd (link_protocol_add (link_protocol_init 1) (copy_protocol 3 0)))) = 2"
  using link_protocol_add_ignores_size [of "link_protocol_init 1" "copy_protocol 3 0"]
  by (simp add: link_protocol_init_def copy_protocol_def link_protocol_add_def MAX_NUMBER_OF_PROTOCOL_def)

end
