(* ===== verification/Scheduler.thy ===== *)
theory Scheduler
  imports Radio_Types
begin

text \<open>
  The time slot scheduler of \<open>link_scheduler.c\<close> and \<open>link_scheduler.h\<close>. A schedule is an array of
  time slots, each with its lists of connections; connections are addresses, and \<open>src\<close>, an
  argument where it matters, gives the \<open>cfg.source_address\<close> of the connection at an address.
  The loop that skips empty slots is a partial function whose value is \<open>None\<close> when it does not
  end. \<open>scheduler_wf\<close> says that the array has \<open>size\<close> entries, that slot numbers fit their 8 bits
  and that the current one is in range.
\<close>

record timeslot_conn_list =
  connection_count :: u8
  tcl_connection :: "nat option list"
  tcl_priority :: "u8 list"
  max_payload_size :: u8
  max_cca_rx_timeout_offset :: u32

record timeslot =
  main_conn_list :: timeslot_conn_list
  auto_conn_list :: timeslot_conn_list
  duration_pll_cycles :: u32
  last_used_main_connection :: u8
  ts_sleep_lvl :: sleep_lvl

record schedule =
  sched_timeslot :: "timeslot list"
  sched_size :: u32
  lightest_sleep_lvl :: sleep_lvl

record scheduler =
  schedule :: schedule
  current_time_slot_num :: u8
  current_sleep_lvl :: sleep_lvl
  next_sleep_lvl :: sleep_lvl
  sleep_cycles :: u32
  sched_local_addr :: u16
  tx_disabled :: bool
  timeslot_mismatch :: bool

definition WPS_MAX_CONN_PER_TIMESLOT :: nat where "WPS_MAX_CONN_PER_TIMESLOT = 3"

definition zero_conn_list :: timeslot_conn_list where
  "zero_conn_list = \<lparr>connection_count = 0, tcl_connection = replicate WPS_MAX_CONN_PER_TIMESLOT None,
     tcl_priority = replicate WPS_MAX_CONN_PER_TIMESLOT 0, max_payload_size = 0, max_cca_rx_timeout_offset = 0\<rparr>"

definition zero_timeslot :: timeslot where
  "zero_timeslot = \<lparr>main_conn_list = zero_conn_list, auto_conn_list = zero_conn_list,
     duration_pll_cycles = 0, last_used_main_connection = 0, ts_sleep_lvl = SLEEP_IDLE_NO_WAKEONCE\<rparr>"

section \<open>Operations\<close>

definition link_scheduler_init :: "scheduler \<Rightarrow> u16 \<Rightarrow> scheduler" where
  "link_scheduler_init s local_addr =
     s\<lparr>current_time_slot_num := 0, sleep_cycles := 0, sched_local_addr := local_addr,
       tx_disabled := False, timeslot_mismatch := False\<rparr>"

definition link_scheduler_reset :: "scheduler \<Rightarrow> scheduler" where
  "link_scheduler_reset s =
     (let n = unat (sched_size (schedule s)) in
      s\<lparr>schedule := (schedule s)\<lparr>sched_timeslot := replicate n zero_timeslot @ drop n (sched_timeslot (schedule s)),
          sched_size := 0\<rparr>,
        current_time_slot_num := 0, sleep_cycles := 0, tx_disabled := False\<rparr>)"

definition time_slot_is_empty :: "(nat \<Rightarrow> u16) \<Rightarrow> scheduler \<Rightarrow> timeslot \<Rightarrow> bool" where
  "time_slot_is_empty src s ts =
     (case tcl_connection (main_conn_list ts) ! 0 of
        None \<Rightarrow> True
      | Some c \<Rightarrow> if tx_disabled s \<and> src c = sched_local_addr s then True else False)"

definition sched_slot :: "scheduler \<Rightarrow> nat \<Rightarrow> timeslot" where
  "sched_slot s i = sched_timeslot (schedule s) ! i"

text \<open>The \<open>do\<close>-\<open>while\<close> loop: slot number, sleep cycles and count at its end.\<close>

partial_function (option) sched_skip_loop ::
  "(nat \<Rightarrow> u16) \<Rightarrow> scheduler \<Rightarrow> u8 \<Rightarrow> u32 \<Rightarrow> u8 \<Rightarrow> (u8 \<times> u32 \<times> u8) option" where
  "sched_skip_loop src s i cycles inc_count =
     (let cycles1 = cycles + duration_pll_cycles (sched_slot s (unat i));
          i1 = ucast ((ucast i + 1) mod sched_size (schedule s)) :: u8;
          inc1 = inc_count + 1
      in if time_slot_is_empty src s (sched_slot s (unat i1))
         then sched_skip_loop src s i1 cycles1 inc1
         else Some (i1, cycles1, inc1))"

definition link_scheduler_increment_time_slot :: "(nat \<Rightarrow> u16) \<Rightarrow> scheduler \<Rightarrow> (u8 \<times> scheduler) option" where
  "link_scheduler_increment_time_slot src s =
     (let s1 = s\<lparr>timeslot_mismatch := False\<rparr> in
      if sched_size (schedule s1) \<noteq> 0 then
        (let i = current_time_slot_num s1;
             s2 = s1\<lparr>current_sleep_lvl := ts_sleep_lvl (sched_slot s1 (unat i))\<rparr>
         in map_option (\<lambda>(i', cycles, inc).
              (inc, s2\<lparr>sleep_cycles := cycles, current_time_slot_num := i',
                       next_sleep_lvl := ts_sleep_lvl (sched_slot s2 (unat i'))\<rparr>))
            (sched_skip_loop src s2 i (sleep_cycles s2) 0))
      else Some (0, s1))"

definition link_scheduler_set_time_slot_i :: "scheduler \<Rightarrow> u8 \<Rightarrow> scheduler" where
  "link_scheduler_set_time_slot_i s i = s\<lparr>current_time_slot_num := i\<rparr>"

definition link_scheduler_enable_tx :: "scheduler \<Rightarrow> scheduler" where
  "link_scheduler_enable_tx s = s\<lparr>tx_disabled := False\<rparr>"

definition link_scheduler_disable_tx :: "scheduler \<Rightarrow> scheduler" where
  "link_scheduler_disable_tx s = s\<lparr>tx_disabled := True\<rparr>"

definition link_scheduler_get_current_timeslot :: "scheduler \<Rightarrow> timeslot" where
  "link_scheduler_get_current_timeslot s = sched_slot s (unat (current_time_slot_num s))"

definition link_scheduler_get_current_timeslot_main_max_payload_size :: "scheduler \<Rightarrow> u8" where
  "link_scheduler_get_current_timeslot_main_max_payload_size s =
     max_payload_size (main_conn_list (sched_slot s (unat (current_time_slot_num s))))"

definition link_scheduler_get_current_timeslot_max_cca_rx_timeout_offset :: "scheduler \<Rightarrow> u32" where
  "link_scheduler_get_current_timeslot_max_cca_rx_timeout_offset s =
     max_cca_rx_timeout_offset (main_conn_list (sched_slot s (unat (current_time_slot_num s))))"

definition link_scheduler_get_current_timeslot_auto_max_payload_size :: "scheduler \<Rightarrow> u8" where
  "link_scheduler_get_current_timeslot_auto_max_payload_size s =
     max_payload_size (auto_conn_list (sched_slot s (unat (current_time_slot_num s))))"

definition link_scheduler_get_previous_timeslot_index :: "scheduler \<Rightarrow> timeslot" where
  "link_scheduler_get_previous_timeslot_index s =
     (let n = (if current_time_slot_num s = 0 then ucast (sched_size (schedule s) - 1)
               else current_time_slot_num s - 1) :: u8
      in sched_slot s (unat n))"

definition link_scheduler_get_current_main_connection :: "scheduler \<Rightarrow> u8 \<Rightarrow> nat option" where
  "link_scheduler_get_current_main_connection s ident =
     tcl_connection (main_conn_list (sched_slot s (unat (current_time_slot_num s)))) ! unat ident"

definition link_scheduler_get_current_auto_connection :: "scheduler \<Rightarrow> u8 \<Rightarrow> nat option" where
  "link_scheduler_get_current_auto_connection s ident =
     tcl_connection (auto_conn_list (sched_slot s (unat (current_time_slot_num s)))) ! unat ident"

definition link_scheduler_get_total_timeslot_count :: "scheduler \<Rightarrow> u8" where
  "link_scheduler_get_total_timeslot_count s = ucast (sched_size (schedule s))"

definition link_scheduler_get_next_timeslot_index :: "scheduler \<Rightarrow> u8" where
  "link_scheduler_get_next_timeslot_index s = current_time_slot_num s"

definition link_scheduler_get_sleep_time :: "scheduler \<Rightarrow> u32" where
  "link_scheduler_get_sleep_time s = sleep_cycles s"

definition link_scheduler_set_first_time_slot :: "scheduler \<Rightarrow> scheduler" where
  "link_scheduler_set_first_time_slot s =
     (if sched_size (schedule s) > 1
      then link_scheduler_set_time_slot_i s (ucast (sched_size (schedule s) - 1)) else s)"

definition link_scheduler_reset_sleep_time :: "scheduler \<Rightarrow> scheduler" where
  "link_scheduler_reset_sleep_time s = s\<lparr>sleep_cycles := 0\<rparr>"

definition link_scheduler_set_mismatch :: "scheduler \<Rightarrow> scheduler" where
  "link_scheduler_set_mismatch s = s\<lparr>timeslot_mismatch := True\<rparr>"

definition link_scheduler_get_mismatch :: "scheduler \<Rightarrow> bool" where
  "link_scheduler_get_mismatch s = timeslot_mismatch s"

section \<open>Skipping empty slots\<close>

definition scheduler_wf :: "scheduler \<Rightarrow> bool" where
  "scheduler_wf s \<longleftrightarrow> 0 < unat (sched_size (schedule s)) \<and> unat (sched_size (schedule s)) \<le> 256 \<and>
     length (sched_timeslot (schedule s)) = unat (sched_size (schedule s)) \<and>
     unat (current_time_slot_num s) < unat (sched_size (schedule s))"

text \<open>The slot \<open>k\<close> steps after slot \<open>i\<close>, cyclically, and whether it is empty.\<close>

definition slot_after :: "scheduler \<Rightarrow> nat \<Rightarrow> nat \<Rightarrow> nat" where
  "slot_after s i k = (i + k) mod unat (sched_size (schedule s))"

definition empty_after :: "(nat \<Rightarrow> u16) \<Rightarrow> scheduler \<Rightarrow> nat \<Rightarrow> nat \<Rightarrow> bool" where
  "empty_after src s i k = time_slot_is_empty src s (sched_slot s (slot_after s i k))"

lemma next_slot:
  assumes "unat (sched_size (schedule s)) \<le> 256" "0 < unat (sched_size (schedule s))"
  shows "unat (ucast ((ucast (i :: u8) + 1) mod sched_size (schedule s)) :: u8) = slot_after s (unat i) 1"
proof -
  let ?n = "unat (sched_size (schedule s))"
  have u: "unat (ucast i :: u32) = unat i"
    using unat_u8_lt [of i] by (simp add: unat_ucast_mod del: unat_u8_lt)
  have "unat (ucast i + 1 :: u32) = unat i + 1"
    using unat_u8_lt [of i] u by (subst unat_plus_lt) (simp_all del: unat_u8_lt)
  then have "unat ((ucast i + 1) mod sched_size (schedule s)) = (unat i + 1) mod ?n"
    by (simp add: unat_mod_distrib)
  moreover have "(unat i + 1) mod ?n < 256" using assms by (meson mod_less_divisor le_trans less_le_trans)
  ultimately show ?thesis by (simp add: unat_ucast_mod slot_after_def)
qed

lemma slot_after_Suc:
  "slot_after s (slot_after s i (Suc 0)) k = slot_after s i (Suc k)"
  by (simp add: slot_after_def mod_add_left_eq)

lemma skip_loop_returns:
  assumes "unat (sched_size (schedule s)) \<le> 256" "0 < unat (sched_size (schedule s))"
    and "unat i < unat (sched_size (schedule s))"
    and "\<forall>j. 0 < j \<and> j < Suc k \<longrightarrow> empty_after src s (unat i) j" "\<not> empty_after src s (unat i) (Suc k)"
  shows "\<exists>i'. sched_skip_loop src s i cycles inc =
      Some (i', cycles + (\<Sum>j\<leftarrow>[0..<Suc k]. duration_pll_cycles (sched_slot s (slot_after s (unat i) j))),
        inc + of_nat (Suc k)) \<and> unat i' = slot_after s (unat i) (Suc k)"
  using assms(3-)
proof (induction k arbitrary: i cycles inc)
  case 0
  let ?i = "ucast ((ucast i + 1) mod sched_size (schedule s)) :: u8"
  have n: "unat ?i = slot_after s (unat i) 1" by (rule next_slot [OF assms(1,2)])
  have "\<not> time_slot_is_empty src s (sched_slot s (unat ?i))" using 0 n by (simp add: empty_after_def)
  moreover have "slot_after s (unat i) 0 = unat i" using 0 by (simp add: slot_after_def)
  ultimately show ?case using n by (subst sched_skip_loop.simps) (simp add: Let_def)
next
  case (Suc k)
  let ?d = "\<lambda>j. duration_pll_cycles (sched_slot s (slot_after s (unat i) j))"
  obtain i1 :: u8 where i1: "ucast ((ucast i + 1) mod sched_size (schedule s)) = i1" by blast
  have n: "unat i1 = slot_after s (unat i) (Suc 0)" using next_slot [OF assms(1,2), of i] i1 by simp
  have e: "time_slot_is_empty src s (sched_slot s (unat i1))"
    using Suc.prems(2) n by (auto simp: empty_after_def dest: spec [of _ "Suc 0"])
  have z: "slot_after s (unat i) 0 = unat i" using Suc.prems(1) by (simp add: slot_after_def)
  have sh: "empty_after src s (slot_after s (unat i) (Suc 0)) j = empty_after src s (unat i) (Suc j)" for j
    by (simp add: empty_after_def slot_after_Suc)
  have "unat i1 < unat (sched_size (schedule s))" using n assms(2) by (simp add: slot_after_def)
  then obtain i' where l: "sched_skip_loop src s i1 (cycles + ?d 0) (inc + 1) =
      Some (i', cycles + ?d 0 + (\<Sum>j\<leftarrow>[0..<Suc k]. ?d (Suc j)), inc + 1 + of_nat (Suc k))"
    and i': "unat i' = slot_after s (unat i) (Suc (Suc k))"
    using Suc.IH [of i1 "cycles + ?d 0" "inc + 1"] Suc.prems(2,3)
    by (auto simp: sh n slot_after_Suc simp del: upt_Suc of_nat_Suc)
  have "(\<Sum>j\<leftarrow>[0..<Suc (Suc k)]. ?d j) = ?d 0 + (\<Sum>j\<leftarrow>[0..<Suc k]. ?d (Suc j))"
    using map_upt_shift [of ?d "Suc k"] by (simp add: upt_conv_Cons del: upt_Suc)
  moreover have "sched_skip_loop src s i cycles inc = sched_skip_loop src s i1 (cycles + ?d 0) (inc + 1)"
    using e z i1 by (subst sched_skip_loop.simps) (simp add: Let_def)
  ultimately show ?case using l i' by (simp add: add.assoc del: upt_Suc)
qed

lemma skip_loop_diverges:
  assumes "unat (sched_size (schedule s)) \<le> 256" "0 < unat (sched_size (schedule s))"
    and "\<forall>j<unat (sched_size (schedule s)). time_slot_is_empty src s (sched_slot s j)"
  shows "sched_skip_loop src s i cycles inc = None"
proof -
  have False if e: "sched_skip_loop src s i cycles inc = Some r" for r
  proof -
    have "src = src \<and> s = s \<longrightarrow> False"
    proof (rule sched_skip_loop.raw_induct [where P = "\<lambda>src' s' i c n r. src' = src \<and> s' = s \<longrightarrow> False", OF _ e])
      fix loop src' s' and i :: u8 and c n r
      assume ih: "\<And>src' s' i c n r. loop src' s' i c n = Some r \<Longrightarrow> src' = src \<and> s' = s \<longrightarrow> False"
        and eq: "(let cycles1 = c + duration_pll_cycles (sched_slot s' (unat i));
            i1 = ucast ((ucast i + 1) mod sched_size (schedule s')) :: u8; inc1 = n + 1
          in if time_slot_is_empty src' s' (sched_slot s' (unat i1)) then loop src' s' i1 cycles1 inc1
             else Some (i1, cycles1, inc1)) = Some r"
      have "unat (ucast ((ucast i + 1) mod sched_size (schedule s)) :: u8) < unat (sched_size (schedule s))"
        using next_slot [OF assms(1,2), of i] assms(2) by (simp add: slot_after_def)
      then show "src' = src \<and> s' = s \<longrightarrow> False"
        using eq ih assms(3) by (auto simp: Let_def split: if_splits)
    qed
    then show False by simp
  qed
  then show ?thesis by (cases "sched_skip_loop src s i cycles inc") auto
qed

lemma slot_update:
  "sched_slot (s\<lparr>timeslot_mismatch := b\<rparr>) = sched_slot s"
  "sched_slot (s\<lparr>timeslot_mismatch := b, current_sleep_lvl := l\<rparr>) = sched_slot s"
  by (simp_all add: sched_slot_def fun_eq_iff)

lemma empty_update:
  "time_slot_is_empty src (s\<lparr>timeslot_mismatch := b, current_sleep_lvl := l\<rparr>) = time_slot_is_empty src s"
  by (rule ext) (simp add: time_slot_is_empty_def split: option.split)

lemma increment_returns:
  assumes wf: "scheduler_wf s" and ne: "j < unat (sched_size (schedule s))"
    "\<not> time_slot_is_empty src s (sched_slot s j)"
  shows "\<exists>k s'. 0 < k \<and> k \<le> unat (sched_size (schedule s)) \<and>
    link_scheduler_increment_time_slot src s = Some (of_nat k, s') \<and>
    unat (current_time_slot_num s') = slot_after s (unat (current_time_slot_num s)) k \<and>
    \<not> empty_after src s (unat (current_time_slot_num s)) k \<and>
    (\<forall>m. 0 < m \<and> m < k \<longrightarrow> empty_after src s (unat (current_time_slot_num s)) m) \<and>
    sleep_cycles s' = sleep_cycles s + (\<Sum>m\<leftarrow>[0..<k]. duration_pll_cycles
       (sched_slot s (slot_after s (unat (current_time_slot_num s)) m))) \<and>
    \<not> timeslot_mismatch s' \<and> schedule s' = schedule s"
proof -
  let ?n = "unat (sched_size (schedule s))" and ?c = "unat (current_time_slot_num s)"
  have n: "0 < ?n" "?n \<le> 256" "?c < ?n" using wf by (simp_all add: scheduler_wf_def)
  define d where "d = (if ?c < j then j - ?c else j + ?n - ?c)"
  have d: "0 < d" "d \<le> ?n" "slot_after s ?c d = j"
    using ne(1) n(3) by (auto simp: d_def slot_after_def)
  then have "\<exists>k. 0 < k \<and> \<not> empty_after src s ?c k" using ne(2) by (auto simp: empty_after_def)
  then obtain k where k: "0 < k" "\<not> empty_after src s ?c k"
    and least: "\<forall>m. 0 < m \<and> m < k \<longrightarrow> empty_after src s ?c m"
    using exists_least_iff [of "\<lambda>k. 0 < k \<and> \<not> empty_after src s ?c k"] by blast
  have kn: "k \<le> ?n" using least d ne(2) by (metis empty_after_def le_trans linorder_not_le)
  obtain k' where k': "k = Suc k'" using k(1) by (cases k) auto
  let ?s = "s\<lparr>timeslot_mismatch := False, current_sleep_lvl := ts_sleep_lvl (sched_slot s ?c)\<rparr>"
  have same: "slot_after ?s = slot_after s" "empty_after src ?s = empty_after src s"
    by (simp_all add: slot_after_def empty_after_def empty_update slot_update fun_eq_iff)
  obtain i' where l: "sched_skip_loop src ?s (current_time_slot_num s) (sleep_cycles s) 0 =
      Some (i', sleep_cycles s + (\<Sum>m\<leftarrow>[0..<k]. duration_pll_cycles (sched_slot s (slot_after s ?c m))), of_nat k)"
    "unat i' = slot_after s ?c k"
    using skip_loop_returns [of ?s "current_time_slot_num s" k' src "sleep_cycles s" 0] n k least k'
    by (auto simp: same slot_update simp del: upt_Suc)
  have nz: "sched_size (schedule s) \<noteq> 0" using n(1) by auto
  have "link_scheduler_increment_time_slot src s = Some (of_nat k, ?s\<lparr>sleep_cycles := sleep_cycles s +
      (\<Sum>m\<leftarrow>[0..<k]. duration_pll_cycles (sched_slot s (slot_after s ?c m))),
      current_time_slot_num := i', next_sleep_lvl := ts_sleep_lvl (sched_slot s (unat i'))\<rparr>)"
    using l(1) nz by (simp add: link_scheduler_increment_time_slot_def Let_def slot_update)
  then show ?thesis using k kn least l(2) by (intro exI [of _ k] exI) auto
qed

lemma increment_diverges:
  assumes "scheduler_wf s" "\<forall>j<unat (sched_size (schedule s)). time_slot_is_empty src s (sched_slot s j)"
  shows "link_scheduler_increment_time_slot src s = None"
proof -
  let ?s = "s\<lparr>timeslot_mismatch := False, current_sleep_lvl :=
      ts_sleep_lvl (sched_slot s (unat (current_time_slot_num s)))\<rparr>"
  have nz: "sched_size (schedule s) \<noteq> 0" using assms(1) by (auto simp: scheduler_wf_def)
  have "sched_skip_loop src ?s i c k = None" for i c k
    by (intro skip_loop_diverges) (use assms in \<open>simp_all add: scheduler_wf_def slot_update empty_update\<close>)
  then show ?thesis using nz by (simp add: link_scheduler_increment_time_slot_def Let_def slot_update)
qed

section \<open>Properties\<close>

text \<open>
  C13. The next time slot: with at least one slot that is not empty, the scheduler moves to the
  first such slot after the current one, cyclically (the current one last), returns how many
  slots it moved, and adds to the sleep time the durations of the current slot and of every slot
  it skipped.
\<close>

theorem link_scheduler_next_slot:
  assumes "scheduler_wf s" "j < unat (sched_size (schedule s))" "\<not> time_slot_is_empty src s (sched_slot s j)"
  shows "\<exists>k s'. 0 < k \<and> k \<le> unat (sched_size (schedule s)) \<and>
    link_scheduler_increment_time_slot src s = Some (of_nat k, s') \<and>
    unat (current_time_slot_num s') = slot_after s (unat (current_time_slot_num s)) k \<and>
    \<not> empty_after src s (unat (current_time_slot_num s)) k \<and>
    (\<forall>m. 0 < m \<and> m < k \<longrightarrow> empty_after src s (unat (current_time_slot_num s)) m) \<and>
    sleep_cycles s' = sleep_cycles s + (\<Sum>m\<leftarrow>[0..<k]. duration_pll_cycles
       (sched_slot s (slot_after s (unat (current_time_slot_num s)) m))) \<and>
    \<not> timeslot_mismatch s' \<and> schedule s' = schedule s"
  by (rule increment_returns [OF assms])

definition slot_example :: "nat option \<Rightarrow> u32 \<Rightarrow> timeslot" where
  "slot_example c d = zero_timeslot\<lparr>duration_pll_cycles := d,
     main_conn_list := zero_conn_list\<lparr>tcl_connection := [c, None, None]\<rparr>\<rparr>"

definition scheduler_example :: scheduler where
  "scheduler_example = \<lparr>schedule = \<lparr>sched_timeslot = [slot_example (Some 1) 100, slot_example None 20, slot_example (Some 2) 5],
     sched_size = 3, lightest_sleep_lvl = SLEEP_IDLE\<rparr>, current_time_slot_num = 0, current_sleep_lvl = SLEEP_IDLE,
     next_sleep_lvl = SLEEP_IDLE, sleep_cycles = 7, sched_local_addr = 9, tx_disabled = False, timeslot_mismatch = True\<rparr>"

lemma scheduler_example_wf: "scheduler_wf scheduler_example"
  by (simp add: scheduler_wf_def scheduler_example_def)

lemma scheduler_example_slots:
  "time_slot_is_empty src scheduler_example (sched_slot scheduler_example 1)"
  "\<not> time_slot_is_empty src scheduler_example (sched_slot scheduler_example 2)"
  "duration_pll_cycles (sched_slot scheduler_example 0) = 100"
  "duration_pll_cycles (sched_slot scheduler_example 1) = 20"
  by (simp_all add: time_slot_is_empty_def sched_slot_def scheduler_example_def slot_example_def)

theorem link_scheduler_next_slot_witness:
  "\<exists>s'. link_scheduler_increment_time_slot (\<lambda>_. 4) scheduler_example = Some (2, s') \<and>
     current_time_slot_num s' = 2 \<and> sleep_cycles s' = 127"
proof -
  let ?s = scheduler_example
  have z: "unat (current_time_slot_num ?s) = 0" "unat (sched_size (schedule ?s)) = 3" "sleep_cycles ?s = 7"
    by (simp_all add: scheduler_example_def)
  have after: "slot_after ?s 0 k = k" if "k < 3" for k using that z by (simp add: slot_after_def)
  obtain k s' where k: "0 < k" "link_scheduler_increment_time_slot (\<lambda>_. 4) ?s = Some (of_nat k, s')"
    "unat (current_time_slot_num s') = slot_after ?s 0 k" "\<not> empty_after (\<lambda>_. 4) ?s 0 k"
    "\<forall>m. 0 < m \<and> m < k \<longrightarrow> empty_after (\<lambda>_. 4) ?s 0 m"
    "sleep_cycles s' = sleep_cycles ?s + (\<Sum>m\<leftarrow>[0..<k]. duration_pll_cycles (sched_slot ?s (slot_after ?s 0 m)))"
    using link_scheduler_next_slot [OF scheduler_example_wf _ scheduler_example_slots(2), of "\<lambda>_. 4"] z by auto
  have "empty_after (\<lambda>_. 4) ?s 0 1" "\<not> empty_after (\<lambda>_. 4) ?s 0 2"
    by (simp_all add: empty_after_def after scheduler_example_slots [unfolded One_nat_def])
  then have "k \<noteq> 1" "\<not> 2 < k" using k(4,5) by auto
  with k(1) have "k = 2" by linarith
  with k z show ?thesis
    by (auto simp: after scheduler_example_slots [unfolded One_nat_def] upt_rec word_unat_eq_iff)
qed

text \<open>
  C27. Termination: the function returns exactly when some slot of the schedule is not empty. On
  a schedule whose only connections transmit from this device it never returns once transmission
  is disabled.
\<close>

theorem link_scheduler_increment_terminates_iff:
  assumes "scheduler_wf s"
  shows "(\<exists>r. link_scheduler_increment_time_slot src s = Some r) \<longleftrightarrow>
    list_ex (\<lambda>ts. \<not> time_slot_is_empty src s ts) (sched_timeslot (schedule s))"
proof -
  have len: "length (sched_timeslot (schedule s)) = unat (sched_size (schedule s))"
    using assms by (simp add: scheduler_wf_def)
  show ?thesis
  proof (cases "\<exists>j<unat (sched_size (schedule s)). \<not> time_slot_is_empty src s (sched_slot s j)")
    case True
    then obtain j where j: "j < unat (sched_size (schedule s))" "\<not> time_slot_is_empty src s (sched_slot s j)"
      by blast
    have "list_ex (\<lambda>ts. \<not> time_slot_is_empty src s ts) (sched_timeslot (schedule s))"
      using j len by (auto simp: list_ex_length sched_slot_def)
    then show ?thesis using increment_returns [OF assms j] by blast
  next
    case False
    then have "link_scheduler_increment_time_slot src s = None" using increment_diverges [OF assms] by blast
    moreover have "\<not> list_ex (\<lambda>ts. \<not> time_slot_is_empty src s ts) (sched_timeslot (schedule s))"
      using False len by (auto simp: list_ex_length sched_slot_def)
    ultimately show ?thesis by simp
  qed
qed

theorem link_scheduler_increment_terminates_iff_witness:
  "(\<exists>r. link_scheduler_increment_time_slot (\<lambda>_. 9) scheduler_example = Some r) \<and>
   link_scheduler_increment_time_slot (\<lambda>_. 9) (link_scheduler_disable_tx scheduler_example) = None"
proof -
  have "scheduler_wf (link_scheduler_disable_tx scheduler_example)"
    using scheduler_example_wf by (simp add: scheduler_wf_def link_scheduler_disable_tx_def)
  from link_scheduler_increment_terminates_iff [OF this, of "\<lambda>_. 9"]
  have "\<not> (\<exists>r. link_scheduler_increment_time_slot (\<lambda>_. 9) (link_scheduler_disable_tx scheduler_example) = Some r)"
    by (simp add: scheduler_example_def link_scheduler_disable_tx_def time_slot_is_empty_def slot_example_def)
  moreover have "list_ex (\<lambda>ts. \<not> time_slot_is_empty (\<lambda>_. 9) scheduler_example ts)
      (sched_timeslot (schedule scheduler_example))"
    by (simp add: scheduler_example_def time_slot_is_empty_def slot_example_def)
  ultimately show ?thesis
    using link_scheduler_increment_terminates_iff [OF scheduler_example_wf, of "\<lambda>_. 9"] by (metis not_Some_eq)
qed

end
