(* ===== verification/Link_Quality.thy ===== *)
theory Link_Quality
  imports Mac_Header
begin

text \<open>
  Signal quality: the gain arithmetic of \<open>sr1100/link_utils.h\<close>, the gain table of
  \<open>sr1100/link_gain_loop.c\<close>, the statistics of \<open>link_lqi.c\<close> and the radio selection of
  \<open>link_multi_radio.c\<close>, for the SR1100 build with per-band statistics
  (\<open>WPS_ENABLE_PHY_STATS_PER_BANDS\<close>). C's division truncates towards zero; where an operand can
  be negative it is written \<open>c_div\<close>.
\<close>

section \<open>Gain arithmetic\<close>

definition c_div :: "int \<Rightarrow> int \<Rightarrow> int" where
  "c_div a b = sgn a * sgn b * (\<bar>a\<bar> div \<bar>b\<bar>)"

definition WEAKEST_SIGNAL_CODE :: int where "WEAKEST_SIGNAL_CODE = 115"
definition GAIN_ENTRY_RANGE_TENTH_DB :: int where "GAIN_ENTRY_RANGE_TENTH_DB = 575"
definition CIR_LIMIT :: nat where "CIR_LIMIT = 33"
definition MAX_CIR_SPREAD :: nat where "MAX_CIR_SPREAD = 300"

definition calculate_normalized_gain :: "u16 \<Rightarrow> u8 \<Rightarrow> u16" where
  "calculate_normalized_gain min_db rssi =
     word_of_int (int (unat min_db) +
       c_div (GAIN_ENTRY_RANGE_TENTH_DB * (WEAKEST_SIGNAL_CODE - int (unat rssi))) WEAKEST_SIGNAL_CODE)"

text \<open>The three loops of \<open>calculate_cir\<close>: extrema, normalisation, spread.\<close>

fun cir_extrema :: "u8 list \<Rightarrow> nat \<Rightarrow> u8 \<times> nat \<times> u8 \<Rightarrow> u8 \<times> nat \<times> u8" where
  "cir_extrema [] i r = r"
| "cir_extrema (x # xs) i (max_val, max_index, min_val) =
     (let (mx, mi) = (if x > max_val then (x, i) else (max_val, max_index));
          mn = (if x < min_val then x else min_val)
      in cir_extrema xs (i + 1) (mx, mi, mn))"

definition cir_ratio_at :: "u8 list \<Rightarrow> nat \<Rightarrow> nat \<Rightarrow> nat \<Rightarrow> nat" where
  "cir_ratio_at d max_index phase_number i =
     (let r1 = unat (d ! ((max_index + i) mod phase_number)) * 100 div unat (d ! max_index);
          r2 = unat (d ! ((max_index + (phase_number - i)) mod phase_number)) * 100 div unat (d ! max_index)
      in max r1 r2)"

text \<open>
  The result with the normalised data the function leaves in the caller's array. \<open>None\<close>: the
  modulus by a \<open>phase_number\<close> of zero, undefined in C.
\<close>

definition calculate_cir :: "u8 list \<Rightarrow> u8 \<Rightarrow> (u16 \<times> u8 list) option" where
  "calculate_cir phase_offset_data phase_number =
     (let n = unat phase_number;
          (max_val, max_index, min_val) = cir_extrema (take n phase_offset_data) 0 (0, 0, 255);
          d = map (\<lambda>x. x - min_val) (take n phase_offset_data) @ drop n phase_offset_data
      in if d ! max_index = 0 then Some (0, d)
         else if n = 0 then None
         else let cir_spread = fold (\<lambda>i s. if cir_ratio_at d max_index n i > CIR_LIMIT then i else s) [0..<n div 2 + 1] 0
              in Some (of_nat (min (cir_spread * 100 div 4) MAX_CIR_SPREAD), d))"

section \<open>Gain loop\<close>

record gain_entry =
  gain_value :: u8
  min_tenth_db :: u16
  max_tenth_db :: u16
  relative_noise_floor_db :: u16

record gain_loop =
  gain_index :: u8
  fixed_gain_enable :: bool
  gl_rx_gain :: u8

definition gain_code :: "nat \<Rightarrow> nat \<Rightarrow> nat \<Rightarrow> u8" where
  "gain_code buf mix oa = push_bit 5 (of_nat buf) OR push_bit 3 (of_nat mix) OR push_bit 0 (of_nat oa)"

definition gain_entry_of :: "u8 \<Rightarrow> u16 \<Rightarrow> u16 \<Rightarrow> u16 \<Rightarrow> gain_entry" where
  "gain_entry_of g lo hi nf = \<lparr>gain_value = g, min_tenth_db = lo, max_tenth_db = hi, relative_noise_floor_db = nf\<rparr>"

definition gain_lookup_table :: "gain_entry list" where
  "gain_lookup_table =
     [gain_entry_of (gain_code 0 0 3) 0 235 0, gain_entry_of (gain_code 0 3 3) 46 281 15,
      gain_entry_of (gain_code 0 0 6) 87 322 26, gain_entry_of (gain_code 0 1 6) 104 339 38,
      gain_entry_of (gain_code 0 2 6) 119 354 49, gain_entry_of (gain_code 0 3 6) 134 369 62,
      gain_entry_of (gain_code 1 3 6) 166 401 91, gain_entry_of (gain_code 2 3 6) 199 434 122,
      gain_entry_of (gain_code 3 3 6) 226 461 148, gain_entry_of (gain_code 3 3 7) 310 545 230]"

definition link_gain_loop_init :: "bool \<Rightarrow> u8 \<Rightarrow> gain_loop" where
  "link_gain_loop_init fixed rx = \<lparr>gain_index = 0, fixed_gain_enable = fixed, gl_rx_gain = rx\<rparr>"

definition link_gain_loop_update :: "gain_loop \<Rightarrow> frame_outcome \<Rightarrow> u8 \<Rightarrow> gain_loop" where
  "link_gain_loop_update g out rssi = g\<lparr>gain_index := 0\<rparr>"

definition link_gain_loop_get_gain_value :: "gain_loop \<Rightarrow> u8" where
  "link_gain_loop_get_gain_value g =
     (if fixed_gain_enable g then gl_rx_gain g else gain_value (gain_lookup_table ! unat (gain_index g)))"

definition link_gain_loop_get_min_tenth_db :: "u8 \<Rightarrow> u16" where
  "link_gain_loop_get_min_tenth_db i = min_tenth_db (gain_lookup_table ! unat i)"

definition link_gain_loop_get_rnsi_tenth_db :: "u8 \<Rightarrow> u16" where
  "link_gain_loop_get_rnsi_tenth_db i = relative_noise_floor_db (gain_lookup_table ! unat i)"

definition link_gain_loop_get_gain_index :: "gain_loop \<Rightarrow> u8" where
  "link_gain_loop_get_gain_index g = gain_index g"

definition link_gain_loop_reset_gain_index :: "gain_loop \<Rightarrow> gain_loop" where
  "link_gain_loop_reset_gain_index g = g\<lparr>gain_index := 0\<rparr>"

section \<open>Link quality indicator\<close>

datatype lqi_mode = LQI_MODE_0 | LQI_MODE_1

record lqi =
  lqi_mode :: lqi_mode
  sent_count :: u32
  ack_count :: u32
  nack_count :: u32
  lqi_received_count :: u32
  received_data_size_invalid_count :: u32
  received_header_size_invalid_count :: u32
  rejected_count :: u32
  lost_count :: u32
  total_count :: u32
  rssi_inst_raw :: u8
  rnsi_inst_raw :: u8
  rssi_sum_raw :: u64
  rnsi_sum_raw :: u64
  rssi_inst_tenth_db :: u16
  rnsi_inst_tenth_db :: u16
  rssi_sum_tenth_db :: u64
  rnsi_sum_tenth_db :: u64
  rssi_block_sum_tenth_db :: u32
  rnsi_block_sum_tenth_db :: u32
  rssi_block_count :: u8
  rnsi_block_count :: u8
  rssi_block_avg_tenth_db :: u16
  rnsi_block_avg_tenth_db :: u16
  inst_phase_offset :: "u8 list"
  phase_number :: u8
  cir_sum :: u32

definition RSSI_RNSI_BLOCK_AVG_MAX_COUNT :: u8 where "RSSI_RNSI_BLOCK_AVG_MAX_COUNT = 100"
definition PHASE_OFFSET_BYTE_COUNT :: nat where "PHASE_OFFSET_BYTE_COUNT = 16"

definition link_lqi_init :: "lqi_mode \<Rightarrow> lqi" where
  "link_lqi_init mode =
     \<lparr>lqi_mode = mode, sent_count = 0, ack_count = 0, nack_count = 0, lqi_received_count = 0,
      received_data_size_invalid_count = 0, received_header_size_invalid_count = 0, rejected_count = 0,
      lost_count = 0, total_count = 0, rssi_inst_raw = 0, rnsi_inst_raw = 0, rssi_sum_raw = 0,
      rnsi_sum_raw = 0, rssi_inst_tenth_db = 0, rnsi_inst_tenth_db = 0, rssi_sum_tenth_db = 0,
      rnsi_sum_tenth_db = 0, rssi_block_sum_tenth_db = 0, rnsi_block_sum_tenth_db = 0,
      rssi_block_count = 0, rnsi_block_count = 0, rssi_block_avg_tenth_db = 0,
      rnsi_block_avg_tenth_db = 0, inst_phase_offset = replicate PHASE_OFFSET_BYTE_COUNT 0,
      phase_number = 0, cir_sum = 0\<rparr>"

definition link_lqi_reset :: "lqi \<Rightarrow> lqi" where
  "link_lqi_reset l = link_lqi_init (lqi_mode l)"

definition lqi_divisor :: "lqi \<Rightarrow> u32" where
  "lqi_divisor l = (if lqi_mode l = LQI_MODE_1 then lqi_received_count l else total_count l)"

definition lqi_average :: "lqi \<Rightarrow> u64 \<Rightarrow> u16" where
  "lqi_average l s = (if lqi_divisor l = 0 then 0 else ucast (s div ucast (lqi_divisor l)))"

definition link_lqi_get_avg_rssi_tenth_db :: "lqi \<Rightarrow> u16" where
  "link_lqi_get_avg_rssi_tenth_db l = lqi_average l (rssi_sum_tenth_db l)"

definition link_lqi_get_avg_rnsi_tenth_db :: "lqi \<Rightarrow> u16" where
  "link_lqi_get_avg_rnsi_tenth_db l = lqi_average l (rnsi_sum_tenth_db l)"

definition link_lqi_get_avg_rssi_raw :: "lqi \<Rightarrow> u16" where
  "link_lqi_get_avg_rssi_raw l = lqi_average l (rssi_sum_raw l)"

definition link_lqi_get_avg_rnsi_raw :: "lqi \<Rightarrow> u16" where
  "link_lqi_get_avg_rnsi_raw l = lqi_average l (rnsi_sum_raw l)"

definition link_lqi_calculate_rssi_block_avg_tenth_db :: "lqi \<Rightarrow> lqi" where
  "link_lqi_calculate_rssi_block_avg_tenth_db l =
     (if rssi_block_count l \<ge> RSSI_RNSI_BLOCK_AVG_MAX_COUNT
      then l\<lparr>rssi_block_avg_tenth_db := ucast (rssi_block_sum_tenth_db l div ucast (rssi_block_count l)),
             rssi_block_count := 0, rssi_block_sum_tenth_db := 0\<rparr>
      else l)"

definition link_lqi_calculate_rnsi_block_avg_tenth_db :: "lqi \<Rightarrow> lqi" where
  "link_lqi_calculate_rnsi_block_avg_tenth_db l =
     (if rnsi_block_count l \<ge> RSSI_RNSI_BLOCK_AVG_MAX_COUNT
      then l\<lparr>rnsi_block_avg_tenth_db := ucast (rnsi_block_sum_tenth_db l div ucast (rnsi_block_count l)),
             rnsi_block_count := 0, rnsi_block_sum_tenth_db := 0\<rparr>
      else l)"

text \<open>
  The measurement block shared by the outcomes that come with a measured RSSI and RNSI: the
  instantaneous values, the sums, the block averages and the raw sums, in the code's order.
\<close>

definition lqi_add_rnsi :: "u16 \<Rightarrow> lqi \<Rightarrow> lqi" where
  "lqi_add_rnsi v l =
     link_lqi_calculate_rnsi_block_avg_tenth_db
       (l\<lparr>rnsi_inst_tenth_db := v, rnsi_sum_tenth_db := rnsi_sum_tenth_db l + ucast v,
          rnsi_block_sum_tenth_db := rnsi_block_sum_tenth_db l + ucast v,
          rnsi_block_count := rnsi_block_count l + 1\<rparr>)"

definition lqi_add_rssi :: "u16 \<Rightarrow> lqi \<Rightarrow> lqi" where
  "lqi_add_rssi v l =
     link_lqi_calculate_rssi_block_avg_tenth_db
       (l\<lparr>rssi_inst_tenth_db := v, rssi_sum_tenth_db := rssi_sum_tenth_db l + ucast v,
          rssi_block_sum_tenth_db := rssi_block_sum_tenth_db l + ucast v,
          rssi_block_count := rssi_block_count l + 1\<rparr>)"

definition lqi_measured :: "u8 \<Rightarrow> u8 \<Rightarrow> u8 \<Rightarrow> lqi \<Rightarrow> lqi" where
  "lqi_measured gi rssi rnsi l =
     (let l1 = l\<lparr>rnsi_inst_raw := rnsi, rssi_inst_raw := rssi\<rparr>;
          g = calculate_normalized_gain (link_gain_loop_get_min_tenth_db gi) rnsi;
          l2 = lqi_add_rnsi (if lqi_mode l1 = LQI_MODE_1 then g - link_gain_loop_get_rnsi_tenth_db gi else g) l1;
          l3 = lqi_add_rssi (calculate_normalized_gain (link_gain_loop_get_min_tenth_db gi) rssi) l2
      in l3\<lparr>rssi_sum_raw := rssi_sum_raw l3 + ucast rssi, rnsi_sum_raw := rnsi_sum_raw l3 + ucast rnsi\<rparr>)"

definition lqi_not_measured :: "u8 \<Rightarrow> lqi \<Rightarrow> lqi" where
  "lqi_not_measured gi l =
     (if lqi_mode l = LQI_MODE_0
      then lqi_add_rssi (link_gain_loop_get_min_tenth_db gi)
             (lqi_add_rnsi (link_gain_loop_get_rnsi_tenth_db gi) l)
      else l)"

definition lqi_phase :: "u8 list \<Rightarrow> u8 \<Rightarrow> lqi \<Rightarrow> (lqi \<times> u8 list) option" where
  "lqi_phase phase_offset n l =
     map_option (\<lambda>(cir, d). (l\<lparr>inst_phase_offset := take PHASE_OFFSET_BYTE_COUNT phase_offset, phase_number := n,
         cir_sum := cir_sum l + ucast cir\<rparr>, d))
       (calculate_cir phase_offset n)"

text \<open>
  \<open>link_lqi_update\<close>: the new statistics and the caller's phase array, which \<open>calculate_cir\<close>
  normalises in place; \<open>None\<close> when \<open>calculate_cir\<close> is undefined. For a frame lost or not
  acknowledged the code interleaves the RNSI and RSSI updates; they touch different fields.
\<close>

definition link_lqi_update ::
  "lqi \<Rightarrow> u8 \<Rightarrow> frame_outcome \<Rightarrow> u8 \<Rightarrow> u8 \<Rightarrow> u8 list \<Rightarrow> u8 \<Rightarrow> (lqi \<times> u8 list) option" where
  "link_lqi_update l gi out rssi rnsi phase_offset phase_offset_count =
     (let l1 = l\<lparr>total_count := total_count l + 1\<rparr>;
          keep = (\<lambda>l. Some (l, phase_offset)) in
      if total_count l1 = 0 then keep (link_lqi_reset l1)
      else case out of
        FRAME_RECEIVED \<Rightarrow>
          lqi_phase phase_offset phase_offset_count
            (lqi_measured gi rssi rnsi (l1\<lparr>lqi_received_count := lqi_received_count l1 + 1\<rparr>))
      | FRAME_RECEIVED_DATA_SIZE_INVALID \<Rightarrow>
          keep (l1\<lparr>received_data_size_invalid_count := received_data_size_invalid_count l1 + 1\<rparr>)
      | FRAME_RECEIVED_HEADER_SIZE_INVALID \<Rightarrow>
          keep (l1\<lparr>received_header_size_invalid_count := received_header_size_invalid_count l1 + 1\<rparr>)
      | FRAME_REJECTED \<Rightarrow>
          keep (lqi_measured gi rssi rnsi (l1\<lparr>rejected_count := rejected_count l1 + 1\<rparr>))
      | FRAME_LOST \<Rightarrow>
          keep (lqi_not_measured gi (l1\<lparr>lost_count := lost_count l1 + 1\<rparr>))
      | FRAME_SENT_ACK \<Rightarrow>
          map_option (\<lambda>(l2, d). (lqi_measured gi rssi rnsi l2, d))
            (lqi_phase phase_offset phase_offset_count
              (l1\<lparr>sent_count := sent_count l1 + 1, ack_count := ack_count l1 + 1,
                  lqi_received_count := lqi_received_count l1 + 1\<rparr>))
      | FRAME_SENT_ACK_LOST \<Rightarrow>
          keep (lqi_not_measured gi (l1\<lparr>sent_count := sent_count l1 + 1, nack_count := nack_count l1 + 1\<rparr>))
      | FRAME_SENT_ACK_REJECTED \<Rightarrow>
          keep (lqi_measured gi rssi rnsi (l1\<lparr>sent_count := sent_count l1 + 1, nack_count := nack_count l1 + 1\<rparr>))
      | FRAME_WAIT \<Rightarrow> keep (l1\<lparr>sent_count := sent_count l1 + 1\<rparr>))"

text \<open>The getters.\<close>

definition link_lqi_get_sent_count :: "lqi \<Rightarrow> u32" where
  "link_lqi_get_sent_count l = sent_count l"

definition link_lqi_get_ack_count :: "lqi \<Rightarrow> u32" where
  "link_lqi_get_ack_count l = ack_count l"

definition link_lqi_get_nack_count :: "lqi \<Rightarrow> u32" where
  "link_lqi_get_nack_count l = nack_count l"

definition link_lqi_get_received_count :: "lqi \<Rightarrow> u32" where
  "link_lqi_get_received_count l = lqi_received_count l"

definition link_lqi_get_received_data_size_invalid_count :: "lqi \<Rightarrow> u32" where
  "link_lqi_get_received_data_size_invalid_count l = received_data_size_invalid_count l"

definition link_lqi_get_received_header_size_invalid_count :: "lqi \<Rightarrow> u32" where
  "link_lqi_get_received_header_size_invalid_count l = received_header_size_invalid_count l"

definition link_lqi_get_rejected_count :: "lqi \<Rightarrow> u32" where
  "link_lqi_get_rejected_count l = rejected_count l"

definition link_lqi_get_lost_count :: "lqi \<Rightarrow> u32" where
  "link_lqi_get_lost_count l = lost_count l"

definition link_lqi_get_total_count :: "lqi \<Rightarrow> u32" where
  "link_lqi_get_total_count l = total_count l"

definition link_lqi_get_inst_rnsi :: "lqi \<Rightarrow> u16" where
  "link_lqi_get_inst_rnsi l = ucast (rnsi_inst_raw l)"

definition link_lqi_get_inst_rnsi_tenth_db :: "lqi \<Rightarrow> u16" where
  "link_lqi_get_inst_rnsi_tenth_db l = rnsi_inst_tenth_db l"

definition link_lqi_get_inst_rssi :: "lqi \<Rightarrow> u16" where
  "link_lqi_get_inst_rssi l = ucast (rssi_inst_raw l)"

definition link_lqi_get_inst_rssi_tenth_db :: "lqi \<Rightarrow> u16" where
  "link_lqi_get_inst_rssi_tenth_db l = rssi_inst_tenth_db l"

definition link_lqi_get_rssi_block_avg_tenth_db :: "lqi \<Rightarrow> u16" where
  "link_lqi_get_rssi_block_avg_tenth_db l = rssi_block_avg_tenth_db l"

definition link_lqi_get_rnsi_block_avg_tenth_db :: "lqi \<Rightarrow> u16" where
  "link_lqi_get_rnsi_block_avg_tenth_db l = rnsi_block_avg_tenth_db l"

definition link_lqi_get_inst_phase_offset :: "lqi \<Rightarrow> u8 \<Rightarrow> u8" where
  "link_lqi_get_inst_phase_offset l index = inst_phase_offset l ! unat index"

section \<open>Radio selection\<close>

datatype multi_radio_mode = MULTI_RADIO_MODE_0 | MULTI_RADIO_MODE_1

datatype multi_radio_select_mode =
  MULTI_RADIO_SELECT_MODE_ALGO | MULTI_RADIO_SELECT_MODE_RADIO1 | MULTI_RADIO_SELECT_MODE_RADIO2

record multi_radio =
  radios_lqi :: "lqi list"
  radio_count :: u8
  avg_sample_count :: u16
  hysteresis_tenth_db :: u16
  leading_radio :: u8
  mr_select_mode :: multi_radio_select_mode
  mr_mode :: multi_radio_mode
  rssi_threshold :: u8

text \<open>The second loop of mode 0, over the radios from index \<open>i\<close>.\<close>

fun mr_best_radio :: "u8 \<Rightarrow> lqi list \<Rightarrow> u8 \<Rightarrow> u16 \<times> u8 \<times> u16 \<Rightarrow> u16 \<times> u8 \<times> u16" where
  "mr_best_radio leading [] i r = r"
| "mr_best_radio leading (l # ls) i (max_rssi_avg, best_radio, leading_avg) =
     (let t = link_lqi_get_avg_rssi_tenth_db l;
          la = (if i = leading then t else leading_avg);
          (mx, br) = (if t > max_rssi_avg then (t, i) else (max_rssi_avg, best_radio))
      in mr_best_radio leading ls (i + 1) (mx, br, la))"

definition multi_radio_update_mode_0 :: "multi_radio \<Rightarrow> multi_radio" where
  "multi_radio_update_mode_0 m =
     (let n = unat (radio_count m); ls = take n (radios_lqi m) in
      if list_ex (\<lambda>l. total_count l < ucast (avg_sample_count m)) ls then m
      else (let (mx, br, la) = mr_best_radio (leading_radio m) ls 0 (0, leading_radio m, 0);
                m1 = m\<lparr>radios_lqi := map link_lqi_reset ls @ drop n (radios_lqi m)\<rparr>
            in if unat mx > unat la + unat (hysteresis_tenth_db m) then m1\<lparr>leading_radio := br\<rparr> else m1))"

definition multi_radio_update_mode_1 :: "multi_radio \<Rightarrow> multi_radio" where
  "multi_radio_update_mode_1 m =
     (let l = radios_lqi m ! unat (leading_radio m); n = unat (radio_count m) in
      if total_count l < ucast (avg_sample_count m) then m
      else (let rssi_avg = link_lqi_get_avg_rssi_tenth_db l;
                m1 = m\<lparr>radios_lqi := map link_lqi_reset (take n (radios_lqi m)) @ drop n (radios_lqi m)\<rparr>
            in if rssi_avg < ucast (rssi_threshold m)
               then m1\<lparr>leading_radio := of_nat ((unat (leading_radio m) + 1) mod unat (radio_count m))\<rparr>
               else m1))"

definition link_multi_radio_update :: "multi_radio \<Rightarrow> multi_radio" where
  "link_multi_radio_update m =
     (case mr_mode m of
        MULTI_RADIO_MODE_0 \<Rightarrow> multi_radio_update_mode_0 m
      | MULTI_RADIO_MODE_1 \<Rightarrow> multi_radio_update_mode_1 m)"

definition link_multi_radio_get_leading_radio :: "multi_radio \<Rightarrow> u8" where
  "link_multi_radio_get_leading_radio m =
     (case mr_select_mode m of
        MULTI_RADIO_SELECT_MODE_ALGO \<Rightarrow> leading_radio m
      | MULTI_RADIO_SELECT_MODE_RADIO1 \<Rightarrow> 0
      | MULTI_RADIO_SELECT_MODE_RADIO2 \<Rightarrow> 1)"

section \<open>Gain and channel response lemmas\<close>

text \<open>The gain range is five tenths of a dB per code, so the division is exact.\<close>

lemma normalized_gain_exact:
  assumes "unat rssi \<le> 115" "unat m < 2 ^ 16 - 575"
  shows "unat (calculate_normalized_gain m rssi) = unat m + 5 * (115 - unat rssi)"
proof -
  obtain d where d: "115 = unat rssi + d" using assms(1) le_Suc_ex by blast
  have i: "115 - int (unat rssi) = int d" using d by linarith
  have "c_div (575 * int d) 115 = 5 * int d" by (simp add: c_div_def sgn_if)
  then have "calculate_normalized_gain m rssi = word_of_int (int (unat m) + 5 * int d)"
    unfolding calculate_normalized_gain_def GAIN_ENTRY_RANGE_TENTH_DB_def WEAKEST_SIGNAL_CODE_def i by simp
  also have "\<dots> = of_nat (unat m + 5 * d)" by simp
  finally have "calculate_normalized_gain m rssi = of_nat (unat m + 5 * d)" .
  moreover have "unat (of_nat (unat m + 5 * d) :: u16) = unat m + 5 * d"
    by (rule unat_of_nat_lt) (use assms(2) d in simp)
  moreover have "115 - unat rssi = d" using d by simp
  ultimately show ?thesis by simp
qed

lemma calculate_cir_bound:
  "calculate_cir data n = Some (cir, d) \<Longrightarrow> unat cir \<le> 300"
proof -
  have "unat (of_nat (min k MAX_CIR_SPREAD) :: u16) \<le> 300" for k
    by (subst unat_of_nat_lt) (simp_all add: MAX_CIR_SPREAD_def min_def)
  then show "calculate_cir data n = Some (cir, d) \<Longrightarrow> unat cir \<le> 300"
    by (auto simp: calculate_cir_def Let_def split: prod.splits if_splits)
qed

section \<open>Counter lemmas\<close>

lemmas lqi_steps = lqi_measured_def lqi_not_measured_def lqi_add_rssi_def lqi_add_rnsi_def
  link_lqi_calculate_rssi_block_avg_tenth_db_def link_lqi_calculate_rnsi_block_avg_tenth_db_def Let_def

text \<open>The tuple of outcome counters no measurement changes.\<close>

definition lqi_counts :: "lqi \<Rightarrow> u32 list" where
  "lqi_counts l = [total_count l, ack_count l, lqi_received_count l, received_data_size_invalid_count l,
     received_header_size_invalid_count l, rejected_count l, lost_count l, sent_count l, nack_count l]"

lemma counts_measured [abs_simps]:
  "lqi_counts (lqi_measured gi r s l) = lqi_counts l" "lqi_counts (lqi_not_measured gi l) = lqi_counts l"
  by (simp_all add: lqi_counts_def lqi_steps)

lemma measured_fields [simp]:
  "lqi_mode (lqi_measured gi r s l) = lqi_mode l" "lqi_mode (lqi_not_measured gi l) = lqi_mode l"
  "total_count (lqi_measured gi r s l) = total_count l" "total_count (lqi_not_measured gi l) = total_count l"
  "lqi_received_count (lqi_measured gi r s l) = lqi_received_count l"
  "rssi_sum_tenth_db (lqi_measured gi r s l) = rssi_sum_tenth_db l
     + ucast (calculate_normalized_gain (link_gain_loop_get_min_tenth_db gi) r)"
  by (simp_all add: lqi_steps)

text \<open>Every update adds one to the total and to the counters of its outcome.\<close>

definition lqi_balanced :: "lqi \<Rightarrow> bool" where
  "lqi_balanced l \<longleftrightarrow> total_count l + ack_count l = lqi_received_count l + received_data_size_invalid_count l
     + received_header_size_invalid_count l + rejected_count l + lost_count l + sent_count l"

lemma balanced_counts: "lqi_counts l = lqi_counts l' \<Longrightarrow> lqi_balanced l = lqi_balanced l'"
  by (simp add: lqi_counts_def lqi_balanced_def)

lemma balanced_measured [wf_intros]:
  "lqi_balanced (lqi_measured gi r s l) = lqi_balanced l" "lqi_balanced (lqi_not_measured gi l) = lqi_balanced l"
  by (rule balanced_counts, simp add: abs_simps)+

lemma balanced_phase:
  "lqi_phase ph n l = Some (l', d) \<Longrightarrow> lqi_balanced l' = lqi_balanced l"
  by (auto simp: lqi_phase_def lqi_balanced_def)

lemma balanced_outcome:
  assumes "lqi_balanced l"
  defines "m \<equiv> l\<lparr>total_count := total_count l + 1\<rparr>"
  shows "lqi_balanced (m\<lparr>lqi_received_count := lqi_received_count l + 1\<rparr>)"
    "lqi_balanced (m\<lparr>received_data_size_invalid_count := received_data_size_invalid_count l + 1\<rparr>)"
    "lqi_balanced (m\<lparr>received_header_size_invalid_count := received_header_size_invalid_count l + 1\<rparr>)"
    "lqi_balanced (m\<lparr>rejected_count := rejected_count l + 1\<rparr>)"
    "lqi_balanced (m\<lparr>lost_count := lost_count l + 1\<rparr>)"
    "lqi_balanced (m\<lparr>sent_count := sent_count l + 1\<rparr>)"
    "lqi_balanced (m\<lparr>sent_count := sent_count l + 1, nack_count := nack_count l + 1\<rparr>)"
    "lqi_balanced (m\<lparr>sent_count := sent_count l + 1, ack_count := ack_count l + 1,
       lqi_received_count := lqi_received_count l + 1\<rparr>)"
  using assms(1) by (simp_all add: lqi_balanced_def m_def algebra_simps)

lemma balanced_update:
  assumes "link_lqi_update l gi out rssi rnsi ph n = Some (l', d)" "lqi_balanced l"
  shows "lqi_balanced l'"
proof (cases "total_count l + 1 = 0")
  case True
  then show ?thesis using assms
    by (auto simp: link_lqi_update_def Let_def link_lqi_reset_def link_lqi_init_def lqi_balanced_def)
next
  case False
  then show ?thesis using assms(1) balanced_outcome [OF assms(2)]
    by (cases out) (auto simp: link_lqi_update_def Let_def balanced_measured dest!: balanced_phase)
qed

text \<open>A run of updates with their radio measurements.\<close>

fun lqi_run :: "lqi \<Rightarrow> (u8 \<times> frame_outcome \<times> u8 \<times> u8 \<times> u8 list \<times> u8) list \<Rightarrow> lqi option" where
  "lqi_run l [] = Some l"
| "lqi_run l ((gi, out, rssi, rnsi, ph, n) # es) =
     (case link_lqi_update l gi out rssi rnsi ph n of None \<Rightarrow> None | Some (l1, d) \<Rightarrow> lqi_run l1 es)"

lemma balanced_run:
  "lqi_run l es = Some l' \<Longrightarrow> lqi_balanced l \<Longrightarrow> lqi_balanced l'"
proof (induction l es rule: lqi_run.induct)
  case (2 l gi out rssi rnsi ph n es)
  then obtain l1 d where u: "link_lqi_update l gi out rssi rnsi ph n = Some (l1, d)" and r: "lqi_run l1 es = Some l'"
    by (auto split: option.splits)
  from "2.IH" [OF u refl r balanced_update [OF u "2.prems"(2)]] show ?case .
qed simp

section \<open>Radio selection lemmas\<close>

lemma best_radio:
  assumes "mr_best_radio leading ls i (mx, br, la) = (mx', br', la')" "unat i + length ls \<le> 256"
  shows "mx \<le> mx' \<and> (\<forall>k<length ls. link_lqi_get_avg_rssi_tenth_db (ls ! k) \<le> mx') \<and>
    (mx' = mx \<and> br' = br \<or>
     (\<exists>k<length ls. br' = i + of_nat k \<and> mx' = link_lqi_get_avg_rssi_tenth_db (ls ! k) \<and> mx < mx')) \<and>
    (unat i \<le> unat leading \<and> unat leading < unat i + length ls \<longrightarrow>
      la' = link_lqi_get_avg_rssi_tenth_db (ls ! (unat leading - unat i))) \<and>
    (unat leading < unat i \<longrightarrow> la' = la)"
  using assms
proof (induction ls arbitrary: i mx br la)
  case (Cons l ls)
  let ?t = "link_lqi_get_avg_rssi_tenth_db l"
  show ?case
  proof (cases "ls = []")
    case True
    have "unat i \<le> unat leading \<and> unat leading < unat i + 1 \<Longrightarrow> i = leading"
      by (simp add: word_unat_eq_iff)
    then show ?thesis using Cons.prems True
      by (cases "?t > mx"; cases "i = leading") (auto simp: Let_def)
  next
    case False
    then obtain u us where "ls = u # us" by (cases ls) auto
    then have "unat i + 1 < 256" using Cons.prems(2) by simp
    then have s: "unat (i + 1) = Suc (unat i)" by (subst unat_plus_lt) simp_all
    let ?mx = "if ?t > mx then ?t else mx" and ?br = "if ?t > mx then i else br"
    and ?la = "if i = leading then ?t else la"
    have r: "mr_best_radio leading ls (i + 1) (?mx, ?br, ?la) = (mx', br', la')"
      using Cons.prems(1) by (auto simp: Let_def split: if_splits)
    note ih = Cons.IH [OF r, unfolded s]
    have b: "Suc (unat i) + length ls \<le> 256" using Cons.prems(2) by simp
    have m: "?mx \<le> mx'" and f: "\<forall>k<length ls. link_lqi_get_avg_rssi_tenth_db (ls ! k) \<le> mx'"
      and w: "mx' = ?mx \<and> br' = ?br \<or> (\<exists>k<length ls. br' = i + 1 + of_nat k \<and>
          mx' = link_lqi_get_avg_rssi_tenth_db (ls ! k) \<and> ?mx < mx')"
      and e1: "Suc (unat i) \<le> unat leading \<and> unat leading < Suc (unat i) + length ls \<longrightarrow>
          la' = link_lqi_get_avg_rssi_tenth_db (ls ! (unat leading - Suc (unat i)))"
      and e2: "unat leading < Suc (unat i) \<longrightarrow> la' = ?la"
      using ih [OF b] by blast+
    have "\<forall>k<length (l # ls). link_lqi_get_avg_rssi_tenth_db ((l # ls) ! k) \<le> mx'"
      using m f by (auto simp: less_Suc_eq_0_disj nth_Cons' not_less split: if_splits)
    moreover have "mx' = mx \<and> br' = br \<or> (\<exists>k<length (l # ls). br' = i + of_nat k \<and>
        mx' = link_lqi_get_avg_rssi_tenth_db ((l # ls) ! k) \<and> mx < mx')"
      using w
    proof
      assume "mx' = ?mx \<and> br' = ?br"
      then show ?thesis by (cases "?t > mx") (auto intro!: exI [of _ 0])
    next
      assume "\<exists>k<length ls. br' = i + 1 + of_nat k \<and> mx' = link_lqi_get_avg_rssi_tenth_db (ls ! k) \<and> ?mx < mx'"
      then obtain k where "k < length ls" "br' = i + 1 + of_nat k"
        "mx' = link_lqi_get_avg_rssi_tenth_db (ls ! k)" "?mx < mx'" by blast
      then show ?thesis by (intro disjI2 exI [of _ "Suc k"]) (auto simp: ac_simps split: if_splits)
    qed
    moreover have "unat i \<le> unat leading \<and> unat leading < unat i + length (l # ls) \<longrightarrow>
        la' = link_lqi_get_avg_rssi_tenth_db ((l # ls) ! (unat leading - unat i))"
      using e1 e2 by (cases "unat i = unat leading") (auto simp: nth_Cons' word_unat_eq_iff)
    moreover have "unat leading < unat i \<longrightarrow> la' = la" using e2 by auto
    ultimately show ?thesis using m by (auto split: if_splits)
  qed
qed auto

section \<open>Properties\<close>

text \<open>
  C31. The outcome counters are consistent: after any sequence of updates from
  \<open>link_lqi_init\<close>, whatever the outcomes, measurements and resets on overflow, the total and
  acknowledged counts together equal the sum of the received, invalid, rejected, lost and sent
  counts.
\<close>

theorem link_lqi_counts_consistent:
  assumes "lqi_run (link_lqi_init mode) es = Some l"
  shows "total_count l + ack_count l = lqi_received_count l + received_data_size_invalid_count l
     + received_header_size_invalid_count l + rejected_count l + lost_count l + sent_count l"
proof -
  have "lqi_balanced (link_lqi_init mode)" by (simp add: lqi_balanced_def link_lqi_init_def)
  from balanced_run [OF assms this] show ?thesis by (simp add: lqi_balanced_def)
qed

theorem link_lqi_counts_consistent_witness:
  "\<exists>l. lqi_run (link_lqi_init LQI_MODE_0) [(0, FRAME_LOST, 0, 0, [], 0), (0, FRAME_SENT_ACK_LOST, 0, 0, [], 0),
      (0, FRAME_REJECTED, 40, 50, [], 0)] = Some l \<and> total_count l = 3 \<and>
      total_count l + ack_count l = lqi_received_count l + received_data_size_invalid_count l
        + received_header_size_invalid_count l + rejected_count l + lost_count l + sent_count l"
proof -
  obtain l where l: "lqi_run (link_lqi_init LQI_MODE_0) [(0, FRAME_LOST, 0, 0, [], 0),
      (0, FRAME_SENT_ACK_LOST, 0, 0, [], 0), (0, FRAME_REJECTED, 40, 50, [], 0)] = Some l" and "total_count l = 3"
    by (simp add: link_lqi_update_def link_lqi_init_def Let_def)
  with link_lqi_counts_consistent [OF l] show ?thesis by blast
qed

text \<open>
  Rejected frames inflate the average of mode 1: the mode is documented not to consider them,
  yet their RSSI is added to the sum while only received frames are counted, so one received
  frame followed by one rejected frame of the same strength average to twice that strength.
\<close>

theorem link_lqi_mode_1_counts_rejected:
  assumes "link_lqi_update (link_lqi_init LQI_MODE_1) gi FRAME_RECEIVED rssi rnsi ph n = Some (l, d)"
    and "link_lqi_update l gi FRAME_REJECTED rssi rnsi' ph' n' = Some (l', d')"
    and "unat (calculate_normalized_gain (link_gain_loop_get_min_tenth_db gi) rssi) < 2 ^ 15"
  shows "unat (link_lqi_get_avg_rssi_tenth_db l')
    = 2 * unat (calculate_normalized_gain (link_gain_loop_get_min_tenth_db gi) rssi)"
proof -
  let ?g = "calculate_normalized_gain (link_gain_loop_get_min_tenth_db gi) rssi"
  have l: "rssi_sum_tenth_db l = ucast ?g" "lqi_received_count l = 1" "lqi_mode l = LQI_MODE_1" "total_count l = 1"
    using assms(1) by (auto simp: link_lqi_update_def link_lqi_init_def lqi_phase_def Let_def)
  have "rssi_sum_tenth_db l' = ucast ?g + ucast ?g" "lqi_received_count l' = 1" "lqi_mode l' = LQI_MODE_1"
    using assms(2) l by (auto simp: link_lqi_update_def Let_def)
  then have "link_lqi_get_avg_rssi_tenth_db l' = ucast (ucast ?g + ucast ?g :: u64)"
    by (simp add: link_lqi_get_avg_rssi_tenth_db_def lqi_average_def lqi_divisor_def)
  moreover have "unat (ucast ?g :: u64) = unat ?g" using assms(3) by (simp add: unat_ucast_mod)
  then have "unat (ucast ?g + ucast ?g :: u64) = 2 * unat ?g"
    using assms(3) by (subst unat_plus_lt) simp_all
  ultimately show ?thesis using assms(3) by (simp add: unat_ucast_mod)
qed

theorem link_lqi_mode_1_counts_rejected_witness:
  "\<exists>l d l' d'. link_lqi_update (link_lqi_init LQI_MODE_1) 0 FRAME_RECEIVED 15 15 (replicate 16 0) 1 = Some (l, d)
     \<and> link_lqi_update l 0 FRAME_REJECTED 15 15 (replicate 16 0) 1 = Some (l', d')
     \<and> unat (link_lqi_get_avg_rssi_tenth_db l') = 1000"
proof -
  have c: "calculate_cir (replicate 16 0) 1 = Some (0, replicate 16 0)"
    by (simp add: calculate_cir_def numeral_nat)
  obtain l d where u: "link_lqi_update (link_lqi_init LQI_MODE_1) 0 FRAME_RECEIVED 15 15 (replicate 16 0) 1 = Some (l, d)"
    and t: "total_count l = 1"
    by (simp add: link_lqi_update_def link_lqi_init_def lqi_phase_def Let_def c)
  obtain l' d' where v: "link_lqi_update l 0 FRAME_REJECTED 15 15 (replicate 16 0) 1 = Some (l', d')"
    using t by (simp add: link_lqi_update_def Let_def)
  have g: "unat (calculate_normalized_gain (link_gain_loop_get_min_tenth_db 0) 15) = 500"
    by (subst normalized_gain_exact)
      (simp_all add: link_gain_loop_get_min_tenth_db_def gain_lookup_table_def gain_entry_of_def)
  show ?thesis using link_lqi_mode_1_counts_rejected [OF u v] g u v by auto
qed

text \<open>
  Hysteresis of the radio selection: once every radio has enough samples, mode 0 restarts all
  statistics and hands the lead to a radio of the largest average RSSI, but only when that
  average exceeds the leading radio's by more than the hysteresis; otherwise the lead stays.
\<close>

theorem multi_radio_mode_0_hysteresis:
  assumes "unat (radio_count m) \<le> length (radios_lqi m)" "unat (leading_radio m) < unat (radio_count m)"
    and "list_all (\<lambda>l. ucast (avg_sample_count m) \<le> total_count l) (take (unat (radio_count m)) (radios_lqi m))"
    and "mr_mode m = MULTI_RADIO_MODE_0"
  defines "avg \<equiv> \<lambda>i. unat (link_lqi_get_avg_rssi_tenth_db (radios_lqi m ! i))"
    and "lead' \<equiv> unat (leading_radio (link_multi_radio_update m))"
  shows "lead' < unat (radio_count m) \<and>
    (lead' \<noteq> unat (leading_radio m) \<longrightarrow>
      avg (unat (leading_radio m)) + unat (hysteresis_tenth_db m) < avg lead' \<and>
      (\<forall>i<unat (radio_count m). avg i \<le> avg lead')) \<and>
    ((\<exists>i<unat (radio_count m). avg (unat (leading_radio m)) + unat (hysteresis_tenth_db m) < avg i) \<longrightarrow>
      lead' \<noteq> unat (leading_radio m)) \<and>
    radios_lqi (link_multi_radio_update m) = map link_lqi_reset (take (unat (radio_count m)) (radios_lqi m))
      @ drop (unat (radio_count m)) (radios_lqi m)"
proof -
  let ?n = "unat (radio_count m)" and ?ls = "take (unat (radio_count m)) (radios_lqi m)"
  let ?L = "unat (leading_radio m)" and ?h = "unat (hysteresis_tenth_db m)"
  obtain mx br la where r: "mr_best_radio (leading_radio m) ?ls 0 (0, leading_radio m, 0) = (mx, br, la)"
    by (metis prod.exhaust)
  have len: "length ?ls = ?n" using assms(1) by simp
  have nth: "i < ?n \<Longrightarrow> ?ls ! i = radios_lqi m ! i" for i by simp
  from best_radio [OF r] len
  have ge: "\<And>i. i < ?n \<Longrightarrow> link_lqi_get_avg_rssi_tenth_db (radios_lqi m ! i) \<le> mx"
    and w: "mx = 0 \<and> br = leading_radio m \<or>
        (\<exists>k<?n. br = of_nat k \<and> mx = link_lqi_get_avg_rssi_tenth_db (radios_lqi m ! k) \<and> 0 < mx)"
    and la: "la = link_lqi_get_avg_rssi_tenth_db (radios_lqi m ! ?L)"
    using assms(2) less_imp_le [OF unat_u8_lt [of "radio_count m"]] by (auto simp: nth)
  have u: "link_multi_radio_update m = (let m1 = m\<lparr>radios_lqi := map link_lqi_reset ?ls @ drop ?n (radios_lqi m)\<rparr>
      in if unat mx > unat la + ?h then m1\<lparr>leading_radio := br\<rparr> else m1)"
    using assms(3,4) r by (auto simp: link_multi_radio_update_def multi_radio_update_mode_0_def Let_def
      list_all_iff list_ex_iff not_less [symmetric])
  have rl: "radios_lqi (link_multi_radio_update m) = map link_lqi_reset ?ls @ drop ?n (radios_lqi m)"
    by (simp add: u Let_def)
  have gen: "avg i \<le> unat mx" if "i < ?n" for i using ge [OF that] by (simp add: avg_def word_le_nat_alt)
  show ?thesis
  proof (cases "unat mx > unat la + ?h")
    case True
    then have "mx \<noteq> 0" by auto
    with w obtain k where k: "k < ?n" "br = of_nat k" "mx = link_lqi_get_avg_rssi_tenth_db (radios_lqi m ! k)"
      by blast
    have "k < 2 ^ LENGTH(8)" using k(1) unat_u8_lt [of "radio_count m"] by (simp del: unat_u8_lt)
    then have "unat br = k" unfolding k(2) by (rule unat_of_nat_lt)
    then have l': "lead' = k" using True by (simp add: lead'_def u Let_def)
    have a: "avg k = unat mx" "avg ?L = unat la" using k(3) la by (simp_all add: avg_def)
    with True have "k \<noteq> ?L" by auto
    then show ?thesis using l' k(1) a True gen rl by simp
  next
    case False
    then have l': "lead' = ?L" by (simp add: lead'_def u Let_def)
    have "avg i \<le> avg ?L + ?h" if "i < ?n" for i
      using gen [OF that] False la by (simp add: avg_def)
    then show ?thesis using l' assms(2) rl by (auto simp: not_less [symmetric])
  qed
qed

definition lqi_with_average :: "u64 \<Rightarrow> lqi" where
  "lqi_with_average a = (link_lqi_init LQI_MODE_0)\<lparr>total_count := 4, rssi_sum_tenth_db := 4 * a\<rparr>"

theorem multi_radio_mode_0_hysteresis_witness:
  "leading_radio (link_multi_radio_update \<lparr>radios_lqi = [lqi_with_average 300, lqi_with_average 420], radio_count = 2,
      avg_sample_count = 4, hysteresis_tenth_db = 100, leading_radio = 0, mr_select_mode = MULTI_RADIO_SELECT_MODE_ALGO,
      mr_mode = MULTI_RADIO_MODE_0, rssi_threshold = 0\<rparr>) \<noteq> 0"
proof -
  let ?m = "\<lparr>radios_lqi = [lqi_with_average 300, lqi_with_average 420], radio_count = 2,
      avg_sample_count = 4, hysteresis_tenth_db = 100, leading_radio = 0, mr_select_mode = MULTI_RADIO_SELECT_MODE_ALGO,
      mr_mode = MULTI_RADIO_MODE_0, rssi_threshold = 0\<rparr>"
  have a: "link_lqi_get_avg_rssi_tenth_db (lqi_with_average 300) = 300"
    "link_lqi_get_avg_rssi_tenth_db (lqi_with_average 420) = 420"
    by (simp_all add: lqi_with_average_def link_lqi_get_avg_rssi_tenth_db_def lqi_average_def lqi_divisor_def
      link_lqi_init_def)
  have "list_all (\<lambda>l. ucast (avg_sample_count ?m) \<le> total_count l) (take (unat (radio_count ?m)) (radios_lqi ?m))"
    by (simp add: lqi_with_average_def)
  from multi_radio_mode_0_hysteresis [of ?m, OF _ _ this] a
  have "(\<exists>i<2. 300 + 100 < unat (link_lqi_get_avg_rssi_tenth_db ([lqi_with_average 300, lqi_with_average 420] ! i)))
      \<longrightarrow> unat (leading_radio (link_multi_radio_update ?m)) \<noteq> 0" by simp
  moreover have "\<exists>i<2. 300 + 100 < unat (link_lqi_get_avg_rssi_tenth_db ([lqi_with_average 300, lqi_with_average 420] ! i))"
    by (rule exI [of _ 1]) (simp add: a)
  ultimately show ?thesis by (auto simp: unat_eq_zero)
qed

end
