(* ===== verification/Rate_Offset.thy ===== *)
theory Rate_Offset
  imports Mac_Header
begin

text \<open>
  The two modules that spread the time slots of concurrent networks: the random data-rate offset
  of \<open>link_random_datarate_offset.c\<close>, a triangle wave shared through one header byte, and the
  distributed desynchronisation of \<open>link_ddcm.h\<close>, which pays out an offset in bounded parts.
\<close>

section \<open>Random data-rate offset\<close>

record link_rdo =
  rdo_offset :: u8
  rollover_n :: u16
  elapsed_time_us :: u32
  target_time_us :: u32
  rdo_enabled :: bool
  count_up :: bool

definition DEFAULT_ROLLOVER :: u16 where "DEFAULT_ROLLOVER = 15"
definition RDO_OFFSET_MASK :: u8 where "RDO_OFFSET_MASK = 0x7f"
definition COUNT_UP_BIT_OFFSET :: nat where "COUNT_UP_BIT_OFFSET = 7"

definition link_rdo_init :: "u16 \<Rightarrow> u16 \<Rightarrow> link_rdo" where
  "link_rdo_init target_rollover_value step_ms =
     \<lparr>rdo_offset = 0,
      rollover_n = (if target_rollover_value = 0 then DEFAULT_ROLLOVER else target_rollover_value),
      elapsed_time_us = 0, target_time_us = ucast step_ms * 1000, rdo_enabled = False, count_up = True\<rparr>"

definition link_rdo_enable :: "link_rdo \<Rightarrow> link_rdo" where
  "link_rdo_enable r = r\<lparr>rdo_enabled := True\<rparr>"

definition link_rdo_disable :: "link_rdo \<Rightarrow> link_rdo" where
  "link_rdo_disable r = r\<lparr>rdo_enabled := False\<rparr>"

definition link_rdo_send_offset :: "link_rdo \<Rightarrow> byte option \<Rightarrow> byte option" where
  "link_rdo_send_offset r buffer_to_send =
     (case buffer_to_send of
        None \<Rightarrow> None
      | Some b \<Rightarrow> Some ((rdo_offset r AND RDO_OFFSET_MASK)
          OR push_bit COUNT_UP_BIT_OFFSET (of_bool (count_up r))))"

definition link_rdo_set_offset :: "link_rdo \<Rightarrow> byte option \<Rightarrow> link_rdo" where
  "link_rdo_set_offset r buffer_to_received =
     (case buffer_to_received of
        None \<Rightarrow> r
      | Some b \<Rightarrow> r\<lparr>rdo_offset := b AND RDO_OFFSET_MASK, count_up := (drop_bit COUNT_UP_BIT_OFFSET b \<noteq> 0)\<rparr>)"

definition link_rdo_get_offset :: "link_rdo \<Rightarrow> u16" where
  "link_rdo_get_offset r = (if rdo_enabled r then ucast (rdo_offset r) else 0)"

definition link_rdo_update_offset :: "link_rdo \<Rightarrow> u32 \<Rightarrow> link_rdo" where
  "link_rdo_update_offset r sleep_time_us =
     (let r1 = r\<lparr>elapsed_time_us := elapsed_time_us r + sleep_time_us\<rparr> in
      if elapsed_time_us r1 \<ge> target_time_us r1
      then (let r2 =
              (if count_up r1
               then (let r' = r1\<lparr>rdo_offset := (if rollover_n r1 \<noteq> 0 then rdo_offset r1 + 1 else 0)\<rparr>
                     in if unat (rdo_offset r') + 1 = unat (rollover_n r')
                        then r'\<lparr>count_up := False\<rparr> else r')
               else (let r' = r1\<lparr>rdo_offset := (if rollover_n r1 \<noteq> 0 then rdo_offset r1 - 1 else 0)\<rparr>
                     in if rdo_offset r' = 0 then r'\<lparr>count_up := True\<rparr> else r'))
            in r2\<lparr>elapsed_time_us := 0\<rparr>)
      else r1)"

section \<open>Distributed desynchronisation\<close>

record link_ddcm =
  target_offset :: u16
  max_timeslot_offset :: u16
  pll_cycles_since_tx :: u32
  sync_loss_duration_pll :: u32
  sync_loss_max_duration_pll :: u32
  ddcm_enabled :: bool
  last_tx_successful :: bool

definition DDCM_DISABLE :: u16 where "DDCM_DISABLE = 0"
definition UNSYNC_TX_OFFSET_PLL_CYCLES :: u16 where "UNSYNC_TX_OFFSET_PLL_CYCLES = 1024"

text \<open>The instance pointer is checked against \<open>NULL\<close> by every function.\<close>

definition link_ddcm_init :: "link_ddcm option \<Rightarrow> u16 \<Rightarrow> u32 \<Rightarrow> link_ddcm option" where
  "link_ddcm_init inst max_off loss_max =
     map_option (\<lambda>_. \<lparr>target_offset = 0, max_timeslot_offset = max_off, pll_cycles_since_tx = 0,
       sync_loss_duration_pll = 0, sync_loss_max_duration_pll = loss_max,
       ddcm_enabled = (max_off \<noteq> DDCM_DISABLE), last_tx_successful = False\<rparr>) inst"

definition link_ddcm_pll_cycles_update :: "link_ddcm option \<Rightarrow> u32 \<Rightarrow> link_ddcm option" where
  "link_ddcm_pll_cycles_update inst pll_cycles =
     map_option (\<lambda>d. if \<not> ddcm_enabled d then d
       else d\<lparr>pll_cycles_since_tx := pll_cycles_since_tx d + pll_cycles\<rparr>) inst"

definition ddcm_cca_event :: "link_ddcm \<Rightarrow> u8 \<Rightarrow> u16 \<Rightarrow> bool \<Rightarrow> link_ddcm" where
  "ddcm_cca_event d cca_try_count cca_retry_time is_tx_event_success =
     (let d1 =
        (if \<not> is_tx_event_success
         then d\<lparr>sync_loss_duration_pll := sync_loss_duration_pll d + pll_cycles_since_tx d\<rparr>
         else (let d' =
             (if sync_loss_duration_pll d > pll_cycles_since_tx d
              then d\<lparr>sync_loss_duration_pll := sync_loss_duration_pll d - pll_cycles_since_tx d\<rparr>
              else d\<lparr>sync_loss_duration_pll := 0\<rparr>)
           in if target_offset d' = 0
              then (if cca_try_count > 0
                    then d'\<lparr>target_offset := of_nat ((unat cca_try_count - 1) * unat cca_retry_time
                              + unat (max_timeslot_offset d'))\<rparr>
                    else d'\<lparr>target_offset := 0\<rparr>)
              else d'))
      in d1\<lparr>pll_cycles_since_tx := 0, last_tx_successful := is_tx_event_success\<rparr>)"

definition link_ddcm_cca_event_update :: "link_ddcm option \<Rightarrow> u8 \<Rightarrow> u16 \<Rightarrow> bool \<Rightarrow> link_ddcm option" where
  "link_ddcm_cca_event_update inst cca_try_count cca_retry_time success =
     map_option (\<lambda>d. if \<not> ddcm_enabled d then d else ddcm_cca_event d cca_try_count cca_retry_time success) inst"

definition link_ddcm_get_offset :: "link_ddcm option \<Rightarrow> u16 \<times> link_ddcm option" where
  "link_ddcm_get_offset inst =
     (case inst of
        None \<Rightarrow> (0, None)
      | Some d \<Rightarrow>
          if \<not> ddcm_enabled d then (0, inst)
          else if sync_loss_duration_pll d \<ge> sync_loss_max_duration_pll d
          then (UNSYNC_TX_OFFSET_PLL_CYCLES, Some (d\<lparr>sync_loss_duration_pll := 0, target_offset := 0\<rparr>))
          else if \<not> last_tx_successful d then (0, inst)
          else (let timeslot_offset = (if target_offset d > max_timeslot_offset d
                                       then max_timeslot_offset d else target_offset d)
                in (timeslot_offset, Some (d\<lparr>target_offset := target_offset d - timeslot_offset\<rparr>))))"

section \<open>The triangle wave\<close>

text \<open>The offset after \<open>k\<close> expiries of the step timer, between 0 and \<open>n - 1\<close> and back.\<close>

definition rdo_wave :: "nat \<Rightarrow> nat \<Rightarrow> nat" where
  "rdo_wave n k = (let m = k mod (2 * (n - 1)) in if m < n then m else 2 * (n - 1) - m)"

fun rdo_expiries :: "u32 \<Rightarrow> u32 \<Rightarrow> u32 list \<Rightarrow> nat" where
  "rdo_expiries target elapsed [] = 0"
| "rdo_expiries target elapsed (s # ss) =
     (if elapsed + s \<ge> target then Suc (rdo_expiries target 0 ss) else rdo_expiries target (elapsed + s) ss)"

definition rdo_at :: "nat \<Rightarrow> nat \<Rightarrow> link_rdo \<Rightarrow> bool" where
  "rdo_at n k r \<longleftrightarrow> unat (rollover_n r) = n \<and> unat (rdo_offset r) = rdo_wave n k \<and>
     count_up r = (k mod (2 * (n - 1)) < n - 1)"

lemma rdo_wave_lt: "2 \<le> n \<Longrightarrow> rdo_wave n k < n"
  by (auto simp: rdo_wave_def Let_def)

lemma rdo_wave_Suc:
  assumes "2 \<le> n"
  shows "\<exists>d q. n = Suc d \<and> 0 < d \<and> q < 2 * d \<and> k mod (2 * (n - 1)) = q \<and>
    Suc k mod (2 * (n - 1)) = (if Suc q = 2 * d then 0 else Suc q) \<and>
    rdo_wave n k = (if q < n then q else 2 * d - q) \<and>
    rdo_wave n (Suc k) = (if Suc q = 2 * d then 0 else if Suc q < n then Suc q else 2 * d - Suc q)"
  using assms by (intro exI [of _ "n - 1"] exI [of _ "k mod (2 * (n - 1))"])
    (auto simp: rdo_wave_def Let_def mod_Suc)

lemma rdo_wave_up:
  assumes "2 \<le> n" "k mod (2 * (n - 1)) < n - 1"
  shows "rdo_wave n (Suc k) = Suc (rdo_wave n k) \<and> Suc (rdo_wave n k) < n \<and>
    (Suc k mod (2 * (n - 1)) < n - 1) = (Suc (Suc (rdo_wave n k)) \<noteq> n)"
  using rdo_wave_Suc [OF assms(1), of k] assms(2) by (elim exE conjE) (simp split: if_splits; arith)

lemma rdo_wave_down:
  assumes "2 \<le> n" "\<not> k mod (2 * (n - 1)) < n - 1"
  shows "rdo_wave n k = Suc (rdo_wave n (Suc k)) \<and>
    (Suc k mod (2 * (n - 1)) < n - 1) = (rdo_wave n (Suc k) = 0)"
  using rdo_wave_Suc [OF assms(1), of k] assms(2) by (elim exE conjE) (simp split: if_splits; arith)

lemma rdo_at_update:
  assumes "2 \<le> n" "n \<le> 256" "rdo_at n k r" "elapsed_time_us r + s \<ge> target_time_us r"
  shows "rdo_at n (Suc k) (link_rdo_update_offset r s)"
proof (cases "count_up r")
  case True
  then have k: "k mod (2 * (n - 1)) < n - 1" using assms(3) by (simp add: rdo_at_def)
  note w = rdo_wave_up [OF assms(1) k]
  have o: "unat (rdo_offset r) = rdo_wave n k" and c: "unat (rollover_n r) = n" using assms(3) by (simp_all add: rdo_at_def)
  have u: "unat (rdo_offset r + 1) = Suc (rdo_wave n k)"
    by (subst unat_plus_lt) (use o w assms(2) in simp_all)
  have "rollover_n r \<noteq> 0" using assms(1) c by auto
  then have "link_rdo_update_offset r s
      = r\<lparr>rdo_offset := rdo_offset r + 1, elapsed_time_us := 0, count_up := (Suc (Suc (rdo_wave n k)) \<noteq> n)\<rparr>"
    using True assms(4) u c by (simp add: link_rdo_update_offset_def Let_def)
  then show ?thesis using u c w by (simp add: rdo_at_def)
next
  case False
  then have k: "\<not> k mod (2 * (n - 1)) < n - 1" using assms(3) by (simp add: rdo_at_def)
  note w = rdo_wave_down [OF assms(1) k]
  have o: "unat (rdo_offset r) = Suc (rdo_wave n (Suc k))" and c: "unat (rollover_n r) = n"
    using assms(3) w by (simp_all add: rdo_at_def)
  then have u: "unat (rdo_offset r - 1) = rdo_wave n (Suc k)" by (subst unat_dec) auto
  then have z: "(rdo_offset r - 1 = 0) = (rdo_wave n (Suc k) = 0)" by (metis unat_eq_zero)
  have "rollover_n r \<noteq> 0" using assms(1) c by auto
  then have "link_rdo_update_offset r s
      = r\<lparr>rdo_offset := rdo_offset r - 1, elapsed_time_us := 0, count_up := (rdo_wave n (Suc k) = 0)\<rparr>"
    using False assms(4) z by (simp add: link_rdo_update_offset_def Let_def)
  then show ?thesis using u c w by (simp add: rdo_at_def)
qed

lemma rdo_update_idle:
  "\<not> elapsed_time_us r + s \<ge> target_time_us r \<Longrightarrow> rdo_at n k (link_rdo_update_offset r s) = rdo_at n k r"
  by (simp add: rdo_at_def link_rdo_update_offset_def Let_def)

lemma rdo_update_timer:
  "target_time_us (link_rdo_update_offset r s) = target_time_us r"
  "elapsed_time_us (link_rdo_update_offset r s)
     = (if elapsed_time_us r + s \<ge> target_time_us r then 0 else elapsed_time_us r + s)"
  by (simp_all add: link_rdo_update_offset_def Let_def)

lemma rdo_at_run:
  assumes "2 \<le> n" "n \<le> 256"
  shows "rdo_at n k r \<Longrightarrow>
    rdo_at n (k + rdo_expiries (target_time_us r) (elapsed_time_us r) ss) (foldl link_rdo_update_offset r ss)"
proof (induction ss arbitrary: k r)
  case (Cons s ss)
  show ?case
  proof (cases "elapsed_time_us r + s \<ge> target_time_us r")
    case True
    from Cons.IH [OF rdo_at_update [OF assms Cons.prems True]] True
    show ?thesis by (simp add: rdo_update_timer)
  next
    case False
    from Cons.IH [of k "link_rdo_update_offset r s"] Cons.prems False
    show ?thesis by (simp add: rdo_update_idle rdo_update_timer)
  qed
qed simp

lemma rdo_byte:
  "count_up (link_rdo_set_offset r (link_rdo_send_offset s (Some b))) = count_up s"
  "(rdo_offset (link_rdo_set_offset r (link_rdo_send_offset s (Some b))) = rdo_offset s) = (unat (rdo_offset s) < 128)"
proof -
  define v where "v = (rdo_offset s AND 0x7f) OR push_bit 7 (of_bool (count_up s))"
  have e: "link_rdo_send_offset s (Some b) = Some v"
    by (simp add: link_rdo_send_offset_def v_def RDO_OFFSET_MASK_def COUNT_UP_BIT_OFFSET_def)
  have m: "v AND 0x7f = rdo_offset s AND 0x7f"
    by (cases "count_up s") (simp_all add: v_def word_ao_dist word_bw_assocs)
  have "rdo_offset s AND 0x7f = take_bit 7 (rdo_offset s)"
    by (simp add: take_bit_eq_mask mask_eq_exp_minus_1)
  moreover have "(take_bit 7 (rdo_offset s) = rdo_offset s) = (unat (rdo_offset s) < 128)"
    by (simp add: word_unat_eq_iff unsigned_take_bit_eq take_bit_nat_eq_self_iff)
  moreover have "(drop_bit 7 v \<noteq> 0) = count_up s"
    by (cases "count_up s") (simp_all add: v_def drop_bit_or drop_bit_and)
  ultimately show "count_up (link_rdo_set_offset r (link_rdo_send_offset s (Some b))) = count_up s"
    "(rdo_offset (link_rdo_set_offset r (link_rdo_send_offset s (Some b))) = rdo_offset s) = (unat (rdo_offset s) < 128)"
    by (simp_all add: link_rdo_set_offset_def e RDO_OFFSET_MASK_def COUNT_UP_BIT_OFFSET_def m)
qed

section \<open>Properties\<close>

text \<open>
  The random data-rate offset is a triangle wave: with a rollover between 2 and 256, after any
  sequence of updates the offset is the wave's value at the number of expired steps, so it stays
  below the rollover.
\<close>

theorem link_rdo_triangle_wave:
  assumes "2 \<le> unat rollover" "unat rollover \<le> 256"
  shows "let r = foldl link_rdo_update_offset (link_rdo_init rollover step_ms) ss in
    unat (rdo_offset r) = rdo_wave (unat rollover) (rdo_expiries (ucast step_ms * 1000) 0 ss)
    \<and> unat (rdo_offset r) < unat rollover"
proof -
  let ?r0 = "link_rdo_init rollover step_ms"
  have "rollover \<noteq> 0" using assms(1) by auto
  then have "rdo_at (unat rollover) 0 ?r0"
    using assms(1) by (simp add: rdo_at_def link_rdo_init_def rdo_wave_def)
  from rdo_at_run [OF assms(1,2) this, of ss] show ?thesis
    using rdo_wave_lt [OF assms(1)] by (simp add: rdo_at_def Let_def link_rdo_init_def)
qed

theorem link_rdo_triangle_wave_witness:
  "unat (rdo_offset (foldl link_rdo_update_offset (link_rdo_init 3 1) (replicate 7 1000))) = 1"
proof -
  have "unat (rdo_offset (foldl link_rdo_update_offset (link_rdo_init 3 1) (replicate 7 1000)))
    = rdo_wave 3 (rdo_expiries 1000 0 (replicate 7 1000))"
    using link_rdo_triangle_wave [of 3 1 "replicate 7 1000"] by (simp add: Let_def)
  moreover have "rdo_expiries 1000 0 (replicate 7 1000) = 7" by (simp add: numeral_nat)
  ultimately show ?thesis by (simp add: rdo_wave_def)
qed

text \<open>
  The header byte carries the offset in seven bits next to the direction bit: a node that
  takes over the byte agrees with the sender on the direction always, and on the offset exactly
  when the sender's offset is below 128, although the rollover may be any 16-bit number.
\<close>

theorem link_rdo_byte_round_trip:
  shows "let r' = link_rdo_set_offset r (link_rdo_send_offset s (Some b)) in
    count_up r' = count_up s \<and> (rdo_offset r' = rdo_offset s) = (unat (rdo_offset s) < 128)"
  by (simp add: Let_def rdo_byte)

section \<open>Payout of the desynchronisation offset\<close>

fun ddcm_pay :: "nat \<Rightarrow> link_ddcm option \<Rightarrow> u16 list \<times> link_ddcm option" where
  "ddcm_pay 0 inst = ([], inst)"
| "ddcm_pay (Suc k) inst =
     (let (off, inst1) = link_ddcm_get_offset inst; (offs, inst2) = ddcm_pay k inst1 in (off # offs, inst2))"

definition ddcm_drifting :: "link_ddcm \<Rightarrow> bool" where
  "ddcm_drifting d \<longleftrightarrow> ddcm_enabled d \<and> last_tx_successful d \<and> sync_loss_duration_pll d < sync_loss_max_duration_pll d"

lemma ddcm_get_drifting:
  assumes "ddcm_drifting d"
  shows "link_ddcm_get_offset (Some d) =
    (min (target_offset d) (max_timeslot_offset d),
     Some (d\<lparr>target_offset := target_offset d - min (target_offset d) (max_timeslot_offset d)\<rparr>))"
  using assms by (auto simp: link_ddcm_get_offset_def ddcm_drifting_def Let_def not_le min_def)

lemma ddcm_pay_drifting:
  "ddcm_drifting d \<Longrightarrow> \<exists>offs d'. ddcm_pay k (Some d) = (offs, Some d') \<and>
     unat (target_offset d') + sum_list (map unat offs) = unat (target_offset d) \<and>
     sum_list (map unat offs) = min (unat (target_offset d)) (k * unat (max_timeslot_offset d)) \<and>
     (\<forall>x\<in>set offs. x \<le> max_timeslot_offset d)"
proof (induction k arbitrary: d)
  case (Suc k)
  let ?m = "min (target_offset d) (max_timeslot_offset d)"
  let ?d = "d\<lparr>target_offset := target_offset d - ?m\<rparr>"
  have "ddcm_drifting ?d" using Suc.prems by (simp add: ddcm_drifting_def)
  from Suc.IH [OF this] obtain offs d' where o: "ddcm_pay k (Some ?d) = (offs, Some d')"
    "unat (target_offset d') + sum_list (map unat offs) = unat (target_offset d - ?m)"
    "sum_list (map unat offs) = min (unat (target_offset d - ?m)) (k * unat (max_timeslot_offset d))"
    "\<forall>x\<in>set offs. x \<le> max_timeslot_offset d" by auto
  have m: "unat ?m = min (unat (target_offset d)) (unat (max_timeslot_offset d))"
    by (simp add: min_def word_le_nat_alt)
  have u: "unat (target_offset d - ?m) = unat (target_offset d) - unat ?m" by (rule unat_sub) simp
  have "ddcm_pay (Suc k) (Some d) = (?m # offs, Some d')"
    using o(1) ddcm_get_drifting [OF Suc.prems] by (simp add: Let_def)
  moreover have "unat (target_offset d') + sum_list (map unat (?m # offs)) = unat (target_offset d)"
    using o(2) u m by simp
  moreover have "sum_list (map unat (?m # offs)) = min (unat (target_offset d)) (Suc k * unat (max_timeslot_offset d))"
  proof -
    have "min a b + min (a - min a b) (k * b) = min a (b + k * b)" for a b :: nat by linarith
    then show ?thesis using o(3) u m by simp
  qed
  ultimately show ?case using o(4) by (intro exI [of _ "?m # offs"] exI [of _ d']) simp
qed simp

text \<open>
  C34. Once a transmission has succeeded, the target offset is paid out exactly: the offsets
  handed to the following time slots are each at most the configured maximum, they add up to the
  target, and after as many slots as the target takes nothing is left.
\<close>

theorem link_ddcm_pays_target:
  assumes "ddcm_drifting d" "unat (target_offset d) \<le> k * unat (max_timeslot_offset d)"
  shows "\<exists>offs d'. ddcm_pay k (Some d) = (offs, Some d') \<and> length offs = k \<and>
    (\<forall>x\<in>set offs. x \<le> max_timeslot_offset d) \<and>
    sum_list (map unat offs) = unat (target_offset d) \<and> target_offset d' = 0"
proof -
  have len: "length (fst (ddcm_pay k i)) = k" for i
    by (induction k arbitrary: i) (simp_all add: Let_def split_def)
  from ddcm_pay_drifting [OF assms(1), of k] obtain offs d' where d: "ddcm_pay k (Some d) = (offs, Some d')"
    "unat (target_offset d') + sum_list (map unat offs) = unat (target_offset d)"
    "sum_list (map unat offs) = unat (target_offset d)" "\<forall>x\<in>set offs. x \<le> max_timeslot_offset d"
    using assms(2) by auto
  moreover have "target_offset d' = 0" using d(2,3) by (simp add: unat_eq_zero)
  ultimately show ?thesis using len [of "Some d"] by auto
qed

theorem link_ddcm_pays_target_witness:
  "\<exists>offs d'. ddcm_pay 3 (link_ddcm_cca_event_update
       (link_ddcm_init (Some undefined) 100 5000) 2 150 True) = (offs, Some d') \<and>
     sum_list (map unat offs) = 250"
proof -
  define d where "d = \<lparr>target_offset = 250, max_timeslot_offset = 100, pll_cycles_since_tx = 0,
    sync_loss_duration_pll = 0, sync_loss_max_duration_pll = 5000, ddcm_enabled = True, last_tx_successful = True\<rparr>"
  have e: "link_ddcm_cca_event_update (link_ddcm_init (Some undefined) 100 5000) 2 150 True = Some d"
    by (simp add: link_ddcm_cca_event_update_def link_ddcm_init_def ddcm_cca_event_def DDCM_DISABLE_def d_def)
  have "ddcm_drifting d" "unat (target_offset d) \<le> 3 * unat (max_timeslot_offset d)" "unat (target_offset d) = 250"
    by (simp_all add: ddcm_drifting_def d_def)
  then show ?thesis using link_ddcm_pays_target [of d 3] unfolding e by auto
qed

end
