(* ===== verification/Channel_Hopping.thy ===== *)
theory Channel_Hopping
  imports Prelude
begin

text \<open>
  Channel hopping (\<open>link_channel_hopping.c\<close>): the table of distinct channels, its random
  permutation, the lookup table and the hop index. \<open>rand\<close> is a parameter, the values the C
  library yields after \<open>srand\<close>; so is the byte past the end of the stack array that
  \<open>generate_random_hop_sequence\<close> reads. \<open>None\<close> stands for an access outside an array.
\<close>

section \<open>Types\<close>

record channel_sequence =
  cs_channel :: "u32 list"
  sequence_size :: u32
  channel_number :: u8
  channel_sequence_buffer :: "u8 list option"

record channel_hopping =
  hop_seq_index :: u8
  ch_sequence :: channel_sequence
  channel_lookup_table :: "u8 list"
  middle_channel_idx :: u8

section \<open>Operations\<close>

definition is_in_table :: "u8 list \<Rightarrow> u8 \<Rightarrow> u8 \<Rightarrow> bool" where
  "is_in_table table sz channel = list_ex (\<lambda>x. x = channel) (take (unat sz) table)"

text \<open>The loop of \<open>generate_freq_table\<close> over the channels, with the table and the count so far.\<close>

fun freq_table_loop :: "u8 \<Rightarrow> u32 list \<Rightarrow> u8 list \<times> u8 \<Rightarrow> (u8 list \<times> u8) option" where
  "freq_table_loop n [] (t, c) = Some (t, c)"
| "freq_table_loop n (x # xs) (t, c) =
     (if is_in_table t n (ucast x) then freq_table_loop n xs (t, c)
      else if unat c < length t then freq_table_loop n xs (t[unat c := ucast x], c + 1)
      else None)"

definition generate_freq_table :: "u8 list \<Rightarrow> u32 list \<Rightarrow> u8 \<Rightarrow> u8 \<Rightarrow> (u8 list \<times> u8) option" where
  "generate_freq_table table channels sz n = freq_table_loop n (take (unat sz) channels) (table, 0)"

text \<open>The removal loop: every entry from \<open>r\<close> on is overwritten by its successor.\<close>

definition table_remove :: "nat \<Rightarrow> nat \<Rightarrow> 'a list \<Rightarrow> 'a list" where
  "table_remove r count t = fold (\<lambda>j t. t[j := t ! (j + 1)]) [r..<count] t"

definition hop_step :: "(nat \<Rightarrow> nat) \<Rightarrow> nat \<Rightarrow> nat \<Rightarrow> 'a list \<times> 'a list \<Rightarrow> 'a list \<times> 'a list" where
  "hop_step rnd count i =
     (\<lambda>(tout, tin). let r = rnd i mod (count - i) in (tout[i := tin ! r], table_remove r count tin))"

definition generate_random_hop_sequence ::
  "(nat \<Rightarrow> nat \<Rightarrow> nat) \<Rightarrow> u8 \<Rightarrow> u8 list \<Rightarrow> u8 list \<Rightarrow> u8 \<Rightarrow> u8 \<Rightarrow> u8 list \<times> u8 list" where
  "generate_random_hop_sequence rand oob table_out table_in channel_count seed =
     (let n = length table_in;
          (tout, tin) = fold (hop_step (rand (unat seed + 2)) (unat channel_count)) [0..<unat channel_count]
                          (table_out, table_in @ [oob])
      in (tout, take n tin))"

fun write_lookup :: "(u8 \<times> u8) list \<Rightarrow> u8 list \<Rightarrow> u8 list option" where
  "write_lookup [] t = Some t"
| "write_lookup ((k, v) # kvs) t = (if unat k < length t then write_lookup kvs (t[unat k := v]) else None)"

definition link_channel_hopping_init ::
  "(nat \<Rightarrow> nat \<Rightarrow> nat) \<Rightarrow> u8 \<Rightarrow> channel_hopping \<Rightarrow> channel_sequence \<Rightarrow> bool \<Rightarrow> u8 \<Rightarrow> channel_hopping option" where
  "link_channel_hopping_init rand oob h s random_sequence_enabled seed =
     (case channel_sequence_buffer s of
        None \<Rightarrow> Some h
      | Some buf \<Rightarrow>
          (let n = channel_number s; sz = ucast (sequence_size s) :: u8;
               zero = replicate (unat n) 0
           in case generate_freq_table zero (cs_channel s) sz n of
                None \<Rightarrow> None
              | Some (ft1, count) \<Rightarrow>
                  (let (ft2, ft1') =
                     (if random_sequence_enabled then generate_random_hop_sequence rand oob zero ft1 count seed
                      else (take (unat count) ft1 @ drop (unat count) zero, ft1))
                   in case generate_freq_table ft1' (cs_channel s) sz n of
                        None \<Rightarrow> None
                      | Some (ft1'', _) \<Rightarrow>
                          map_option (\<lambda>t. \<lparr>hop_seq_index = 0, ch_sequence = s\<lparr>channel_sequence_buffer := Some t\<rparr>,
                              channel_lookup_table = t, middle_channel_idx = ucast (sequence_size s div 2)\<rparr>)
                            (write_lookup (zip ft1'' ft2) buf))))"

definition link_channel_hopping_increment_sequence :: "channel_hopping \<Rightarrow> u8 \<Rightarrow> channel_hopping option" where
  "link_channel_hopping_increment_sequence h inc =
     (if sequence_size (ch_sequence h) = 0 then None
      else Some (h\<lparr>hop_seq_index := ucast ((ucast (hop_seq_index h) + ucast inc) mod sequence_size (ch_sequence h))\<rparr>))"

definition link_channel_hopping_set_seq_index :: "channel_hopping \<Rightarrow> u8 \<Rightarrow> channel_hopping" where
  "link_channel_hopping_set_seq_index h i = h\<lparr>hop_seq_index := i\<rparr>"

definition link_channel_hopping_get_seq_index :: "channel_hopping \<Rightarrow> u8" where
  "link_channel_hopping_get_seq_index h = hop_seq_index h"

definition link_channel_hopping_get_channel :: "channel_hopping \<Rightarrow> u32 option" where
  "link_channel_hopping_get_channel h =
     (let i = unat (hop_seq_index h); cs = cs_channel (ch_sequence h) in
      if i < length cs \<and> unat (cs ! i) < length (channel_lookup_table h)
      then Some (ucast (channel_lookup_table h ! unat (cs ! i))) else None)"

section \<open>The table of distinct channels\<close>

definition bytes_of :: "u32 list \<Rightarrow> u8 set" where
  "bytes_of xs = (\<lambda>x. ucast x) ` set xs"

lemma freq_table_loop_spec:
  assumes "unat n = m" "length ds \<le> m" "distinct ds" "g \<notin> set ds" "card (set ds \<union> bytes_of xs) \<le> m"
  shows "\<exists>ds'. freq_table_loop n xs (ds @ replicate (m - length ds) g, of_nat (length ds))
      = Some (ds' @ replicate (m - length ds') g, of_nat (length ds'))
    \<and> distinct ds' \<and> g \<notin> set ds' \<and> length ds' \<le> m \<and> set ds' = set ds \<union> (bytes_of xs - {g})"
  using assms(2-5)
proof (induction xs arbitrary: ds)
  case Nil
  then show ?case by (auto simp: bytes_of_def)
next
  case (Cons x xs)
  let ?x = "ucast x :: u8" and ?t = "ds @ replicate (m - length ds) g"
  have m: "m < 256" using assms(1) unat_u8_lt [of n] by (simp del: unat_u8_lt)
  have fin: "finite (set ds \<union> bytes_of (x # xs))" by (simp add: bytes_of_def)
  have sub: "set ds \<union> bytes_of xs \<subseteq> set ds \<union> bytes_of (x # xs)" by (auto simp: bytes_of_def)
  have b: "bytes_of (x # xs) = insert ?x (bytes_of xs)" by (simp add: bytes_of_def)
  have full: "length ds < m" if "y \<notin> set ds" "y \<in> bytes_of (x # xs)" for y
  proof -
    have "card (insert y (set ds)) \<le> card (set ds \<union> bytes_of (x # xs))"
      by (rule card_mono [OF fin]) (use that in auto)
    then show ?thesis using that Cons.prems(2,4) by (simp add: distinct_card)
  qed
  have tab: "is_in_table ?t n ?x = (?x \<in> set ds \<or> ?x = g)"
    using assms(1) Cons.prems(1) full [of g] Cons.prems(3) b by (auto simp: is_in_table_def list_ex_iff)
  show ?case
  proof (cases "?x \<in> set ds \<or> ?x = g")
    case True
    have "card (set ds \<union> bytes_of xs) \<le> m" using card_mono [OF fin sub] Cons.prems(4) by simp
    from Cons.IH [OF Cons.prems(1-3) this] True tab b show ?thesis by auto
  next
    case False
    then have lt: "length ds < m" using full [of ?x] b by simp
    let ?ds = "ds @ [?x]"
    have u: "unat (of_nat (length ds) :: u8) = length ds" by (rule unat_of_nat_lt) (use lt m in simp)
    have r: "replicate (m - length ds) g = g # replicate (m - Suc (length ds)) g"
      using lt by (metis Suc_diff_Suc replicate_Suc)
    have t: "?t[length ds := ?x] = ?ds @ replicate (m - length ?ds) g" by (simp add: r)
    have "card (set ?ds \<union> bytes_of xs) \<le> m" using Cons.prems(4) by (simp add: b)
    from Cons.IH [of ?ds] this lt False Cons.prems(2,3) obtain ds' where d:
      "freq_table_loop n xs (?ds @ replicate (m - length ?ds) g, of_nat (length ?ds))
        = Some (ds' @ replicate (m - length ds') g, of_nat (length ds'))"
      "distinct ds'" "g \<notin> set ds'" "length ds' \<le> m" "set ds' = set ?ds \<union> (bytes_of xs - {g})"
      by auto
    have "freq_table_loop n (x # xs) (?t, of_nat (length ds))
      = freq_table_loop n xs (?ds @ replicate (m - length ?ds) g, of_nat (length ?ds))"
      using False tab lt u t by (simp add: add.commute)
    then show ?thesis using d False b by auto
  qed
qed

lemma generate_freq_table_spec:
  assumes "length (take (unat sz) cs) = length cs" "card (bytes_of cs) = unat n"
  shows "\<exists>ds. generate_freq_table (replicate (unat n) g) cs sz n = Some (ds @ replicate (unat n - length ds) g, of_nat (length ds))
    \<and> distinct (ds @ replicate (unat n - length ds) g) \<and> length ds \<le> unat n
    \<and> set (ds @ replicate (unat n - length ds) g) = bytes_of cs"
proof -
  have t: "take (unat sz) cs = cs" using assms(1) by simp
  obtain ds where d: "generate_freq_table (replicate (unat n) g) cs sz n = Some (ds @ replicate (unat n - length ds) g, of_nat (length ds))"
    "distinct ds" "g \<notin> set ds" "length ds \<le> unat n" "set ds = bytes_of cs - {g}"
    using freq_table_loop_spec [of n "unat n" "[]" g cs] assms(2) by (auto simp: generate_freq_table_def t)
  have fin: "finite (bytes_of cs)" by (simp add: bytes_of_def)
  have "length ds = card (bytes_of cs - {g})" using d(2,5) by (metis distinct_card)
  then have l: "length ds = (if g \<in> bytes_of cs then unat n - 1 else unat n)"
    using assms(2) fin by (simp add: card_Diff_singleton_if)
  have "0 < unat n" if "g \<in> bytes_of cs" using that assms(2) fin by (metis card_gt_0_iff empty_iff)
  then have "distinct (ds @ replicate (unat n - length ds) g)" "set (ds @ replicate (unat n - length ds) g) = bytes_of cs"
    using d l by (auto simp: numeral_nat split: if_splits)
  then show ?thesis using d by blast
qed

section \<open>The random permutation\<close>

lemma table_remove_spec:
  "r \<le> c \<Longrightarrow> c < length t \<Longrightarrow> table_remove r c t = take r t @ take (c - r) (drop (Suc r) t) @ drop c t"
proof (induction c)
  case (Suc c)
  show ?case
  proof (cases "r \<le> c")
    case True
    let ?p = "take r t @ take (c - r) (drop (Suc r) t) @ drop c t"
    have u: "table_remove r c t = ?p" using Suc True by simp
    have "table_remove r (Suc c) t = ?p[c := ?p ! (c + 1)]"
      using True u by (simp add: table_remove_def)
    also have "?p ! (c + 1) = t ! Suc c"
    proof -
      have "length (take r t @ take (c - r) (drop (Suc r) t)) = c" using True Suc.prems by simp
      then have "((take r t @ take (c - r) (drop (Suc r) t)) @ drop c t) ! (c + 1) = drop c t ! 1"
        using nth_append_length_plus [of "take r t @ take (c - r) (drop (Suc r) t)" "drop c t" 1] by metis
      then show ?thesis using Suc.prems by simp
    qed
    also have "?p[c := t ! Suc c] = take r t @ take (c - r) (drop (Suc r) t) @ t ! Suc c # drop (Suc c) t"
      using True Suc.prems by (simp add: list_update_append min_def Cons_nth_drop_Suc [symmetric]; linarith)
    finally have "table_remove r (Suc c) t = take r t @ (take (c - r) (drop (Suc r) t) @ [t ! Suc c]) @ drop (Suc c) t"
      by simp
    moreover have "take (c - r) (drop (Suc r) t) @ [t ! Suc c] = take (Suc c - r) (drop (Suc r) t)"
      using True Suc.prems by (simp add: Suc_diff_le take_Suc_conv_app_nth)
    ultimately show ?thesis by simp
  next
    case False
    then have "Suc c = r" using Suc.prems(1) by simp
    then show ?thesis by (simp add: table_remove_def)
  qed
qed (simp add: table_remove_def)

lemma hop_steps_spec:
  assumes "distinct ds" "length ds \<le> length out0"
  shows "i \<le> length ds \<Longrightarrow> \<exists>picked rest. fold (hop_step rnd (length ds)) [0..<i] (out0, ds @ g # ys)
      = (picked @ drop i out0, rest @ replicate i g @ g # ys) \<and> length picked = i \<and>
      length rest = length ds - i \<and> distinct (picked @ rest) \<and> set (picked @ rest) = set ds"
proof (induction i)
  case 0
  show ?case by (rule exI [of _ "[]"], rule exI [of _ ds]) (use assms(1) in simp)
next
  case (Suc i)
  then obtain picked rest where s: "fold (hop_step rnd (length ds)) [0..<i] (out0, ds @ g # ys)
      = (picked @ drop i out0, rest @ replicate i g @ g # ys)" "length picked = i"
    "length rest = length ds - i" "distinct (picked @ rest)" "set (picked @ rest) = set ds" by auto
  define r where "r = rnd i mod (length ds - i)"
  have r: "r < length rest" using Suc.prems s(3) by (simp add: r_def)
  let ?rest = "take r rest @ drop (Suc r) rest"
  have rem: "table_remove r (length ds) (rest @ replicate i g @ g # ys) = ?rest @ replicate (Suc i) g @ g # ys"
  proof -
    have "drop (Suc r) (rest @ replicate i g @ g # ys) = drop (Suc r) rest @ replicate i g @ g # ys" using r by simp
    moreover have "length ds - r = length (drop (Suc r) rest) + Suc i" using r s(3) Suc.prems by simp
    ultimately have "take (length ds - r) (drop (Suc r) (rest @ replicate i g @ g # ys))
        = drop (Suc r) rest @ replicate i g @ [g]" by simp
    moreover have "r \<le> length ds" "length ds < length (rest @ replicate i g @ g # ys)" "drop (length ds) (rest @ replicate i g @ g # ys) = g # ys"
      using r s(3) Suc.prems by simp_all
    ultimately show ?thesis using r by (simp add: table_remove_spec replicate_append_same [symmetric])
  qed
  have o: "(picked @ drop i out0)[i := rest ! r] = (picked @ [rest ! r]) @ drop (Suc i) out0"
    using s(2) Suc.prems assms(2) by (simp add: list_update_append Cons_nth_drop_Suc [symmetric])
  have e: "rest = take r rest @ rest ! r # drop (Suc r) rest" using r by (rule id_take_nth_drop)
  have d: "distinct (picked @ take r rest @ rest ! r # drop (Suc r) rest)" using s(4) e by simp
  have "set (picked @ take r rest @ rest ! r # drop (Suc r) rest) = set ds" using s(5) e by simp
  then have "set ((picked @ [rest ! r]) @ ?rest) = set ds" by auto
  moreover have "distinct ((picked @ [rest ! r]) @ ?rest)" using d by auto
  moreover have "fold (hop_step rnd (length ds)) [0..<Suc i] (out0, ds @ g # ys)
      = ((picked @ [rest ! r]) @ drop (Suc i) out0, ?rest @ replicate (Suc i) g @ g # ys)"
    using s(1) o rem r by (simp add: hop_step_def Let_def r_def [symmetric] nth_append)
  moreover have "length ?rest = length ds - Suc i" using r s(3) by simp
  ultimately show ?case using s(2) by (intro exI [of _ "picked @ [rest ! r]"] exI [of _ ?rest]) simp
qed

lemma random_hop_spec:
  assumes "distinct ds" "length ds \<le> n" "n < 256"
    and "generate_random_hop_sequence rand oob (replicate n 0) (ds @ replicate (n - length ds) 0) (of_nat (length ds)) seed = (t2, t1)"
  shows "\<exists>ps g. t2 = ps @ replicate (n - length ds) 0 \<and> distinct ps \<and> set ps = set ds \<and> t1 = replicate n g"
proof -
  let ?g = "if length ds < n then 0 else oob" and ?tl = "if length ds < n then replicate (n - length ds - 1) 0 @ [oob] else []"
  have tin: "(ds @ replicate (n - length ds) 0) @ [oob] = ds @ ?g # ?tl"
    using assms(2) by (cases "n - length ds") auto
  have u: "unat (of_nat (length ds) :: u8) = length ds" by (rule unat_of_nat_lt) (use assms in simp)
  obtain picked rest where s: "fold (hop_step (rand (unat seed + 2)) (length ds)) [0..<length ds] (replicate n 0, ds @ ?g # ?tl)
      = (picked @ drop (length ds) (replicate n 0), rest @ replicate (length ds) ?g @ ?g # ?tl)" "length picked = length ds"
    "length rest = 0" "distinct (picked @ rest)" "set (picked @ rest) = set ds"
    using hop_steps_spec [of ds "replicate n 0" "length ds" "rand (unat seed + 2)" ?g ?tl] assms(1,2) by auto
  have "t1 = take n (replicate (length ds) ?g @ ?g # ?tl)" "t2 = picked @ replicate (n - length ds) 0"
    using assms(2,4) s u tin by (auto simp: generate_random_hop_sequence_def)
  moreover have "take n (replicate (length ds) ?g @ ?g # ?tl) = replicate n ?g"
  proof (cases "length ds < n")
    case True
    then obtain k where "n = length ds + Suc k" using less_iff_Suc_add by auto
    then show ?thesis by (simp add: replicate_add replicate_app_Cons_same)
  next
    case False
    then show ?thesis using assms(2) by simp
  qed
  ultimately show ?thesis using s by auto
qed

section \<open>The lookup table\<close>

lemma write_lookup_spec:
  "distinct (map fst kvs) \<Longrightarrow> \<forall>k\<in>set (map fst kvs). unat k < length t \<Longrightarrow>
   \<exists>t'. write_lookup kvs t = Some t' \<and> length t' = length t \<and> (\<forall>(k, v)\<in>set kvs. t' ! unat k = v) \<and>
     (\<forall>k. k \<notin> set (map fst kvs) \<longrightarrow> t' ! unat k = t ! unat k)"
proof (induction kvs arbitrary: t)
  case (Cons kv kvs)
  obtain k v where kv: "kv = (k, v)" by fastforce
  from Cons.IH [of "t[unat k := v]"] Cons.prems kv obtain t' where
    "write_lookup kvs (t[unat k := v]) = Some t'" "length t' = length t" "\<forall>(k, v)\<in>set kvs. t' ! unat k = v"
    "\<forall>k'. k' \<notin> set (map fst kvs) \<longrightarrow> t' ! unat k' = t[unat k := v] ! unat k'" by auto
  moreover from this have "t' ! unat k = v" using Cons.prems kv by auto
  moreover have "k' \<noteq> k \<Longrightarrow> t[unat k := v] ! unat k' = t ! unat k'" for k'
    by (simp add: word_unat_eq_iff)
  ultimately show ?case using Cons.prems kv by auto
qed simp

section \<open>Properties\<close>

text \<open>
  The sequences the module is meant for: at most 255 entries, as many distinct byte channels as
  \<open>channel_number\<close> announces, each of them an index of the look-up buffer.
\<close>

definition channel_sequence_ok :: "channel_sequence \<Rightarrow> u8 list \<Rightarrow> bool" where
  "channel_sequence_ok s buf \<longleftrightarrow> length (cs_channel s) = unat (sequence_size s) \<and> unat (sequence_size s) < 256 \<and>
     channel_sequence_buffer s = Some buf \<and> card (bytes_of (cs_channel s)) = unat (channel_number s) \<and>
     (\<forall>x\<in>set (cs_channel s). unat x < 256 \<and> unat x < length buf)"

lemma zip_image_bij:
  assumes "distinct ks" "distinct vs" "length ks = length vs" "\<forall>(k, v)\<in>set (zip ks vs). f k = v"
  shows "bij_betw f (set ks) (set vs)"
proof -
  have m: "map f ks = vs"
    by (rule nth_equalityI) (use assms(3,4) in \<open>auto simp: set_zip\<close>)
  then have "inj_on f (set ks)" using assms(2) by (metis distinct_map)
  then show ?thesis using m by (metis bij_betw_imageI list.set_map)
qed

lemma channel_tables:
  assumes "channel_sequence_ok s buf"
  obtains ft1 ft2 where "distinct ft1" "distinct ft2" "set ft1 = bytes_of (cs_channel s)" "set ft2 = set ft1"
    "length ft1 = length ft2"
    "link_channel_hopping_init rand oob h s rnd_en seed = map_option (\<lambda>t. \<lparr>hop_seq_index = 0,
        ch_sequence = s\<lparr>channel_sequence_buffer := Some t\<rparr>, channel_lookup_table = t,
        middle_channel_idx = ucast (sequence_size s div 2)\<rparr>) (write_lookup (zip ft1 ft2) buf)"
    "rnd_en \<or> ft2 = ft1"
proof -
  let ?n = "unat (channel_number s)" and ?cs = "cs_channel s" and ?sz = "ucast (sequence_size s) :: u8"
  have buf: "channel_sequence_buffer s = Some buf" and card: "card (bytes_of ?cs) = ?n"
    using assms by (simp_all add: channel_sequence_ok_def)
  have sz: "length (take (unat ?sz) ?cs) = length ?cs"
    using assms by (simp add: channel_sequence_ok_def unat_ucast_mod)
  note spec = generate_freq_table_spec [OF sz card]
  obtain ds where ds: "generate_freq_table (replicate ?n 0) ?cs ?sz (channel_number s)
      = Some (ds @ replicate (?n - length ds) 0, of_nat (length ds))"
    "distinct (ds @ replicate (?n - length ds) 0)" "length ds \<le> ?n" "set (ds @ replicate (?n - length ds) 0) = bytes_of ?cs"
    using spec [of 0] by blast
  let ?ft1 = "ds @ replicate (?n - length ds) 0"
  have n: "?n < 256" by simp
  have u: "unat (of_nat (length ds) :: u8) = length ds" by (rule unat_of_nat_lt) (use le_less_trans [OF ds(3) n] in simp)
  show thesis
  proof (cases rnd_en)
    case False
    have "take (unat ?sz) ?cs = ?cs" using sz by simp
    have idle: "set ft = bytes_of xs \<Longrightarrow> length ft = ?n \<Longrightarrow> set xs' \<subseteq> set xs \<Longrightarrow>
        freq_table_loop (channel_number s) xs' (ft, c) = Some (ft, c)" for xs' xs ft c
      by (induction xs') (auto simp: is_in_table_def list_ex_iff bytes_of_def)
    have "generate_freq_table ?ft1 ?cs ?sz (channel_number s) = Some (?ft1, 0)"
      unfolding generate_freq_table_def \<open>take (unat ?sz) ?cs = ?cs\<close>
      by (rule idle) (use ds in auto)
    then show thesis using that [of ?ft1 ?ft1] ds False buf u
      by (simp add: link_channel_hopping_init_def Let_def)
  next
    case True
    obtain t2 t1 where g: "generate_random_hop_sequence rand oob (replicate ?n 0) ?ft1 (of_nat (length ds)) seed = (t2, t1)"
      by fastforce
    have "distinct ds" using ds(2) by simp
    from random_hop_spec [OF this ds(3) n g] obtain ps x where p: "t2 = ps @ replicate (?n - length ds) 0"
      "distinct ps" "set ps = set ds" "t1 = replicate ?n x" by blast
    obtain ds' where ds': "generate_freq_table (replicate ?n x) ?cs ?sz (channel_number s)
        = Some (ds' @ replicate (?n - length ds') x, of_nat (length ds'))"
      "distinct (ds' @ replicate (?n - length ds') x)" "length ds' \<le> ?n" "set (ds' @ replicate (?n - length ds') x) = bytes_of ?cs"
      using spec [of x] by blast
    have "length ps = length ds" using p(2,3) ds(2) by (metis distinct_append distinct_card)
    moreover have "distinct t2" using p ds(2) by auto
    moreover have "set t2 = bytes_of ?cs" using p ds(4) by auto
    ultimately show thesis using that [of "ds' @ replicate (?n - length ds') x" t2] ds ds' g p True buf
      by (simp add: link_channel_hopping_init_def Let_def)
  qed
qed

text \<open>
  C24. Channel hopping only permutes the channels: for every sequence whose number of distinct
  channels is the announced one, whatever \<open>rand\<close> returns and whatever byte lies behind the
  stack array, the initialisation succeeds and its lookup table maps the channels one-to-one onto
  themselves; without randomisation it is the identity on them.
\<close>

theorem link_channel_hopping_init_permutes:
  assumes "channel_sequence_ok s buf"
  shows "\<exists>h'. link_channel_hopping_init rand oob h s rnd_en seed = Some h' \<and>
    bij_betw (\<lambda>c. channel_lookup_table h' ! unat c) (bytes_of (cs_channel s)) (bytes_of (cs_channel s)) \<and>
    (rnd_en \<or> (\<forall>c\<in>bytes_of (cs_channel s). channel_lookup_table h' ! unat c = c))"
proof -
  obtain ft1 ft2 where ft: "distinct ft1" "distinct ft2" "set ft1 = bytes_of (cs_channel s)" "set ft2 = set ft1"
    "length ft1 = length ft2"
    "link_channel_hopping_init rand oob h s rnd_en seed = map_option (\<lambda>t. \<lparr>hop_seq_index = 0,
        ch_sequence = s\<lparr>channel_sequence_buffer := Some t\<rparr>, channel_lookup_table = t,
        middle_channel_idx = ucast (sequence_size s div 2)\<rparr>) (write_lookup (zip ft1 ft2) buf)"
    "rnd_en \<or> ft2 = ft1" by (rule channel_tables [OF assms, where rand = rand and oob = oob and h = h and rnd_en = rnd_en and seed = seed])
  have f: "map fst (zip ft1 ft2) = ft1" using ft(5) by simp
  have "\<forall>k\<in>set ft1. unat k < length buf"
    using assms ft(3) by (auto simp: channel_sequence_ok_def bytes_of_def unat_ucast_mod)
  with write_lookup_spec [of "zip ft1 ft2" buf] ft(1) obtain t where t: "write_lookup (zip ft1 ft2) buf = Some t"
    "\<forall>(k, v)\<in>set (zip ft1 ft2). t ! unat k = v" unfolding f by blast
  have "bij_betw (\<lambda>c. t ! unat c) (set ft1) (set ft2)"
    by (rule zip_image_bij [OF ft(1,2,5) t(2)])
  moreover have "t ! unat c = c" if "\<not> rnd_en" "c \<in> set ft1" for c
    using bspec [OF t(2), of "(c, c)"] ft(7) that by (simp add: zip_same)
  ultimately show ?thesis using t(1) ft(3,4,6) by auto
qed

theorem link_channel_hopping_init_permutes_witness:
  "\<exists>h'. link_channel_hopping_init (\<lambda>seed i. 3 * seed + i) 7 undefined
      \<lparr>cs_channel = [0, 1, 2, 3, 2], sequence_size = 5, channel_number = 4,
       channel_sequence_buffer = Some (replicate 5 0)\<rparr> True 1 = Some h'
    \<and> bij_betw (\<lambda>c. channel_lookup_table h' ! unat c) {0, 1, 2, 3 :: u8} {0, 1, 2, 3}"
proof -
  let ?s = "\<lparr>cs_channel = [0, 1, 2, 3, 2], sequence_size = 5, channel_number = 4,
       channel_sequence_buffer = Some (replicate 5 0)\<rparr>"
  have b: "bytes_of (cs_channel ?s) = {0, 1, 2, 3}" by (auto simp: bytes_of_def)
  have "channel_sequence_ok ?s (replicate 5 0)" unfolding channel_sequence_ok_def b by simp
  from link_channel_hopping_init_permutes [OF this, of "\<lambda>seed i. 3 * seed + i" 7 undefined True 1] show ?thesis unfolding b by blast
qed

end
