(* ===== verification/Wps_Callback.thy ===== *)
theory Wps_Callback
  imports Circular_Queue
begin

text \<open>
  The queue of application callbacks: \<open>wps_callback_enqueue\<close> of \<open>wps_callback.c\<close>, which the MAC
  layer calls inside the radio interrupt, and the loop of \<open>wps_process_callback\<close> in \<open>wps.c\<close>, which
  runs the callbacks afterwards. Functions, connections and arguments are addresses; \<open>run\<close> says
  what calling a function does to the rest of the system, a parameter.
\<close>

record wps_callback_inst =
  cb_func :: "nat option"
  cb_conn :: nat
  cb_parg :: nat

type_synonym callback_queue = "circular_queue \<times> (nat \<Rightarrow> wps_callback_inst)"

definition wps_callback_enqueue :: "callback_queue \<Rightarrow> wps_callback_inst option \<Rightarrow> callback_queue" where
  "wps_callback_enqueue s xlayer_callback =
     (if \<not> circular_queue_is_full (fst s) then
        (let callback = circular_queue_get_free_slot_raw (fst s) in
         case xlayer_callback of
           None \<Rightarrow> s
         | Some cb \<Rightarrow>
             (let m = (snd s)(callback := (snd s callback)\<lparr>cb_func := cb_func cb, cb_conn := cb_conn cb, cb_parg := cb_parg cb\<rparr>);
                  q = (fst s)\<lparr>free_space := free_space (fst s) - 1\<rparr>
              in (circular_queue_enqueue_raw q, m)))
      else s)"

partial_function (option) callback_loop ::
  "(wps_callback_inst \<Rightarrow> 'w \<Rightarrow> 'w) \<Rightarrow> callback_queue \<times> 'w \<Rightarrow> (callback_queue \<times> 'w) option" where
  "callback_loop run st =
     (if circular_queue_is_empty (fst (fst st)) then Some st
      else (let w = (case circular_queue_front (fst (fst st)) of
                       None \<Rightarrow> snd st
                     | Some a \<Rightarrow> if cb_func (snd (fst st) a) \<noteq> None then run (snd (fst st) a) (snd st) else snd st)
            in callback_loop run ((snd (circular_queue_dequeue (fst (fst st))), snd (fst st)), w)))"

section \<open>Lemmas\<close>

lemma callback_copy: "c\<lparr>cb_func := cb_func cb, cb_conn := cb_conn cb, cb_parg := cb_parg cb\<rparr> = cb"
  for c cb :: wps_callback_inst
  by (cases c; cases cb) simp

lemma callback_enqueue_put:
  "wps_callback_enqueue s (Some cb) = snd (cq_put cb s)"
  by (cases "circular_queue_is_full (fst s)")
    (simp_all add: wps_callback_enqueue_def cq_put_def circular_queue_get_free_slot_def
      circular_queue_enqueue_def callback_copy Let_def)

lemma callback_enqueue_null: "wps_callback_enqueue s None = s"
  by (simp add: wps_callback_enqueue_def Let_def)

definition callback_called :: "(wps_callback_inst \<Rightarrow> 'w \<Rightarrow> 'w) \<Rightarrow> wps_callback_inst \<Rightarrow> 'w \<Rightarrow> 'w" where
  "callback_called run cb w = (if cb_func cb \<noteq> None then run cb w else w)"

lemma callback_loop_all:
  "circular_queue_wf (fst s) \<Longrightarrow> cq_items s = cbs \<Longrightarrow>
   \<exists>s'. callback_loop run (s, w) = Some (s', fold (callback_called run) cbs w) \<and>
     circular_queue_wf (fst s') \<and> cq_items s' = []"
proof (induction cbs arbitrary: s w)
  case Nil
  then have "circular_queue_is_empty (fst s)" by (simp add: is_empty_iff cq_items_def circular_queue_slots_def)
  then show ?case using Nil by (subst callback_loop.simps) simp
next
  case (Cons cb cbs)
  have ne: "\<not> circular_queue_is_empty (fst s)"
    using Cons.prems by (cases "cq_used (fst s)") (auto simp: is_empty_iff cq_items_def circular_queue_slots_def)
  have d: "fst (cq_take s) = Some cb" "cq_items (snd (cq_take s)) = cbs"
    using cq.deq_Cons [OF Cons.prems] by auto
  have wf: "circular_queue_wf (fst (snd (cq_take s)))" using cq.deq_inv [OF Cons.prems(1)] .
  obtain a where a: "circular_queue_front (fst s) = Some a" "snd s a = cb"
    "snd (cq_take s) = (snd (circular_queue_dequeue (fst s)), snd s)"
    using d(1) by (auto simp: cq_take_def split: option.splits)
  have "callback_loop run (s, w) = callback_loop run (snd (cq_take s), callback_called run cb w)"
    using ne a by (subst callback_loop.simps) (simp only: callback_called_def Let_def fst_conv snd_conv if_False option.case)
  with Cons.IH [OF wf d(2), of "callback_called run cb w"] show ?case by simp
qed

section \<open>Properties\<close>

text \<open>
  C26. Callbacks run once each and in the order of the events: when the pending callbacks fit the
  queue, processing the queue after any sequence of enqueue calls terminates, leaves it empty and
  calls exactly the enqueued functions, oldest first.
\<close>

theorem wps_callbacks_in_order:
  assumes "circular_queue_wf (fst s)" "length (cq_items s) + length cbs \<le> unat (capacity (fst s))"
  shows "\<exists>s'. callback_loop run (foldl (\<lambda>s cb. wps_callback_enqueue s (Some cb)) s cbs, w)
      = Some (s', fold (callback_called run) (cq_items s @ cbs) w)
    \<and> circular_queue_wf (fst s') \<and> cq_items s' = []"
proof -
  have "circular_queue_wf (fst (foldl (\<lambda>s cb. wps_callback_enqueue s (Some cb)) s cbs)) \<and>
      cq_items (foldl (\<lambda>s cb. wps_callback_enqueue s (Some cb)) s cbs) = cq_items s @ cbs"
    using assms
  proof (induction cbs arbitrary: s)
    case (Cons cb cbs)
    have lt: "length (cq_items s) < unat (capacity (fst s))" using Cons.prems(2) by simp
    have "fst (cq_put cb s) \<and> cq_items (snd (cq_put cb s)) = cq_items s @ [cb]"
      by (rule cq.enq_room [OF Cons.prems(1) TrueI lt])
    moreover have "circular_queue_wf (fst (snd (cq_put cb s)))"
      by (rule cq.enq_inv [OF Cons.prems(1) TrueI])
    moreover have "unat (capacity (fst (snd (cq_put cb s)))) = unat (capacity (fst s))"
      using cq.enq_cap [OF Cons.prems(1) TrueI, of cb] by simp
    ultimately show ?case using Cons.IH [of "snd (cq_put cb s)"] Cons.prems(2)
      by (simp add: callback_enqueue_put)
  qed simp
  then show ?thesis by (intro callback_loop_all) simp_all
qed

theorem wps_callbacks_in_order_witness:
  "\<exists>s'. callback_loop (\<lambda>cb log. log @ [cb_conn cb])
      (foldl (\<lambda>s cb. wps_callback_enqueue s (Some cb)) (circular_queue_init 100 4 12, undefined)
        [\<lparr>cb_func = Some 1, cb_conn = 7, cb_parg = 0\<rparr>, \<lparr>cb_func = None, cb_conn = 8, cb_parg = 0\<rparr>,
         \<lparr>cb_func = Some 2, cb_conn = 9, cb_parg = 0\<rparr>], []) = Some (s', [7, 9])"
proof -
  have "circular_queue_wf (fst (circular_queue_init 100 4 12, undefined :: nat \<Rightarrow> wps_callback_inst))"
    using wf_init [of 4 12 100] by simp
  moreover have "unat (capacity (circular_queue_init 100 4 12)) = 4" by (simp add: circular_queue_init_def)
  ultimately show ?thesis
    using wps_callbacks_in_order [of "(circular_queue_init 100 4 12, undefined)"
      "[\<lparr>cb_func = Some 1, cb_conn = 7, cb_parg = 0\<rparr>,
        \<lparr>cb_func = None, cb_conn = 8, cb_parg = 0\<rparr>, \<lparr>cb_func = Some 2, cb_conn = 9, cb_parg = 0\<rparr>]"
      "\<lambda>cb log. log @ [cb_conn cb]" "[]"]
    by (auto simp: init_items callback_called_def simp del: foldl_Cons foldl_Nil)
qed

end
