(* ===== verification/Cca.thy ===== *)
theory Cca
  imports Bit_Macros
begin

text \<open>
  Clear channel assessment (\<open>link_cca.c\<close>, \<open>link_cca.h\<close>): the configuration of a connection and the
  receive time-out it leads to. Products and differences of the C code are taken in \<open>int\<close> and
  converted to the width of the field. The array of try counts per fall-back stage is a list.
\<close>

datatype cca_fail_action = CCA_FAIL_ACTION_TX | CCA_FAIL_ACTION_ABORT_TX

record link_cca =
  cca_threshold :: u8
  fail_action :: cca_fail_action
  retry_time_pll_cycles :: u16
  on_time_pll_cycles :: u16
  max_try_count :: u8
  fallback_cca_try_count :: "u8 list option"
  fallback_mode_count :: u8
  rx_timeout_offset_pll_cycles :: u32
  cca_enable :: bool

definition WPS_DISABLE_CCA_THRESHOLD :: u8 where "WPS_DISABLE_CCA_THRESHOLD = 0xFF"

definition CCAINTERV_MAX_VALUE :: u32 where
  "CCAINTERV_MAX_VALUE = (MASK2VAL 0xFFFF (BITS16 15 10) + 1) * 32"

definition CCA_MAX_RETRY_COUNT :: "cca_fail_action \<Rightarrow> u32" where
  "CCA_MAX_RETRY_COUNT a =
     (if a = CCA_FAIL_ACTION_TX then MASK2VAL 0xFFFF (BITS16 7 4) else MASK2VAL 0xFFFF (BITS16 7 4) + 1)"

definition link_cca_get_highest_try_count :: "link_cca \<Rightarrow> u8" where
  "link_cca_get_highest_try_count cca =
     (case fallback_cca_try_count cca of
        Some ts \<Rightarrow> if fallback_mode_count cca > 0 then ts ! (unat (fallback_mode_count cca) - 1) else max_try_count cca
      | None \<Rightarrow> max_try_count cca)"

definition rx_timeout_offset :: "link_cca \<Rightarrow> int" where
  "rx_timeout_offset cca =
     (if fail_action cca = CCA_FAIL_ACTION_ABORT_TX
      then (uint (link_cca_get_highest_try_count cca) - 1) * (uint (retry_time_pll_cycles cca) + uint (on_time_pll_cycles cca))
      else uint (link_cca_get_highest_try_count cca) * (uint (retry_time_pll_cycles cca) + uint (on_time_pll_cycles cca)))"

text \<open>The bound on the try count is read from the previous fail action.\<close>

definition link_cca_init ::
  "u8 \<Rightarrow> u16 \<Rightarrow> u16 \<Rightarrow> u8 \<Rightarrow> cca_fail_action \<Rightarrow> link_cca option \<Rightarrow> bool \<times> link_cca option" where
  "link_cca_init threshold retry_time on_time tries action cca =
     (case cca of
        None \<Rightarrow> (False, None)
      | Some c \<Rightarrow>
          if ucast tries > CCA_MAX_RETRY_COUNT (fail_action c) \<or> ucast retry_time > CCAINTERV_MAX_VALUE
          then (False, Some c)
          else (let c1 = c\<lparr>cca_enable := True, cca_threshold := threshold,
                         retry_time_pll_cycles := word_of_int (((uint retry_time div 32 - 1) + 1) * 32),
                         on_time_pll_cycles := word_of_int (((uint on_time div 8 - 1) + 1) * 8),
                         max_try_count := tries, fail_action := action,
                         fallback_cca_try_count := None, fallback_mode_count := 0\<rparr>
                in (True, Some (c1\<lparr>rx_timeout_offset_pll_cycles := word_of_int (rx_timeout_offset c1)\<rparr>))))"

definition link_cca_disable :: "link_cca \<Rightarrow> link_cca" where
  "link_cca_disable cca =
     \<lparr>cca_threshold = WPS_DISABLE_CCA_THRESHOLD, fail_action = CCA_FAIL_ACTION_TX, retry_time_pll_cycles = 0,
      on_time_pll_cycles = 0, max_try_count = 0, fallback_cca_try_count = None, fallback_mode_count = 0,
      rx_timeout_offset_pll_cycles = 0, cca_enable = False\<rparr>"

definition link_cca_set_fallback_try_count :: "u8 list option \<Rightarrow> u8 \<Rightarrow> link_cca option \<Rightarrow> bool \<times> link_cca option" where
  "link_cca_set_fallback_try_count ts n cca =
     (case cca of
        None \<Rightarrow> (False, None)
      | Some c \<Rightarrow> if \<not> cca_enable c \<or> ts = None then (False, Some c)
                  else (True, Some (c\<lparr>fallback_cca_try_count := ts, fallback_mode_count := n\<rparr>)))"

definition link_cca_get_on_time :: "link_cca \<Rightarrow> u16" where
  "link_cca_get_on_time cca = word_of_int (uint (on_time_pll_cycles cca) div 8 - 1)"

section \<open>The receive time-out\<close>

lemma cca_limits [simp]:
  "CCA_MAX_RETRY_COUNT CCA_FAIL_ACTION_TX = 15" "CCA_MAX_RETRY_COUNT CCA_FAIL_ACTION_ABORT_TX = 16"
  "CCAINTERV_MAX_VALUE = 2048"
  by (simp_all add: CCA_MAX_RETRY_COUNT_def CCAINTERV_MAX_VALUE_def MASK2VAL_def BITS16_def BITS2SHIFT_def)

lemma uint_word_of_int_lt: "0 \<le> k \<Longrightarrow> k < 2 ^ LENGTH('a) \<Longrightarrow> uint (word_of_int k :: 'a::len word) = k"
  by (simp add: unsigned_of_int take_bit_int_eq_self)

lemma cca_tries_le: "CCA_MAX_RETRY_COUNT a \<le> 16"
  by (cases a) simp_all

text \<open>The times a successful initialisation stores, and the time-out it computes.\<close>

lemma cca_init_times:
  assumes "link_cca_init th rt ot tries act (Some c) = (True, Some c')"
  shows "uint (retry_time_pll_cycles c') = uint rt div 32 * 32" "uint (on_time_pll_cycles c') = uint ot div 8 * 8"
    "uint rt \<le> 2048" "uint tries \<le> 16" "max_try_count c' = tries" "fail_action c' = act"
    "fallback_cca_try_count c' = None" "cca_enable c'" "uint ot < 65536"
    "rx_timeout_offset_pll_cycles c' = word_of_int (rx_timeout_offset c')"
proof -
  have ok: "ucast tries \<le> CCA_MAX_RETRY_COUNT (fail_action c)" "ucast rt \<le> CCAINTERV_MAX_VALUE"
    using assms by (auto simp: link_cca_init_def Let_def not_less split: if_splits)
  have "ucast tries \<le> (16 :: u32)" using ok(1) cca_tries_le by (rule order_trans)
  then show "uint tries \<le> 16" by (simp add: word_le_def uint_up_ucast is_up)
  have "ucast rt \<le> (2048 :: u32)" using ok(2) by simp
  then show r: "uint rt \<le> 2048" by (simp add: word_le_def uint_up_ucast is_up)
  show o: "uint ot < 65536" using uint_lt2p [of ot] by simp
  have rr: "uint (word_of_int (uint rt div 32 * 32) :: u16) = uint rt div 32 * 32"
    by (rule uint_word_of_int_lt) (use r in \<open>simp_all add: pos_imp_zdiv_nonneg_iff\<close>)
  have oo: "uint (word_of_int (uint ot div 8 * 8) :: u16) = uint ot div 8 * 8"
    by (rule uint_word_of_int_lt) (use o in \<open>simp_all add: pos_imp_zdiv_nonneg_iff\<close>)
  show "uint (retry_time_pll_cycles c') = uint rt div 32 * 32" "uint (on_time_pll_cycles c') = uint ot div 8 * 8"
    using assms rr oo by (auto simp: link_cca_init_def Let_def split: if_splits)
  show "max_try_count c' = tries" "fail_action c' = act" "fallback_cca_try_count c' = None" "cca_enable c'"
    using assms by (auto simp: link_cca_init_def Let_def split: if_splits)
  show "rx_timeout_offset_pll_cycles c' = word_of_int (rx_timeout_offset c')"
    using assms by (auto simp: link_cca_init_def Let_def rx_timeout_offset_def link_cca_get_highest_try_count_def split: if_splits)
qed

lemma cca_offset_value:
  assumes "link_cca_init th rt ot tries act (Some c) = (True, Some c')" "act = CCA_FAIL_ACTION_TX \<or> tries \<noteq> 0"
  shows "uint (rx_timeout_offset_pll_cycles c') = rx_timeout_offset c'"
    "rx_timeout_offset c' =
      (uint tries - (if act = CCA_FAIL_ACTION_TX then 0 else 1)) * (uint rt div 32 * 32 + uint ot div 8 * 8)"
proof -
  note t = cca_init_times [OF assms(1)]
  let ?w = "uint rt div 32 * 32 + uint ot div 8 * 8"
  let ?k = "uint tries - (if act = CCA_FAIL_ACTION_TX then 0 else 1)"
  show r: "rx_timeout_offset c' = ?k * ?w"
    using t(1,2,5-7) by (cases act) (simp_all add: rx_timeout_offset_def link_cca_get_highest_try_count_def)
  have w: "0 \<le> ?w" "?w \<le> 70000" using t(3,9) by (simp_all add: pos_imp_zdiv_nonneg_iff)
  have "0 < uint tries" if "act \<noteq> CCA_FAIL_ACTION_TX"
    using assms(2) that uint_ge_0 [of tries] by (simp add: less_le uint_0_iff eq_commute [of 0])
  then have k: "0 \<le> ?k" "?k \<le> 16" using t(4) by (auto split: if_splits)
  have "?k * ?w \<le> 16 * 70000" by (rule mult_mono) (use k w in simp_all)
  moreover have "0 \<le> ?k * ?w" using k w by simp
  ultimately have "uint (word_of_int (?k * ?w) :: u32) = ?k * ?w" by (intro uint_word_of_int_lt) simp_all
  then show "uint (rx_timeout_offset_pll_cycles c') = rx_timeout_offset c'" unfolding t(10) r .
qed

text \<open>
  CCA time-out: a successful initialisation makes the receive window longer by exactly the time
  all tries of the sender can take, with the times rounded down as the radio does.
\<close>

theorem link_cca_offset_exact:
  assumes "link_cca_init th rt ot tries act (Some c) = (True, Some c')" "act = CCA_FAIL_ACTION_TX \<or> tries \<noteq> 0"
  shows "uint (rx_timeout_offset_pll_cycles c') =
    (uint tries - (if act = CCA_FAIL_ACTION_TX then 0 else 1)) *
    (uint rt div 32 * 32 + uint ot div 8 * 8)"
  using cca_offset_value [OF assms] by simp

theorem link_cca_offset_exact_witness:
  "\<exists>c'. link_cca_init 20 100 50 3 CCA_FAIL_ACTION_ABORT_TX (Some (link_cca_disable undefined)) = (True, Some c') \<and>
     uint (rx_timeout_offset_pll_cycles c') = 288"
proof -
  obtain c' where c: "link_cca_init 20 100 50 3 CCA_FAIL_ACTION_ABORT_TX (Some (link_cca_disable undefined)) = (True, Some c')"
    by (simp add: link_cca_init_def link_cca_disable_def Let_def)
  with link_cca_offset_exact [OF c] show ?thesis by simp
qed

text \<open>Without tries the difference of the abort case is negative.\<close>

lemma link_cca_abort_zero_wraps:
  "uint (rx_timeout_offset_pll_cycles (the (snd (link_cca_init 20 128 64 0 CCA_FAIL_ACTION_ABORT_TX
     (Some (link_cca_disable undefined)))))) = 2 ^ 32 - 192"
  by (simp add: link_cca_init_def link_cca_disable_def rx_timeout_offset_def link_cca_get_highest_try_count_def Let_def)

text \<open>
  Fall-back try counts: setting them after the initialisation raises the try count but not the
  receive window, which no longer covers the tries of the sender.
\<close>

theorem link_cca_fallback_uncovered:
  assumes "link_cca_init th rt ot tries act (Some c) = (True, Some c1)" "act = CCA_FAIL_ACTION_TX \<or> tries \<noteq> 0"
    and "link_cca_set_fallback_try_count (Some ts) n (Some c1) = (True, Some c2)"
    and "0 < n" "tries < ts ! (unat n - 1)" "32 \<le> rt \<or> 8 \<le> ot"
  shows "link_cca_get_highest_try_count c2 = ts ! (unat n - 1)"
    "uint (rx_timeout_offset_pll_cycles c2) < rx_timeout_offset c2"
proof -
  note t = cca_init_times [OF assms(1)] and v = cca_offset_value [OF assms(1,2)]
  have c2: "c2 = c1\<lparr>fallback_cca_try_count := Some ts, fallback_mode_count := n\<rparr>"
    using assms(3) by (auto simp: link_cca_set_fallback_try_count_def split: if_splits)
  show h: "link_cca_get_highest_try_count c2 = ts ! (unat n - 1)"
    using assms(4) by (simp add: c2 link_cca_get_highest_try_count_def)
  have "32 \<le> uint rt \<or> 8 \<le> uint ot" using assms(6) by (auto simp: word_le_def)
  moreover have "0 \<le> a \<Longrightarrow> 0 \<le> b \<Longrightarrow> 32 \<le> a \<or> 8 \<le> b \<Longrightarrow> 0 < a div 32 * 32 + b div 8 * 8" for a b :: int
    by presburger
  ultimately have w: "0 < uint rt div 32 * 32 + uint ot div 8 * 8" by simp
  have m: "(uint tries - (if act = CCA_FAIL_ACTION_TX then 0 else 1)) * (uint rt div 32 * 32 + uint ot div 8 * 8) <
      (uint (ts ! (unat n - 1)) - (if act = CCA_FAIL_ACTION_TX then 0 else 1)) * (uint rt div 32 * 32 + uint ot div 8 * 8)"
    by (rule mult_strict_right_mono) (use assms(5) w in \<open>simp_all add: word_less_def\<close>)
  have "rx_timeout_offset c2 = (uint (ts ! (unat n - 1)) - (if act = CCA_FAIL_ACTION_TX then 0 else 1)) *
      (uint rt div 32 * 32 + uint ot div 8 * 8)"
    unfolding rx_timeout_offset_def h using t(1,2,6) by (cases act) (simp_all add: c2)
  moreover have "uint (rx_timeout_offset_pll_cycles c2) = rx_timeout_offset c1" using v(1) by (simp add: c2)
  ultimately show "uint (rx_timeout_offset_pll_cycles c2) < rx_timeout_offset c2" using m v(2) by simp
qed

theorem link_cca_fallback_uncovered_witness:
  "\<exists>c1 c2. link_cca_init 20 128 64 2 CCA_FAIL_ACTION_TX (Some (link_cca_disable undefined)) = (True, Some c1) \<and>
     link_cca_set_fallback_try_count (Some [3, 5]) 2 (Some c1) = (True, Some c2) \<and>
     uint (rx_timeout_offset_pll_cycles c2) < rx_timeout_offset c2"
proof -
  obtain c1 where c: "link_cca_init 20 128 64 2 CCA_FAIL_ACTION_TX (Some (link_cca_disable undefined)) = (True, Some c1)"
    by (simp add: link_cca_init_def link_cca_disable_def Let_def)
  obtain c2 where d: "link_cca_set_fallback_try_count (Some [3, 5]) 2 (Some c1) = (True, Some c2)"
    using cca_init_times(8) [OF c] by (simp add: link_cca_set_fallback_try_count_def)
  from link_cca_fallback_uncovered(2) [OF c _ d] c d show ?thesis by simp
qed

end
