(* ===== verification/Tdma_Sync.thy ===== *)
theory Tdma_Sync
  imports Cca "HOL-Library.Signed_Division"
begin

text \<open>
  TDMA synchronisation (\<open>link_tdma_sync.c\<close>, \<open>link_tdma_sync.h\<close>): how long the radio sleeps before
  the next time slot, and how a node follows the coordinator. Times are counted in cycles of the
  40.96 MHz base; the register values in cycles of the current chip rate or of the crystal.

  Widths are those of the C fields. \<open>int64_t\<close> values are integers, with C division (\<open>sdiv\<close>), and are
  reduced when stored. \<open>XTAL_TO_PLL_RATIO\<close> is a \<open>double\<close> in C because one of its branches is
  \<open>833.3333\<close>: where it meets a \<open>uint32_t\<close> the difference is converted back from \<open>double\<close>, which is
  undefined when negative, here \<open>None\<close>. The model is the build with one radio.
\<close>

datatype frame_type = FRAME_RX | FRAME_TX

record tdma_sync =
  td_sleep_mode :: sleep_lvl
  setup_time_pll_cycles :: u16
  slave_sync_state :: bool
  fast_sync_enable :: bool
  frame_lost_max_duration :: u32
  sync_slave_offset :: i32
  sync_slave_offset_chip_rate :: chip_rate_cfg
  previous_frame_type :: frame_type
  frame_lost_duration :: u32
  sleep_cycles_value :: u32
  timeout_value :: u32
  pwr_up_delay_pll_cycles :: u16
  pwr_up_value :: u16
  td_isi_mitig :: isi_mitig
  isi_mitig_pauses :: u8
  tx_jitter_enabled :: bool
  sfd_size_bits :: u8
  preamble_size_bits :: u16
  xtal_cycle_offset :: u32
  td_chip_rate :: chip_rate_cfg
  ts_duration_pll_cycles :: u32
  free_running_timer :: u64
  last_timer_increment :: u32

section \<open>Constants and rates\<close>

definition STATE_SYNCING :: bool where "STATE_SYNCING = False"
definition STATE_SYNCED :: bool where "STATE_SYNCED = True"
definition UNSYNC_OFFSET_PLL_CYCLES :: i32 where "UNSYNC_OFFSET_PLL_CYCLES = 800"
definition RANDOM_OFFSET_COUNT :: nat where "RANDOM_OFFSET_COUNT = 17"
definition DEEP_TO_SHALLOW_XTAL_CYCLES :: u32 where "DEEP_TO_SHALLOW_XTAL_CYCLES = 97"
definition SLPPERIOD_OFFSET :: u32 where "SLPPERIOD_OFFSET = 1"
definition TDMA_BASE_PHY_RATE :: chip_rate_cfg where "TDMA_BASE_PHY_RATE = CHIP_RATE_40_96_MHZ"
definition CCA_BASE_PHY_RATE :: chip_rate_cfg where "CCA_BASE_PHY_RATE = CHIP_RATE_20_48_MHZ"
definition SCHEDULER_BASE_PHY_RATE :: chip_rate_cfg where "SCHEDULER_BASE_PHY_RATE = CHIP_RATE_20_48_MHZ"

text \<open>The ratio and the window of the crystal edge for the base rate: 1250, 625, 50, 600 and 650.\<close>

definition XTAL_TO_PLL_RATIO_BASE :: int where "XTAL_TO_PLL_RATIO_BASE = 1250"
definition XTAL_RESET_PLL_CYCLE :: u32 where "XTAL_RESET_PLL_CYCLE = word_of_int (XTAL_TO_PLL_RATIO_BASE div 2)"
definition METASTABILITY_WINDOW_WIDTH_PLL_CYCLE :: u32 where
  "METASTABILITY_WINDOW_WIDTH_PLL_CYCLE = word_of_int (XTAL_TO_PLL_RATIO_BASE * 4 div 100)"
definition METASTABILITY_WINDOW_LOWER_BOUND :: u32 where
  "METASTABILITY_WINDOW_LOWER_BOUND = XTAL_RESET_PLL_CYCLE - METASTABILITY_WINDOW_WIDTH_PLL_CYCLE div 2"
definition METASTABILITY_WINDOW_UPPER_BOUND :: u32 where
  "METASTABILITY_WINDOW_UPPER_BOUND = XTAL_RESET_PLL_CYCLE + METASTABILITY_WINDOW_WIDTH_PLL_CYCLE div 2"

definition rand_offset_table :: "int list" where
  "rand_offset_table = [-32, -28, -24, -20, -16, -12, -8, -4, 0, 4, 8, 12, 16, 20, 24, 28, 32]"

fun PLL_FREQ_HZ :: "chip_rate_cfg \<Rightarrow> int" where
  "PLL_FREQ_HZ CHIP_RATE_40_96_MHZ = 40960000"
| "PLL_FREQ_HZ CHIP_RATE_27_30_MHZ = 27306666"
| "PLL_FREQ_HZ CHIP_RATE_20_48_MHZ = 20480000"

fun PLL_FREQ_KHZ :: "chip_rate_cfg \<Rightarrow> nat" where
  "PLL_FREQ_KHZ CHIP_RATE_40_96_MHZ = 40960"
| "PLL_FREQ_KHZ CHIP_RATE_27_30_MHZ = 27306"
| "PLL_FREQ_KHZ CHIP_RATE_20_48_MHZ = 20480"

text \<open>Conversion of a \<open>double\<close> that holds an integer to \<open>uint32_t\<close>.\<close>

definition double_to_u32 :: "int \<Rightarrow> u32 option" where
  "double_to_u32 x = (if 0 \<le> x \<and> x < 2 ^ 32 then Some (word_of_int x) else None)"

fun mul_xtal_to_pll_ratio :: "u32 \<Rightarrow> chip_rate_cfg \<Rightarrow> u32 option" where
  "mul_xtal_to_pll_ratio v CHIP_RATE_20_48_MHZ = double_to_u32 (uint v * 625)"
| "mul_xtal_to_pll_ratio v CHIP_RATE_27_30_MHZ = Some (v * 2500 div 3)"
| "mul_xtal_to_pll_ratio v CHIP_RATE_40_96_MHZ = double_to_u32 (uint v * 1250)"

fun div_pll_ratio :: "u32 \<Rightarrow> chip_rate_cfg \<Rightarrow> u32" where
  "div_pll_ratio v CHIP_RATE_20_48_MHZ = v div 625"
| "div_pll_ratio v CHIP_RATE_27_30_MHZ = (push_bit 1 v + v) div 2500"
| "div_pll_ratio v CHIP_RATE_40_96_MHZ = v div 1250"

fun mod_pll_ratio :: "u32 \<Rightarrow> chip_rate_cfg \<Rightarrow> u32" where
  "mod_pll_ratio v CHIP_RATE_20_48_MHZ = v mod 625"
| "mod_pll_ratio v CHIP_RATE_27_30_MHZ = ((push_bit 1 v + v) mod 2500) div 3"
| "mod_pll_ratio v CHIP_RATE_40_96_MHZ = v mod 1250"

fun convert_pll_cycle_base :: "int \<Rightarrow> chip_rate_cfg \<Rightarrow> chip_rate_cfg \<Rightarrow> int" where
  "convert_pll_cycle_base n CHIP_RATE_20_48_MHZ CHIP_RATE_20_48_MHZ = n"
| "convert_pll_cycle_base n CHIP_RATE_20_48_MHZ CHIP_RATE_27_30_MHZ = (n * 4) sdiv 3"
| "convert_pll_cycle_base n CHIP_RATE_20_48_MHZ CHIP_RATE_40_96_MHZ = n * 2"
| "convert_pll_cycle_base n CHIP_RATE_27_30_MHZ CHIP_RATE_20_48_MHZ = (n * 3) sdiv 4"
| "convert_pll_cycle_base n CHIP_RATE_27_30_MHZ CHIP_RATE_27_30_MHZ = n"
| "convert_pll_cycle_base n CHIP_RATE_27_30_MHZ CHIP_RATE_40_96_MHZ = (n * 3) sdiv 2"
| "convert_pll_cycle_base n CHIP_RATE_40_96_MHZ CHIP_RATE_20_48_MHZ = n sdiv 2"
| "convert_pll_cycle_base n CHIP_RATE_40_96_MHZ CHIP_RATE_27_30_MHZ = (n * 2) sdiv 3"
| "convert_pll_cycle_base n CHIP_RATE_40_96_MHZ CHIP_RATE_40_96_MHZ = n"

section \<open>The sleep time\<close>

text \<open>The slave offset and the previous power-up delay enter the duration.\<close>

definition sync_duration :: "u32 \<Rightarrow> sleep_lvl \<Rightarrow> tdma_sync \<Rightarrow> u32" where
  "sync_duration d mode t =
     (let d1 = (if sync_slave_offset t \<noteq> 0
                then d + word_of_int (convert_pll_cycle_base (sint (sync_slave_offset t)) (sync_slave_offset_chip_rate t) TDMA_BASE_PHY_RATE)
                else d)
      in if mode = SLEEP_IDLE then d1 + ucast (pwr_up_delay_pll_cycles t) else d1)"

text \<open>The duration after the corrections for a change of the sleep level.\<close>

definition sync_transition :: "u32 \<Rightarrow> sleep_lvl \<Rightarrow> sleep_lvl \<Rightarrow> u32 \<Rightarrow> u32 option" where
  "sync_transition d prev mode xtal_offset =
     (case mul_xtal_to_pll_ratio DEEP_TO_SHALLOW_XTAL_CYCLES TDMA_BASE_PHY_RATE of
        None \<Rightarrow> None
      | Some startup \<Rightarrow>
         (let d1 = (if prev \<noteq> SLEEP_DEEP \<and> mode = SLEEP_DEEP then d - startup else d);
              d2 = (if prev = SLEEP_DEEP \<and> mode = SLEEP_SHALLOW then d1 + startup else d1)
          in if prev = SLEEP_IDLE \<and> mode \<noteq> SLEEP_IDLE
             then (case double_to_u32 (uint d2 - (XTAL_TO_PLL_RATIO_BASE - uint xtal_offset)) of
                     None \<Rightarrow> None
                   | Some d3 \<Rightarrow> if xtal_offset \<ge> XTAL_RESET_PLL_CYCLE
                                then double_to_u32 (uint d3 - XTAL_TO_PLL_RATIO_BASE) else Some d3)
             else Some d2))"

text \<open>The register values; the last part of \<open>sync_update\<close>.\<close>

definition sync_sleep :: "u32 \<Rightarrow> tdma_sync \<Rightarrow> tdma_sync" where
  "sync_sleep d t =
     (if td_sleep_mode t = SLEEP_SHALLOW \<or> td_sleep_mode t = SLEEP_DEEP
      then t\<lparr>sleep_cycles_value := div_pll_ratio (d + ucast (pwr_up_delay_pll_cycles t)) TDMA_BASE_PHY_RATE - SLPPERIOD_OFFSET,
             pwr_up_delay_pll_cycles := ucast (mod_pll_ratio (d + ucast (pwr_up_delay_pll_cycles t)) TDMA_BASE_PHY_RATE)\<rparr>
      else (let cycles = word_of_int (convert_pll_cycle_base (uint d) TDMA_BASE_PHY_RATE (td_chip_rate t) - uint SLPPERIOD_OFFSET);
                off = mod_pll_ratio (xtal_cycle_offset t + d) TDMA_BASE_PHY_RATE;
                two_window_width = push_bit 1 METASTABILITY_WINDOW_WIDTH_PLL_CYCLE
            in if off \<ge> METASTABILITY_WINDOW_LOWER_BOUND \<and> off \<le> METASTABILITY_WINDOW_UPPER_BOUND
               then t\<lparr>sleep_cycles_value := cycles -
                          word_of_int (convert_pll_cycle_base (uint two_window_width) TDMA_BASE_PHY_RATE (td_chip_rate t)),
                      pwr_up_delay_pll_cycles := ucast two_window_width, xtal_cycle_offset := off - two_window_width\<rparr>
               else t\<lparr>sleep_cycles_value := cycles, pwr_up_delay_pll_cycles := 0, xtal_cycle_offset := off\<rparr>))"

definition sync_update :: "u32 \<Rightarrow> sleep_lvl \<Rightarrow> tdma_sync \<Rightarrow> tdma_sync option" where
  "sync_update duration mode t =
     (let d = sync_duration duration mode t;
          off = (if td_sleep_mode t \<noteq> SLEEP_IDLE \<and> mode = SLEEP_IDLE then 0 else xtal_cycle_offset t)
      in map_option (\<lambda>d'. let t1 = sync_sleep d' (t\<lparr>sync_slave_offset := 0, xtal_cycle_offset := off, td_sleep_mode := mode\<rparr>)
           in t1\<lparr>ts_duration_pll_cycles := ts_duration_pll_cycles t1 + d', free_running_timer := free_running_timer t1 + ucast d',
                 last_timer_increment := d',
                 pwr_up_value := word_of_int (convert_pll_cycle_base (uint (pwr_up_delay_pll_cycles t1)) TDMA_BASE_PHY_RATE (td_chip_rate t1))\<rparr>)
         (sync_transition d (td_sleep_mode t) mode off))"

section \<open>Transmission and reception\<close>

definition link_tdma_sync_get_isi_mitigation_pauses :: "isi_mitig \<Rightarrow> u8" where
  "link_tdma_sync_get_isi_mitigation_pauses m =
     (case m of ISI_MITIG_0 \<Rightarrow> 0 | ISI_MITIG_1 \<Rightarrow> 1 | ISI_MITIG_2 \<Rightarrow> 2 | ISI_MITIG_3 \<Rightarrow> 2)"

text \<open>
  The object after \<open>memset\<close>; the product with the set-up time is an \<open>int\<close> for the 7 microseconds of
  the only caller.
\<close>

definition link_tdma_sync_init ::
  "sleep_lvl \<Rightarrow> u16 \<Rightarrow> u32 \<Rightarrow> u8 \<Rightarrow> u16 \<Rightarrow> isi_mitig \<Rightarrow> u8 \<Rightarrow> bool \<Rightarrow> bool \<Rightarrow> chip_rate_cfg \<Rightarrow> tdma_sync" where
  "link_tdma_sync_init mode setup_time_us lost_max sfd_size preamble_size isi pauses fast jitter rate =
     \<lparr>td_sleep_mode = mode,
      setup_time_pll_cycles = word_of_int (uint setup_time_us * PLL_FREQ_HZ TDMA_BASE_PHY_RATE div 1000000),
      slave_sync_state = STATE_SYNCING, fast_sync_enable = fast, frame_lost_max_duration = lost_max,
      sync_slave_offset = 0, sync_slave_offset_chip_rate = CHIP_RATE_20_48_MHZ, previous_frame_type = FRAME_RX,
      frame_lost_duration = 0, sleep_cycles_value = 0, timeout_value = 0, pwr_up_delay_pll_cycles = 0,
      pwr_up_value = 0, td_isi_mitig = isi, isi_mitig_pauses = pauses, tx_jitter_enabled = jitter,
      sfd_size_bits = sfd_size, preamble_size_bits = preamble_size, xtal_cycle_offset = 0, td_chip_rate = rate,
      ts_duration_pll_cycles = 0, free_running_timer = 0, last_timer_increment = 0\<rparr>"

definition link_tdma_get_rx_timeout_base_value :: "tdma_sync \<Rightarrow> chip_rate_cfg \<Rightarrow> u32" where
  "link_tdma_get_rx_timeout_base_value t rate =
     word_of_int (convert_pll_cycle_base (2 * uint (setup_time_pll_cycles t)) TDMA_BASE_PHY_RATE rate +
       uint (preamble_size_bits t) + uint (sfd_size_bits t))"

text \<open>\<open>r\<close> is the number \<open>rand\<close> gives.\<close>

definition link_tdma_sync_update_tx ::
  "nat \<Rightarrow> u32 \<Rightarrow> link_cca \<Rightarrow> sleep_lvl \<Rightarrow> chip_rate_cfg \<Rightarrow> tdma_sync \<Rightarrow> tdma_sync option" where
  "link_tdma_sync_update_tx r duration cca mode rate t =
     (let random_offset = (if tx_jitter_enabled t then rand_offset_table ! (r mod RANDOM_OFFSET_COUNT) else 0);
          d1 = word_of_int (convert_pll_cycle_base (uint (duration + word_of_int random_offset)) SCHEDULER_BASE_PHY_RATE TDMA_BASE_PHY_RATE);
          d2 = (if previous_frame_type t = FRAME_RX
                then d1 + ucast (setup_time_pll_cycles t) -
                     word_of_int (convert_pll_cycle_base (uint (on_time_pll_cycles cca)) CCA_BASE_PHY_RATE TDMA_BASE_PHY_RATE)
                else d1)
      in map_option (\<lambda>t1. t1\<lparr>timeout_value := link_tdma_get_rx_timeout_base_value t1 rate\<rparr>)
           (sync_update d2 mode (t\<lparr>td_chip_rate := rate, previous_frame_type := FRAME_TX\<rparr>)))"

definition link_tdma_sync_update_rx ::
  "u32 \<Rightarrow> link_cca \<Rightarrow> sleep_lvl \<Rightarrow> chip_rate_cfg \<Rightarrow> tdma_sync \<Rightarrow> tdma_sync option" where
  "link_tdma_sync_update_rx duration cca mode rate t =
     (let d1 = word_of_int (convert_pll_cycle_base (uint duration) SCHEDULER_BASE_PHY_RATE TDMA_BASE_PHY_RATE);
          d2 = (if previous_frame_type t = FRAME_TX
                then d1 - ucast (setup_time_pll_cycles t) +
                     word_of_int (convert_pll_cycle_base (uint (on_time_pll_cycles cca)) CCA_BASE_PHY_RATE TDMA_BASE_PHY_RATE)
                else d1);
          cca_offset = word_of_int (convert_pll_cycle_base (uint (rx_timeout_offset_pll_cycles cca)) CCA_BASE_PHY_RATE rate)
      in map_option (\<lambda>t1. t1\<lparr>timeout_value := link_tdma_get_rx_timeout_base_value t1 rate + cca_offset + ucast (pwr_up_value t1)\<rparr>)
           (sync_update d2 mode (t\<lparr>td_chip_rate := rate, previous_frame_type := FRAME_RX\<rparr>)))"

section \<open>Following the coordinator\<close>

definition slave_calculate_offset :: "u16 \<Rightarrow> u16 \<Rightarrow> i32" where
  "slave_calculate_offset target waited =
     (if waited > target then word_of_int (uint waited - uint target)
      else if waited < target then word_of_int (- (uint target - uint waited))
      else 0)"

definition slave_adjust_frame_rx :: "u16 \<Rightarrow> link_cca \<Rightarrow> u8 \<Rightarrow> tdma_sync \<Rightarrow> tdma_sync" where
  "slave_adjust_frame_rx waited cca retries t =
     (let target = word_of_int (convert_pll_cycle_base (uint (setup_time_pll_cycles t)) TDMA_BASE_PHY_RATE (td_chip_rate t) +
                     uint (preamble_size_bits t) + uint (sfd_size_bits t));
          cca_waited = word_of_int (convert_pll_cycle_base
                     ((uint (retry_time_pll_cycles cca) + uint (on_time_pll_cycles cca)) * uint retries) CCA_BASE_PHY_RATE (td_chip_rate t));
          fast = (fast_sync_enable t \<and> slave_sync_state t = STATE_SYNCING);
          t1 = (if fast then t\<lparr>pwr_up_value := 0\<rparr> else t);
          waited1 = waited - pwr_up_value t1;
          target1 = target + cca_waited;
          target2 = (if retries = link_cca_get_highest_try_count cca \<and> fail_action cca = CCA_FAIL_ACTION_TX
                     then target1 - word_of_int (convert_pll_cycle_base (uint (on_time_pll_cycles cca)) CCA_BASE_PHY_RATE (td_chip_rate t))
                     else target1)
      in t1\<lparr>frame_lost_duration := 0, ts_duration_pll_cycles := 0,
            sync_slave_offset := (if fast then word_of_int (- uint (target2 :: u16)) else slave_calculate_offset target2 waited1),
            sync_slave_offset_chip_rate := td_chip_rate t, slave_sync_state := STATE_SYNCED\<rparr>)"

definition slave_adjust_frame_lost :: "tdma_sync \<Rightarrow> tdma_sync" where
  "slave_adjust_frame_lost t =
     (let t1 = t\<lparr>frame_lost_duration := frame_lost_duration t + ts_duration_pll_cycles t,
                 ts_duration_pll_cycles := 0, sync_slave_offset := 0\<rparr>
      in if frame_lost_duration t1 \<ge> frame_lost_max_duration t1
         then t1\<lparr>slave_sync_state := STATE_SYNCING, frame_lost_duration := frame_lost_max_duration t1\<rparr> else t1)"

definition link_tdma_sync_slave_adjust :: "frame_outcome \<Rightarrow> u16 \<Rightarrow> link_cca \<Rightarrow> u8 \<Rightarrow> tdma_sync \<Rightarrow> tdma_sync" where
  "link_tdma_sync_slave_adjust outcome waited cca retries t =
     (if outcome = FRAME_RECEIVED then slave_adjust_frame_rx waited cca retries t else slave_adjust_frame_lost t)"

definition link_tdma_sync_slave_find :: "frame_outcome \<Rightarrow> u16 \<Rightarrow> link_cca \<Rightarrow> u8 \<Rightarrow> tdma_sync \<Rightarrow> tdma_sync" where
  "link_tdma_sync_slave_find outcome waited cca retries t =
     (if outcome = FRAME_RECEIVED then slave_adjust_frame_rx waited cca retries t
      else t\<lparr>sync_slave_offset := UNSYNC_OFFSET_PLL_CYCLES, sync_slave_offset_chip_rate := TDMA_BASE_PHY_RATE\<rparr>)"

section \<open>Frame lengths\<close>

definition preamble_multiplier :: "sfd_length \<Rightarrow> u16" where
  "preamble_multiplier l = (case l of SFD_LENGTH_64_1BIT_PPM \<Rightarrow> 2 | _ \<Rightarrow> 1)"

text \<open>The values are \<open>uint16_t\<close> and computed with in \<open>int\<close>.\<close>

definition link_tdma_get_preamble_reg_value :: "u8 \<Rightarrow> u32 \<Rightarrow> sfd_length \<Rightarrow> u16" where
  "link_tdma_get_preamble_reg_value pauses len l =
     (let cps = uint pauses + 2; symbols = uint (ucast (len div word_of_int cps) :: u16)
      in word_of_int (((symbols - 1) - (48 div cps)) sdiv (4 * uint (preamble_multiplier l))))"

definition preamble_symbols :: "u8 \<Rightarrow> u32 \<Rightarrow> sfd_length \<Rightarrow> u16" where
  "preamble_symbols pauses reg l =
     ucast (push_bit 2 reg * ucast (preamble_multiplier l) + word_of_int (48 div (uint pauses + 2)) + 1)"

definition link_tdma_get_preamble_length :: "u8 \<Rightarrow> u32 \<Rightarrow> sfd_length \<Rightarrow> u32" where
  "link_tdma_get_preamble_length pauses reg l =
     word_of_int (uint (preamble_symbols pauses reg l) * (uint pauses + 2))"

definition link_tdma_set_preamble_length :: "u8 \<Rightarrow> u32 \<Rightarrow> sfd_length \<Rightarrow> tdma_sync \<Rightarrow> tdma_sync" where
  "link_tdma_set_preamble_length pauses reg l t =
     t\<lparr>preamble_size_bits := word_of_int (uint (preamble_symbols pauses reg l) * (uint pauses + 2))\<rparr>"

definition sfd_symbols :: "sfd_length \<Rightarrow> int" where
  "sfd_symbols l = (case l of SFD_LENGTH_16_1BIT_PPM \<Rightarrow> 16 | SFD_LENGTH_32_OOK \<Rightarrow> 32 | SFD_LENGTH_32_1BIT_PPM \<Rightarrow> 32
     | SFD_LENGTH_64_1BIT_PPM \<Rightarrow> 64)"

definition sfd_multiplier :: "sfd_length \<Rightarrow> int" where
  "sfd_multiplier l = (case l of SFD_LENGTH_32_OOK \<Rightarrow> 1 | _ \<Rightarrow> 2)"

definition link_tdma_get_sfd_length :: "u8 \<Rightarrow> sfd_length \<Rightarrow> u32" where
  "link_tdma_get_sfd_length pauses l = word_of_int (sfd_symbols l * sfd_multiplier l + sfd_symbols l * uint pauses)"

definition link_tdma_set_sfd_length :: "u8 \<Rightarrow> sfd_length \<Rightarrow> tdma_sync \<Rightarrow> tdma_sync" where
  "link_tdma_set_sfd_length pauses l t =
     t\<lparr>sfd_size_bits := word_of_int (sfd_symbols l * sfd_multiplier l + sfd_symbols l * uint pauses)\<rparr>"

definition link_tdma_update_isi_mitig_pauses :: "isi_mitig \<Rightarrow> tdma_sync \<Rightarrow> tdma_sync" where
  "link_tdma_update_isi_mitig_pauses m t =
     (let prev = isi_mitig_pauses t; prev_cps = uint (prev + 2 :: u8);
          pauses = link_tdma_sync_get_isi_mitigation_pauses m; new_cps = uint (pauses + 2 :: u8)
      in t\<lparr>td_isi_mitig := m, isi_mitig_pauses := pauses,
           preamble_size_bits := word_of_int (((uint (preamble_size_bits t) div prev_cps - 48 div prev_cps) + 48 div new_cps) * new_cps),
           sfd_size_bits := word_of_int (uint (sfd_size_bits t) * (uint pauses + 1) div (uint prev + 1))\<rparr>)"

section \<open>Time tracking\<close>

definition link_tdma_get_time_stamp_pll_cycles :: "tdma_sync \<Rightarrow> u64" where
  "link_tdma_get_time_stamp_pll_cycles t = free_running_timer t"

definition link_tdma_get_elapsed_time_us :: "u64 \<Rightarrow> tdma_sync \<Rightarrow> u16" where
  "link_tdma_get_elapsed_time_us previous t =
     ucast ((free_running_timer t - previous) * 1000 div of_nat (PLL_FREQ_KHZ TDMA_BASE_PHY_RATE))"

definition link_tdma_get_last_timer_increment_us :: "tdma_sync \<Rightarrow> u16" where
  "link_tdma_get_last_timer_increment_us t =
     ucast (ucast (last_timer_increment t) * 1000 div of_nat (PLL_FREQ_KHZ TDMA_BASE_PHY_RATE) :: u64)"

definition link_tdma_sync_get_sleep_cycles :: "tdma_sync \<Rightarrow> u32" where
  "link_tdma_sync_get_sleep_cycles t = sleep_cycles_value t"

definition link_tdma_sync_get_timeout :: "tdma_sync \<Rightarrow> u32" where
  "link_tdma_sync_get_timeout t = timeout_value t"

definition link_tdma_sync_get_pwr_up :: "tdma_sync \<Rightarrow> u16" where
  "link_tdma_sync_get_pwr_up t = pwr_up_value t"

definition link_tdma_sync_is_slave_synced :: "tdma_sync \<Rightarrow> bool" where
  "link_tdma_sync_is_slave_synced t = slave_sync_state t"

section \<open>Constants\<close>

lemmas tdma_constants = XTAL_TO_PLL_RATIO_BASE_def XTAL_RESET_PLL_CYCLE_def METASTABILITY_WINDOW_WIDTH_PLL_CYCLE_def
  METASTABILITY_WINDOW_LOWER_BOUND_def METASTABILITY_WINDOW_UPPER_BOUND_def TDMA_BASE_PHY_RATE_def
  DEEP_TO_SHALLOW_XTAL_CYCLES_def SLPPERIOD_OFFSET_def

text \<open>The start-up time from deep sleep can be converted.\<close>

lemma uint_startup: "mul_xtal_to_pll_ratio DEEP_TO_SHALLOW_XTAL_CYCLES TDMA_BASE_PHY_RATE = Some 121250"
  by (simp add: tdma_constants double_to_u32_def)

end
