(* ===== verification/Mac_State.thy ===== *)
theory Mac_State
  imports Scheduler Xlayer_Queue Circular_Data Saw_Arq Link_Status Link_Quality Link_Protocol Channel_Hopping
    Rate_Offset Wps_Callback Tdma_Sync
begin

text \<open>
  The state of the MAC layer: \<open>wps_connection_t\<close> (\<open>wps_def.h\<close>), \<open>xlayer_cfg_internal_t\<close>
  (\<open>xlayer.h\<close>) and \<open>wps_mac_t\<close> (\<open>wps_mac_def.h\<close>), without the fields only the facade uses. A
  connection is referred to by its address; \<open>mac_conns\<close> is the store of connections, \<open>mac_heap\<close> that of
  their queues and frame nodes, \<open>mac_data\<close> that of the circular buffers and \<open>mac_mem\<close> the bytes. The type
  parameter is the instance type of the protocol tables a connection holds.

  Pointers into structures of the MAC are data: \<open>xlayer_ref\<close> for the frame descriptors,
  \<open>channel_ref\<close> for the channel tables, the index of the slot for the time slot. A callback of a
  connection is kept with its argument and the application's connection. \<open>conn_tick\<close> is what
  \<open>cfg.get_tick\<close> returns during the interrupt. The build is the default one: one radio, no
  statistics per band.
\<close>

datatype wps_role = NETWORK_COORDINATOR | NETWORK_NODE

datatype wps_mac_output_signal =
    MAC_SIGNAL_WPS_EMPTY
  | MAC_SIGNAL_WPS_FRAME_RX_SUCCESS
  | MAC_SIGNAL_WPS_FRAME_RX_FAIL
  | MAC_SIGNAL_WPS_FRAME_RX_OVERRUN
  | MAC_SIGNAL_WPS_TX_SUCCESS
  | MAC_SIGNAL_WPS_TX_FAIL
  | MAC_SIGNAL_WPS_TX_DROP
  | MAC_SIGNAL_WPS_PREPARE_DONE
  | MAC_SIGNAL_SYNCING

text \<open>The protocol identifiers, with their values.\<close>

datatype wps_mac_proto_id =
    MAC_PROTO_ID_TIMESLOT_SAW
  | MAC_PROTO_ID_CHANNEL_INDEX
  | MAC_PROTO_ID_RDO
  | MAC_PROTO_ID_RANGING_RESPONDER
  | MAC_PROTO_ID_RANGING_INITIATOR
  | MAC_PROTO_ID_CONNECTION_ID
  | MAC_PROTO_ID_CREDIT_FC
  | MAC_PROTO_ID_PHY_MODE

fun proto_id_val :: "wps_mac_proto_id \<Rightarrow> u8" where
  "proto_id_val MAC_PROTO_ID_TIMESLOT_SAW = 0"
| "proto_id_val MAC_PROTO_ID_CHANNEL_INDEX = 1"
| "proto_id_val MAC_PROTO_ID_RDO = 2"
| "proto_id_val MAC_PROTO_ID_RANGING_RESPONDER = 3"
| "proto_id_val MAC_PROTO_ID_RANGING_INITIATOR = 4"
| "proto_id_val MAC_PROTO_ID_CONNECTION_ID = 5"
| "proto_id_val MAC_PROTO_ID_CREDIT_FC = 6"
| "proto_id_val MAC_PROTO_ID_PHY_MODE = 7"

text \<open>\<open>phy_mode_t\<close> is read from a header nibble, so any of its 16 values can be stored in it.\<close>

definition CHIP_RATE_20_48_ISI_2 :: u8 where "CHIP_RATE_20_48_ISI_2 = 0"
definition CHIP_RATE_27_30_ISI_2 :: u8 where "CHIP_RATE_27_30_ISI_2 = 1"
definition CHIP_RATE_20_48_ISI_1 :: u8 where "CHIP_RATE_20_48_ISI_1 = 2"
definition CHIP_RATE_27_30_ISI_1 :: u8 where "CHIP_RATE_27_30_ISI_1 = 3"
definition CHIP_RATE_40_96_ISI_1 :: u8 where "CHIP_RATE_40_96_ISI_1 = 4"

definition CHIP_RATE_COUNT_DOWN_VAL :: u8 where "CHIP_RATE_COUNT_DOWN_VAL = 14"
definition CHIP_RATE_COUNT_DOWN_INACTIVE :: u8 where "CHIP_RATE_COUNT_DOWN_INACTIVE = 0x0f"

text \<open>The signals of the physical layer (\<open>wps_phy_def.h\<close>).\<close>

datatype phy_input_signal =
  PHY_SIGNAL_RADIO_IRQ | PHY_SIGNAL_DMA_CMPLT | PHY_SIGNAL_PREPARE_RADIO | PHY_SIGNAL_SYNCING

datatype phy_output_signal =
    PHY_SIGNAL_NONE
  | PHY_SIGNAL_PROCESSING
  | PHY_SIGNAL_YIELD
  | PHY_SIGNAL_CONFIG_COMPLETE
  | PHY_SIGNAL_BLOCKING_CONFIG_DONE
  | PHY_SIGNAL_CONNECT
  | PHY_SIGNAL_PREPARE_DONE
  | PHY_SIGNAL_FRAME_SENT_ACK
  | PHY_SIGNAL_FRAME_SENT_NACK
  | PHY_SIGNAL_FRAME_NOT_SENT
  | PHY_SIGNAL_FRAME_RECEIVED
  | PHY_SIGNAL_FRAME_MISSED
  | PHY_SIGNAL_ERROR

datatype wps_input_signal =
  WPS_NOT_INIT | WPS_RADIO_IRQ | WPS_TRANSFER_COMPLETE | WPS_CONNECT | WPS_DISCONNECT | WPS_HALT | WPS_RESUME

datatype wps_event = WPS_EVENT_NONE | WPS_EVENT_ERROR | WPS_EVENT_CONNECT | WPS_EVENT_DISCONNECT

datatype wps_ranging_mode =
    WPS_RANGING_DISABLED
  | WPS_RANGING_STANDALONE_INITIATOR
  | WPS_RANGING_STANDALONE_RESPONDER
  | WPS_RANGING_INITIATOR_TX
  | WPS_RANGING_INITIATOR_RX
  | WPS_RANGING_RESPONDER_TX
  | WPS_RANGING_RESPONDER_RX

record wps_phase_info =
  last_local_phases_info :: phase_info
  local_phases_info :: phase_info
  remote_phases_info :: phase_info
  local_phases_count :: u8
  remote_phases_count :: u8

record wps_stats =
  st_tx_success :: u32
  st_tx_byte_sent :: u32
  st_tx_drop :: u32
  st_tx_fail :: u32
  st_rx_received :: u32
  st_rx_byte_received :: u32
  st_rx_overrun :: u32
  st_cca_pass :: u32
  st_cca_tx_fail :: u32
  st_cca_fail :: u32

text \<open>A pointer to a frame descriptor: one of the MAC's own, or that of a node.\<close>

datatype xlayer_ref = XL_EMPTY_TX | XL_EMPTY_RX | XL_EMPTY_AUTO | XL_NODE nat

text \<open>
  A pointer to a channel: the entry of a table of a connection, by channel, after the fall-back index
  where there is one, or the muted channel of the MAC.
\<close>

datatype channel_ref =
    CHANNEL_20_48 nat u32
  | CHANNEL_40_96 nat u32
  | FALLBACK_CHANNEL_20_48 nat u8 u32
  | FALLBACK_CHANNEL_40_96 nat u8 u32
  | MUTED_TRANSFER_CHANNEL

datatype payload_buffer_update = UPDATE_MAIN_RX_PAYLOAD_BUFFER | UPDATE_AUTO_REPLY_RX_PAYLOAD_BUFFER

record 's wps_connection =
  conn_source_address :: u16
  conn_destination_address :: u16
  conn_header_size :: u16
  conn_ack_header_size :: u16
  conn_ranging_mode :: wps_ranging_mode
  conn_tick :: u64
  tx_sync_frame_on_syncing :: bool
  conn_payload_size :: u8
  conn_wps_event :: wps_event
  conn_wps_error :: wps_error
  ack_enable :: bool
  ack_frame_enable :: bool
  conn_link_phase :: link_phase
  auto_sync_enable :: bool
  empty_queue_max_delay :: i32
  conn_link_protocol :: "'s link_protocol"
  conn_auto_link_protocol :: "'s link_protocol"
  conn_saw_arq :: saw_arq
  conn_cca :: link_cca
  conn_link_fallback :: link_fallback
  conn_connect_status :: link_connect_status
  certification_mode_enabled :: bool
  conn_credit_flow_ctrl :: credit_flow_ctrl
  send_sync_frame :: bool
  conn_lqi :: lqi
  conn_used_frame_lqi :: lqi
  conn_wps_stats :: wps_stats
  total_cca_events :: u32
  total_cca_fail_count :: u32
  total_cca_tx_fail_count :: u32
  total_pkt_dropped :: u32
  pattern_count :: u8
  active_ratio :: u8
  pattern_total_count :: u8
  conn_currently_enabled :: bool
  conn_pattern :: "bool list option"
  conn_gain_loop :: "gain_loop list"
  conn_free_tx_queue :: nat
  conn_free_rx_queue :: nat
  conn_xlayer_queue :: nat
  conn_rx_queue :: nat
  conn_tx_node :: "nat option"
  conn_tx_data :: nat
  conn_rx_data :: nat
  conn_modulation :: nat
  conn_chip_repet :: nat
  conn_fec :: nat
  max_channel_count :: u8
  conn_tx_success :: wps_callback_inst
  conn_tx_fail :: wps_callback_inst
  conn_tx_drop :: wps_callback_inst
  conn_rx_success :: wps_callback_inst
  conn_ranging_data_ready :: wps_callback_inst
  conn_evt :: wps_callback_inst
  tx_flush :: bool
  conn_is_main :: bool
  conn_time_stamp_us :: u64
  conn_elapsed_time_us :: u32

record xlayer_cfg_internal =
  ci_expect_ack :: bool
  ci_modulation :: nat
  ci_chip_repet :: nat
  ci_fec :: nat
  ci_channel :: channel_ref
  ci_gain_loop :: "nat \<times> u8"
  ci_power_up_delay :: u16
  ci_rx_timeout :: u16
  ci_sleep_time :: u32
  ci_rx_wait_time :: u16
  ci_cca_threshold :: u8
  ci_cca_on_time :: u16
  ci_cca_retry_time :: u16
  ci_cca_max_try_count :: u8
  ci_phase_offset :: "u8 list"
  ci_phase_offset_count :: u8
  ci_cca_fail_action :: cca_fail_action
  ci_cca_try_count :: u8
  ci_rnsi_raw :: u32
  ci_rssi_raw :: u32
  ci_sleep_level :: sleep_lvl
  ci_next_sleep_level :: sleep_lvl
  ci_phases_info :: bool
  ci_rx_cca_retry_count :: u8
  ci_isi_mitig :: isi_mitig
  ci_certification_header_en :: bool
  ci_max_expected_header_size :: u8
  ci_max_expected_payload_size :: u8
  ci_chip_rate :: chip_rate_cfg
  ci_max_expected_auto_header_size :: u8
  ci_max_expected_auto_payload_size :: u8
  ci_callback_main :: wps_callback_inst
  ci_callback_auto :: wps_callback_inst
  ci_update_payload_buffer :: payload_buffer_update

text \<open>The statistics entries (\<open>wps_mac_statistics.h\<close>).\<close>

record wps_mac_stats_entry =
  se_connection :: "nat option"
  se_phase_offset :: "u8 list"
  se_phase_offset_count :: u8
  se_channel_index :: u8
  se_rssi :: u8
  se_rnsi :: u8
  se_frame_outcome :: frame_outcome
  se_empty_frame :: bool

record wps_mac_stats =
  input_data :: "wps_mac_stats_entry list"
  no_space_counter :: u16

text \<open>The calls the MAC makes into the physical layer, in order, and the requests of the application.\<close>

datatype reg_write_cfg = WRITE_ONCE | WRITE_PERIODIC

datatype phy_call =
    PHY_SET_INPUT_SIGNAL phy_input_signal
  | PHY_SET_MAIN_XLAYER "xlayer_ref option"
  | PHY_SET_AUTO_XLAYER "xlayer_ref option"
  | PHY_PREPARE_FRAME
  | PHY_DISCONNECT
  | PHY_WRITE_REGISTER u8 u16 reg_write_cfg
  | PHY_READ_REGISTER u8 nat nat

record wps_schedule_ratio_cfg =
  rc_active_ratio :: u8
  rc_pattern_total_count :: u8
  rc_pattern_current_count :: u8
  rc_target_conn :: nat
  rc_pattern_cfg :: "bool list"

datatype xlayer_request =
    REQUEST_NONE
  | REQUEST_MAC_CHANGE_SCHEDULE_RATIO wps_schedule_ratio_cfg
  | REQUEST_PHY_WRITE_REG u8 u16 reg_write_cfg
  | REQUEST_PHY_READ_REG u8 nat nat
  | REQUEST_PHY_DISCONNECT

record 's wps_mac =
  input_main_signal :: phy_output_signal
  input_auto_signal :: phy_output_signal
  mac_main_signal :: wps_mac_output_signal
  mac_auto_signal :: wps_mac_output_signal
  timeslot_ptr :: nat
  mac_scheduler :: scheduler
  mac_channel_hopping :: channel_hopping
  channel_index :: u8
  mac_network_id :: u8
  fast_sync_enabled :: bool
  delay_in_last_timeslot :: bool
  last_timeslot_delay :: u16
  local_address :: u16
  syncing_address :: u16
  mac_tdma_sync :: tdma_sync
  ts_increment_count :: u8
  node_role :: wps_role
  empty_frame_tx :: xlayer
  empty_frame_rx :: xlayer
  empty_auto_reply_frame :: xlayer
  main_xlayer :: "xlayer_ref option"
  auto_xlayer :: "xlayer_ref option"
  mac_config :: xlayer_cfg_internal
  mac_link_rdo :: link_rdo
  mac_link_ddcm :: link_ddcm
  rx_node :: "nat option"
  main_connection_id :: u8
  auto_connection_id :: u8
  main_ack_connection_id :: u8
  main_connection :: "nat option"
  auto_connection :: "nat option"
  phase_data :: wps_phase_info
  max_expected_header_size :: u8
  max_expected_payload_size :: u8
  max_expected_header_size_auto :: u8
  max_expected_payload_size_auto :: u8
  current_chip_rate :: chip_rate_cfg
  next_chip_rate :: chip_rate_cfg
  current_isi_mitig :: isi_mitig
  next_isi_mitig :: isi_mitig
  requested_phy_mode :: u8
  current_phy_mode :: u8
  phy_mode_swap_count_down :: u8
  dynamic_phy_mode_en :: bool
  connection_list :: "nat list"
  last_timer_increment_us :: u32
  context_switches :: nat
  mac_callback_queue :: callback_queue
  request_queue :: "xlayer_request list"
  schedule_ratio_cfg_queue :: "wps_schedule_ratio_cfg list"
  write_request_queue :: "(u8 \<times> u16 \<times> reg_write_cfg) list"
  read_request_queue :: "(u8 \<times> nat \<times> nat) list"
  mac_signal :: wps_input_signal
  stats_process_data :: wps_mac_stats
  phy_calls :: "phy_call list"
  overrun_buffer :: nat
  auto_reply_buffer :: nat
  mac_conns :: "nat \<Rightarrow> 's wps_connection"
  mac_heap :: xheap
  mac_data :: "nat \<Rightarrow> xlayer_circular_data"
  mac_mem :: "nat \<Rightarrow> byte"

text \<open>The slot the pointer \<open>timeslot\<close> refers to, and the frame descriptor behind a pointer.\<close>

definition mac_timeslot :: "'s wps_mac \<Rightarrow> timeslot" where
  "mac_timeslot m = sched_slot (mac_scheduler m) (timeslot_ptr m)"

definition xlayer_at :: "'s wps_mac \<Rightarrow> xlayer_ref \<Rightarrow> xlayer" where
  "xlayer_at m r = (case r of XL_EMPTY_TX \<Rightarrow> empty_frame_tx m | XL_EMPTY_RX \<Rightarrow> empty_frame_rx m
     | XL_EMPTY_AUTO \<Rightarrow> empty_auto_reply_frame m | XL_NODE a \<Rightarrow> xn_xlayer (xnodes (mac_heap m) a))"

definition upd_xlayer :: "xlayer_ref \<Rightarrow> (xlayer \<Rightarrow> xlayer) \<Rightarrow> 's wps_mac \<Rightarrow> 's wps_mac" where
  "upd_xlayer r f m = (case r of XL_EMPTY_TX \<Rightarrow> m\<lparr>empty_frame_tx := f (empty_frame_tx m)\<rparr>
     | XL_EMPTY_RX \<Rightarrow> m\<lparr>empty_frame_rx := f (empty_frame_rx m)\<rparr>
     | XL_EMPTY_AUTO \<Rightarrow> m\<lparr>empty_auto_reply_frame := f (empty_auto_reply_frame m)\<rparr>
     | XL_NODE a \<Rightarrow> m\<lparr>mac_heap := upd_node a (\<lambda>n. n\<lparr>xn_xlayer := f (xn_xlayer n)\<rparr>) (mac_heap m)\<rparr>)"

definition main_xlayer_frame :: "'s wps_mac \<Rightarrow> xlayer_frame" where
  "main_xlayer_frame m = xl_frame (xlayer_at m (the (main_xlayer m)))"

definition auto_xlayer_frame :: "'s wps_mac \<Rightarrow> xlayer_frame" where
  "auto_xlayer_frame m = xl_frame (xlayer_at m (the (auto_xlayer m)))"

definition upd_xlayer_frame :: "xlayer_ref option \<Rightarrow> (xlayer_frame \<Rightarrow> xlayer_frame) \<Rightarrow> 's wps_mac \<Rightarrow> 's wps_mac" where
  "upd_xlayer_frame p f = upd_xlayer (the p) (\<lambda>x. x\<lparr>xl_frame := f (xl_frame x)\<rparr>)"

definition slave_synced :: "'s wps_mac \<Rightarrow> bool" where
  "slave_synced m = link_tdma_sync_is_slave_synced (mac_tdma_sync m)"

definition upd_config :: "(xlayer_cfg_internal \<Rightarrow> xlayer_cfg_internal) \<Rightarrow> 's wps_mac \<Rightarrow> 's wps_mac" where
  "upd_config f m = m\<lparr>mac_config := f (mac_config m)\<rparr>"

text \<open>
  The connection behind a pointer the code dereferences without a test; the MAC layer never runs
  without a main connection.
\<close>

definition conn_at :: "'s wps_mac \<Rightarrow> nat option \<Rightarrow> 's wps_connection" where
  "conn_at m p = mac_conns m (the p)"

definition upd_conn :: "nat option \<Rightarrow> ('s wps_connection \<Rightarrow> 's wps_connection) \<Rightarrow> 's wps_mac \<Rightarrow> 's wps_mac" where
  "upd_conn p f m = m\<lparr>mac_conns := (mac_conns m)(the p := f (mac_conns m (the p)))\<rparr>"

definition upd_main_saw :: "(saw_arq \<Rightarrow> saw_arq) \<Rightarrow> 's wps_mac \<Rightarrow> 's wps_mac" where
  "upd_main_saw f m = upd_conn (main_connection m) (\<lambda>c. c\<lparr>conn_saw_arq := f (conn_saw_arq c)\<rparr>) m"

definition wps_mac_is_network_node :: "'s wps_mac \<Rightarrow> bool" where
  "wps_mac_is_network_node m = (node_role m = NETWORK_NODE)"

definition wps_mac_timeslots_is_current_timeslot_tx :: "'s wps_mac \<Rightarrow> bool" where
  "wps_mac_timeslots_is_current_timeslot_tx m =
     (conn_source_address (conn_at m (main_connection m)) = local_address m)"

definition wps_mac_timeslots_is_current_auto_reply_timeslot_tx :: "'s wps_mac \<Rightarrow> bool" where
  "wps_mac_timeslots_is_current_auto_reply_timeslot_tx m =
     (conn_source_address (conn_at m (auto_connection m)) = local_address m)"

end
