(* ===== verification/Mac_Protocols.thy ===== *)
theory Mac_Protocols
  imports Mac_State
begin

text \<open>
  The header protocols of \<open>wps_mac_protocols.c\<close>. Every protocol is a transmit function, which gives
  the bytes it writes and the new MAC state, a receive function from the bytes at its pointer,
  and a size; \<open>header_protocol\<close> bundles the three the way \<open>wps.c\<close> fills a \<open>link_protocol_info_t\<close>.
\<close>

section \<open>Channel index, time slot and rate offset\<close>

definition wps_mac_send_channel_index :: "'s wps_mac \<Rightarrow> byte list \<times> 's wps_mac" where
  "wps_mac_send_channel_index m = ([link_channel_hopping_get_seq_index (mac_channel_hopping m)], m)"

definition wps_mac_receive_channel_index :: "byte list \<Rightarrow> 's wps_mac \<Rightarrow> 's wps_mac" where
  "wps_mac_receive_channel_index bs m =
     (if node_role m = NETWORK_NODE
      then m\<lparr>mac_channel_hopping := link_channel_hopping_set_seq_index (mac_channel_hopping m) (bs ! 0)\<rparr>
      else m)"

definition wps_mac_get_channel_index_proto_size :: u8 where
  "wps_mac_get_channel_index_proto_size = 1"

definition wps_mac_send_timeslot_id_saw :: "'s wps_mac \<Rightarrow> byte list \<times> 's wps_mac" where
  "wps_mac_send_timeslot_id_saw m =
     (let index = ucast (link_scheduler_get_next_timeslot_index (mac_scheduler m)) :: u16
      in ([timeslot_id_saw_byte index (link_saw_arq_get_seq_num (conn_saw_arq (conn_at m (main_connection m))))], m))"

definition mac_adopt_timeslot :: "u8 \<Rightarrow> 's wps_mac \<Rightarrow> 's wps_mac" where
  "mac_adopt_timeslot time_slot_id m =
     (if ucast time_slot_id < sched_size (schedule (mac_scheduler m))
      then (let s = (if link_scheduler_get_next_timeslot_index (mac_scheduler m) \<noteq> time_slot_id
                     then link_scheduler_set_mismatch (mac_scheduler m) else mac_scheduler m)
            in m\<lparr>mac_scheduler := link_scheduler_set_time_slot_i s time_slot_id\<rparr>)
      else m)"

definition wps_mac_receive_timeslot_id_saw :: "byte list \<Rightarrow> 's wps_mac \<Rightarrow> 's wps_mac" where
  "wps_mac_receive_timeslot_id_saw bs m =
     (let m1 = (if node_role m = NETWORK_NODE then mac_adopt_timeslot (timeslot_id_of_byte (bs ! 0)) m else m);
          m2 = upd_main_saw (\<lambda>a. link_saw_arq_update_rx_seq_num a (seq_num_of_byte (bs ! 0))) m1;
          f = main_xlayer_frame m2
      in if header_begin_it f + unat (header_memory_size f) \<noteq> payload_end_it f \<and>
            link_saw_arq_is_rx_frame_duplicate (conn_saw_arq (conn_at m2 (main_connection m2)))
         then m2\<lparr>mac_main_signal := MAC_SIGNAL_WPS_EMPTY\<rparr> else m2)"

definition wps_mac_get_timeslot_id_saw_proto_size :: u8 where
  "wps_mac_get_timeslot_id_saw_proto_size = 1"

definition wps_mac_send_rdo :: "'s wps_mac \<Rightarrow> byte list \<times> 's wps_mac" where
  "wps_mac_send_rdo m = ([the (link_rdo_send_offset (mac_link_rdo m) (Some 0))], m)"

definition wps_mac_receive_rdo :: "byte list \<Rightarrow> 's wps_mac \<Rightarrow> 's wps_mac" where
  "wps_mac_receive_rdo bs m =
     (if node_role m = NETWORK_NODE
      then m\<lparr>mac_link_rdo := link_rdo_set_offset (mac_link_rdo m) (Some (bs ! 0))\<rparr> else m)"

definition wps_mac_get_rdo_proto_size :: u8 where
  "wps_mac_get_rdo_proto_size = 1"

section \<open>Ranging\<close>

definition update_phases_data :: "wps_phase_info \<Rightarrow> u16 \<Rightarrow> wps_phase_info" where
  "update_phases_data d wait =
     (let l = local_phases_info d; r = last_local_phases_info d in
      d\<lparr>last_local_phases_info := r\<lparr>phase1 := phase1 l, phase2 := phase2 l, phase3 := phase3 l, phase4 := phase4 l,
            rx_waited0 := ucast (wait AND 0x00ff), rx_waited1 := ucast (drop_bit 8 (wait AND 0x7f00))\<rparr>,
        local_phases_count := local_phases_count d + 1\<rparr>)"

definition is_phase_data_valid :: "wps_phase_info \<Rightarrow> bool" where
  "is_phase_data_valid d = (remote_phases_count d + 1 = local_phases_count d)"

definition wps_mac_send_ranging_phases :: "'s wps_mac \<Rightarrow> byte list \<times> 's wps_mac" where
  "wps_mac_send_ranging_phases m =
     (let d = phase_data m; l = local_phases_info d
      in ([local_phases_count d, phase1 l, phase2 l, phase3 l, phase4 l], m))"

definition wps_mac_receive_ranging_phases :: "byte list \<Rightarrow> 's wps_mac \<Rightarrow> 's wps_mac" where
  "wps_mac_receive_ranging_phases bs m =
     (let c = (case auto_connection m of None \<Rightarrow> main_connection m | Some a \<Rightarrow> Some a);
          d = (phase_data m)\<lparr>remote_phases_count := bs ! 0,
                remote_phases_info := (remote_phases_info (phase_data m))\<lparr>phase1 := bs ! 1, phase2 := bs ! 2,
                  phase3 := bs ! 3, phase4 := bs ! 4\<rparr>\<rparr>;
          m1 = m\<lparr>phase_data := d\<rparr>;
          m2 = (if is_phase_data_valid d then
                  (case link_phase_add_data (conn_link_phase (conn_at m1 c)) (last_local_phases_info d) (remote_phases_info d) of
                     (ready, lp) \<Rightarrow>
                       (let m' = upd_conn c (\<lambda>x. x\<lparr>conn_link_phase := lp\<rparr>) m1 in
                        if ready
                        then (let cb = conn_ranging_data_ready (conn_at m' c)
                              in upd_config (\<lambda>c. c\<lparr>ci_callback_auto := cb\<rparr>)
                                   (m'\<lparr>mac_callback_queue := wps_callback_enqueue (mac_callback_queue m') (Some cb)\<rparr>))
                        else m'))
                else m1)
      in m2\<lparr>phase_data := update_phases_data (phase_data m2) (ci_rx_wait_time (mac_config m2))\<rparr>)"

definition wps_mac_get_ranging_phases_proto_size :: u8 where
  "wps_mac_get_ranging_phases_proto_size = 5"

definition wps_mac_send_ranging_phase_count :: "'s wps_mac \<Rightarrow> byte list \<times> 's wps_mac" where
  "wps_mac_send_ranging_phase_count m = ([local_phases_count (phase_data m)], m)"

definition wps_mac_receive_ranging_phase_count :: "byte list \<Rightarrow> 's wps_mac \<Rightarrow> 's wps_mac" where
  "wps_mac_receive_ranging_phase_count bs m = m\<lparr>phase_data := (phase_data m)\<lparr>local_phases_count := bs ! 0\<rparr>\<rparr>"

definition wps_mac_get_ranging_phase_count_proto_size :: u8 where
  "wps_mac_get_ranging_phase_count_proto_size = 1"

section \<open>Connection identifier\<close>

definition wps_mac_send_connection_id :: "'s wps_mac \<Rightarrow> byte list \<times> 's wps_mac" where
  "wps_mac_send_connection_id m =
     ([if auto_connection m \<noteq> None \<and> conn_source_address (conn_at m (auto_connection m)) = local_address m
       then auto_connection_id m else main_connection_id m], m)"

definition wps_mac_receive_connection_id :: "byte list \<Rightarrow> 's wps_mac \<Rightarrow> 's wps_mac" where
  "wps_mac_receive_connection_id bs m =
     (let auto = auto_connection m \<noteq> None \<and> \<not> conn_source_address (conn_at m (auto_connection m)) = local_address m;
          count = connection_count (if auto then auto_conn_list (mac_timeslot m) else main_conn_list (mac_timeslot m));
          v = (if count > 1 then if bs ! 0 < count then bs ! 0 else 0 else 0)
      in if auto then m\<lparr>auto_connection_id := v\<rparr> else m\<lparr>main_connection_id := v\<rparr>)"

definition wps_mac_get_connection_id_proto_size :: u8 where
  "wps_mac_get_connection_id_proto_size = 1"

definition wps_mac_send_connection_id_header_acknowledge :: "'s wps_mac \<Rightarrow> byte list \<times> 's wps_mac" where
  "wps_mac_send_connection_id_header_acknowledge m = ([main_ack_connection_id m], m)"

definition wps_mac_receive_connection_id_header_acknowledge :: "byte list \<Rightarrow> 's wps_mac \<Rightarrow> 's wps_mac" where
  "wps_mac_receive_connection_id_header_acknowledge bs m = m\<lparr>main_ack_connection_id := bs ! 0\<rparr>"

section \<open>Credit flow control\<close>

definition CREDIT_FLOW_CONTROL_PROTO_SIZE :: u8 where "CREDIT_FLOW_CONTROL_PROTO_SIZE = 1"
definition CREDIT_FLOW_CONTROL_MAX_VALUE :: u16 where "CREDIT_FLOW_CONTROL_MAX_VALUE = 255"

definition credit_of_free_slot :: "u16 \<Rightarrow> u8" where
  "credit_of_free_slot free_slot =
     ucast (if free_slot > CREDIT_FLOW_CONTROL_MAX_VALUE then CREDIT_FLOW_CONTROL_MAX_VALUE
            else if free_slot > 0 then free_slot - 1 else free_slot)"

definition conn_free_space :: "'s wps_mac \<Rightarrow> nat option \<Rightarrow> u16" where
  "conn_free_space m p = xlayer_queue_get_free_space (Some (conn_xlayer_queue (conn_at m p))) (mac_heap m)"

definition mac_set_credits :: "nat option \<Rightarrow> u8 \<Rightarrow> 's wps_mac \<Rightarrow> 's wps_mac" where
  "mac_set_credits p n = upd_conn p (\<lambda>c. c\<lparr>conn_credit_flow_ctrl := (conn_credit_flow_ctrl c)\<lparr>credits_count := n\<rparr>\<rparr>)"

definition wps_mac_send_credit_flow_control :: "'s wps_mac \<Rightarrow> byte list \<times> 's wps_mac" where
  "wps_mac_send_credit_flow_control m =
     (let connection =
        (if wps_mac_timeslots_is_current_timeslot_tx m = False
         then link_scheduler_get_current_main_connection (mac_scheduler m) (auto_connection_id m)
         else if auto_connection m \<noteq> None
         then link_scheduler_get_current_auto_connection (mac_scheduler m) (main_connection_id m)
         else None);
          free_slot = (if connection \<noteq> None then conn_free_space m connection else 0)
      in ([credit_of_free_slot free_slot], m))"

definition wps_mac_receive_credit_flow_control :: "byte list \<Rightarrow> 's wps_mac \<Rightarrow> 's wps_mac" where
  "wps_mac_receive_credit_flow_control bs m =
     (let connection =
        (if wps_mac_timeslots_is_current_timeslot_tx m = True
         then link_scheduler_get_current_main_connection (mac_scheduler m) (auto_connection_id m)
         else if auto_connection m \<noteq> None
         then link_scheduler_get_current_auto_connection (mac_scheduler m) (main_connection_id m)
         else None)
      in if connection \<noteq> None then mac_set_credits connection (bs ! 0) m else m)"

definition wps_mac_get_credit_flow_control_proto_size :: u8 where
  "wps_mac_get_credit_flow_control_proto_size = CREDIT_FLOW_CONTROL_PROTO_SIZE"

definition wps_mac_send_credit_flow_control_header_acknowledge :: "'s wps_mac \<Rightarrow> byte list \<times> 's wps_mac" where
  "wps_mac_send_credit_flow_control_header_acknowledge m =
     ([credit_of_free_slot (conn_free_space m
         (link_scheduler_get_current_main_connection (mac_scheduler m) (main_ack_connection_id m)))], m)"

definition wps_mac_receive_credit_flow_control_header_acknowledge :: "byte list \<Rightarrow> 's wps_mac \<Rightarrow> 's wps_mac" where
  "wps_mac_receive_credit_flow_control_header_acknowledge bs m =
     mac_set_credits (link_scheduler_get_current_main_connection (mac_scheduler m) (main_ack_connection_id m)) (bs ! 0) m"

section \<open>PHY mode\<close>

definition phy_mode_rates :: "u8 \<Rightarrow> chip_rate_cfg \<times> isi_mitig" where
  "phy_mode_rates mode =
     (if mode = CHIP_RATE_20_48_ISI_2 then (CHIP_RATE_20_48_MHZ, ISI_MITIG_2)
      else if mode = CHIP_RATE_27_30_ISI_2 then (CHIP_RATE_27_30_MHZ, ISI_MITIG_2)
      else if mode = CHIP_RATE_20_48_ISI_1 then (CHIP_RATE_20_48_MHZ, ISI_MITIG_1)
      else if mode = CHIP_RATE_27_30_ISI_1 then (CHIP_RATE_27_30_MHZ, ISI_MITIG_1)
      else if mode = CHIP_RATE_40_96_ISI_1 then (CHIP_RATE_40_96_MHZ, ISI_MITIG_1)
      else (CHIP_RATE_20_48_MHZ, ISI_MITIG_1))"

definition phy_mode_count :: "'s wps_mac \<Rightarrow> 's wps_mac" where
  "phy_mode_count m =
     (if phy_mode_swap_count_down m \<noteq> CHIP_RATE_COUNT_DOWN_INACTIVE
      then (let n = phy_mode_swap_count_down m - 1
            in m\<lparr>phy_mode_swap_count_down := (if n > CHIP_RATE_COUNT_DOWN_VAL then 0 else n)\<rparr>)
      else m)"

definition phy_mode_swap :: "'s wps_mac \<Rightarrow> 's wps_mac" where
  "phy_mode_swap m =
     (if phy_mode_swap_count_down m = 0
      then m\<lparr>next_chip_rate := fst (phy_mode_rates (requested_phy_mode m)),
             next_isi_mitig := snd (phy_mode_rates (requested_phy_mode m)),
             current_phy_mode := requested_phy_mode m,
             phy_mode_swap_count_down := CHIP_RATE_COUNT_DOWN_INACTIVE\<rparr>
      else m)"

definition wps_mac_send_phy_mode :: "'s wps_mac \<Rightarrow> byte list \<times> 's wps_mac" where
  "wps_mac_send_phy_mode m =
     (let m1 = phy_mode_count m
      in ([(push_bit 4 (phy_mode_swap_count_down m1) AND 0xF0) OR requested_phy_mode m1], phy_mode_swap m1))"

definition wps_mac_receive_phy_mode :: "byte list \<Rightarrow> 's wps_mac \<Rightarrow> 's wps_mac" where
  "wps_mac_receive_phy_mode bs m =
     phy_mode_swap (m\<lparr>phy_mode_swap_count_down := drop_bit 4 (bs ! 0) AND 0x0F,
                      requested_phy_mode := bs ! 0 AND 0x0F\<rparr>)"

definition wps_mac_handle_missing_phy_mode :: "'s wps_mac \<Rightarrow> 's wps_mac" where
  "wps_mac_handle_missing_phy_mode m = phy_mode_swap (phy_mode_count m)"

definition wps_mac_get_phy_mode_proto_size :: u8 where
  "wps_mac_get_phy_mode_proto_size = 1"

text \<open>\<open>swc_set_phy_mode\<close> of \<open>swc_api.c\<close> on a stack with the dynamic PHY mode enabled.\<close>

definition swc_set_phy_mode :: "u8 \<Rightarrow> 's wps_mac \<Rightarrow> 's wps_mac" where
  "swc_set_phy_mode mode m =
     (if node_role m = NETWORK_COORDINATOR
      then m\<lparr>phy_mode_swap_count_down := CHIP_RATE_COUNT_DOWN_VAL, requested_phy_mode := mode\<rparr> else m)"

section \<open>Contracts\<close>

text \<open>A table entry as \<open>wps.c\<close> fills it; the two \<open>NULL\<close> callbacks stand for directions never used.\<close>

definition header_protocol ::
  "wps_mac_proto_id \<Rightarrow> ('s wps_mac \<Rightarrow> byte list \<times> 's wps_mac) \<Rightarrow> (byte list \<Rightarrow> 's wps_mac \<Rightarrow> 's wps_mac) \<Rightarrow> u8
    \<Rightarrow> 's wps_mac link_protocol_info" where
  "header_protocol ident send recv sz =
     \<lparr>pi_send = send, pi_receive = recv, pi_size = sz, pi_id = proto_id_val ident, pi_index = 0\<rparr>"

definition null_send :: "'s wps_mac \<Rightarrow> byte list \<times> 's wps_mac" where "null_send m = ([], m)"
definition null_receive :: "byte list \<Rightarrow> 's wps_mac \<Rightarrow> 's wps_mac" where "null_receive bs m = m"

lemma header_protocol_sel [simp]:
  "pi_send (header_protocol i s r n) = s" "pi_receive (header_protocol i s r n) = r"
  "pi_size (header_protocol i s r n) = n" "pi_id (header_protocol i s r n) = proto_id_val i"
  by (simp_all add: header_protocol_def)

lemma contract_one:
  assumes "\<And>s. length (fst (send s)) = 1" "\<And>bs t. recv bs t = recv (take 1 bs) t"
  shows "protocol_contract (header_protocol i send recv 1)"
  using assms by (simp add: protocol_contract_def)

lemma nth_take_one: "take (Suc 0) bs ! 0 = bs ! 0"
  by (cases bs) simp_all

lemmas one_byte_defs = wps_mac_send_channel_index_def wps_mac_receive_channel_index_def
  wps_mac_send_timeslot_id_saw_def wps_mac_receive_timeslot_id_saw_def wps_mac_send_rdo_def wps_mac_receive_rdo_def
  wps_mac_send_connection_id_def wps_mac_receive_connection_id_def wps_mac_send_credit_flow_control_def
  wps_mac_receive_credit_flow_control_def wps_mac_send_phy_mode_def wps_mac_receive_phy_mode_def

lemma contracts:
  "protocol_contract (header_protocol i wps_mac_send_channel_index wps_mac_receive_channel_index 1)"
  "protocol_contract (header_protocol i wps_mac_send_timeslot_id_saw wps_mac_receive_timeslot_id_saw 1)"
  "protocol_contract (header_protocol i wps_mac_send_rdo wps_mac_receive_rdo 1)"
  "protocol_contract (header_protocol i wps_mac_send_connection_id wps_mac_receive_connection_id 1)"
  "protocol_contract (header_protocol i wps_mac_send_credit_flow_control wps_mac_receive_credit_flow_control 1)"
  "protocol_contract (header_protocol i wps_mac_send_phy_mode wps_mac_receive_phy_mode 1)"
  by (rule contract_one; simp add: one_byte_defs nth_take_one Let_def)+

section \<open>Switching the PHY mode\<close>

text \<open>
  A frame slot of the coordinator \<open>c\<close> and the node \<open>n\<close>: the coordinator sends its header; the node
  receives it or misses the frame.
\<close>

definition phy_slot :: "bool \<Rightarrow> 's wps_mac \<times> 's wps_mac \<Rightarrow> 's wps_mac \<times> 's wps_mac" where
  "phy_slot received p =
     (let (bs, c) = wps_mac_send_phy_mode (fst p)
      in (c, if received then wps_mac_receive_phy_mode bs (snd p) else wps_mac_handle_missing_phy_mode (snd p)))"

definition same_phy_mode :: "'s wps_mac \<Rightarrow> 's wps_mac \<Rightarrow> bool" where
  "same_phy_mode c n \<longleftrightarrow> current_phy_mode c = current_phy_mode n \<and>
     next_chip_rate c = next_chip_rate n \<and> next_isi_mitig c = next_isi_mitig n"

definition phy_in_step :: "'s wps_mac \<Rightarrow> 's wps_mac \<Rightarrow> bool" where
  "phy_in_step c n \<longleftrightarrow> same_phy_mode c n \<and> phy_mode_swap_count_down c = phy_mode_swap_count_down n \<and>
     requested_phy_mode c = requested_phy_mode n"

lemma phy_nibbles:
  assumes "unat n < 16" "unat (q :: u8) < 16"
  shows "drop_bit 4 ((push_bit 4 n AND 0xF0) OR q) AND 0x0F = (n :: u8)" "((push_bit 4 n AND 0xF0) OR q) AND 0x0F = q"
proof -
  have t: "take_bit 4 n = n" "take_bit 4 q = q"
    using assms by (simp_all add: word_unat_eq_iff unsigned_take_bit_eq take_bit_nat_eq_self)
  have m: "(0x0F :: u8) = mask 4" "(0xF0 :: u8) = push_bit 4 (mask 4)" by (simp_all add: mask_eq_exp_minus_1)
  have bn: "bit n i \<Longrightarrow> i < 4" and bq: "bit q i \<Longrightarrow> i < 4" for i
    using t by (metis bit_take_bit_iff)+
  show "drop_bit 4 ((push_bit 4 n AND 0xF0) OR q) AND 0x0F = n"
    unfolding m by (rule bit_word_eqI) (auto simp: bit_simps dest: bn bq)
  show "((push_bit 4 n AND 0xF0) OR q) AND 0x0F = q"
    unfolding m by (rule bit_word_eqI) (auto simp: bit_simps dest: bn bq)
qed

text \<open>The countdown after the decrement, as a number.\<close>

lemma phy_count:
  "unat (phy_mode_swap_count_down (phy_mode_count m)) =
     (if unat (phy_mode_swap_count_down m) = 15 then 15
      else if 1 \<le> unat (phy_mode_swap_count_down m) \<and> unat (phy_mode_swap_count_down m) \<le> 15
      then unat (phy_mode_swap_count_down m) - 1 else 0)"
proof (cases "phy_mode_swap_count_down m = 15 \<or> phy_mode_swap_count_down m = 0")
  case True
  then show ?thesis
    by (auto simp: phy_mode_count_def CHIP_RATE_COUNT_DOWN_INACTIVE_def CHIP_RATE_COUNT_DOWN_VAL_def Let_def)
next
  case False
  then have u: "unat (phy_mode_swap_count_down m - 1) = unat (phy_mode_swap_count_down m) - 1" by (simp add: unat_dec)
  have "unat (phy_mode_swap_count_down m) \<noteq> 0" using False by (simp add: unat_eq_zero)
  moreover have "unat (phy_mode_swap_count_down m) \<noteq> 15" using False by (auto simp: word_unat_eq_iff)
  ultimately show ?thesis using False u
    by (auto simp: phy_mode_count_def CHIP_RATE_COUNT_DOWN_INACTIVE_def CHIP_RATE_COUNT_DOWN_VAL_def Let_def
      word_less_nat_alt)
qed

lemma phy_count_keeps [simp]:
  "requested_phy_mode (phy_mode_count m) = requested_phy_mode m" "current_phy_mode (phy_mode_count m) = current_phy_mode m"
  "next_chip_rate (phy_mode_count m) = next_chip_rate m" "next_isi_mitig (phy_mode_count m) = next_isi_mitig m"
  by (simp_all add: phy_mode_count_def Let_def)

lemma phy_swap_keeps [simp]: "requested_phy_mode (phy_mode_swap m) = requested_phy_mode m"
  by (simp add: phy_mode_swap_def)

lemma phy_swap_in_step: "phy_in_step c n \<Longrightarrow> phy_in_step (phy_mode_swap c) (phy_mode_swap n)"
  by (auto simp: phy_in_step_def same_phy_mode_def phy_mode_swap_def)

lemma phy_count_in_step: "phy_in_step c n \<Longrightarrow> phy_in_step (phy_mode_count c) (phy_mode_count n)"
  by (auto simp: phy_in_step_def same_phy_mode_def phy_mode_count_def Let_def)

lemma phy_slot_received:
  assumes "same_phy_mode c n" "unat (requested_phy_mode c) < 16"
  shows "case phy_slot True (c, n) of (c', n') \<Rightarrow> phy_in_step c' n'"
proof -
  have "unat (phy_mode_swap_count_down (phy_mode_count c)) < 16" by (auto simp: phy_count)
  note nb = phy_nibbles [OF this, of "requested_phy_mode c"]
  let ?n = "n\<lparr>phy_mode_swap_count_down := phy_mode_swap_count_down (phy_mode_count c),
      requested_phy_mode := requested_phy_mode c\<rparr>"
  have "phy_in_step (phy_mode_count c) ?n" using assms(1) by (simp add: phy_in_step_def same_phy_mode_def)
  then have "phy_in_step (phy_mode_swap (phy_mode_count c)) (phy_mode_swap ?n)" by (rule phy_swap_in_step)
  moreover have "phy_slot True (c, n) = (phy_mode_swap (phy_mode_count c), phy_mode_swap ?n)"
    unfolding phy_slot_def wps_mac_send_phy_mode_def wps_mac_receive_phy_mode_def Let_def
    using nb assms(2) by (simp del: drop_bit_or drop_bit_and)
  ultimately show ?thesis by simp
qed

lemma phy_slot_missed:
  assumes "phy_in_step c n"
  shows "case phy_slot False (c, n) of (c', n') \<Rightarrow> phy_in_step c' n'"
  using assms by (auto simp: phy_slot_def wps_mac_send_phy_mode_def wps_mac_handle_missing_phy_mode_def Let_def
    intro!: phy_swap_in_step phy_count_in_step)

definition phy_pending :: "nat \<Rightarrow> bool \<Rightarrow> u8 \<Rightarrow> 's wps_mac \<times> 's wps_mac \<Rightarrow> bool" where
  "phy_pending d got mode p \<longleftrightarrow> unat (phy_mode_swap_count_down (fst p)) = d \<and> requested_phy_mode (fst p) = mode \<and>
     same_phy_mode (fst p) (snd p) \<and>
     (if got then phy_in_step (fst p) (snd p) else unat (phy_mode_swap_count_down (snd p)) = 15)"

definition phy_done :: "u8 \<Rightarrow> 's wps_mac \<times> 's wps_mac \<Rightarrow> bool" where
  "phy_done mode p \<longleftrightarrow> unat (phy_mode_swap_count_down (fst p)) = 15 \<and> requested_phy_mode (fst p) = mode \<and>
     current_phy_mode (fst p) = mode \<and> (next_chip_rate (fst p), next_isi_mitig (fst p)) = phy_mode_rates mode \<and>
     phy_in_step (fst p) (snd p)"

lemma phy_slot_coordinator: "fst (phy_slot r p) = phy_mode_swap (phy_mode_count (fst p))"
  by (simp add: phy_slot_def wps_mac_send_phy_mode_def Let_def)

lemma phy_slot_node_idle:
  assumes "unat (phy_mode_swap_count_down (snd p)) = 15"
  shows "snd (phy_slot False p) = snd p"
proof -
  have "phy_mode_swap_count_down (snd p) = 15" using assms by (simp add: word_unat_eq_iff)
  then show ?thesis
    by (simp add: phy_slot_def wps_mac_handle_missing_phy_mode_def split_def phy_mode_count_def phy_mode_swap_def
      CHIP_RATE_COUNT_DOWN_INACTIVE_def)
qed

lemma phy_slot_in_step:
  assumes "unat (requested_phy_mode (fst p)) < 16" "if r then same_phy_mode (fst p) (snd p) else phy_in_step (fst p) (snd p)"
  shows "phy_in_step (fst (phy_slot r p)) (snd (phy_slot r p))"
  using assms phy_slot_received [of "fst p" "snd p"] phy_slot_missed [of "fst p" "snd p"]
  by (cases r) (simp_all add: split_def)

lemma phy_swap_running:
  "unat (phy_mode_swap_count_down m) \<noteq> 0 \<Longrightarrow> phy_mode_swap m = m"
  by (auto simp: phy_mode_swap_def)

lemma phy_pending_step:
  assumes "phy_pending (Suc d) got mode p" "0 < d" "d < 14" "unat mode < 16"
  shows "phy_pending d (got \<or> r) mode (phy_slot r p)"
proof -
  have c: "unat (phy_mode_swap_count_down (phy_mode_count (fst p))) = d" "requested_phy_mode (fst p) = mode"
    and sm: "same_phy_mode (fst p) (snd p)"
    using assms by (simp_all add: phy_count phy_pending_def)
  then have f: "fst (phy_slot r p) = phy_mode_count (fst p)"
    using assms(2) by (simp add: phy_slot_coordinator phy_swap_running)
  show ?thesis
  proof (cases "got \<or> r")
    case True
    then have "phy_in_step (fst (phy_slot r p)) (snd (phy_slot r p))"
      using phy_slot_in_step [of p r] assms(1,4) c(2) by (simp add: phy_pending_def split: if_splits)
    then show ?thesis using True c f by (simp add: phy_pending_def phy_in_step_def)
  next
    case False
    then have "snd (phy_slot r p) = snd p" "unat (phy_mode_swap_count_down (snd p)) = 15"
      using assms(1) phy_slot_node_idle [of p] by (simp_all add: phy_pending_def)
    then show ?thesis using False c f sm by (simp add: phy_pending_def same_phy_mode_def)
  qed
qed

lemma phy_pending_last:
  assumes "phy_pending 1 got mode p" "got \<or> r" "unat mode < 16"
  shows "phy_done mode (phy_slot r p)"
proof -
  have c: "unat (phy_mode_swap_count_down (phy_mode_count (fst p))) = 0" "requested_phy_mode (fst p) = mode"
    using assms by (simp_all add: phy_count phy_pending_def)
  have "phy_in_step (fst (phy_slot r p)) (snd (phy_slot r p))"
    using phy_slot_in_step [of p r] assms c(2) by (simp add: phy_pending_def split: if_splits)
  then show ?thesis using c
    by (simp add: phy_done_def phy_slot_coordinator phy_mode_swap_def unat_eq_zero CHIP_RATE_COUNT_DOWN_INACTIVE_def)
qed

lemma phy_done_step:
  assumes "phy_done mode p" "unat mode < 16"
  shows "phy_done mode (phy_slot r p)"
proof -
  have c: "unat (phy_mode_swap_count_down (phy_mode_count (fst p))) = 15"
    using assms by (simp add: phy_count phy_done_def)
  then have "fst (phy_slot r p) = phy_mode_count (fst p)" by (simp add: phy_slot_coordinator phy_swap_running)
  moreover have "phy_in_step (fst (phy_slot r p)) (snd (phy_slot r p))"
  proof (rule phy_slot_in_step)
    have "phy_in_step (fst p) (snd p)" using assms(1) by (simp add: phy_done_def)
    then show "if r then same_phy_mode (fst p) (snd p) else phy_in_step (fst p) (snd p)"
      by (simp add: phy_in_step_def)
  qed (use assms in \<open>simp add: phy_done_def\<close>)
  ultimately show ?thesis using assms(1) c by (simp add: phy_done_def)
qed

lemma phy_done_run: "phy_done mode p \<Longrightarrow> unat mode < 16 \<Longrightarrow> phy_done mode (foldl (\<lambda>p r. phy_slot r p) p rs)"
  by (induction rs arbitrary: p) (simp_all add: phy_done_step)

lemma phy_run:
  assumes "unat mode < 16"
  shows "phy_pending d got mode p \<Longrightarrow> 0 < d \<Longrightarrow> d \<le> 14 \<Longrightarrow> got \<or> length rs < d \<or> True \<in> set (take d rs) \<Longrightarrow>
    (let q = foldl (\<lambda>p r. phy_slot r p) p rs in
      same_phy_mode (fst q) (snd q) \<and> (d \<le> length rs \<longrightarrow> phy_done mode q))"
proof (induction rs arbitrary: d got p)
  case Nil
  then show ?case by (simp add: phy_pending_def)
next
  case (Cons r rs)
  show ?case
  proof (cases "d = 1")
    case True
    then have "phy_done mode (phy_slot r p)"
      using Cons.prems assms by (intro phy_pending_last) auto
    from phy_done_run [OF this assms, of rs] have f: "phy_done mode (foldl (\<lambda>p r. phy_slot r p) p (r # rs))" by simp
    then have "phy_in_step (fst (foldl (\<lambda>p r. phy_slot r p) p (r # rs))) (snd (foldl (\<lambda>p r. phy_slot r p) p (r # rs)))"
      by (simp only: phy_done_def)
    with f show ?thesis by (simp only: Let_def phy_in_step_def simp_thms)
  next
    case False
    then obtain e where d: "d = Suc e" "0 < e" using Cons.prems(2) by (cases d) auto
    have "phy_pending e (got \<or> r) mode (phy_slot r p)"
      using Cons.prems assms d by (intro phy_pending_step) auto
    from Cons.IH [OF this d(2)] Cons.prems d show ?thesis by (cases r) auto
  qed
qed

section \<open>Properties\<close>


definition phy_example :: "wps_role \<Rightarrow> unit wps_mac" where
  "phy_example r = undefined\<lparr>node_role := r, current_phy_mode := 2, requested_phy_mode := 2,
     next_chip_rate := CHIP_RATE_20_48_MHZ, next_isi_mitig := ISI_MITIG_1, phy_mode_swap_count_down := 15\<rparr>"


text \<open>
  Credits never promise more than the receiver has: a device that advertises credits for a
  connection advertises fewer than the free places of its queue, or none when the queue is full.
\<close>

theorem wps_mac_credit_below_free_space:
  assumes "link_scheduler_get_current_main_connection (mac_scheduler m) (main_ack_connection_id m) = Some c"
  shows "\<exists>b. fst (wps_mac_send_credit_flow_control_header_acknowledge m) = [b] \<and>
    (unat b < unat (conn_free_space m (Some c)) \<or> unat b = 0 \<and> conn_free_space m (Some c) = 0)"
proof -
  let ?f = "conn_free_space m (Some c)"
  have "unat (credit_of_free_slot ?f) < unat ?f \<or> unat (credit_of_free_slot ?f) = 0 \<and> ?f = 0"
  proof (cases "?f > 255")
    case True
    then show ?thesis by (simp add: credit_of_free_slot_def CREDIT_FLOW_CONTROL_MAX_VALUE_def word_less_nat_alt)
  next
    case False
    show ?thesis
    proof (cases "?f = 0")
      case False
      then have "unat (?f - 1) = unat ?f - 1" "0 < unat ?f" by (simp_all add: unat_dec unat_gt_0)
      then show ?thesis using \<open>\<not> ?f > 255\<close> False
        by (simp add: credit_of_free_slot_def CREDIT_FLOW_CONTROL_MAX_VALUE_def unat_ucast_mod word_less_nat_alt)
    qed (simp add: credit_of_free_slot_def CREDIT_FLOW_CONTROL_MAX_VALUE_def)
  qed
  then show ?thesis using assms by (simp add: wps_mac_send_credit_flow_control_header_acknowledge_def)
qed

definition credit_example :: "unit wps_mac" where
  "credit_example = undefined\<lparr>main_ack_connection_id := 0,
     mac_scheduler := undefined\<lparr>current_time_slot_num := 0,
       schedule := undefined\<lparr>sched_timeslot := [zero_timeslot\<lparr>main_conn_list := zero_conn_list\<lparr>tcl_connection := [Some 5]\<rparr>\<rparr>]\<rparr>\<rparr>,
     mac_conns := (\<lambda>_. undefined\<lparr>conn_xlayer_queue := 7\<rparr>),
     mac_heap := undefined\<lparr>xqueues := (\<lambda>_. undefined\<lparr>xq_size := 3, xq_max_size := 10\<rparr>)\<rparr>\<rparr>"

theorem wps_mac_credit_below_free_space_witness:
  "conn_free_space credit_example (Some 5) = 7 \<and>
   (\<exists>b. fst (wps_mac_send_credit_flow_control_header_acknowledge credit_example) = [b] \<and> unat b < 7)"
proof -
  have "link_scheduler_get_current_main_connection (mac_scheduler credit_example) (main_ack_connection_id credit_example) = Some 5"
    by (simp add: credit_example_def link_scheduler_get_current_main_connection_def sched_slot_def)
  moreover have "conn_free_space credit_example (Some 5) = 7"
    by (simp add: conn_free_space_def credit_example_def conn_at_def xlayer_queue_get_free_space_def
      xlayer_queue_get_max_size_def xlayer_queue_get_size_def)
  ultimately show ?thesis using wps_mac_credit_below_free_space [of credit_example 5] by auto
qed

end
