(* ===== verification/Wps_Header.thy ===== *)
theory Wps_Header
  imports Mac_Protocols
begin

text \<open>
  The header configuration of \<open>wps.c\<close>: which protocols a connection's frames carry
  (\<open>wps_configure_header_connection\<close>), how large the header is (\<open>wps_get_connection_header_size\<close>)
  and the check against the frame size. The size of \<open>chip_rate_cfg_t\<close>, an enumeration, depends on
  the ABI and is the parameter \<open>sizeof_chip_rate\<close> (one byte with the short enumerations of the
  Arm bare-metal ABI).
\<close>

record wps_header_cfg =
  hc_main_connection :: bool
  hc_rdo_enabled :: bool
  hc_ranging_mode :: wps_ranging_mode
  hc_connection_id :: bool
  hc_credit_fc_enabled :: bool
  hc_dynamic_phy_mode :: bool

definition wps_get_connection_header_size :: "u8 \<Rightarrow> wps_header_cfg \<Rightarrow> u8" where
  "wps_get_connection_header_size sizeof_chip_rate cfg =
     (if hc_main_connection cfg
      then wps_mac_get_channel_index_proto_size + wps_mac_get_timeslot_id_saw_proto_size else 0) +
     (if hc_rdo_enabled cfg then 1 else 0) +
     (if hc_dynamic_phy_mode cfg then sizeof_chip_rate else 0) +
     (case hc_ranging_mode cfg of
        WPS_RANGING_STANDALONE_INITIATOR \<Rightarrow> wps_mac_get_ranging_phase_count_proto_size
      | WPS_RANGING_INITIATOR_TX \<Rightarrow> wps_mac_get_ranging_phase_count_proto_size
      | WPS_RANGING_STANDALONE_RESPONDER \<Rightarrow> wps_mac_get_ranging_phase_count_proto_size
      | WPS_RANGING_RESPONDER_RX \<Rightarrow> wps_mac_get_ranging_phase_count_proto_size
      | WPS_RANGING_INITIATOR_RX \<Rightarrow> wps_mac_get_ranging_phases_proto_size
      | WPS_RANGING_RESPONDER_TX \<Rightarrow> wps_mac_get_ranging_phases_proto_size
      | WPS_RANGING_DISABLED \<Rightarrow> 0) +
     (if hc_connection_id cfg then wps_mac_get_connection_id_proto_size else 0) +
     (if hc_credit_fc_enabled cfg then wps_mac_get_credit_flow_control_proto_size else 0)"

definition wps_get_connection_ack_header_size :: "wps_header_cfg \<Rightarrow> u8" where
  "wps_get_connection_ack_header_size cfg =
     (if hc_rdo_enabled cfg then 1 else 0) +
     (if hc_ranging_mode cfg = WPS_RANGING_STANDALONE_RESPONDER \<or> hc_ranging_mode cfg = WPS_RANGING_STANDALONE_INITIATOR
      then wps_mac_get_ranging_phases_proto_size else 0) +
     (if hc_connection_id cfg then wps_mac_get_connection_id_proto_size else 0) +
     (if hc_credit_fc_enabled cfg then wps_mac_get_credit_flow_control_proto_size else 0)"

text \<open>
  The header part of a connection: its configuration and the two sizes \<open>wps_set_header_cfg\<close>
  stores when they fit the frame.
\<close>

record header_cfg_state =
  hs_header_cfg :: wps_header_cfg
  hs_header_size :: u16
  hs_ack_header_size :: u16

definition wps_set_header_cfg ::
  "u8 \<Rightarrow> header_cfg_state \<Rightarrow> wps_header_cfg \<Rightarrow> u8 \<Rightarrow> u8 \<Rightarrow> wps_error \<times> header_cfg_state" where
  "wps_set_header_cfg sizeof_chip_rate c cfg max_payload max_frame =
     (let c1 = c\<lparr>hs_header_cfg := cfg\<rparr>;
          header_size = wps_get_connection_header_size sizeof_chip_rate (hs_header_cfg c1);
          ack_header_size = wps_get_connection_ack_header_size (hs_header_cfg c1)
      in if unat max_payload + unat header_size + 1 > unat max_frame then (WPS_HEADER_SIZE_ERROR, c1)
         else if unat max_payload + unat ack_header_size + 1 > unat max_frame then (WPS_HEADER_SIZE_ERROR, c1)
         else (WPS_NO_ERROR, c1\<lparr>hs_header_size := ucast header_size, hs_ack_header_size := ucast ack_header_size\<rparr>))"

text \<open>\<open>link_protocol_add\<close> as the configuration calls it: the error is not looked at.\<close>

definition lp_add_if :: "bool \<Rightarrow> 's link_protocol_info \<Rightarrow> 's link_protocol \<Rightarrow> 's link_protocol" where
  "lp_add_if b info lp = (if b then snd (link_protocol_add lp info) else lp)"

definition ranging_protocol :: "wps_ranging_mode \<Rightarrow> 's wps_mac link_protocol_info option" where
  "ranging_protocol mode =
     (let count = wps_mac_get_ranging_phase_count_proto_size; phases = wps_mac_get_ranging_phases_proto_size in
      case mode of
        WPS_RANGING_STANDALONE_INITIATOR \<Rightarrow>
          Some (header_protocol MAC_PROTO_ID_RANGING_INITIATOR wps_mac_send_ranging_phase_count null_receive count)
      | WPS_RANGING_INITIATOR_TX \<Rightarrow>
          Some (header_protocol MAC_PROTO_ID_RANGING_INITIATOR wps_mac_send_ranging_phase_count null_receive count)
      | WPS_RANGING_STANDALONE_RESPONDER \<Rightarrow>
          Some (header_protocol MAC_PROTO_ID_RANGING_RESPONDER null_send wps_mac_receive_ranging_phase_count count)
      | WPS_RANGING_RESPONDER_RX \<Rightarrow>
          Some (header_protocol MAC_PROTO_ID_RANGING_RESPONDER null_send wps_mac_receive_ranging_phase_count count)
      | WPS_RANGING_INITIATOR_RX \<Rightarrow>
          Some (header_protocol MAC_PROTO_ID_RANGING_INITIATOR null_send wps_mac_receive_ranging_phases phases)
      | WPS_RANGING_RESPONDER_TX \<Rightarrow>
          Some (header_protocol MAC_PROTO_ID_RANGING_RESPONDER wps_mac_send_ranging_phases null_receive phases)
      | WPS_RANGING_DISABLED \<Rightarrow> None)"

definition lp_add_option :: "'s link_protocol_info option \<Rightarrow> 's link_protocol \<Rightarrow> 's link_protocol" where
  "lp_add_option p lp = (case p of None \<Rightarrow> lp | Some info \<Rightarrow> snd (link_protocol_add lp info))"

text \<open>The table the configuration builds, with \<open>phy_mode_en\<close>, the flag \<open>dynamic_phy_mode_en\<close> of the MAC.\<close>

definition wps_configure_header_connection ::
  "u8 \<Rightarrow> wps_header_cfg \<Rightarrow> bool \<Rightarrow> 's wps_mac link_protocol \<times> bool" where
  "wps_configure_header_connection sizeof_chip_rate cfg phy_mode_en =
     (let lp0 = link_protocol_init (ucast (wps_get_connection_header_size sizeof_chip_rate cfg));
          lp1 = lp_add_if (hc_main_connection cfg)
                  (header_protocol MAC_PROTO_ID_TIMESLOT_SAW wps_mac_send_timeslot_id_saw
                    wps_mac_receive_timeslot_id_saw wps_mac_get_timeslot_id_saw_proto_size) lp0;
          lp2 = lp_add_if (hc_main_connection cfg)
                  (header_protocol MAC_PROTO_ID_CHANNEL_INDEX wps_mac_send_channel_index
                    wps_mac_receive_channel_index wps_mac_get_channel_index_proto_size) lp1;
          lp3 = lp_add_if (hc_rdo_enabled cfg)
                  (header_protocol MAC_PROTO_ID_RDO wps_mac_send_rdo wps_mac_receive_rdo wps_mac_get_rdo_proto_size) lp2;
          lp4 = lp_add_if (hc_dynamic_phy_mode cfg)
                  (header_protocol MAC_PROTO_ID_PHY_MODE wps_mac_send_phy_mode wps_mac_receive_phy_mode
                    wps_mac_get_phy_mode_proto_size) lp3;
          lp5 = lp_add_option (ranging_protocol (hc_ranging_mode cfg)) lp4;
          lp6 = lp_add_if (hc_connection_id cfg)
                  (header_protocol MAC_PROTO_ID_CONNECTION_ID wps_mac_send_connection_id
                    wps_mac_receive_connection_id wps_mac_get_connection_id_proto_size) lp5;
          lp7 = lp_add_if (hc_credit_fc_enabled cfg)
                  (header_protocol MAC_PROTO_ID_CREDIT_FC wps_mac_send_credit_flow_control
                    wps_mac_receive_credit_flow_control wps_mac_get_credit_flow_control_proto_size) lp6
      in (lp7, if hc_dynamic_phy_mode cfg then True else phy_mode_en))"

definition ack_ranging_protocol :: "wps_ranging_mode \<Rightarrow> 's wps_mac link_protocol_info option" where
  "ack_ranging_protocol mode =
     (let phases = wps_mac_get_ranging_phases_proto_size in
      case mode of
        WPS_RANGING_STANDALONE_INITIATOR \<Rightarrow>
          Some (header_protocol MAC_PROTO_ID_RANGING_INITIATOR null_send wps_mac_receive_ranging_phases phases)
      | WPS_RANGING_STANDALONE_RESPONDER \<Rightarrow>
          Some (header_protocol MAC_PROTO_ID_RANGING_RESPONDER wps_mac_send_ranging_phases null_receive phases)
      | _ \<Rightarrow> None)"

definition wps_configure_header_acknowledge :: "wps_header_cfg \<Rightarrow> 's wps_mac link_protocol option \<Rightarrow> 's wps_mac link_protocol option" where
  "wps_configure_header_acknowledge cfg auto_link_protocol =
     (case auto_link_protocol of
        None \<Rightarrow> None
      | Some _ \<Rightarrow>
          (let lp0 = link_protocol_init (ucast (wps_get_connection_ack_header_size cfg));
               lp1 = lp_add_if (hc_rdo_enabled cfg)
                  (header_protocol MAC_PROTO_ID_RDO wps_mac_send_rdo wps_mac_receive_rdo wps_mac_get_rdo_proto_size) lp0;
               lp2 = lp_add_option (ack_ranging_protocol (hc_ranging_mode cfg)) lp1;
               lp3 = lp_add_if (hc_connection_id cfg)
                  (header_protocol MAC_PROTO_ID_CONNECTION_ID wps_mac_send_connection_id_header_acknowledge
                    wps_mac_receive_connection_id_header_acknowledge wps_mac_get_connection_id_proto_size) lp2;
               lp4 = lp_add_if (hc_credit_fc_enabled cfg)
                  (header_protocol MAC_PROTO_ID_CREDIT_FC wps_mac_send_credit_flow_control_header_acknowledge
                    wps_mac_receive_credit_flow_control_header_acknowledge wps_mac_get_credit_flow_control_proto_size) lp3
           in Some lp4))"

section \<open>The configured table\<close>

text \<open>The enabled protocols in the order they are added.\<close>

definition header_protocols :: "wps_header_cfg \<Rightarrow> 's wps_mac link_protocol_info list" where
  "header_protocols cfg =
     (if hc_main_connection cfg
      then [header_protocol MAC_PROTO_ID_TIMESLOT_SAW wps_mac_send_timeslot_id_saw wps_mac_receive_timeslot_id_saw 1,
            header_protocol MAC_PROTO_ID_CHANNEL_INDEX wps_mac_send_channel_index wps_mac_receive_channel_index 1] else []) @
     (if hc_rdo_enabled cfg then [header_protocol MAC_PROTO_ID_RDO wps_mac_send_rdo wps_mac_receive_rdo 1] else []) @
     (if hc_dynamic_phy_mode cfg
      then [header_protocol MAC_PROTO_ID_PHY_MODE wps_mac_send_phy_mode wps_mac_receive_phy_mode 1] else []) @
     (case ranging_protocol (hc_ranging_mode cfg) of None \<Rightarrow> [] | Some p \<Rightarrow> [p]) @
     (if hc_connection_id cfg
      then [header_protocol MAC_PROTO_ID_CONNECTION_ID wps_mac_send_connection_id wps_mac_receive_connection_id 1] else []) @
     (if hc_credit_fc_enabled cfg
      then [header_protocol MAC_PROTO_ID_CREDIT_FC wps_mac_send_credit_flow_control wps_mac_receive_credit_flow_control 1] else [])"

lemmas proto_sizes = wps_mac_get_channel_index_proto_size_def wps_mac_get_timeslot_id_saw_proto_size_def
  wps_mac_get_rdo_proto_size_def wps_mac_get_ranging_phases_proto_size_def
  wps_mac_get_ranging_phase_count_proto_size_def wps_mac_get_connection_id_proto_size_def
  wps_mac_get_credit_flow_control_proto_size_def CREDIT_FLOW_CONTROL_PROTO_SIZE_def wps_mac_get_phy_mode_proto_size_def

text \<open>Adding a list without looking at the errors.\<close>

definition lp_add_list :: "'s link_protocol_info list \<Rightarrow> 's link_protocol \<Rightarrow> 's link_protocol" where
  "lp_add_list ps lp = fold (\<lambda>p lp. snd (link_protocol_add lp p)) ps lp"

lemma lp_add_list_append: "lp_add_list (ps @ qs) lp = lp_add_list qs (lp_add_list ps lp)"
  by (simp add: lp_add_list_def)

lemma lp_add_as_list:
  "lp_add_if b info lp = lp_add_list (if b then [info] else []) lp"
  "lp_add_option p lp = lp_add_list (case p of None \<Rightarrow> [] | Some info \<Rightarrow> [info]) lp"
  by (auto simp: lp_add_if_def lp_add_option_def lp_add_list_def split: option.splits)

lemma configured_list:
  "fst (wps_configure_header_connection sz cfg en)
    = lp_add_list (header_protocols cfg) (link_protocol_init (ucast (wps_get_connection_header_size sz cfg)))"
proof -
  have two: "lp_add_list (if b then [p, q] else []) lp = lp_add_list (if b then [q] else []) (lp_add_list (if b then [p] else []) lp)"
    for b and p q :: "'a wps_mac link_protocol_info" and lp
    by (simp add: lp_add_list_def)
  show ?thesis
    by (simp only: wps_configure_header_connection_def Let_def lp_add_as_list header_protocols_def
      lp_add_list_append two proto_sizes fst_conv)
qed

lemma add_all_fits:
  assumes "\<forall>p\<in>set ps. 0 < unat (pi_size p)" "unat (current_number_of_protocol lp) + length ps \<le> MAX_NUMBER_OF_PROTOCOL"
    and "unat (current_buffer_offset lp) + total_size ps \<le> unat (max_buffer_size lp)" "unat (max_buffer_size lp) < 256"
  shows "link_protocol_add_all ps lp = Some (lp_add_list ps lp)"
  using assms
proof (induction ps arbitrary: lp)
  case (Cons p ps)
  have p: "0 < unat (pi_size p)" using Cons.prems(1) by simp
  then obtain lp' where a: "link_protocol_add lp p = (LINK_PROTO_NO_ERROR, lp')"
    and off: "current_buffer_offset lp' = current_buffer_offset lp + pi_size p"
    and num: "current_number_of_protocol lp' = current_number_of_protocol lp + 1"
    and mx: "max_buffer_size lp' = max_buffer_size lp"
    using Cons.prems by (simp add: link_protocol_add_def)
  have "unat (current_buffer_offset lp') = unat (current_buffer_offset lp) + unat (pi_size p)"
    unfolding off by (rule unat_plus_lt) (use Cons.prems(3,4) in simp)
  moreover have "unat (current_number_of_protocol lp') = unat (current_number_of_protocol lp) + 1"
    unfolding num by (subst unat_plus_lt) (use Cons.prems(2) in \<open>simp_all add: MAX_NUMBER_OF_PROTOCOL_def\<close>)
  ultimately have "link_protocol_add_all ps lp' = Some (lp_add_list ps lp')"
    using Cons.prems by (intro Cons.IH) (simp_all add: mx)
  then show ?case using a by (simp add: lp_add_list_def)
qed (simp add: lp_add_list_def)

lemma header_size_total:
  "unat (wps_get_connection_header_size 1 cfg) = total_size (header_protocols cfg)"
  by (cases "hc_ranging_mode cfg"; cases "hc_main_connection cfg"; cases "hc_rdo_enabled cfg";
      cases "hc_dynamic_phy_mode cfg"; cases "hc_connection_id cfg"; cases "hc_credit_fc_enabled cfg")
    (simp_all add: wps_get_connection_header_size_def header_protocols_def ranging_protocol_def proto_sizes)

lemma header_table:
  "let ps = header_protocols cfg :: 's wps_mac link_protocol_info list;
       header_size = wps_get_connection_header_size 1 cfg
   in link_protocol_add_all ps (link_protocol_init (ucast header_size))
        = Some (fst (wps_configure_header_connection 1 cfg en)) \<and>
      total_size ps = unat header_size"
proof -
  let ?ps = "header_protocols cfg :: 's wps_mac link_protocol_info list"
  have pos: "\<forall>p\<in>set ?ps. 0 < unat (pi_size p)"
    by (auto simp: header_protocols_def ranging_protocol_def proto_sizes Let_def split: if_splits option.splits
      wps_ranging_mode.splits)
  have len: "length ?ps \<le> MAX_NUMBER_OF_PROTOCOL"
    by (simp add: header_protocols_def MAX_NUMBER_OF_PROTOCOL_def split: option.splits)
  have small: "unat (wps_get_connection_header_size 1 cfg) < 256" by (rule unat_u8_lt)
  then have m: "unat (wps_get_connection_header_size 1 cfg) mod 65536 = unat (wps_get_connection_header_size 1 cfg)"
    by (intro mod_less) linarith
  show ?thesis
    unfolding configured_list Let_def by (intro conjI add_all_fits)
      (use pos len small in \<open>simp_all add: header_size_total [symmetric] link_protocol_init_def unat_ucast_mod m\<close>)
qed

section \<open>Properties\<close>

text \<open>
  C28. The header size and the table agree: with one-byte enumerations, for every header
  configuration all enabled protocols are registered without error, and together they fill
  exactly the header size the connection reserves.
\<close>

theorem wps_header_fills_table:
  "let ps = header_protocols cfg :: 's wps_mac link_protocol_info list;
       header_size = wps_get_connection_header_size 1 cfg
   in link_protocol_add_all ps (link_protocol_init (ucast header_size))
        = Some (fst (wps_configure_header_connection 1 cfg en)) \<and>
      total_size ps = unat header_size"
  by (rule header_table)

section \<open>Transfer\<close>

lemma upd_conn_keeps [simp]:
  "mac_channel_hopping (upd_conn p f m) = mac_channel_hopping m" "mac_scheduler (upd_conn p f m) = mac_scheduler m"
  "mac_link_rdo (upd_conn p f m) = mac_link_rdo m" "main_connection (upd_conn p f m) = main_connection m"
  "node_role (upd_conn p f m) = node_role m" "auto_connection (upd_conn p f m) = auto_connection m"
  "current_phy_mode (upd_conn p f m) = current_phy_mode m" "phy_mode_swap_count_down (upd_conn p f m) = phy_mode_swap_count_down m"
  by (simp_all add: upd_conn_def)

text \<open>What a header carries: the parts of the MAC state the receiving node takes over.\<close>

definition carried :: "'s wps_mac \<Rightarrow> u8 \<times> u8 \<times> link_rdo \<times> saw_arq \<times> nat option \<times> wps_role" where
  "carried m = (hop_seq_index (mac_channel_hopping m), current_time_slot_num (mac_scheduler m), mac_link_rdo m,
     conn_saw_arq (conn_at m (main_connection m)), main_connection m, node_role m)"

lemma carried_keeps [simp]:
  "carried (wps_mac_receive_phy_mode bs m) = carried m"
  "carried (wps_mac_receive_connection_id bs m) = carried m"
  "carried (wps_mac_receive_credit_flow_control bs m) = carried m"
  by (simp_all add: carried_def conn_at_def wps_mac_receive_phy_mode_def phy_mode_swap_def
    wps_mac_receive_connection_id_def Let_def wps_mac_receive_credit_flow_control_def mac_set_credits_def upd_conn_def)

lemma send_keeps [simp]:
  "snd (wps_mac_send_timeslot_id_saw m) = m" "snd (wps_mac_send_channel_index m) = m" "snd (wps_mac_send_rdo m) = m"
  "snd (wps_mac_send_connection_id m) = m" "snd (wps_mac_send_credit_flow_control m) = m"
  by (simp_all add: wps_mac_send_timeslot_id_saw_def wps_mac_send_channel_index_def wps_mac_send_rdo_def
    wps_mac_send_connection_id_def wps_mac_send_credit_flow_control_def Let_def)

lemma receive_saw_carried:
  assumes "node_role t = NETWORK_NODE" "carried t = (hop, slot, rdo, saw, mc, NETWORK_NODE)"
    and "ucast (timeslot_id_of_byte b) < sched_size (schedule (mac_scheduler t))"
  shows "carried (wps_mac_receive_timeslot_id_saw [b] t)
    = (hop, timeslot_id_of_byte b, rdo, link_saw_arq_update_rx_seq_num saw (seq_num_of_byte b), mc, NETWORK_NODE)"
  using assms
  by (auto simp: carried_def wps_mac_receive_timeslot_id_saw_def mac_adopt_timeslot_def Let_def upd_main_saw_def
    upd_conn_def conn_at_def link_scheduler_set_time_slot_i_def link_scheduler_set_mismatch_def)

lemma receive_channel_carried:
  "carried t = (hop, slot, rdo, saw, mc, NETWORK_NODE) \<Longrightarrow>
   carried (wps_mac_receive_channel_index [b] t) = (b, slot, rdo, saw, mc, NETWORK_NODE)"
  by (auto simp: carried_def wps_mac_receive_channel_index_def link_channel_hopping_set_seq_index_def conn_at_def)

lemma receive_rdo_carried:
  "carried t = (hop, slot, rdo, saw, mc, NETWORK_NODE) \<Longrightarrow>
   carried (wps_mac_receive_rdo [b] t) = (hop, slot, link_rdo_set_offset rdo (Some b), saw, mc, NETWORK_NODE)"
  by (auto simp: carried_def wps_mac_receive_rdo_def conn_at_def)

lemma header_transfer_carried:
  assumes "hc_main_connection cfg" "hc_ranging_mode cfg = WPS_RANGING_DISABLED" "node_role t = NETWORK_NODE"
    and "carried t = (hop, slot, rdo, saw, mc, NETWORK_NODE)"
    and "ucast (timeslot_id_of_byte b) < sched_size (schedule (mac_scheduler t))"
    and "fst (wps_mac_send_timeslot_id_saw s) = [b]"
  shows "carried (header_received s (header_protocols cfg) t) =
    (hop_seq_index (mac_channel_hopping s), timeslot_id_of_byte b,
     (if hc_rdo_enabled cfg then link_rdo_set_offset rdo (Some (fst (wps_mac_send_rdo s) ! 0)) else rdo),
     link_saw_arq_update_rx_seq_num saw (seq_num_of_byte b), mc, NETWORK_NODE)"
proof -
  let ?t = "wps_mac_receive_channel_index [hop_seq_index (mac_channel_hopping s)] (wps_mac_receive_timeslot_id_saw [b] t)"
  have t: "carried ?t = (hop_seq_index (mac_channel_hopping s), timeslot_id_of_byte b, rdo,
      link_saw_arq_update_rx_seq_num saw (seq_num_of_byte b), mc, NETWORK_NODE)"
    by (rule receive_channel_carried [OF receive_saw_carried [OF assms(3,4,5)]])
  have r: "fst (wps_mac_send_rdo s) = [fst (wps_mac_send_rdo s) ! 0]" by (simp add: wps_mac_send_rdo_def)
  have rt: "carried (wps_mac_receive_rdo [fst (wps_mac_send_rdo s) ! 0] ?t) = (hop_seq_index (mac_channel_hopping s),
      timeslot_id_of_byte b, link_rdo_set_offset rdo (Some (fst (wps_mac_send_rdo s) ! 0)),
      link_saw_arq_update_rx_seq_num saw (seq_num_of_byte b), mc, NETWORK_NODE)"
    by (rule receive_rdo_carried [OF t])
  have c: "fst (wps_mac_send_channel_index s) = [hop_seq_index (mac_channel_hopping s)]"
    by (simp add: wps_mac_send_channel_index_def link_channel_hopping_get_seq_index_def)
  show ?thesis
    using assms(1,2) t rt r
    by (cases "hc_rdo_enabled cfg"; cases "hc_dynamic_phy_mode cfg"; cases "hc_connection_id cfg";
        cases "hc_credit_fc_enabled cfg")
      (simp_all add: header_protocols_def ranging_protocol_def assms(6) c)
qed

text \<open>
  C11. What the header carries arrives: for every header configuration without ranging, a network node that
  receives a main frame's header takes over the coordinator's hop index, its time slot, provided it is
  below 64, the width of the field, and within the node's schedule, the stop-and-wait number of the frame
  and, when it is enabled and below 128, the rate offset; from 128 on the offset taken over is another one.
\<close>

theorem wps_header_transfer:
  assumes "hc_main_connection cfg" "hc_ranging_mode cfg = WPS_RANGING_DISABLED" "node_role t = NETWORK_NODE"
    and "unat (current_time_slot_num (mac_scheduler s)) < 64"
    and "unat (current_time_slot_num (mac_scheduler s)) < unat (sched_size (schedule (mac_scheduler t)))"
    and "unat (wps_get_connection_header_size 1 cfg) \<le> length buf"
    and "fst (wps_configure_header_connection 1 cfg en) = lp"
    and "link_protocol_send_buffer lp s buf = (n, header, s')"
  shows "let t' = link_protocol_receive_buffer lp header n t in
    hop_seq_index (mac_channel_hopping t') = hop_seq_index (mac_channel_hopping s) \<and>
    current_time_slot_num (mac_scheduler t') = current_time_slot_num (mac_scheduler s) \<and>
    conn_saw_arq (conn_at t' (main_connection t')) = link_saw_arq_update_rx_seq_num
      (conn_saw_arq (conn_at t (main_connection t))) (take_bit 2 (seq_num (conn_saw_arq (conn_at s (main_connection s))))) \<and>
    (hc_rdo_enabled cfg \<and> unat (rdo_offset (mac_link_rdo s)) < 128 \<longrightarrow>
      rdo_offset (mac_link_rdo t') = rdo_offset (mac_link_rdo s) \<and> count_up (mac_link_rdo t') = count_up (mac_link_rdo s))"
proof -
  let ?slot = "current_time_slot_num (mac_scheduler s)" and ?ps = "header_protocols cfg :: 'a wps_mac link_protocol_info list"
  obtain b where b: "fst (wps_mac_send_timeslot_id_saw s) = [b]"
    "b = timeslot_id_saw_byte (ucast ?slot) (seq_num (conn_saw_arq (conn_at s (main_connection s))))"
    by (simp add: wps_mac_send_timeslot_id_saw_def Let_def link_scheduler_get_next_timeslot_index_def link_saw_arq_get_seq_num_def)
  have slot: "timeslot_id_of_byte b = ?slot"
    using assms(4) by (simp add: b(2) timeslot_id_of_header word_unat_eq_iff unat_ucast_mod unsigned_take_bit_eq
      take_bit_eq_mod unat_mod)
  have lt: "ucast (timeslot_id_of_byte b) < sched_size (schedule (mac_scheduler t))"
    using assms(5) by (simp add: slot word_less_nat_alt unat_ucast_mod)
  have "list_all protocol_contract ?ps"
    using assms(2) by (simp add: header_protocols_def ranging_protocol_def contracts)
  moreover have "link_protocol_add_all ?ps (link_protocol_init (ucast (wps_get_connection_header_size 1 cfg))) = Some lp"
    "total_size ?ps = unat (wps_get_connection_header_size 1 cfg)"
    using header_table [where 's = 'a, of cfg en] assms(7) by (simp_all add: Let_def)
  moreover have "unat (wps_get_connection_header_size 1 cfg) < 256" by (rule unat_u8_lt)
  ultimately have t': "link_protocol_receive_buffer lp header n t = header_received s ?ps t"
    using send_then_receive [of ?ps _ lp buf s n header s' t] assms(6,8) by simp
  obtain hop slot rdo saw mc where ct: "carried t = (hop, slot, rdo, saw, mc, NETWORK_NODE)"
    "rdo = mac_link_rdo t" "saw = conn_saw_arq (conn_at t (main_connection t))"
    using assms(3) by (simp add: carried_def)
  have rdo: "Some (fst (wps_mac_send_rdo s) ! 0) = link_rdo_send_offset (mac_link_rdo s) (Some 0)"
    by (simp add: wps_mac_send_rdo_def link_rdo_send_offset_def)
  from header_transfer_carried [OF assms(1,2,3) ct(1) lt b(1)] show ?thesis
    unfolding t' Let_def rdo by (auto simp: carried_def slot [unfolded b(2)] b(2) seq_num_of_header ct(2,3) rdo_byte)
qed

definition header_cfg_example :: wps_header_cfg where
  "header_cfg_example = \<lparr>hc_main_connection = True, hc_rdo_enabled = True, hc_ranging_mode = WPS_RANGING_DISABLED,
     hc_connection_id = False, hc_credit_fc_enabled = False, hc_dynamic_phy_mode = False\<rparr>"

definition header_mac_example :: "wps_role \<Rightarrow> u8 \<Rightarrow> u8 \<Rightarrow> unit wps_mac" where
  "header_mac_example r slot hop = undefined\<lparr>node_role := r, main_connection := Some 0,
     mac_scheduler := undefined\<lparr>current_time_slot_num := slot, schedule := undefined\<lparr>sched_size := 8\<rparr>\<rparr>,
     mac_channel_hopping := undefined\<lparr>hop_seq_index := hop\<rparr>, mac_link_rdo := link_rdo_init 15 1\<rparr>"

theorem wps_header_transfer_witness:
  "\<exists>n header s'. link_protocol_send_buffer (fst (wps_configure_header_connection 1 header_cfg_example False))
      (header_mac_example NETWORK_COORDINATOR 5 9) [0, 0, 0] = (n, header, s') \<and>
    hop_seq_index (mac_channel_hopping (link_protocol_receive_buffer
      (fst (wps_configure_header_connection 1 header_cfg_example False)) header n (header_mac_example NETWORK_NODE 2 1))) = 9"
proof -
  let ?lp = "fst (wps_configure_header_connection 1 header_cfg_example False) :: unit wps_mac link_protocol"
  obtain n header s' where b: "link_protocol_send_buffer ?lp (header_mac_example NETWORK_COORDINATOR 5 9) [0, 0, 0] = (n, header, s')"
    by (metis prod.exhaust)
  have "unat (wps_get_connection_header_size 1 header_cfg_example) \<le> length [0 :: byte, 0, 0]"
    by (simp add: wps_get_connection_header_size_def header_cfg_example_def proto_sizes)
  from wps_header_transfer [OF _ _ _ _ _ this refl b, of "header_mac_example NETWORK_NODE 2 1"] b show ?thesis
    by (simp add: header_cfg_example_def header_mac_example_def Let_def)
qed

end
