(* ===== verification/Mac_Timeslots.thy ===== *)
theory Mac_Timeslots
  imports Mac_Protocols
begin

text \<open>
  How the MAC layer finds, from the first header bytes, the time slot and the connection a frame
  belongs to (\<open>wps_mac_timeslots.c\<close>). \<open>mem\<close> is the memory the header is read from. The test for
  a missing main connection of the auto-reply search is kept as written although it cannot succeed.
\<close>

definition conn_id_of_byte :: "u8 \<Rightarrow> u8 \<Rightarrow> u8" where
  "conn_id_of_byte count b = (if count > 1 then if b < count then b else 0 else 0)"

definition header_byte :: "(nat \<Rightarrow> byte) \<Rightarrow> xlayer_frame \<Rightarrow> 's link_protocol \<Rightarrow> wps_mac_proto_id \<Rightarrow> byte" where
  "header_byte mem frame lp ident =
     mem (header_begin_it frame + unat (link_protocol_get_buffer_offset lp (proto_id_val ident)))"

text \<open>The first half: adopt the slot of the header and, when the slot is not the expected one, its connections.\<close>

definition timeslots_resync :: "(nat \<Rightarrow> byte) \<Rightarrow> 's wps_mac \<Rightarrow> xlayer_frame \<Rightarrow> 's wps_mac" where
  "timeslots_resync mem m frame =
     (let m1 = (if wps_mac_is_network_node m
                then mac_adopt_timeslot (timeslot_id_of_byte (header_byte mem frame
                       (conn_link_protocol (conn_at m (main_connection m))) MAC_PROTO_ID_TIMESLOT_SAW)) m else m)
      in if (\<not> slave_synced m1 \<and> node_role m1 = NETWORK_NODE) \<or> link_scheduler_get_mismatch (mac_scheduler m1)
         then m1\<lparr>timeslot_ptr := unat (current_time_slot_num (mac_scheduler m1)),
                 main_connection := link_scheduler_get_current_main_connection (mac_scheduler m1) (main_connection_id m1),
                 auto_connection := link_scheduler_get_current_auto_connection (mac_scheduler m1) 0\<rparr>
         else m1)"

text \<open>The second half: the connection number of the header and the connections it selects.\<close>

definition timeslots_select :: "(nat \<Rightarrow> byte) \<Rightarrow> nat option \<Rightarrow> 's wps_mac \<Rightarrow> xlayer_frame \<Rightarrow> 's wps_mac" where
  "timeslots_select mem prev_auto_connection m frame =
     (let m1 = m\<lparr>main_connection_id := conn_id_of_byte (connection_count (main_conn_list (mac_timeslot m)))
                 (header_byte mem frame (conn_link_protocol (conn_at m (main_connection m))) MAC_PROTO_ID_CONNECTION_ID)\<rparr>;
          m2 = m1\<lparr>main_connection := link_scheduler_get_current_main_connection (mac_scheduler m1) (main_connection_id m1),
                  auto_connection := link_scheduler_get_current_auto_connection (mac_scheduler m1) (auto_connection_id m1)\<rparr>
      in if auto_connection m2 = None \<and> link_scheduler_get_mismatch (mac_scheduler m2) = True
         then m2\<lparr>auto_connection := prev_auto_connection\<rparr> else m2)"

definition wps_mac_timeslots_find_received_timeslot_and_connection_main ::
  "(nat \<Rightarrow> byte) \<Rightarrow> 's wps_mac \<Rightarrow> xlayer_frame \<Rightarrow> 's wps_mac" where
  "wps_mac_timeslots_find_received_timeslot_and_connection_main mem m frame =
     timeslots_select mem (auto_connection m) (timeslots_resync mem m frame) frame"

definition wps_mac_timeslots_find_received_timeslot_and_connection_auto ::
  "(nat \<Rightarrow> byte) \<Rightarrow> 's wps_mac \<Rightarrow> xlayer_frame \<Rightarrow> 's wps_mac" where
  "wps_mac_timeslots_find_received_timeslot_and_connection_auto mem m frame =
     (let connection = (case auto_connection m of None \<Rightarrow> main_connection m | Some a \<Rightarrow> Some a);
          (lp, count, to_ack) =
            (if connection = None
             then (conn_auto_link_protocol (conn_at m (main_connection m)),
                   connection_count (main_conn_list (mac_timeslot m)), True)
             else (conn_link_protocol (conn_at m connection), connection_count (auto_conn_list (mac_timeslot m)), False));
          ident = conn_id_of_byte count (header_byte mem frame lp MAC_PROTO_ID_CONNECTION_ID);
          m1 = (if to_ack then m\<lparr>main_ack_connection_id := ident\<rparr> else m\<lparr>auto_connection_id := ident\<rparr>)
      in m1\<lparr>main_connection := link_scheduler_get_current_main_connection (mac_scheduler m1) (main_connection_id m1),
            auto_connection := link_scheduler_get_current_auto_connection (mac_scheduler m1) (auto_connection_id m1)\<rparr>)"

section \<open>Lemmas\<close>

definition timeslot_current :: "'s wps_mac \<Rightarrow> bool" where
  "timeslot_current m \<longleftrightarrow> timeslot_ptr m = unat (current_time_slot_num (mac_scheduler m))"

lemma conn_id_in_range: "unat (conn_id_of_byte count b) < max 1 (unat count)"
  by (auto simp: conn_id_of_byte_def word_less_nat_alt)

lemma get_current_main:
  "timeslot_current m \<Longrightarrow> link_scheduler_get_current_main_connection (mac_scheduler m) i
     = tcl_connection (main_conn_list (mac_timeslot m)) ! unat i"
  by (simp add: timeslot_current_def link_scheduler_get_current_main_connection_def mac_timeslot_def)

lemma current_slot_mismatch [simp]:
  "link_scheduler_get_current_timeslot (link_scheduler_set_mismatch s) = link_scheduler_get_current_timeslot s"
  by (simp add: link_scheduler_get_current_timeslot_def link_scheduler_set_mismatch_def sched_slot_def)

text \<open>Adopting a slot keeps the slot pointer current unless it raises the mismatch flag.\<close>

lemma adopt_current:
  assumes "timeslot_current m" "\<not> link_scheduler_get_mismatch (mac_scheduler (mac_adopt_timeslot i m))"
  shows "timeslot_current (mac_adopt_timeslot i m)"
  using assms
  by (auto simp: mac_adopt_timeslot_def timeslot_current_def Let_def link_scheduler_get_mismatch_def
    link_scheduler_set_mismatch_def link_scheduler_set_time_slot_i_def link_scheduler_get_next_timeslot_index_def
    link_scheduler_get_current_timeslot_def sched_slot_def split: if_splits)

lemma adopt_keeps [simp]:
  "main_connection_id (mac_adopt_timeslot i m) = main_connection_id m" "timeslot_ptr (mac_adopt_timeslot i m) = timeslot_ptr m"
  "mac_timeslot (mac_adopt_timeslot i m) = mac_timeslot m"
  by (simp_all add: mac_adopt_timeslot_def mac_timeslot_def sched_slot_def link_scheduler_set_time_slot_i_def
    link_scheduler_set_mismatch_def Let_def)

lemma resync_current:
  assumes "timeslot_current m"
  shows "timeslot_current (timeslots_resync mem m frame)"
  using assms adopt_current [OF assms]
  by (simp add: timeslots_resync_def Let_def timeslot_current_def)

section \<open>Properties\<close>

text \<open>
  The connection picked for a received main frame is always one of the slot it was picked in:
  whatever the header bytes are, afterwards the slot pointer is the scheduler's current slot, the
  connection number is below that slot's connection count (0 when there is none) and the main
  connection is the entry of that number.
\<close>

theorem wps_mac_timeslots_main_in_slot:
  assumes "timeslot_current m"
  shows "let m' = wps_mac_timeslots_find_received_timeslot_and_connection_main mem m frame in
    timeslot_current m' \<and>
    unat (main_connection_id m') < max 1 (unat (connection_count (main_conn_list (mac_timeslot m')))) \<and>
    main_connection m' = tcl_connection (main_conn_list (mac_timeslot m')) ! unat (main_connection_id m')"
proof -
  let ?m = "timeslots_resync mem m frame"
  have cur: "timeslot_current ?m" by (rule resync_current [OF assms])
  show ?thesis
    using cur conn_id_in_range get_current_main [OF cur]
    by (simp add: mac_timeslot_def
      wps_mac_timeslots_find_received_timeslot_and_connection_main_def timeslots_select_def Let_def
      timeslot_current_def)
qed

definition timeslots_example :: "unit wps_mac" where
  "timeslots_example = (let
     slot = (\<lambda>n cs. zero_timeslot\<lparr>main_conn_list := zero_conn_list\<lparr>connection_count := n, tcl_connection := cs\<rparr>\<rparr>);
     s = undefined\<lparr>schedule := undefined\<lparr>sched_timeslot := [slot 1 [Some 10], slot 2 [Some 20, Some 21]], sched_size := 2\<rparr>,
           current_time_slot_num := 0, timeslot_mismatch := False\<rparr>
   in undefined\<lparr>mac_scheduler := s, timeslot_ptr := 0, node_role := NETWORK_NODE,
        mac_tdma_sync := undefined\<lparr>slave_sync_state := True\<rparr>,
        main_connection := Some 10, mac_conns := (\<lambda>_. undefined\<lparr>conn_link_protocol := link_protocol_init 0\<rparr>)\<rparr>)"

theorem wps_mac_timeslots_main_in_slot_witness:
  "let m' = wps_mac_timeslots_find_received_timeslot_and_connection_main (\<lambda>_. 1) timeslots_example undefined in
    unat (main_connection_id m') < max 1 (unat (connection_count (main_conn_list (mac_timeslot m')))) \<and>
    main_connection m' = tcl_connection (main_conn_list (mac_timeslot m')) ! unat (main_connection_id m')"
proof -
  have "timeslot_current timeslots_example"
    by (simp add: timeslot_current_def timeslots_example_def Let_def link_scheduler_get_current_timeslot_def sched_slot_def)
  from wps_mac_timeslots_main_in_slot [OF this, of "\<lambda>_. 1" undefined] show ?thesis
    unfolding Let_def by blast
qed

text \<open>
  The auto-reply search tests for a missing connection after replacing it by the main one, so the
  branch that stores the number of an acknowledged main connection is never taken.
\<close>

lemma timeslots_auto_keeps_ack_id:
  "main_connection m \<noteq> None \<Longrightarrow>
   main_ack_connection_id (wps_mac_timeslots_find_received_timeslot_and_connection_auto mem m frame)
     = main_ack_connection_id m"
  by (auto simp: wps_mac_timeslots_find_received_timeslot_and_connection_auto_def Let_def split: option.splits)

end
