(* ===== verification/Conn_Priority.thy ===== *)
theory Conn_Priority
  imports Mac_State
begin

text \<open>
  Which of a time slot's connections may use it (\<open>wps_conn_priority.c\<close>). Connections are addresses
  into a store; a connection competes when it is enabled and has a frame queued. The credit-based
  search of the main connections counts, in the store, the frames it skips.
\<close>

type_synonym 's conn_store = "nat \<Rightarrow> 's wps_connection"

definition NOTIFY_MISSED_CREDITS_HIGH_CONN_EXTRA_POINTS :: u8 where
  "NOTIFY_MISSED_CREDITS_HIGH_CONN_EXTRA_POINTS = 3"
definition USE_HIGHEST_CONNECTION_PRIORITY :: u8 where "USE_HIGHEST_CONNECTION_PRIORITY = 0xFF"
definition WPS_MAX_CONN_PRIORITY :: u8 where "WPS_MAX_CONN_PRIORITY = 2"

section \<open>Operations\<close>

definition conn_ready :: "'s conn_store \<Rightarrow> xheap \<Rightarrow> nat \<Rightarrow> bool" where
  "conn_ready conns h c =
     (conn_currently_enabled (conns c) \<and> xlayer_queue_get_node (conn_xlayer_queue (conns c)) h \<noteq> None)"

text \<open>The loop, over the connections' readiness and priority from index \<open>i\<close>.\<close>

fun highest_loop :: "(bool \<times> u8) list \<Rightarrow> u8 \<Rightarrow> u8 \<Rightarrow> u8 \<Rightarrow> u8" where
  "highest_loop [] i min_prio min_index = min_index"
| "highest_loop ((ready, prio) # cs) i min_prio min_index =
     (if ready then
        (let (p, k) = (if prio < min_prio then (prio, i) else (min_prio, min_index))
         in if p = 0 then k else highest_loop cs (i + 1) p k)
      else highest_loop cs (i + 1) min_prio min_index)"

definition get_highest_conn_index_based_on_priority ::
  "'s conn_store \<Rightarrow> xheap \<Rightarrow> nat list \<Rightarrow> u8 list \<Rightarrow> u8 \<Rightarrow> u8" where
  "get_highest_conn_index_based_on_priority conns h cs prios count =
     highest_loop (take (unat count) (zip (map (conn_ready conns h) cs) prios)) 0 (WPS_MAX_CONN_PRIORITY + 1) 0"

definition skip_frame :: "nat \<Rightarrow> 's conn_store \<Rightarrow> 's conn_store" where
  "skip_frame c conns =
     (let k = conn_credit_flow_ctrl (conns c) in
      if skipped_frames_count k < 255
      then conns(c := (conns c)\<lparr>conn_credit_flow_ctrl := k\<lparr>skipped_frames_count := skipped_frames_count k + 1\<rparr>\<rparr>)
      else conns)"

fun get_highest_main_conn_index_based_on_priority_and_credits ::
  "xheap \<Rightarrow> nat list \<Rightarrow> u8 list \<Rightarrow> u8 \<Rightarrow> nat \<Rightarrow> 's conn_store \<Rightarrow> u8 \<times> 's conn_store" where
  "get_highest_main_conn_index_based_on_priority_and_credits h cs prios count depth conns =
     (let i = get_highest_conn_index_based_on_priority conns h cs prios count;
          c = cs ! unat i; k = conn_credit_flow_ctrl (conns c)
      in if credits_count k > 0 \<or> skipped_frames_count k \<ge> CREDIT_FLOW_CTRL_SKIPPED_FRAMES_THRESHOLD then (i, conns)
         else (case depth of
             Suc d \<Rightarrow> get_highest_main_conn_index_based_on_priority_and_credits h cs
                 (prios[unat i := WPS_MAX_CONN_PRIORITY + 1]) count d (skip_frame c conns)
           | 0 \<Rightarrow> (USE_HIGHEST_CONNECTION_PRIORITY, skip_frame c conns)))"

definition wps_conn_priority_get_highest_main_conn_index ::
  "xheap \<Rightarrow> nat list \<Rightarrow> u8 list \<Rightarrow> u8 \<Rightarrow> 's conn_store \<Rightarrow> u8 \<times> 's conn_store" where
  "wps_conn_priority_get_highest_main_conn_index h cs prios count conns =
     (if cfc_enabled (conn_credit_flow_ctrl (conns (cs ! 0))) = False
      then (get_highest_conn_index_based_on_priority conns h cs prios count, conns)
      else (case get_highest_main_conn_index_based_on_priority_and_credits h cs prios count (unat (count - 1)) conns of
          (i, conns1) \<Rightarrow>
            if i = USE_HIGHEST_CONNECTION_PRIORITY
            then (get_highest_conn_index_based_on_priority conns1 h cs prios count, conns1)
            else (i, conns1)))"

definition add_missed :: "u8 \<Rightarrow> nat \<Rightarrow> 's conn_store \<Rightarrow> 's conn_store" where
  "add_missed n c conns = conns(c := (conns c)\<lparr>conn_credit_flow_ctrl := (conn_credit_flow_ctrl (conns c))
     \<lparr>notify_missed_credits_count := notify_missed_credits_count (conn_credit_flow_ctrl (conns c)) + n\<rparr>\<rparr>)"

fun most_missed_loop :: "'s conn_store \<Rightarrow> nat list \<Rightarrow> u8 \<Rightarrow> u8 \<Rightarrow> u8 \<Rightarrow> u8" where
  "most_missed_loop conns [] i best best_id = best_id"
| "most_missed_loop conns (c # cs) i best best_id =
     (let n = notify_missed_credits_count (conn_credit_flow_ctrl (conns c))
      in if conn_currently_enabled (conns c) \<and> n > best then most_missed_loop conns cs (i + 1) n i
         else most_missed_loop conns cs (i + 1) best best_id)"

definition get_highest_auto_conn_index_based_on_priority_and_credits ::
  "xheap \<Rightarrow> nat list \<Rightarrow> u8 list \<Rightarrow> u8 \<Rightarrow> 's conn_store \<Rightarrow> u8 \<times> 's conn_store" where
  "get_highest_auto_conn_index_based_on_priority_and_credits h cs prios count conns =
     (let high = get_highest_conn_index_based_on_priority conns h cs prios count;
          cs' = take (unat count) cs;
          conns1 = fold (\<lambda>c s. if conn_currently_enabled (s c) then add_missed 1 c s else s) cs' conns;
          c = cs ! unat high;
          conns2 = (if xlayer_queue_get_node (conn_xlayer_queue (conns1 c)) h \<noteq> None
                    then add_missed NOTIFY_MISSED_CREDITS_HIGH_CONN_EXTRA_POINTS c conns1 else conns1)
      in (most_missed_loop conns2 cs' 0 0 0, conns2))"

definition wps_conn_priority_get_highest_auto_conn_index ::
  "xheap \<Rightarrow> nat list \<Rightarrow> u8 list \<Rightarrow> u8 \<Rightarrow> 's conn_store \<Rightarrow> u8 \<times> 's conn_store" where
  "wps_conn_priority_get_highest_auto_conn_index h cs prios count conns =
     (if cfc_enabled (conn_credit_flow_ctrl (conns (cs ! 0))) = False
      then (get_highest_conn_index_based_on_priority conns h cs prios count, conns)
      else get_highest_auto_conn_index_based_on_priority_and_credits h cs prios count conns)"

declare get_highest_main_conn_index_based_on_priority_and_credits.simps [simp del]

section \<open>The highest priority\<close>

definition best_entry :: "(bool \<times> u8) list \<Rightarrow> u8 \<Rightarrow> nat \<Rightarrow> bool" where
  "best_entry cs p j \<longleftrightarrow> j < length cs \<and> fst (cs ! j) \<and> snd (cs ! j) < p \<and>
     (\<forall>l<length cs. fst (cs ! l) \<longrightarrow> snd (cs ! j) \<le> snd (cs ! l)) \<and>
     (\<forall>l<j. fst (cs ! l) \<longrightarrow> snd (cs ! j) < snd (cs ! l))"

definition no_entry :: "(bool \<times> u8) list \<Rightarrow> u8 \<Rightarrow> bool" where
  "no_entry cs p \<longleftrightarrow> (\<forall>l<length cs. fst (cs ! l) \<longrightarrow> p \<le> snd (cs ! l))"

lemma no_entry_Cons: "no_entry ((r, q) # cs) p = ((r \<longrightarrow> p \<le> q) \<and> no_entry cs p)"
  by (simp add: no_entry_def All_less_Suc2)

lemma best_entry_0:
  assumes "r" "q < p" "no_entry cs q"
  shows "best_entry ((r, q) # cs) p 0"
  using assms by (simp add: best_entry_def no_entry_def All_less_Suc2)

lemma best_entry_Suc:
  assumes "best_entry cs p j" "r \<longrightarrow> p \<le> q"
  shows "best_entry ((r, q) # cs) p (Suc j)"
proof -
  have "snd (cs ! j) < p" using assms(1) by (simp add: best_entry_def)
  then have "r \<longrightarrow> snd (cs ! j) < q" using assms(2) by (auto intro: less_le_trans)
  then show ?thesis using assms(1) by (auto simp: best_entry_def All_less_Suc2 intro: less_imp_le)
qed

lemma best_entry_Suc':
  assumes "best_entry cs q j" "q < p"
  shows "best_entry ((r, q) # cs) p (Suc j)"
proof -
  have "snd (cs ! j) < q" using assms(1) by (simp add: best_entry_def)
  then show ?thesis using assms by (auto simp: best_entry_def All_less_Suc2 intro: less_imp_le)
qed

lemma no_entry_0: "no_entry cs 0"
  by (simp add: no_entry_def)

lemma highest_loop_spec:
  assumes "0 < p"
  shows "highest_loop cs i p k = k \<and> no_entry cs p \<or> (\<exists>j. highest_loop cs i p k = i + of_nat j \<and> best_entry cs p j)"
  using assms
proof (induction cs arbitrary: i p k)
  case Nil
  then show ?case by (simp add: no_entry_def)
next
  case (Cons c cs)
  obtain r q where c: "c = (r, q)" by fastforce
  show ?case
  proof (cases "r \<and> q < p")
    case True
    show ?thesis
    proof (cases "q = 0")
      case True
      then show ?thesis using \<open>r \<and> q < p\<close> c best_entry_0 [of r q p cs] no_entry_0
        by (intro disjI2 exI [of _ 0]) simp
    next
      case False
      then have e: "highest_loop (c # cs) i p k = highest_loop cs (i + 1) q i" using True c by simp
      have "0 < q" using False by (simp add: word_neq_0_conv)
      from Cons.IH [OF this, of "i + 1" i] show ?thesis
      proof
        assume "highest_loop cs (i + 1) q i = i \<and> no_entry cs q"
        then show ?thesis using e best_entry_0 [of r q p cs] True c by (intro disjI2 exI [of _ 0]) simp
      next
        assume "\<exists>j. highest_loop cs (i + 1) q i = i + 1 + of_nat j \<and> best_entry cs q j"
        then obtain j where "highest_loop cs (i + 1) q i = i + 1 + of_nat j" "best_entry cs q j" by blast
        then show ?thesis using e best_entry_Suc' [of cs q j p r] True c by (intro disjI2 exI [of _ "Suc j"]) (simp add: ac_simps)
      qed
    qed
  next
    case False
    then have e: "highest_loop (c # cs) i p k = highest_loop cs (i + 1) p k" using Cons.prems c by auto
    have g: "r \<longrightarrow> p \<le> q" using False by auto
    from Cons.IH [OF Cons.prems, of "i + 1" k] show ?thesis
    proof
      assume "highest_loop cs (i + 1) p k = k \<and> no_entry cs p"
      then show ?thesis using e no_entry_Cons [of r q cs p] g c by simp
    next
      assume "\<exists>j. highest_loop cs (i + 1) p k = i + 1 + of_nat j \<and> best_entry cs p j"
      then obtain j where "highest_loop cs (i + 1) p k = i + 1 + of_nat j" "best_entry cs p j" by blast
      then show ?thesis using e best_entry_Suc [of cs p j r q] g c by (intro disjI2 exI [of _ "Suc j"]) (simp add: ac_simps)
    qed
  qed
qed

lemma highest_index_eq:
  assumes "l < unat count" "unat count \<le> length cs" "unat count \<le> length prios" "conn_ready conns h (cs ! l)"
    and "prios ! l \<le> WPS_MAX_CONN_PRIORITY"
    and "\<forall>m<unat count. conn_ready conns h (cs ! m) \<longrightarrow> prios ! l < prios ! m \<or> prios ! l = prios ! m \<and> l \<le> m"
  shows "get_highest_conn_index_based_on_priority conns h cs prios count = of_nat l"
proof -
  let ?es = "take (unat count) (zip (map (conn_ready conns h) cs) prios)"
  have len: "length ?es = unat count" using assms(2,3) by simp
  have nth: "?es ! m = (conn_ready conns h (cs ! m), prios ! m)" if "m < unat count" for m
    using that assms(2,3) by simp
  have "prios ! l < WPS_MAX_CONN_PRIORITY + 1"
    using assms(5) by (simp add: WPS_MAX_CONN_PRIORITY_def word_le_nat_alt word_less_nat_alt)
  then have "\<not> no_entry ?es (WPS_MAX_CONN_PRIORITY + 1)"
    using assms(1,4) len nth by (auto simp: no_entry_def not_le)
  moreover have "(0 :: u8) < WPS_MAX_CONN_PRIORITY + 1" by (simp add: WPS_MAX_CONN_PRIORITY_def)
  ultimately obtain j where j: "highest_loop ?es 0 (WPS_MAX_CONN_PRIORITY + 1) 0 = 0 + of_nat j"
    "best_entry ?es (WPS_MAX_CONN_PRIORITY + 1) j"
    using highest_loop_spec [of "WPS_MAX_CONN_PRIORITY + 1" ?es 0 0] by blast
  have jc: "j < unat count" using j(2) len by (simp add: best_entry_def)
  then have rj: "conn_ready conns h (cs ! j)" and le: "prios ! j \<le> prios ! l"
    using j(2) assms(1-4) len nth by (auto simp: best_entry_def)
  have "l < j \<Longrightarrow> prios ! j < prios ! l" using j(2) assms(1,4) len nth by (auto simp: best_entry_def)
  then have "l = j" using assms(6) jc rj le by (metis leD le_less_linear nat_less_le)
  then show ?thesis using j(1) by (simp add: get_highest_conn_index_based_on_priority_def)
qed

section \<open>Skipped frames\<close>

definition skips_grow :: "'s conn_store \<Rightarrow> 's conn_store \<Rightarrow> bool" where
  "skips_grow s t \<longleftrightarrow> (\<forall>a h. conn_ready t h a = conn_ready s h a) \<and>
     (\<forall>a. cfc_enabled (conn_credit_flow_ctrl (t a)) = cfc_enabled (conn_credit_flow_ctrl (s a)) \<and>
        unat (skipped_frames_count (conn_credit_flow_ctrl (s a))) \<le> unat (skipped_frames_count (conn_credit_flow_ctrl (t a))))"

lemma skips_grow_refl: "skips_grow s s"
  by (simp add: skips_grow_def)

lemma skips_grow_trans: "skips_grow s t \<Longrightarrow> skips_grow t u \<Longrightarrow> skips_grow s u"
  unfolding skips_grow_def by (blast intro: order_trans)

lemma skip_frame_grows: "skips_grow s (skip_frame c s)"
proof -
  have "unat k \<le> unat (k + 1)" if "k < 255" for k :: u8 using unat_inc [OF that] by simp
  then show ?thesis by (auto simp: skips_grow_def skip_frame_def conn_ready_def Let_def)
qed

lemma skip_frame_counts:
  "unat (skipped_frames_count (conn_credit_flow_ctrl (s c))) < 255 \<Longrightarrow>
   unat (skipped_frames_count (conn_credit_flow_ctrl (skip_frame c s c)))
     = Suc (unat (skipped_frames_count (conn_credit_flow_ctrl (s c))))"
  using unat_inc [of "skipped_frames_count (conn_credit_flow_ctrl (s c))" 255]
  by (simp add: skip_frame_def Let_def word_less_nat_alt)

lemma highest_same:
  "skips_grow s t \<Longrightarrow> get_highest_conn_index_based_on_priority t h cs prios count
     = get_highest_conn_index_based_on_priority s h cs prios count"
  by (simp add: skips_grow_def get_highest_conn_index_based_on_priority_def fun_eq_iff cong: map_cong)

lemma main_search_grows:
  "skips_grow s (snd (get_highest_main_conn_index_based_on_priority_and_credits h cs prios count depth s))"
proof (induction depth arbitrary: prios s)
  case 0
  show ?case by (subst get_highest_main_conn_index_based_on_priority_and_credits.simps)
      (simp add: Let_def skips_grow_refl skip_frame_grows)
next
  case (Suc d)
  show ?case by (subst get_highest_main_conn_index_based_on_priority_and_credits.simps)
      (simp add: Let_def skips_grow_refl skips_grow_trans [OF skip_frame_grows Suc.IH])
qed

text \<open>Either the highest connection is picked or its count of skipped frames rises.\<close>

lemma main_search_step:
  fixes conns :: "'s conn_store"
  defines "skipped \<equiv> \<lambda>s :: 's conn_store. \<lambda>c. unat (skipped_frames_count (conn_credit_flow_ctrl (s c)))"
  assumes "get_highest_conn_index_based_on_priority conns h cs prios count = i"
    and "get_highest_main_conn_index_based_on_priority_and_credits h cs prios count depth conns = (k, t)"
  shows "k = i \<or> skipped conns (cs ! unat i) < 3 \<and> skipped conns (cs ! unat i) < skipped t (cs ! unat i)"
proof -
  let ?c = "cs ! unat i" and ?k = "conn_credit_flow_ctrl (conns (cs ! unat i))"
  show ?thesis
  proof (cases "credits_count ?k > 0 \<or> skipped_frames_count ?k \<ge> CREDIT_FLOW_CTRL_SKIPPED_FRAMES_THRESHOLD")
    case True
    then show ?thesis using assms(2,3) get_highest_main_conn_index_based_on_priority_and_credits.simps
        [of h cs prios count depth conns] by (simp add: Let_def)
  next
    case False
    then have lt: "skipped conns ?c < 3"
      by (simp add: skipped_def CREDIT_FLOW_CTRL_SKIPPED_FRAMES_THRESHOLD_def word_le_nat_alt not_le)
    then have s: "skipped conns ?c < skipped (skip_frame ?c conns) ?c"
      unfolding skipped_def by (subst skip_frame_counts) simp_all
    have "skips_grow (skip_frame ?c conns) t"
    proof (cases depth)
      case 0
      then show ?thesis
        using False assms(2,3) get_highest_main_conn_index_based_on_priority_and_credits.simps [of h cs prios count depth conns]
        by (simp add: Let_def skips_grow_refl)
    next
      case (Suc d)
      then have "get_highest_main_conn_index_based_on_priority_and_credits h cs (prios[unat i := WPS_MAX_CONN_PRIORITY + 1])
          count d (skip_frame ?c conns) = (k, t)"
        using False assms(2,3) get_highest_main_conn_index_based_on_priority_and_credits.simps [of h cs prios count depth conns]
        by (simp add: Let_def)
      then show ?thesis
        using main_search_grows [of "skip_frame ?c conns" h cs "prios[unat i := WPS_MAX_CONN_PRIORITY + 1]" count d] by simp
    qed
    then have "skipped (skip_frame ?c conns) ?c \<le> skipped t ?c" by (simp add: skips_grow_def skipped_def)
    with s lt show ?thesis by simp
  qed
qed

text \<open>The connections picked by a number of consecutive calls.\<close>

fun main_calls :: "xheap \<Rightarrow> nat list \<Rightarrow> u8 list \<Rightarrow> u8 \<Rightarrow> nat \<Rightarrow> 's conn_store \<Rightarrow> u8 list" where
  "main_calls h cs prios count 0 conns = []"
| "main_calls h cs prios count (Suc n) conns =
     (case wps_conn_priority_get_highest_main_conn_index h cs prios count conns of
        (i, conns1) \<Rightarrow> i # main_calls h cs prios count n conns1)"

lemma main_calls_serve:
  assumes "get_highest_conn_index_based_on_priority conns h cs prios count = i"
    and "cfc_enabled (conn_credit_flow_ctrl (conns (cs ! 0)))"
    and "4 \<le> n + unat (skipped_frames_count (conn_credit_flow_ctrl (conns (cs ! unat i))))" "0 < n"
  shows "i \<in> set (main_calls h cs prios count n conns)"
  using assms
proof (induction n arbitrary: conns)
  case (Suc n)
  obtain k t where k: "get_highest_main_conn_index_based_on_priority_and_credits h cs prios count (unat (count - 1)) conns = (k, t)"
    by fastforce
  have g: "skips_grow conns t" using main_search_grows [of conns h cs prios count "unat (count - 1)"] k by simp
  have w: "wps_conn_priority_get_highest_main_conn_index h cs prios count conns
      = (if k = USE_HIGHEST_CONNECTION_PRIORITY then i else k, t)"
    using Suc.prems(1,2) k highest_same [OF g] by (simp add: wps_conn_priority_get_highest_main_conn_index_def)
  from main_search_step [OF Suc.prems(1) k] show ?case
  proof
    assume "k = i"
    then show ?thesis using w by simp
  next
    assume "unat (skipped_frames_count (conn_credit_flow_ctrl (conns (cs ! unat i)))) < 3 \<and>
      unat (skipped_frames_count (conn_credit_flow_ctrl (conns (cs ! unat i))))
        < unat (skipped_frames_count (conn_credit_flow_ctrl (t (cs ! unat i))))"
    then have "4 \<le> n + unat (skipped_frames_count (conn_credit_flow_ctrl (t (cs ! unat i))))" "0 < n"
      using Suc.prems(3) by linarith+
    moreover have "cfc_enabled (conn_credit_flow_ctrl (t (cs ! 0)))" using g Suc.prems(2) by (simp add: skips_grow_def)
    ultimately have "i \<in> set (main_calls h cs prios count n t)"
      using Suc.IH [of t] Suc.prems(1) highest_same [OF g] by simp
    then show ?thesis using w by simp
  qed
qed simp

section \<open>Properties\<close>

text \<open>
  C17. No starvation without credits: with credit flow control, the ready connection of highest
  priority (lowest number, then lowest index) is picked at least once in any four consecutive
  searches, even when its peer never grants it a credit.
\<close>

theorem wps_conn_priority_no_starvation:
  assumes "l < unat count" "unat count \<le> length cs" "unat count \<le> length prios" "conn_ready conns h (cs ! l)"
    and "prios ! l \<le> WPS_MAX_CONN_PRIORITY"
    and "\<forall>m<unat count. conn_ready conns h (cs ! m) \<longrightarrow> prios ! l < prios ! m \<or> prios ! l = prios ! m \<and> l \<le> m"
    and "cfc_enabled (conn_credit_flow_ctrl (conns (cs ! 0)))"
  shows "of_nat l \<in> set (main_calls h cs prios count 4 conns)"
  by (rule main_calls_serve [OF highest_index_eq [OF assms(1-6)] assms(7)]) simp_all

definition priority_example :: "bool \<Rightarrow> unit wps_connection" where
  "priority_example en = undefined\<lparr>conn_currently_enabled := en, conn_xlayer_queue := 7,
     conn_credit_flow_ctrl := link_credit_flow_ctrl_init True 0\<rparr>"

theorem wps_conn_priority_no_starvation_witness:
  "1 \<in> set (main_calls (undefined\<lparr>xqueues := \<lambda>_. undefined\<lparr>free_xlayer_queue_type := False, xq_size := 1, xq_head := Some 3\<rparr>\<rparr>)
     [10, 11, 12] [2, 0, 1] 3 4 ((\<lambda>_. priority_example False)(11 := priority_example True, 12 := priority_example True)))"
proof -
  let ?h = "undefined\<lparr>xqueues := \<lambda>_. undefined\<lparr>free_xlayer_queue_type := False, xq_size := 1, xq_head := Some 3\<rparr>\<rparr>"
  let ?s = "(\<lambda>_. priority_example False)(11 := priority_example True, 12 := priority_example True) :: nat \<Rightarrow> unit wps_connection"
  have r: "conn_ready ?s ?h ([10, 11, 12] ! 1)" "\<not> conn_ready ?s ?h ([10, 11, 12] ! 0)"
    by (simp_all add: conn_ready_def priority_example_def xlayer_queue_get_node_def)
  have c: "cfc_enabled (conn_credit_flow_ctrl (?s ([10, 11, 12] ! 0)))"
    by (simp add: priority_example_def link_credit_flow_ctrl_init_def)
  have best: "\<forall>m<unat (3 :: u8). conn_ready ?s ?h ([10, 11, 12] ! m) \<longrightarrow> [2, 0, 1 :: u8] ! 1 < [2, 0, 1] ! m
      \<or> [2, 0, 1 :: u8] ! 1 = [2, 0, 1] ! m \<and> 1 \<le> m"
  proof (intro allI impI)
    fix m assume "m < unat (3 :: u8)" and m: "conn_ready ?s ?h ([10, 11, 12] ! m)"
    then consider "m = 0" | "m = 1" | "m = 2" by fastforce
    then show "[2, 0, 1 :: u8] ! 1 < [2, 0, 1] ! m \<or> [2, 0, 1 :: u8] ! 1 = [2, 0, 1] ! m \<and> 1 \<le> m"
      by cases (use m r(2) in simp_all)
  qed
  have "of_nat 1 \<in> set (main_calls ?h [10, 11, 12] [2, 0, 1] 3 4 ?s)"
    by (rule wps_conn_priority_no_starvation [OF _ _ _ r(1) _ best c]) (simp_all add: WPS_MAX_CONN_PRIORITY_def)
  then show ?thesis by simp
qed

end
