(* ===== verification/Frame_Sink.thy ===== *)
theory Frame_Sink
  imports Radio_Types
begin

text \<open>
  The contract of the transmit side of a connection, as the fragmentation layer relies on it: a
  piece that fits is appended to the queued frames and leaves the other pieces to be sent as they
  were. \<open>put_all\<close> sends a list of pieces up to the first error; the locale \<open>frame_sink\<close> shows
  what it does to a sink with room for all of them. The theory \<open>Wps_Conn\<close> interprets it on
  \<open>wps_get_free_slot\<close> and \<open>wps_send\<close>.
\<close>

fun put_all :: "('p \<Rightarrow> 's \<Rightarrow> wps_error \<times> 's) \<Rightarrow> 'p list \<Rightarrow> 's \<Rightarrow> wps_error \<times> 's" where
  "put_all put [] s = (WPS_NO_ERROR, s)"
| "put_all put (p # ps) s =
     (case put p s of (e, s1) \<Rightarrow> if e \<noteq> WPS_NO_ERROR then (e, s1) else put_all put ps s1)"

locale frame_sink =
  fixes ready :: "'s \<Rightarrow> nat \<Rightarrow> nat \<Rightarrow> bool"
    and fits :: "'s \<Rightarrow> 'p \<Rightarrow> bool"
    and cost :: "'s \<Rightarrow> 'p \<Rightarrow> nat"
    and frames :: "'s \<Rightarrow> byte list list"
    and content :: "'s \<Rightarrow> 'p \<Rightarrow> byte list"
    and extends :: "'s \<Rightarrow> 's \<Rightarrow> bool"
    and put :: "'p \<Rightarrow> 's \<Rightarrow> wps_error \<times> 's"
  assumes put_ok: "\<lbrakk>ready s (Suc m) (cost s p + k); fits s p\<rbrakk> \<Longrightarrow>
      \<exists>s'. put p s = (WPS_NO_ERROR, s') \<and> ready s' m k \<and> extends s s' \<and> frames s' = frames s @ [content s p]"
    and stable: "\<lbrakk>extends s s'; fits s p\<rbrakk> \<Longrightarrow> fits s' p \<and> cost s' p = cost s p \<and> content s' p = content s p"
    and extends_refl: "extends s s"
    and extends_trans: "\<lbrakk>extends s s'; extends s' s''\<rbrakk> \<Longrightarrow> extends s s''"
begin

lemma put_all_ok:
  assumes "ready s (length ps + m) (sum_list (map (cost s) ps) + k)" "\<forall>p\<in>set ps. fits s p"
  shows "\<exists>s'. put_all put ps s = (WPS_NO_ERROR, s') \<and> ready s' m k \<and> extends s s' \<and>
    frames s' = frames s @ map (content s) ps"
  using assms
proof (induction ps arbitrary: s)
  case Nil
  then show ?case by (simp add: extends_refl)
next
  case (Cons p ps)
  have "ready s (Suc (length ps + m)) (cost s p + (sum_list (map (cost s) ps) + k))"
    using Cons.prems(1) by (simp add: add.assoc)
  then obtain s1 where p: "put p s = (WPS_NO_ERROR, s1)" "ready s1 (length ps + m) (sum_list (map (cost s) ps) + k)"
    "extends s s1" "frames s1 = frames s @ [content s p]"
    using put_ok Cons.prems(2) by (metis list.set_intros(1))
  have st: "fits s1 q \<and> cost s1 q = cost s q \<and> content s1 q = content s q" if "q \<in> set ps" for q
    using stable [OF p(3)] Cons.prems(2) that by simp
  then have m: "map (cost s1) ps = map (cost s) ps" "map (content s1) ps = map (content s) ps" by simp_all
  have "\<exists>s'. put_all put ps s1 = (WPS_NO_ERROR, s') \<and> ready s' m k \<and> extends s1 s' \<and>
      frames s' = frames s1 @ map (content s1) ps"
    by (rule Cons.IH) (unfold m(1), rule p(2), simp add: st)
  then obtain s' where "put_all put ps s1 = (WPS_NO_ERROR, s')" "ready s' m k" "extends s1 s'"
    "frames s' = frames s1 @ map (content s1) ps" by blast
  then have "put_all put (p # ps) s = (WPS_NO_ERROR, s') \<and> ready s' m k \<and> extends s s' \<and>
      frames s' = frames s @ map (content s) (p # ps)"
    using p m(2) extends_trans by auto
  then show ?case by blast
qed

text \<open>An error is passed on and nothing after it is sent.\<close>

lemma put_all_append:
  "put_all put (ps @ qs) s =
     (case put_all put ps s of (e, s1) \<Rightarrow> if e \<noteq> WPS_NO_ERROR then (e, s1) else put_all put qs s1)"
  by (induction ps arbitrary: s) (auto split: prod.splits)

end

end
