(* ===== verification/Wps_Conn.thy ===== *)
theory Wps_Conn
  imports Xlayer_Queue Circular_Data Frame_Sink
begin

text \<open>
  The application side of a connection (\<open>wps.c\<close>): taking a free slot and sending it, reading a
  received frame and releasing it. The state \<open>wps_io\<close> has what these functions touch: the store of
  nodes and queues, the bytes of the target's memory, the two circular buffers the connection
  shares, and the connection's own fields. \<open>io_now\<close> is what \<open>cfg.get_tick()\<close> returns.

  \<open>conn_frames\<close> is the abstract view, the payloads queued on the connection; \<open>tx_inv\<close> says that
  each of them lies in a live block of the transmit buffer, and \<open>rx_inv\<close> that releasing a
  received frame sends its node to another, well-formed queue.
\<close>

record wps_io =
  io_heap :: xheap
  io_mem :: "nat \<Rightarrow> byte"
  io_queue :: nat
  io_free_tx_queue :: nat
  io_tx_data :: "xlayer_circular_data option"
  io_rx_data :: "xlayer_circular_data option"
  io_header_size :: u8
  io_payload_size :: u8
  io_tx_node :: "nat option"
  io_now :: u64

definition io_frame :: "wps_io \<Rightarrow> nat \<Rightarrow> xlayer_frame" where
  "io_frame s a = xl_frame (xn_xlayer (xnodes (io_heap s) a))"

text \<open>A pointer that may be \<open>NULL\<close>, as an address.\<close>

definition ptr_of :: "nat \<Rightarrow> nat option" where
  "ptr_of a = (if a = 0 then None else Some a)"

definition memcpy :: "nat \<Rightarrow> nat \<Rightarrow> nat \<Rightarrow> (nat \<Rightarrow> byte) \<Rightarrow> nat \<Rightarrow> byte" where
  "memcpy dst src n m = (\<lambda>x. if dst \<le> x \<and> x < dst + n then m (src + (x - dst)) else m x)"

definition store_bytes :: "nat \<Rightarrow> byte list \<Rightarrow> (nat \<Rightarrow> byte) \<Rightarrow> nat \<Rightarrow> byte" where
  "store_bytes dst bs m = (\<lambda>x. if dst \<le> x \<and> x < dst + length bs then bs ! (x - dst) else m x)"

definition load_bytes :: "(nat \<Rightarrow> byte) \<Rightarrow> nat \<Rightarrow> nat \<Rightarrow> byte list" where
  "load_bytes m a n = map (\<lambda>i. m (a + i)) [0..<n]"

section \<open>Sending\<close>

text \<open>
  The slot size is computed in \<open>int\<close> and stored in the 8 bits of \<open>max_frame_size\<close>. The result is
  the error or the address \<open>*payload\<close> is set to.
\<close>

definition slot_size :: "u8 \<Rightarrow> u16 \<Rightarrow> u8" where
  "slot_size header_size sz =
     of_nat (unat header_size + unat sz + XLAYER_QUEUE_SPI_COMM_ADDITIONAL_BYTES)"

definition upd_io_frame :: "nat \<Rightarrow> (xlayer_frame \<Rightarrow> xlayer_frame) \<Rightarrow> wps_io \<Rightarrow> wps_io" where
  "upd_io_frame a f s = s\<lparr>io_heap := upd_node a (upd_frame f) (io_heap s)\<rparr>"

text \<open>
  Allocating the memory of the node just taken, in \<open>wps_get_free_slot\<close> and \<open>wps_send\<close>.
\<close>

definition allocate_slot :: "nat \<Rightarrow> u8 \<Rightarrow> wps_io \<Rightarrow> bool \<times> wps_io" where
  "allocate_slot a sz s =
     (let s1 = upd_io_frame a (\<lambda>f. f\<lparr>max_frame_size := sz\<rparr>) s;
          (slot_data, d) = xlayer_circular_data_allocate_space (io_tx_data s1) (ucast sz);
          s2 = s1\<lparr>io_tx_data := d\<rparr>
      in case slot_data of
           None \<Rightarrow> (False, s2\<lparr>io_heap := xlayer_queue_free_node (Some a) (io_heap s2), io_tx_node := None\<rparr>)
         | Some buf \<Rightarrow> (True, upd_io_frame a (xlayer_queue_set_tx_frame_buffer (io_header_size s2) buf) s2))"

definition io_queue_full :: "wps_io \<Rightarrow> bool" where
  "io_queue_full s \<longleftrightarrow> xlayer_queue_get_size (Some (io_queue s)) (io_heap s)
     \<ge> xlayer_queue_get_max_size (Some (io_queue s)) (io_heap s)"

definition take_tx_node :: "wps_io \<Rightarrow> wps_io" where
  "take_tx_node s = (let (n, h) = xlayer_queue_get_free_node (io_free_tx_queue s) (io_heap s)
                     in s\<lparr>io_tx_node := n, io_heap := h\<rparr>)"

definition wps_get_free_slot :: "u16 \<Rightarrow> wps_io \<Rightarrow> (wps_error + nat) \<times> wps_io" where
  "wps_get_free_slot sz s =
     (if io_queue_full s then (Inl WPS_QUEUE_FULL_ERROR, s)
      else (let s1 = take_tx_node s in
        case io_tx_node s1 of
          None \<Rightarrow> (Inl WPS_QUEUE_FULL_ERROR, s1)
        | Some a \<Rightarrow>
            (let (ok, s2) = allocate_slot a (slot_size (io_header_size s1) sz) s1
             in if \<not> ok then (Inl WPS_NOT_ENOUGH_MEMORY_ERROR, s2)
                else (Inr (payload_begin_it (io_frame s2 a)), s2))))"

text \<open>The last part of \<open>wps_send\<close>, once the connection has a node \<open>a\<close>.\<close>

definition send_node :: "nat \<Rightarrow> nat \<Rightarrow> u8 \<Rightarrow> bool \<Rightarrow> wps_io \<Rightarrow> wps_io" where
  "send_node a payload sz user s =
     (let s1 = upd_io_frame a (\<lambda>f. f\<lparr>retry_count := 0, time_stamp := io_now s, payload_memory_size := sz,
                 header_memory_size := io_header_size s, payload_memory := payload, payload_begin_it := payload,
                 payload_end_it := payload + unat sz, user_payload := (if user then 1 else 0)\<rparr>) s;
          (ok, h) = xlayer_queue_enqueue_node (io_queue s1) (Some a) (io_heap s1);
          s2 = s1\<lparr>io_heap := h\<rparr>;
          s3 = (if ok then s2
                else s2\<lparr>io_tx_data := snd (xlayer_circular_data_free_space (io_tx_data s2)
                             (ptr_of (header_memory (io_frame s2 a))) (ucast (max_frame_size (io_frame s2 a)))),
                        io_heap := xlayer_queue_free_node (Some a) (io_heap s2)\<rparr>)
      in s3\<lparr>io_tx_node := None\<rparr>)"

definition wps_send :: "nat \<Rightarrow> u8 \<Rightarrow> wps_io \<Rightarrow> wps_error \<times> wps_io" where
  "wps_send payload sz s =
     (if sz > io_payload_size s \<and> io_payload_size s \<noteq> 0 then (WPS_WRONG_TX_SIZE_ERROR, s)
      else if io_queue_full s then (WPS_QUEUE_FULL_ERROR, s)
      else (case io_tx_node s of
        Some a \<Rightarrow> (WPS_NO_ERROR, send_node a payload sz False s)
      | None \<Rightarrow>
          (let s1 = take_tx_node s in
           case io_tx_node s1 of
             None \<Rightarrow> (WPS_QUEUE_FULL_ERROR, s1)
           | Some a \<Rightarrow>
               (let (ok, s2) = allocate_slot a (slot_size (io_header_size s1) 0) s1
                in if \<not> ok then (WPS_NOT_ENOUGH_MEMORY_ERROR, s2)
                   else (WPS_NO_ERROR, send_node a payload sz True s2)))))"

section \<open>Receiving\<close>

text \<open>
  \<open>wps_read\<close> does not change the state; it gives the error, the address and the size of the payload.
  The queue of a connection is never of the free type, so \<open>xlayer_queue_get_node\<close> finds a node.
\<close>

definition wps_read :: "wps_io \<Rightarrow> wps_error \<times> nat \<times> u16" where
  "wps_read s =
     (if xlayer_queue_get_size (Some (io_queue s)) (io_heap s) = 0 then (WPS_QUEUE_EMPTY_ERROR, 0, 0)
      else (let f = io_frame s (the (xlayer_queue_get_node (io_queue s) (io_heap s)))
            in (WPS_NO_ERROR, payload_begin_it f,
                word_of_int (int (payload_end_it f) - int (payload_begin_it f)))))"

definition wps_mac_xlayer_free_node_with_data :: "nat option \<Rightarrow> wps_io \<Rightarrow> wps_io" where
  "wps_mac_xlayer_free_node_with_data node s =
     (case node of
        None \<Rightarrow> s
      | Some a \<Rightarrow>
          (let s1 = s\<lparr>io_rx_data := snd (xlayer_circular_data_free_space (io_rx_data s)
                        (ptr_of (payload_memory (io_frame s a))) (ucast (max_frame_size (io_frame s a))))\<rparr>;
               s2 = upd_io_frame a (\<lambda>f. f\<lparr>payload_memory := 0, max_frame_size := 0\<rparr>) s1
           in s2\<lparr>io_heap := xlayer_queue_free_node (Some a) (io_heap s2)\<rparr>))"

definition wps_read_done :: "wps_io \<Rightarrow> wps_error \<times> wps_io" where
  "wps_read_done s =
     (let (node, h) = xlayer_queue_dequeue_node (io_queue s) (io_heap s); s1 = s\<lparr>io_heap := h\<rparr>
      in if node = None then (WPS_QUEUE_EMPTY_ERROR, s1)
         else (WPS_NO_ERROR, wps_mac_xlayer_free_node_with_data node s1))"

definition wps_read_to_buffer :: "nat \<Rightarrow> u32 \<Rightarrow> wps_io \<Rightarrow> wps_error \<times> (nat \<times> u16) \<times> wps_io" where
  "wps_read_to_buffer payload max_size s =
     (case wps_read s of (err, p, n) \<Rightarrow>
        if err \<noteq> WPS_NO_ERROR then (err, (0, 0), s)
        else if unat n > unat max_size then (WPS_WRONG_RX_SIZE_ERROR, (0, 0), s)
        else (case wps_read_done (s\<lparr>io_mem := memcpy payload p (unat n) (io_mem s)\<rparr>) of (err, s1) \<Rightarrow>
                if err \<noteq> WPS_NO_ERROR then (err, (0, 0), s1) else (err, (p, n), s1)))"

definition wps_get_read_payload_size :: "wps_io \<Rightarrow> wps_error \<times> u16" where
  "wps_get_read_payload_size s =
     (if xlayer_queue_get_size (Some (io_queue s)) (io_heap s) = 0 then (WPS_QUEUE_EMPTY_ERROR, 0)
      else (let f = io_frame s (the (xlayer_queue_get_node (io_queue s) (io_heap s)))
            in (WPS_NO_ERROR, word_of_int (int (payload_end_it f) - int (payload_begin_it f)))))"

definition wps_get_fifo_size :: "wps_io \<Rightarrow> u32" where
  "wps_get_fifo_size s = ucast (xlayer_queue_get_size (Some (io_queue s)) (io_heap s))"

definition wps_get_fifo_free_space :: "wps_io \<Rightarrow> u32" where
  "wps_get_fifo_free_space s = ucast (xlayer_queue_get_free_space (Some (io_queue s)) (io_heap s))"

section \<open>Frames of a connection\<close>

definition frame_payload :: "wps_io \<Rightarrow> nat \<Rightarrow> byte list" where
  "frame_payload s a = load_bytes (io_mem s) (payload_begin_it (io_frame s a))
     (payload_end_it (io_frame s a) - payload_begin_it (io_frame s a))"

definition conn_nodes :: "wps_io \<Rightarrow> nat list" where
  "conn_nodes s = xq_items (io_heap s) (io_queue s)"

definition conn_frames :: "wps_io \<Rightarrow> byte list list" where
  "conn_frames s = map (frame_payload s) (conn_nodes s)"

lemma length_load [simp]: "length (load_bytes m a n) = n"
  by (simp add: load_bytes_def)

lemma load_cong: "(\<And>x. a \<le> x \<Longrightarrow> x < a + n \<Longrightarrow> m x = m' x) \<Longrightarrow> load_bytes m a n = load_bytes m' a n"
  by (simp add: load_bytes_def)

lemma load_store_same: "n = length bs \<Longrightarrow> load_bytes (store_bytes a bs m) a n = bs"
  by (intro nth_equalityI) (simp_all add: load_bytes_def store_bytes_def)

lemma load_memcpy_same: "load_bytes (memcpy dst src n m) dst n = load_bytes m src n"
  by (simp add: load_bytes_def memcpy_def)

lemma load_append: "load_bytes m a (n + k) = load_bytes m a n @ load_bytes m (a + n) k"
  by (intro nth_equalityI) (auto simp: load_bytes_def nth_append)

lemma load_take: "n \<le> k \<Longrightarrow> take n (load_bytes m a k) = load_bytes m a n"
  by (intro nth_equalityI) (auto simp: load_bytes_def)

lemma load_drop: "drop n (load_bytes m a k) = load_bytes m (a + n) (k - n)"
  by (intro nth_equalityI) (auto simp: load_bytes_def algebra_simps)

lemma load_nth: "i < n \<Longrightarrow> load_bytes m a n ! i = m (a + i)"
  by (simp add: load_bytes_def)

lemma walk_next:
  assumes "\<And>b. xn_next (xnodes h' b) = xn_next (xnodes h b)"
  shows "xq_walk h' n p = xq_walk h n p"
proof (induction n arbitrary: p)
  case 0
  show ?case by simp
next
  case (Suc n)
  then show ?case by (cases p) (simp_all add: assms)
qed

text \<open>Writing to the frame of a node leaves every list as it is.\<close>

lemma upd_frame_lists [simp]:
  "xq_items (upd_node a (upd_frame f) h) q = xq_items h q"
  "xq_wf (upd_node a (upd_frame f) h) q = xq_wf h q"
  "xheap_wf qs (upd_node a (upd_frame f) h) = xheap_wf qs h"
  "xq_cap (upd_node a (upd_frame f) h) q = xq_cap h q"
proof -
  have i: "xq_items (upd_node a (upd_frame f) h) r = xq_items h r" for r
    unfolding xq_items_def by (subst walk_next [where h = h]) (simp_all add: upd_frame_def)
  show "xq_items (upd_node a (upd_frame f) h) q = xq_items h q"
    "xq_wf (upd_node a (upd_frame f) h) q = xq_wf h q"
    "xheap_wf qs (upd_node a (upd_frame f) h) = xheap_wf qs h"
    "xq_cap (upd_node a (upd_frame f) h) q = xq_cap h q"
    by (simp_all add: i xq_wf_def xheap_wf_def xq_cap_def)
qed

lemma upd_io_frame_simps [simp]:
  "io_heap (upd_io_frame a f s) = upd_node a (upd_frame f) (io_heap s)"
  "io_mem (upd_io_frame a f s) = io_mem s" "io_queue (upd_io_frame a f s) = io_queue s"
  "io_free_tx_queue (upd_io_frame a f s) = io_free_tx_queue s"
  "io_tx_data (upd_io_frame a f s) = io_tx_data s" "io_rx_data (upd_io_frame a f s) = io_rx_data s"
  "io_header_size (upd_io_frame a f s) = io_header_size s"
  "io_payload_size (upd_io_frame a f s) = io_payload_size s"
  "io_tx_node (upd_io_frame a f s) = io_tx_node s" "io_now (upd_io_frame a f s) = io_now s"
  "io_frame (upd_io_frame a f s) b = (if b = a then f (io_frame s b) else io_frame s b)"
  by (simp_all add: upd_io_frame_def io_frame_def upd_frame_def)

lemma enqueue_xlayer:
  "xn_xlayer (xnodes (snd (xlayer_queue_enqueue_node q n h)) b) = xn_xlayer (xnodes h b)"
  by (auto simp: xlayer_queue_enqueue_node_def Let_def split: option.splits)

lemma dequeue_nodes: "xnodes (snd (xlayer_queue_dequeue_node q h)) = xnodes h"
  by (simp add: xlayer_queue_dequeue_node_def Let_def)

lemma free_node_xlayer:
  "xn_xlayer (xnodes (xlayer_queue_free_node n h) b) = xn_xlayer (xnodes h b)"
  by (auto simp: xlayer_queue_free_node_def enqueue_xlayer split: option.splits)

lemma queue_full_iff:
  assumes "xq_wf (io_heap s) (io_queue s)"
  shows "io_queue_full s \<longleftrightarrow> \<not> length (conn_nodes s) < xq_cap (io_heap s) (io_queue s)"
  using wf_full_iff [OF assms]
  by (simp add: io_queue_full_def xlayer_queue_get_size_def xlayer_queue_get_max_size_def conn_nodes_def)
    (metis linorder_not_less)

section \<open>Filling and sending a slot\<close>

text \<open>
  The idiom of the senders: take a slot of \<open>sz\<close> bytes, write \<open>hdr\<close> and then \<open>n\<close> bytes from \<open>src\<close>
  into it, send it. The 32-bit size is truncated by the parameters of the two calls.
\<close>

definition put_frame :: "byte list \<Rightarrow> nat \<Rightarrow> u32 \<Rightarrow> u32 \<Rightarrow> wps_io \<Rightarrow> wps_error \<times> wps_io" where
  "put_frame hdr src n sz s =
     (case wps_get_free_slot (ucast sz) s of
        (Inl e, s1) \<Rightarrow> (e, s1)
      | (Inr p, s1) \<Rightarrow>
          wps_send p (ucast sz)
            (s1\<lparr>io_mem := memcpy (p + length hdr) src (unat n) (store_bytes p hdr (io_mem s1))\<rparr>))"

text \<open>
  Memory the next allocations will not touch, when the free part of the transmit buffer is the
  part from \<open>head\<close> to the end.
\<close>

definition spared :: "xlayer_circular_data \<Rightarrow> nat \<Rightarrow> nat \<Rightarrow> bool" where
  "spared c x n \<longleftrightarrow> x + n \<le> cd_buffer c + unat (cd_head c) \<or> cd_buffer c + unat (cd_buffer_size c) \<le> x"

definition io_tx_spared :: "wps_io \<Rightarrow> nat \<Rightarrow> nat \<Rightarrow> bool" where
  "io_tx_spared s x n \<longleftrightarrow> (\<forall>c. io_tx_data s = Some c \<longrightarrow> spared c x n)"

text \<open>
  A connection with room for \<open>n\<close> more frames that take \<open>k\<close> bytes of the transmit buffer, all of
  them before its end, and whose queued payloads are elsewhere.
\<close>

definition tx_ready :: "wps_io \<Rightarrow> nat \<Rightarrow> nat \<Rightarrow> bool" where
  "tx_ready s n k \<longleftrightarrow>
     xheap_wf {io_queue s, io_free_tx_queue s} (io_heap s) \<and> io_queue s \<noteq> io_free_tx_queue s \<and>
     free_xlayer_queue_type (xqueues (io_heap s) (io_free_tx_queue s)) \<and>
     length (conn_nodes s) + n \<le> xq_cap (io_heap s) (io_queue s) \<and>
     n \<le> length (xq_items (io_heap s) (io_free_tx_queue s)) \<and>
     (case io_tx_data s of None \<Rightarrow> False | Some c \<Rightarrow>
        cd_tail c \<le> cd_head c \<and> unat (cd_head c) + k \<le> unat (cd_buffer_size c) \<and>
        (\<forall>a\<in>set (conn_nodes s). spared c (payload_begin_it (io_frame s a))
            (payload_end_it (io_frame s a) - payload_begin_it (io_frame s a))))"

text \<open>The part of it the code's own tests need.\<close>

definition tx_room :: "wps_io \<Rightarrow> nat \<Rightarrow> nat \<Rightarrow> bool" where
  "tx_room s n k \<longleftrightarrow>
     xheap_wf {io_queue s, io_free_tx_queue s} (io_heap s) \<and> io_queue s \<noteq> io_free_tx_queue s \<and>
     free_xlayer_queue_type (xqueues (io_heap s) (io_free_tx_queue s)) \<and>
     length (conn_nodes s) + n \<le> xq_cap (io_heap s) (io_queue s) \<and>
     n \<le> length (xq_items (io_heap s) (io_free_tx_queue s)) \<and>
     (case io_tx_data s of None \<Rightarrow> False | Some c \<Rightarrow>
        cd_tail c \<le> cd_head c \<and> unat (cd_head c) + k \<le> unat (cd_buffer_size c))"

lemma tx_ready_room: "tx_ready s n k \<Longrightarrow> tx_room s n k"
  by (simp add: tx_ready_def tx_room_def split: option.splits)

lemma spared_sub: "spared c x n \<Longrightarrow> x \<le> y \<Longrightarrow> y + m \<le> x + n \<Longrightarrow> spared c y m"
  by (auto simp: spared_def)

lemma unat_u8_u16: "unat (ucast (x :: u8) :: u16) = unat x"
  using unat_u8_lt [of x] by (simp add: unat_ucast_mod del: unat_u8_lt)

text \<open>An allocation in the flat state takes the bytes at \<open>head\<close>.\<close>

lemma alloc_flat:
  assumes "cd_tail c \<le> cd_head c" "unat (cd_head c) + unat n \<le> unat (cd_buffer_size c)"
  shows "xlayer_circular_data_allocate_space (Some c) n =
    (Some (cd_buffer c + unat (cd_head c)), Some (c\<lparr>cd_last_head := cd_head c, cd_head := cd_head c + n\<rparr>))"
proof -
  have "unat (cd_head c) \<le> unat (cd_buffer_size c)" using assms(2) by linarith
  then have "unat (cd_buffer_size c - cd_head c) = unat (cd_buffer_size c) - unat (cd_head c)"
    by (intro unat_sub) (simp add: word_le_nat_alt)
  then have "n \<le> cd_buffer_size c - cd_head c" using assms(2) by (simp add: word_le_nat_alt)
  then show ?thesis using assms(1) by (simp add: xlayer_circular_data_allocate_space_def)
qed

text \<open>Taking the node and its memory.\<close>

lemma get_free_slot_flat:
  assumes r: "tx_room s (Suc m) (unat (slot_size (io_header_size s) n) + k)" and c: "io_tx_data s = Some c"
  obtains a s1 h1 where
    "wps_get_free_slot n s =
       (Inr (cd_buffer c + unat (cd_head c) + (unat (io_header_size s) + XLAYER_QUEUE_SPI_COMM_ADDITIONAL_BYTES)), s1)"
    "io_tx_node s1 = Some a" "conn_nodes s1 = conn_nodes s" "a \<notin> set (conn_nodes s)"
    "\<forall>b. b \<noteq> a \<longrightarrow> io_frame s1 b = io_frame s b"
    "xheap_wf {io_queue s, io_free_tx_queue s} (io_heap s1)"
    "a \<notin> set (xq_items (io_heap s1) (io_free_tx_queue s))"
    "m \<le> length (xq_items (io_heap s1) (io_free_tx_queue s))"
    "free_xlayer_queue_type (xqueues (io_heap s1) (io_free_tx_queue s))"
    "\<forall>q. xq_cap (io_heap s1) q = xq_cap (io_heap s) q"
    "s1 = s\<lparr>io_heap := h1, io_tx_node := Some a, io_tx_data := Some (c\<lparr>cd_last_head := cd_head c,
        cd_head := cd_head c + ucast (slot_size (io_header_size s) n)\<rparr>)\<rparr>"
proof -
  let ?Q = "io_queue s" and ?F = "io_free_tx_queue s" and ?z = "slot_size (io_header_size s) n"
  have w: "xheap_wf {?Q, ?F} (io_heap s)" "?Q \<noteq> ?F" "free_xlayer_queue_type (xqueues (io_heap s) ?F)"
    and rm: "length (conn_nodes s) < xq_cap (io_heap s) ?Q" "Suc m \<le> length (xq_items (io_heap s) ?F)"
    and fl: "cd_tail c \<le> cd_head c" "unat (cd_head c) + unat ?z \<le> unat (cd_buffer_size c)"
    using r c by (auto simp: tx_room_def)
  have wq: "xq_wf (io_heap s) ?Q" "xq_wf (io_heap s) ?F" using w(1) by (simp_all add: xheap_wf_def)
  obtain a fs where it: "xq_items (io_heap s) ?F = a # fs" using rm(2) by (cases "xq_items (io_heap s) ?F") auto
  obtain p h where d: "xlayer_queue_dequeue_node ?F (io_heap s) = (p, h)" by (metis prod.exhaust)
  note dq = xheap_dequeue [OF w(1) _ it d]
  have t: "take_tx_node s = s\<lparr>io_tx_node := Some a, io_heap := h\<rparr>"
    using w(3) d dq(2) by (simp add: take_tx_node_def xlayer_queue_get_free_node_def)
  have u: "unat (ucast ?z :: u16) = unat ?z" by (rule unat_u8_u16)
  have full: "\<not> io_queue_full s" using queue_full_iff [OF wq(1)] rm(1) by simp
  let ?c = "c\<lparr>cd_last_head := cd_head c, cd_head := cd_head c + ucast ?z\<rparr>"
  have al: "xlayer_circular_data_allocate_space (Some c) (ucast ?z) =
      (Some (cd_buffer c + unat (cd_head c)), Some ?c)"
    by (rule alloc_flat) (use fl u in simp_all)
  let ?s1 = "upd_io_frame a (xlayer_queue_set_tx_frame_buffer (io_header_size s) (cd_buffer c + unat (cd_head c)))
      (upd_io_frame a (\<lambda>f. f\<lparr>max_frame_size := ?z\<rparr>) (s\<lparr>io_tx_node := Some a, io_heap := h\<rparr>)\<lparr>io_tx_data := Some ?c\<rparr>)"
  have g: "wps_get_free_slot n s =
      (Inr (cd_buffer c + unat (cd_head c) + (unat (io_header_size s) + XLAYER_QUEUE_SPI_COMM_ADDITIONAL_BYTES)), ?s1)"
    using full by (simp add: wps_get_free_slot_def t allocate_slot_def al c xlayer_queue_set_tx_frame_buffer_def Let_def)
  have fr: "a \<notin> set (conn_nodes s)"
    using w(1,2) it by (auto simp: xheap_wf_def conn_nodes_def)
  show thesis
  proof (rule that [OF g])
    show "a \<notin> set (conn_nodes s)" by (rule fr)
    show "xheap_wf {?Q, ?F} (io_heap ?s1)" using dq(1) by simp
    show "a \<notin> set (xq_items (io_heap ?s1) ?F)" using dq(7) by simp
    show "m \<le> length (xq_items (io_heap ?s1) ?F)" using dq(3) rm(2) it by simp
    show "conn_nodes ?s1 = conn_nodes s" using dq(5) w(2) by (simp add: conn_nodes_def)
    show "\<forall>q. xq_cap (io_heap ?s1) q = xq_cap (io_heap s) q" using dq(6) by simp
    show "\<forall>b. b \<noteq> a \<longrightarrow> io_frame ?s1 b = io_frame s b" using dq(4) by (simp add: io_frame_def)
    show "free_xlayer_queue_type (xqueues (io_heap ?s1) ?F)"
      using dequeue_Cons(7) [OF wq(2) it d] w(3) by simp
    show "?s1 = s\<lparr>io_heap := io_heap ?s1, io_tx_node := Some a, io_tx_data := Some ?c\<rparr>"
      by (simp add: upd_io_frame_def)
  qed simp
qed

text \<open>
  The state after a send: the connection is the same and what lies outside the free part of the
  transmit buffer still does and is unchanged.
\<close>

definition tx_extends :: "wps_io \<Rightarrow> wps_io \<Rightarrow> bool" where
  "tx_extends s s' \<longleftrightarrow> io_queue s' = io_queue s \<and> io_header_size s' = io_header_size s \<and>
     io_payload_size s' = io_payload_size s \<and>
     xq_cap (io_heap s') (io_queue s) = xq_cap (io_heap s) (io_queue s) \<and>
     (\<forall>x n. io_tx_spared s x n \<longrightarrow> io_tx_spared s' x n \<and> load_bytes (io_mem s') x n = load_bytes (io_mem s) x n)"

lemma tx_extends_refl: "tx_extends s s"
  by (simp add: tx_extends_def)

lemma tx_extends_trans: "tx_extends s s' \<Longrightarrow> tx_extends s' s'' \<Longrightarrow> tx_extends s s''"
  by (simp add: tx_extends_def)

text \<open>Enqueueing the node taken and filled.\<close>

lemma send_node_ok:
  assumes w: "xheap_wf {io_queue s, F} (io_heap s)" "F \<noteq> io_queue s"
    and fresh: "a \<notin> set (conn_nodes s)" "a \<notin> set (xq_items (io_heap s) F)"
    and room: "length (conn_nodes s) < xq_cap (io_heap s) (io_queue s)"
  obtains h where
    "send_node a p n u s = s\<lparr>io_heap := h, io_tx_node := None\<rparr>"
    "xheap_wf {io_queue s, F} h" "xq_items h (io_queue s) = conn_nodes s @ [a]"
    "xq_items h F = xq_items (io_heap s) F" "\<forall>q. xq_cap h q = xq_cap (io_heap s) q"
    "\<forall>q. free_xlayer_queue_type (xqueues h q) = free_xlayer_queue_type (xqueues (io_heap s) q)"
    "\<forall>b. b \<noteq> a \<longrightarrow> xn_xlayer (xnodes h b) = xn_xlayer (xnodes (io_heap s) b)"
    "payload_begin_it (xl_frame (xn_xlayer (xnodes h a))) = p"
    "payload_end_it (xl_frame (xn_xlayer (xnodes h a))) = p + unat n"
proof -
  let ?s1 = "upd_io_frame a (\<lambda>f. f\<lparr>retry_count := 0, time_stamp := io_now s, payload_memory_size := n,
                 header_memory_size := io_header_size s, payload_memory := p, payload_begin_it := p,
                 payload_end_it := p + unat n, user_payload := (if u then 1 else 0)\<rparr>) s"
  obtain ok h where e: "xlayer_queue_enqueue_node (io_queue s) (Some a) (io_heap ?s1) = (ok, h)" by (metis prod.exhaust)
  have w1: "xheap_wf {io_queue s, F} (io_heap ?s1)" using w(1) by simp
  have q1: "xq_wf (io_heap ?s1) (io_queue s)" using w1 unfolding xheap_wf_def by blast
  have f1: "\<forall>r\<in>{io_queue s, F}. a \<notin> set (xq_items (io_heap ?s1) r)" using fresh by (simp add: conn_nodes_def)
  have r1: "length (xq_items (io_heap ?s1) (io_queue s)) < xq_cap (io_heap ?s1) (io_queue s)"
    using room by (simp add: conn_nodes_def)
  note eq = xheap_enqueue [OF w1 _ f1 r1 e]
  have ok: ok by (rule enqueue_effect(1) [OF q1 r1 e])
  have x: "xn_xlayer (xnodes h b) = xn_xlayer (xnodes (io_heap ?s1) b)" for b
    using enqueue_xlayer [of "io_queue s" "Some a" "io_heap ?s1" b] e by simp
  show thesis
  proof (rule that [of h])
    show "send_node a p n u s = s\<lparr>io_heap := h, io_tx_node := None\<rparr>"
      using e ok by (simp add: send_node_def Let_def upd_io_frame_def)
    show "xq_items h (io_queue s) = conn_nodes s @ [a]" using eq(2) [of "io_queue s"] by (simp add: conn_nodes_def)
    show "xq_items h F = xq_items (io_heap s) F" using eq(2) [of F] w(2) by simp
  qed (use eq(1,3,4) x in \<open>simp_all add: upd_frame_def\<close>)
qed

text \<open>The allocator after a slot of \<open>n\<close> bytes, and the memory after filling it.\<close>

definition cd_advance :: "xlayer_circular_data \<Rightarrow> u16 \<Rightarrow> xlayer_circular_data" where
  "cd_advance c n = c\<lparr>cd_last_head := cd_head c, cd_head := cd_head c + n\<rparr>"

definition fill_bytes :: "nat \<Rightarrow> byte list \<Rightarrow> nat \<Rightarrow> nat \<Rightarrow> (nat \<Rightarrow> byte) \<Rightarrow> nat \<Rightarrow> byte" where
  "fill_bytes p hdr src n m = memcpy (p + length hdr) src n (store_bytes p hdr m)"

definition slot_payload :: "xlayer_circular_data \<Rightarrow> u8 \<Rightarrow> nat" where
  "slot_payload c hs = cd_buffer c + unat (cd_head c) + (unat hs + XLAYER_QUEUE_SPI_COMM_ADDITIONAL_BYTES)"

lemma fill_same:
  assumes "src + n \<le> p \<or> p + length hdr \<le> src"
  shows "load_bytes (fill_bytes p hdr src n m) p (length hdr + n) = hdr @ load_bytes m src n"
  by (rule nth_equalityI)
    (use assms in \<open>auto simp: load_nth nth_append fill_bytes_def memcpy_def store_bytes_def\<close>)

lemma fill_other:
  assumes "x + j \<le> p \<or> p + length hdr + n \<le> x"
  shows "load_bytes (fill_bytes p hdr src n m) x j = load_bytes m x j"
  by (rule load_cong) (use assms in \<open>auto simp: fill_bytes_def memcpy_def store_bytes_def\<close>)

lemma slot_size_small:
  assumes "unat hs + unat sz + 2 < 256"
  shows "unat (slot_size hs (ucast (sz :: u32))) = unat hs + unat sz + 2"
    "unat (ucast sz :: u16) = unat sz" "unat (ucast sz :: u8) = unat sz"
proof -
  show u: "unat (ucast sz :: u16) = unat sz" "unat (ucast sz :: u8) = unat sz"
    using assms by (simp_all add: unat_ucast_mod)
  show "unat (slot_size hs (ucast sz)) = unat hs + unat sz + 2"
    unfolding slot_size_def XLAYER_QUEUE_SPI_COMM_ADDITIONAL_BYTES_def u(1)
    by (rule unat_of_nat_lt) (use assms in simp)
qed

text \<open>The whole put, as a new state.\<close>

lemma put_frame_state:
  assumes r: "tx_ready s (Suc m) (unat (io_header_size s) + unat sz + 2 + k)" and c: "io_tx_data s = Some c"
    and sz: "unat (io_header_size s) + unat sz + 2 < 256"
    and ps: "io_payload_size s = 0 \<or> unat sz \<le> unat (io_payload_size s)"
  defines "p \<equiv> slot_payload c (io_header_size s)"
  obtains a h where
    "put_frame hdr src n sz s = (WPS_NO_ERROR, s\<lparr>io_heap := h, io_tx_node := None,
       io_tx_data := Some (cd_advance c (ucast (slot_size (io_header_size s) (ucast sz)))),
       io_mem := fill_bytes p hdr src (unat n) (io_mem s)\<rparr>)"
    "xheap_wf {io_queue s, io_free_tx_queue s} h" "xq_items h (io_queue s) = conn_nodes s @ [a]"
    "a \<notin> set (conn_nodes s)" "m \<le> length (xq_items h (io_free_tx_queue s))"
    "xq_cap h (io_queue s) = xq_cap (io_heap s) (io_queue s)"
    "free_xlayer_queue_type (xqueues h (io_free_tx_queue s))"
    "\<forall>b. b \<noteq> a \<longrightarrow> xl_frame (xn_xlayer (xnodes h b)) = io_frame s b"
    "payload_begin_it (xl_frame (xn_xlayer (xnodes h a))) = p"
    "payload_end_it (xl_frame (xn_xlayer (xnodes h a))) = p + unat sz"
proof -
  let ?Q = "io_queue s" and ?F = "io_free_tx_queue s"
  note z = slot_size_small [OF sz]
  have r': "tx_room s (Suc m) (unat (slot_size (io_header_size s) (ucast sz)) + k)" using tx_ready_room [OF r] z by simp
  have QF: "?F \<noteq> ?Q" and room: "length (conn_nodes s) + Suc m \<le> xq_cap (io_heap s) ?Q"
    using r by (auto simp: tx_ready_def)
  show thesis
  proof (rule get_free_slot_flat [OF r' c])
    fix a s1 h1
    assume g: "wps_get_free_slot (ucast sz) s = (Inr (cd_buffer c + unat (cd_head c) +
          (unat (io_header_size s) + XLAYER_QUEUE_SPI_COMM_ADDITIONAL_BYTES)), s1)" "io_tx_node s1 = Some a"
      and n1: "conn_nodes s1 = conn_nodes s" "a \<notin> set (conn_nodes s)" "\<forall>b. b \<noteq> a \<longrightarrow> io_frame s1 b = io_frame s b"
      and w1: "xheap_wf {?Q, ?F} (io_heap s1)" "a \<notin> set (xq_items (io_heap s1) ?F)"
        "m \<le> length (xq_items (io_heap s1) ?F)" "free_xlayer_queue_type (xqueues (io_heap s1) ?F)"
        "\<forall>q. xq_cap (io_heap s1) q = xq_cap (io_heap s) q"
      and s1: "s1 = s\<lparr>io_heap := h1, io_tx_node := Some a, io_tx_data := Some (c\<lparr>cd_last_head := cd_head c,
          cd_head := cd_head c + ucast (slot_size (io_header_size s) (ucast sz))\<rparr>)\<rparr>"
    let ?s2 = "s1\<lparr>io_mem := fill_bytes p hdr src (unat n) (io_mem s1)\<rparr>"
    have wf2: "xheap_wf {io_queue ?s2, ?F} (io_heap ?s2)" "?F \<noteq> io_queue ?s2"
      "a \<notin> set (conn_nodes ?s2)" "a \<notin> set (xq_items (io_heap ?s2) ?F)"
      "length (conn_nodes ?s2) < xq_cap (io_heap ?s2) (io_queue ?s2)"
      using w1 s1 QF n1 room by (auto simp: conn_nodes_def)
    have nf: "\<not> io_queue_full ?s2" using queue_full_iff [of ?s2] wf2(1,5) by (simp add: xheap_wf_def)
    show thesis
    proof (rule send_node_ok [OF wf2, of p "ucast sz" False])
      fix h
      assume sn: "send_node a p (ucast sz) False ?s2 = ?s2\<lparr>io_heap := h, io_tx_node := None\<rparr>"
        and e: "xheap_wf {io_queue ?s2, ?F} h" "xq_items h (io_queue ?s2) = conn_nodes ?s2 @ [a]"
        "xq_items h ?F = xq_items (io_heap ?s2) ?F" "\<forall>q. xq_cap h q = xq_cap (io_heap ?s2) q"
        "\<forall>q. free_xlayer_queue_type (xqueues h q) = free_xlayer_queue_type (xqueues (io_heap ?s2) q)"
        "\<forall>b. b \<noteq> a \<longrightarrow> xn_xlayer (xnodes h b) = xn_xlayer (xnodes (io_heap ?s2) b)"
        "payload_begin_it (xl_frame (xn_xlayer (xnodes h a))) = p"
        "payload_end_it (xl_frame (xn_xlayer (xnodes h a))) = p + unat (ucast sz :: u8)"
      have "wps_send p (ucast sz) ?s2 = (WPS_NO_ERROR, ?s2\<lparr>io_heap := h, io_tx_node := None\<rparr>)"
        using nf ps z(3) g(2) sn s1 by (auto simp: wps_send_def word_less_nat_alt)
      then have put: "put_frame hdr src n sz s = (WPS_NO_ERROR, ?s2\<lparr>io_heap := h, io_tx_node := None\<rparr>)"
        using g(1) by (simp add: put_frame_def fill_bytes_def p_def slot_payload_def)
      show thesis
        by (rule that [of h a]) (use put e w1 n1 s1 z in \<open>auto simp: cd_advance_def conn_nodes_def io_frame_def\<close>)
    qed
  qed
qed

lemma put_frame_ok:
  assumes r: "tx_ready s (Suc m) (unat (io_header_size s) + unat sz + 2 + k)"
    and len: "unat sz = length hdr + unat n" and sz: "unat (io_header_size s) + unat sz + 2 < 256"
    and ps: "io_payload_size s = 0 \<or> unat sz \<le> unat (io_payload_size s)"
    and src: "io_tx_spared s src (unat n)"
  shows "\<exists>s'. put_frame hdr src n sz s = (WPS_NO_ERROR, s') \<and> tx_ready s' m k \<and> tx_extends s s' \<and>
    conn_frames s' = conn_frames s @ [hdr @ load_bytes (io_mem s) src (unat n)]"
proof -
  obtain c where c: "io_tx_data s = Some c" using r by (auto simp: tx_ready_def split: option.splits)
  let ?p = "slot_payload c (io_header_size s)"
  let ?c = "cd_advance c (ucast (slot_size (io_header_size s) (ucast sz)))"
  obtain a h where st: "put_frame hdr src n sz s = (WPS_NO_ERROR, s\<lparr>io_heap := h, io_tx_node := None,
       io_tx_data := Some ?c, io_mem := fill_bytes ?p hdr src (unat n) (io_mem s)\<rparr>)"
    and h: "xheap_wf {io_queue s, io_free_tx_queue s} h" "xq_items h (io_queue s) = conn_nodes s @ [a]"
    "a \<notin> set (conn_nodes s)" "m \<le> length (xq_items h (io_free_tx_queue s))"
    "xq_cap h (io_queue s) = xq_cap (io_heap s) (io_queue s)"
    "free_xlayer_queue_type (xqueues h (io_free_tx_queue s))"
    and fr: "\<forall>b. b \<noteq> a \<longrightarrow> xl_frame (xn_xlayer (xnodes h b)) = io_frame s b"
    "payload_begin_it (xl_frame (xn_xlayer (xnodes h a))) = ?p"
    "payload_end_it (xl_frame (xn_xlayer (xnodes h a))) = ?p + unat sz"
    by (rule put_frame_state [OF r c sz ps, of hdr src n])
  define s' where "s' = s\<lparr>io_heap := h, io_tx_node := None,
       io_tx_data := Some ?c, io_mem := fill_bytes ?p hdr src (unat n) (io_mem s)\<rparr>"
  have fl: "cd_tail c \<le> cd_head c" "unat (cd_head c) + (unat (io_header_size s) + unat sz + 2 + k) \<le> unat (cd_buffer_size c)"
    and sp: "\<forall>b\<in>set (conn_nodes s). spared c (payload_begin_it (io_frame s b))
        (payload_end_it (io_frame s b) - payload_begin_it (io_frame s b))" using r c by (auto simp: tx_ready_def)
  have hd: "unat (cd_head ?c) = unat (cd_head c) + unat (io_header_size s) + unat sz + 2"
    using unat_add_le [of "cd_head c" "ucast (slot_size (io_header_size s) (ucast sz))" "cd_buffer_size c"]
      fl(2) slot_size_small(1) [OF sz] unat_u8_u16 [of "slot_size (io_header_size s) (ucast sz)"]
    by (simp add: cd_advance_def)
  note defs = slot_payload_def XLAYER_QUEUE_SPI_COMM_ADDITIONAL_BYTES_def
  have cf: "cd_buffer ?c = cd_buffer c" "cd_buffer_size ?c = cd_buffer_size c" "cd_tail ?c = cd_tail c"
    by (simp_all add: cd_advance_def)
  have keep: "spared ?c x j" if "spared c x j" for x j using that hd cf by (auto simp: spared_def)
  have load: "load_bytes (io_mem s') x j = load_bytes (io_mem s) x j" if "spared c x j" for x j
    unfolding s'_def using that fl(2) len by (auto simp: spared_def defs intro!: fill_other)
  have ext: "tx_extends s s'" using c keep load h(5) by (simp add: tx_extends_def io_tx_spared_def s'_def)
  have frame: "io_frame s' b = io_frame s b" "frame_payload s' b = frame_payload s b" if "b \<in> set (conn_nodes s)" for b
  proof -
    show "io_frame s' b = io_frame s b" using that h(3) fr(1) by (auto simp: io_frame_def s'_def)
    then show "frame_payload s' b = frame_payload s b" using load sp that by (simp add: frame_payload_def)
  qed
  have "load_bytes (io_mem s') ?p (unat sz) = hdr @ load_bytes (io_mem s) src (unat n)"
    using fill_same [of src "unat n" ?p hdr "io_mem s"] src c len fl(2)
    by (auto simp: s'_def io_tx_spared_def spared_def defs)
  then have new: "frame_payload s' a = hdr @ load_bytes (io_mem s) src (unat n)"
    using fr(2,3) by (simp add: frame_payload_def io_frame_def s'_def)
  have nodes: "conn_nodes s' = conn_nodes s @ [a]" using h(2) by (simp add: conn_nodes_def s'_def)
  have "conn_frames s' = conn_frames s @ [hdr @ load_bytes (io_mem s) src (unat n)]"
    using nodes frame(2) new by (simp add: conn_frames_def)
  moreover have "spared ?c (payload_begin_it (io_frame s' b)) (payload_end_it (io_frame s' b) - payload_begin_it (io_frame s' b))"
    if "b \<in> set (conn_nodes s')" for b
    using that nodes frame(1) sp keep fr(2,3) hd cf
    by (cases "b = a") (auto simp: io_frame_def s'_def spared_def defs)
  moreover have "cd_tail ?c \<le> cd_head ?c" using fl(1) hd cf by (simp add: word_le_nat_alt)
  ultimately have "tx_ready s' m k \<and> conn_frames s' = conn_frames s @ [hdr @ load_bytes (io_mem s) src (unat n)]"
    using h r nodes fl(2) hd cf by (simp add: tx_ready_def s'_def)
  with st ext show ?thesis unfolding s'_def by blast
qed

section \<open>Reading and releasing a received frame\<close>

text \<open>
  A connection whose received frames can be released: the queues of \<open>qs\<close> share no node, the nodes
  queued on the connection have their home among the other queues, and payloads are at most
  65535 bytes long and not in the destination from \<open>lo\<close> to \<open>hi\<close>.
\<close>

definition rx_ready :: "nat set \<Rightarrow> nat \<Rightarrow> nat \<Rightarrow> wps_io \<Rightarrow> bool" where
  "rx_ready qs lo hi s \<longleftrightarrow> xheap_wf qs (io_heap s) \<and> io_queue s \<in> qs \<and>
     \<not> free_xlayer_queue_type (xqueues (io_heap s) (io_queue s)) \<and>
     (\<forall>a\<in>set (conn_nodes s). home_xlayer_queue (xnodes (io_heap s) a) \<in> qs - {io_queue s} \<and>
        payload_begin_it (io_frame s a) \<le> payload_end_it (io_frame s a) \<and>
        payload_end_it (io_frame s a) - payload_begin_it (io_frame s a) < 65536 \<and>
        (payload_end_it (io_frame s a) \<le> lo \<or> hi \<le> payload_begin_it (io_frame s a)))"

lemma wps_read_Nil:
  assumes "rx_ready qs lo hi s" "conn_frames s = []"
  shows "wps_read s = (WPS_QUEUE_EMPTY_ERROR, 0, 0)"
proof -
  have "xq_wf (io_heap s) (io_queue s)" using assms(1) by (simp add: rx_ready_def xheap_wf_def)
  then show ?thesis using wf_size [of "io_heap s" "io_queue s"] assms(2)
    by (simp add: wps_read_def xlayer_queue_get_size_def conn_frames_def conn_nodes_def)
qed

lemma wps_read_Cons:
  assumes "rx_ready qs lo hi s" "conn_frames s = f # fs"
  shows "\<exists>p n. wps_read s = (WPS_NO_ERROR, p, n) \<and> unat n = length f \<and> load_bytes (io_mem s) p (length f) = f"
proof -
  have w: "xq_wf (io_heap s) (io_queue s)" "\<not> free_xlayer_queue_type (xqueues (io_heap s) (io_queue s))"
    using assms(1) by (simp_all add: rx_ready_def xheap_wf_def)
  obtain a ns where it: "xq_items (io_heap s) (io_queue s) = a # ns" and f: "f = frame_payload s a"
    using assms(2) by (auto simp: conn_frames_def conn_nodes_def)
  have sz: "xq_size (xqueues (io_heap s) (io_queue s)) \<noteq> 0" using wf_size [OF w(1)] it by simp
  have hd: "xq_head (xqueues (io_heap s) (io_queue s)) = Some a" using wf_head(1) [OF w(1) sz] it by simp
  let ?b = "payload_begin_it (io_frame s a)" and ?e = "payload_end_it (io_frame s a)"
  have be: "?b \<le> ?e" "?e - ?b < 65536" using assms(1) it by (auto simp: rx_ready_def conn_nodes_def)
  then have "word_of_int (int ?e - int ?b) = (of_nat (?e - ?b) :: u16)" by (simp add: of_nat_diff)
  moreover have "unat (of_nat (?e - ?b) :: u16) = ?e - ?b" by (rule unat_of_nat_lt) (use be in simp)
  ultimately show ?thesis using hd sz w(2) f
    by (simp add: wps_read_def xlayer_queue_get_size_def xlayer_queue_get_node_def frame_payload_def Let_def)
qed

text \<open>Writing to the destination changes neither the frames nor the readiness.\<close>

lemma rx_write:
  assumes "rx_ready qs lo hi s" "\<And>x. x < lo \<or> hi \<le> x \<Longrightarrow> m x = io_mem s x"
  shows "rx_ready qs lo hi (s\<lparr>io_mem := m\<rparr>)" "conn_frames (s\<lparr>io_mem := m\<rparr>) = conn_frames s"
proof -
  show "rx_ready qs lo hi (s\<lparr>io_mem := m\<rparr>)" using assms(1) by (simp add: rx_ready_def conn_nodes_def io_frame_def)
  have "frame_payload (s\<lparr>io_mem := m\<rparr>) a = frame_payload s a" if "a \<in> set (conn_nodes s)" for a
  proof -
    have "payload_end_it (io_frame s a) \<le> lo \<or> hi \<le> payload_begin_it (io_frame s a)"
      using assms(1) that by (simp add: rx_ready_def)
    then have "load_bytes m (payload_begin_it (io_frame s a)) (payload_end_it (io_frame s a) - payload_begin_it (io_frame s a)) =
        load_bytes (io_mem s) (payload_begin_it (io_frame s a)) (payload_end_it (io_frame s a) - payload_begin_it (io_frame s a))"
      by (intro load_cong assms(2)) linarith
    then show ?thesis by (simp add: frame_payload_def io_frame_def)
  qed
  then show "conn_frames (s\<lparr>io_mem := m\<rparr>) = conn_frames s"
    by (simp add: conn_frames_def conn_nodes_def)
qed

text \<open>Giving a node back does not touch the other queues' lists, whether its home has room or not.\<close>

lemma free_node_keeps:
  assumes "xheap_wf qs h" "\<forall>r\<in>qs. a \<notin> set (xq_items h r)" "home_xlayer_queue (xnodes h a) \<in> qs - {q}" "q \<in> qs"
  defines "h' \<equiv> xlayer_queue_free_node (Some a) h"
  shows "xheap_wf qs h'" "xq_items h' q = xq_items h q" "free_xlayer_queue_type (xqueues h' q) = free_xlayer_queue_type (xqueues h q)"
    "home_xlayer_queue (xnodes h' b) = home_xlayer_queue (xnodes h b)"
proof -
  let ?r = "home_xlayer_queue (xnodes h a)"
  have w: "xq_wf h ?r" using assms(1,3) by (simp add: xheap_wf_def)
  have n: "q \<noteq> ?r" "?r \<in> qs" using assms(3) by auto
  show "home_xlayer_queue (xnodes h' b) = home_xlayer_queue (xnodes h b)"
    "free_xlayer_queue_type (xqueues h' q) = free_xlayer_queue_type (xqueues h q)"
    using n by (auto simp: h'_def xlayer_queue_free_node_def xlayer_queue_enqueue_node_def Let_def split: option.splits)
  have "xheap_wf qs h' \<and> xq_items h' q = xq_items h q"
  proof (cases "length (xq_items h ?r) < xq_cap h ?r")
    case True
    from free_node_effect(1,2) [OF assms(1,2) n(2) True] n(1) assms(4) show ?thesis
      by (auto simp: h'_def returns_to_def)
  next
    case False
    then have "length (xq_items h ?r) = xq_cap h ?r" using wf_bound [OF w] by simp
    then have "xlayer_queue_enqueue_node ?r (Some a) h = (False, h)" by (rule node_enqueue_full [OF w])
    then show ?thesis using free_node_shared [of h a] assms(1)
      by (cases "copy_count (xnodes h a) = 1") (simp_all add: h'_def xlayer_queue_free_node_def)
  qed
  then show "xheap_wf qs h'" "xq_items h' q = xq_items h q" by simp_all
qed

lemma wps_read_done_Cons:
  assumes r: "rx_ready qs lo hi s" and f: "conn_frames s = f # fs"
  shows "\<exists>s'. wps_read_done s = (WPS_NO_ERROR, s') \<and> rx_ready qs lo hi s' \<and> conn_frames s' = fs \<and> io_mem s' = io_mem s"
proof -
  have w: "xheap_wf qs (io_heap s)" "io_queue s \<in> qs" "xq_wf (io_heap s) (io_queue s)"
    using r by (simp_all add: rx_ready_def xheap_wf_def)
  obtain a ns where it: "xq_items (io_heap s) (io_queue s) = a # ns" and ns: "fs = map (frame_payload s) ns"
    using f by (auto simp: conn_frames_def conn_nodes_def)
  obtain p h where d: "xlayer_queue_dequeue_node (io_queue s) (io_heap s) = (p, h)" by (metis prod.exhaust)
  note dq = xheap_dequeue [OF w(1,2) it d]
  have ft: "free_xlayer_queue_type (xqueues h (io_queue s)) = free_xlayer_queue_type (xqueues (io_heap s) (io_queue s))"
    by (rule dequeue_Cons(7) [OF w(3) it d])
  have dis: "a \<notin> set ns" using w(3) it by (simp add: xq_wf_def)
  let ?h = "upd_node a (upd_frame (\<lambda>f. f\<lparr>payload_memory := 0, max_frame_size := 0\<rparr>)) h"
  have hm: "home_xlayer_queue (xnodes ?h b) = home_xlayer_queue (xnodes (io_heap s) b)" for b
    using dq(4) by (simp add: upd_frame_def)
  have "home_xlayer_queue (xnodes ?h a) \<in> qs - {io_queue s}"
    using r it hm [of a] by (auto simp: rx_ready_def conn_nodes_def)
  note fn = free_node_keeps [of qs ?h a "io_queue s", OF _ _ this w(2)]
  let ?g = "xlayer_queue_free_node (Some a) ?h"
  have g: "xheap_wf qs ?g" "xq_items ?g (io_queue s) = ns"
    "\<not> free_xlayer_queue_type (xqueues ?g (io_queue s))"
    "home_xlayer_queue (xnodes ?g b) = home_xlayer_queue (xnodes (io_heap s) b)" for b
    using fn dq(1,3,7) ft hm r by (simp_all add: rx_ready_def)
  let ?f = "io_frame (s\<lparr>io_heap := h\<rparr>) a"
  have "wps_read_done s = (WPS_NO_ERROR, s\<lparr>io_heap := ?g, io_rx_data := snd (xlayer_circular_data_free_space
      (io_rx_data s) (ptr_of (payload_memory ?f)) (ucast (max_frame_size ?f)))\<rparr>)"
    using d dq(2) by (simp add: wps_read_done_def wps_mac_xlayer_free_node_with_data_def upd_io_frame_def Let_def)
  then obtain x where e: "wps_read_done s = (WPS_NO_ERROR, s\<lparr>io_heap := ?g, io_rx_data := x\<rparr>)" by blast
  let ?s = "s\<lparr>io_heap := ?g, io_rx_data := x\<rparr>"
  have fr: "io_frame ?s b = io_frame s b" if "b \<in> set ns" for b
    using that dis dq(4) by (auto simp: io_frame_def free_node_xlayer)
  have nodes: "conn_nodes ?s = ns" using g(2) by (simp add: conn_nodes_def)
  have "rx_ready qs lo hi ?s"
    unfolding rx_ready_def using g nodes fr w(2) r it by (auto simp: rx_ready_def conn_nodes_def)
  moreover have "conn_frames ?s = fs" using nodes ns fr by (simp add: conn_frames_def frame_payload_def)
  ultimately show ?thesis using e by auto
qed

section \<open>The contract of a frame sink\<close>

type_synonym piece = "byte list \<times> nat \<times> u32 \<times> u32"

definition put_piece :: "piece \<Rightarrow> wps_io \<Rightarrow> wps_error \<times> wps_io" where
  "put_piece = (\<lambda>(hdr, src, n, sz). put_frame hdr src n sz)"

definition piece_cost :: "wps_io \<Rightarrow> piece \<Rightarrow> nat" where
  "piece_cost s = (\<lambda>(hdr, src, n, sz). unat (io_header_size s) + unat sz + 2)"

definition piece_fits :: "wps_io \<Rightarrow> piece \<Rightarrow> bool" where
  "piece_fits s = (\<lambda>(hdr, src, n, sz). unat sz = length hdr + unat n \<and> unat (io_header_size s) + unat sz + 2 < 256 \<and>
     (io_payload_size s = 0 \<or> unat sz \<le> unat (io_payload_size s)) \<and> io_tx_spared s src (unat n))"

definition piece_content :: "wps_io \<Rightarrow> piece \<Rightarrow> byte list" where
  "piece_content s = (\<lambda>(hdr, src, n, sz). hdr @ load_bytes (io_mem s) src (unat n))"

lemmas piece_defs = put_piece_def piece_cost_def piece_fits_def piece_content_def

interpretation io: frame_sink tx_ready piece_fits piece_cost conn_frames piece_content tx_extends put_piece
proof unfold_locales
  fix s m p k
  assume r: "tx_ready s (Suc m) (piece_cost s p + k)" and f: "piece_fits s p"
  obtain hdr src n sz where p: "p = (hdr, src, n, sz)" by (metis prod.exhaust)
  have "tx_ready s (Suc m) (unat (io_header_size s) + unat sz + 2 + k)" using r by (simp only: p piece_cost_def prod.case)
  moreover have "unat sz = length hdr + unat n" "unat (io_header_size s) + unat sz + 2 < 256"
    "io_payload_size s = 0 \<or> unat sz \<le> unat (io_payload_size s)" "io_tx_spared s src (unat n)"
    using f unfolding p piece_fits_def prod.case by blast+
  ultimately have "\<exists>s'. put_frame hdr src n sz s = (WPS_NO_ERROR, s') \<and> tx_ready s' m k \<and> tx_extends s s' \<and>
      conn_frames s' = conn_frames s @ [hdr @ load_bytes (io_mem s) src (unat n)]" by (rule put_frame_ok)
  then show "\<exists>s'. put_piece p s = (WPS_NO_ERROR, s') \<and> tx_ready s' m k \<and> tx_extends s s' \<and>
      conn_frames s' = conn_frames s @ [piece_content s p]"
    by (simp add: p put_piece_def piece_content_def)
qed (auto simp: piece_defs tx_extends_def)

end
