(* ===== verification/Wps_Frag.thy ===== *)
theory Wps_Frag
  imports Wps_Conn Circular_Queue
begin

text \<open>
  Fragmentation (\<open>wps_frag.c\<close>): application payloads larger than a frame are sent as a first
  fragment with the total size, numbered middle fragments and a last one, and put together again by
  the reader. The state is the connection of \<open>Wps_Conn\<close> with the fields of \<open>frag_t\<close> and the
  callback pointers; functions are addresses, and \<open>run\<close>, a parameter, says what calling one does.
  \<open>next_transaction_id\<close> is the static variable of \<open>wps_frag_send\<close>.

  Sizes are 32-bit \<open>size_t\<close> values and wrap. \<open>None\<close> as a result stands for a division by zero, which
  a payload size of two or less leads to, or for a loop that does not end; the theorems show that
  the functions return.
\<close>

type_synonym callback = "nat option \<times> nat"

record frag_conn =
  fc_io :: wps_io
  fc_wps_error :: wps_error
  fc_conn :: nat
  fc_rx_queue :: nat
  fc_rx_success :: callback
  fc_evt :: callback
  fc_tx_success :: callback
  fc_tx_fail :: callback
  fc_tx_drop :: callback
  fr_enabled :: bool
  fr_queue :: nat
  meta_data_queue_tx :: circular_queue
  fr_meta :: "nat \<Rightarrow> u16"
  remaining_fragment :: u16
  fragment_index :: u16
  fr_transaction_id :: u8
  dropped_frame :: bool
  enqueued_count :: u16
  fr_tx_success :: callback
  fr_tx_drop :: callback
  fr_tx_fail :: callback
  fr_rx_success :: callback
  fr_rx_fail :: callback
  fr_event :: callback
  next_transaction_id :: u8

definition MAX_TRANSACTION_ID :: u8 where "MAX_TRANSACTION_ID = 32"

definition FULL_FRAME_TRANSFER_TYPE :: u8 where "FULL_FRAME_TRANSFER_TYPE = 0"
definition NON_LAST_FRAGMENT_TRANSFER_TYPE :: u8 where "NON_LAST_FRAGMENT_TRANSFER_TYPE = 2"
definition LAST_FRAGMENT_TRANSFER_TYPE :: u8 where "LAST_FRAGMENT_TRANSFER_TYPE = 4"

section \<open>Fragment headers\<close>

text \<open>
  \<open>transaction_control_t\<close>: the transfer type in the three low bits, the transaction in the five
  high ones, as a little-endian compiler lays the bit fields out.
\<close>

definition transaction_control :: "u8 \<Rightarrow> u8 \<Rightarrow> byte" where
  "transaction_control transfer_type transaction_id = (transfer_type AND 7) OR push_bit 3 (transaction_id AND 31)"

definition transfer_type_of :: "byte \<Rightarrow> u8" where "transfer_type_of b = b AND 7"

definition transaction_id_of :: "byte \<Rightarrow> u8" where "transaction_id_of b = drop_bit 3 b"

definition full_frame :: "u8 \<Rightarrow> byte list" where
  "full_frame tid = [transaction_control FULL_FRAME_TRANSFER_TYPE tid]"

definition first_fragment :: "u8 \<Rightarrow> u16 \<Rightarrow> byte list" where
  "first_fragment tid tot =
     [transaction_control NON_LAST_FRAGMENT_TRANSFER_TYPE tid, 0, ucast tot, ucast (drop_bit 8 tot)]"

definition middle_fragment :: "u8 \<Rightarrow> u8 \<Rightarrow> byte list" where
  "middle_fragment tid n = [transaction_control NON_LAST_FRAGMENT_TRANSFER_TYPE tid, n]"

definition last_fragment :: "u8 \<Rightarrow> u8 \<Rightarrow> byte list" where
  "last_fragment tid n = [transaction_control LAST_FRAGMENT_TRANSFER_TYPE tid, n]"

definition total_size_of :: "(nat \<Rightarrow> byte) \<Rightarrow> nat \<Rightarrow> u16" where
  "total_size_of m p = ucast (m (p + 2)) OR push_bit 8 (ucast (m (p + 3)))"

definition upd_io :: "(wps_io \<Rightarrow> wps_io) \<Rightarrow> frag_conn \<Rightarrow> frag_conn" where
  "upd_io f c = c\<lparr>fc_io := f (fc_io c)\<rparr>"

section \<open>Set-up\<close>

text \<open>
  \<open>err\<close> is what the caller's error variable holds on entry: the function tests it without setting
  it. The addresses of the connection and of the two handlers are arguments.
\<close>

definition wps_frag_init ::
  "nat \<Rightarrow> nat \<Rightarrow> nat \<Rightarrow> nat \<Rightarrow> u32 \<Rightarrow> wps_error \<Rightarrow> frag_conn option \<Rightarrow> wps_error \<times> frag_conn option" where
  "wps_frag_init self read_process overrun_process meta_tx_buffer meta_tx_size err connection =
     (case connection of
        None \<Rightarrow> (WPS_CONNECTION_NOT_ALLOCATED, None)
      | Some c \<Rightarrow>
          (let h = io_heap (fc_io c);
               c1 = c\<lparr>fr_enabled := True, fragment_index := 0, enqueued_count := 0, remaining_fragment := 0,
                      fc_rx_queue := fr_queue c,
                      meta_data_queue_tx := circular_queue_init meta_tx_buffer meta_tx_size 2,
                      fc_io := (fc_io c)\<lparr>io_heap := xlayer_queue_init_queue (fr_queue c)
                          (xq_max_size (xqueues h (io_queue (fc_io c)))) ''frag queue'' h\<rparr>,
                      fc_rx_success := (Some read_process, self)\<rparr>
           in if err \<noteq> WPS_NO_ERROR then (WPS_FRAG_FAILED_TO_SET_CALLBACK, Some c1)
              else (err, Some (c1\<lparr>fc_evt := (Some overrun_process, self)\<rparr>))))"

section \<open>Sending\<close>

definition check_queue_space :: "frag_conn \<Rightarrow> u32 \<Rightarrow> bool option" where
  "check_queue_space c sz =
     (let free = wps_get_fifo_free_space (fc_io c);
          ps = ucast (io_payload_size (fc_io c)) :: u32;
          full_frame_payload = (if ps > 1 then ps - 1 else 0);
          first_payload = (if ps > 4 then ps - 4 else 0);
          subsequent_payload = (if ps > 2 then ps - 2 else 0)
      in if sz \<le> full_frame_payload then Some (free \<ge> 1)
         else if subsequent_payload = 0 then None
         else (let remaining = sz - first_payload;
                   nb_fragment = 1 + (remaining + subsequent_payload - 1) div subsequent_payload
               in Some (free \<ge> nb_fragment)))"

definition send_full_frame :: "u8 \<Rightarrow> nat \<Rightarrow> u32 \<Rightarrow> wps_io \<Rightarrow> wps_error \<times> wps_io" where
  "send_full_frame tid payload sz = put_frame (full_frame tid) payload sz (sz + 1)"

text \<open>
  The first and middle fragments also return the advanced payload pointer and the remaining size,
  which the caller uses only without an error.
\<close>

definition send_first_fragment :: "u8 \<Rightarrow> nat \<Rightarrow> u32 \<Rightarrow> wps_io \<Rightarrow> wps_error \<times> nat \<times> u32 \<times> wps_io" where
  "send_first_fragment tid payload sz s =
     (let ps = ucast (io_payload_size s); fragment_size = ps - 4
      in case put_frame (first_fragment tid (ucast sz)) payload fragment_size ps s of
           (err, s1) \<Rightarrow> if err \<noteq> WPS_NO_ERROR then (err, payload, sz, s1)
                       else (WPS_NO_ERROR, payload + unat fragment_size, sz - fragment_size, s1))"

definition send_middle_fragment :: "u8 \<Rightarrow> nat \<Rightarrow> u32 \<Rightarrow> u8 \<Rightarrow> wps_io \<Rightarrow> wps_error \<times> nat \<times> u32 \<times> wps_io" where
  "send_middle_fragment tid payload sz n s =
     (let ps = ucast (io_payload_size s); fragment_size = ps - 2
      in case put_frame (middle_fragment tid n) payload fragment_size ps s of
           (err, s1) \<Rightarrow> if err \<noteq> WPS_NO_ERROR then (err, payload, sz, s1)
                       else (WPS_NO_ERROR, payload + unat fragment_size, sz - fragment_size, s1))"

definition send_last_fragment :: "u8 \<Rightarrow> nat \<Rightarrow> u32 \<Rightarrow> u8 \<Rightarrow> wps_io \<Rightarrow> wps_error \<times> wps_io" where
  "send_last_fragment tid payload sz n = put_frame (last_fragment tid n) payload sz (sz + 2)"

text \<open>The \<open>while\<close> loop over the middle fragments.\<close>

partial_function (option) frag_middle_loop ::
  "u8 \<Rightarrow> nat \<Rightarrow> u32 \<Rightarrow> u16 \<Rightarrow> wps_io \<Rightarrow> (wps_error \<times> nat \<times> u32 \<times> u16 \<times> wps_io) option" where
  "frag_middle_loop tid payload sz n s =
     (let step = ucast (io_payload_size s) - 2 :: u32 in
      if step = 0 then None
      else if sz div step = 0 then Some (WPS_NO_ERROR, payload, sz, n, s)
      else (case send_middle_fragment tid payload sz (ucast (n + 1)) s of
              (err, p, sz1, s1) \<Rightarrow> if err \<noteq> WPS_NO_ERROR then Some (err, p, sz1, n + 1, s1)
                                 else frag_middle_loop tid p sz1 (n + 1) s1))"

text \<open>What \<open>wps_frag_send\<close> does once all fragments are queued.\<close>

definition frag_note_sent :: "u16 \<Rightarrow> frag_conn \<Rightarrow> frag_conn" where
  "frag_note_sent fragment_number c =
     (let v = (if fragment_number \<noteq> 0 then fragment_number else 1)
      in case circular_queue_get_free_slot (meta_data_queue_tx c) of
           None \<Rightarrow> c
         | Some a \<Rightarrow> c\<lparr>fr_meta := (fr_meta c)(a := v),
               remaining_fragment := (if remaining_fragment c = 0 then v else remaining_fragment c),
               meta_data_queue_tx := snd (circular_queue_enqueue (meta_data_queue_tx c))\<rparr>)"

definition frag_finish :: "u16 \<Rightarrow> frag_conn \<Rightarrow> frag_conn" where
  "frag_finish fragment_number c =
     (let c1 = frag_note_sent fragment_number c
      in c1\<lparr>next_transaction_id := (next_transaction_id c1 + 1) mod MAX_TRANSACTION_ID\<rparr>)"

text \<open>The fragments themselves: error, last fragment number and connection.\<close>

definition frag_send_fragments :: "u8 \<Rightarrow> nat \<Rightarrow> u32 \<Rightarrow> wps_io \<Rightarrow> (wps_error \<times> u16 \<times> wps_io) option" where
  "frag_send_fragments tid payload sz s =
     (case send_first_fragment tid payload sz s of (err, p1, sz1, s1) \<Rightarrow>
        if err \<noteq> WPS_NO_ERROR then Some (err, 0, s1)
        else (case frag_middle_loop tid p1 sz1 0 s1 of
                None \<Rightarrow> None
              | Some (err, p2, sz2, n, s2) \<Rightarrow>
                  if err \<noteq> WPS_NO_ERROR then Some (err, n, s2)
                  else (case send_last_fragment tid p2 sz2 (ucast (n + 1)) s2 of
                          (err, s3) \<Rightarrow> Some (err, n + 1, s3))))"

definition wps_frag_send :: "nat \<Rightarrow> u32 \<Rightarrow> frag_conn \<Rightarrow> (wps_error \<times> frag_conn) option" where
  "wps_frag_send payload sz c =
     (case check_queue_space c sz of
        None \<Rightarrow> None
      | Some False \<Rightarrow> Some (WPS_QUEUE_FULL_ERROR, c)
      | Some True \<Rightarrow>
          map_option (\<lambda>(err, n, s). let c1 = c\<lparr>fc_io := s\<rparr>
              in if err \<noteq> WPS_NO_ERROR then (err, c1) else (WPS_NO_ERROR, frag_finish n c1))
            (if sz + 1 \<le> ucast (io_payload_size (fc_io c))
             then (case send_full_frame (next_transaction_id c) payload sz (fc_io c) of (err, s) \<Rightarrow> Some (err, 0, s))
             else frag_send_fragments (next_transaction_id c) payload sz (fc_io c)))"

section \<open>Reading\<close>

text \<open>The flush after a read error removes frames up to and including a last fragment.\<close>

partial_function (option) read_error_flush_loop :: "u16 \<Rightarrow> wps_io \<Rightarrow> (u16 \<times> wps_error \<times> wps_io) option" where
  "read_error_flush_loop removed s =
     (case wps_read s of (err, p, n) \<Rightarrow>
        if err \<noteq> WPS_NO_ERROR then Some (removed, err, s)
        else (let t = transfer_type_of (io_mem s p) in
          case wps_read_done s of (err, s1) \<Rightarrow>
            if err \<noteq> WPS_NO_ERROR then Some (removed, err, s1)
            else if t \<noteq> LAST_FRAGMENT_TRANSFER_TYPE then read_error_flush_loop (removed + 1) s1
            else Some (removed + 1, err, s1)))"

definition wps_read_error_flush :: "wps_io \<Rightarrow> (u16 \<times> wps_error \<times> wps_io) option" where
  "wps_read_error_flush s = read_error_flush_loop 0 s"

text \<open>A frame handed to the application: the payload pointer, possibly \<open>NULL\<close>, and the size.\<close>

type_synonym frame_out = "nat option \<times> u16"

definition count_down :: "frag_conn \<Rightarrow> frag_conn" where
  "count_down c = c\<lparr>enqueued_count := enqueued_count c - 1\<rparr>"

definition abort_frag_read :: "frag_conn \<Rightarrow> (frame_out \<times> frag_conn) option" where
  "abort_frag_read c = map_option (\<lambda>(removed, err, s). ((None, 0), count_down (c\<lparr>fc_io := s\<rparr>)))
     (wps_read_error_flush (fc_io c))"

definition abort_with :: "wps_error \<Rightarrow> frag_conn \<Rightarrow> (wps_error \<times> frame_out \<times> frag_conn) option" where
  "abort_with err c = map_option (\<lambda>(f, c1). (err, f, c1)) (abort_frag_read c)"

text \<open>
  Copying the body of the current frame, which follows \<open>overhead\<close> header bytes, to \<open>tail\<close> and
  releasing the frame.
\<close>

definition frag_copy :: "nat \<Rightarrow> nat \<Rightarrow> u16 \<Rightarrow> nat \<Rightarrow> frag_conn \<Rightarrow> wps_error \<times> frag_conn" where
  "frag_copy tail p n overhead c =
     (let s = fc_io c;
          s1 = s\<lparr>io_mem := memcpy tail (p + overhead) (unat (ucast n - of_nat overhead :: u32)) (io_mem s)\<rparr>
      in case wps_read_done s1 of (err, s2) \<Rightarrow> (err, c\<lparr>fc_io := s2\<rparr>))"

text \<open>The \<open>do\<close>-\<open>while\<close> loop over the fragments after the first.\<close>

partial_function (option) frag_read_loop ::
  "nat \<Rightarrow> u32 \<Rightarrow> u16 \<Rightarrow> nat \<Rightarrow> frag_conn \<Rightarrow> (wps_error \<times> frame_out \<times> frag_conn) option" where
  "frag_read_loop payload max_size tot tail c =
     (case wps_read (fc_io c) of (err, p, n) \<Rightarrow>
        if err \<noteq> WPS_NO_ERROR then Some (err, (None, 0), count_down c)
        else (let t = transfer_type_of (io_mem (fc_io c) p); fragment_size = unat (ucast n - 2 :: u32) in
          if t = NON_LAST_FRAGMENT_TRANSFER_TYPE then
            if tail + fragment_size > payload + unat max_size then abort_with WPS_WRONG_RX_SIZE_ERROR c
            else (case frag_copy tail p n 2 c of (err, c1) \<Rightarrow>
                    if err \<noteq> WPS_QUEUE_EMPTY_ERROR then frag_read_loop payload max_size tot (tail + fragment_size) c1
                    else Some (WPS_FRAGMENT_ERROR, (None, 0), count_down c1))
          else if t = LAST_FRAGMENT_TRANSFER_TYPE then
            if tail + fragment_size > payload + unat max_size then abort_with WPS_WRONG_RX_SIZE_ERROR c
            else (case frag_copy tail p n 2 c of (err, c1) \<Rightarrow> Some (err, (Some payload, tot), count_down c1))
          else abort_with WPS_FRAGMENT_ERROR c))"

definition wps_frag_read :: "nat \<Rightarrow> u32 \<Rightarrow> frag_conn \<Rightarrow> (wps_error \<times> frame_out \<times> frag_conn) option" where
  "wps_frag_read payload max_size c =
     (case wps_read (fc_io c) of (err, p, n) \<Rightarrow>
        if err \<noteq> WPS_NO_ERROR then Some (err, (Some payload, 0), count_down c)
        else (let m = io_mem (fc_io c); t = transfer_type_of (m p) in
          if t = FULL_FRAME_TRANSFER_TYPE then
            if max_size < ucast n - 1 then abort_with WPS_WRONG_RX_SIZE_ERROR c
            else (case frag_copy payload p n 1 c of (err, c1) \<Rightarrow> Some (err, (Some payload, n - 1), count_down c1))
          else if t = NON_LAST_FRAGMENT_TRANSFER_TYPE then
            if m (p + 1) \<noteq> 0 then abort_with WPS_FRAGMENT_ERROR c
            else if ucast (total_size_of m p) > max_size then abort_with WPS_WRONG_RX_SIZE_ERROR c
            else (case frag_copy payload p n 4 c of (err, c1) \<Rightarrow>
                    frag_read_loop payload max_size (total_size_of m p)
                      (payload + unat (ucast n - 4 :: u32)) c1)
          else abort_with WPS_FRAGMENT_ERROR c))"

text \<open>The error branches of \<open>wps_frag_get_read_payload_size\<close>: flush and account for the flushed frames.\<close>

definition size_error :: "frag_conn \<Rightarrow> (wps_error \<times> u16 \<times> frag_conn) option" where
  "size_error c = map_option (\<lambda>(removed, err, s).
       (if err = WPS_NO_ERROR then WPS_FRAGMENT_ERROR else err, 0,
        c\<lparr>fc_io := s, enqueued_count := enqueued_count c - removed\<rparr>)) (wps_read_error_flush (fc_io c))"

definition wps_frag_get_read_payload_size :: "frag_conn \<Rightarrow> (wps_error \<times> u16 \<times> frag_conn) option" where
  "wps_frag_get_read_payload_size c =
     (case wps_read (fc_io c) of (err, p, n) \<Rightarrow>
        if err \<noteq> WPS_NO_ERROR then Some (err, 0, c)
        else (let m = io_mem (fc_io c); t = transfer_type_of (m p) in
          if t = FULL_FRAME_TRANSFER_TYPE then Some (err, n - 1, c)
          else if t = NON_LAST_FRAGMENT_TRANSFER_TYPE then
            if m (p + 1) \<noteq> 0 then size_error c else Some (err, total_size_of m p, c)
          else size_error c))"

definition wps_frag_get_fifo_size :: "frag_conn \<Rightarrow> u16" where
  "wps_frag_get_fifo_size c = enqueued_count c"

section \<open>Receiving\<close>

definition frag_call :: "(nat \<Rightarrow> nat \<Rightarrow> nat \<Rightarrow> frag_conn \<Rightarrow> frag_conn) \<Rightarrow> callback \<Rightarrow> frag_conn \<Rightarrow> frag_conn" where
  "frag_call run cb c = (case fst cb of None \<Rightarrow> c | Some f \<Rightarrow> run f (fc_conn c) (snd cb) c)"

text \<open>A complete payload: it is counted and announced when there is a callback for it.\<close>

definition frag_announce :: "(nat \<Rightarrow> nat \<Rightarrow> nat \<Rightarrow> frag_conn \<Rightarrow> frag_conn) \<Rightarrow> frag_conn \<Rightarrow> frag_conn" where
  "frag_announce run c =
     (if fst (fr_rx_success c) \<noteq> None
      then frag_call run (fr_rx_success c) (c\<lparr>enqueued_count := enqueued_count c + 1\<rparr>) else c)"

text \<open>\<open>frag_read\<close>: the next received frame moves from the fragment queue to the connection queue.\<close>

definition frag_read :: "frag_conn \<Rightarrow> wps_error \<times> nat \<times> frag_conn" where
  "frag_read c =
     (case xlayer_queue_dequeue_node (fr_queue c) (io_heap (fc_io c)) of
        (None, h) \<Rightarrow> (WPS_QUEUE_EMPTY_ERROR, 0, upd_io (\<lambda>s. s\<lparr>io_heap := h\<rparr>) c)
      | (Some a, h) \<Rightarrow> (WPS_NO_ERROR, payload_begin_it (xl_frame (xn_xlayer (xnodes h a))),
          upd_io (\<lambda>s. s\<lparr>io_heap := snd (xlayer_queue_enqueue_node (io_queue s) (Some a) h)\<rparr>) c))"

partial_function (option) wps_frag_flush_last_transaction :: "frag_conn \<Rightarrow> frag_conn option" where
  "wps_frag_flush_last_transaction c =
     (case wps_read (fc_io c) of (err, p, n) \<Rightarrow>
        if err \<noteq> WPS_NO_ERROR then Some c
        else (let tid = transaction_id_of (io_mem (fc_io c) p) in
          if fr_transaction_id c = tid
          then (case wps_read_done (fc_io c) of (err, s) \<Rightarrow>
                  if err \<noteq> WPS_QUEUE_EMPTY_ERROR then wps_frag_flush_last_transaction (c\<lparr>fc_io := s\<rparr>)
                  else Some (c\<lparr>fc_io := s\<rparr>))
          else Some (c\<lparr>fr_transaction_id := tid, fragment_index := 1\<rparr>)))"

partial_function (option) read_process_fail_loop ::
  "(nat \<Rightarrow> nat \<Rightarrow> nat \<Rightarrow> frag_conn \<Rightarrow> frag_conn) \<Rightarrow> u8 \<Rightarrow> frag_conn \<Rightarrow> frag_conn option" where
  "read_process_fail_loop run tid c =
     (case wps_read (fc_io c) of (err, p, n) \<Rightarrow>
        if err \<noteq> WPS_NO_ERROR then Some c
        else (let m = io_mem (fc_io c); t = transfer_type_of (m p) in
          if t = FULL_FRAME_TRANSFER_TYPE then Some (frag_announce run c)
          else if t = NON_LAST_FRAGMENT_TRANSFER_TYPE \<and> m (p + 1) = 0 \<and> fr_transaction_id c \<noteq> tid
          then Some (c\<lparr>dropped_frame := False, fr_transaction_id := transaction_id_of (m p), fragment_index := 1\<rparr>)
          else (case wps_read_done (fc_io c) of (err, s) \<Rightarrow>
                  if err \<noteq> WPS_QUEUE_EMPTY_ERROR then read_process_fail_loop run tid (c\<lparr>fc_io := s\<rparr>)
                  else Some (c\<lparr>fc_io := s\<rparr>))))"

definition wps_frag_read_process_fail ::
  "(nat \<Rightarrow> nat \<Rightarrow> nat \<Rightarrow> frag_conn \<Rightarrow> frag_conn) \<Rightarrow> u8 \<Rightarrow> frag_conn \<Rightarrow> frag_conn option" where
  "wps_frag_read_process_fail run tid c =
     map_option (\<lambda>c1. frag_call run (fr_rx_fail c1) c1)
       (read_process_fail_loop run tid (c\<lparr>dropped_frame := True, fragment_index := 0\<rparr>))"

text \<open>
  The \<open>switch\<close> of \<open>wps_frag_read_process\<close> on a frame with control byte \<open>b\<close> and number \<open>k\<close>; the
  comparison of the number with the 16-bit index is in \<open>int\<close>.
\<close>

definition frag_process ::
  "(nat \<Rightarrow> nat \<Rightarrow> nat \<Rightarrow> frag_conn \<Rightarrow> frag_conn) \<Rightarrow> byte \<Rightarrow> byte \<Rightarrow> frag_conn \<Rightarrow> frag_conn option" where
  "frag_process run b k c =
     (let t = transfer_type_of b; tid = transaction_id_of b; match = (unat k = unat (fragment_index c)) in
      if t = FULL_FRAME_TRANSFER_TYPE then
        map_option (frag_announce run)
          (if fragment_index c \<noteq> 0 then wps_frag_flush_last_transaction c else Some c)
      else if t = NON_LAST_FRAGMENT_TRANSFER_TYPE then
        if match then
          if k = 0 then Some (c\<lparr>fr_transaction_id := tid, fragment_index := fragment_index c + 1\<rparr>)
          else if tid = fr_transaction_id c then Some (c\<lparr>fragment_index := fragment_index c + 1\<rparr>)
          else wps_frag_read_process_fail run tid c
        else if tid \<noteq> fr_transaction_id c then wps_frag_flush_last_transaction c
        else wps_frag_read_process_fail run tid c
      else if t = LAST_FRAGMENT_TRANSFER_TYPE then
        if match \<and> tid = fr_transaction_id c then Some (frag_announce run (c\<lparr>fragment_index := 0\<rparr>))
        else if tid \<noteq> fr_transaction_id c then wps_frag_flush_last_transaction c
        else wps_frag_read_process_fail run tid c
      else wps_frag_read_process_fail run (fr_transaction_id c) c)"

definition wps_frag_read_process ::
  "(nat \<Rightarrow> nat \<Rightarrow> nat \<Rightarrow> frag_conn \<Rightarrow> frag_conn) \<Rightarrow> frag_conn \<Rightarrow> frag_conn option" where
  "wps_frag_read_process run c =
     (case frag_read c of (err, p, c1) \<Rightarrow>
        if err \<noteq> WPS_NO_ERROR then Some c1
        else (let b = io_mem (fc_io c1) p; k = io_mem (fc_io c1) (p + 1) in
          if dropped_frame c1 then
            if transfer_type_of b \<noteq> FULL_FRAME_TRANSFER_TYPE then
              if transaction_id_of b \<noteq> fr_transaction_id c1
              then wps_frag_read_process_fail run (transaction_id_of b) c1
              else if unat k \<noteq> unat (fragment_index c1)
              then Some (upd_io (\<lambda>s. snd (wps_read_done s)) c1)
              else frag_process run b k c1
            else frag_process run b k (c1\<lparr>dropped_frame := False\<rparr>)
          else frag_process run b k c1))"

text \<open>The overrun handler empties the connection queue.\<close>

partial_function (option) overrun_loop :: "wps_io \<Rightarrow> wps_io option" where
  "overrun_loop s =
     (case wps_read s of (err, p, n) \<Rightarrow>
        if err \<noteq> WPS_NO_ERROR then Some s
        else (case wps_read_done s of (err, s1) \<Rightarrow>
                if err \<noteq> WPS_QUEUE_EMPTY_ERROR then overrun_loop s1 else Some s1))"

definition wps_overrun_process ::
  "(nat \<Rightarrow> nat \<Rightarrow> nat \<Rightarrow> frag_conn \<Rightarrow> frag_conn) \<Rightarrow> frag_conn \<Rightarrow> frag_conn option" where
  "wps_overrun_process run c =
     map_option (\<lambda>c1. (frag_call run (fr_event c1) c1)\<lparr>fc_wps_error := WPS_NO_ERROR\<rparr>)
       (if fc_wps_error c = WPS_RX_OVERRUN_ERROR
        then map_option (\<lambda>s. c\<lparr>fc_io := s\<rparr>) (overrun_loop (fc_io c)) else Some c)"

section \<open>Callbacks\<close>

text \<open>The setters; \<open>self\<close> is the address of the connection, \<open>handler\<close> that of the fragmentation handler.\<close>

definition wps_frag_set_tx_success_callback :: "nat \<Rightarrow> nat \<Rightarrow> callback \<Rightarrow> frag_conn \<Rightarrow> frag_conn" where
  "wps_frag_set_tx_success_callback self handler cb c = c\<lparr>fc_tx_success := (Some handler, self), fr_tx_success := cb\<rparr>"

definition wps_frag_set_tx_fail_callback :: "nat \<Rightarrow> nat \<Rightarrow> callback \<Rightarrow> frag_conn \<Rightarrow> frag_conn" where
  "wps_frag_set_tx_fail_callback self handler cb c = c\<lparr>fc_tx_fail := (Some handler, self), fr_tx_fail := cb\<rparr>"

definition wps_frag_set_tx_drop_callback :: "nat \<Rightarrow> nat \<Rightarrow> callback \<Rightarrow> frag_conn \<Rightarrow> frag_conn" where
  "wps_frag_set_tx_drop_callback self handler cb c = c\<lparr>fc_tx_drop := (Some handler, self), fr_tx_drop := cb\<rparr>"

definition wps_frag_set_rx_success_callback :: "callback \<Rightarrow> frag_conn \<Rightarrow> frag_conn" where
  "wps_frag_set_rx_success_callback cb c = c\<lparr>fr_rx_success := cb\<rparr>"

definition wps_frag_set_rx_fail_callback :: "callback \<Rightarrow> frag_conn \<Rightarrow> frag_conn" where
  "wps_frag_set_rx_fail_callback cb c = c\<lparr>fr_rx_fail := cb\<rparr>"

definition wps_frag_set_event_callback :: "callback \<Rightarrow> frag_conn \<Rightarrow> frag_conn" where
  "wps_frag_set_event_callback cb c = c\<lparr>fr_event := cb\<rparr>"

definition wps_frag_tx_success_callback ::
  "(nat \<Rightarrow> nat \<Rightarrow> nat \<Rightarrow> frag_conn \<Rightarrow> frag_conn) \<Rightarrow> nat \<Rightarrow> frag_conn \<Rightarrow> frag_conn" where
  "wps_frag_tx_success_callback run conn c =
     (if remaining_fragment c \<noteq> 0 then c\<lparr>remaining_fragment := remaining_fragment c - 1\<rparr>
      else (let c1 = (case fst (fr_tx_success c) of None \<Rightarrow> c | Some f \<Rightarrow> run f conn (snd (fr_tx_success c)) c);
                (ok, q) = circular_queue_dequeue (meta_data_queue_tx c1);
                c2 = c1\<lparr>meta_data_queue_tx := q\<rparr>
            in if ok then (case circular_queue_front q of
                             None \<Rightarrow> c2 | Some a \<Rightarrow> c2\<lparr>remaining_fragment := fr_meta c2 a\<rparr>)
               else c2))"

text \<open>
  The drop handler calls the connection's own drop callback. \<open>handler\<close> is the handler's address:
  a call of it is a recursive call, on the connection its argument points to, which is this one.
\<close>

partial_function (option) wps_frag_tx_dropped_callback ::
  "nat \<Rightarrow> (nat \<Rightarrow> nat \<Rightarrow> nat \<Rightarrow> frag_conn \<Rightarrow> frag_conn) \<Rightarrow> nat \<Rightarrow> frag_conn \<Rightarrow> frag_conn option" where
  "wps_frag_tx_dropped_callback handler run conn c =
     (case fst (fc_tx_drop c) of
        None \<Rightarrow> Some c
      | Some f \<Rightarrow> if f = handler then wps_frag_tx_dropped_callback handler run conn c
                  else Some (run f conn (snd (fc_tx_drop c)) c))"

text \<open>The failure handler calls the connection's failure callback with the application's argument.\<close>

definition wps_frag_tx_fail_callback ::
  "(nat \<Rightarrow> nat \<Rightarrow> nat \<Rightarrow> frag_conn \<Rightarrow> frag_conn) \<Rightarrow> nat \<Rightarrow> frag_conn \<Rightarrow> frag_conn" where
  "wps_frag_tx_fail_callback run conn c =
     (case fst (fc_tx_fail c) of None \<Rightarrow> c | Some f \<Rightarrow> run f conn (snd (fr_tx_fail c)) c)"

end
