(* ===== verification/Frag_Send.thy ===== *)
theory Frag_Send
  imports Wps_Frag
begin

text \<open>
  What \<open>wps_frag_send\<close> puts on the air. \<open>frag_frames ps tid data\<close> is the abstract specification,
  the fragments of a payload as byte strings; \<open>frag_pieces\<close> is the list of writes the code makes.
  The send loop is equivalent to sending these pieces in order up to the first error, whatever
  the state; with the contract of a frame sink, a connection with room queues exactly the
  specified fragments.
\<close>

section \<open>Specification\<close>

function rest_frames :: "nat \<Rightarrow> u8 \<Rightarrow> byte list \<Rightarrow> u8 \<Rightarrow> byte list list" where
  "rest_frames step tid data n =
     (if step = 0 \<or> length data < step then [last_fragment tid n @ data]
      else (middle_fragment tid n @ take step data) # rest_frames step tid (drop step data) (n + 1))"
  by pat_completeness auto
termination by (relation "measure (\<lambda>(step, tid, data, n). length data)") auto

declare rest_frames.simps [simp del]

definition frag_frames :: "nat \<Rightarrow> u8 \<Rightarrow> byte list \<Rightarrow> byte list list" where
  "frag_frames ps tid data =
     (if length data + 1 \<le> ps then [full_frame tid @ data]
      else (first_fragment tid (of_nat (length data)) @ take (ps - 4) data) #
           rest_frames (ps - 2) tid (drop (ps - 4) data) 1)"

definition frag_count :: "nat \<Rightarrow> nat \<Rightarrow> nat" where
  "frag_count ps sz = (if sz + 1 \<le> ps then 1 else 2 + (sz - (ps - 4)) div (ps - 2))"

section \<open>The pieces the code writes\<close>

function rest_pieces :: "nat \<Rightarrow> u8 \<Rightarrow> nat \<Rightarrow> nat \<Rightarrow> u8 \<Rightarrow> piece list" where
  "rest_pieces step tid p sz n =
     (if step = 0 \<or> sz < step then [(last_fragment tid n, p, of_nat sz, of_nat sz + 2)]
      else (middle_fragment tid n, p, of_nat step, of_nat step + 2) #
           rest_pieces step tid (p + step) (sz - step) (n + 1))"
  by pat_completeness auto
termination by (relation "measure (\<lambda>(step, tid, p, sz, n). sz)") auto

declare rest_pieces.simps [simp del]

definition frag_pieces :: "nat \<Rightarrow> u8 \<Rightarrow> nat \<Rightarrow> nat \<Rightarrow> piece list" where
  "frag_pieces ps tid p sz =
     (if sz + 1 \<le> ps then [(full_frame tid, p, of_nat sz, of_nat sz + 1)]
      else (first_fragment tid (of_nat sz), p, of_nat (ps - 4), of_nat ps) #
           rest_pieces (ps - 2) tid (p + (ps - 4)) (sz - (ps - 4)) 1)"

lemma length_rest_pieces:
  "0 < step \<Longrightarrow> length (rest_pieces step tid p sz n) = 1 + sz div step"
proof (induction step tid p sz n rule: rest_pieces.induct)
  case (1 step tid p sz n)
  show ?case
  proof (cases "sz < step")
    case True
    then show ?thesis by (simp add: rest_pieces.simps)
  next
    case False
    then have "length (rest_pieces step tid (p + step) (sz - step) (n + 1)) = 1 + (sz - step) div step"
      using 1 by simp
    moreover have "sz div step = Suc ((sz - step) div step)" using False 1(2) by (simp add: le_div_geq)
    ultimately show ?thesis using False 1(2) by (subst rest_pieces.simps) simp
  qed
qed

lemma length_frag_pieces: "4 < ps \<Longrightarrow> length (frag_pieces ps tid p sz) = frag_count ps sz"
  by (simp add: frag_pieces_def frag_count_def length_rest_pieces)

lemma put_frame_payload_size:
  "io_payload_size (snd (put_frame hdr src n sz s)) = io_payload_size s"
  by (auto simp: put_frame_def wps_get_free_slot_def wps_send_def take_tx_node_def allocate_slot_def
      send_node_def Let_def split: prod.splits sum.splits option.splits)

section \<open>The loop sends the pieces\<close>

lemma ucast_u8_u32: "unat (ucast (x :: u8) :: u32) = unat x"
  using unat_u8_lt [of x] by (simp add: unat_ucast_mod del: unat_u8_lt)

lemma unat_minus_small:
  fixes x :: u32
  assumes "k \<le> unat x" "k < 4294967296"
  shows "unat (x - of_nat k) = unat x - k"
proof -
  have "unat (of_nat k :: u32) = k" by (rule unat_of_nat_lt) (use assms in simp)
  then show ?thesis using assms by (subst unat_sub) (simp_all add: word_le_nat_alt)
qed

text \<open>The loop together with the last fragment, as \<open>frag_send_fragments\<close> composes them.\<close>

definition loop_and_last :: "u8 \<Rightarrow> nat \<Rightarrow> u32 \<Rightarrow> u16 \<Rightarrow> wps_io \<Rightarrow> (wps_error \<times> u16 \<times> wps_io) option" where
  "loop_and_last tid p sz n s =
     (case frag_middle_loop tid p sz n s of
        None \<Rightarrow> None
      | Some (err, p2, sz2, n2, s2) \<Rightarrow>
          if err \<noteq> WPS_NO_ERROR then Some (err, n2, s2)
          else (case send_last_fragment tid p2 sz2 (ucast (n2 + 1)) s2 of (err, s3) \<Rightarrow> Some (err, n2 + 1, s3)))"

lemma loop_and_last_unfold:
  assumes st: "2 < unat (io_payload_size s)"
  shows "loop_and_last tid p sz n s =
    (let step = unat (io_payload_size s) - 2 in
     if unat sz < step
     then (case put_piece (last_fragment tid (ucast (n + 1)), p, sz, sz + 2) s of (err, s1) \<Rightarrow> Some (err, n + 1, s1))
     else (case put_piece (middle_fragment tid (ucast (n + 1)), p, of_nat step, of_nat step + 2) s of
             (err, s1) \<Rightarrow> if err \<noteq> WPS_NO_ERROR then Some (err, n + 1, s1)
                         else loop_and_last tid (p + step) (sz - of_nat step) (n + 1) s1))"
proof -
  let ?ps = "ucast (io_payload_size s) :: u32" and ?step = "unat (io_payload_size s) - 2"
  have u: "unat (?ps - 2) = ?step"
    using unat_minus_small [of 2 ?ps] st ucast_u8_u32 [of "io_payload_size s"] by simp
  then have e: "?ps - 2 = of_nat ?step" unfolding u [symmetric] by simp
  have z: "?ps - 2 \<noteq> 0" using u st by (metis neq0_conv unat_0 zero_less_diff)
  have d: "sz div (?ps - 2) = 0 \<longleftrightarrow> unat sz < ?step"
    using st u by (simp add: word_unat_eq_iff unat_div div_eq_0_iff)
  have ps: "of_nat ?step + 2 = ?ps" using e by (metis diff_add_cancel)
  show ?thesis
    unfolding loop_and_last_def
    by (subst frag_middle_loop.simps)
      (use z d e ps u in \<open>auto simp: Let_def put_piece_def send_last_fragment_def send_middle_fragment_def
        split: prod.splits\<close>)
qed

lemma ucast_u16_u8_inc: "(ucast (x + 1 :: u16) :: u8) = ucast x + 1"
  by (rule word_unat_eq_iff [THEN iffD2]) (simp add: unat_ucast_mod unat_word_ariths mod_simps mod_mod_cancel)

lemma loop_and_last_pieces:
  assumes "2 < unat (io_payload_size s)"
  shows "\<exists>n'. loop_and_last tid p sz n s =
      (case put_all put_piece (rest_pieces (unat (io_payload_size s) - 2) tid p (unat sz) (ucast (n + 1))) s of
         (err, s') \<Rightarrow> Some (err, n', s')) \<and>
    (fst (put_all put_piece (rest_pieces (unat (io_payload_size s) - 2) tid p (unat sz) (ucast (n + 1))) s) = WPS_NO_ERROR
       \<longrightarrow> n' = n + 1 + of_nat (unat sz div (unat (io_payload_size s) - 2)))"
  using assms
proof (induction "unat sz" arbitrary: p sz n s rule: less_induct)
  case less
  define step where "step = unat (io_payload_size s) - 2"
  have st: "0 < step" "step < 256" using less.prems unat_u8_lt [of "io_payload_size s"] unfolding step_def by linarith+
  note unf = loop_and_last_unfold [OF less.prems, of tid p sz n, folded step_def, unfolded Let_def]
  show ?case
  proof (cases "unat sz < step")
    case True
    then show ?thesis
      using st unf unfolding step_def [symmetric] by (simp add: rest_pieces.simps split: prod.splits)
  next
    case False
    obtain e s1 where p: "put_piece (middle_fragment tid (ucast (n + 1)), p, of_nat step, of_nat step + 2) s = (e, s1)"
      by (metis prod.exhaust)
    let ?rest = "rest_pieces step tid (p + step) (unat sz - step) (ucast (n + 1) + 1)"
    have pieces: "rest_pieces step tid p (unat sz) (ucast (n + 1)) =
        (middle_fragment tid (ucast (n + 1)), p, of_nat step, of_nat step + 2) # ?rest"
      using False st by (subst rest_pieces.simps) simp
    show ?thesis
    proof (cases "e = WPS_NO_ERROR")
      case err: False
      then show ?thesis using p unf False unfolding step_def [symmetric] pieces by simp
    next
      case ok: True
      have ps: "io_payload_size s1 = io_payload_size s"
        using p put_frame_payload_size [of "middle_fragment tid (ucast (n + 1))" p "of_nat step" "of_nat step + 2" s]
        by (simp add: put_piece_def)
      have sz: "unat (sz - of_nat step) = unat sz - step" using False st by (intro unat_minus_small) simp_all
      have lt: "unat (sz - of_nat step) < unat sz" using sz False st by simp
      have dv: "unat sz div step = Suc ((unat sz - step) div step)" using False st by (simp add: le_div_geq)
      have all: "put_all put_piece (rest_pieces step tid p (unat sz) (ucast (n + 1))) s = put_all put_piece ?rest s1"
        unfolding pieces using p ok by simp
      have L: "loop_and_last tid p sz n s = loop_and_last tid (p + step) (sz - of_nat step) (n + 1) s1"
        using unf False p ok by simp
      have N: "n + 1 + of_nat (unat sz div step) = n + 1 + 1 + of_nat ((unat sz - step) div step)"
        unfolding dv by simp
      have st1: "2 < unat (io_payload_size s1)" using less.prems ps by simp
      show ?thesis
        using less.hyps [OF lt st1, of "p + step" "n + 1"]
        unfolding ps sz ucast_u16_u8_inc [of "n + 1"] step_def [symmetric] all L N .
    qed
  qed
qed

lemma send_fragments_pieces:
  assumes "4 < unat (io_payload_size s)" "unat (io_payload_size s) \<le> unat sz"
  defines "ps \<equiv> unat (io_payload_size s)"
  shows "\<exists>n. frag_send_fragments tid payload sz s =
      (case put_all put_piece (frag_pieces ps tid payload (unat sz)) s of (err, s') \<Rightarrow> Some (err, n, s')) \<and>
    (fst (put_all put_piece (frag_pieces ps tid payload (unat sz)) s) = WPS_NO_ERROR
       \<longrightarrow> n = of_nat (frag_count ps (unat sz) - 1))"
proof -
  have ps: "4 < ps" "ps \<le> unat sz" "ps < 256" using assms(1,2) unat_u8_lt [of "io_payload_size s"] unfolding ps_def by auto
  let ?ps = "ucast (io_payload_size s) :: u32"
  have u: "unat (?ps - 4) = ps - 4" "?ps = of_nat ps" "?ps - 4 = of_nat (ps - 4)"
    using unat_minus_small [of 4 ?ps] ucast_u8_u32 [of "io_payload_size s"] ps by (auto simp: ps_def of_nat_diff)
  obtain e s1 where p: "put_piece (first_fragment tid (of_nat (unat sz)), payload, of_nat (ps - 4), of_nat ps) s = (e, s1)"
    by (metis prod.exhaust)
  have pc: "frag_pieces ps tid payload (unat sz) = (first_fragment tid (of_nat (unat sz)), payload, of_nat (ps - 4), of_nat ps) #
      rest_pieces (ps - 2) tid (payload + (ps - 4)) (unat sz - (ps - 4)) 1"
    using ps by (simp add: frag_pieces_def)
  have cs: "ucast sz = (of_nat (unat sz) :: u16)" by simp
  show ?thesis
  proof (cases "e = WPS_NO_ERROR")
    case False
    then have "frag_send_fragments tid payload sz s = Some (e, 0, s1)"
      using p u by (simp add: frag_send_fragments_def send_first_fragment_def put_piece_def)
    then show ?thesis using p False unfolding pc by simp
  next
    case True
    have sz: "unat (sz - of_nat (ps - 4)) = unat sz - (ps - 4)" using ps by (intro unat_minus_small) simp_all
    have ps1: "io_payload_size s1 = io_payload_size s"
      using p put_frame_payload_size [of "first_fragment tid (of_nat (unat sz))" payload "of_nat (ps - 4)" "of_nat ps" s]
      by (simp add: put_piece_def)
    have "frag_send_fragments tid payload sz s = loop_and_last tid (payload + (ps - 4)) (sz - of_nat (ps - 4)) 0 s1"
      unfolding frag_send_fragments_def loop_and_last_def send_first_fragment_def
      using p u True by (simp add: put_piece_def Let_def)
    moreover have "put_all put_piece (frag_pieces ps tid payload (unat sz)) s =
        put_all put_piece (rest_pieces (ps - 2) tid (payload + (ps - 4)) (unat sz - (ps - 4)) 1) s1"
      unfolding pc using p True by simp
    moreover have "(0 :: u16) + 1 + of_nat ((unat sz - (ps - 4)) div (ps - 2)) = of_nat (frag_count ps (unat sz) - 1)"
      using ps by (simp add: frag_count_def)
    moreover have "2 < unat (io_payload_size s1)" using ps ps1 by (simp add: ps_def)
    ultimately show ?thesis
      using loop_and_last_pieces [of s1 tid "payload + (ps - 4)" "sz - of_nat (ps - 4)" 0]
      unfolding ps1 sz ps_def [symmetric] by simp
  qed
qed

section \<open>The space check\<close>

definition frag_needed :: "nat \<Rightarrow> nat \<Rightarrow> nat" where
  "frag_needed ps sz = (if sz + 1 \<le> ps then 1 else 1 + (sz - (ps - 4) + (ps - 2) - 1) div (ps - 2))"

lemma check_queue_space_eq:
  assumes "4 < unat (io_payload_size (fc_io c))" "unat sz < 4000000000"
  shows "check_queue_space c sz =
    Some (frag_needed (unat (io_payload_size (fc_io c))) (unat sz) \<le> unat (wps_get_fifo_free_space (fc_io c)))"
proof -
  define ps where "ps = unat (io_payload_size (fc_io c))"
  let ?ps = "ucast (io_payload_size (fc_io c)) :: u32"
  have ps: "4 < ps" "ps < 256" "unat ?ps = ps"
    using assms(1) unat_u8_lt [of "io_payload_size (fc_io c)"] ucast_u8_u32 [of "io_payload_size (fc_io c)"]
    unfolding ps_def by auto
  have m: "unat (?ps - 1) = ps - 1" "unat (?ps - 2) = ps - 2" "unat (?ps - 4) = ps - 4"
    using unat_minus_small [of 1 ?ps] unat_minus_small [of 2 ?ps] unat_minus_small [of 4 ?ps] ps by simp_all
  have g: "?ps > 1" "?ps > 2" "?ps > 4" using ps by (simp_all add: word_less_nat_alt)
  have z: "?ps - 2 \<noteq> 0" using m(2) ps by auto
  have le: "sz \<le> ?ps - 1 \<longleftrightarrow> unat sz + 1 \<le> ps" using m(1) ps(1) by (simp add: word_le_nat_alt) linarith
  show ?thesis
  proof (cases "unat sz + 1 \<le> ps")
    case True
    then show ?thesis using g z le unfolding ps_def [symmetric]
      by (simp add: check_queue_space_def frag_needed_def Let_def word_le_nat_alt)
  next
    case False
    have r: "unat (sz - (?ps - 4)) = unat sz - (ps - 4)"
      using m(3) False by (subst unat_sub) (simp_all add: word_le_nat_alt)
    have a: "unat (sz - (?ps - 4) + (?ps - 2)) = unat sz - (ps - 4) + (ps - 2)"
      using r m(2) assms(2) ps by (subst unat_plus_lt) simp_all
    have b: "unat (sz - (?ps - 4) + (?ps - 2) - 1) = unat sz - (ps - 4) + (ps - 2) - 1"
      using unat_minus_small [of 1 "sz - (?ps - 4) + (?ps - 2)"] a ps False by simp
    have d: "(unat sz - (ps - 4) + (ps - 2) - 1) div (ps - 2) < 4294967295"
      by (rule le_less_trans [OF div_le_dividend]) (use assms(2) ps in linarith)
    have q: "unat ((sz - (?ps - 4) + (?ps - 2) - 1) div (?ps - 2)) = (unat sz - (ps - 4) + (ps - 2) - 1) div (ps - 2)"
      unfolding unat_div b m(2) ..
    have "unat (1 + (sz - (?ps - 4) + (?ps - 2) - 1) div (?ps - 2)) =
        1 + (unat sz - (ps - 4) + (ps - 2) - 1) div (ps - 2)"
      by (subst unat_plus_lt) (unfold q, use d in simp_all)
    then show ?thesis using False g z le unfolding ps_def [symmetric]
      by (simp add: check_queue_space_def frag_needed_def Let_def word_le_nat_alt)
  qed
qed

text \<open>The rounding: exactly at the multiples one fragment too few is reckoned with.\<close>

lemma frag_needed_count:
  assumes "4 < ps"
  shows "frag_count ps sz =
    frag_needed ps sz + (if ps \<le> sz \<and> (ps - 2) dvd (sz - (ps - 4)) then 1 else 0)"
proof (cases "ps \<le> sz")
  case True
  define r k where "r = sz - (ps - 4)" and "k = ps - 2"
  have k: "0 < k" using assms unfolding k_def by simp
  have "(r + k - 1) div k = r div k + (if k dvd r then 0 else 1)"
  proof (cases "k dvd r")
    case True
    then obtain q where "r = k * q" by blast
    moreover have "(k * q + (k - 1)) div k = q" by (subst div_mult_self4) (use k in simp_all)
    ultimately show ?thesis using k by (simp add: add_diff_assoc)
  next
    case False
    then have m: "0 < r mod k" "r mod k < k" using k by (simp_all add: dvd_eq_mod_eq_0)
    have "r + k - 1 = k * Suc (r div k) + (r mod k - 1)"
      using m mult_div_mod_eq [of k r] by simp
    moreover have "(k * Suc (r div k) + (r mod k - 1)) div k = Suc (r div k)"
      using m by (subst div_mult_self4) simp_all
    ultimately show ?thesis using False by simp
  qed
  then show ?thesis using True assms by (simp add: frag_count_def frag_needed_def r_def k_def)
qed (use assms in \<open>simp add: frag_count_def frag_needed_def\<close>)

section \<open>Pieces and frames\<close>

lemma content_rest_pieces:
  assumes "step < 4294967296" "sz < 4294967296"
  shows "map (piece_content s) (rest_pieces step tid p sz n) = rest_frames step tid (load_bytes (io_mem s) p sz) n"
  using assms
proof (induction step tid p sz n rule: rest_pieces.induct)
  case (1 step tid p sz n)
  have u: "unat (of_nat step :: u32) = step" "unat (of_nat sz :: u32) = sz"
    by (rule unat_of_nat_lt, use 1(2,3) in simp)+
  show ?case
  proof (cases "step = 0 \<or> sz < step")
    case True
    then show ?thesis using u
      by (subst rest_pieces.simps, subst rest_frames.simps) (auto simp: piece_content_def)
  next
    case False
    then have "map (piece_content s) (rest_pieces step tid (p + step) (sz - step) (n + 1)) =
        rest_frames step tid (load_bytes (io_mem s) (p + step) (sz - step)) (n + 1)"
      using 1 by simp
    then show ?thesis using u False
      by (subst rest_pieces.simps, subst rest_frames.simps) (auto simp: piece_content_def load_take load_drop)
  qed
qed

lemma content_frag_pieces:
  assumes "ps < 256" "sz < 4294967296"
  shows "map (piece_content s) (frag_pieces ps tid p sz) = frag_frames ps tid (load_bytes (io_mem s) p sz)"
proof -
  have u: "unat (of_nat (ps - 4) :: u32) = ps - 4" "unat (of_nat sz :: u32) = sz"
    by (rule unat_of_nat_lt, use assms in simp)+
  then show ?thesis
    using content_rest_pieces [of "ps - 2" "sz - (ps - 4)" s tid "p + (ps - 4)" 1] assms
    by (auto simp: frag_pieces_def frag_frames_def piece_content_def load_take load_drop)
qed

definition piece_in :: "nat \<Rightarrow> nat \<Rightarrow> nat \<Rightarrow> piece \<Rightarrow> bool" where
  "piece_in ps p sz = (\<lambda>(hdr, src, n, m). unat m = length hdr + unat n \<and> unat m \<le> ps \<and>
     p \<le> src \<and> src + unat n \<le> p + sz)"

lemma rest_pieces_in:
  assumes "0 < step" "step < 65536" "x \<in> set (rest_pieces step tid p sz n)"
  shows "piece_in (step + 2) p sz x"
  using assms
proof (induction step tid p sz n rule: rest_pieces.induct)
  case (1 step tid p sz n)
  have s: "unat (of_nat step :: u32) = step" by (rule unat_of_nat_lt) (use 1(3) in simp)
  have s2: "unat (of_nat step + 2 :: u32) = step + 2" using s 1(3) by (subst unat_plus_lt) simp_all
  show ?case
  proof (cases "sz < step")
    case True
    then have z: "unat (of_nat sz :: u32) = sz" by (intro unat_of_nat_lt) (use 1(3) in simp)
    have "unat (of_nat sz + 2 :: u32) = sz + 2" using z True 1(3) by (subst unat_plus_lt) simp_all
    then show ?thesis using True z 1(4)
      by (subst (asm) rest_pieces.simps) (simp add: piece_in_def last_fragment_def)
  next
    case False
    then consider "x = (middle_fragment tid n, p, of_nat step, of_nat step + 2)"
      | "x \<in> set (rest_pieces step tid (p + step) (sz - step) (n + 1))"
      using 1(2,4) by (subst (asm) rest_pieces.simps) auto
    then show ?thesis
    proof cases
      case 1
      then show ?thesis using s s2 False by (simp add: piece_in_def middle_fragment_def)
    next
      case 2
      with 1(1) [OF _ 1(2,3)] False 1(2) show ?thesis by (auto simp: piece_in_def)
    qed
  qed
qed

lemma piece_in_mono:
  "piece_in a p sz x \<Longrightarrow> a \<le> b \<Longrightarrow> q \<le> p \<Longrightarrow> p + sz \<le> q + k \<Longrightarrow> piece_in b q k x"
  by (auto simp: piece_in_def)

lemma frag_pieces_in:
  assumes "4 < ps" "ps < 256" "x \<in> set (frag_pieces ps tid p sz)"
  shows "piece_in ps p sz x"
proof (cases "sz + 1 \<le> ps")
  case True
  then have z: "unat (of_nat sz :: u32) = sz" by (intro unat_of_nat_lt) (use assms in simp)
  have "unat (of_nat sz + 1 :: u32) = sz + 1" using z True assms by (subst unat_plus_lt) simp_all
  then show ?thesis using assms True z by (simp add: frag_pieces_def piece_in_def full_frame_def)
next
  case False
  have u: "unat (of_nat (ps - 4) :: u32) = ps - 4" "unat (of_nat ps :: u32) = ps"
    by (rule unat_of_nat_lt, use assms in simp)+
  from False assms(3) consider "x = (first_fragment tid (of_nat sz), p, of_nat (ps - 4), of_nat ps)"
    | "x \<in> set (rest_pieces (ps - 2) tid (p + (ps - 4)) (sz - (ps - 4)) 1)"
    by (auto simp: frag_pieces_def)
  then show ?thesis
  proof cases
    case 1
    then show ?thesis using u False assms(1,2) by (auto simp: piece_in_def first_fragment_def)
  next
    case 2
    have "piece_in (ps - 2 + 2) (p + (ps - 4)) (sz - (ps - 4)) x"
      by (rule rest_pieces_in [OF _ _ 2]) (use assms(1,2) in linarith)+
    then show ?thesis by (rule piece_in_mono) (use assms(1) False in linarith)+
  qed
qed

text \<open>Every piece fits a connection whose memory spares the payload, and costs at most a full slot.\<close>

lemma pieces_fit:
  assumes "4 < unat (io_payload_size s)" "unat (io_header_size s) + unat (io_payload_size s) + 2 < 256"
    and "io_tx_spared s p sz" "x \<in> set (frag_pieces (unat (io_payload_size s)) tid p sz)"
  shows "piece_fits s x" "piece_cost s x \<le> unat (io_header_size s) + unat (io_payload_size s) + 2"
proof -
  obtain hdr src n m where x: "x = (hdr, src, n, m)" by (metis prod.exhaust)
  have "piece_in (unat (io_payload_size s)) p sz x"
    by (rule frag_pieces_in [OF assms(1) _ assms(4)]) (use assms(2) in linarith)
  then have i: "unat m = length hdr + unat n" "unat m \<le> unat (io_payload_size s)" "p \<le> src" "src + unat n \<le> p + sz"
    by (simp_all add: x piece_in_def)
  have "io_tx_spared s src (unat n)"
    using assms(3) spared_sub i(3,4) unfolding io_tx_spared_def by blast
  then show "piece_fits s x" using i assms(2) by (simp add: x piece_fits_def)
  show "piece_cost s x \<le> unat (io_header_size s) + unat (io_payload_size s) + 2" using i by (simp add: x piece_cost_def)
qed

lemma sum_list_le: "(\<And>x. x \<in> set xs \<Longrightarrow> f x \<le> (b :: nat)) \<Longrightarrow> sum_list (map f xs) \<le> length xs * b"
  by (induction xs) (auto simp: add_mono)

lemma tx_ready_mono: "tx_ready s n k \<Longrightarrow> k' \<le> k \<Longrightarrow> tx_ready s n k'"
  by (auto simp: tx_ready_def split: option.splits)

text \<open>A list of pieces of the payload, sent on a connection with a full slot for each.\<close>

lemma send_pieces:
  assumes "4 < unat (io_payload_size s)" "unat (io_header_size s) + unat (io_payload_size s) + 2 < 256"
    and "io_tx_spared s p sz" "set xs \<subseteq> set (frag_pieces (unat (io_payload_size s)) tid p sz)"
    and "tx_ready s (length xs) (length xs * (unat (io_header_size s) + unat (io_payload_size s) + 2))"
  shows "\<exists>s'. put_all put_piece xs s = (WPS_NO_ERROR, s') \<and> tx_ready s' 0 0 \<and> tx_extends s s' \<and>
    conn_frames s' = conn_frames s @ map (piece_content s) xs"
proof (rule io.put_all_ok)
  note pf = pieces_fit [OF assms(1-3)]
  have "sum_list (map (piece_cost s) xs) \<le> length xs * (unat (io_header_size s) + unat (io_payload_size s) + 2)"
    by (rule sum_list_le) (use pf(2) assms(4) in blast)
  then show "tx_ready s (length xs + 0) (sum_list (map (piece_cost s) xs) + 0)"
    using tx_ready_mono [OF assms(5)] by simp
  show "\<forall>x\<in>set xs. piece_fits s x" using pf(1) assms(4) by blast
qed

lemma finish_io: "fc_io (frag_finish n c) = fc_io c"
  by (simp add: frag_finish_def frag_note_sent_def Let_def split: option.splits)

lemma finish_other:
  "next_transaction_id (frag_finish n c) = (next_transaction_id c + 1) mod MAX_TRANSACTION_ID"
  by (simp add: frag_finish_def frag_note_sent_def Let_def split: option.splits)

section \<open>An example connection\<close>

text \<open>Four pool nodes, a queue of \<open>mx\<close> places, 200 bytes of transmit buffer, frames of 10 bytes.\<close>

definition frag_demo :: "u16 \<Rightarrow> frag_conn" where
  "frag_demo mx =
     \<lparr>fc_io = \<lparr>io_heap = xlayer_queue_init_queue 9 mx ''tx'' (xlayer_queue_init_pool 8 1000 7 4 ''pool'' zero_store),
        io_mem = (\<lambda>x. of_nat x), io_queue = 9, io_free_tx_queue = 7,
        io_tx_data = Some (xlayer_circular_data_init 5000 200), io_rx_data = None,
        io_header_size = 3, io_payload_size = 10, io_tx_node = None, io_now = 0\<rparr>,
      fc_wps_error = WPS_NO_ERROR, fc_conn = 0, fc_rx_queue = 9, fc_rx_success = (None, 0), fc_evt = (None, 0),
      fc_tx_success = (None, 0), fc_tx_fail = (None, 0), fc_tx_drop = (None, 0), fr_enabled = True, fr_queue = 11,
      meta_data_queue_tx = circular_queue_init 6000 4 2, fr_meta = (\<lambda>_. 0), remaining_fragment = 0, fragment_index = 0,
      fr_transaction_id = 0, dropped_frame = False, enqueued_count = 0, fr_tx_success = (None, 0), fr_tx_drop = (None, 0),
      fr_tx_fail = (None, 0), fr_rx_success = (None, 0), fr_rx_fail = (None, 0), fr_event = (None, 0), next_transaction_id = 0\<rparr>"

lemma init_queue_other:
  "r \<noteq> q \<Longrightarrow> xqueues (xlayer_queue_init_queue q mx name h) r = xqueues h r"
  "r \<noteq> q \<Longrightarrow> xq_items (xlayer_queue_init_queue q mx name h) r = xq_items h r"
  "r \<noteq> q \<Longrightarrow> xq_wf (xlayer_queue_init_queue q mx name h) r = xq_wf h r"
  using items_frame [of "xlayer_queue_init_queue q mx name h" h r] by (simp_all add: xlayer_queue_init_queue_def)

lemma demo_queue:
  "xq_items (io_heap (fc_io (frag_demo mx))) 9 = []" "xq_cap (io_heap (fc_io (frag_demo mx))) 9 = unat mx"
  "xq_wf (io_heap (fc_io (frag_demo mx))) 9"
  by (simp_all add: frag_demo_def init_queue_items)

lemma demo_ready:
  assumes "n \<le> 4" "n \<le> unat mx" "k \<le> 200"
  shows "tx_ready (fc_io (frag_demo mx)) n k"
proof -
  let ?h = "io_heap (fc_io (frag_demo mx))"
  note pool = init_pool_items [of 8 4 1000 7 "''pool''" zero_store]
  have "xq_items ?h 7 = [1000, 1008, 1016, 1024]" "xq_wf ?h 7" "free_xlayer_queue_type (xqueues ?h 7)"
    using pool by (simp_all add: frag_demo_def init_queue_other upt_rec)
  then show ?thesis using demo_queue [of mx] assms
    by (simp add: tx_ready_def xheap_wf_def conn_nodes_def frag_demo_def xlayer_circular_data_init_def)
qed

lemma demo_fields [simp]:
  "io_payload_size (fc_io (frag_demo mx)) = 10" "io_header_size (fc_io (frag_demo mx)) = 3"
  "io_mem (fc_io (frag_demo mx)) = (\<lambda>x. of_nat x)" "io_queue (fc_io (frag_demo mx)) = 9"
  "next_transaction_id (frag_demo mx) = 0"
  by (simp_all add: frag_demo_def)

lemma demo_spared: "x + n \<le> 5000 \<Longrightarrow> io_tx_spared (fc_io (frag_demo mx)) x n"
  by (simp add: frag_demo_def io_tx_spared_def spared_def xlayer_circular_data_init_def)

lemma demo_empty: "conn_frames (fc_io (frag_demo mx)) = []"
  using demo_queue(1) [of mx] by (simp add: conn_frames_def conn_nodes_def frag_demo_def)

lemmas frag_eval = rest_frames.simps full_frame_def first_fragment_def middle_fragment_def last_fragment_def
  transaction_control_def FULL_FRAME_TRANSFER_TYPE_def NON_LAST_FRAGMENT_TRANSFER_TYPE_def
  LAST_FRAGMENT_TRANSFER_TYPE_def

section \<open>Sending a payload\<close>

abbreviation slot_bytes :: "frag_conn \<Rightarrow> nat" where
  "slot_bytes c \<equiv> unat (io_header_size (fc_io c)) + unat (io_payload_size (fc_io c)) + 2"

lemma frag_send_pieces:
  assumes "4 < unat (io_payload_size (fc_io c))" "unat sz < 4000000000" "check_queue_space c sz = Some True"
  shows "wps_frag_send payload sz c = Some
    (case put_all put_piece (frag_pieces (unat (io_payload_size (fc_io c))) (next_transaction_id c) payload (unat sz)) (fc_io c)
     of (err, s) \<Rightarrow> if err \<noteq> WPS_NO_ERROR then (err, c\<lparr>fc_io := s\<rparr>)
        else (WPS_NO_ERROR, frag_finish (of_nat (frag_count (unat (io_payload_size (fc_io c))) (unat sz) - 1)) (c\<lparr>fc_io := s\<rparr>)))"
proof -
  let ?ps = "unat (io_payload_size (fc_io c))"
  have u: "unat (sz + 1) = unat sz + 1" using assms(2) by (subst unat_plus_lt) simp_all
  have le: "sz + 1 \<le> ucast (io_payload_size (fc_io c)) \<longleftrightarrow> unat sz + 1 \<le> ?ps"
    using u ucast_u8_u32 [of "io_payload_size (fc_io c)"] by (simp add: word_le_nat_alt)
  show ?thesis
  proof (cases "unat sz + 1 \<le> ?ps")
    case True
    then show ?thesis using le assms(3)
      by (auto simp: wps_frag_send_def send_full_frame_def frag_pieces_def put_piece_def frag_count_def Let_def
          split: prod.splits)
  next
    case False
    have "?ps \<le> unat sz" using False by simp
    from send_fragments_pieces [OF assms(1) this, of "next_transaction_id c" payload]
    show ?thesis using False le assms(3)
      by (fastforce simp: wps_frag_send_def Let_def split: prod.splits)
  qed
qed

lemma fifo_free_space:
  assumes "xq_wf (io_heap s) (io_queue s)"
  shows "unat (wps_get_fifo_free_space s) = xq_cap (io_heap s) (io_queue s) - length (conn_nodes s)"
proof -
  let ?u = "xqueues (io_heap s) (io_queue s)"
  have le: "xq_size ?u \<le> xq_max_size ?u" "unat (xq_size ?u) = length (conn_nodes s)"
    using assms by (simp_all add: xq_wf_def conn_nodes_def)
  have "unat (xq_max_size ?u - xq_size ?u) = xq_cap (io_heap s) (io_queue s) - length (conn_nodes s)"
    using le by (subst unat_sub) (simp_all add: xq_cap_def)
  moreover have "unat (ucast (x :: u16) :: u32) = unat x" for x
    using unat_u16_lt [of x] by (simp add: unat_ucast_mod del: unat_u16_lt)
  ultimately show ?thesis
    by (simp add: wps_get_fifo_free_space_def xlayer_queue_get_free_space_def xlayer_queue_get_size_def
        xlayer_queue_get_max_size_def)
qed

lemma check_passes:
  assumes "4 < unat (io_payload_size (fc_io c))" "unat sz < 4000000000"
    and "tx_ready (fc_io c) n k" "frag_needed (unat (io_payload_size (fc_io c))) (unat sz) \<le> n"
  shows "check_queue_space c sz = Some True"
proof -
  have "xq_wf (io_heap (fc_io c)) (io_queue (fc_io c))" "length (conn_nodes (fc_io c)) + n \<le> xq_cap (io_heap (fc_io c)) (io_queue (fc_io c))"
    using assms(3) by (simp_all add: tx_ready_def xheap_wf_def)
  then show ?thesis using check_queue_space_eq [OF assms(1,2)] fifo_free_space assms(4) by simp
qed

lemma count_pos: "4 < ps \<Longrightarrow> 0 < frag_count ps sz"
  by (simp add: frag_count_def)

lemma frag_send_ready:
  fixes c :: frag_conn and sz :: u32 and p :: nat
  assumes "4 < unat (io_payload_size (fc_io c))" "slot_bytes c < 256" "unat sz < 4000000000"
    and "io_tx_spared (fc_io c) p (unat sz)"
    and "tx_ready (fc_io c) (frag_count (unat (io_payload_size (fc_io c))) (unat sz))
          (frag_count (unat (io_payload_size (fc_io c))) (unat sz) * slot_bytes c)"
  shows "\<exists>c'. wps_frag_send p sz c = Some (WPS_NO_ERROR, c') \<and>
    conn_frames (fc_io c') = conn_frames (fc_io c) @
      frag_frames (unat (io_payload_size (fc_io c))) (next_transaction_id c) (load_bytes (io_mem (fc_io c)) p (unat sz)) \<and>
    next_transaction_id c' = (next_transaction_id c + 1) mod MAX_TRANSACTION_ID"
proof -
  let ?ps = "unat (io_payload_size (fc_io c))"
  let ?xs = "frag_pieces ?ps (next_transaction_id c) p (unat sz)"
  have l: "length ?xs = frag_count ?ps (unat sz)" by (rule length_frag_pieces [OF assms(1)])
  have n: "frag_needed ?ps (unat sz) \<le> frag_count ?ps (unat sz)" using frag_needed_count [OF assms(1)] by simp
  have pb: "?ps < 256" by (rule unat_u8_lt)
  obtain s' where s': "put_all put_piece ?xs (fc_io c) = (WPS_NO_ERROR, s')"
    "conn_frames s' = conn_frames (fc_io c) @ map (piece_content (fc_io c)) ?xs"
    using send_pieces [OF assms(1,2,4) order_refl, of "next_transaction_id c"] assms(5) l by auto
  have "map (piece_content (fc_io c)) ?xs = frag_frames ?ps (next_transaction_id c) (load_bytes (io_mem (fc_io c)) p (unat sz))"
    by (rule content_frag_pieces [OF pb]) (use assms(3) in simp)
  with frag_send_pieces [OF assms(1,3) check_passes [OF assms(1,3,5) n], of p] s' show ?thesis
    by (simp add: finish_io finish_other)
qed

text \<open>The last piece finds the queue full.\<close>

lemma put_piece_full: "io_queue_full s \<Longrightarrow> put_piece x s = (WPS_QUEUE_FULL_ERROR, s)"
  by (cases x) (simp add: put_piece_def put_frame_def wps_get_free_slot_def)

lemma frag_send_undercount:
  fixes c :: frag_conn and sz :: u32 and p :: nat
  assumes "4 < unat (io_payload_size (fc_io c))" "slot_bytes c < 256" "unat sz < 4000000000"
    and "io_tx_spared (fc_io c) p (unat sz)"
    and "unat (io_payload_size (fc_io c)) \<le> unat sz"
    and "(unat (io_payload_size (fc_io c)) - 2) dvd (unat sz - (unat (io_payload_size (fc_io c)) - 4))"
    and "tx_ready (fc_io c) (frag_count (unat (io_payload_size (fc_io c))) (unat sz) - 1)
          ((frag_count (unat (io_payload_size (fc_io c))) (unat sz) - 1) * slot_bytes c)"
    and "xq_cap (io_heap (fc_io c)) (io_queue (fc_io c)) =
          length (conn_nodes (fc_io c)) + (frag_count (unat (io_payload_size (fc_io c))) (unat sz) - 1)"
  shows "\<exists>c'. wps_frag_send p sz c = Some (WPS_QUEUE_FULL_ERROR, c') \<and>
    conn_frames (fc_io c') = conn_frames (fc_io c) @ butlast
      (frag_frames (unat (io_payload_size (fc_io c))) (next_transaction_id c) (load_bytes (io_mem (fc_io c)) p (unat sz)))"
proof -
  let ?ps = "unat (io_payload_size (fc_io c))"
  let ?xs = "frag_pieces ?ps (next_transaction_id c) p (unat sz)"
  have l: "length ?xs = frag_count ?ps (unat sz)" by (rule length_frag_pieces [OF assms(1)])
  then have ne: "?xs \<noteq> []" using count_pos [OF assms(1), of "unat sz"] by auto
  have n: "frag_needed ?ps (unat sz) \<le> frag_count ?ps (unat sz) - 1"
    using frag_needed_count [OF assms(1), of "unat sz"] assms(5,6) by simp
  have pb: "?ps < 256" by (rule unat_u8_lt)
  have sub: "set (butlast ?xs) \<subseteq> set ?xs" by (auto dest: in_set_butlastD)
  obtain s' where s': "put_all put_piece (butlast ?xs) (fc_io c) = (WPS_NO_ERROR, s')" "tx_ready s' 0 0"
    "tx_extends (fc_io c) s'" "conn_frames s' = conn_frames (fc_io c) @ map (piece_content (fc_io c)) (butlast ?xs)"
    using send_pieces [OF assms(1,2,4) sub] assms(7) l by auto
  have w: "xq_wf (io_heap s') (io_queue s')" using s'(2) by (simp add: tx_ready_def xheap_wf_def)
  have "length (conn_nodes s') = length (conn_nodes (fc_io c)) + length (butlast ?xs)"
    using arg_cong [OF s'(4), of length] by (simp add: conn_frames_def)
  then have "io_queue_full s'"
    using queue_full_iff [OF w] s'(3) assms(8) l by (simp add: tx_extends_def)
  then have "put_all put_piece ?xs (fc_io c) = (WPS_QUEUE_FULL_ERROR, s')"
    using io.put_all_append [of "butlast ?xs" "[last ?xs]" "fc_io c"] s'(1) ne put_piece_full [of s' "last ?xs"] by simp
  moreover have "map (piece_content (fc_io c)) (butlast ?xs) =
      butlast (frag_frames ?ps (next_transaction_id c) (load_bytes (io_mem (fc_io c)) p (unat sz)))"
    using content_frag_pieces [OF pb, of "unat sz" "fc_io c"] assms(3) by (simp add: map_butlast)
  ultimately show ?thesis
    using frag_send_pieces [OF assms(1,3) check_passes [OF assms(1,3,7) n], of p] s'(4) by simp
qed

text \<open>
  C10. The fragmentation loop is equivalent to its reference, whatever the state of queues, pools and
  memory: without as many free places in the queue as \<open>frag_needed\<close> reckons, \<open>wps_frag_send\<close> reports a
  full queue and changes nothing; otherwise it returns and does exactly what sending the pieces of
  \<open>frag_pieces\<close> in order up to the first error does; with no error the fragment count is recorded and the
  transaction number advances, with one nothing but the pieces sent is left. Frames have more than
  four bytes, the length of the longest fragment header.
\<close>

theorem wps_frag_send_equiv:
  assumes "4 < unat (io_payload_size (fc_io c))" "unat sz < 4000000000"
  shows "wps_frag_send payload sz c = Some
    (if unat (wps_get_fifo_free_space (fc_io c)) < frag_needed (unat (io_payload_size (fc_io c))) (unat sz)
     then (WPS_QUEUE_FULL_ERROR, c)
     else case put_all put_piece (frag_pieces (unat (io_payload_size (fc_io c))) (next_transaction_id c) payload (unat sz)) (fc_io c)
       of (err, s) \<Rightarrow> if err \<noteq> WPS_NO_ERROR then (err, c\<lparr>fc_io := s\<rparr>)
          else (WPS_NO_ERROR, frag_finish (of_nat (frag_count (unat (io_payload_size (fc_io c))) (unat sz) - 1)) (c\<lparr>fc_io := s\<rparr>)))"
proof (cases "unat (wps_get_fifo_free_space (fc_io c)) < frag_needed (unat (io_payload_size (fc_io c))) (unat sz)")
  case True
  then show ?thesis using check_queue_space_eq [OF assms] by (simp add: wps_frag_send_def)
next
  case False
  with check_queue_space_eq [OF assms] have "check_queue_space c sz = Some True" by simp
  from frag_send_pieces [OF assms this] False show ?thesis by simp
qed

theorem wps_frag_send_equiv_witness:
  "wps_frag_send 100 20 (frag_demo 4) = Some
    (case put_all put_piece (frag_pieces 10 0 100 20) (fc_io (frag_demo 4)) of
       (err, s) \<Rightarrow> if err \<noteq> WPS_NO_ERROR then (err, (frag_demo 4)\<lparr>fc_io := s\<rparr>)
         else (WPS_NO_ERROR, frag_finish 2 ((frag_demo 4)\<lparr>fc_io := s\<rparr>)))"
proof -
  have k: "of_nat (frag_count (unat (10 :: u8)) (unat (20 :: u32)) - 1) = (2 :: u16)" by (simp add: frag_count_def)
  have "check_queue_space (frag_demo 4) 20 = Some True"
    by (rule check_passes [OF _ _ demo_ready [of 4 4 100]]) (simp_all add: frag_needed_def)
  then have "\<not> unat (wps_get_fifo_free_space (fc_io (frag_demo 4))) < frag_needed (unat (10 :: u8)) (unat (20 :: u32))"
    using check_queue_space_eq [of "frag_demo 4" 20] by simp
  with wps_frag_send_equiv [of "frag_demo 4" 20 100] show ?thesis unfolding demo_fields k by simp
qed

text \<open>
  Sending fragments: on a connection whose pool, queue and transmit buffer have room for the
  fragments of the payload, \<open>wps_frag_send\<close> returns without error, appends exactly the specified
  fragments to the queued frames, in order and with the bytes the payload had, and leaves all
  frames queued before untouched; the transaction number advances modulo 32.
\<close>

theorem wps_frag_send_frames:
  fixes c :: frag_conn and sz :: u32 and p :: nat
  assumes "4 < unat (io_payload_size (fc_io c))" "slot_bytes c < 256" "unat sz < 4000000000"
    and "io_tx_spared (fc_io c) p (unat sz)"
    and "tx_ready (fc_io c) (frag_count (unat (io_payload_size (fc_io c))) (unat sz))
          (frag_count (unat (io_payload_size (fc_io c))) (unat sz) * slot_bytes c)"
  shows "\<exists>c'. wps_frag_send p sz c = Some (WPS_NO_ERROR, c') \<and>
    conn_frames (fc_io c') = conn_frames (fc_io c) @
      frag_frames (unat (io_payload_size (fc_io c))) (next_transaction_id c) (load_bytes (io_mem (fc_io c)) p (unat sz)) \<and>
    next_transaction_id c' = (next_transaction_id c + 1) mod MAX_TRANSACTION_ID"
  by (rule frag_send_ready [OF assms])

theorem wps_frag_send_frames_witness:
  "\<exists>c'. wps_frag_send 100 20 (frag_demo 4) = Some (WPS_NO_ERROR, c') \<and>
    conn_frames (fc_io c') = [[2, 0, 20, 0, 100, 101, 102, 103, 104, 105],
      [2, 1, 106, 107, 108, 109, 110, 111, 112, 113], [4, 2, 114, 115, 116, 117, 118, 119]]"
proof -
  obtain c' where c: "wps_frag_send 100 20 (frag_demo 4) = Some (WPS_NO_ERROR, c')"
    "conn_frames (fc_io c') = conn_frames (fc_io (frag_demo 4)) @ frag_frames 10 0 (load_bytes (\<lambda>x. of_nat x) 100 20)"
    using wps_frag_send_frames [of "frag_demo 4" 20 100] demo_ready [of 3 4 45] demo_spared [of 100 20 4]
    by (auto simp: frag_count_def)
  have "conn_frames (fc_io c') = [[2, 0, 20, 0, 100, 101, 102, 103, 104, 105],
      [2, 1, 106, 107, 108, 109, 110, 111, 112, 113], [4, 2, 114, 115, 116, 117, 118, 119]]"
    unfolding c(2) demo_empty
    by (simp add: frag_frames_def frag_eval load_bytes_def upt_rec)
  with c(1) show ?thesis by blast
qed

text \<open>
  The space check reckons one fragment too few: when the payload fills its last middle
  fragment exactly, the loop still sends an empty last fragment, which \<open>check_queue_space\<close> does
  not count. With room for all fragments but that one, the check passes and \<open>wps_frag_send\<close>
  reports a full queue after it has queued the transfer without its last fragment.
\<close>

theorem wps_frag_space_undercount:
  fixes c :: frag_conn and sz :: u32 and p :: nat
  assumes "4 < unat (io_payload_size (fc_io c))" "slot_bytes c < 256" "unat sz < 4000000000"
    and "io_tx_spared (fc_io c) p (unat sz)"
    and "unat (io_payload_size (fc_io c)) \<le> unat sz"
    and "(unat (io_payload_size (fc_io c)) - 2) dvd (unat sz - (unat (io_payload_size (fc_io c)) - 4))"
    and "tx_ready (fc_io c) (frag_count (unat (io_payload_size (fc_io c))) (unat sz) - 1)
          ((frag_count (unat (io_payload_size (fc_io c))) (unat sz) - 1) * slot_bytes c)"
    and "xq_cap (io_heap (fc_io c)) (io_queue (fc_io c)) =
          length (conn_nodes (fc_io c)) + (frag_count (unat (io_payload_size (fc_io c))) (unat sz) - 1)"
  shows "\<exists>c'. wps_frag_send p sz c = Some (WPS_QUEUE_FULL_ERROR, c') \<and>
    conn_frames (fc_io c') = conn_frames (fc_io c) @ butlast
      (frag_frames (unat (io_payload_size (fc_io c))) (next_transaction_id c) (load_bytes (io_mem (fc_io c)) p (unat sz)))"
  by (rule frag_send_undercount [OF assms])

theorem wps_frag_space_undercount_witness:
  "\<exists>c'. wps_frag_send 100 22 (frag_demo 3) = Some (WPS_QUEUE_FULL_ERROR, c') \<and> length (conn_frames (fc_io c')) = 3"
proof -
  have q: "xq_cap (io_heap (fc_io (frag_demo 3))) 9 = 3" "conn_nodes (fc_io (frag_demo 3)) = []"
    using demo_queue [of 3] demo_empty [of 3] by (simp_all add: conn_frames_def)
  obtain c' where c: "wps_frag_send 100 22 (frag_demo 3) = Some (WPS_QUEUE_FULL_ERROR, c')"
    "conn_frames (fc_io c') = conn_frames (fc_io (frag_demo 3)) @
       butlast (frag_frames 10 0 (load_bytes (\<lambda>x. of_nat x) 100 22))"
    using wps_frag_space_undercount [of "frag_demo 3" 22 100] demo_ready [of 3 3 45] demo_spared [of 100 22 3] q
    by (auto simp: frag_count_def)
  have "length (frag_frames 10 0 (load_bytes (\<lambda>x. of_nat x) 100 22)) = 4"
    by (simp add: frag_frames_def frag_eval load_bytes_def upt_rec)
  with c demo_empty show ?thesis by auto
qed

end
