(* ===== verification/Frag_Read.thy ===== *)
theory Frag_Read
  imports Frag_Send
begin

text \<open>
  The reading side of fragmentation: \<open>wps_frag_read\<close> puts the fragments of a payload together again,
  and the receive handler announces a payload once, when its last fragment has come. The lemmas
  are about the fragment headers, one copied fragment, and the loop over the fragments of
  \<open>rest_frames\<close>.
\<close>

section \<open>Fragment headers\<close>

lemma control_type: "transfer_type_of (transaction_control t i) = t AND 7"
  unfolding transfer_type_of_def transaction_control_def
  by (rule bit_word_eqI) (auto simp: bit_simps numeral_eq_Suc less_Suc_eq_0_disj)

lemma mask5: "(31 :: u8) = mask 5"
  by (simp add: mask_eq_exp_minus_1)

lemma control_id: "transaction_id_of (transaction_control t i) = i AND 31"
  unfolding transaction_id_of_def transaction_control_def mask5
  by (rule bit_word_eqI) (auto simp: bit_simps)

lemmas transfer_types = FULL_FRAME_TRANSFER_TYPE_def NON_LAST_FRAGMENT_TRANSFER_TYPE_def
  LAST_FRAGMENT_TRANSFER_TYPE_def

lemma control_types [simp]:
  "transfer_type_of (transaction_control FULL_FRAME_TRANSFER_TYPE i) = FULL_FRAME_TRANSFER_TYPE"
  "transfer_type_of (transaction_control NON_LAST_FRAGMENT_TRANSFER_TYPE i) = NON_LAST_FRAGMENT_TRANSFER_TYPE"
  "transfer_type_of (transaction_control LAST_FRAGMENT_TRANSFER_TYPE i) = LAST_FRAGMENT_TRANSFER_TYPE"
  by (simp_all add: control_type transfer_types)

lemma types_distinct [simp]:
  "NON_LAST_FRAGMENT_TRANSFER_TYPE \<noteq> FULL_FRAME_TRANSFER_TYPE" "LAST_FRAGMENT_TRANSFER_TYPE \<noteq> FULL_FRAME_TRANSFER_TYPE"
  "LAST_FRAGMENT_TRANSFER_TYPE \<noteq> NON_LAST_FRAGMENT_TRANSFER_TYPE"
  by (simp_all add: transfer_types)

lemma total_size_round_trip:
  "m (p + 2) = ucast t \<Longrightarrow> m (p + 3) = ucast (drop_bit 8 t) \<Longrightarrow> total_size_of m p = t"
  unfolding total_size_of_def
  by (rule bit_word_eqI) (auto simp: bit_simps)

lemma load_at: "load_bytes m p n = f \<Longrightarrow> i < n \<Longrightarrow> m (p + i) = f ! i"
  by (metis load_nth)

lemma header_lengths [simp]:
  "length (full_frame t) = 1" "length (first_fragment t s) = 4" "length (middle_fragment t n) = 2"
  "length (last_fragment t n) = 2"
  by (simp_all add: full_frame_def first_fragment_def middle_fragment_def last_fragment_def)

section \<open>One fragment\<close>

text \<open>The current frame of a connection, as \<open>wps_read\<close> shows it.\<close>

lemma read_current:
  assumes "rx_ready qs lo hi s" "conn_frames s = (hdr @ body) # fs"
  obtains p n where "wps_read s = (WPS_NO_ERROR, p, n)" "unat n = length hdr + length body"
    "load_bytes (io_mem s) p (length hdr) = hdr" "load_bytes (io_mem s) (p + length hdr) (length body) = body"
proof -
  obtain p n where r: "wps_read s = (WPS_NO_ERROR, p, n)" "unat n = length (hdr @ body)"
    "load_bytes (io_mem s) p (length (hdr @ body)) = hdr @ body"
    using wps_read_Cons [OF assms] by blast
  moreover have "load_bytes (io_mem s) p (length hdr) @ load_bytes (io_mem s) (p + length hdr) (length body) = hdr @ body"
    using r(3) load_append [of "io_mem s" p "length hdr" "length body"] by simp
  then have "load_bytes (io_mem s) p (length hdr) = hdr" "load_bytes (io_mem s) (p + length hdr) (length body) = body"
    by (simp_all add: append_eq_append_conv)
  ultimately show thesis using that [of p n] by simp
qed

lemma body_size:
  fixes n :: u16
  assumes "unat n = k + b"
  shows "unat (ucast n - of_nat k :: u32) = b"
proof -
  have u: "unat (ucast n :: u32) = k + b" using assms unat_u16_lt [of n] by (simp add: unat_ucast_mod del: unat_u16_lt)
  moreover have "k < 4294967296" using assms unat_u16_lt [of n] by linarith
  ultimately show ?thesis using unat_minus_small [of k "ucast n"] by simp
qed

text \<open>Copying a fragment puts its body at \<open>tail\<close>, writes nothing else and releases the frame.\<close>

lemma frag_copy_ok:
  assumes r: "rx_ready qs lo hi (fc_io c)" and f: "conn_frames (fc_io c) = (hdr @ body) # fs"
    and n: "unat n = length hdr + length body" and b: "load_bytes (io_mem (fc_io c)) (p + length hdr) (length body) = body"
    and d: "lo \<le> tail" "tail + length body \<le> hi"
  obtains s where "frag_copy tail p n (length hdr) c = (WPS_NO_ERROR, c\<lparr>fc_io := s\<rparr>)" "rx_ready qs lo hi s"
    "conn_frames s = fs" "load_bytes (io_mem s) tail (length body) = body"
    "\<And>x. x < tail \<or> tail + length body \<le> x \<Longrightarrow> io_mem s x = io_mem (fc_io c) x"
proof -
  let ?s = "fc_io c" and ?m = "memcpy tail (p + length hdr) (length body) (io_mem (fc_io c))"
  have o: "?m x = io_mem ?s x" if "x < lo \<or> hi \<le> x" for x using that d by (auto simp: memcpy_def)
  note w = rx_write [OF r o]
  obtain s where s: "wps_read_done (?s\<lparr>io_mem := ?m\<rparr>) = (WPS_NO_ERROR, s)" "rx_ready qs lo hi s" "conn_frames s = fs"
    "io_mem s = ?m"
    using wps_read_done_Cons [OF w(1)] w(2) f by auto
  show thesis
  proof (rule that [of s])
    show "frag_copy tail p n (length hdr) c = (WPS_NO_ERROR, c\<lparr>fc_io := s\<rparr>)"
      using s(1) body_size [OF n] by (simp add: frag_copy_def)
    show "load_bytes (io_mem s) tail (length body) = body" using s(4) b by (simp add: load_memcpy_same)
  qed (use s in \<open>auto simp: memcpy_def\<close>)
qed

section \<open>The loop\<close>

lemma rest_frames_Cons: "\<exists>hdr body fs. rest_frames step tid d k = (hdr @ body) # fs \<and> length hdr = 2"
  by (subst rest_frames.simps) auto

lemma read_loop_ok:
  assumes "rx_ready qs payload (payload + unat max_size) (fc_io c)"
    and "conn_frames (fc_io c) = rest_frames step tid d k @ later"
    and "payload \<le> tail" "tail + length d \<le> payload + unat max_size"
  shows "\<exists>s. frag_read_loop payload max_size tot tail c = Some (WPS_NO_ERROR, (Some payload, tot), count_down (c\<lparr>fc_io := s\<rparr>)) \<and>
    conn_frames s = later \<and> rx_ready qs payload (payload + unat max_size) s \<and>
    load_bytes (io_mem s) tail (length d) = d \<and> (\<forall>x<tail. io_mem s x = io_mem (fc_io c) x)"
  using assms
proof (induction step tid d k arbitrary: c tail rule: rest_frames.induct)
  case (1 step tid d k)
  show ?case
  proof (cases "step = 0 \<or> length d < step")
    case True
    then have f: "conn_frames (fc_io c) = (last_fragment tid k @ d) # later"
      using "1.prems"(2) by (subst (asm) rest_frames.simps) simp
    obtain p n where r: "wps_read (fc_io c) = (WPS_NO_ERROR, p, n)" "unat n = length (last_fragment tid k) + length d"
      "load_bytes (io_mem (fc_io c)) p (length (last_fragment tid k)) = last_fragment tid k"
      "load_bytes (io_mem (fc_io c)) (p + length (last_fragment tid k)) (length d) = d"
      by (rule read_current [OF "1.prems"(1) f])
    have t: "transfer_type_of (io_mem (fc_io c) p) = LAST_FRAGMENT_TRANSFER_TYPE"
      using load_at [OF r(3), of 0] by (simp add: last_fragment_def)
    have u: "unat (ucast n - 2 :: u32) = length d" using body_size [of n 2 "length d"] r(2) by simp
    obtain s where s: "frag_copy tail p n (length (last_fragment tid k)) c = (WPS_NO_ERROR, c\<lparr>fc_io := s\<rparr>)"
      "rx_ready qs payload (payload + unat max_size) s" "conn_frames s = later" "load_bytes (io_mem s) tail (length d) = d"
      "\<And>x. x < tail \<or> tail + length d \<le> x \<Longrightarrow> io_mem s x = io_mem (fc_io c) x"
      using frag_copy_ok [OF "1.prems"(1) f r(2,4) "1.prems"(3,4)] by blast
    have "frag_read_loop payload max_size tot tail c =
        Some (WPS_NO_ERROR, (Some payload, tot), count_down (c\<lparr>fc_io := s\<rparr>))"
      using r(1) t u "1.prems"(4) s(1) by (subst frag_read_loop.simps) (simp add: Let_def)
    with s(2-5) show ?thesis by (intro exI [of _ s]) simp
  next
    case False
    let ?b = "take step d"
    have lb: "length ?b = step" using False by simp
    have f: "conn_frames (fc_io c) = (middle_fragment tid k @ ?b) # rest_frames step tid (drop step d) (k + 1) @ later"
      using "1.prems"(2) False by (subst (asm) rest_frames.simps) simp
    obtain p n where r: "wps_read (fc_io c) = (WPS_NO_ERROR, p, n)" "unat n = length (middle_fragment tid k) + length ?b"
      "load_bytes (io_mem (fc_io c)) p (length (middle_fragment tid k)) = middle_fragment tid k"
      "load_bytes (io_mem (fc_io c)) (p + length (middle_fragment tid k)) (length ?b) = ?b"
      by (rule read_current [OF "1.prems"(1) f])
    have t: "transfer_type_of (io_mem (fc_io c) p) = NON_LAST_FRAGMENT_TRANSFER_TYPE"
      using load_at [OF r(3), of 0] by (simp add: middle_fragment_def)
    have u: "unat (ucast n - 2 :: u32) = step" using body_size [of n 2 step] r(2) lb by simp
    have le: "tail + length ?b \<le> payload + unat max_size" using "1.prems"(4) by simp
    obtain s where s: "frag_copy tail p n (length (middle_fragment tid k)) c = (WPS_NO_ERROR, c\<lparr>fc_io := s\<rparr>)"
      "rx_ready qs payload (payload + unat max_size) s" "conn_frames s = rest_frames step tid (drop step d) (k + 1) @ later"
      "load_bytes (io_mem s) tail (length ?b) = ?b"
      "\<And>x. x < tail \<or> tail + length ?b \<le> x \<Longrightarrow> io_mem s x = io_mem (fc_io c) x"
      using frag_copy_ok [OF "1.prems"(1) f r(2,4) "1.prems"(3) le] by blast
    have step: "frag_read_loop payload max_size tot tail c = frag_read_loop payload max_size tot (tail + step) (c\<lparr>fc_io := s\<rparr>)"
      using r(1) t u le s(1) lb by (subst frag_read_loop.simps) (simp add: Let_def)
    obtain s' where s': "frag_read_loop payload max_size tot (tail + step) (c\<lparr>fc_io := s\<rparr>) =
        Some (WPS_NO_ERROR, (Some payload, tot), count_down (c\<lparr>fc_io := s'\<rparr>))"
      "conn_frames s' = later" "rx_ready qs payload (payload + unat max_size) s'"
      "load_bytes (io_mem s') (tail + step) (length (drop step d)) = drop step d"
      "\<forall>x<tail + step. io_mem s' x = io_mem s x"
      using "1.IH" [OF False, of "c\<lparr>fc_io := s\<rparr>" "tail + step"] s(2,3) "1.prems"(3,4) False by auto
    have "load_bytes (io_mem s') tail step = take step d"
      using s(4) s'(5) lb load_cong [of tail step "io_mem s'" "io_mem s"] by simp
    then have "load_bytes (io_mem s') tail (length d) = d"
      using s'(4) load_append [of "io_mem s'" tail step "length (drop step d)"] False by simp
    with step s' s(5) show ?thesis by auto
  qed
qed

section \<open>An example of a receiving connection\<close>

text \<open>
  The frames \<open>fs\<close>, at most 300 bytes each, are queued on the nodes 1, 2, and so on, with their bytes
  from address 8000 on; the nodes belong to the pool with the free queue 7.
\<close>

definition rx_demo_mem :: "byte list list \<Rightarrow> nat \<Rightarrow> byte" where
  "rx_demo_mem fs x = (if x < 8000 then 0 else fs ! ((x - 8000) div 300) ! ((x - 8000) mod 300))"

definition rx_demo_node :: "byte list list \<Rightarrow> nat \<Rightarrow> xlayer_queue_node" where
  "rx_demo_node fs a = upd_frame (\<lambda>f. f\<lparr>payload_begin_it := 8000 + 300 * (a - 1),
       payload_end_it := 8000 + 300 * (a - 1) + length (fs ! (a - 1))\<rparr>)
     (zero_node\<lparr>home_xlayer_queue := 7, xn_next := Some (a + 1), copy_count := 1\<rparr>)"

definition rx_demo :: "byte list list \<Rightarrow> frag_conn" where
  "rx_demo fs = (frag_demo 4)\<lparr>fc_io := (fc_io (frag_demo 4))\<lparr>io_mem := rx_demo_mem fs,
     io_heap := \<lparr>xnodes = rx_demo_node fs,
       xqueues = (\<lambda>_. zero_queue\<lparr>xq_max_size := 4\<rparr>)(9 := zero_queue\<lparr>xq_head := Some 1, xq_tail := Some (length fs),
         xq_size := of_nat (length fs), xq_max_size := of_nat (length fs)\<rparr>),
       last_xlayer_queue = None, stats_q_ptr = None\<rparr>\<rparr>\<rparr>"

lemma rx_demo_fields [simp]:
  "io_queue (fc_io (rx_demo fs)) = 9" "io_mem (fc_io (rx_demo fs)) = rx_demo_mem fs"
  "xnodes (io_heap (fc_io (rx_demo fs))) = rx_demo_node fs" "enqueued_count (rx_demo fs) = 0"
  by (simp_all add: rx_demo_def frag_demo_def)

lemma rx_demo_ready:
  assumes "fs \<noteq> []" "length fs < 65536" "\<forall>f\<in>set fs. length f \<le> 300" "hi \<le> 8000"
  shows "rx_ready {7, 9} lo hi (fc_io (rx_demo fs))" "conn_frames (fc_io (rx_demo fs)) = fs"
proof -
  let ?h = "io_heap (fc_io (rx_demo fs))" and ?s = "fc_io (rx_demo fs)"
  have n: "unat (of_nat (length fs) :: u16) = length fs" by (rule unat_of_nat_lt) (use assms(2) in simp)
  have "xq_walk ?h (length fs) (Some 1) = map (\<lambda>i. 1 + i * 1) [0..<length fs]"
    by (rule walk_chain) (simp add: rx_demo_node_def upd_frame_def)
  then have it: "xq_items ?h 9 = map Suc [0..<length fs]" "xq_items ?h 7 = []"
    using n by (simp_all add: xq_items_def rx_demo_def zero_queue_def)
  have "last (map Suc [0..<length fs]) = length fs" using assms(1) by (simp add: last_map)
  then have wf: "xq_wf ?h 9" "xq_wf ?h 7"
    using it n by (simp_all add: xq_wf_def rx_demo_def zero_queue_def distinct_map)
  have fr: "payload_begin_it (io_frame ?s (Suc i)) = 8000 + 300 * i"
    "payload_end_it (io_frame ?s (Suc i)) = 8000 + 300 * i + length (fs ! i)"
    "home_xlayer_queue (xnodes ?h a) = 7" for i a
    by (simp_all add: io_frame_def rx_demo_node_def upd_frame_def)
  have len: "length (fs ! i) \<le> 300" if "i < length fs" for i using assms(3) that by simp
  have "\<not> free_xlayer_queue_type (xqueues ?h 9)" by (simp add: rx_demo_def zero_queue_def)
  moreover have "length (fs ! i) < 65536" if "i < length fs" for i using len [OF that] by linarith
  then have "home_xlayer_queue (xnodes ?h a) = 7 \<and> payload_begin_it (io_frame ?s a) \<le> payload_end_it (io_frame ?s a) \<and>
      payload_end_it (io_frame ?s a) - payload_begin_it (io_frame ?s a) < 65536 \<and> hi \<le> payload_begin_it (io_frame ?s a)"
    if "a \<in> set (conn_nodes ?s)" for a
    using that fr assms(4) it(1) by (cases a) (auto simp: conn_nodes_def)
  ultimately show "rx_ready {7, 9} lo hi ?s"
    using it wf by (simp add: rx_ready_def xheap_wf_def)
  have "frame_payload ?s (Suc i) = fs ! i" if i: "i < length fs" for i
  proof (rule nth_equalityI)
    fix j assume "j < length (frame_payload ?s (Suc i))"
    then have j: "j < length (fs ! i)" by (simp add: frame_payload_def fr)
    then have b: "j < 300" using len [OF i] by simp
    then have "(300 * i + j) div 300 = i" "(300 * i + j) mod 300 = j" by simp_all
    then show "frame_payload ?s (Suc i) ! j = fs ! i ! j"
      using j by (simp add: frame_payload_def fr load_nth rx_demo_mem_def add.assoc)
  qed (simp add: frame_payload_def fr)
  then show "conn_frames ?s = fs"
    by (intro nth_equalityI) (simp_all add: conn_frames_def conn_nodes_def it)
qed

section \<open>Reading a payload\<close>

lemma frag_read_full:
  assumes r: "rx_ready qs payload (payload + unat max_size) (fc_io c)"
    and f: "conn_frames (fc_io c) = (full_frame tid @ d) # later" and d: "length d \<le> unat max_size"
  shows "\<exists>s. wps_frag_read payload max_size c =
      Some (WPS_NO_ERROR, (Some payload, of_nat (length d)), count_down (c\<lparr>fc_io := s\<rparr>)) \<and>
    conn_frames s = later \<and> rx_ready qs payload (payload + unat max_size) s \<and> load_bytes (io_mem s) payload (length d) = d"
proof -
  obtain p n where w: "wps_read (fc_io c) = (WPS_NO_ERROR, p, n)" "unat n = length (full_frame tid) + length d"
    "load_bytes (io_mem (fc_io c)) p (length (full_frame tid)) = full_frame tid"
    "load_bytes (io_mem (fc_io c)) (p + length (full_frame tid)) (length d) = d"
    by (rule read_current [OF r f])
  have t: "transfer_type_of (io_mem (fc_io c) p) = FULL_FRAME_TRANSFER_TYPE"
    using load_at [OF w(3), of 0] by (simp add: full_frame_def)
  have u: "unat (ucast n - 1 :: u32) = length d" using body_size [of n 1 "length d"] w(2) by simp
  have m: "n - 1 = of_nat (length d)"
  proof -
    have "of_nat (unat n) = (1 + of_nat (length d) :: u16)" unfolding w(2) by simp
    then show ?thesis by simp
  qed
  obtain s where s: "frag_copy payload p n (length (full_frame tid)) c = (WPS_NO_ERROR, c\<lparr>fc_io := s\<rparr>)"
    "rx_ready qs payload (payload + unat max_size) s" "conn_frames s = later" "load_bytes (io_mem s) payload (length d) = d"
    using frag_copy_ok [OF r f w(2,4) order_refl] d by auto
  have "wps_frag_read payload max_size c =
      Some (WPS_NO_ERROR, (Some payload, of_nat (length d)), count_down (c\<lparr>fc_io := s\<rparr>))"
    using w(1) t u s(1) d m by (simp add: wps_frag_read_def Let_def word_less_nat_alt)
  with s(2-4) show ?thesis by blast
qed

lemma frag_read_first:
  assumes r: "rx_ready qs payload (payload + unat max_size) (fc_io c)" and ps: "4 < ps" "ps \<le> length d"
    and f: "conn_frames (fc_io c) =
      (first_fragment tid (of_nat (length d)) @ take (ps - 4) d) # rest_frames (ps - 2) tid (drop (ps - 4) d) 1 @ later"
    and d: "length d \<le> unat max_size" "length d < 65536"
  shows "\<exists>s. wps_frag_read payload max_size c =
      Some (WPS_NO_ERROR, (Some payload, of_nat (length d)), count_down (c\<lparr>fc_io := s\<rparr>)) \<and>
    conn_frames s = later \<and> rx_ready qs payload (payload + unat max_size) s \<and> load_bytes (io_mem s) payload (length d) = d"
proof -
  let ?hdr = "first_fragment tid (of_nat (length d))" and ?b = "take (ps - 4) d" and ?m = "io_mem (fc_io c)"
  have lb: "length ?b = ps - 4" using ps by simp
  obtain p n where w: "wps_read (fc_io c) = (WPS_NO_ERROR, p, n)" "unat n = length ?hdr + length ?b"
    "load_bytes ?m p (length ?hdr) = ?hdr" "load_bytes ?m (p + length ?hdr) (length ?b) = ?b"
    by (rule read_current [OF r f])
  have t: "transfer_type_of (?m p) = NON_LAST_FRAGMENT_TRANSFER_TYPE" "?m (p + 1) = 0"
    and tot: "total_size_of ?m p = of_nat (length d)"
    using load_at [OF w(3), of 0] load_at [OF w(3), of 1] load_at [OF w(3), of 2] load_at [OF w(3), of 3]
    by (simp_all add: first_fragment_def total_size_round_trip)
  have u: "unat (ucast n - 4 :: u32) = ps - 4" using body_size [of n 4 "ps - 4"] w(2) lb by simp
  have l: "unat (of_nat (length d) :: u16) = length d" by (rule unat_of_nat_lt) (use d in simp)
  have fit: "\<not> unat max_size < unat (ucast (of_nat (length d) :: u16) :: u32)"
    using l d by (simp add: unat_ucast_mod)
  have tl: "payload + length ?b \<le> payload + unat max_size" using d(1) by simp
  obtain s where s: "frag_copy payload p n (length ?hdr) c = (WPS_NO_ERROR, c\<lparr>fc_io := s\<rparr>)"
    "rx_ready qs payload (payload + unat max_size) s" "conn_frames s = rest_frames (ps - 2) tid (drop (ps - 4) d) 1 @ later"
    "load_bytes (io_mem s) payload (length ?b) = ?b"
    using frag_copy_ok [OF r f w(2,4) order_refl tl] by blast
  have L: "rx_ready qs payload (payload + unat max_size) (fc_io (c\<lparr>fc_io := s\<rparr>))"
    "conn_frames (fc_io (c\<lparr>fc_io := s\<rparr>)) = rest_frames (ps - 2) tid (drop (ps - 4) d) 1 @ later"
    "payload \<le> payload + (ps - 4)" "payload + (ps - 4) + length (drop (ps - 4) d) \<le> payload + unat max_size"
    using s(2,3) ps d(1) by simp_all
  obtain s' where s': "frag_read_loop payload max_size (of_nat (length d)) (payload + (ps - 4)) (c\<lparr>fc_io := s\<rparr>) =
      Some (WPS_NO_ERROR, (Some payload, of_nat (length d)), count_down (c\<lparr>fc_io := s'\<rparr>))"
    "conn_frames s' = later" "rx_ready qs payload (payload + unat max_size) s'"
    "load_bytes (io_mem s') (payload + (ps - 4)) (length (drop (ps - 4) d)) = drop (ps - 4) d"
    "\<forall>x<payload + (ps - 4). io_mem s' x = io_mem s x"
    using read_loop_ok [OF L] by auto
  have "load_bytes (io_mem s') payload (ps - 4) = take (ps - 4) d"
    using s(4) s'(5) lb load_cong [of payload "ps - 4" "io_mem s'" "io_mem s"] by simp
  then have "load_bytes (io_mem s') payload (length d) = d"
    using s'(4) load_append [of "io_mem s'" payload "ps - 4" "length (drop (ps - 4) d)"] ps by simp
  moreover have "wps_frag_read payload max_size c =
      Some (WPS_NO_ERROR, (Some payload, of_nat (length d)), count_down (c\<lparr>fc_io := s'\<rparr>))"
    using w(1) t tot u fit s(1) s'(1) by (simp add: wps_frag_read_def Let_def word_less_nat_alt)
  ultimately show ?thesis using s'(2,3) by blast
qed

lemma frag_read_frames:
  assumes "rx_ready qs payload (payload + unat max_size) (fc_io c)" "4 < ps"
    and "conn_frames (fc_io c) = frag_frames ps tid d @ later"
    and "length d \<le> unat max_size" "length d < 65536"
  shows "\<exists>s. wps_frag_read payload max_size c =
      Some (WPS_NO_ERROR, (Some payload, of_nat (length d)), count_down (c\<lparr>fc_io := s\<rparr>)) \<and>
    conn_frames s = later \<and> rx_ready qs payload (payload + unat max_size) s \<and> load_bytes (io_mem s) payload (length d) = d"
proof (cases "length d + 1 \<le> ps")
  case True
  then show ?thesis using frag_read_full [OF assms(1) _ assms(4)] assms(3) by (simp add: frag_frames_def)
next
  case False
  then show ?thesis using frag_read_first [OF assms(1,2) _ _ assms(4,5)] assms(3) by (simp add: frag_frames_def)
qed

text \<open>
  Reassembly: a connection whose received frames begin with the fragments of a payload returns
  that payload. \<open>wps_frag_read\<close> ends without error, stores exactly the payload at the destination,
  reports its size, removes its fragments and no other frame, and counts one payload less.
\<close>

theorem wps_frag_read_reassembles:
  assumes "rx_ready qs payload (payload + unat max_size) (fc_io c)" "4 < ps"
    and "conn_frames (fc_io c) = frag_frames ps tid d @ later"
    and "length d \<le> unat max_size" "length d < 65536"
  shows "\<exists>c'. wps_frag_read payload max_size c = Some (WPS_NO_ERROR, (Some payload, of_nat (length d)), c') \<and>
    load_bytes (io_mem (fc_io c')) payload (length d) = d \<and> conn_frames (fc_io c') = later \<and>
    enqueued_count c' = enqueued_count c - 1"
proof -
  obtain s where "wps_frag_read payload max_size c =
      Some (WPS_NO_ERROR, (Some payload, of_nat (length d)), count_down (c\<lparr>fc_io := s\<rparr>))"
    "conn_frames s = later" "load_bytes (io_mem s) payload (length d) = d"
    using frag_read_frames [OF assms] by blast
  then show ?thesis by (simp add: count_down_def)
qed

theorem wps_frag_read_reassembles_witness:
  "\<exists>c'. wps_frag_read 100 40 (rx_demo [[2, 0, 9, 0, 11, 12], [2, 1, 13, 14, 15, 16], [4, 2, 17, 18, 19], [0, 5]]) =
      Some (WPS_NO_ERROR, (Some 100, 9), c') \<and> load_bytes (io_mem (fc_io c')) 100 9 = [11, 12, 13, 14, 15, 16, 17, 18, 19] \<and>
    conn_frames (fc_io c') = [[0, 5]]"
proof -
  let ?fs = "[[2, 0, 9, 0, 11, 12], [2, 1, 13, 14, 15, 16], [4, 2, 17, 18, 19], [0, 5]]"
  define d :: "byte list" where "d = [11, 12, 13, 14, 15, 16, 17, 18, 19]"
  have l: "length d = 9" by (simp add: d_def)
  have f: "frag_frames 6 0 d @ [[0, 5]] = ?fs" by (simp add: frag_frames_def frag_eval d_def)
  have r: "rx_ready {7, 9} 100 (100 + unat (40 :: u32)) (fc_io (rx_demo ?fs))"
    "conn_frames (fc_io (rx_demo ?fs)) = frag_frames 6 0 d @ [[0, 5]]"
    unfolding f using rx_demo_ready [of ?fs 140] by simp_all
  from wps_frag_read_reassembles [OF r(1) _ r(2)] show ?thesis unfolding l d_def [symmetric] by auto
qed

text \<open>
  C3. Fragmentation round trip: what one device queues with \<open>wps_frag_send\<close>, received by the other
  as it was queued, is what \<open>wps_frag_read\<close> stores there, for every payload of less than 65536
  bytes, every frame size above four bytes and every transaction number.
\<close>

theorem wps_frag_round_trip:
  fixes c c' r :: frag_conn and sz :: u32
  assumes "4 < unat (io_payload_size (fc_io c))" "slot_bytes c < 256" "io_tx_spared (fc_io c) p (unat sz)"
    and "tx_ready (fc_io c) (frag_count (unat (io_payload_size (fc_io c))) (unat sz))
          (frag_count (unat (io_payload_size (fc_io c))) (unat sz) * slot_bytes c)"
    and "wps_frag_send p sz c = Some (WPS_NO_ERROR, c')" "unat sz < 65536"
    and "rx_ready qs dst (dst + unat max_size) (fc_io r)" "unat sz \<le> unat max_size"
    and "conn_frames (fc_io r) = drop (length (conn_frames (fc_io c))) (conn_frames (fc_io c')) @ later"
  shows "\<exists>r'. wps_frag_read dst max_size r = Some (WPS_NO_ERROR, (Some dst, ucast sz), r') \<and>
    load_bytes (io_mem (fc_io r')) dst (unat sz) = load_bytes (io_mem (fc_io c)) p (unat sz) \<and>
    conn_frames (fc_io r') = later"
proof -
  have sz: "unat sz < 4000000000" using assms(6) by simp
  have "conn_frames (fc_io r) = frag_frames (unat (io_payload_size (fc_io c))) (next_transaction_id c)
      (load_bytes (io_mem (fc_io c)) p (unat sz)) @ later"
    using frag_send_ready [OF assms(1,2) sz assms(3,4)] assms(5,9) by simp
  from frag_read_frames [OF assms(7,1) this] assms(6,8) show ?thesis by (auto simp: count_down_def)
qed

theorem wps_frag_round_trip_witness:
  "\<exists>r'. wps_frag_read 200 40 (rx_demo (frag_frames 10 0 (load_bytes (\<lambda>x. of_nat x) 100 20))) =
      Some (WPS_NO_ERROR, (Some 200, 20), r') \<and>
    load_bytes (io_mem (fc_io r')) 200 20 = load_bytes (\<lambda>x. of_nat x) 100 20 \<and> conn_frames (fc_io r') = []"
proof -
  let ?d = "load_bytes (\<lambda>x. of_nat x) 100 20 :: byte list"
  have fs: "frag_frames 10 0 ?d = [[2, 0, 20, 0, 100, 101, 102, 103, 104, 105],
      [2, 1, 106, 107, 108, 109, 110, 111, 112, 113], [4, 2, 114, 115, 116, 117, 118, 119]]"
    by (simp add: frag_frames_def frag_eval load_bytes_def upt_rec)
  obtain c' where c: "wps_frag_send 100 20 (frag_demo 4) = Some (WPS_NO_ERROR, c')"
    "conn_frames (fc_io c') = frag_frames 10 0 ?d"
    using frag_send_ready [of "frag_demo 4" 20 100] demo_ready [of 3 4 45] demo_spared [of 100 20 4] demo_empty [of 4]
    by (auto simp: frag_count_def)
  have "rx_ready {7, 9} 200 (200 + unat (40 :: u32)) (fc_io (rx_demo (frag_frames 10 0 ?d)))"
    "conn_frames (fc_io (rx_demo (frag_frames 10 0 ?d))) = frag_frames 10 0 ?d"
    using rx_demo_ready [of "frag_frames 10 0 ?d" 240] unfolding fs by simp_all
  with wps_frag_round_trip [of "frag_demo 4" 100 20 c' "{7, 9}" 200 40 "rx_demo (frag_frames 10 0 ?d)" "[]"]
    c demo_empty [of 4] demo_ready [of 3 4 45] demo_spared [of 100 20 4]
  show ?thesis by (auto simp: frag_count_def)
qed

end
