(* ===== verification/Frag_Events.thy ===== *)
theory Frag_Events
  imports Frag_Read
begin

text \<open>
  The events of fragmentation. The MAC queues received frames on the fragment queue and runs
  \<open>wps_frag_read_process\<close> for each of them, which moves the frame to the connection queue and
  announces a payload when it is complete; the transmit handler counts the fragments of a payload
  down. \<open>frx_ready\<close> is the state of a receiving connection with room for \<open>n\<close> more frames, and
  \<open>pending\<close> the received frames not processed yet; \<open>keeps_reception\<close> is what a callback of the
  application must respect, \<open>announced\<close> the sequence of announcements of a sequence of payloads.
  Payloads of up to 256 fragments are announced once, longer ones (shown up to 512) only fail.
\<close>

section \<open>Receiving state\<close>

definition pending :: "frag_conn \<Rightarrow> byte list list" where
  "pending c = map (frame_payload (fc_io c)) (xq_items (io_heap (fc_io c)) (fr_queue c))"

definition frx_ready :: "nat set \<Rightarrow> frag_conn \<Rightarrow> nat \<Rightarrow> bool" where
  "frx_ready qs c n \<longleftrightarrow> rx_ready qs 0 0 (fc_io c) \<and> fr_queue c \<in> qs \<and> fr_queue c \<noteq> io_queue (fc_io c) \<and>
     length (conn_nodes (fc_io c)) + n \<le> xq_cap (io_heap (fc_io c)) (io_queue (fc_io c)) \<and>
     (\<forall>a\<in>set (conn_nodes (fc_io c)). home_xlayer_queue (xnodes (io_heap (fc_io c)) a) \<noteq> fr_queue c) \<and>
     (\<forall>a\<in>set (xq_items (io_heap (fc_io c)) (fr_queue c)).
        home_xlayer_queue (xnodes (io_heap (fc_io c)) a) \<in> qs - {io_queue (fc_io c), fr_queue c} \<and>
        payload_begin_it (io_frame (fc_io c) a) \<le> payload_end_it (io_frame (fc_io c) a) \<and>
        payload_end_it (io_frame (fc_io c) a) - payload_begin_it (io_frame (fc_io c) a) < 65536)"

lemma frx_ready_mono: "frx_ready qs c n \<Longrightarrow> m \<le> n \<Longrightarrow> frx_ready qs c m"
  by (simp add: frx_ready_def)

lemma frx_ready_other [simp]:
  "frx_ready qs (c\<lparr>fr_transaction_id := t\<rparr>) n = frx_ready qs c n" "frx_ready qs (c\<lparr>fragment_index := i\<rparr>) n = frx_ready qs c n"
  "frx_ready qs (c\<lparr>dropped_frame := d\<rparr>) n = frx_ready qs c n" "frx_ready qs (c\<lparr>enqueued_count := e\<rparr>) n = frx_ready qs c n"
  "pending (c\<lparr>fr_transaction_id := t\<rparr>) = pending c" "pending (c\<lparr>fragment_index := i\<rparr>) = pending c"
  "pending (c\<lparr>dropped_frame := d\<rparr>) = pending c" "pending (c\<lparr>enqueued_count := e\<rparr>) = pending c"
  by (simp_all add: frx_ready_def pending_def)

text \<open>The next frame moves to the end of the connection queue.\<close>

lemma frag_read_moves:
  assumes r: "frx_ready qs c (Suc n)" and p: "pending c = f # fs"
  obtains s addr where "frag_read c = (WPS_NO_ERROR, addr, c\<lparr>fc_io := s\<rparr>)" "frx_ready qs (c\<lparr>fc_io := s\<rparr>) n"
    "pending (c\<lparr>fc_io := s\<rparr>) = fs" "conn_frames s = conn_frames (fc_io c) @ [f]"
    "load_bytes (io_mem s) addr (length f) = f"
proof -
  let ?s = "fc_io c" and ?h = "io_heap (fc_io c)" and ?Q = "io_queue (fc_io c)" and ?R = "fr_queue c"
  have w: "xheap_wf qs ?h" "?Q \<in> qs" "?R \<in> qs" "?R \<noteq> ?Q" and room: "length (conn_nodes ?s) < xq_cap ?h ?Q"
    using r by (simp_all add: frx_ready_def rx_ready_def)
  obtain a ns where it: "xq_items ?h ?R = a # ns" and f: "f = frame_payload ?s a" and fs: "fs = map (frame_payload ?s) ns"
    using p by (auto simp: pending_def)
  obtain x h1 where d: "xlayer_queue_dequeue_node ?R ?h = (x, h1)" by (metis prod.exhaust)
  note dq = xheap_dequeue [OF w(1,3) it d]
  have qi: "xq_items h1 ?Q = conn_nodes ?s" using dq(5) w(4) by (simp add: conn_nodes_def)
  have rm: "length (xq_items h1 ?Q) < xq_cap h1 ?Q" using room qi dq(6) by simp
  obtain ok h2 where e: "xlayer_queue_enqueue_node ?Q (Some a) h1 = (ok, h2)" by (metis prod.exhaust)
  note eq = xheap_enqueue [OF dq(1) w(2) dq(7) rm e]
  have q1: "xq_wf h1 ?Q" using dq(1) w(2) by (simp add: xheap_wf_def)
  note eff = enqueue_effect [OF q1 rm e]
  let ?s' = "?s\<lparr>io_heap := h2\<rparr>"
  have nodes: "conn_nodes ?s' = conn_nodes ?s @ [a]" "xq_items h2 ?R = ns"
    using eq(2) [of ?Q] eq(2) [of ?R] w qi dq(3) by (simp_all add: conn_nodes_def)
  have fr: "io_frame ?s' b = io_frame ?s b" for b
    using enqueue_xlayer [of ?Q "Some a" h1 b] e dq(4) by (simp add: io_frame_def)
  have hm: "home_xlayer_queue (xnodes h2 b) = home_xlayer_queue (xnodes ?h b)" for b using eff(9) dq(4) by simp
  have ft: "free_xlayer_queue_type (xqueues h2 ?Q) = free_xlayer_queue_type (xqueues ?h ?Q)"
    using eff(5) dequeue_Cons(5) [OF _ it d, of ?Q] w by (simp add: xheap_wf_def)
  have rdy: "frx_ready qs (c\<lparr>fc_io := ?s'\<rparr>) n"
    using r it nodes fr hm ft eq(1) eq(3) dq(6) unfolding frx_ready_def rx_ready_def
    by (simp add: conn_nodes_def [symmetric])
  show thesis
  proof (rule that [of "payload_begin_it (io_frame ?s a)" ?s'])
    show "frag_read c = (WPS_NO_ERROR, payload_begin_it (io_frame ?s a), c\<lparr>fc_io := ?s'\<rparr>)"
      using d dq(2,4) e by (simp add: frag_read_def upd_io_def io_frame_def)
    show "frx_ready qs (c\<lparr>fc_io := ?s'\<rparr>) n" by (rule rdy)
    show "pending (c\<lparr>fc_io := ?s'\<rparr>) = fs" using nodes(2) fs fr by (simp add: pending_def frame_payload_def)
    show "conn_frames ?s' = conn_frames ?s @ [f]" using nodes(1) f fr by (simp add: conn_frames_def frame_payload_def)
    show "load_bytes (io_mem ?s') (payload_begin_it (io_frame ?s a)) (length f) = f" by (simp add: f frame_payload_def)
  qed
qed

text \<open>Releasing the first frame of the connection queue leaves the received frames alone.\<close>

lemma read_done_frx:
  assumes r: "frx_ready qs c n" and f: "conn_frames (fc_io c) = f # fs"
  obtains s where "wps_read_done (fc_io c) = (WPS_NO_ERROR, s)" "frx_ready qs (c\<lparr>fc_io := s\<rparr>) (Suc n)"
    "pending (c\<lparr>fc_io := s\<rparr>) = pending c" "conn_frames s = fs"
proof -
  let ?s = "fc_io c" and ?h = "io_heap (fc_io c)" and ?Q = "io_queue (fc_io c)" and ?R = "fr_queue c"
  have rx: "rx_ready qs 0 0 ?s" and w: "xheap_wf qs ?h" "?Q \<in> qs" "?R \<in> qs" "?R \<noteq> ?Q"
    using r by (simp_all add: frx_ready_def rx_ready_def)
  obtain a ns where it: "xq_items ?h ?Q = a # ns" using f by (auto simp: conn_frames_def conn_nodes_def)
  obtain x h1 where d: "xlayer_queue_dequeue_node ?Q ?h = (x, h1)" by (metis prod.exhaust)
  note dq = xheap_dequeue [OF w(1,2) it d]
  let ?h1 = "upd_node a (upd_frame (\<lambda>f. f\<lparr>payload_memory := 0, max_frame_size := 0\<rparr>)) h1"
  have home: "home_xlayer_queue (xnodes ?h1 b) = home_xlayer_queue (xnodes ?h b)" for b
    using dq(4) by (simp add: upd_frame_def)
  have ha: "home_xlayer_queue (xnodes ?h1 a) \<in> qs - {?R}" "home_xlayer_queue (xnodes ?h1 a) \<noteq> ?Q"
    using r it home [of a] by (auto simp: frx_ready_def rx_ready_def conn_nodes_def)
  let ?g = "xlayer_queue_free_node (Some a) ?h1"
  have fresh: "\<forall>r\<in>qs. a \<notin> set (xq_items ?h1 r)" "xheap_wf qs ?h1" using dq(1,7) by simp_all
  note fn = free_node_keeps [OF fresh(2,1) ha(1) w(3)]
  have g: "xq_items ?g ?R = xq_items ?h ?R" using fn(2) dq(5) w(4) by simp
  have cap: "xq_cap ?g ?Q = xq_cap ?h ?Q"
  proof -
    have "xqueues ?g ?Q = xqueues h1 ?Q" using ha(2)
      by (auto simp: xlayer_queue_free_node_def xlayer_queue_enqueue_node_def Let_def split: option.splits)
    then show ?thesis using dq(6) by (simp add: xq_cap_def)
  qed
  obtain s where s: "wps_read_done ?s = (WPS_NO_ERROR, s)" "rx_ready qs 0 0 s" "conn_frames s = fs" "io_mem s = io_mem ?s"
    using wps_read_done_Cons [OF rx f] by blast
  have sh: "io_heap s = ?g" "io_queue s = ?Q"
    using s(1) d dq(2) by (auto simp: wps_read_done_def wps_mac_xlayer_free_node_with_data_def upd_io_frame_def Let_def)
  have len: "length (conn_nodes ?s) = Suc (length fs)" "length (conn_nodes s) = length fs"
    using arg_cong [OF f, of length] arg_cong [OF s(3), of length] by (simp_all add: conn_frames_def)
  have ne: "a \<notin> set (xq_items ?h ?R)" using dq(5,7) w(3,4) by auto
  have hm: "home_xlayer_queue (xnodes ?g b) = home_xlayer_queue (xnodes ?h b)" for b
    using fn(4) home by simp
  have fr: "io_frame s b = io_frame ?s b" if "b \<noteq> a" for b
    using that dq(4) sh(1) by (simp add: io_frame_def free_node_xlayer)
  have "conn_nodes s \<noteq> [] \<longrightarrow> set (conn_nodes s) \<subseteq> set (conn_nodes ?s)"
  proof -
    have "xq_items ?g ?Q = ns"
    proof -
      have "home_xlayer_queue (xnodes ?h1 a) \<in> qs - {?Q}" using ha by simp
      from free_node_keeps(2) [OF fresh(2,1) this w(2)] dq(3) show ?thesis by simp
    qed
    then show ?thesis using sh it by (auto simp: conn_nodes_def)
  qed
  then have cn: "\<forall>b\<in>set (conn_nodes s). home_xlayer_queue (xnodes (io_heap s) b) \<noteq> ?R"
    using r hm sh by (auto simp: frx_ready_def)
  have pn: "io_frame s b = io_frame ?s b" if "b \<in> set (xq_items ?h ?R)" for b using fr ne that by metis
  show thesis
  proof (rule that [OF s(1) _ _ s(3)])
    show "frx_ready qs (c\<lparr>fc_io := s\<rparr>) (Suc n)"
      using s(2) w cap len r cn sh g hm pn by (simp add: frx_ready_def)
    show "pending (c\<lparr>fc_io := s\<rparr>) = pending c"
      using sh g pn s(4) by (simp add: pending_def frame_payload_def)
  qed
qed

section \<open>Processing the fragments of a payload\<close>

fun frag_process_n :: "(nat \<Rightarrow> nat \<Rightarrow> nat \<Rightarrow> frag_conn \<Rightarrow> frag_conn) \<Rightarrow> nat \<Rightarrow> frag_conn \<Rightarrow> frag_conn option" where
  "frag_process_n run 0 c = Some c"
| "frag_process_n run (Suc n) c =
     (case wps_frag_read_process run c of None \<Rightarrow> None | Some c1 \<Rightarrow> frag_process_n run n c1)"

text \<open>While nothing is dropped a frame is moved and its header processed.\<close>

lemma process_frame:
  assumes "frx_ready qs c (Suc n)" "pending c = (b # rest) # fs" "\<not> dropped_frame c"
  obtains s k where "wps_frag_read_process run c = frag_process run b k (c\<lparr>fc_io := s\<rparr>)"
    "rest \<noteq> [] \<longrightarrow> k = hd rest" "frx_ready qs (c\<lparr>fc_io := s\<rparr>) n" "pending (c\<lparr>fc_io := s\<rparr>) = fs"
    "conn_frames s = conn_frames (fc_io c) @ [b # rest]"
proof -
  obtain s addr where r: "frag_read c = (WPS_NO_ERROR, addr, c\<lparr>fc_io := s\<rparr>)" "frx_ready qs (c\<lparr>fc_io := s\<rparr>) n"
    "pending (c\<lparr>fc_io := s\<rparr>) = fs" "conn_frames s = conn_frames (fc_io c) @ [b # rest]"
    "load_bytes (io_mem s) addr (length (b # rest)) = b # rest"
    by (rule frag_read_moves [OF assms(1,2)])
  have "io_mem s addr = b" "rest \<noteq> [] \<longrightarrow> io_mem s (addr + 1) = hd rest"
    using load_at [OF r(5), of 0] load_at [OF r(5), of 1] by (simp_all add: hd_conv_nth)
  then show thesis using that [of "io_mem s (addr + 1)" s] r assms(3)
    by (simp add: wps_frag_read_process_def Let_def)
qed

lemma u8_eq_u16: "unat k = unat n \<longleftrightarrow> of_nat (unat k) = n" for k :: u8 and n :: u16
proof -
  have "unat (of_nat (unat k) :: u16) = unat k"
    by (rule unat_of_nat_lt) (use unat_u8_lt [of k] in \<open>simp del: unat_u8_lt\<close>)
  then show ?thesis by (metis word_unat_eq_iff)
qed

text \<open>The header tests on the fragments of the current transaction.\<close>

lemma process_first:
  "fragment_index c = 0 \<Longrightarrow> frag_process run (transaction_control NON_LAST_FRAGMENT_TRANSFER_TYPE tid) 0 c =
     Some (c\<lparr>fr_transaction_id := tid AND 31, fragment_index := 1\<rparr>)"
  by (simp add: frag_process_def control_id Let_def)

lemma process_middle:
  "fr_transaction_id c = tid AND 31 \<Longrightarrow> k \<noteq> 0 \<Longrightarrow> unat k = unat (fragment_index c) \<Longrightarrow>
   frag_process run (transaction_control NON_LAST_FRAGMENT_TRANSFER_TYPE tid) k c =
     Some (c\<lparr>fragment_index := fragment_index c + 1\<rparr>)"
  by (simp add: frag_process_def control_id Let_def)

lemma process_last:
  "fr_transaction_id c = tid AND 31 \<Longrightarrow> unat k = unat (fragment_index c) \<Longrightarrow>
   frag_process run (transaction_control LAST_FRAGMENT_TRANSFER_TYPE tid) k c =
     Some (frag_announce run (c\<lparr>fragment_index := 0\<rparr>))"
  by (simp add: frag_process_def control_id Let_def)

lemma process_full:
  "fragment_index c = 0 \<Longrightarrow> frag_process run (transaction_control FULL_FRAME_TRANSFER_TYPE tid) k c =
     Some (frag_announce run c)"
  by (simp add: frag_process_def)

text \<open>The fragments before the last one.\<close>

lemma length_rest_pos: "0 < length (rest_frames step tid d k)"
  by (subst rest_frames.simps) simp

lemma rest_frames_more:
  assumes "1 < length (rest_frames step tid d k)"
  shows "step \<noteq> 0" "step \<le> length d"
    "rest_frames step tid d k = (middle_fragment tid k @ take step d) # rest_frames step tid (drop step d) (k + 1)"
proof -
  have n: "\<not> (step = 0 \<or> length d < step)" using assms by (subst (asm) rest_frames.simps) (auto split: if_splits)
  then show "step \<noteq> 0" "step \<le> length d" by simp_all
  show "rest_frames step tid d k = (middle_fragment tid k @ take step d) # rest_frames step tid (drop step d) (k + 1)"
    using n by (subst rest_frames.simps) simp
qed

lemma rest_frames_drop:
  "m < length (rest_frames step tid d k) \<Longrightarrow>
   drop m (rest_frames step tid d k) = rest_frames step tid (drop (m * step) d) (k + of_nat m)"
proof (induction m arbitrary: d k)
  case (Suc m)
  note m = rest_frames_more [of step tid d k]
  have l: "1 < length (rest_frames step tid d k)" using Suc.prems by linarith
  have "m < length (rest_frames step tid (drop step d) (k + 1))"
    using Suc.prems arg_cong [OF m(3) [OF l], of length] by simp
  from Suc.IH [OF this] show ?case unfolding m(3) [OF l] by (simp add: add.commute add.left_commute)
qed simp

lemma process_middles:
  assumes "frx_ready qs c (m + n)" "pending c = rest_frames step tid d k @ later"
    and "m < length (rest_frames step tid d k)" "unat k + m \<le> 256" "k \<noteq> 0"
    and "\<not> dropped_frame c" "fr_transaction_id c = tid AND 31" "unat k = unat (fragment_index c)"
  shows "\<exists>s. frag_process_n run m c = Some (c\<lparr>fc_io := s, fragment_index := fragment_index c + of_nat m\<rparr>) \<and>
    frx_ready qs (c\<lparr>fc_io := s\<rparr>) n \<and> pending (c\<lparr>fc_io := s\<rparr>) = drop m (rest_frames step tid d k) @ later \<and>
    conn_frames s = conn_frames (fc_io c) @ take m (rest_frames step tid d k)"
  using assms
proof (induction m arbitrary: c d k)
  case 0
  then show ?case by (intro exI [of _ "fc_io c"]) simp
next
  case (Suc m)
  have l: "1 < length (rest_frames step tid d k)" using Suc.prems(3) by linarith
  let ?rest = "rest_frames step tid (drop step d) (k + 1)" and ?b = "transaction_control NON_LAST_FRAGMENT_TRANSFER_TYPE tid"
  have rf: "rest_frames step tid d k = (?b # k # take step d) # ?rest"
    using rest_frames_more(3) [OF l] by (simp add: middle_fragment_def)
  have p: "pending c = (?b # k # take step d) # ?rest @ later" using Suc.prems(2) rf by simp
  have r: "frx_ready qs c (Suc (m + n))" using Suc.prems(1) by simp
  obtain s k' where s: "wps_frag_read_process run c = frag_process run ?b k' (c\<lparr>fc_io := s\<rparr>)"
    "k # take step d \<noteq> [] \<longrightarrow> k' = hd (k # take step d)" "frx_ready qs (c\<lparr>fc_io := s\<rparr>) (m + n)"
    "pending (c\<lparr>fc_io := s\<rparr>) = ?rest @ later" "conn_frames s = conn_frames (fc_io c) @ [?b # k # take step d]"
    by (rule process_frame [OF r p Suc.prems(6)])
  let ?c = "c\<lparr>fc_io := s, fragment_index := fragment_index c + 1\<rparr>"
  have st: "wps_frag_read_process run c = Some ?c"
    using s(1,2) process_middle [of "c\<lparr>fc_io := s\<rparr>" tid k run] Suc.prems(5,7,8) by simp
  show ?case
  proof (cases "m = 0")
    case True
    then show ?thesis using s(3-5) st rf by (intro exI [of _ s]) simp
  next
    case False
    then have bd: "unat k + 1 < 256" using Suc.prems(4) by linarith
    then have k1: "unat (k + 1) = unat k + 1" by (subst unat_plus_lt) simp_all
    have i1: "unat (fragment_index c + 1) = unat (fragment_index c) + 1"
      using Suc.prems(8) bd by (subst unat_plus_lt) simp_all
    have "\<exists>s'. frag_process_n run m ?c = Some (?c\<lparr>fc_io := s', fragment_index := fragment_index ?c + of_nat m\<rparr>) \<and>
        frx_ready qs (?c\<lparr>fc_io := s'\<rparr>) n \<and> pending (?c\<lparr>fc_io := s'\<rparr>) = drop m ?rest @ later \<and>
        conn_frames s' = conn_frames (fc_io ?c) @ take m ?rest"
    proof (rule Suc.IH)
      show "frx_ready qs ?c (m + n)" "pending ?c = ?rest @ later" using s(3,4) by (simp_all add: frx_ready_def pending_def)
      show "m < length ?rest" using Suc.prems(3) rf by simp
      show "unat (k + 1) + m \<le> 256" "unat (k + 1) = unat (fragment_index ?c)" using k1 i1 Suc.prems(4,8) by simp_all
      show "k + 1 \<noteq> 0" using k1 by auto
    qed (use Suc.prems(6,7) in simp_all)
    then obtain s' where s': "frag_process_n run m ?c = Some (c\<lparr>fc_io := s', fragment_index := fragment_index c + 1 + of_nat m\<rparr>)"
      "frx_ready qs (?c\<lparr>fc_io := s'\<rparr>) n" "pending (?c\<lparr>fc_io := s'\<rparr>) = drop m ?rest @ later"
      "conn_frames s' = conn_frames s @ take m ?rest" by auto
    show ?thesis using s' st s(5) rf
      by (intro exI [of _ s']) (simp add: frx_ready_def pending_def add.assoc)
  qed
qed

lemma process_n_add:
  "frag_process_n run (m + n) c = (case frag_process_n run m c of None \<Rightarrow> None | Some c1 \<Rightarrow> frag_process_n run n c1)"
  by (induction m arbitrary: c) (auto split: option.splits)

lemma rest_frames_last:
  assumes "length (rest_frames step tid d k) = 1"
  shows "rest_frames step tid d k = [last_fragment tid k @ d]"
proof -
  have "step = 0 \<or> length d < step"
  proof (rule ccontr)
    assume n: "\<not> (step = 0 \<or> length d < step)"
    then have "length (rest_frames step tid d k) = 1 + length (rest_frames step tid (drop step d) (k + 1))"
      by (subst rest_frames.simps) simp
    with assms length_rest_pos [of step tid "drop step d" "k + 1"] show False by simp
  qed
  then show ?thesis by (subst rest_frames.simps) simp
qed

lemma process_rest:
  assumes r: "frx_ready qs c (length (rest_frames step tid d k) + n)" and p: "pending c = rest_frames step tid d k @ later"
    and nd: "\<not> dropped_frame c" and t: "fr_transaction_id c = tid AND 31"
    and ki: "unat k = unat (fragment_index c)" "k \<noteq> 0"
    and bd: "unat k + length (rest_frames step tid d k) \<le> 256"
  shows "\<exists>s. frag_process_n run (length (rest_frames step tid d k)) c =
      Some (frag_announce run (c\<lparr>fc_io := s, fragment_index := 0\<rparr>)) \<and>
    frx_ready qs (c\<lparr>fc_io := s\<rparr>) n \<and> pending (c\<lparr>fc_io := s\<rparr>) = later \<and>
    conn_frames s = conn_frames (fc_io c) @ rest_frames step tid d k"
proof -
  let ?R = "rest_frames step tid d k"
  define m where "m = length ?R - 1"
  have m: "length ?R = m + 1" "m < length ?R" "unat k + m < 256"
    using length_rest_pos [of step tid d k] bd unfolding m_def by linarith+
  have um: "unat (of_nat m :: u8) = m" "unat (of_nat m :: u16) = m" by (rule unat_of_nat_lt, use m(3) in simp)+
  have kn: "unat (k + of_nat m) = unat (fragment_index c + of_nat m)"
    using m(3) um ki(1) by (simp add: unat_plus_lt)
  have last: "drop m ?R = [last_fragment tid (k + of_nat m) @ drop (m * step) d]"
    using rest_frames_drop [OF m(2)] rest_frames_last [of step tid "drop (m * step) d" "k + of_nat m"] m(1)
      length_drop [of m ?R] by simp
  obtain s where s: "frag_process_n run m c = Some (c\<lparr>fc_io := s, fragment_index := fragment_index c + of_nat m\<rparr>)"
    "frx_ready qs (c\<lparr>fc_io := s\<rparr>) (Suc n)" "pending (c\<lparr>fc_io := s\<rparr>) = drop m ?R @ later"
    "conn_frames s = conn_frames (fc_io c) @ take m ?R"
    using process_middles [of qs c m "Suc n" step tid d k later run] r p m nd t ki by auto
  let ?c = "c\<lparr>fc_io := s, fragment_index := fragment_index c + of_nat m\<rparr>"
  have p1: "pending ?c = (transaction_control LAST_FRAGMENT_TRANSFER_TYPE tid # (k + of_nat m) # drop (m * step) d) # later"
    using s(3) last by (simp add: last_fragment_def pending_def)
  have r1: "frx_ready qs ?c (Suc n)" using s(2) by (simp add: frx_ready_def)
  obtain s1 k' where s1: "wps_frag_read_process run ?c =
      frag_process run (transaction_control LAST_FRAGMENT_TRANSFER_TYPE tid) k' (?c\<lparr>fc_io := s1\<rparr>)"
    "(k + of_nat m) # drop (m * step) d \<noteq> [] \<longrightarrow> k' = hd ((k + of_nat m) # drop (m * step) d)"
    "frx_ready qs (?c\<lparr>fc_io := s1\<rparr>) n" "pending (?c\<lparr>fc_io := s1\<rparr>) = later"
    "conn_frames s1 = conn_frames (fc_io ?c) @ [transaction_control LAST_FRAGMENT_TRANSFER_TYPE tid # (k + of_nat m) # drop (m * step) d]"
    by (rule process_frame [OF r1 p1]) (use nd in simp_all)
  have "wps_frag_read_process run ?c = Some (frag_announce run (c\<lparr>fc_io := s1, fragment_index := 0\<rparr>))"
    using s1(1,2) process_last [of "?c\<lparr>fc_io := s1\<rparr>" tid k' run] t kn by simp
  then have "frag_process_n run (m + 1) c = Some (frag_announce run (c\<lparr>fc_io := s1, fragment_index := 0\<rparr>))"
    unfolding process_n_add using s(1) by simp
  moreover have "conn_frames s1 = conn_frames (fc_io c) @ take m ?R @ drop m ?R"
    using s1(5) s(4) last by (simp add: last_fragment_def)
  ultimately show ?thesis using m(1) s1(3,4) by (intro exI [of _ s1]) (simp add: frx_ready_def pending_def)
qed

lemma process_payload:
  assumes r: "frx_ready qs c (length (frag_frames ps tid d) + n)" and p: "pending c = frag_frames ps tid d @ later"
    and nd: "\<not> dropped_frame c" and i0: "fragment_index c = 0" and bd: "length (frag_frames ps tid d) \<le> 256"
  shows "\<exists>s t. frag_process_n run (length (frag_frames ps tid d)) c =
      Some (frag_announce run (c\<lparr>fc_io := s, fr_transaction_id := t, fragment_index := 0\<rparr>)) \<and>
    frx_ready qs (c\<lparr>fc_io := s\<rparr>) n \<and> pending (c\<lparr>fc_io := s\<rparr>) = later \<and>
    conn_frames s = conn_frames (fc_io c) @ frag_frames ps tid d"
proof (cases "length d + 1 \<le> ps")
  case True
  let ?b = "transaction_control FULL_FRAME_TRANSFER_TYPE tid"
  have f: "frag_frames ps tid d = [?b # d]" using True by (simp add: frag_frames_def full_frame_def)
  have r1: "frx_ready qs c (Suc n)" and p1: "pending c = (?b # d) # later" using r p f by simp_all
  obtain s k where s: "wps_frag_read_process run c = frag_process run ?b k (c\<lparr>fc_io := s\<rparr>)"
    "frx_ready qs (c\<lparr>fc_io := s\<rparr>) n" "pending (c\<lparr>fc_io := s\<rparr>) = later"
    "conn_frames s = conn_frames (fc_io c) @ [?b # d]" by (rule process_frame [OF r1 p1 nd])
  have e: "c\<lparr>fc_io := s, fr_transaction_id := fr_transaction_id c, fragment_index := 0\<rparr> = c\<lparr>fc_io := s\<rparr>"
    using i0 by (cases c) simp
  have "frag_process_n run 1 c = Some (frag_announce run (c\<lparr>fc_io := s\<rparr>))"
    using s(1) process_full [of "c\<lparr>fc_io := s\<rparr>" run tid k] i0 by simp
  then show ?thesis using s(2-4) f e by (intro exI [of _ s] exI [of _ "fr_transaction_id c"]) simp
next
  case False
  let ?R = "rest_frames (ps - 2) tid (drop (ps - 4) d) 1" and ?b = "transaction_control NON_LAST_FRAGMENT_TRANSFER_TYPE tid"
  let ?body = "0 # ucast (of_nat (length d) :: u16) # ucast (drop_bit 8 (of_nat (length d) :: u16)) # take (ps - 4) d"
  have f: "frag_frames ps tid d = (?b # ?body) # ?R" using False by (simp add: frag_frames_def first_fragment_def)
  have r1: "frx_ready qs c (Suc (length ?R + n))" and p1: "pending c = (?b # ?body) # ?R @ later" using r p f by simp_all
  obtain s k where s: "wps_frag_read_process run c = frag_process run ?b k (c\<lparr>fc_io := s\<rparr>)"
    "?body \<noteq> [] \<longrightarrow> k = hd ?body" "frx_ready qs (c\<lparr>fc_io := s\<rparr>) (length ?R + n)" "pending (c\<lparr>fc_io := s\<rparr>) = ?R @ later"
    "conn_frames s = conn_frames (fc_io c) @ [?b # ?body]" by (rule process_frame [OF r1 p1 nd])
  let ?c = "c\<lparr>fc_io := s, fr_transaction_id := tid AND 31, fragment_index := 1\<rparr>"
  have st: "wps_frag_read_process run c = Some ?c"
    using s(1,2) process_first [of "c\<lparr>fc_io := s\<rparr>" run tid] i0 by simp
  have "\<exists>s'. frag_process_n run (length ?R) ?c = Some (frag_announce run (?c\<lparr>fc_io := s', fragment_index := 0\<rparr>)) \<and>
      frx_ready qs (?c\<lparr>fc_io := s'\<rparr>) n \<and> pending (?c\<lparr>fc_io := s'\<rparr>) = later \<and>
      conn_frames s' = conn_frames (fc_io ?c) @ ?R"
    by (rule process_rest [where qs = qs and later = later])
      (use s(3,4) nd bd f in \<open>simp_all add: frx_ready_def pending_def\<close>)
  then obtain s' where s': "frag_process_n run (length ?R) ?c = Some (frag_announce run (?c\<lparr>fc_io := s', fragment_index := 0\<rparr>))"
    "frx_ready qs (?c\<lparr>fc_io := s'\<rparr>) n" "pending (?c\<lparr>fc_io := s'\<rparr>) = later" "conn_frames s' = conn_frames s @ ?R" by fastforce
  have e: "?c\<lparr>fc_io := s', fragment_index := 0\<rparr> = c\<lparr>fc_io := s', fr_transaction_id := tid AND 31, fragment_index := 0\<rparr>"
    by (cases c) simp
  show ?thesis using st s(5) f s'(2-4) s'(1)[unfolded e]
    by (intro exI [of _ s'] exI [of _ "tid AND 31"]) (simp add: frx_ready_def pending_def)
qed

text \<open>Flushing after a failure: fragments of the failed transaction are all released.\<close>

lemma fail_loop_drains:
  assumes "frx_ready qs c n" "fr_transaction_id c = tid"
    and "\<forall>f\<in>set (conn_frames (fc_io c)). f \<noteq> [] \<and> transfer_type_of (hd f) \<noteq> FULL_FRAME_TRANSFER_TYPE"
  shows "\<exists>s. read_process_fail_loop run tid c = Some (c\<lparr>fc_io := s\<rparr>) \<and> conn_frames s = [] \<and>
    frx_ready qs (c\<lparr>fc_io := s\<rparr>) (n + length (conn_frames (fc_io c))) \<and> pending (c\<lparr>fc_io := s\<rparr>) = pending c"
  using assms
proof (induction "conn_frames (fc_io c)" arbitrary: c n)
  case Nil
  then have "wps_read (fc_io c) = (WPS_QUEUE_EMPTY_ERROR, 0, 0)" by (intro wps_read_Nil [of qs 0 0]) (simp_all add: frx_ready_def)
  then show ?case using Nil by (intro exI [of _ "fc_io c"]) (subst read_process_fail_loop.simps, simp)
next
  case (Cons f fs)
  then have cf: "conn_frames (fc_io c) = f # fs" by simp
  have rx: "rx_ready qs 0 0 (fc_io c)" using Cons.prems(1) by (simp add: frx_ready_def)
  obtain p k where r: "wps_read (fc_io c) = (WPS_NO_ERROR, p, k)" "load_bytes (io_mem (fc_io c)) p (length f) = f"
    using wps_read_Cons [OF rx cf] by blast
  have "f \<noteq> []" "transfer_type_of (hd f) \<noteq> FULL_FRAME_TRANSFER_TYPE" using Cons.prems(3) cf by simp_all
  then have t: "transfer_type_of (io_mem (fc_io c) p) \<noteq> FULL_FRAME_TRANSFER_TYPE"
    using load_at [OF r(2), of 0] by (simp add: hd_conv_nth)
  obtain s where s: "wps_read_done (fc_io c) = (WPS_NO_ERROR, s)" "frx_ready qs (c\<lparr>fc_io := s\<rparr>) (Suc n)"
    "pending (c\<lparr>fc_io := s\<rparr>) = pending c" "conn_frames s = fs"
    by (rule read_done_frx [OF Cons.prems(1) cf])
  have "\<exists>s'. read_process_fail_loop run tid (c\<lparr>fc_io := s\<rparr>) = Some ((c\<lparr>fc_io := s\<rparr>)\<lparr>fc_io := s'\<rparr>) \<and> conn_frames s' = [] \<and>
      frx_ready qs ((c\<lparr>fc_io := s\<rparr>)\<lparr>fc_io := s'\<rparr>) (Suc n + length (conn_frames (fc_io (c\<lparr>fc_io := s\<rparr>)))) \<and>
      pending ((c\<lparr>fc_io := s\<rparr>)\<lparr>fc_io := s'\<rparr>) = pending (c\<lparr>fc_io := s\<rparr>)"
    by (rule Cons.hyps(1)) (use s Cons.prems cf in simp_all)
  moreover have "read_process_fail_loop run tid c = read_process_fail_loop run tid (c\<lparr>fc_io := s\<rparr>)"
    using r(1) t s(1) Cons.prems(2) by (subst read_process_fail_loop.simps) (simp add: Let_def)
  ultimately show ?case using s(3,4) cf by simp
qed

text \<open>Every frame of a payload of several fragments has a fragment type.\<close>

lemma rest_frames_types:
  "f \<in> set (rest_frames step tid d k) \<Longrightarrow> f \<noteq> [] \<and> transfer_type_of (hd f) \<noteq> FULL_FRAME_TRANSFER_TYPE"
proof (induction step tid d k rule: rest_frames.induct)
  case (1 step tid d k)
  then show ?case
    by (subst (asm) rest_frames.simps) (auto simp: last_fragment_def middle_fragment_def split: if_splits)
qed

lemma rest_frames_head:
  "\<exists>t body fs. rest_frames step tid d k = (transaction_control t tid # k # body) # fs \<and>
     (t = NON_LAST_FRAGMENT_TRANSFER_TYPE \<or> t = LAST_FRAGMENT_TRANSFER_TYPE)"
  by (subst rest_frames.simps) (auto simp: last_fragment_def middle_fragment_def)

lemma process_wrong_number:
  assumes "t = NON_LAST_FRAGMENT_TRANSFER_TYPE \<or> t = LAST_FRAGMENT_TRANSFER_TYPE"
    and "unat k \<noteq> unat (fragment_index c)" "fr_transaction_id c = tid AND 31"
  shows "frag_process run (transaction_control t tid) k c = wps_frag_read_process_fail run (tid AND 31) c"
  using assms by (auto simp: frag_process_def control_id Let_def)

section \<open>An example of a receiving connection\<close>

text \<open>
  The received frames \<open>fs\<close> wait on the fragment queue 9; the connection queue 5 has 1000 places. The
  application's success and failure handlers are 1 and 2.
\<close>

definition frx_demo :: "byte list list \<Rightarrow> frag_conn" where
  "frx_demo fs = (rx_demo fs)\<lparr>fc_io := (fc_io (rx_demo fs))\<lparr>io_queue := 5,
       io_heap := (io_heap (fc_io (rx_demo fs)))\<lparr>xqueues := (xqueues (io_heap (fc_io (rx_demo fs))))
         (5 := zero_queue\<lparr>xq_max_size := 1000\<rparr>)\<rparr>\<rparr>,
     fr_queue := 9, fr_rx_success := (Some 1, 0), fr_rx_fail := (Some 2, 0)\<rparr>"

lemma frx_demo_fields [simp]:
  "fragment_index (frx_demo fs) = 0" "\<not> dropped_frame (frx_demo fs)" "fr_rx_success (frx_demo fs) = (Some 1, 0)"
  "fr_rx_fail (frx_demo fs) = (Some 2, 0)" "enqueued_count (frx_demo fs) = 0" "fc_conn (frx_demo fs) = 0"
  by (simp_all add: frx_demo_def rx_demo_def frag_demo_def)

lemma frx_demo_ready:
  assumes "fs \<noteq> []" "length fs \<le> 1000" "\<forall>f\<in>set fs. length f \<le> 300" "n \<le> 1000"
  shows "frx_ready {5, 7, 9} (frx_demo fs) n" "pending (frx_demo fs) = fs" "conn_frames (fc_io (frx_demo fs)) = []"
proof -
  let ?h = "io_heap (fc_io (rx_demo fs))" and ?h' = "io_heap (fc_io (frx_demo fs))"
  note r = rx_demo_ready(1) [of fs 0 0] rx_demo_ready(2) [of fs 0] assms
  have it: "xq_items ?h' q = xq_items ?h q" "xq_wf ?h' q = xq_wf ?h q" if "q \<noteq> 5" for q
    using items_frame [of ?h' ?h q] that by (simp_all add: frx_demo_def)
  have i5: "xq_items ?h' 5 = []" "xq_wf ?h' 5" "xq_cap ?h' 5 = 1000" "\<not> free_xlayer_queue_type (xqueues ?h' 5)"
    by (simp_all add: xq_items_def xq_wf_def xq_cap_def frx_demo_def zero_queue_def)
  have q: "io_queue (fc_io (frx_demo fs)) = 5" "fr_queue (frx_demo fs) = 9" by (simp_all add: frx_demo_def)
  have wf: "xheap_wf {5, 7, 9} ?h'" using r it i5 by (simp add: rx_ready_def xheap_wf_def)
  have fr: "io_frame (fc_io (frx_demo fs)) a = io_frame (fc_io (rx_demo fs)) a"
    "io_mem (fc_io (frx_demo fs)) = io_mem (fc_io (rx_demo fs))" "xnodes ?h' = xnodes ?h" for a
    by (simp_all add: io_frame_def frx_demo_def)
  have "io_queue (fc_io (rx_demo fs)) = 9" by simp
  with r show "frx_ready {5, 7, 9} (frx_demo fs) n" using wf i5 it(1) [of 9] q fr
    by (auto simp: frx_ready_def rx_ready_def conn_nodes_def)
  have "frame_payload (fc_io (frx_demo fs)) = frame_payload (fc_io (rx_demo fs))"
    by (rule ext) (simp only: frame_payload_def fr)
  with r it(1) [of 9] q show "pending (frx_demo fs) = fs" by (simp add: pending_def conn_frames_def conn_nodes_def)
  show "conn_frames (fc_io (frx_demo fs)) = []" using i5 q by (simp add: conn_frames_def conn_nodes_def)
qed

section \<open>Announcements\<close>

text \<open>
  What the theorems ask of a callback of the application: that it leaves the reception alone. It may
  read and release the frames of the connection queue and change everything else of the
  connection; the frames not processed yet, the state of the current transaction and the
  callbacks stay, and an empty connection queue stays empty.
\<close>

definition keeps_reception :: "nat set \<Rightarrow> (frag_conn \<Rightarrow> frag_conn) \<Rightarrow> bool" where
  "keeps_reception qs f \<longleftrightarrow> (\<forall>c n. frx_ready qs c n \<longrightarrow>
     frx_ready qs (f c) n \<and> pending (f c) = pending c \<and> dropped_frame (f c) = dropped_frame c \<and>
     fragment_index (f c) = fragment_index c \<and> fr_transaction_id (f c) = fr_transaction_id c \<and>
     fr_rx_success (f c) = fr_rx_success c \<and> fc_conn (f c) = fc_conn c \<and>
     (conn_frames (fc_io c) = [] \<longrightarrow> conn_frames (fc_io (f c)) = []))"

lemma keeps_receptionD:
  assumes "keeps_reception qs f" "frx_ready qs c n"
  shows "frx_ready qs (f c) n" "pending (f c) = pending c" "dropped_frame (f c) = dropped_frame c"
    "fragment_index (f c) = fragment_index c" "fr_transaction_id (f c) = fr_transaction_id c"
    "fr_rx_success (f c) = fr_rx_success c" "fc_conn (f c) = fc_conn c"
    "conn_frames (fc_io c) = [] \<Longrightarrow> conn_frames (fc_io (f c)) = []"
  using assms unfolding keeps_reception_def by blast+

text \<open>For example a callback that releases the first frame of the connection.\<close>

definition release_first :: "frag_conn \<Rightarrow> frag_conn" where
  "release_first c = upd_io (\<lambda>s. snd (wps_read_done s)) c"

lemma release_first_Cons:
  assumes "frx_ready qs c n" "conn_frames (fc_io c) = f # fs"
  shows "conn_frames (fc_io (release_first c)) = fs"
  by (rule read_done_frx [OF assms]) (simp add: release_first_def upd_io_def)

lemma release_first_keeps: "keeps_reception qs release_first"
proof -
  have "frx_ready qs (release_first c) n \<and> pending (release_first c) = pending c \<and>
      (conn_frames (fc_io c) = [] \<longrightarrow> conn_frames (fc_io (release_first c)) = [])" if r: "frx_ready qs c n" for c n
  proof (cases "conn_frames (fc_io c)")
    case Nil
    then have "xq_wf (io_heap (fc_io c)) (io_queue (fc_io c))" "xq_items (io_heap (fc_io c)) (io_queue (fc_io c)) = []"
      using r by (simp_all add: frx_ready_def rx_ready_def xheap_wf_def conn_frames_def conn_nodes_def)
    then have "xlayer_queue_dequeue_node (io_queue (fc_io c)) (io_heap (fc_io c)) = (None, io_heap (fc_io c))"
      by (rule dequeue_empty)
    then have "release_first c = c" by (simp add: release_first_def upd_io_def wps_read_done_def Let_def)
    then show ?thesis using r by simp
  next
    case (Cons f fs)
    obtain s where "wps_read_done (fc_io c) = (WPS_NO_ERROR, s)" "frx_ready qs (c\<lparr>fc_io := s\<rparr>) (Suc n)"
      "pending (c\<lparr>fc_io := s\<rparr>) = pending c" by (rule read_done_frx [OF r Cons])
    then show ?thesis using Cons frx_ready_mono [of qs "c\<lparr>fc_io := s\<rparr>" "Suc n" n]
      by (simp add: release_first_def upd_io_def)
  qed
  then show ?thesis unfolding keeps_reception_def release_first_def by (simp add: upd_io_def)
qed

text \<open>
  One announcement for each payload: the frames of the payload are appended to the connection
  queue, whatever the application left there, and then the success callback is called once with the
  count raised by one; between two calls only the buffers, the transaction and the index change.
\<close>

inductive announced ::
  "(nat \<Rightarrow> nat \<Rightarrow> nat \<Rightarrow> frag_conn \<Rightarrow> frag_conn) \<Rightarrow> nat \<Rightarrow> frag_conn \<Rightarrow> (u8 \<times> byte list) list \<Rightarrow> frag_conn \<Rightarrow> bool"
  for run ps where
  none: "announced run ps c [] c"
| next_one: "conn_frames s = conn_frames (fc_io c) @ frag_frames ps tid d \<Longrightarrow>
    announced run ps (frag_call run (fr_rx_success c)
      (c\<lparr>fc_io := s, fr_transaction_id := t, fragment_index := 0, enqueued_count := enqueued_count c + 1\<rparr>)) pl c' \<Longrightarrow>
    announced run ps c ((tid, d) # pl) c'"

text \<open>With a callback that changes nothing, all frames and as many announcements as payloads are there.\<close>

lemma announced_quiet:
  assumes "announced run ps c pl c'" "\<And>c. frag_call run (fr_rx_success c) c = c"
  shows "enqueued_count c' = enqueued_count c + of_nat (length pl) \<and>
    conn_frames (fc_io c') = conn_frames (fc_io c) @ concat (map (\<lambda>(tid, d). frag_frames ps tid d) pl)"
  using assms(1)
proof induction
  case (next_one s c tid d t pl c')
  then show ?case using assms(2) [of "c\<lparr>fc_io := s, fr_transaction_id := t, fragment_index := 0, enqueued_count := enqueued_count c + 1\<rparr>"]
    by (simp add: algebra_simps)
qed simp

lemma process_payloads:
  assumes "frx_ready qs c (length (concat (map (\<lambda>(tid, d). frag_frames ps tid d) pl)))"
    and "pending c = concat (map (\<lambda>(tid, d). frag_frames ps tid d) pl) @ later"
    and "\<not> dropped_frame c" "fragment_index c = 0" "\<forall>(tid, d)\<in>set pl. length (frag_frames ps tid d) \<le> 256"
    and "fr_rx_success c = cb" "fst cb \<noteq> None" "keeps_reception qs (frag_call run cb)"
  shows "\<exists>c'. frag_process_n run (length (concat (map (\<lambda>(tid, d). frag_frames ps tid d) pl))) c = Some c' \<and>
    announced run ps c pl c' \<and> pending c' = later \<and> fragment_index c' = 0 \<and> \<not> dropped_frame c'"
  using assms(1-6)
proof (induction pl arbitrary: c)
  case Nil
  then show ?case by (auto intro: announced.none)
next
  case (Cons p pl)
  obtain tid d where p: "p = (tid, d)" by force
  let ?F = "frag_frames ps tid d" and ?G = "concat (map (\<lambda>(tid, d). frag_frames ps tid d) pl)"
  obtain s t where s: "frag_process_n run (length ?F) c =
      Some (frag_announce run (c\<lparr>fc_io := s, fr_transaction_id := t, fragment_index := 0\<rparr>))"
    "frx_ready qs (c\<lparr>fc_io := s\<rparr>) (length ?G)" "pending (c\<lparr>fc_io := s\<rparr>) = ?G @ later"
    "conn_frames s = conn_frames (fc_io c) @ ?F"
    using process_payload [of qs c ps tid d "length ?G" "?G @ later" run] Cons.prems p by fastforce
  let ?d = "c\<lparr>fc_io := s, fr_transaction_id := t, fragment_index := 0, enqueued_count := enqueued_count c + 1\<rparr>"
  let ?c = "frag_call run cb ?d"
  have "frag_announce run (c\<lparr>fc_io := s, fr_transaction_id := t, fragment_index := 0\<rparr>) = ?c"
    using Cons.prems(6) assms(7) by (simp add: frag_announce_def)
  with s(1) have n: "frag_process_n run (length ?F) c = Some ?c" by simp
  have "frx_ready qs ?d (length ?G)" using s(2) by simp
  note k = keeps_receptionD [OF assms(8) this]
  have "\<exists>c'. frag_process_n run (length ?G) ?c = Some c' \<and> announced run ps ?c pl c' \<and> pending c' = later \<and>
      fragment_index c' = 0 \<and> \<not> dropped_frame c'"
    by (rule Cons.IH) (use k(1-6) s(3) Cons.prems in simp_all)
  then obtain c' where c': "frag_process_n run (length ?G) ?c = Some c'" "announced run ps ?c pl c'" "pending c' = later"
    "fragment_index c' = 0" "\<not> dropped_frame c'" by blast
  have "announced run ps c ((tid, d) # pl) c'"
    by (rule announced.next_one [OF s(4)]) (use c'(2) Cons.prems(6) in simp)
  then show ?case using n c' p by (auto simp: process_n_add)
qed



section \<open>Payloads of more than 256 fragments\<close>

lemma length_rest_frames:
  "0 < step \<Longrightarrow> length (rest_frames step tid d k) = 1 + length d div step"
proof (induction step tid d k rule: rest_frames.induct)
  case (1 step tid d k)
  show ?case
  proof (cases "length d < step")
    case True
    then show ?thesis using 1(2) by (subst rest_frames.simps) simp
  next
    case False
    then have "length d div step = 1 + (length d - step) div step" using 1(2) by (simp add: le_div_geq)
    then show ?thesis using 1 False by (subst rest_frames.simps) simp
  qed
qed

lemma length_frag_frames: "4 < ps \<Longrightarrow> length (frag_frames ps tid d) = frag_count ps (length d)"
  by (simp add: frag_frames_def frag_count_def length_rest_frames)

lemma rest_frames_size: "f \<in> set (rest_frames step tid d k) \<Longrightarrow> 0 < step \<Longrightarrow> length f \<le> step + 2"
proof (induction step tid d k rule: rest_frames.induct)
  case (1 step tid d k)
  then show ?case by (subst (asm) rest_frames.simps) (auto split: if_splits)
qed

lemma frag_frames_size: "f \<in> set (frag_frames ps tid d) \<Longrightarrow> 4 < ps \<Longrightarrow> length f \<le> ps"
  by (auto simp: frag_frames_def dest!: rest_frames_size split: if_splits)

lemma frag_frames_types:
  "ps \<le> length d \<Longrightarrow> f \<in> set (frag_frames ps tid d) \<Longrightarrow> f \<noteq> [] \<and> transfer_type_of (hd f) \<noteq> FULL_FRAME_TRANSFER_TYPE"
  by (auto simp: frag_frames_def first_fragment_def dest: rest_frames_types)

text \<open>The first fragment and \<open>m\<close> of the following ones are accepted.\<close>

lemma process_up_to:
  assumes r: "frx_ready qs c (Suc m + n)" and p: "pending c = frag_frames ps tid d" and nf: "ps \<le> length d"
    and nd: "\<not> dropped_frame c" and i0: "fragment_index c = 0" and m: "Suc m < length (frag_frames ps tid d)" "m < 256"
  shows "\<exists>s. frag_process_n run (Suc m) c =
      Some (c\<lparr>fc_io := s, fr_transaction_id := tid AND 31, fragment_index := of_nat (Suc m)\<rparr>) \<and>
    frx_ready qs (c\<lparr>fc_io := s\<rparr>) n \<and>
    pending (c\<lparr>fc_io := s\<rparr>) = rest_frames (ps - 2) tid (drop (m * (ps - 2)) (drop (ps - 4) d)) (1 + of_nat m) \<and>
    conn_frames s = conn_frames (fc_io c) @ take (Suc m) (frag_frames ps tid d)"
proof -
  let ?R = "rest_frames (ps - 2) tid (drop (ps - 4) d) 1" and ?b = "transaction_control NON_LAST_FRAGMENT_TRANSFER_TYPE tid"
  let ?body = "0 # ucast (of_nat (length d) :: u16) # ucast (drop_bit 8 (of_nat (length d) :: u16)) # take (ps - 4) d"
  have f: "frag_frames ps tid d = (?b # ?body) # ?R" using nf by (simp add: frag_frames_def first_fragment_def)
  have r1: "frx_ready qs c (Suc (m + n))" and p1: "pending c = (?b # ?body) # ?R" using r p f by simp_all
  obtain s k where s: "wps_frag_read_process run c = frag_process run ?b k (c\<lparr>fc_io := s\<rparr>)"
    "?body \<noteq> [] \<longrightarrow> k = hd ?body" "frx_ready qs (c\<lparr>fc_io := s\<rparr>) (m + n)" "pending (c\<lparr>fc_io := s\<rparr>) = ?R"
    "conn_frames s = conn_frames (fc_io c) @ [?b # ?body]" by (rule process_frame [OF r1 p1 nd])
  let ?c = "c\<lparr>fc_io := s, fr_transaction_id := tid AND 31, fragment_index := 1\<rparr>"
  have st: "wps_frag_read_process run c = Some ?c"
    using s(1,2) process_first [of "c\<lparr>fc_io := s\<rparr>" run tid] i0 by simp
  have "\<exists>s'. frag_process_n run m ?c = Some (?c\<lparr>fc_io := s', fragment_index := fragment_index ?c + of_nat m\<rparr>) \<and>
      frx_ready qs (?c\<lparr>fc_io := s'\<rparr>) n \<and> pending (?c\<lparr>fc_io := s'\<rparr>) = drop m ?R @ [] \<and>
      conn_frames s' = conn_frames (fc_io ?c) @ take m ?R"
    by (rule process_middles) (use s(3,4) nd m f in \<open>simp_all add: frx_ready_def pending_def\<close>)
  then obtain s' where s': "frag_process_n run m ?c = Some (?c\<lparr>fc_io := s', fragment_index := fragment_index ?c + of_nat m\<rparr>)"
    "frx_ready qs (?c\<lparr>fc_io := s'\<rparr>) n" "pending (?c\<lparr>fc_io := s'\<rparr>) = drop m ?R"
    "conn_frames s' = conn_frames (fc_io ?c) @ take m ?R" by auto
  have e: "?c\<lparr>fc_io := s', fragment_index := fragment_index ?c + of_nat m\<rparr> =
      c\<lparr>fc_io := s', fr_transaction_id := tid AND 31, fragment_index := of_nat (Suc m)\<rparr>"
    by (cases c) simp
  have d: "drop m ?R = rest_frames (ps - 2) tid (drop (m * (ps - 2)) (drop (ps - 4) d)) (1 + of_nat m)"
    by (rule rest_frames_drop) (use m(1) f in simp)
  show ?thesis using st s(5) f s'(2-4) s'(1)[unfolded e] d
    by (intro exI [of _ s']) (simp add: frx_ready_def pending_def)
qed

text \<open>The number of the fragment after 256 of them is 0 again, and does not match the index 256.\<close>

lemma process_257:
  assumes r: "frx_ready qs c 257" and p: "pending c = frag_frames ps tid d" and nf: "4 < ps" "ps \<le> length d"
    and nd: "\<not> dropped_frame c" and i0: "fragment_index c = 0" and e: "conn_frames (fc_io c) = []"
    and m: "256 < length (frag_frames ps tid d)"
  obtains s where "frag_process_n run 257 c = Some (frag_call run (fr_rx_fail c)
      (c\<lparr>fc_io := s, fr_transaction_id := tid AND 31, dropped_frame := True, fragment_index := 0\<rparr>))"
    "conn_frames s = []" "frx_ready qs (c\<lparr>fc_io := s\<rparr>) 1" "pending (c\<lparr>fc_io := s\<rparr>) = drop 257 (frag_frames ps tid d)"
proof -
  let ?F = "frag_frames ps tid d" and ?t = "tid AND 31"
  have r1: "frx_ready qs c (Suc 255 + 1)" using r by simp
  obtain s where s: "frag_process_n run (Suc 255) c =
      Some (c\<lparr>fc_io := s, fr_transaction_id := ?t, fragment_index := of_nat (Suc 255)\<rparr>)"
    "frx_ready qs (c\<lparr>fc_io := s\<rparr>) 1"
    "pending (c\<lparr>fc_io := s\<rparr>) = rest_frames (ps - 2) tid (drop (255 * (ps - 2)) (drop (ps - 4) d)) (1 + of_nat 255)"
    "conn_frames s = conn_frames (fc_io c) @ take (Suc 255) ?F"
    using process_up_to [OF r1 p nf(2) nd i0, of run] m by auto
  have k0: "1 + of_nat 255 = (0 :: u8)" "unat (of_nat (Suc 255) :: u16) = 256" by simp_all
  have dF: "drop 256 ?F = pending (c\<lparr>fc_io := s\<rparr>)"
  proof -
    have f: "?F = (first_fragment tid (of_nat (length d)) @ take (ps - 4) d) # rest_frames (ps - 2) tid (drop (ps - 4) d) 1"
      using nf(2) by (simp add: frag_frames_def)
    then have "drop 256 ?F = drop 255 (rest_frames (ps - 2) tid (drop (ps - 4) d) 1)" by simp
    also have "\<dots> = pending (c\<lparr>fc_io := s\<rparr>)" unfolding s(3) by (rule rest_frames_drop) (use m f in simp)
    finally show ?thesis .
  qed
  obtain t body fs where h: "pending (c\<lparr>fc_io := s\<rparr>) = (transaction_control t tid # 0 # body) # fs"
    and t: "t = NON_LAST_FRAGMENT_TRANSFER_TYPE \<or> t = LAST_FRAGMENT_TRANSFER_TYPE"
    using s(3) rest_frames_head [of "ps - 2" tid _ 0] unfolding k0 by metis
  have fs: "fs = drop 257 ?F"
  proof -
    have "drop 257 ?F = drop 1 (drop 256 ?F)" by simp
    then show ?thesis using h dF by simp
  qed
  let ?c = "c\<lparr>fc_io := s, fr_transaction_id := ?t, fragment_index := of_nat (Suc 255)\<rparr>"
  have r2: "frx_ready qs ?c (Suc 0)" "pending ?c = (transaction_control t tid # 0 # body) # fs" "\<not> dropped_frame ?c"
    using s(2) h nd by simp_all
  obtain s1 k where s1: "wps_frag_read_process run ?c = frag_process run (transaction_control t tid) k (?c\<lparr>fc_io := s1\<rparr>)"
    "0 # body \<noteq> [] \<longrightarrow> k = hd (0 # body)" "frx_ready qs (?c\<lparr>fc_io := s1\<rparr>) 0" "pending (?c\<lparr>fc_io := s1\<rparr>) = fs"
    "conn_frames s1 = conn_frames (fc_io ?c) @ [transaction_control t tid # 0 # body]"
    by (rule process_frame [OF r2])
  let ?d = "c\<lparr>fc_io := s1, fr_transaction_id := ?t, dropped_frame := True, fragment_index := 0\<rparr>"
  have d: "?c\<lparr>fc_io := s1, dropped_frame := True, fragment_index := 0\<rparr> = ?d" by (cases c) simp
  have rd: "frx_ready qs ?d 0" "pending ?d = fs" using s1(3,4) by (simp_all add: frx_ready_def pending_def)
  have sub: "set (conn_frames s1) \<subseteq> set ?F \<union> {transaction_control t tid # 0 # body}"
    using s1(5) s(4) e by (auto dest: in_set_takeD)
  have "transfer_type_of (hd (transaction_control t tid # 0 # body)) \<noteq> FULL_FRAME_TRANSFER_TYPE" using t by auto
  moreover have "f \<noteq> [] \<and> transfer_type_of (hd f) \<noteq> FULL_FRAME_TRANSFER_TYPE" if "f \<in> set ?F" for f
    by (rule frag_frames_types [OF nf(2) that])
  ultimately have ty: "\<forall>f\<in>set (conn_frames (fc_io ?d)). f \<noteq> [] \<and> transfer_type_of (hd f) \<noteq> FULL_FRAME_TRANSFER_TYPE"
    using sub by auto
  have l1: "1 \<le> length (conn_frames s1)" using s1(5) by simp
  obtain s2 where s2: "read_process_fail_loop run ?t ?d = Some (?d\<lparr>fc_io := s2\<rparr>)" "conn_frames s2 = []"
    "frx_ready qs (?d\<lparr>fc_io := s2\<rparr>) (length (conn_frames s1))" "pending (?d\<lparr>fc_io := s2\<rparr>) = fs"
    using fail_loop_drains [OF rd(1) _ ty, of ?t run] rd(2) by auto
  have "frag_process run (transaction_control t tid) k (?c\<lparr>fc_io := s1\<rparr>) = wps_frag_read_process_fail run ?t (?c\<lparr>fc_io := s1\<rparr>)"
    by (rule process_wrong_number [OF t]) (use s1(2) k0(2) in simp_all)
  also have "\<dots> = Some (frag_call run (fr_rx_fail c) (?d\<lparr>fc_io := s2\<rparr>))"
    unfolding wps_frag_read_process_fail_def d s2(1) by simp
  finally have "wps_frag_read_process run ?c = Some (frag_call run (fr_rx_fail c) (?d\<lparr>fc_io := s2\<rparr>))"
    using s1(1) by simp
  then have "frag_process_n run (Suc 255 + 1) c = Some (frag_call run (fr_rx_fail c) (?d\<lparr>fc_io := s2\<rparr>))"
    unfolding process_n_add using s(1) by simp
  moreover have "?d\<lparr>fc_io := s2\<rparr> = c\<lparr>fc_io := s2, fr_transaction_id := ?t, dropped_frame := True, fragment_index := 0\<rparr>"
    by (cases c) simp
  ultimately have e1: "frag_process_n run 257 c =
      Some (frag_call run (fr_rx_fail c) (c\<lparr>fc_io := s2, fr_transaction_id := ?t, dropped_frame := True, fragment_index := 0\<rparr>))"
    by (simp only:) simp
  have e2: "frx_ready qs (c\<lparr>fc_io := s2\<rparr>) 1" using frx_ready_mono [OF s2(3) l1] by (simp add: frx_ready_def)
  have "pending (c\<lparr>fc_io := s2\<rparr>) = drop 257 ?F" using s2(4) fs by (simp add: pending_def)
  then show thesis by (rule that [OF e1 s2(2) e2])
qed

text \<open>While the frame is marked dropped the other fragments are released one by one as they come.\<close>

lemma process_dropped:
  assumes r: "frx_ready qs c 1" and p: "pending c = (transaction_control t tid # k # body) # fs"
    and t: "t = NON_LAST_FRAGMENT_TRANSFER_TYPE \<or> t = LAST_FRAGMENT_TRANSFER_TYPE"
    and d: "dropped_frame c" "fragment_index c = 0" "fr_transaction_id c = tid AND 31" "conn_frames (fc_io c) = []" "k \<noteq> 0"
  obtains s where "wps_frag_read_process run c = Some (c\<lparr>fc_io := s\<rparr>)" "frx_ready qs (c\<lparr>fc_io := s\<rparr>) 1"
    "pending (c\<lparr>fc_io := s\<rparr>) = fs" "conn_frames s = []"
proof -
  let ?f = "transaction_control t tid # k # body"
  have r1: "frx_ready qs c (Suc 0)" using r by simp
  obtain s1 addr where s1: "frag_read c = (WPS_NO_ERROR, addr, c\<lparr>fc_io := s1\<rparr>)" "frx_ready qs (c\<lparr>fc_io := s1\<rparr>) 0"
    "pending (c\<lparr>fc_io := s1\<rparr>) = fs" "conn_frames s1 = conn_frames (fc_io c) @ [?f]"
    "load_bytes (io_mem s1) addr (length ?f) = ?f"
    by (rule frag_read_moves [OF r1 p])
  have b: "io_mem s1 addr = transaction_control t tid" "io_mem s1 (addr + 1) = k"
    using load_at [OF s1(5), of 0] load_at [OF s1(5), of 1] by simp_all
  have "conn_frames (fc_io (c\<lparr>fc_io := s1\<rparr>)) = [?f]" using s1(4) d(4) by simp
  from read_done_frx [OF s1(2) this] obtain s where s: "wps_read_done s1 = (WPS_NO_ERROR, s)"
    "frx_ready qs (c\<lparr>fc_io := s\<rparr>) (Suc 0)" "pending (c\<lparr>fc_io := s\<rparr>) = fs" "conn_frames s = []"
    using s1(3) by auto
  have nf: "transfer_type_of (transaction_control t tid) \<noteq> FULL_FRAME_TRANSFER_TYPE" using t by auto
  have kz: "unat k \<noteq> unat (0 :: u16)" using d(5) by (simp add: unat_eq_0)
  have "wps_frag_read_process run c = Some (c\<lparr>fc_io := s\<rparr>)"
    using s1(1) b nf kz s(1) d(1-3) control_id by (simp add: wps_frag_read_process_def Let_def upd_io_def)
  then show thesis using that s(2-4) by simp
qed

lemma process_drop_rest:
  assumes "frx_ready qs c 1" "pending c = rest_frames step tid d k" "dropped_frame c" "fragment_index c = 0"
    and "fr_transaction_id c = tid AND 31" "conn_frames (fc_io c) = []" "k \<noteq> 0"
    and "unat k + length (rest_frames step tid d k) \<le> 256"
  shows "\<exists>s. frag_process_n run (length (rest_frames step tid d k)) c = Some (c\<lparr>fc_io := s\<rparr>) \<and>
    conn_frames s = [] \<and> pending (c\<lparr>fc_io := s\<rparr>) = []"
  using assms
proof (induction step tid d k arbitrary: c rule: rest_frames.induct)
  case (1 step tid d k)
  note pr = "1.prems"
  show ?case
  proof (cases "step = 0 \<or> length d < step")
    case True
    then have f: "rest_frames step tid d k = [transaction_control LAST_FRAGMENT_TRANSFER_TYPE tid # k # d]"
      by (subst rest_frames.simps) (simp add: last_fragment_def)
    have p: "pending c = (transaction_control LAST_FRAGMENT_TRANSFER_TYPE tid # k # d) # []" using pr(2) f by simp
    obtain s where "wps_frag_read_process run c = Some (c\<lparr>fc_io := s\<rparr>)" "pending (c\<lparr>fc_io := s\<rparr>) = []" "conn_frames s = []"
      by (rule process_dropped [OF pr(1) p _ pr(3-7)]) simp_all
    then show ?thesis using f by (intro exI [of _ s]) simp
  next
    case False
    let ?R = "rest_frames step tid (drop step d) (k + 1)"
    have f: "rest_frames step tid d k = (transaction_control NON_LAST_FRAGMENT_TRANSFER_TYPE tid # k # take step d) # ?R"
      using False by (subst rest_frames.simps) (simp add: middle_fragment_def)
    have p: "pending c = (transaction_control NON_LAST_FRAGMENT_TRANSFER_TYPE tid # k # take step d) # ?R" using pr(2) f by simp
    obtain s where s: "wps_frag_read_process run c = Some (c\<lparr>fc_io := s\<rparr>)" "frx_ready qs (c\<lparr>fc_io := s\<rparr>) 1"
      "pending (c\<lparr>fc_io := s\<rparr>) = ?R" "conn_frames s = []"
      by (rule process_dropped [OF pr(1) p _ pr(3-7)]) simp_all
    have "0 < length ?R" by (rule length_rest_pos)
    moreover have "unat k + (1 + length ?R) \<le> 256" using pr(8) arg_cong [OF f, of length] by simp
    ultimately have "unat k + 1 < 256" by linarith
    then have k1: "unat (k + 1) = unat k + 1" by (subst unat_plus_lt) simp_all
    then have "k + 1 \<noteq> 0" by auto
    with "1.IH" [OF False, of "c\<lparr>fc_io := s\<rparr>"] s(2-4) pr(3-5,8) k1 f obtain s' where
      "frag_process_n run (length ?R) (c\<lparr>fc_io := s\<rparr>) = Some ((c\<lparr>fc_io := s\<rparr>)\<lparr>fc_io := s'\<rparr>)" "conn_frames s' = []"
      "pending ((c\<lparr>fc_io := s\<rparr>)\<lparr>fc_io := s'\<rparr>) = []" by auto
    then show ?thesis using s(1) f by (intro exI [of _ s']) simp
  qed
qed

lemma process_long:
  assumes r: "frx_ready qs c 257" and p: "pending c = frag_frames ps tid d" and nf: "4 < ps"
    and nd: "\<not> dropped_frame c" and i0: "fragment_index c = 0" and e: "conn_frames (fc_io c) = []"
    and m: "256 < length (frag_frames ps tid d)" "length (frag_frames ps tid d) \<le> 512"
    and cb: "keeps_reception qs (frag_call run (fr_rx_fail c))"
  shows "\<exists>s s'. frag_process_n run (length (frag_frames ps tid d)) c = Some ((frag_call run (fr_rx_fail c)
      (c\<lparr>fc_io := s, fr_transaction_id := tid AND 31, dropped_frame := True, fragment_index := 0\<rparr>))\<lparr>fc_io := s'\<rparr>) \<and>
    conn_frames s = [] \<and> conn_frames s' = [] \<and> pending ((frag_call run (fr_rx_fail c)
      (c\<lparr>fc_io := s, fr_transaction_id := tid AND 31, dropped_frame := True, fragment_index := 0\<rparr>))\<lparr>fc_io := s'\<rparr>) = []"
proof -
  let ?F = "frag_frames ps tid d"
  have big: "ps \<le> length d" using m(1) by (auto simp: frag_frames_def split: if_splits)
  obtain s where s: "frag_process_n run 257 c = Some (frag_call run (fr_rx_fail c)
      (c\<lparr>fc_io := s, fr_transaction_id := tid AND 31, dropped_frame := True, fragment_index := 0\<rparr>))"
    "conn_frames s = []" "frx_ready qs (c\<lparr>fc_io := s\<rparr>) 1" "pending (c\<lparr>fc_io := s\<rparr>) = drop 257 ?F"
    by (rule process_257 [OF r p nf big nd i0 e m(1)])
  let ?d = "c\<lparr>fc_io := s, fr_transaction_id := tid AND 31, dropped_frame := True, fragment_index := 0\<rparr>"
  let ?c = "frag_call run (fr_rx_fail c) ?d"
  have rd: "frx_ready qs ?d 1" "pending ?d = drop 257 ?F" using s(3,4) by simp_all
  note k = keeps_receptionD [OF cb rd(1)]
  have c: "frx_ready qs ?c 1" "pending ?c = drop 257 ?F" "dropped_frame ?c" "fragment_index ?c = 0"
    "fr_transaction_id ?c = tid AND 31" "conn_frames (fc_io ?c) = []"
    using k rd(2) s(2) by simp_all
  have "\<exists>s'. frag_process_n run (length ?F - 257) ?c = Some (?c\<lparr>fc_io := s'\<rparr>) \<and> conn_frames s' = [] \<and>
      pending (?c\<lparr>fc_io := s'\<rparr>) = []"
  proof (cases "length ?F = 257")
    case True
    then show ?thesis using c(2,6) by (intro exI [of _ "fc_io ?c"]) simp
  next
    case False
    have "drop 257 ?F = drop 256 (rest_frames (ps - 2) tid (drop (ps - 4) d) 1)"
      using big by (simp add: frag_frames_def)
    also have "\<dots> = rest_frames (ps - 2) tid (drop (256 * (ps - 2)) (drop (ps - 4) d)) (1 + of_nat 256)"
      by (rule rest_frames_drop) (use m False big in \<open>simp add: frag_frames_def\<close>)
    also have "1 + of_nat 256 = (1 :: u8)" by simp
    finally have R: "drop 257 ?F = rest_frames (ps - 2) tid (drop (256 * (ps - 2)) (drop (ps - 4) d)) 1" .
    have l: "length (drop 257 ?F) = length ?F - 257" by simp
    show ?thesis unfolding l [symmetric] R
      by (rule process_drop_rest) (use c R m(2) l in simp_all)
  qed
  then obtain s' where s': "frag_process_n run (length ?F - 257) ?c = Some (?c\<lparr>fc_io := s'\<rparr>)" "conn_frames s' = []"
    "pending (?c\<lparr>fc_io := s'\<rparr>) = []" by blast
  have "length ?F = 257 + (length ?F - 257)" using m(1) by simp
  then have "frag_process_n run (length ?F) c = Some (?c\<lparr>fc_io := s'\<rparr>)"
    using process_n_add [of run 257 "length ?F - 257" c] s(1) s'(1) by simp
  with s(2) s'(2,3) show ?thesis by blast
qed

section \<open>A sender of long payloads\<close>

text \<open>The connection of \<open>frag_demo\<close> with 300 pool nodes and 4000 bytes of transmit buffer.\<close>

definition long_demo :: frag_conn where
  "long_demo = (frag_demo 300)\<lparr>fc_io := (fc_io (frag_demo 300))\<lparr>
     io_heap := xlayer_queue_init_queue 9 300 ''tx'' (xlayer_queue_init_pool 8 20000 7 300 ''pool'' zero_store),
     io_tx_data := Some (xlayer_circular_data_init 5000 4000)\<rparr>\<rparr>"

lemma long_demo_fields [simp]:
  "io_payload_size (fc_io long_demo) = 10" "io_header_size (fc_io long_demo) = 3" "next_transaction_id long_demo = 0"
  "io_mem (fc_io long_demo) = (\<lambda>x. of_nat x)"
  by (simp_all add: long_demo_def)

lemma long_demo_ready:
  "tx_ready (fc_io long_demo) 257 3855" "io_tx_spared (fc_io long_demo) 100 2046" "conn_frames (fc_io long_demo) = []"
proof -
  let ?h = "io_heap (fc_io long_demo)"
  have it: "xq_items ?h 9 = []" "xq_cap ?h 9 = 300" "xq_wf ?h 9"
    by (simp_all add: long_demo_def init_queue_items)
  note pool = init_pool_items [of 8 300 20000 7 "''pool''" zero_store]
  have "length (xq_items ?h 7) = 300" "xq_wf ?h 7" "free_xlayer_queue_type (xqueues ?h 7)"
    using pool by (simp_all add: long_demo_def init_queue_other)
  then show "tx_ready (fc_io long_demo) 257 3855" using it
    by (simp add: tx_ready_def xheap_wf_def conn_nodes_def long_demo_def xlayer_circular_data_init_def frag_demo_def)
  show "io_tx_spared (fc_io long_demo) 100 2046"
    by (simp add: long_demo_def io_tx_spared_def spared_def xlayer_circular_data_init_def)
  show "conn_frames (fc_io long_demo) = []" using it by (simp add: conn_frames_def conn_nodes_def long_demo_def frag_demo_def)
qed



section \<open>Transmit handlers\<close>

lemma drop_callback_diverges: "wps_frag_tx_dropped_callback handler run conn c = Some y \<Longrightarrow> fst (fc_tx_drop c) \<noteq> Some handler"
  by (erule wps_frag_tx_dropped_callback.raw_induct [where P = "\<lambda>handler run conn c y. fst (fc_tx_drop c) \<noteq> Some handler", rotated])
     (auto split: option.splits if_splits)

text \<open>
  Drop handler: after an application has set a drop callback with
  \<open>wps_frag_set_tx_drop_callback\<close>, the handler of a dropped frame calls itself and never returns,
  and the application's callback is never reached.
\<close>

theorem wps_frag_drop_never_returns:
  "wps_frag_tx_dropped_callback handler run conn (wps_frag_set_tx_drop_callback self handler cb c) = None"
  using drop_callback_diverges [of handler run conn "wps_frag_set_tx_drop_callback self handler cb c"]
  by (cases "wps_frag_tx_dropped_callback handler run conn (wps_frag_set_tx_drop_callback self handler cb c)")
     (auto simp: wps_frag_set_tx_drop_callback_def)

lemma success_counts_down:
  "k \<le> unat (remaining_fragment c) \<Longrightarrow>
   (wps_frag_tx_success_callback run conn ^^ k) c = c\<lparr>remaining_fragment := remaining_fragment c - of_nat k\<rparr>"
proof (induction k)
  case (Suc k)
  have "k < 65536" using Suc.prems unat_u16_lt [of "remaining_fragment c"] by (simp del: unat_u16_lt)
  then have "unat (of_nat k :: u16) = k" by (intro unat_of_nat_lt) simp
  then have "of_nat k \<noteq> remaining_fragment c" using Suc.prems by auto
  with Suc show ?case by (simp add: wps_frag_tx_success_callback_def algebra_simps)
qed simp

lemma finish_remaining:
  assumes "circular_queue_get_free_slot (meta_data_queue_tx c) = Some a" "remaining_fragment c = 0"
  shows "remaining_fragment (frag_finish n c) = (if n = 0 then 1 else n)"
  using assms by (simp add: frag_finish_def frag_note_sent_def Let_def)

text \<open>
  Transmit success: after a payload of \<open>n\<close> fragments is queued on an idle connection, the first
  \<open>n - 1\<close> transmit events call no callback, so that the callback of a fragmented payload runs at its
  last fragment; but a payload sent as one full frame counts one more frame than it has, and its
  only transmit event calls no callback either.
\<close>

theorem wps_frag_success_counted:
  fixes c c' :: frag_conn and sz :: u32
  assumes "4 < unat (io_payload_size (fc_io c))" "unat sz < 65536" "check_queue_space c sz = Some True"
    and "wps_frag_send p sz c = Some (WPS_NO_ERROR, c')"
    and "remaining_fragment c = 0" "circular_queue_get_free_slot (meta_data_queue_tx c) = Some a"
    and "n = frag_count (unat (io_payload_size (fc_io c))) (unat sz)"
    and "k \<le> (if n = 1 then 1 else n - 1)"
  shows "(wps_frag_tx_success_callback run conn ^^ k) c' =
    c'\<lparr>remaining_fragment := of_nat ((if n = 1 then 1 else n - 1) - k)\<rparr>"
proof -
  have s: "unat sz < 4000000000" using assms(2) by simp
  obtain s' where c': "c' = frag_finish (of_nat (n - 1)) (c\<lparr>fc_io := s'\<rparr>)"
    using frag_send_pieces [OF assms(1) s assms(3), of p] assms(4,7) by (auto split: prod.splits if_splits)
  have "(unat sz - (unat (io_payload_size (fc_io c)) - 4)) div (unat (io_payload_size (fc_io c)) - 2) \<le> unat sz" (is "?d \<le> _")
    by (rule order_trans [OF div_le_dividend]) simp
  moreover have "?d < 65535" if "unat (io_payload_size (fc_io c)) \<le> unat sz"
    by (rule le_less_trans [OF div_le_dividend]) (use assms(1,2) that in linarith)
  ultimately have n: "1 \<le> n" "n - 1 < 65536" using assms(7) by (auto simp: frag_count_def simp del: diff_diff_right split: if_splits)
  have u: "unat (of_nat (n - 1) :: u16) = n - 1" by (rule unat_of_nat_lt) (use n in simp)
  then have z: "of_nat (n - 1) = (0 :: u16) \<longleftrightarrow> n = 1" using n by (metis diff_is_0_eq le_antisym unat_eq_zero)
  have r: "remaining_fragment c' = of_nat (if n = 1 then 1 else n - 1)"
    unfolding c' by (subst finish_remaining [of _ a]) (use assms(5,6) z in auto)
  have ur: "unat (remaining_fragment c') = (if n = 1 then 1 else n - 1)" using r u by simp
  then show ?thesis using success_counts_down [of k c' run conn] assms(8) r by (simp add: of_nat_diff)
qed

theorem wps_frag_success_counted_witness:
  "\<exists>c'. wps_frag_send 100 20 (frag_demo 4) = Some (WPS_NO_ERROR, c') \<and>
     (wps_frag_tx_success_callback (\<lambda>_ _ _ c. c) 0 ^^ 2) c' = c'\<lparr>remaining_fragment := 0\<rparr>"
proof -
  obtain c' where c: "wps_frag_send 100 20 (frag_demo 4) = Some (WPS_NO_ERROR, c')"
    using frag_send_ready [of "frag_demo 4" 20 100] demo_ready [of 3 4 45] demo_spared [of 100 20 4] demo_empty [of 4]
    by (auto simp: frag_count_def)
  then have q: "check_queue_space (frag_demo 4) 20 = Some True"
    by (auto simp: wps_frag_send_def split: option.splits bool.splits)
  have "remaining_fragment (frag_demo 4) = 0" "io_payload_size (fc_io (frag_demo 4)) = 10"
    "circular_queue_get_free_slot (meta_data_queue_tx (frag_demo 4)) = Some 6000"
    by (simp_all add: frag_demo_def circular_queue_get_free_slot_def circular_queue_get_free_slot_raw_def circular_queue_init_def circular_queue_is_full_def)
  from wps_frag_success_counted [OF _ _ q c this(1,3) refl, of 2 "\<lambda>_ _ _ c. c" 0] this(2) c show ?thesis
    by (auto simp: frag_count_def)
qed

end
