(* ===== verification/Slot_Size.thy ===== *)
theory Slot_Size
  imports Frag_Send
begin

text \<open>
  The memory of consecutive transmit slots of a connection: the size of a slot is stored in a byte,
  so the distance between two slots is the size of the first one modulo 256.
\<close>

lemma unat_slot_size: "unat (slot_size hs n) = (unat hs + unat n + 2) mod 256"
  unfolding slot_size_def XLAYER_QUEUE_SPI_COMM_ADDITIONAL_BYTES_def by (simp only: unat_of_nat) simp

lemma get_free_slot_next:
  assumes r: "tx_room s (Suc m) (unat (slot_size (io_header_size s) n) + k)" and c: "io_tx_data s = Some c"
    and n: "unat n < 256" "io_payload_size s = 0 \<or> unat n \<le> unat (io_payload_size s)"
  shows "\<exists>s1 s2. wps_get_free_slot n s = (Inr (slot_payload c (io_header_size s)), s1) \<and>
    wps_send (slot_payload c (io_header_size s)) (ucast n) (s1\<lparr>io_mem := mem\<rparr>) = (WPS_NO_ERROR, s2) \<and>
    tx_room s2 m k \<and> io_header_size s2 = io_header_size s \<and>
    io_tx_data s2 = Some (cd_advance c (ucast (slot_size (io_header_size s) n)))"
proof -
  let ?p = "slot_payload c (io_header_size s)" and ?F = "io_free_tx_queue s"
  have QF: "?F \<noteq> io_queue s" and room: "length (conn_nodes s) + Suc m \<le> xq_cap (io_heap s) (io_queue s)"
    and fl: "cd_tail c \<le> cd_head c" "unat (cd_head c) + (unat (slot_size (io_header_size s) n) + k) \<le> unat (cd_buffer_size c)"
    using r c by (auto simp: tx_room_def)
  have un: "unat (ucast n :: u8) = unat n" using n(1) by (simp add: unat_ucast_mod)
  obtain a s1 h1 where g: "wps_get_free_slot n s = (Inr ?p, s1)" "io_tx_node s1 = Some a"
    and n1: "conn_nodes s1 = conn_nodes s" "a \<notin> set (conn_nodes s)"
    and w1: "xheap_wf {io_queue s, ?F} (io_heap s1)" "a \<notin> set (xq_items (io_heap s1) ?F)"
      "m \<le> length (xq_items (io_heap s1) ?F)" "free_xlayer_queue_type (xqueues (io_heap s1) ?F)"
      "\<forall>q. xq_cap (io_heap s1) q = xq_cap (io_heap s) q"
    and s1: "s1 = s\<lparr>io_heap := h1, io_tx_node := Some a, io_tx_data := Some (c\<lparr>cd_last_head := cd_head c,
        cd_head := cd_head c + ucast (slot_size (io_header_size s) n)\<rparr>)\<rparr>"
    by (rule get_free_slot_flat [OF r c]) (simp add: slot_payload_def)
  let ?s1 = "s1\<lparr>io_mem := mem\<rparr>"
  have wf: "xheap_wf {io_queue ?s1, ?F} (io_heap ?s1)" "?F \<noteq> io_queue ?s1"
    "a \<notin> set (conn_nodes ?s1)" "a \<notin> set (xq_items (io_heap ?s1) ?F)"
    "length (conn_nodes ?s1) < xq_cap (io_heap ?s1) (io_queue ?s1)"
    using w1 s1 QF n1 room by (auto simp: conn_nodes_def)
  have nf: "\<not> io_queue_full ?s1" using queue_full_iff [of ?s1] wf(1,5) by (simp add: xheap_wf_def)
  obtain h where sn: "send_node a ?p (ucast n) False ?s1 = ?s1\<lparr>io_heap := h, io_tx_node := None\<rparr>"
    and e: "xheap_wf {io_queue ?s1, ?F} h" "xq_items h (io_queue ?s1) = conn_nodes ?s1 @ [a]"
    "xq_items h ?F = xq_items (io_heap ?s1) ?F" "\<forall>q. xq_cap h q = xq_cap (io_heap ?s1) q"
    "\<forall>q. free_xlayer_queue_type (xqueues h q) = free_xlayer_queue_type (xqueues (io_heap ?s1) q)"
    by (rule send_node_ok [OF wf])
  have snd: "wps_send ?p (ucast n) ?s1 = (WPS_NO_ERROR, ?s1\<lparr>io_heap := h, io_tx_node := None\<rparr>)"
    using nf n un g(2) sn s1 by (auto simp: wps_send_def word_less_nat_alt)
  have hd: "unat (cd_head c + ucast (slot_size (io_header_size s) n)) = unat (cd_head c) + unat (slot_size (io_header_size s) n)"
    using unat_add_le [of "cd_head c" "ucast (slot_size (io_header_size s) n)" "cd_buffer_size c"] fl(2)
      unat_u8_u16 [of "slot_size (io_header_size s) n"] by simp
  have "cd_tail c \<le> cd_head c + ucast (slot_size (io_header_size s) n)"
    using fl(1) hd by (simp add: word_le_nat_alt)
  then have "tx_room (?s1\<lparr>io_heap := h, io_tx_node := None\<rparr>) m k"
    using e w1 s1 n1 room QF fl hd by (simp add: tx_room_def conn_nodes_def)
  then show ?thesis using g(1) snd s1 by (auto simp: cd_advance_def)
qed

text \<open>
  C40. Consecutive slots: after a slot for \<open>n\<close> payload bytes is taken and sent, the next slot for \<open>n\<close>
  bytes starts \<open>header + n + 2\<close> bytes later, modulo 256. The two payloads are disjoint when the slot
  fits in 255 bytes and overlap otherwise, whatever the application writes.
\<close>

theorem wps_slots_disjoint_iff:
  assumes "tx_room s 2 (2 * ((unat (io_header_size s) + unat n + 2) mod 256))"
    and "unat n < 256" "io_payload_size s = 0 \<or> unat n \<le> unat (io_payload_size s)" "unat (io_header_size s) < 254"
  shows "\<exists>p q s1 s2 s3. wps_get_free_slot n s = (Inr p, s1) \<and>
    wps_send p (ucast n) (s1\<lparr>io_mem := mem\<rparr>) = (WPS_NO_ERROR, s2) \<and> wps_get_free_slot n s2 = (Inr q, s3) \<and>
    q = p + (unat (io_header_size s) + unat n + 2) mod 256 \<and>
    (p + unat n \<le> q \<longleftrightarrow> unat (io_header_size s) + unat n + 2 < 256)"
proof -
  let ?hs = "io_header_size s"
  let ?z = "slot_size ?hs n"
  obtain c where c: "io_tx_data s = Some c" using assms(1) by (auto simp: tx_room_def split: option.splits)
  have r: "tx_room s (Suc 1) (unat ?z + unat ?z)" using assms(1) by (simp add: unat_slot_size mult_2 numeral_2_eq_2)
  obtain s1 s2 where s: "wps_get_free_slot n s = (Inr (slot_payload c ?hs), s1)"
    "wps_send (slot_payload c ?hs) (ucast n) (s1\<lparr>io_mem := mem\<rparr>) = (WPS_NO_ERROR, s2)" "tx_room s2 1 (unat ?z)"
    "io_header_size s2 = ?hs" "io_tx_data s2 = Some (cd_advance c (ucast ?z))"
    using get_free_slot_next [OF r c assms(2,3), of mem] by auto
  have r2: "tx_room s2 (Suc 0) (unat (slot_size (io_header_size s2) n) + 0)" using s(3,4) by simp
  obtain s3 where s3: "wps_get_free_slot n s2 = (Inr (slot_payload (cd_advance c (ucast ?z)) ?hs), s3)"
    by (rule get_free_slot_flat [OF r2 s(5)]) (simp add: slot_payload_def s(4))
  have fl: "unat (cd_head c) + unat ?z \<le> unat (cd_buffer_size c)" using r c by (simp add: tx_room_def)
  have "unat (cd_head c + ucast ?z) = unat (cd_head c) + unat ?z"
    using unat_add_le [of "cd_head c" "ucast ?z" "cd_buffer_size c"] fl unat_u8_u16 [of ?z] by simp
  then have q: "slot_payload (cd_advance c (ucast ?z)) ?hs = slot_payload c ?hs + (unat ?hs + unat n + 2) mod 256"
    by (simp add: slot_payload_def cd_advance_def unat_slot_size)
  have "unat n \<le> (unat ?hs + unat n + 2) mod 256 \<longleftrightarrow> unat ?hs + unat n + 2 < 256"
  proof (cases "unat ?hs + unat n + 2 < 256")
    case False
    then have "(unat ?hs + unat n + 2) mod 256 = unat ?hs + unat n + 2 - 256"
      using assms(2,4) by (simp add: mod_if)
    with False assms(4) show ?thesis by simp
  qed simp
  then have "slot_payload c ?hs + unat n \<le> slot_payload c ?hs + (unat ?hs + unat n + 2) mod 256 \<longleftrightarrow>
      unat ?hs + unat n + 2 < 256" by (simp only: nat_add_left_cancel_le)
  then show ?thesis by (intro exI conjI) (rule s(1), rule s(2), rule s3 [unfolded q], rule refl)
qed

theorem wps_slots_disjoint_iff_witness:
  "\<exists>p s1 s2 s3. wps_get_free_slot 251 ((fc_io (frag_demo 4))\<lparr>io_payload_size := 251\<rparr>) = (Inr p, s1) \<and>
    wps_send p 251 s1 = (WPS_NO_ERROR, s2) \<and> fst (wps_get_free_slot 251 s2) = Inr p"
proof -
  let ?s = "(fc_io (frag_demo 4))\<lparr>io_payload_size := 251\<rparr>"
  have h: "io_header_size ?s = 3" by (simp add: frag_demo_def)
  have "tx_room (fc_io (frag_demo 4)) 2 0" by (rule tx_ready_room) (rule demo_ready; simp)
  then have r: "tx_room ?s 2 0" by (simp add: tx_room_def conn_nodes_def)
  have "\<exists>p q s1 s2 s3. wps_get_free_slot 251 ?s = (Inr p, s1) \<and>
    wps_send p (ucast (251 :: u16)) (s1\<lparr>io_mem := io_mem ?s\<rparr>) = (WPS_NO_ERROR, s2) \<and> wps_get_free_slot 251 s2 = (Inr q, s3) \<and>
    q = p + (unat (io_header_size ?s) + unat (251 :: u16) + 2) mod 256 \<and>
    (p + unat (251 :: u16) \<le> q \<longleftrightarrow> unat (io_header_size ?s) + unat (251 :: u16) + 2 < 256)"
    by (rule wps_slots_disjoint_iff) (use r h in simp_all)
  then obtain p q s1 s2 s3 where g: "wps_get_free_slot 251 ?s = (Inr p, s1)"
    "wps_send p (ucast (251 :: u16)) (s1\<lparr>io_mem := io_mem ?s\<rparr>) = (WPS_NO_ERROR, s2)"
    "wps_get_free_slot 251 s2 = (Inr q, s3)" "q = p + (unat (io_header_size ?s) + unat (251 :: u16) + 2) mod 256" by blast
  have "io_mem (snd (wps_get_free_slot 251 ?s)) = io_mem ?s"
    by (simp add: wps_get_free_slot_def take_tx_node_def allocate_slot_def upd_io_frame_def Let_def
        split: prod.splits option.splits)
  then have "s1\<lparr>io_mem := io_mem ?s\<rparr> = s1" using g(1) by (cases s1) simp
  then show ?thesis using g h by (intro exI [of _ p] exI [of _ s1] exI [of _ s2] exI [of _ s3]) simp
qed

end
