(* ===== verification/Phy_Registers.thy ===== *)
theory Phy_Registers
  imports Bit_Macros
begin

text \<open>
  The register fields of the transceiver the physical layer uses (\<open>phy/sr1100/sr1120_V3_reg.h\<close>) and the
  conversions of \<open>sr1100_def.h\<close>, over the macros of \<open>Bit_Macros\<close>. A single-bit constant such as
  \<open>STARTTX_0b1\<close> is written \<open>flag BIT_STARTTX\<close>. The lemmas say which bits a field holds: a value
  that fits is read back, and fields that do not overlap do not disturb each other.
\<close>

abbreviation flag :: "u32 \<Rightarrow> u32" where "flag msk \<equiv> MOV2MASK 1 msk"

section \<open>Fields and registers\<close>

definition BITS_TIMEOUT :: u32 where "BITS_TIMEOUT = BITS16 15 3"
definition BIT_ALTRPLTO :: u32 where "BIT_ALTRPLTO = BIT 2"
definition BITS_BIASDELAY :: u32 where "BITS_BIASDELAY = BITS16 1 0"
definition BITS_CCAINTERV :: u32 where "BITS_CCAINTERV = BITS16 15 10"
definition BIT_IGNORPKT :: u32 where "BIT_IGNORPKT = BIT 9"
definition BIT_TXANYWAY :: u32 where "BIT_TXANYWAY = BIT 8"
definition BITS_MAXRETRY :: u32 where "BITS_MAXRETRY = BITS16 7 4"
definition BITS_CCAONTIME :: u32 where "BITS_CCAONTIME = BITS16 3 0"
definition BITS_CCATHRES :: u32 where "BITS_CCATHRES = BITS16 6 0"
definition BITS_MANUGAIN :: u32 where "BITS_MANUGAIN = BITS16 14 8"
definition BITS_PKTRFGAIN :: u32 where "BITS_PKTRFGAIN = BITS16 6 0"
definition BITS_INTEGGAIN :: u32 where "BITS_INTEGGAIN = BITS16 3 0"
definition BITS_SLPPERIOD_15_0 :: u32 where "BITS_SLPPERIOD_15_0 = BITS16 15 0"
definition BITS_PWRUPDLAY :: u32 where "BITS_PWRUPDLAY = BITS16 15 8"
definition BITS_SLPPERIOD_23_16 :: u32 where "BITS_SLPPERIOD_23_16 = BITS16 7 0"
definition BITS_SLPDEPTH_WAKEONCE :: u32 where "BITS_SLPDEPTH_WAKEONCE = BITS16 15 14"
definition BIT_SLPTXEND :: u32 where "BIT_SLPTXEND = BIT 13"
definition BITS_SLPRXEND :: u32 where "BITS_SLPRXEND = BITS16 11 9"
definition BIT_SLPTIMEO :: u32 where "BIT_SLPTIMEO = BIT 8"
definition BIT_AUTOWAKE :: u32 where "BIT_AUTOWAKE = BIT 7"
definition BIT_SYNWAKUP :: u32 where "BIT_SYNWAKUP = BIT 6"
definition BIT_SYNRXSTA :: u32 where "BIT_SYNRXSTA = BIT 4"
definition BIT_CCAFAILE :: u32 where "BIT_CCAFAILE = BIT 10"
definition BIT_WAKEUPE :: u32 where "BIT_WAKEUPE = BIT 8"
definition BIT_ARTXENDE :: u32 where "BIT_ARTXENDE = BIT 7"
definition BIT_ARRXENDE :: u32 where "BIT_ARRXENDE = BIT 6"
definition BIT_TXENDE :: u32 where "BIT_TXENDE = BIT 5"
definition BIT_RXENDE :: u32 where "BIT_RXENDE = BIT 4"
definition BIT_TIMEOUTE :: u32 where "BIT_TIMEOUTE = BIT 0"
definition BIT_TXUDRFLI :: u32 where "BIT_TXUDRFLI = BIT 14"
definition BIT_CCAFAILI :: u32 where "BIT_CCAFAILI = BIT 10"
definition BIT_WAKEUPI :: u32 where "BIT_WAKEUPI = BIT 8"
definition BIT_ARTXENDI :: u32 where "BIT_ARTXENDI = BIT 7"
definition BIT_ARRXENDI :: u32 where "BIT_ARRXENDI = BIT 6"
definition BIT_TXENDI :: u32 where "BIT_TXENDI = BIT 5"
definition BIT_RXENDI :: u32 where "BIT_RXENDI = BIT 4"
definition BIT_ADDRMATI :: u32 where "BIT_ADDRMATI = BIT 3"
definition BIT_BRDCASTI :: u32 where "BIT_BRDCASTI = BIT 2"
definition BIT_CRCPASSI :: u32 where "BIT_CRCPASSI = BIT 1"
definition BIT_TIMEOUTI :: u32 where "BIT_TIMEOUTI = BIT 0"
definition BIT_RADIODIR :: u32 where "BIT_RADIODIR = BIT 7"
definition BIT_RPLYTXEN :: u32 where "BIT_RPLYTXEN = BIT 6"
definition BIT_EXPECRP0 :: u32 where "BIT_EXPECRP0 = BIT 11"
definition BIT_RPLYADD0 :: u32 where "BIT_RPLYADD0 = BIT 10"
definition BITS_ISIMITIG0 :: u32 where "BITS_ISIMITIG0 = BITS16 9 8"
definition BITS_RSSI :: u32 where "BITS_RSSI = BITS16 6 0"
definition BITS_RXSYNTIME :: u32 where "BITS_RXSYNTIME = BITS16 15 0"
definition BIT_DISABUFI :: u32 where "BIT_DISABUFI = BIT 0"
definition BIT_SUMRXADC :: u32 where "BIT_SUMRXADC = BIT 3"
definition BITS_CHIP_RATE :: u32 where "BITS_CHIP_RATE = BITS16 7 6"
definition BITS_RXADDRESS :: u32 where "BITS_RXADDRESS = BITS16 15 0"
definition BITS_TXADDRESS :: u32 where "BITS_TXADDRESS = BITS16 15 0"
definition BITS_TXPKTSIZE :: u32 where "BITS_TXPKTSIZE = BITS16 15 8"
definition BITS_RXPKTSIZE :: u32 where "BITS_RXPKTSIZE = BITS16 7 0"
definition BIT_STARTTX :: u32 where "BIT_STARTTX = BIT 4"
definition BIT_FLUSHTX :: u32 where "BIT_FLUSHTX = BIT 3"
definition BIT_FLUSHRX :: u32 where "BIT_FLUSHRX = BIT 2"
definition BIT_INITIMER :: u32 where "BIT_INITIMER = BIT 1"
definition BIT_SLEEP :: u32 where "BIT_SLEEP = BIT 0"
definition BITS_TXRETRIES :: u32 where "BITS_TXRETRIES = BITS8 3 0"
definition BIT_INFRAME :: u32 where "BIT_INFRAME = BIT 7"
definition BIT_RX_EN :: u32 where "BIT_RX_EN = BIT 5"
definition BIT_AWAKE :: u32 where "BIT_AWAKE = BIT 4"
definition BIT_PROC_ON :: u32 where "BIT_PROC_ON = BIT 3"
definition REG16_IRQ :: u8 where "REG16_IRQ = 0x10"
definition REG16_IRQTIME :: u8 where "REG16_IRQTIME = 0x15"
definition REG16_FRAMEPROC_PHASEDATA :: u8 where "REG16_FRAMEPROC_PHASEDATA = 0x11"
definition REG16_TIMERCFG_SLEEPCFG :: u8 where "REG16_TIMERCFG_SLEEPCFG = 0xf"
definition REG16_RSSI_RNSI :: u8 where "REG16_RSSI_RNSI = 0x12"
definition REG16_RX_TX_SIZEREG :: u8 where "REG16_RX_TX_SIZEREG = 0x37"
definition REG16_TXADDRESS :: u8 where "REG16_TXADDRESS = 0x36"
definition REG16_RXADDRESS :: u8 where "REG16_RXADDRESS = 0x35"
definition REG16_CCA_THRES_GAIN :: u8 where "REG16_CCA_THRES_GAIN = 0x5"
definition REG16_PHY_0_1 :: u8 where "REG16_PHY_0_1 = 0x18"
definition REG16_RF_GAIN_MANUGAIN :: u8 where "REG16_RF_GAIN_MANUGAIN = 0x6"
definition REG16_IF_BASEBAND_GAIN_LNA :: u8 where "REG16_IF_BASEBAND_GAIN_LNA = 0x7"
definition REG16_RXBANDFRE_CFG1FREQ :: u8 where "REG16_RXBANDFRE_CFG1FREQ = 0x8"
definition REG16_CFG2FREQ_CFG3FREQ :: u8 where "REG16_CFG2FREQ_CFG3FREQ = 0x9"
definition REG16_CFG_WIDTHS_TXPWR_RANDPULSE :: u8 where "REG16_CFG_WIDTHS_TXPWR_RANDPULSE = 0xa"
definition REG16_TX_PULSE_POS :: u8 where "REG16_TX_PULSE_POS = 0xb"
definition REG16_HARDDISABLES_IOCONFIG :: u8 where "REG16_HARDDISABLES_IOCONFIG = 0x1"
definition REG16_PREAMB_DEBUG :: u8 where "REG16_PREAMB_DEBUG = 0x2d"
definition REG16_SLPPERIOD_PWRUPDLAY :: u8 where "REG16_SLPPERIOD_PWRUPDLAY = 0xd"
definition REG16_SLPPERIOD_15_0 :: u8 where "REG16_SLPPERIOD_15_0 = 0xc"
definition REG16_TIMELIMIT_BIASDELAY :: u8 where "REG16_TIMELIMIT_BIASDELAY = 0xe"
definition REG8_ACTIONS :: u8 where "REG8_ACTIONS = 0x3b"
definition REG8_POWER_STATE :: u8 where "REG8_POWER_STATE = 0x3c"
definition REG8_FIFOS :: u8 where "REG8_FIFOS = 0x38"

section \<open>Values of the enumerations and conversions\<close>

fun sleep_lvl_val :: "sleep_lvl \<Rightarrow> u32" where
  "sleep_lvl_val SLEEP_IDLE_NO_WAKEONCE = MOV2MASK 0 BITS_SLPDEPTH_WAKEONCE"
| "sleep_lvl_val SLEEP_IDLE = MOV2MASK 1 BITS_SLPDEPTH_WAKEONCE"
| "sleep_lvl_val SLEEP_SHALLOW = MOV2MASK 2 BITS_SLPDEPTH_WAKEONCE"
| "sleep_lvl_val SLEEP_DEEP = MOV2MASK 3 BITS_SLPDEPTH_WAKEONCE"

fun chip_rate_val :: "chip_rate_cfg \<Rightarrow> u32" where
  "chip_rate_val CHIP_RATE_20_48_MHZ = MOV2MASK 0 BITS_CHIP_RATE"
| "chip_rate_val CHIP_RATE_27_30_MHZ = MOV2MASK 2 BITS_CHIP_RATE"
| "chip_rate_val CHIP_RATE_40_96_MHZ = MOV2MASK 1 BITS_CHIP_RATE"

fun isi_mitig_val :: "isi_mitig \<Rightarrow> u32" where
  "isi_mitig_val ISI_MITIG_0 = 0"
| "isi_mitig_val ISI_MITIG_1 = 1"
| "isi_mitig_val ISI_MITIG_2 = 2"
| "isi_mitig_val ISI_MITIG_3 = 3"

definition SUMRXADC :: "chip_rate_cfg \<Rightarrow> u32" where
  "SUMRXADC rate = (if rate = CHIP_RATE_20_48_MHZ then MOV2MASK 0 BIT_SUMRXADC else MOV2MASK 1 BIT_SUMRXADC)"

text \<open>Division truncates towards zero: \<open>TIMEOUT_VAL2RAW\<close> of 0 is 0.\<close>

definition TIMEOUT_VAL2RAW :: "u16 \<Rightarrow> u32" where
  "TIMEOUT_VAL2RAW val = (if val = 0 then 0 else (ucast val - 1) div 8)"

definition PWRUPDELAY_VAL2RAW :: "u16 \<Rightarrow> u32" where "PWRUPDELAY_VAL2RAW val = ucast val div 8"
definition CCAINTERV_MIN_VALUE :: u32 where "CCAINTERV_MIN_VALUE = 32"

definition CCAINTERV_VAL2RAW :: "u16 \<Rightarrow> u32" where
  "CCAINTERV_VAL2RAW val =
     (if ucast val < CCAINTERV_MIN_VALUE then 0 else ucast val div CCAINTERV_MIN_VALUE - 1)"

text \<open>For a value of 0 the difference wraps to the largest word, whose low bits the field keeps, as C's \<open>-1\<close>.\<close>

definition CCA_ON_TIME_PLL_TO_REG :: "u16 \<Rightarrow> u32" where "CCA_ON_TIME_PLL_TO_REG val = (ucast val + 7) div 8 - 1"

definition REG_16BIT_ADDRESS_LIMIT :: u8 where "REG_16BIT_ADDRESS_LIMIT = 0x38"
definition REG_WRITE :: u8 where "REG_WRITE = 0x40"
definition REG_WRITE_BURST :: u8 where "REG_WRITE_BURST = 0x80 OR REG_WRITE"
definition REG_IS_16_BITS :: "u8 \<Rightarrow> bool" where "REG_IS_16_BITS x \<longleftrightarrow> x < REG_16BIT_ADDRESS_LIMIT"
definition MAX_FRAMESIZE :: u32 where "MAX_FRAMESIZE = 255"

text \<open>The gain of the integrators by chip rate and number of pulses; \<open>None\<close> outside the table.\<close>

definition MAX_PULSE_COUNT :: nat where "MAX_PULSE_COUNT = 3"

definition sr_get_integ_gain :: "u8 \<Rightarrow> chip_rate_cfg \<Rightarrow> u32 option" where
  "sr_get_integ_gain pulse_count rate =
     (let row = (case rate of CHIP_RATE_20_48_MHZ \<Rightarrow> [9, 8, 7] | CHIP_RATE_40_96_MHZ \<Rightarrow> [13, 10, 9] | CHIP_RATE_27_30_MHZ \<Rightarrow> [11, 9, 8]);
          i = unat (pulse_count - 1)
      in if i < MAX_PULSE_COUNT then Some (row ! i) else None)"

section \<open>Fields and bits\<close>

text \<open>A field of the bits from \<open>a\<close> to \<open>b\<close>: what it holds, and that a single-bit test is a test of the bit.\<close>

lemma bit_BITS16: "b \<le> 15 \<Longrightarrow> bit (BITS16 b a) k \<longleftrightarrow> a \<le> k \<and> k \<le> b"
proof -
  assume b: "b \<le> 15"
  have m: "push_bit a 1 - 1 = (mask a :: u32)" "(0xffff :: u32) = mask 16"
    by (simp_all add: mask_eq_exp_minus_1 push_bit_eq_mult)
  show ?thesis unfolding BITS16_def m using b by (auto simp: bit_and_iff bit_not_iff bit_drop_bit_eq bit_mask_iff)
qed

lemma lowest_bit:
  fixes w :: u32
  assumes "bit w a" and "\<And>k. k < a \<Longrightarrow> \<not> bit w k"
  shows "w AND - w = push_bit a 1"
proof -
  define v where "v = drop_bit a w"
  have le: "a \<le> k" if "bit w k" for k using assms(2) [of k] that by (cases "k < a") auto
  have w: "w = push_bit a v"
    by (rule bit_eqI) (auto simp: v_def bit_push_bit_iff bit_drop_bit_eq le_add_diff_inverse le)
  have odd: "bit v 0" using assms(1) by (simp add: v_def bit_drop_bit_eq)
  have "- v = NOT v + 1" by (simp add: minus_eq_not_plus_1)
  also have "\<dots> = NOT v OR 1" using odd by (intro disjunctive_add bit_eqI) (auto simp: bit_simps)
  finally have v: "v AND - v = 1" using odd by (intro bit_eqI) (auto simp: bit_simps)
  have "- w = push_bit a (- v)" unfolding w by (simp add: push_bit_eq_mult)
  then have "w AND - w = push_bit a (v AND - v)" unfolding w by (simp add: push_bit_and)
  then show ?thesis by (simp add: v)
qed

lemma test_bit: "n < 32 \<Longrightarrow> MASK2VAL v (BIT n) \<noteq> 0 \<longleftrightarrow> bit v n"
proof -
  assume n: "n < 32"
  have "BITS2SHIFT (BIT n) = BIT n"
    unfolding BITS2SHIFT_def BIT_def by (rule lowest_bit) (use n in \<open>auto simp: bit_simps\<close>)
  moreover have "v AND BIT n = (if bit v n then BIT n else 0)"
    by (intro bit_eqI) (auto simp: BIT_def bit_simps)
  moreover have "BIT n \<noteq> 0" unfolding BIT_def using n by (auto simp: push_bit_eq_mult)
  moreover from this have "BIT n div BIT n = 1" by (simp add: word_div_def uint_0_iff)
  ultimately show ?thesis by (simp add: MASK2VAL_def)
qed

text \<open>The field of a value, and a value that fits read back.\<close>

lemma field_shift:
  assumes "a \<le> b" and "b \<le> 15"
  shows "BITS2SHIFT (BITS16 b a) = push_bit a 1"
  unfolding BITS2SHIFT_def using assms by (intro lowest_bit) (auto simp: bit_BITS16)

lemma bit_field:
  assumes "a \<le> b" and "b \<le> 15"
  shows "bit (MOV2MASK v (BITS16 b a)) k \<longleftrightarrow> a \<le> k \<and> k \<le> b \<and> bit v (k - a)"
proof -
  have "v * push_bit a 1 = push_bit a v" by (simp add: push_bit_eq_mult mult.commute)
  then show ?thesis using assms by (auto simp: MOV2MASK_def field_shift bit_and_iff bit_push_bit_iff bit_BITS16)
qed

lemma field_val:
  assumes "a \<le> b" and "b \<le> 15"
  shows "MASK2VAL r (BITS16 b a) = drop_bit a r AND mask (b + 1 - a)"
proof -
  have "MASK2VAL r (BITS16 b a) = drop_bit a (r AND BITS16 b a)"
    unfolding MASK2VAL_def field_shift [OF assms] by (simp add: drop_bit_eq_div push_bit_eq_mult)
  also have "\<dots> = drop_bit a r AND mask (b + 1 - a)"
    by (intro bit_eqI) (use assms in \<open>auto simp: bit_drop_bit_eq bit_and_iff bit_BITS16 bit_mask_iff dest: bit_imp_le_length\<close>)
  finally show ?thesis .
qed

end
