(* ===== verification/Tdma_Exact.thy ===== *)
theory Tdma_Exact
  imports Tdma_Sync Phy_Registers
begin

text \<open>
  What the register values of TDMA synchronisation mean in time. The radio as \<open>link_tdma_sync.h\<close> and
  \<open>sr1120_V3_reg.h\<close> describe it: a wake-up period is the register value plus one cycles of the timer's
  clock, the chip rate at level idle and the crystal at the other levels, whose timer starts at the first
  falling edge after a reset; waking from deep sleep takes 97 crystal cycles; the transceiver starts a
  power-up delay after the wake-up, eight chip cycles for each unit of its register field.
  \<open>sync_update_value\<close> gives the time between two wake-ups for every chip rate, with what is lost to
  whole chip cycles.
\<close>

section \<open>The radio's clocks\<close>

text \<open>Times are in half cycles of the 40.96 MHz base, so that a chip of every rate and a crystal cycle are integers.\<close>

fun chip_unit :: "chip_rate_cfg \<Rightarrow> int" where
  "chip_unit CHIP_RATE_20_48_MHZ = 4"
| "chip_unit CHIP_RATE_27_30_MHZ = 3"
| "chip_unit CHIP_RATE_40_96_MHZ = 2"

text \<open>The time between two wake-ups, when the timer of the crystal was last reset at the recorded phase.\<close>

definition wake_interval :: "tdma_sync \<Rightarrow> tdma_sync \<Rightarrow> int" where
  "wake_interval t t' =
     (let prev = td_sleep_mode t; mode = td_sleep_mode t'; off = uint (xtal_cycle_offset t)
      in if mode = SLEEP_IDLE then (uint (sleep_cycles_value t') + 1) * chip_unit (td_chip_rate t')
         else (uint (sleep_cycles_value t') + 1) * 2500 +
              (if prev \<noteq> SLEEP_DEEP \<and> mode = SLEEP_DEEP then 97 * 2500 else 0) -
              (if prev = SLEEP_DEEP \<and> mode = SLEEP_SHALLOW then 97 * 2500 else 0) +
              (if prev = SLEEP_IDLE then 2 * (1250 - off) + (if off \<ge> 625 then 2500 else 0) else 0))"

text \<open>The field of the power-up delay as the physical layer writes it, and the delay it makes.\<close>

definition power_up_register :: "tdma_sync \<Rightarrow> u32" where
  "power_up_register t = MASK2VAL (MOV2MASK (PWRUPDELAY_VAL2RAW (link_tdma_sync_get_pwr_up t)) BITS_PWRUPDLAY) BITS_PWRUPDLAY"

definition power_up_time :: "tdma_sync \<Rightarrow> int" where
  "power_up_time t = 8 * uint (power_up_register t) * chip_unit (td_chip_rate t)"

text \<open>The time between two starts of the transceiver.\<close>

definition start_interval :: "tdma_sync \<Rightarrow> tdma_sync \<Rightarrow> int" where
  "start_interval t t' = wake_interval t t' + power_up_time t' - power_up_time t"

section \<open>Durations the code can serve\<close>

text \<open>The time the slave offset adds, and the shortest duration, in cycles of the base.\<close>

definition slave_correction :: "tdma_sync \<Rightarrow> int" where
  "slave_correction t = (if sync_slave_offset t = 0 then 0
     else convert_pll_cycle_base (sint (sync_slave_offset t)) (sync_slave_offset_chip_rate t) TDMA_BASE_PHY_RATE)"

definition shortest_duration :: "sleep_lvl \<Rightarrow> sleep_lvl \<Rightarrow> int" where
  "shortest_duration prev mode =
     (if mode = SLEEP_IDLE then 102 else 1250) + (if prev = SLEEP_IDLE \<and> mode \<noteq> SLEEP_IDLE then 2500 else 0) +
     (if prev \<noteq> SLEEP_DEEP \<and> mode = SLEEP_DEEP then 97 * 1250 else 0)"

definition tdma_wf :: "tdma_sync \<Rightarrow> bool" where
  "tdma_wf t \<longleftrightarrow> td_sleep_mode t \<noteq> SLEEP_IDLE_NO_WAKEONCE \<and>
     uint (pwr_up_delay_pll_cycles t) < 1250 \<and> uint (xtal_cycle_offset t) < 1250 \<and>
     uint (pwr_up_value t) = 2 * uint (pwr_up_delay_pll_cycles t) div chip_unit (td_chip_rate t)"

definition update_fits :: "tdma_sync \<Rightarrow> u32 \<Rightarrow> sleep_lvl \<Rightarrow> bool" where
  "update_fits t d mode \<longleftrightarrow> mode \<noteq> SLEEP_IDLE_NO_WAKEONCE \<and>
     shortest_duration (td_sleep_mode t) mode \<le> uint d + slave_correction t \<and> uint d + slave_correction t < 2 ^ 31"

text \<open>Whole cycles of the chip rate, and the states in which nothing is lost to them.\<close>

definition whole_chips :: "chip_rate_cfg \<Rightarrow> int \<Rightarrow> bool" where
  "whole_chips rate x \<longleftrightarrow> chip_unit rate dvd 2 * x"

definition tdma_exact :: "tdma_sync \<Rightarrow> bool" where
  "tdma_exact t \<longleftrightarrow> td_chip_rate t \<noteq> CHIP_RATE_27_30_MHZ \<and>
     whole_chips (td_chip_rate t) (uint (pwr_up_delay_pll_cycles t)) \<and> whole_chips (td_chip_rate t) (uint (xtal_cycle_offset t))"

section \<open>Words\<close>

lemma uint_add_lt: "uint x + uint y < 2 ^ LENGTH('a) \<Longrightarrow> uint (x + y) = uint x + uint (y :: 'a::len word)"
  by (simp only: uint_add_lem)

lemma uint_sub_le: "uint y \<le> uint x \<Longrightarrow> uint (x - y) = uint x - uint (y :: 'a::len word)"
  by (simp only: uint_sub_lem)

lemma uint_ucast_up: "LENGTH('a) \<le> LENGTH('b) \<Longrightarrow> uint (ucast (x :: 'a::len word) :: 'b::len word) = uint x"
  by (simp add: uint_up_ucast is_up)

lemma uint_add_word_of_int:
  "0 \<le> uint d + k \<Longrightarrow> uint d + k < 2 ^ LENGTH('a) \<Longrightarrow> uint (d + word_of_int k :: 'a::len word) = uint d + k"
proof -
  assume a: "0 \<le> uint d + k" "uint d + k < 2 ^ LENGTH('a)"
  have "d + word_of_int k = word_of_int (uint d + k)" by simp
  then show ?thesis by (simp only: uint_word_of_int_lt [OF a])
qed

lemma uint_u16_bound: "uint (x :: u16) < 65536"
  using uint_lt2p [of x] by simp

lemma sync_duration_value:
  assumes "0 \<le> uint d + slave_correction t" "uint d + slave_correction t < 2 ^ 31"
  shows "uint (sync_duration d mode t) = uint d + slave_correction t +
    (if mode = SLEEP_IDLE then uint (pwr_up_delay_pll_cycles t) else 0)"
proof -
  let ?d1 = "if sync_slave_offset t \<noteq> 0 then d + word_of_int (convert_pll_cycle_base (sint (sync_slave_offset t))
      (sync_slave_offset_chip_rate t) TDMA_BASE_PHY_RATE) else d"
  have d1: "uint ?d1 = uint d + slave_correction t"
    using assms by (auto simp: slave_correction_def uint_add_word_of_int)
  have p: "uint (ucast (pwr_up_delay_pll_cycles t) :: u32) = uint (pwr_up_delay_pll_cycles t)" by (rule uint_ucast_up) simp
  have "uint (?d1 + ucast (pwr_up_delay_pll_cycles t)) = uint ?d1 + uint (pwr_up_delay_pll_cycles t)"
    using d1 p assms(2) uint_u16_bound [of "pwr_up_delay_pll_cycles t"] by (subst uint_add_lt) simp_all
  then show ?thesis using d1 by (simp add: sync_duration_def Let_def)
qed

section \<open>Changes of the sleep level\<close>

text \<open>The corrections of a transition are those of the interval between the wake-ups.\<close>

definition transition_part :: "sleep_lvl \<Rightarrow> sleep_lvl \<Rightarrow> int \<Rightarrow> int" where
  "transition_part prev mode off =
     (if prev \<noteq> SLEEP_DEEP \<and> mode = SLEEP_DEEP then 97 * 1250 else 0) -
     (if prev = SLEEP_DEEP \<and> mode = SLEEP_SHALLOW then 97 * 1250 else 0) +
     (if prev = SLEEP_IDLE \<and> mode \<noteq> SLEEP_IDLE then (1250 - off) + (if off \<ge> 625 then 1250 else 0) else 0)"

lemma double_to_u32_Some: "0 \<le> x \<Longrightarrow> x < 2 ^ 32 \<Longrightarrow> \<exists>w. double_to_u32 x = Some w \<and> uint w = x"
  by (simp add: double_to_u32_def uint_word_of_int_lt)

lemma deep_shallow_value:
  assumes "prev \<noteq> SLEEP_DEEP \<and> mode = SLEEP_DEEP \<longrightarrow> 121250 \<le> uint d" "uint d < 2 ^ 31 + 2 ^ 16"
  shows "uint (let d1 = (if prev \<noteq> SLEEP_DEEP \<and> mode = SLEEP_DEEP then d - 121250 else d)
      in if prev = SLEEP_DEEP \<and> mode = SLEEP_SHALLOW then d1 + 121250 else d1 :: u32) =
    uint d - (if prev \<noteq> SLEEP_DEEP \<and> mode = SLEEP_DEEP then 121250 else 0) +
      (if prev = SLEEP_DEEP \<and> mode = SLEEP_SHALLOW then 121250 else 0)"
proof -
  have u: "uint (121250 :: u32) = 121250" by simp
  show ?thesis using assms u by (auto simp: Let_def uint_sub_le uint_add_lt simp del: uint_numeral)
qed

lemma sync_transition_value:
  assumes off: "uint off < 1250" and nm: "prev \<noteq> SLEEP_IDLE_NO_WAKEONCE" "mode \<noteq> SLEEP_IDLE_NO_WAKEONCE"
    and d: "shortest_duration prev mode \<le> uint d" "uint d < 2 ^ 31 + 2 ^ 16"
  shows "\<exists>d'. sync_transition d prev mode off = Some d' \<and> uint d' = uint d - transition_part prev mode (uint off)"
proof -
  define D where "D = (let d1 = (if prev \<noteq> SLEEP_DEEP \<and> mode = SLEEP_DEEP then d - 121250 else d)
      in if prev = SLEEP_DEEP \<and> mode = SLEEP_SHALLOW then d1 + 121250 else d1)"
  have v: "uint D = uint d - (if prev \<noteq> SLEEP_DEEP \<and> mode = SLEEP_DEEP then 121250 else 0) +
      (if prev = SLEEP_DEEP \<and> mode = SLEEP_SHALLOW then 121250 else 0)"
    unfolding D_def by (rule deep_shallow_value) (use d in \<open>auto simp: shortest_duration_def split: if_splits\<close>)
  have ge: "(XTAL_RESET_PLL_CYCLE \<le> off) = (625 \<le> uint off)"
    by (simp add: tdma_constants word_le_def)
  have st: "sync_transition d prev mode off =
      (if prev = SLEEP_IDLE \<and> mode \<noteq> SLEEP_IDLE
       then (case double_to_u32 (uint D - (1250 - uint off)) of None \<Rightarrow> None
             | Some d3 \<Rightarrow> if 625 \<le> uint off then double_to_u32 (uint d3 - 1250) else Some d3)
       else Some D)"
    unfolding sync_transition_def uint_startup D_def Let_def ge XTAL_TO_PLL_RATIO_BASE_def by simp
  show ?thesis
  proof (cases "prev = SLEEP_IDLE \<and> mode \<noteq> SLEEP_IDLE")
    case False
    then show ?thesis using v st by (auto simp: transition_part_def)
  next
    case True
    then have big: "2500 \<le> uint D" "uint D < 2 ^ 31 + 2 ^ 16"
      using v d unfolding shortest_duration_def by (auto split: if_splits)
    have "0 \<le> uint D - (1250 - uint off)" using big off uint_ge_0 [of off] by linarith
    moreover have "uint D - (1250 - uint off) < 2 ^ 32" using big off by simp
    ultimately have "0 \<le> uint D - (1250 - uint off) \<and> uint D - (1250 - uint off) < 2 ^ 32" ..
    from double_to_u32_Some [OF conjunct1 conjunct2, OF this this] obtain d3 where
      d3: "double_to_u32 (uint D - (1250 - uint off)) = Some d3" "uint d3 = uint D - (1250 - uint off)" by blast
    have "0 \<le> uint d3 - 1250" using d3(2) big off uint_ge_0 [of off] by linarith
    moreover have "uint d3 - 1250 < 2 ^ 32" using d3(2) big off by simp
    ultimately have "0 \<le> uint d3 - 1250 \<and> uint d3 - 1250 < 2 ^ 32" ..
    from double_to_u32_Some [OF conjunct1 conjunct2, OF this this] obtain d4 where
      d4: "double_to_u32 (uint d3 - 1250) = Some d4" "uint d4 = uint d3 - 1250" by blast
    show ?thesis using True d3 d4 v st by (auto simp: transition_part_def)
  qed
qed

lemma part_bounds:
  assumes "0 \<le> off" "off < 1250"
  shows "transition_part prev mode off \<le> shortest_duration prev mode - (if mode = SLEEP_IDLE then 102 else 1250)"
    "- 121250 \<le> transition_part prev mode off" "even off \<Longrightarrow> even (transition_part prev mode off)"
  using assms by (auto simp: transition_part_def shortest_duration_def)

section \<open>The register values\<close>

lemma chip_unit_bounds: "2 \<le> chip_unit r" "chip_unit r \<le> 4"
  by (cases r; simp)+

lemma sdiv_nonneg: "0 \<le> k \<Longrightarrow> 0 < m \<Longrightarrow> k sdiv m = k div (m :: int)"
  by (simp add: signed_divide_int_def sgn_if)

lemma convert_chips: "0 \<le> n \<Longrightarrow> convert_pll_cycle_base n TDMA_BASE_PHY_RATE rate = 2 * n div chip_unit rate"
  by (cases rate) (auto simp: TDMA_BASE_PHY_RATE_def sdiv_nonneg)

lemma chips_bounds: "0 \<le> x \<Longrightarrow> 2 * x div chip_unit r \<le> x" "0 \<le> x \<Longrightarrow> 0 \<le> 2 * x div chip_unit r"
proof -
  assume x: "0 \<le> x"
  have "2 * x div 3 \<le> x" "2 * x div 4 \<le> x" "0 \<le> 2 * x div 3" "0 \<le> 2 * x div 4" using x by linarith+
  then show "2 * x div chip_unit r \<le> x" "0 \<le> 2 * x div chip_unit r" using x by (cases r; simp)+
qed

lemma chips_time: "chip_unit r * (x div chip_unit r) = x - x mod chip_unit r"
  by (simp add: minus_mod_eq_mult_div)

lemma sync_sleep_crystal:
  assumes "td_sleep_mode t = SLEEP_SHALLOW \<or> td_sleep_mode t = SLEEP_DEEP"
    and "1250 \<le> uint d + uint (pwr_up_delay_pll_cycles t)" "uint d < 2 ^ 31 + 2 ^ 18"
  shows "uint (sleep_cycles_value (sync_sleep d t)) + 1 = (uint d + uint (pwr_up_delay_pll_cycles t)) div 1250"
    "uint (pwr_up_delay_pll_cycles (sync_sleep d t)) = (uint d + uint (pwr_up_delay_pll_cycles t)) mod 1250"
    "xtal_cycle_offset (sync_sleep d t) = xtal_cycle_offset t"
proof -
  let ?x = "uint d + uint (pwr_up_delay_pll_cycles t)"
  have p: "uint (ucast (pwr_up_delay_pll_cycles t) :: u32) = uint (pwr_up_delay_pll_cycles t)" by (rule uint_ucast_up) simp
  have x: "uint (d + ucast (pwr_up_delay_pll_cycles t)) = ?x"
    using assms(3) p uint_u16_bound [of "pwr_up_delay_pll_cycles t"] by (subst uint_add_lt) simp_all
  have q: "uint ((d + ucast (pwr_up_delay_pll_cycles t)) div 1250) = ?x div 1250"
    "uint ((d + ucast (pwr_up_delay_pll_cycles t)) mod 1250) = ?x mod 1250"
    unfolding x [symmetric] by (simp_all add: uint_div uint_mod)
  have "1 \<le> ?x div 1250" using assms(2) by (simp add: pos_imp_zdiv_pos_iff int_one_le_iff_zero_less)
  then have "uint ((d + ucast (pwr_up_delay_pll_cycles t)) div 1250 - 1) = ?x div 1250 - 1"
    using q(1) by (subst uint_sub_le) simp_all
  then show "uint (sleep_cycles_value (sync_sleep d t)) + 1 = ?x div 1250"
    using assms(1) by (auto simp: sync_sleep_def tdma_constants)
  have "?x mod 1250 < 65536" using pos_mod_bound [of 1250 ?x] by linarith
  then have "uint (ucast ((d + ucast (pwr_up_delay_pll_cycles t)) mod 1250) :: u16) = ?x mod 1250"
    using q(2) by (simp add: unsigned_ucast_eq take_bit_int_eq_self)
  then show "uint (pwr_up_delay_pll_cycles (sync_sleep d t)) = ?x mod 1250"
    using assms(1) by (auto simp: sync_sleep_def tdma_constants)
  show "xtal_cycle_offset (sync_sleep d t) = xtal_cycle_offset t" using assms(1) by (auto simp: sync_sleep_def)
qed

text \<open>The power-up delay of level idle: 100 cycles when the wake-up would be near the crystal's edge.\<close>

definition window_delay :: "int \<Rightarrow> int" where
  "window_delay phase = (if 600 \<le> phase mod 1250 \<and> phase mod 1250 \<le> 650 then 100 else 0)"

lemma sync_sleep_idle:
  assumes "td_sleep_mode t = SLEEP_IDLE" "102 \<le> uint d" "uint d < 2 ^ 31 + 2 ^ 18" "uint (xtal_cycle_offset t) < 1250"
  shows "uint (sleep_cycles_value (sync_sleep d t)) + 1 =
      2 * uint d div chip_unit (td_chip_rate t) -
      2 * window_delay (uint (xtal_cycle_offset t) + uint d) div chip_unit (td_chip_rate t)"
    "uint (pwr_up_delay_pll_cycles (sync_sleep d t)) = window_delay (uint (xtal_cycle_offset t) + uint d)"
    "uint (xtal_cycle_offset (sync_sleep d t)) =
      (uint (xtal_cycle_offset t) + uint d) mod 1250 - window_delay (uint (xtal_cycle_offset t) + uint d)"
proof -
  let ?r = "td_chip_rate t" and ?s = "uint (xtal_cycle_offset t) + uint d"
  let ?n = "2 * uint d div chip_unit ?r" and ?k = "200 div chip_unit ?r"
  have c: "convert_pll_cycle_base (uint d) TDMA_BASE_PHY_RATE ?r = ?n"
    "convert_pll_cycle_base (uint (100 :: u32)) TDMA_BASE_PHY_RATE ?r = ?k" by (simp_all add: convert_chips)
  have kn: "0 \<le> ?k" "?k \<le> ?n - 1" "51 \<le> ?n" using assms(2) by (cases ?r; simp)+
  have nb: "?n < 2 ^ 32" using assms(3) by (cases ?r) simp_all
  have cy: "uint (word_of_int (?n - uint SLPPERIOD_OFFSET) :: u32) = ?n - 1"
  proof -
    have e: "?n - uint SLPPERIOD_OFFSET = ?n - 1" by (simp add: tdma_constants)
    show ?thesis unfolding e by (rule uint_word_of_int_lt) (use kn nb in simp_all)
  qed
  have sm: "uint (xtal_cycle_offset t + d) = ?s" using assms(3,4) by (subst uint_add_lt) simp_all
  have ph: "uint (mod_pll_ratio (xtal_cycle_offset t + d) TDMA_BASE_PHY_RATE) = ?s mod 1250"
    by (simp add: tdma_constants uint_mod sm)
  have win: "(METASTABILITY_WINDOW_LOWER_BOUND \<le> mod_pll_ratio (xtal_cycle_offset t + d) TDMA_BASE_PHY_RATE \<and>
      mod_pll_ratio (xtal_cycle_offset t + d) TDMA_BASE_PHY_RATE \<le> METASTABILITY_WINDOW_UPPER_BOUND) =
      (600 \<le> ?s mod 1250 \<and> ?s mod 1250 \<le> 650)"
    unfolding word_le_def ph by (simp add: tdma_constants)
  have tw: "push_bit 1 METASTABILITY_WINDOW_WIDTH_PLL_CYCLE = 100" by (simp add: tdma_constants)
  have ss: "sync_sleep d t = (if 600 \<le> ?s mod 1250 \<and> ?s mod 1250 \<le> 650
     then t\<lparr>sleep_cycles_value := word_of_int (?n - uint SLPPERIOD_OFFSET) - word_of_int ?k,
            pwr_up_delay_pll_cycles := 100, xtal_cycle_offset := mod_pll_ratio (xtal_cycle_offset t + d) TDMA_BASE_PHY_RATE - 100\<rparr>
     else t\<lparr>sleep_cycles_value := word_of_int (?n - uint SLPPERIOD_OFFSET), pwr_up_delay_pll_cycles := 0,
            xtal_cycle_offset := mod_pll_ratio (xtal_cycle_offset t + d) TDMA_BASE_PHY_RATE\<rparr>)"
    using assms(1) unfolding sync_sleep_def Let_def win tw c by simp
  have dly: "window_delay ?s = (if 600 \<le> ?s mod 1250 \<and> ?s mod 1250 \<le> 650 then 100 else 0)"
    by (simp add: window_delay_def)
  have "uint (word_of_int ?k :: u32) = ?k" by (rule uint_word_of_int_lt) (cases ?r; simp)+
  then have cw: "uint (word_of_int (?n - uint SLPPERIOD_OFFSET) - word_of_int ?k :: u32) = ?n - 1 - ?k"
    using kn cy by (subst uint_sub_le) simp_all
  have off: "uint (mod_pll_ratio (xtal_cycle_offset t + d) TDMA_BASE_PHY_RATE - 100) = ?s mod 1250 - 100" if "600 \<le> ?s mod 1250"
    using that ph by (subst uint_sub_le) simp_all
  define X where "X = (word_of_int (?n - uint SLPPERIOD_OFFSET) :: u32)"
  define Y where "Y = X - word_of_int ?k"
  have XY: "uint X = ?n - 1" "uint Y = ?n - 1 - ?k" using cy cw by (simp_all only: X_def Y_def)
  have "uint (sleep_cycles_value (sync_sleep d t)) = (if 600 \<le> ?s mod 1250 \<and> ?s mod 1250 \<le> 650 then ?n - 1 - ?k else ?n - 1)"
    unfolding ss X_def [symmetric] Y_def [symmetric] by (simp add: XY)
  then show "uint (sleep_cycles_value (sync_sleep d t)) + 1 = ?n - 2 * window_delay ?s div chip_unit ?r"
    using dly by simp
  show "uint (pwr_up_delay_pll_cycles (sync_sleep d t)) = window_delay ?s" unfolding ss dly by simp
  show "uint (xtal_cycle_offset (sync_sleep d t)) = ?s mod 1250 - window_delay ?s"
    unfolding ss dly using off ph by simp
qed

section \<open>One update\<close>

text \<open>
  The duration an update adds to the time since the last reception: at level idle the previous power-up
  delay is in it, and the corrections for a change of level are not.
\<close>

definition slot_charge :: "tdma_sync \<Rightarrow> u32 \<Rightarrow> sleep_lvl \<Rightarrow> int" where
  "slot_charge t d mode = uint d + slave_correction t + (if mode = SLEEP_IDLE then uint (pwr_up_delay_pll_cycles t) else 0) -
     transition_part (td_sleep_mode t) mode (uint (xtal_cycle_offset t))"

text \<open>What an update of level idle loses to whole chip cycles.\<close>

definition chip_loss :: "tdma_sync \<Rightarrow> u32 \<Rightarrow> sleep_lvl \<Rightarrow> tdma_sync \<Rightarrow> int" where
  "chip_loss t d mode t' = (if mode = SLEEP_IDLE
     then 2 * slot_charge t d mode mod chip_unit (td_chip_rate t) - 2 * uint (pwr_up_delay_pll_cycles t') mod chip_unit (td_chip_rate t)
     else 0)"

lemma sync_sleep_other [simp]:
  "td_sleep_mode (sync_sleep d t) = td_sleep_mode t" "td_chip_rate (sync_sleep d t) = td_chip_rate t"
  "sync_slave_offset (sync_sleep d t) = sync_slave_offset t" "ts_duration_pll_cycles (sync_sleep d t) = ts_duration_pll_cycles t"
  "slave_sync_state (sync_sleep d t) = slave_sync_state t" "frame_lost_duration (sync_sleep d t) = frame_lost_duration t"
  "frame_lost_max_duration (sync_sleep d t) = frame_lost_max_duration t"
  by (simp_all add: sync_sleep_def Let_def)

lemma charge_bounds:
  assumes "tdma_wf t" "update_fits t d mode"
  shows "(if mode = SLEEP_IDLE then 102 else 1250) \<le> slot_charge t d mode" "slot_charge t d mode < 2 ^ 31 + 2 ^ 18"
proof -
  note w = assms(1)[unfolded tdma_wf_def] and u = assms(2)[unfolded update_fits_def]
  have "0 \<le> uint (xtal_cycle_offset t)" "uint (xtal_cycle_offset t) < 1250" using w by simp_all
  note pb = part_bounds [OF this, of "td_sleep_mode t" mode]
  have "0 \<le> uint (pwr_up_delay_pll_cycles t)" "uint (pwr_up_delay_pll_cycles t) < 1250" using w by simp_all
  then show "(if mode = SLEEP_IDLE then 102 else 1250) \<le> slot_charge t d mode"
    using pb(1) u unfolding slot_charge_def by (cases "mode = SLEEP_IDLE"; simp only: if_True if_False refl; linarith)
  have "(if mode = SLEEP_IDLE then uint (pwr_up_delay_pll_cycles t) else 0) < 1250" using w by simp
  then show "slot_charge t d mode < 2 ^ 31 + 2 ^ 18" using pb(2) u unfolding slot_charge_def by simp
qed

lemma charged_duration:
  assumes wf: "tdma_wf t" and f: "update_fits t d mode"
  defines "off \<equiv> (if td_sleep_mode t \<noteq> SLEEP_IDLE \<and> mode = SLEEP_IDLE then 0 else xtal_cycle_offset t)"
  shows "\<exists>d'. sync_transition (sync_duration d mode t) (td_sleep_mode t) mode off = Some d' \<and> uint d' = slot_charge t d mode"
proof -
  let ?prev = "td_sleep_mode t" and ?c = "uint d + slave_correction t" and ?p = "uint (pwr_up_delay_pll_cycles t)"
  note w = wf [unfolded tdma_wf_def] and u = f [unfolded update_fits_def]
  have sd: "102 \<le> shortest_duration ?prev mode" by (simp add: shortest_duration_def)
  have D: "uint (sync_duration d mode t) = ?c + (if mode = SLEEP_IDLE then ?p else 0)"
    by (rule sync_duration_value) (use u sd in linarith)+
  have Db: "shortest_duration ?prev mode \<le> uint (sync_duration d mode t)" "uint (sync_duration d mode t) < 2 ^ 31 + 2 ^ 16" proof -
    have "?c \<le> uint (sync_duration d mode t)" "uint (sync_duration d mode t) < ?c + 1250" using D w by simp_all
    then show "shortest_duration ?prev mode \<le> uint (sync_duration d mode t)" "uint (sync_duration d mode t) < 2 ^ 31 + 2 ^ 16"
      using u by simp_all
  qed
  have o: "uint off < 1250" using w by (simp add: off_def)
  have "transition_part ?prev mode (uint off) = transition_part ?prev mode (uint (xtal_cycle_offset t))"
    by (simp add: off_def transition_part_def)
  then show ?thesis using sync_transition_value [OF o _ _ Db] w u D by (auto simp: slot_charge_def)
qed

lemma sync_update_value:
  assumes wf: "tdma_wf t" and f: "update_fits t d mode"
  shows "\<exists>t'. sync_update d mode t = Some t' \<and> tdma_wf t' \<and> td_sleep_mode t' = mode \<and>
    td_chip_rate t' = td_chip_rate t \<and> sync_slave_offset t' = 0 \<and>
    ts_duration_pll_cycles t' = ts_duration_pll_cycles t + word_of_int (slot_charge t d mode) \<and>
    slave_sync_state t' = slave_sync_state t \<and> frame_lost_duration t' = frame_lost_duration t \<and>
    frame_lost_max_duration t' = frame_lost_max_duration t \<and>
    wake_interval t t' + 2 * uint (pwr_up_delay_pll_cycles t') - 2 * uint (pwr_up_delay_pll_cycles t) =
      2 * (uint d + slave_correction t) - chip_loss t d mode t' \<and>
    (if mode = SLEEP_IDLE
     then \<not> (600 \<le> uint (xtal_cycle_offset t') \<and> uint (xtal_cycle_offset t') \<le> 650) \<and>
       uint (pwr_up_delay_pll_cycles t') \<in> {0, 100} \<and>
       2 * uint (xtal_cycle_offset t') = (2 * (if td_sleep_mode t = SLEEP_IDLE then uint (xtal_cycle_offset t) else 0) +
          wake_interval t t' + chip_loss t d mode t') mod 2500
     else xtal_cycle_offset t' = xtal_cycle_offset t \<and>
       uint (pwr_up_delay_pll_cycles t') = (slot_charge t d mode + uint (pwr_up_delay_pll_cycles t)) mod 1250)"
proof -
  let ?prev = "td_sleep_mode t" and ?r = "td_chip_rate t" and ?c = "uint d + slave_correction t"
  let ?p = "uint (pwr_up_delay_pll_cycles t)" and ?u = "chip_unit (td_chip_rate t)"
  define off where "off = (if ?prev \<noteq> SLEEP_IDLE \<and> mode = SLEEP_IDLE then 0 else xtal_cycle_offset t)"
  note w = wf [unfolded tdma_wf_def] and u = f [unfolded update_fits_def]
  have o: "0 \<le> uint off" "uint off < 1250" using w by (auto simp: off_def)
  obtain d' where d': "sync_transition (sync_duration d mode t) ?prev mode off = Some d'" "uint d' = slot_charge t d mode"
    using charged_duration [OF wf f] unfolding off_def by blast
  note d'b = charge_bounds [OF wf f, folded d'(2)]
  have dw: "word_of_int (slot_charge t d mode) = d'" unfolding d'(2) [symmetric] by simp
  define t1 where "t1 = t\<lparr>sync_slave_offset := 0, xtal_cycle_offset := off, td_sleep_mode := mode\<rparr>"
  define t2 where "t2 = sync_sleep d' t1"
  define t' where "t' = t2\<lparr>ts_duration_pll_cycles := ts_duration_pll_cycles t2 + d', free_running_timer := free_running_timer t2 + ucast d',
      last_timer_increment := d',
      pwr_up_value := word_of_int (convert_pll_cycle_base (uint (pwr_up_delay_pll_cycles t2)) TDMA_BASE_PHY_RATE (td_chip_rate t2))\<rparr>"
  have up: "sync_update d mode t = Some t'"
    using d'(1) unfolding sync_update_def Let_def off_def [symmetric] t1_def [symmetric] t'_def
    by (simp add: t2_def)
  have t1: "td_sleep_mode t1 = mode" "td_chip_rate t1 = ?r" "xtal_cycle_offset t1 = off"
    "pwr_up_delay_pll_cycles t1 = pwr_up_delay_pll_cycles t" "sync_slave_offset t1 = 0" by (simp_all add: t1_def)
  have t': "td_sleep_mode t' = mode" "td_chip_rate t' = ?r" "sync_slave_offset t' = 0"
    "pwr_up_delay_pll_cycles t' = pwr_up_delay_pll_cycles t2" "xtal_cycle_offset t' = xtal_cycle_offset t2"
    "sleep_cycles_value t' = sleep_cycles_value t2" "ts_duration_pll_cycles t' = ts_duration_pll_cycles t + d'"
    "slave_sync_state t' = slave_sync_state t" "frame_lost_duration t' = frame_lost_duration t"
    "frame_lost_max_duration t' = frame_lost_max_duration t"
    using t1 by (simp_all add: t'_def t2_def t1_def)
  have pv: "uint (pwr_up_value t') = 2 * uint (pwr_up_delay_pll_cycles t2) div ?u" if "uint (pwr_up_delay_pll_cycles t2) < 1250"
  proof -
    let ?x = "2 * uint (pwr_up_delay_pll_cycles t2) div ?u"
    have "?x \<le> uint (pwr_up_delay_pll_cycles t2)" "0 \<le> ?x" by (simp_all only: chips_bounds uint_ge_0)
    moreover have "pwr_up_value t' = word_of_int ?x" using t1 by (simp add: t'_def t2_def convert_chips)
    ultimately show ?thesis using that by (simp add: uint_word_of_int_lt)
  qed
  show ?thesis
  proof (cases "mode = SLEEP_IDLE")
    case True
    let ?w = "window_delay (uint off + uint d')"
    have part: "transition_part ?prev mode x = 0" for x using True by (simp add: transition_part_def)
    have i: "uint (sleep_cycles_value t2) + 1 = 2 * uint d' div ?u - 2 * ?w div ?u"
      "uint (pwr_up_delay_pll_cycles t2) = ?w" "uint (xtal_cycle_offset t2) = (uint off + uint d') mod 1250 - ?w"
      using sync_sleep_idle [of t1 d'] True t1 d'b o(2) unfolding t2_def by simp_all
    have wi: "wake_interval t t' = 2 * uint d' - 2 * uint d' mod ?u - (2 * ?w - 2 * ?w mod ?u)"
    proof -
      have "wake_interval t t' = ?u * (2 * uint d' div ?u - 2 * ?w div ?u)" using i(1) t' True by (simp add: wake_interval_def)
      then show ?thesis unfolding right_diff_distrib chips_time .
    qed
    have wd: "?w = 0 \<or> ?w = 100" by (simp add: window_delay_def)
    have cl: "chip_loss t d mode t' = 2 * uint d' mod ?u - 2 * ?w mod ?u"
      unfolding chip_loss_def d'(2) [symmetric] t'(4) i(2) using True by simp
    have "uint d' = ?c + ?p" using d'(2) True part by (simp add: slot_charge_def)
    then have si: "wake_interval t t' + 2 * uint (pwr_up_delay_pll_cycles t') - 2 * ?p = 2 * ?c - chip_loss t d mode t'"
      using wi cl t'(4) i(2) by simp
    have m: "0 \<le> (uint off + uint d') mod 1250" "(uint off + uint d') mod 1250 < 1250" by simp_all
    have xb: "0 \<le> uint (xtal_cycle_offset t2)" "uint (xtal_cycle_offset t2) < 1250"
      "\<not> (600 \<le> uint (xtal_cycle_offset t2) \<and> uint (xtal_cycle_offset t2) \<le> 650)"
      using i(3) m by (auto simp: window_delay_def split: if_splits)
    have pb: "uint (pwr_up_delay_pll_cycles t2) < 1250" using i(2) wd by auto
    have wf': "tdma_wf t'" using w t' pb pv [OF pb] xb True by (simp add: tdma_wf_def)
    have "2 * uint (xtal_cycle_offset t2) = (2 * (uint off + uint d')) mod 2500 - 2 * ?w"
      unfolding i(3) by (simp add: mult_mod_right right_diff_distrib)
    moreover have "((2 * (uint off + uint d')) mod 2500 - 2 * ?w) mod 2500 =
        (2 * uint off + wake_interval t t' + chip_loss t d mode t') mod 2500"
      unfolding wi cl by (simp add: mod_diff_left_eq algebra_simps)
    moreover have "(2 * uint (xtal_cycle_offset t2)) mod 2500 = 2 * uint (xtal_cycle_offset t2)"
      by (rule mod_pos_pos_trivial) (use xb in linarith)+
    ultimately have ph: "2 * uint (xtal_cycle_offset t2) = (2 * uint off + wake_interval t t' + chip_loss t d mode t') mod 2500"
      by (simp only:)
    have "uint off = (if ?prev = SLEEP_IDLE then uint (xtal_cycle_offset t) else 0)" using True by (simp add: off_def)
    then show ?thesis using up wf' t' si xb(3) ph True dw wd i(2) by auto
  next
    case False
    then have mode: "mode = SLEEP_SHALLOW \<or> mode = SLEEP_DEEP" using u by (cases mode) simp_all
    have off': "off = xtal_cycle_offset t" using False by (simp add: off_def)
    let ?x = "uint d' + ?p"
    have x: "1250 \<le> uint d' + uint (pwr_up_delay_pll_cycles t1)"
      using d'b(1) [unfolded if_not_P [OF False]] uint_ge_0 [of "pwr_up_delay_pll_cycles t1"] by linarith
    have s: "uint (sleep_cycles_value t2) + 1 = ?x div 1250" "uint (pwr_up_delay_pll_cycles t2) = ?x mod 1250"
      "xtal_cycle_offset t2 = off"
      using sync_sleep_crystal [OF _ x d'b(2)] mode t1 unfolding t2_def by simp_all
    have wi: "wake_interval t t' = 2 * (?x div 1250 * 1250 + transition_part ?prev mode (uint off))"
      using s(1) t' False off' by (auto simp: wake_interval_def transition_part_def Let_def)
    define q m where qm: "q = ?x div 1250" "m = ?x mod 1250"
    have "q * 1250 + m = ?x" by (simp add: qm)
    moreover have "uint d' = ?c - transition_part ?prev mode (uint off)" using d'(2) False off' by (simp add: slot_charge_def)
    ultimately have si: "wake_interval t t' + 2 * uint (pwr_up_delay_pll_cycles t') - 2 * ?p = 2 * ?c - chip_loss t d mode t'"
      using wi s(2) unfolding t'(4) chip_loss_def if_not_P [OF False] qm [symmetric] by simp
    have pb: "uint (pwr_up_delay_pll_cycles t2) < 1250" using s(2) by simp
    have wf': "tdma_wf t'" using w u t' s o pb pv [OF pb] by (simp add: tdma_wf_def)
    show ?thesis using up wf' t' si False dw s off' d'(2) by simp
  qed
qed

section \<open>Exact updates\<close>

lemma whole_chips_simps [simp]:
  "whole_chips CHIP_RATE_40_96_MHZ x" "whole_chips CHIP_RATE_20_48_MHZ x \<longleftrightarrow> even x"
  by (simp_all add: whole_chips_def) presburger

text \<open>At the rates that divide the base nothing is lost between whole chip cycles.\<close>

lemma exact_update:
  assumes wf: "tdma_wf t" and f: "update_fits t d mode" and e: "tdma_exact t"
    and whole: "whole_chips (td_chip_rate t) (uint d + slave_correction t)" and up: "sync_update d mode t = Some t'"
  shows "chip_loss t d mode t' = 0" "tdma_exact t'"
proof -
  let ?r = "td_chip_rate t" and ?c = "uint d + slave_correction t"
  let ?part = "transition_part (td_sleep_mode t) mode (uint (xtal_cycle_offset t))"
  obtain t2 where t2: "sync_update d mode t = Some t2" "td_chip_rate t2 = ?r"
    "wake_interval t t2 + 2 * uint (pwr_up_delay_pll_cycles t2) - 2 * uint (pwr_up_delay_pll_cycles t) = 2 * ?c - chip_loss t d mode t2"
    "if mode = SLEEP_IDLE
     then \<not> (600 \<le> uint (xtal_cycle_offset t2) \<and> uint (xtal_cycle_offset t2) \<le> 650) \<and>
       uint (pwr_up_delay_pll_cycles t2) \<in> {0, 100} \<and>
       2 * uint (xtal_cycle_offset t2) = (2 * (if td_sleep_mode t = SLEEP_IDLE then uint (xtal_cycle_offset t) else 0) +
          wake_interval t t2 + chip_loss t d mode t2) mod 2500
     else xtal_cycle_offset t2 = xtal_cycle_offset t \<and>
       uint (pwr_up_delay_pll_cycles t2) = (slot_charge t d mode + uint (pwr_up_delay_pll_cycles t)) mod 1250"
    using sync_update_value [OF wf f] by blast
  have "t2 = t'" using t2(1) up by simp
  note v = t2(2-4)[unfolded this] and ex = e[unfolded tdma_exact_def]
  have "chip_loss t d mode t' = 0 \<and> tdma_exact t'"
  proof (cases ?r)
    case CHIP_RATE_40_96_MHZ
    then show ?thesis using v by (auto simp: chip_loss_def tdma_exact_def)
  next
    case CHIP_RATE_20_48_MHZ
    have p: "even (uint (pwr_up_delay_pll_cycles t))" and x: "even (uint (xtal_cycle_offset t))" and c: "even ?c"
      using ex whole CHIP_RATE_20_48_MHZ by simp_all
    have "uint (xtal_cycle_offset t) < 1250" using wf by (simp add: tdma_wf_def)
    then have "even ?part" using part_bounds(3) [OF uint_ge_0 _ x] by blast
    then have ch: "even (slot_charge t d mode)" using p c by (simp add: slot_charge_def)
    then have "4 dvd 2 * slot_charge t d mode" by presburger
    moreover have "4 dvd 2 * uint (pwr_up_delay_pll_cycles t')" if "mode = SLEEP_IDLE" using v that by auto
    ultimately have l: "chip_loss t d mode t' = 0" using CHIP_RATE_20_48_MHZ
      by (cases "mode = SLEEP_IDLE") (simp_all only: chip_loss_def chip_unit.simps dvd_eq_mod_eq_0 if_True if_False simp_thms diff_0_right diff_self)
    have "even (uint (pwr_up_delay_pll_cycles t')) \<and> even (uint (xtal_cycle_offset t'))"
    proof (cases "mode = SLEEP_IDLE")
      case True
      let ?x = "2 * (if td_sleep_mode t = SLEEP_IDLE then uint (xtal_cycle_offset t) else 0) + wake_interval t t' + chip_loss t d mode t'"
      have w: "wake_interval t t' = 2 * ?c + 2 * uint (pwr_up_delay_pll_cycles t) - 2 * uint (pwr_up_delay_pll_cycles t')"
        using v(2) l by linarith
      have pe: "even (uint (pwr_up_delay_pll_cycles t'))" using v True by auto
      define y where "y = (if td_sleep_mode t = SLEEP_IDLE then uint (xtal_cycle_offset t) else 0) + ?c +
        uint (pwr_up_delay_pll_cycles t) - uint (pwr_up_delay_pll_cycles t')"
      have "even y" unfolding y_def using x c p pe by simp
      moreover have "?x = 2 * y" unfolding w l y_def by simp
      moreover have "4 dvd 2 * y" if "even y" for y :: int using that by presburger
      ultimately have "4 dvd ?x" by (simp only:)
      then have "4 dvd ?x mod 2500" by (simp add: dvd_mod)
      moreover have "2 * uint (xtal_cycle_offset t') = ?x mod 2500" using v True by auto
      ultimately have "4 dvd 2 * uint (xtal_cycle_offset t')" by (simp only:)
      then have "even (uint (xtal_cycle_offset t'))" by presburger
      with pe show ?thesis ..
    next
      case False
      then have "uint (pwr_up_delay_pll_cycles t') = (slot_charge t d mode + uint (pwr_up_delay_pll_cycles t)) mod 1250"
        "xtal_cycle_offset t' = xtal_cycle_offset t" using v by auto
      then show ?thesis using ch p x by (simp add: dvd_mod_iff)
    qed
    with l show ?thesis using v CHIP_RATE_20_48_MHZ by (auto simp: tdma_exact_def)
  qed (use ex in simp)
  then show "chip_loss t d mode t' = 0" "tdma_exact t'" by simp_all
qed

lemma power_up_register_value:
  assumes "uint (pwr_up_value t) < 2048"
  shows "uint (power_up_register t) = uint (pwr_up_value t) div 8"
proof -
  define v where "v = PWRUPDELAY_VAL2RAW (pwr_up_value t)"
  have v: "uint v = uint (pwr_up_value t) div 8"
    by (simp add: v_def PWRUPDELAY_VAL2RAW_def uint_div uint_ucast_up)
  then have "uint v < 256" using assms by linarith
  then have "uint (take_bit 8 v) = uint v" by (simp add: unsigned_take_bit_eq take_bit_int_eq_self)
  then have small: "v AND mask 8 = v" unfolding take_bit_eq_mask by (simp only: word_uint_eq_iff)
  have "power_up_register t = drop_bit 8 (MOV2MASK v (BITS16 15 8)) AND mask 8"
    unfolding power_up_register_def link_tdma_sync_get_pwr_up_def v_def BITS_PWRUPDLAY_def by (subst field_val) simp_all
  also have "\<dots> = v AND mask 8"
    by (intro bit_eqI) (auto simp: bit_drop_bit_eq bit_and_iff bit_field bit_mask_iff)
  finally show ?thesis using small v by simp
qed

text \<open>What the eight-chip steps of the register cut off the power-up delay.\<close>

definition power_up_residual :: "tdma_sync \<Rightarrow> int" where
  "power_up_residual t = uint (pwr_up_value t) mod 8 * chip_unit (td_chip_rate t)"

lemma residual_bounds: "0 \<le> power_up_residual t" "power_up_residual t < 8 * chip_unit (td_chip_rate t)"
proof -
  have "0 \<le> uint (pwr_up_value t) mod 8" "uint (pwr_up_value t) mod 8 < 8" by simp_all
  then show "0 \<le> power_up_residual t" "power_up_residual t < 8 * chip_unit (td_chip_rate t)"
    using chip_unit_bounds [of "td_chip_rate t"] by (simp_all add: power_up_residual_def)
qed

lemma power_up_time_value:
  assumes wf: "tdma_wf t" and e: "tdma_exact t"
  shows "power_up_time t = 2 * uint (pwr_up_delay_pll_cycles t) - power_up_residual t"
proof -
  let ?u = "chip_unit (td_chip_rate t)" and ?p = "uint (pwr_up_delay_pll_cycles t)" and ?v = "uint (pwr_up_value t)"
  have v: "?v = 2 * ?p div ?u" and p: "?p < 1250" using wf by (simp_all add: tdma_wf_def)
  have "?v \<le> ?p" unfolding v by (rule chips_bounds) simp
  then have r: "uint (power_up_register t) = ?v div 8" using p by (intro power_up_register_value) simp
  have "?u dvd 2 * ?p" using e by (simp add: tdma_exact_def whole_chips_def)
  then have "?v * ?u = 2 * ?p" by (simp add: v)
  moreover have "(8 * (?v div 8) + ?v mod 8) * ?u = ?v * ?u" by simp
  ultimately show ?thesis unfolding power_up_time_def power_up_residual_def r by (simp only: distrib_right)
qed

text \<open>
  The time between two starts is the duration with the correction of the clock, exact up to the
  parts of the two power-up delays the register does not hold.
\<close>

lemma sync_update_exact:
  assumes wf: "tdma_wf t" and f: "update_fits t d mode" and e: "tdma_exact t"
    and whole: "whole_chips (td_chip_rate t) (uint d + slave_correction t)"
  shows "\<exists>t'. sync_update d mode t = Some t' \<and> tdma_wf t' \<and> tdma_exact t' \<and> td_sleep_mode t' = mode \<and>
    td_chip_rate t' = td_chip_rate t \<and> sync_slave_offset t' = 0 \<and>
    start_interval t t' = 2 * (uint d + slave_correction t) + power_up_residual t - power_up_residual t'"
proof -
  obtain t' where t': "sync_update d mode t = Some t'" "tdma_wf t'" "td_sleep_mode t' = mode" "td_chip_rate t' = td_chip_rate t"
    "sync_slave_offset t' = 0" "wake_interval t t' + 2 * uint (pwr_up_delay_pll_cycles t') - 2 * uint (pwr_up_delay_pll_cycles t) =
      2 * (uint d + slave_correction t) - chip_loss t d mode t'" using sync_update_value [OF wf f] by blast
  note x = exact_update [OF wf f e whole t'(1)]
  have "start_interval t t' = 2 * (uint d + slave_correction t) + power_up_residual t - power_up_residual t'"
    unfolding start_interval_def power_up_time_value [OF wf e] power_up_time_value [OF t'(2) x(2)] using t'(6) x(1) by linarith
  with t' x(2) show ?thesis by blast
qed

end
