(* ===== verification/Tdma_Timing.thy ===== *)
theory Tdma_Timing
  imports Tdma_Exact
begin

text \<open>
  Properties of TDMA synchronisation: the slots start when the schedule says, whatever the sleep levels,
  up to the step of the power-up register and without drift; the wake-up stays out of the crystal's
  unsafe window; a node corrects its clock by the measured error; when sync is lost; lengths of the
  preamble.
\<close>

section \<open>Exact slots\<close>

fun tdma_run :: "(u32 \<times> sleep_lvl) list \<Rightarrow> tdma_sync \<Rightarrow> tdma_sync list option" where
  "tdma_run [] t = Some []"
| "tdma_run ((d, mode) # us) t =
     (case sync_update d mode t of None \<Rightarrow> None | Some t' \<Rightarrow> map_option ((#) t') (tdma_run us t'))"

text \<open>Slots the code can serve; \<open>c\<close> is the correction pending for the first of them.\<close>

fun slots_fit :: "sleep_lvl \<Rightarrow> int \<Rightarrow> (u32 \<times> sleep_lvl) list \<Rightarrow> bool" where
  "slots_fit prev c [] = True"
| "slots_fit prev c ((d, mode) # us) =
     (mode \<noteq> SLEEP_IDLE_NO_WAKEONCE \<and> shortest_duration prev mode \<le> uint d + c \<and> uint d + c < 2 ^ 31 \<and> slots_fit mode 0 us)"

lemma no_correction: "sync_slave_offset t = 0 \<Longrightarrow> slave_correction t = 0"
  by (simp add: slave_correction_def)

lemma tdma_run_exact:
  "tdma_wf t \<Longrightarrow> tdma_exact t \<Longrightarrow> sync_slave_offset t = 0 \<Longrightarrow> slots_fit (td_sleep_mode t) 0 us \<Longrightarrow>
   \<forall>(d, _)\<in>set us. whole_chips (td_chip_rate t) (uint d) \<Longrightarrow>
   \<exists>ts. tdma_run us t = Some ts \<and> length ts = length us \<and> (\<forall>t'\<in>set ts. td_chip_rate t' = td_chip_rate t) \<and>
     (\<forall>i<length us. start_interval ((t # ts) ! i) (ts ! i) =
        2 * uint (fst (us ! i)) + power_up_residual ((t # ts) ! i) - power_up_residual (ts ! i))"
proof (induction us arbitrary: t)
  case (Cons u us)
  obtain d mode where u: "u = (d, mode)" by force
  have c: "slave_correction t = 0" using Cons.prems(3) by (rule no_correction)
  have f: "update_fits t d mode" using Cons.prems(4) c by (simp add: update_fits_def u)
  have w: "whole_chips (td_chip_rate t) (uint d + slave_correction t)" using Cons.prems(5) c by (simp add: u)
  from sync_update_exact [OF Cons.prems(1) f Cons.prems(2) w] obtain t' where t': "sync_update d mode t = Some t'" "tdma_wf t'"
    "tdma_exact t'" "td_sleep_mode t' = mode" "td_chip_rate t' = td_chip_rate t" "sync_slave_offset t' = 0"
    "start_interval t t' = 2 * uint d + power_up_residual t - power_up_residual t'" using c by auto
  have "slots_fit (td_sleep_mode t') 0 us" "\<forall>(d, _)\<in>set us. whole_chips (td_chip_rate t') (uint d)"
    using Cons.prems(4,5) t'(4,5) by (simp_all add: u)
  from Cons.IH [OF t'(2,3,6) this] obtain ts where ts: "tdma_run us t' = Some ts" "length ts = length us"
    "\<forall>t1\<in>set ts. td_chip_rate t1 = td_chip_rate t'"
    "\<forall>i<length us. start_interval ((t' # ts) ! i) (ts ! i) =
       2 * uint (fst (us ! i)) + power_up_residual ((t' # ts) ! i) - power_up_residual (ts ! i)" by auto
  then show ?case using t'(1,5,7) u by (intro exI [of _ "t' # ts"]) (auto simp: nth_Cons split: nat.splits)
qed simp


definition tdma_demo :: "tdma_sync" where
  "tdma_demo = link_tdma_sync_init SLEEP_IDLE 7 819200 32 94 ISI_MITIG_0 0 False False CHIP_RATE_20_48_MHZ"

lemma tdma_demo_wf: "tdma_wf tdma_demo" "tdma_exact tdma_demo" "sync_slave_offset tdma_demo = 0"
  "td_sleep_mode tdma_demo = SLEEP_IDLE" "td_chip_rate tdma_demo = CHIP_RATE_20_48_MHZ"
  by (simp_all add: tdma_demo_def link_tdma_sync_init_def tdma_wf_def tdma_exact_def)


section \<open>The unsafe window\<close>

lemma chip_loss_bounds:
  assumes "uint (pwr_up_delay_pll_cycles t') \<in> {0, 100}"
  shows "\<bar>chip_loss t d mode t'\<bar> \<le> 2"
proof -
  have "0 \<le> 2 * x mod 3 \<and> 2 * x mod 3 \<le> 2" "0 \<le> 2 * x mod 4 \<and> 2 * x mod 4 \<le> 2" for x :: int by presburger+
  then show ?thesis using assms by (cases "td_chip_rate t") (auto simp: chip_loss_def)
qed



text \<open>
  At 27.30 MHz the loss adds up: a slot of 10240 cycles from phase 0 sleeps one cycle of the base less, and
  the next update starts from a phase the transceiver has not got.
\<close>

definition tdma_27_demo :: tdma_sync where
  "tdma_27_demo = link_tdma_sync_init SLEEP_IDLE 7 819200 32 94 ISI_MITIG_0 0 False False CHIP_RATE_27_30_MHZ"

lemma tdma_27_30_phase_drifts:
  "case sync_update 10240 SLEEP_IDLE tdma_27_demo of None \<Rightarrow> False | Some t' \<Rightarrow>
     wake_interval tdma_27_demo t' = 2 * 10239 \<and> xtal_cycle_offset tdma_27_demo = 0 \<and>
     uint (xtal_cycle_offset t') = 10240 mod 1250"
  by code_simp

section \<open>Following the coordinator\<close>

text \<open>The time from the wake-up to the end of the start-frame delimiter when both clocks agree.\<close>

definition rx_target :: "tdma_sync \<Rightarrow> link_cca \<Rightarrow> u8 \<Rightarrow> int" where
  "rx_target t cca retries =
     convert_pll_cycle_base (uint (setup_time_pll_cycles t)) TDMA_BASE_PHY_RATE (td_chip_rate t) +
     uint (preamble_size_bits t) + uint (sfd_size_bits t) +
     convert_pll_cycle_base ((uint (retry_time_pll_cycles cca) + uint (on_time_pll_cycles cca)) * uint retries)
       CCA_BASE_PHY_RATE (td_chip_rate t) -
     (if retries = link_cca_get_highest_try_count cca \<and> fail_action cca = CCA_FAIL_ACTION_TX
      then convert_pll_cycle_base (uint (on_time_pll_cycles cca)) CCA_BASE_PHY_RATE (td_chip_rate t) else 0)"

lemma calculate_offset: "slave_calculate_offset x y = word_of_int (uint y - uint x)"
proof (cases "x = y")
  case False
  then have "uint x \<noteq> uint y" by (simp add: word_uint_eq_iff)
  then show ?thesis by (auto simp: slave_calculate_offset_def word_less_def)
qed (simp add: slave_calculate_offset_def)

lemma sint_word_of_int_small: "- 65536 < x \<Longrightarrow> x < 65536 \<Longrightarrow> sint (word_of_int x :: i32) = x"
  by (simp add: sint_sbintrunc' signed_take_bit_int_eq_self)

lemma adjust_rx_offset:
  assumes s: "slave_sync_state t = STATE_SYNCED" and g: "0 \<le> rx_target t cca retries" "rx_target t cca retries < 65536"
    and p: "pwr_up_value t \<le> waited"
  defines "t1 \<equiv> link_tdma_sync_slave_adjust FRAME_RECEIVED waited cca retries t"
  shows "sync_slave_offset t1 = word_of_int (uint waited - uint (pwr_up_value t) - rx_target t cca retries)"
    "sync_slave_offset_chip_rate t1 = td_chip_rate t" "td_chip_rate t1 = td_chip_rate t"
    "td_sleep_mode t1 = td_sleep_mode t" "pwr_up_delay_pll_cycles t1 = pwr_up_delay_pll_cycles t"
    "xtal_cycle_offset t1 = xtal_cycle_offset t" "pwr_up_value t1 = pwr_up_value t"
proof -
  have nf: "\<not> (fast_sync_enable t \<and> slave_sync_state t = STATE_SYNCING)"
    using s by (simp add: STATE_SYNCED_def STATE_SYNCING_def)
  let ?A = "convert_pll_cycle_base (uint (setup_time_pll_cycles t)) TDMA_BASE_PHY_RATE (td_chip_rate t) +
      uint (preamble_size_bits t) + uint (sfd_size_bits t)"
  let ?B = "convert_pll_cycle_base ((uint (retry_time_pll_cycles cca) + uint (on_time_pll_cycles cca)) * uint retries)
       CCA_BASE_PHY_RATE (td_chip_rate t)"
  let ?C = "convert_pll_cycle_base (uint (on_time_pll_cycles cca)) CCA_BASE_PHY_RATE (td_chip_rate t)"
  let ?last = "retries = link_cca_get_highest_try_count cca \<and> fail_action cca = CCA_FAIL_ACTION_TX"
  let ?T = "if ?last then word_of_int ?A + word_of_int ?B - word_of_int ?C else word_of_int ?A + word_of_int ?B :: u16"
  have "?T = word_of_int (rx_target t cca retries)" by (simp add: rx_target_def)
  moreover have "uint (word_of_int (rx_target t cca retries) :: u16) = rx_target t cca retries"
    by (rule uint_word_of_int_lt) (use g in simp_all)
  ultimately have T: "uint ?T = rx_target t cca retries" by (simp only:)
  have W: "uint (waited - pwr_up_value t) = uint waited - uint (pwr_up_value t)"
    using p by (intro uint_sub_le) (simp add: word_le_def)
  define k :: i32 where "k = word_of_int (uint waited - uint (pwr_up_value t) - rx_target t cca retries)"
  have "t1 = t\<lparr>frame_lost_duration := 0, ts_duration_pll_cycles := 0,
      sync_slave_offset := slave_calculate_offset ?T (waited - pwr_up_value t),
      sync_slave_offset_chip_rate := td_chip_rate t, slave_sync_state := STATE_SYNCED\<rparr>"
    unfolding t1_def link_tdma_sync_slave_adjust_def slave_adjust_frame_rx_def Let_def
    by (simp only: nf if_False if_True refl simp_thms)
  also have "slave_calculate_offset ?T (waited - pwr_up_value t) = k" unfolding k_def calculate_offset T W ..
  finally show "sync_slave_offset t1 = word_of_int (uint waited - uint (pwr_up_value t) - rx_target t cca retries)"
    "sync_slave_offset_chip_rate t1 = td_chip_rate t" "td_chip_rate t1 = td_chip_rate t"
    "td_sleep_mode t1 = td_sleep_mode t" "pwr_up_delay_pll_cycles t1 = pwr_up_delay_pll_cycles t"
    "xtal_cycle_offset t1 = xtal_cycle_offset t" "pwr_up_value t1 = pwr_up_value t"
    unfolding k_def [symmetric] by simp_all
qed

lemma adjust_rx_correction:
  assumes "slave_sync_state t = STATE_SYNCED" "0 \<le> rx_target t cca retries" "rx_target t cca retries < 65536"
    and "pwr_up_value t \<le> waited" "td_chip_rate t \<noteq> CHIP_RATE_27_30_MHZ"
  shows "2 * slave_correction (link_tdma_sync_slave_adjust FRAME_RECEIVED waited cca retries t) =
    (uint waited - uint (pwr_up_value t) - rx_target t cca retries) * chip_unit (td_chip_rate t)"
proof -
  note a = adjust_rx_offset [OF assms(1-4)]
  let ?e = "uint waited - uint (pwr_up_value t) - rx_target t cca retries"
  have b: "uint waited < 65536" "uint (pwr_up_value t) \<le> uint waited"
    using uint_u16_bound [of waited] assms(4) by (simp_all add: word_le_def)
  then have "sint (word_of_int ?e :: i32) = ?e" using assms(2,3) uint_ge_0 [of "pwr_up_value t"]
    by (intro sint_word_of_int_small) linarith+
  then have e: "sint (sync_slave_offset (link_tdma_sync_slave_adjust FRAME_RECEIVED waited cca retries t)) = ?e"
    using a(1) by simp
  then show ?thesis using a(2) assms(5)
    by (cases "td_chip_rate t"; cases "?e = 0") (auto simp: slave_correction_def TDMA_BASE_PHY_RATE_def)
qed


definition tdma_synced :: tdma_sync where
  "tdma_synced = tdma_demo\<lparr>slave_sync_state := STATE_SYNCED\<rparr>"

lemma tdma_synced_fields: "tdma_wf tdma_synced" "tdma_exact tdma_synced" "slave_sync_state tdma_synced = STATE_SYNCED"
  "td_chip_rate tdma_synced = CHIP_RATE_20_48_MHZ" "pwr_up_value tdma_synced = 0" "td_sleep_mode tdma_synced = SLEEP_IDLE"
  "frame_lost_duration tdma_synced = 0" "ts_duration_pll_cycles tdma_synced = 0" "frame_lost_max_duration tdma_synced = 819200"
  "sync_slave_offset tdma_synced = 0" "pwr_up_delay_pll_cycles tdma_synced = 0" "xtal_cycle_offset tdma_synced = 0"
  using tdma_demo_wf by (simp_all add: tdma_synced_def tdma_wf_def tdma_exact_def tdma_demo_def link_tdma_sync_init_def)


section \<open>Losing synchronisation\<close>

text \<open>
  A run of lost frames: each slot is prepared by an update and ends without a frame. The result of
  the reception has no meaning then, and the handler does not look at it.
\<close>

fun lost_run :: "u16 \<Rightarrow> link_cca \<Rightarrow> u8 \<Rightarrow> (u32 \<times> sleep_lvl) list \<Rightarrow> tdma_sync \<Rightarrow> tdma_sync list option" where
  "lost_run waited cca retries [] t = Some []"
| "lost_run waited cca retries ((d, mode) # us) t =
     (case sync_update d mode t of None \<Rightarrow> None
      | Some t1 \<Rightarrow> let t' = link_tdma_sync_slave_adjust FRAME_LOST waited cca retries t1
                   in map_option ((#) t') (lost_run waited cca retries us t'))"

text \<open>The time added up, and what keeps it from overflowing.\<close>

definition losing :: "tdma_sync \<Rightarrow> bool" where
  "losing t \<longleftrightarrow> tdma_wf t \<and> ts_duration_pll_cycles t = 0 \<and> uint (frame_lost_max_duration t) < 2 ^ 31 - 2 ^ 18 \<and>
     uint (frame_lost_duration t) \<le> uint (frame_lost_max_duration t) \<and>
     (slave_sync_state t \<longleftrightarrow> uint (frame_lost_duration t) < uint (frame_lost_max_duration t))"

lemma lost_slot:
  assumes "losing t" "update_fits t d mode"
  obtains t1 where "sync_update d mode t = Some t1"
    "losing (link_tdma_sync_slave_adjust FRAME_LOST waited cca retries t1)"
    "td_sleep_mode (link_tdma_sync_slave_adjust FRAME_LOST waited cca retries t1) = mode"
    "sync_slave_offset (link_tdma_sync_slave_adjust FRAME_LOST waited cca retries t1) = 0"
    "frame_lost_max_duration (link_tdma_sync_slave_adjust FRAME_LOST waited cca retries t1) = frame_lost_max_duration t"
    "uint (frame_lost_duration (link_tdma_sync_slave_adjust FRAME_LOST waited cca retries t1)) =
       min (uint (frame_lost_max_duration t)) (uint (frame_lost_duration t) + slot_charge t d mode)"
proof -
  note l = assms(1)[unfolded losing_def]
  let ?mx = "frame_lost_max_duration t" and ?c = "slot_charge t d mode"
  obtain t1 where t1: "sync_update d mode t = Some t1" "tdma_wf t1" "td_sleep_mode t1 = mode"
    "ts_duration_pll_cycles t1 = ts_duration_pll_cycles t + word_of_int ?c"
    "slave_sync_state t1 = slave_sync_state t" "frame_lost_duration t1 = frame_lost_duration t" "frame_lost_max_duration t1 = ?mx"
    using sync_update_value [OF conjunct1 [OF l] assms(2)] by blast
  have c: "0 < ?c" "?c < 2 ^ 31 + 2 ^ 18" using charge_bounds [OF conjunct1 [OF l] assms(2)] by (simp_all split: if_splits)
  have uc: "uint (word_of_int ?c :: u32) = ?c" by (rule uint_word_of_int_lt) (use c in simp_all)
  let ?t' = "link_tdma_sync_slave_adjust FRAME_LOST waited cca retries t1"
  define s where "s = frame_lost_duration t + word_of_int ?c"
  have s: "uint s = uint (frame_lost_duration t) + ?c"
    unfolding s_def using l c uc by (subst uint_add_lt) simp_all
  have adj: "?t' = (if ?mx \<le> s then t1\<lparr>frame_lost_duration := ?mx, ts_duration_pll_cycles := 0, sync_slave_offset := 0,
        slave_sync_state := STATE_SYNCING\<rparr>
      else t1\<lparr>frame_lost_duration := s, ts_duration_pll_cycles := 0, sync_slave_offset := 0\<rparr>)"
    using t1 l by (simp add: link_tdma_sync_slave_adjust_def slave_adjust_frame_lost_def Let_def s_def)
  have f: "uint (frame_lost_duration ?t') = min (uint ?mx) (uint (frame_lost_duration t) + ?c)"
    unfolding adj using s by (simp add: word_le_def min_def)
  have "slave_sync_state ?t' \<longleftrightarrow> uint (frame_lost_duration ?t') < uint ?mx"
    unfolding adj using s t1(5) l c by (auto simp: word_le_def STATE_SYNCING_def)
  then have "losing ?t'" using f l t1 unfolding losing_def by (simp add: adj tdma_wf_def)
  moreover have "td_sleep_mode ?t' = mode" "sync_slave_offset ?t' = 0" "frame_lost_max_duration ?t' = ?mx"
    using t1 by (simp_all add: adj)
  ultimately show thesis using that t1(1) f by blast
qed

lemma lost_slots:
  assumes "losing t" "slots_fit (td_sleep_mode t) (slave_correction t) us"
  shows "\<exists>ts. lost_run waited cca retries us t = Some ts \<and> length ts = length us \<and>
    (\<forall>i<length us. 0 \<le> slot_charge ((t # ts) ! i) (fst (us ! i)) (snd (us ! i))) \<and>
    (\<forall>k\<le>length us. losing ((t # ts) ! k) \<and> frame_lost_max_duration ((t # ts) ! k) = frame_lost_max_duration t \<and>
       uint (frame_lost_duration ((t # ts) ! k)) = min (uint (frame_lost_max_duration t))
         (uint (frame_lost_duration t) + (\<Sum>i<k. slot_charge ((t # ts) ! i) (fst (us ! i)) (snd (us ! i)))))"
  using assms
proof (induction us arbitrary: t)
  case Nil
  then show ?case by (simp add: losing_def)
next
  case (Cons u us)
  obtain d mode where u: "u = (d, mode)" by force
  have f: "update_fits t d mode" using Cons.prems(2) by (simp add: u update_fits_def)
  obtain t1 where t1: "sync_update d mode t = Some t1" and a: "losing (link_tdma_sync_slave_adjust FRAME_LOST waited cca retries t1)"
    "td_sleep_mode (link_tdma_sync_slave_adjust FRAME_LOST waited cca retries t1) = mode"
    "sync_slave_offset (link_tdma_sync_slave_adjust FRAME_LOST waited cca retries t1) = 0"
    "frame_lost_max_duration (link_tdma_sync_slave_adjust FRAME_LOST waited cca retries t1) = frame_lost_max_duration t"
    "uint (frame_lost_duration (link_tdma_sync_slave_adjust FRAME_LOST waited cca retries t1)) =
       min (uint (frame_lost_max_duration t)) (uint (frame_lost_duration t) + slot_charge t d mode)"
    by (rule lost_slot [OF Cons.prems(1) f])
  let ?t = "link_tdma_sync_slave_adjust FRAME_LOST waited cca retries t1" and ?mx = "uint (frame_lost_max_duration t)"
  let ?ch = "\<lambda>ts i. slot_charge (ts ! i) (fst (us ! i)) (snd (us ! i))"
  have "slots_fit (td_sleep_mode ?t) (slave_correction ?t) us" using Cons.prems(2) a(2,3) by (simp add: u no_correction)
  from Cons.IH [OF a(1) this] obtain ts where ts: "lost_run waited cca retries us ?t = Some ts" "length ts = length us"
    "\<And>i. i < length us \<Longrightarrow> 0 \<le> ?ch (?t # ts) i"
    "\<And>k. k \<le> length us \<Longrightarrow> losing ((?t # ts) ! k) \<and> frame_lost_max_duration ((?t # ts) ! k) = frame_lost_max_duration ?t \<and>
       uint (frame_lost_duration ((?t # ts) ! k)) = min (uint (frame_lost_max_duration ?t))
         (uint (frame_lost_duration ?t) + (\<Sum>i<k. ?ch (?t # ts) i))" by blast
  have run: "lost_run waited cca retries (u # us) t = Some (?t # ts)" using t1 ts(1) by (simp add: u Let_def)
  have "losing ((t # ?t # ts) ! k) \<and> frame_lost_max_duration ((t # ?t # ts) ! k) = frame_lost_max_duration t \<and>
      uint (frame_lost_duration ((t # ?t # ts) ! k)) = min ?mx
        (uint (frame_lost_duration t) + (\<Sum>i<k. slot_charge ((t # ?t # ts) ! i) (fst ((u # us) ! i)) (snd ((u # us) ! i))))"
    if k: "k \<le> length (u # us)" for k
  proof (cases k)
    case 0
    then show ?thesis using Cons.prems(1) by (simp add: losing_def)
  next
    case (Suc j)
    then have j: "j \<le> length us" using k by simp
    have "0 \<le> (\<Sum>i<j. ?ch (?t # ts) i)" by (rule sum_nonneg) (use ts(3) j in simp)
    then have "min ?mx (min ?mx x + (\<Sum>i<j. ?ch (?t # ts) i)) = min ?mx (x + (\<Sum>i<j. ?ch (?t # ts) i))" for x
      by (simp add: min_def)
    moreover have "(\<Sum>i<Suc j. slot_charge ((t # ?t # ts) ! i) (fst ((u # us) ! i)) (snd ((u # us) ! i))) =
        slot_charge t d mode + (\<Sum>i<j. ?ch (?t # ts) i)"
      unfolding sum.lessThan_Suc_shift by (simp add: u)
    ultimately show ?thesis using ts(4) [OF j] a(4,5) unfolding Suc by (simp del: sum.lessThan_Suc add: add.assoc)
  qed
  moreover have "0 \<le> slot_charge ((t # ?t # ts) ! i) (fst ((u # us) ! i)) (snd ((u # us) ! i))" if "i < length (u # us)" for i
  proof (cases i)
    case 0
    have "tdma_wf t" using Cons.prems(1) by (simp add: losing_def)
    from charge_bounds(1) [OF this f] show ?thesis using 0 u by (simp split: if_splits)
  next
    case (Suc j)
    then show ?thesis using ts(3) [of j] that by simp
  qed
  ultimately show ?case using run ts(2) by (intro exI [of _ "?t # ts"]) simp
qed

text \<open>
  C36. Losing sync: a synced node that loses every frame stays synced exactly while the times its updates
  charge for the lost slots add up to less than the configured maximum (below \<open>2 ^ 31 - 2 ^ 18\<close> cycles), and is
  unsynced from then on. \<open>slot_charge\<close> is the duration with the pending correction, at level idle with the
  previous power-up delay once more, and without the corrections for a change of level.
\<close>

theorem tdma_sync_lost_exactly:
  assumes "tdma_wf t" "slave_sync_state t = STATE_SYNCED" "frame_lost_duration t = 0" "ts_duration_pll_cycles t = 0"
    and "0 < frame_lost_max_duration t" "uint (frame_lost_max_duration t) < 2 ^ 31 - 2 ^ 18"
    and "slots_fit (td_sleep_mode t) (slave_correction t) us" "k \<le> length us"
  shows "\<exists>ts. lost_run waited cca retries us t = Some ts \<and> length ts = length us \<and>
    (slave_sync_state ((t # ts) ! k) = STATE_SYNCED \<longleftrightarrow>
      (\<Sum>i<k. slot_charge ((t # ts) ! i) (fst (us ! i)) (snd (us ! i))) < uint (frame_lost_max_duration t))"
proof -
  have "losing t" using assms(1-6) by (simp add: losing_def STATE_SYNCED_def word_less_def)
  from lost_slots [OF this assms(7)] obtain ts where ts: "lost_run waited cca retries us t = Some ts" "length ts = length us"
    "losing ((t # ts) ! k)" "frame_lost_max_duration ((t # ts) ! k) = frame_lost_max_duration t"
    "uint (frame_lost_duration ((t # ts) ! k)) = min (uint (frame_lost_max_duration t))
       (uint (frame_lost_duration t) + (\<Sum>i<k. slot_charge ((t # ts) ! i) (fst (us ! i)) (snd (us ! i))))"
    using assms(8) by blast
  then show ?thesis using assms(3) by (intro exI [of _ ts]) (auto simp: losing_def STATE_SYNCED_def)
qed

theorem tdma_sync_lost_exactly_witness:
  "\<exists>ts. lost_run 0 (link_cca_disable undefined) 0 [(409600, SLEEP_IDLE), (409700, SLEEP_IDLE)] tdma_synced = Some ts \<and>
    slave_sync_state (ts ! 0) = STATE_SYNCED \<and> slave_sync_state (ts ! 1) \<noteq> STATE_SYNCED"
proof -
  let ?us = "[(409600, SLEEP_IDLE), (409700, SLEEP_IDLE)] :: (u32 \<times> sleep_lvl) list"
  note t = tdma_synced_fields
  have f: "slots_fit (td_sleep_mode tdma_synced) (slave_correction tdma_synced) ?us" "0 < frame_lost_max_duration tdma_synced"
    "uint (frame_lost_max_duration tdma_synced) < 2 ^ 31 - 2 ^ 18"
    using t(6,9,10) by (simp_all add: no_correction shortest_duration_def)
  have c: "slot_charge tdma_synced 409600 SLEEP_IDLE = 409600" using t(10,11) by (simp add: slot_charge_def no_correction transition_part_def)
  note th = tdma_sync_lost_exactly [OF t(1,3,7,8) f(2,3,1), of _ 0 "link_cca_disable undefined" 0]
  obtain ts where ts: "lost_run 0 (link_cca_disable undefined) 0 ?us tdma_synced = Some ts" "length ts = 2"
    "slave_sync_state ((tdma_synced # ts) ! 1) = STATE_SYNCED" using th [of 1] c t(9) by auto
  have "slave_sync_state (ts ! 1) \<noteq> STATE_SYNCED"
  proof -
    let ?t1 = "ts ! 0"
    obtain t1 where "sync_update 409600 SLEEP_IDLE tdma_synced = Some t1" using ts(1) by (auto split: option.splits)
    have "0 \<le> uint (pwr_up_delay_pll_cycles ?t1)" by simp
    moreover have "slot_charge ?t1 409700 SLEEP_IDLE = 409700 + slave_correction ?t1 + uint (pwr_up_delay_pll_cycles ?t1)"
      by (simp add: slot_charge_def transition_part_def)
    moreover have "slave_correction ?t1 = 0"
      using ts(1) by (auto simp: Let_def no_correction link_tdma_sync_slave_adjust_def slave_adjust_frame_lost_def split: option.splits)
    ultimately have "819200 \<le> slot_charge tdma_synced 409600 SLEEP_IDLE + slot_charge ?t1 409700 SLEEP_IDLE" using c by linarith
    moreover have two: "(\<Sum>i<2. f i) = f 0 + f 1" for f :: "nat \<Rightarrow> int" by (simp add: numeral_2_eq_2)
    moreover have "slave_sync_state ((tdma_synced # ts) ! 2) = STATE_SYNCED \<longleftrightarrow>
        (\<Sum>i<2. slot_charge ((tdma_synced # ts) ! i) (fst (?us ! i)) (snd (?us ! i))) < 819200"
      using th [of 2] ts(1) t(9) by auto
    ultimately show ?thesis unfolding two by simp
  qed
  with ts(1,3) show ?thesis by auto
qed

section \<open>Frame lengths\<close>

lemma preamble_symbols_value:
  assumes "uint p \<le> 2" "uint reg < 8000"
  shows "uint (preamble_symbols p reg l) = 4 * uint reg * uint (preamble_multiplier l) + 48 div (uint p + 2) + 1"
proof -
  let ?m = "uint (preamble_multiplier l)" and ?h = "48 div (uint p + 2)"
  have m: "?m = 1 \<or> ?m = 2" by (cases l) (simp_all add: preamble_multiplier_def)
  have "uint p = 0 \<or> uint p = 1 \<or> uint p = 2" using assms(1) uint_ge_0 [of p] by linarith
  then have h: "0 \<le> ?h" "?h \<le> 24" by auto
  have r: "0 \<le> uint reg" by (rule uint_ge_0)
  have "push_bit 2 reg * ucast (preamble_multiplier l) + word_of_int ?h + 1 =
      (word_of_int (4 * uint reg * ?m + ?h + 1) :: u32)"
  proof -
    have "push_bit 2 reg = word_of_int (4 * uint reg)" by (simp add: push_bit_eq_mult)
    moreover have "ucast (preamble_multiplier l) = (word_of_int ?m :: u32)" by (simp only: ucast_eq)
    ultimately show ?thesis by (simp only: of_int_mult of_int_add of_int_1)
  qed
  moreover have b: "0 \<le> 4 * uint reg * ?m + ?h + 1" "4 * uint reg * ?m + ?h + 1 < 65536" using m h r assms(2) by auto
  ultimately have e: "preamble_symbols p reg l = ucast (word_of_int (4 * uint reg * ?m + ?h + 1) :: u32)"
    unfolding preamble_symbols_def by (simp only:)
  define v where "v = 4 * uint reg * ?m + ?h + 1"
  have v: "0 \<le> v" "v < 65536" using b by (simp_all add: v_def)
  have "uint (ucast (word_of_int v :: u32) :: u16) = v"
    using v by (simp add: unsigned_ucast_eq unsigned_of_int take_bit_int_eq_self)
  then show ?thesis unfolding e v_def .
qed

lemma small_pauses: "uint (link_tdma_sync_get_isi_mitigation_pauses m) \<le> 2"
  by (cases m) (simp_all add: link_tdma_sync_get_isi_mitigation_pauses_def)

text \<open>
  Preamble: the register value is recovered from the length in chips that it leads to, for every
  start-frame delimiter and number of pauses.
\<close>

theorem tdma_preamble_round_trip:
  assumes "uint p \<le> 2" "uint reg < 8000"
  shows "link_tdma_get_preamble_reg_value p (link_tdma_get_preamble_length p reg l) l = ucast reg"
proof -
  let ?m = "uint (preamble_multiplier l)" and ?c = "uint p + 2"
  let ?y = "4 * uint reg * ?m + 48 div ?c + 1"
  note y = preamble_symbols_value [OF assms, of l]
  have m: "?m = 1 \<or> ?m = 2" by (cases l) (simp_all add: preamble_multiplier_def)
  have c: "2 \<le> ?c" "?c \<le> 4" using assms(1) uint_ge_0 [of p] by linarith+
  have yb: "0 \<le> ?y" "?y < 65536" using y uint_u16_bound [of "preamble_symbols p reg l"] uint_ge_0 [of "preamble_symbols p reg l"] by linarith+
  have "?y * ?c \<le> ?y * 4" using yb c by (intro mult_left_mono) simp_all
  then have "0 \<le> ?y * ?c" "?y * ?c < 2 ^ 32" using yb c by simp_all
  then have L: "uint (link_tdma_get_preamble_length p reg l) = ?y * ?c"
    unfolding link_tdma_get_preamble_length_def y by (intro uint_word_of_int_lt) simp_all
  have C: "uint (word_of_int ?c :: u32) = ?c" using c by (intro uint_word_of_int_lt) simp_all
  have "uint (link_tdma_get_preamble_length p reg l div word_of_int ?c) = ?y"
    unfolding uint_div L C by (rule nonzero_mult_div_cancel_right) (use c in linarith)
  then have D: "uint (ucast (link_tdma_get_preamble_length p reg l div word_of_int ?c) :: u16) = ?y"
    using yb by (simp add: unsigned_ucast_eq take_bit_int_eq_self)
  have "4 * uint reg * ?m sdiv (4 * ?m) = uint reg"
  proof -
    define r where "r = uint reg"
    have "0 \<le> r" by (simp add: r_def)
    then show ?thesis unfolding r_def [symmetric] using m by (auto simp: signed_divide_int_def sgn_if)
  qed
  then show ?thesis
    unfolding link_tdma_get_preamble_reg_value_def Let_def D by (simp only: add_diff_cancel_left' add_diff_cancel_right' ucast_eq)
qed

theorem tdma_preamble_round_trip_witness:
  "link_tdma_get_preamble_length 1 8 SFD_LENGTH_32_OOK = 147 \<and>
   link_tdma_get_preamble_reg_value 1 (link_tdma_get_preamble_length 1 8 SFD_LENGTH_32_OOK) SFD_LENGTH_32_OOK = 8"
  using tdma_preamble_round_trip [of 1 8 SFD_LENGTH_32_OOK]
  by (simp add: link_tdma_get_preamble_length_def preamble_symbols_def preamble_multiplier_def)

text \<open>
  C38. Changing the pauses between pulses: the incremental update of a fall-back mode gives the preamble
  that a fresh computation gives; for the start-frame delimiter it does so only if the delimiter is
  the OOK one or the number of pauses stays the same.
\<close>

theorem tdma_isi_update_exact:
  fixes t :: tdma_sync and m m0 :: isi_mitig and reg :: u32 and l :: sfd_length
  assumes "isi_mitig_pauses t = link_tdma_sync_get_isi_mitigation_pauses m0" "uint reg < 2000"
  defines "p0 \<equiv> link_tdma_sync_get_isi_mitigation_pauses m0" and "p \<equiv> link_tdma_sync_get_isi_mitigation_pauses m"
  defines "t0 \<equiv> link_tdma_set_sfd_length p0 l (link_tdma_set_preamble_length p0 reg l t)"
    and "t1 \<equiv> link_tdma_set_sfd_length p l (link_tdma_set_preamble_length p reg l t)"
  shows "preamble_size_bits (link_tdma_update_isi_mitig_pauses m t0) = preamble_size_bits t1 \<and>
    (sfd_size_bits (link_tdma_update_isi_mitig_pauses m t0) = sfd_size_bits t1 \<longleftrightarrow> l = SFD_LENGTH_32_OOK \<or> p = p0)"
proof -
  let ?y = "\<lambda>p. uint (preamble_symbols p reg l)"
  have y: "?y p = 4 * uint reg * uint (preamble_multiplier l) + 48 div (uint p + 2) + 1"
    "?y p0 = 4 * uint reg * uint (preamble_multiplier l) + 48 div (uint p0 + 2) + 1"
    using assms(2) small_pauses unfolding p_def p0_def by (simp_all add: preamble_symbols_value)
  have m: "uint (preamble_multiplier l) = 1 \<or> uint (preamble_multiplier l) = 2"
    by (cases l) (simp_all add: preamble_multiplier_def)
  have b: "?y q * (uint q + 2) < 65536" if "q = p \<or> q = p0" for q
  proof -
    have "uint q = 0 \<or> uint q = 1 \<or> uint q = 2" using that unfolding p_def p0_def
      by (cases m; cases m0) (auto simp: link_tdma_sync_get_isi_mitigation_pauses_def)
    moreover have "?y q = 4 * uint reg * uint (preamble_multiplier l) + 48 div (uint q + 2) + 1" using that y by auto
    ultimately show ?thesis using m assms(2) by auto
  qed
  have c2: "uint (q + 2) = uint q + 2" if "q = p \<or> q = p0" for q :: u8
    using that unfolding p_def p0_def by (cases m; cases m0) (auto simp: link_tdma_sync_get_isi_mitigation_pauses_def)
  have s0: "uint (preamble_size_bits t0) = ?y p0 * (uint p0 + 2)"
  proof -
    have "preamble_size_bits t0 = word_of_int (?y p0 * (uint p0 + 2))"
      by (simp add: t0_def link_tdma_set_preamble_length_def link_tdma_set_sfd_length_def)
    also have "uint \<dots> = ?y p0 * (uint p0 + 2)"
      by (rule uint_word_of_int_lt) (use b [of p0] in simp_all)
    finally show ?thesis .
  qed
  have i0: "isi_mitig_pauses t0 = p0"
    using assms(1) by (simp add: t0_def p0_def link_tdma_set_preamble_length_def link_tdma_set_sfd_length_def)
  have nz: "uint p0 + 2 \<noteq> 0" using uint_ge_0 [of p0] by linarith
  have "preamble_size_bits (link_tdma_update_isi_mitig_pauses m t0) =
      word_of_int ((?y p0 - 48 div (uint p0 + 2) + 48 div (uint p + 2)) * (uint p + 2))"
    unfolding link_tdma_update_isi_mitig_pauses_def Let_def i0 p_def [symmetric] using nz by (simp add: s0 c2)
  also have "?y p0 - 48 div (uint p0 + 2) + 48 div (uint p + 2) = ?y p" using y by simp
  finally have pre: "preamble_size_bits (link_tdma_update_isi_mitig_pauses m t0) = preamble_size_bits t1"
    by (simp add: t1_def link_tdma_set_preamble_length_def link_tdma_set_sfd_length_def)
  have z0: "sfd_size_bits t0 = word_of_int (sfd_symbols l * sfd_multiplier l + sfd_symbols l * uint p0)"
    "sfd_size_bits t1 = word_of_int (sfd_symbols l * sfd_multiplier l + sfd_symbols l * uint p)"
    by (simp_all add: t0_def t1_def link_tdma_set_sfd_length_def)
  have "sfd_size_bits (link_tdma_update_isi_mitig_pauses m t0) =
      word_of_int (uint (sfd_size_bits t0) * (uint p + 1) div (uint p0 + 1))"
    unfolding link_tdma_update_isi_mitig_pauses_def Let_def i0 p_def [symmetric] by simp
  then have "sfd_size_bits (link_tdma_update_isi_mitig_pauses m t0) = sfd_size_bits t1 \<longleftrightarrow> l = SFD_LENGTH_32_OOK \<or> p = p0"
    unfolding z0 p_def p0_def
    by (cases l; cases m; cases m0) (simp_all add: sfd_symbols_def sfd_multiplier_def link_tdma_sync_get_isi_mitigation_pauses_def)
  with pre show ?thesis ..
qed

theorem tdma_isi_update_exact_witness:
  "\<exists>t0. preamble_size_bits t0 = 146 \<and> preamble_size_bits (link_tdma_update_isi_mitig_pauses ISI_MITIG_1 t0) \<noteq> 0 \<and>
     sfd_size_bits (link_tdma_update_isi_mitig_pauses ISI_MITIG_1 t0) \<noteq>
     sfd_size_bits (link_tdma_set_sfd_length 1 SFD_LENGTH_16_1BIT_PPM t0)"
proof -
  let ?t0 = "link_tdma_set_sfd_length 0 SFD_LENGTH_16_1BIT_PPM (link_tdma_set_preamble_length 0 12 SFD_LENGTH_16_1BIT_PPM tdma_demo)"
  have p: "link_tdma_sync_get_isi_mitigation_pauses ISI_MITIG_0 = 0" "link_tdma_sync_get_isi_mitigation_pauses ISI_MITIG_1 = 1"
    by (simp_all add: link_tdma_sync_get_isi_mitigation_pauses_def)
  have "isi_mitig_pauses tdma_demo = link_tdma_sync_get_isi_mitigation_pauses ISI_MITIG_0"
    by (simp add: p tdma_demo_def link_tdma_sync_init_def)
  from tdma_isi_update_exact [OF this, of 12 ISI_MITIG_1 SFD_LENGTH_16_1BIT_PPM]
  show ?thesis unfolding p by (intro exI [of _ ?t0])
    (simp add: link_tdma_set_preamble_length_def link_tdma_set_sfd_length_def preamble_symbols_def preamble_multiplier_def)
qed

end
