(* ===== verification/Mac_Stats.thy ===== *)
theory Mac_Stats
  imports Mac_State
begin

text \<open>
  The statistics of the MAC layer (\<open>wps_mac_statistics.c\<close>), in the build without statistics per band: the
  two entries that hold the measures of the last main and auto-reply frame until
  \<open>wps_mac_statistics_process_data\<close> feeds them to the quality indicators, and the counters of a
  connection. Differences of pointers are converted to the width of the counter.
\<close>

definition WPS_MAC_STATISTICS_BUFFER_STAT_SIZE :: nat where "WPS_MAC_STATISTICS_BUFFER_STAT_SIZE = 2"
definition MAIN_CONN_STAT_INPUT_ID :: nat where "MAIN_CONN_STAT_INPUT_ID = 0"
definition AUTO_CONN_STAT_INPUT_ID :: nat where "AUTO_CONN_STAT_INPUT_ID = 1"

section \<open>Measures\<close>

definition wps_mac_statistics_init :: "wps_mac_stats \<Rightarrow> wps_mac_stats" where
  "wps_mac_statistics_init s =
     s\<lparr>no_space_counter := 0, input_data := map (\<lambda>e. e\<lparr>se_connection := None\<rparr>) (input_data s)\<rparr>"

definition stats_entry :: "nat \<Rightarrow> 's wps_mac \<Rightarrow> wps_mac_stats_entry" where
  "stats_entry i m = input_data (stats_process_data m) ! i"

definition upd_stats_entry :: "nat \<Rightarrow> (wps_mac_stats_entry \<Rightarrow> wps_mac_stats_entry) \<Rightarrow> 's wps_mac \<Rightarrow> 's wps_mac" where
  "upd_stats_entry i f m = m\<lparr>stats_process_data := (stats_process_data m)
     \<lparr>input_data := (input_data (stats_process_data m))[i := f (stats_entry i m)]\<rparr>\<rparr>"

definition wps_mac_statistics_store_process_data :: "nat \<Rightarrow> nat option \<Rightarrow> frame_outcome \<Rightarrow> 's wps_mac \<Rightarrow> 's wps_mac" where
  "wps_mac_statistics_store_process_data i connection outcome m =
     upd_stats_entry i (\<lambda>e. e\<lparr>se_connection := connection, se_channel_index := channel_index m,
       se_frame_outcome := outcome, se_rssi := ucast (ci_rssi_raw (mac_config m)),
       se_rnsi := ucast (ci_rnsi_raw (mac_config m)), se_phase_offset := ci_phase_offset (mac_config m),
       se_phase_offset_count := ci_phase_offset_count (mac_config m)\<rparr>) m"

text \<open>What the four update functions share: entry, connection, outcome, and whether the frame was empty.\<close>

definition update_conn_measures :: "nat \<Rightarrow> nat option \<Rightarrow> frame_outcome \<Rightarrow> bool \<Rightarrow> 's wps_mac \<Rightarrow> 's wps_mac" where
  "update_conn_measures i connection outcome is_empty m =
     (if se_connection (stats_entry i m) \<noteq> None
      then m\<lparr>stats_process_data := (stats_process_data m)\<lparr>no_space_counter := no_space_counter (stats_process_data m) + 1\<rparr>\<rparr>
      else upd_stats_entry i (\<lambda>e. e\<lparr>se_empty_frame := is_empty\<rparr>)
             (wps_mac_statistics_store_process_data i connection outcome m))"

definition wps_mac_statistics_update_main_conn :: "'s wps_mac \<Rightarrow> 's wps_mac" where
  "wps_mac_statistics_update_main_conn m =
     update_conn_measures MAIN_CONN_STAT_INPUT_ID (main_connection m) (frame_outcome (main_xlayer_frame m)) False m"

definition wps_mac_statistics_update_auto_conn :: "'s wps_mac \<Rightarrow> 's wps_mac" where
  "wps_mac_statistics_update_auto_conn m =
     update_conn_measures AUTO_CONN_STAT_INPUT_ID (auto_connection m) (frame_outcome (auto_xlayer_frame m)) False m"

definition wps_mac_statistics_update_main_conn_empty_frame :: "'s wps_mac \<Rightarrow> 's wps_mac" where
  "wps_mac_statistics_update_main_conn_empty_frame m =
     update_conn_measures MAIN_CONN_STAT_INPUT_ID (main_connection m) (frame_outcome (main_xlayer_frame m)) True m"

definition wps_mac_statistics_update_auto_conn_empty_frame :: "'s wps_mac \<Rightarrow> 's wps_mac" where
  "wps_mac_statistics_update_auto_conn_empty_frame m =
     (if auto_connection m = None then m
      else update_conn_measures AUTO_CONN_STAT_INPUT_ID (auto_connection m) (frame_outcome (auto_xlayer_frame m)) True m)"

text \<open>
  One step of the processing loop. The first indicator normalises the phase offsets in place, so the
  second one works on its result; \<open>None\<close> is a division by zero there.
\<close>

definition process_stats_entry :: "nat \<Rightarrow> 's wps_mac \<Rightarrow> 's wps_mac option" where
  "process_stats_entry i m =
     (let e = stats_entry i m in
      case se_connection e of
        None \<Rightarrow> Some m
      | Some a \<Rightarrow>
          (let c = mac_conns m a;
               gain = link_gain_loop_get_gain_index (conn_gain_loop c ! unat (se_channel_index e));
               update = (\<lambda>l d. link_lqi_update l gain (se_frame_outcome e) (se_rssi e) (se_rnsi e) d (se_phase_offset_count e))
           in case (if se_empty_frame e = False then update (conn_used_frame_lqi c) (se_phase_offset e)
                    else Some (conn_used_frame_lqi c, se_phase_offset e)) of
                None \<Rightarrow> None
              | Some (used, d) \<Rightarrow>
                  map_option (\<lambda>(l, _). upd_stats_entry i (\<lambda>e. e\<lparr>se_phase_offset := replicate PHASE_OFFSET_BYTE_COUNT 0, se_connection := None\<rparr>)
                      (upd_conn (Some a) (\<lambda>c. c\<lparr>conn_used_frame_lqi := used, conn_lqi := l\<rparr>) m))
                    (update (conn_lqi c) d)))"

definition wps_mac_statistics_process_data :: "'s wps_mac \<Rightarrow> 's wps_mac option" where
  "wps_mac_statistics_process_data m =
     Option.bind (process_stats_entry MAIN_CONN_STAT_INPUT_ID m) (process_stats_entry AUTO_CONN_STAT_INPUT_ID)"

section \<open>Counters\<close>

definition upd_stats :: "nat option \<Rightarrow> (wps_stats \<Rightarrow> wps_stats) \<Rightarrow> 's wps_mac \<Rightarrow> 's wps_mac" where
  "upd_stats p f = upd_conn p (\<lambda>c. c\<lparr>conn_wps_stats := f (conn_wps_stats c)\<rparr>)"

definition payload_bytes :: "xlayer_frame \<Rightarrow> u32" where
  "payload_bytes f = word_of_int (int (payload_end_it f) - int (payload_begin_it f))"

definition wps_mac_update_stats :: "'s wps_mac \<Rightarrow> 's wps_mac" where
  "wps_mac_update_stats m =
     (let c = main_connection m; n = ucast (ci_cca_try_count (mac_config m))
      in if cca_enable (conn_cca (conn_at m c)) then
           (if ci_cca_try_count (mac_config m) \<ge> ci_cca_max_try_count (mac_config m)
            then upd_conn c (\<lambda>x. x\<lparr>total_cca_events := total_cca_events x + 1,
                   total_cca_fail_count := total_cca_fail_count x + n,
                   total_cca_tx_fail_count := total_cca_tx_fail_count x + 1,
                   conn_wps_stats := (conn_wps_stats x)\<lparr>st_cca_fail := st_cca_fail (conn_wps_stats x) + n,
                      st_cca_tx_fail := st_cca_tx_fail (conn_wps_stats x) + 1\<rparr>\<rparr>) m
            else if frame_outcome (main_xlayer_frame m) \<noteq> FRAME_WAIT
            then upd_conn c (\<lambda>x. x\<lparr>total_cca_events := total_cca_events x + 1,
                   total_cca_fail_count := total_cca_fail_count x + n,
                   conn_wps_stats := (conn_wps_stats x)\<lparr>st_cca_fail := st_cca_fail (conn_wps_stats x) + n,
                      st_cca_pass := st_cca_pass (conn_wps_stats x) + 1\<rparr>\<rparr>) m
            else m)
         else m)"

definition wps_mac_statistics_update_main_stats :: "'s wps_mac \<Rightarrow> 's wps_mac" where
  "wps_mac_statistics_update_main_stats m =
     (let c = main_connection m; bytes = payload_bytes (main_xlayer_frame m) in
      case mac_main_signal m of
        MAC_SIGNAL_WPS_FRAME_RX_SUCCESS \<Rightarrow>
          upd_stats c (\<lambda>s. s\<lparr>st_rx_received := st_rx_received s + 1, st_rx_byte_received := st_rx_byte_received s + bytes,
            st_cca_fail := st_cca_fail s + (if cca_enable (conn_cca (conn_at m c))
              then ucast (ci_rx_cca_retry_count (mac_config m)) else 0)\<rparr>) m
      | MAC_SIGNAL_WPS_FRAME_RX_OVERRUN \<Rightarrow> upd_stats c (\<lambda>s. s\<lparr>st_rx_overrun := st_rx_overrun s + 1\<rparr>) m
      | MAC_SIGNAL_WPS_TX_SUCCESS \<Rightarrow>
          wps_mac_update_stats (upd_stats c (\<lambda>s. s\<lparr>st_tx_success := st_tx_success s + 1,
            st_tx_byte_sent := st_tx_byte_sent s + bytes\<rparr>) m)
      | MAC_SIGNAL_WPS_TX_FAIL \<Rightarrow> wps_mac_update_stats (upd_stats c (\<lambda>s. s\<lparr>st_tx_fail := st_tx_fail s + 1\<rparr>) m)
      | MAC_SIGNAL_WPS_TX_DROP \<Rightarrow>
          upd_conn c (\<lambda>x. x\<lparr>total_pkt_dropped := total_pkt_dropped x + 1\<rparr>)
            (upd_stats c (\<lambda>s. s\<lparr>st_tx_drop := st_tx_drop s + 1\<rparr>) m)
      | MAC_SIGNAL_WPS_EMPTY \<Rightarrow> wps_mac_update_stats m
      | _ \<Rightarrow> m)"

text \<open>The part of a device that has no auto-reply connection and counts on the main one.\<close>

definition update_auto_stats_of_main :: "'s wps_mac \<Rightarrow> 's wps_mac" where
  "update_auto_stats_of_main m =
     (let c = main_connection m;
          received = upd_stats c (\<lambda>s. s\<lparr>st_rx_received := st_rx_received s + 1\<rparr>) m;
          sent = (if header_memory_size (auto_xlayer_frame m) \<noteq> 0
                  then upd_stats c (\<lambda>s. s\<lparr>st_tx_success := st_tx_success s + 1\<rparr>) m else m)
      in case mac_auto_signal m of
           MAC_SIGNAL_WPS_FRAME_RX_OVERRUN \<Rightarrow> received
         | MAC_SIGNAL_WPS_FRAME_RX_SUCCESS \<Rightarrow> received
         | MAC_SIGNAL_WPS_TX_SUCCESS \<Rightarrow> sent
         | MAC_SIGNAL_WPS_EMPTY \<Rightarrow> if input_auto_signal m = PHY_SIGNAL_FRAME_RECEIVED then received else sent
         | _ \<Rightarrow> m)"

definition wps_mac_statistics_update_auto_stats :: "'s wps_mac \<Rightarrow> 's wps_mac" where
  "wps_mac_statistics_update_auto_stats m =
     (if auto_connection m = None then update_auto_stats_of_main m
      else (let c = auto_connection m; bytes = payload_bytes (auto_xlayer_frame m) in
        case mac_auto_signal m of
          MAC_SIGNAL_WPS_FRAME_RX_SUCCESS \<Rightarrow>
            upd_stats c (\<lambda>s. s\<lparr>st_rx_received := st_rx_received s + 1, st_rx_byte_received := st_rx_byte_received s + bytes\<rparr>) m
        | MAC_SIGNAL_WPS_FRAME_RX_OVERRUN \<Rightarrow> upd_stats c (\<lambda>s. s\<lparr>st_rx_overrun := st_rx_overrun s + 1\<rparr>) m
        | MAC_SIGNAL_WPS_TX_SUCCESS \<Rightarrow>
            upd_stats c (\<lambda>s. s\<lparr>st_tx_success := st_tx_success s + 1, st_tx_byte_sent := st_tx_byte_sent s + bytes\<rparr>) m
        | MAC_SIGNAL_WPS_TX_FAIL \<Rightarrow> upd_stats c (\<lambda>s. s\<lparr>st_tx_fail := st_tx_fail s + 1\<rparr>) m
        | MAC_SIGNAL_WPS_TX_DROP \<Rightarrow>
            upd_conn c (\<lambda>x. x\<lparr>total_pkt_dropped := total_pkt_dropped x + 1\<rparr>)
              (upd_stats c (\<lambda>s. s\<lparr>st_tx_drop := st_tx_drop s + 1\<rparr>) m)
        | _ \<Rightarrow> m))"

definition wps_mac_statistics_update_tx_dropped_conn_stats :: "nat option \<Rightarrow> 's wps_mac \<Rightarrow> 's wps_mac" where
  "wps_mac_statistics_update_tx_dropped_conn_stats p =
     upd_conn p (\<lambda>x. x\<lparr>total_pkt_dropped := total_pkt_dropped x + 1,
       conn_wps_stats := (conn_wps_stats x)\<lparr>st_tx_drop := st_tx_drop (conn_wps_stats x) + 1\<rparr>\<rparr>)"

end
