(* ===== verification/Mac_Xlayer.thy ===== *)
theory Mac_Xlayer
  imports Mac_Stats Mac_Timeslots Wps_Conn
begin

text \<open>
  How the MAC layer gets at the frames (\<open>wps_mac_xlayer.c\<close>, \<open>wps_mac_xlayer.h\<close>): which descriptor a
  slot transmits or receives into, the memory for a received payload, and the values handed to the
  physical layer. The functions of a connection's own state are those of \<open>Wps_Conn\<close>; \<open>conn_io\<close>
  is the part of the MAC's state they work on, for the connection at an address, and \<open>put_tx_io\<close>
  and \<open>put_rx_io\<close> store what the transmit and the receive functions change.

  \<open>NULL\<close> is 0 for the iterators of a frame. The functions that set up a reception also take the
  scheduler's current slot from the state.
\<close>

definition data_at :: "'s wps_mac \<Rightarrow> nat \<Rightarrow> xlayer_circular_data option" where
  "data_at m a = (if a = 0 then None else Some (mac_data m a))"

definition set_data :: "nat \<Rightarrow> xlayer_circular_data option \<Rightarrow> (nat \<Rightarrow> xlayer_circular_data) \<Rightarrow> nat \<Rightarrow> xlayer_circular_data" where
  "set_data a d f = (case d of None \<Rightarrow> f | Some c \<Rightarrow> f(a := c))"

definition conn_io :: "nat option \<Rightarrow> 's wps_mac \<Rightarrow> wps_io" where
  "conn_io p m = (let c = conn_at m p in
     \<lparr>io_heap = mac_heap m, io_mem = mac_mem m, io_queue = conn_xlayer_queue c, io_free_tx_queue = conn_free_tx_queue c,
      io_tx_data = data_at m (conn_tx_data c), io_rx_data = data_at m (conn_rx_data c),
      io_header_size = ucast (conn_header_size c), io_payload_size = conn_payload_size c,
      io_tx_node = conn_tx_node c, io_now = conn_tick c\<rparr>)"

definition put_tx_io :: "nat option \<Rightarrow> wps_io \<Rightarrow> 's wps_mac \<Rightarrow> 's wps_mac" where
  "put_tx_io p s m = upd_conn p (\<lambda>c. c\<lparr>conn_tx_node := io_tx_node s\<rparr>)
     (m\<lparr>mac_heap := io_heap s, mac_mem := io_mem s, mac_data := set_data (conn_tx_data (conn_at m p)) (io_tx_data s) (mac_data m)\<rparr>)"

definition put_rx_io :: "nat option \<Rightarrow> wps_io \<Rightarrow> 's wps_mac \<Rightarrow> 's wps_mac" where
  "put_rx_io p s m =
     m\<lparr>mac_heap := io_heap s, mac_data := set_data (conn_rx_data (conn_at m p)) (io_rx_data s) (mac_data m)\<rparr>"

definition mac_free_node_with_data :: "nat option \<Rightarrow> nat option \<Rightarrow> 's wps_mac \<Rightarrow> 's wps_mac" where
  "mac_free_node_with_data p node m =
     (case node of None \<Rightarrow> m
      | Some a \<Rightarrow> put_rx_io p (wps_mac_xlayer_free_node_with_data (Some a) (conn_io p m)) m)"

section \<open>Certification frames\<close>

definition PHY_CERTIF_BYTE0 :: byte where "PHY_CERTIF_BYTE0 = 0x6F"
definition PHY_CERTIF_BYTE1 :: byte where "PHY_CERTIF_BYTE1 = 0x0A"

definition certification_pattern :: "byte \<Rightarrow> byte \<Rightarrow> nat \<Rightarrow> byte list" where
  "certification_pattern x y n = map (\<lambda>i. if even i then x else y) [0..<n]"

definition wps_mac_certification_send :: "nat option \<Rightarrow> 's wps_mac \<Rightarrow> 's wps_mac" where
  "wps_mac_certification_send p m =
     (let c = conn_at m p; (slot, s1) = wps_get_free_slot (ucast (conn_payload_size c)) (conn_io p m)
      in case slot of
           Inl err \<Rightarrow> put_tx_io p s1 m
         | Inr data \<Rightarrow>
             if data = 0 then put_tx_io p s1 m
             else (let bytes = (if even (unat (max_buffer_size (conn_link_protocol c)))
                        then certification_pattern PHY_CERTIF_BYTE0 PHY_CERTIF_BYTE1 (unat (conn_payload_size c))
                        else certification_pattern PHY_CERTIF_BYTE1 PHY_CERTIF_BYTE0 (unat (conn_payload_size c)));
                       s2 = s1\<lparr>io_mem := store_bytes data bytes (io_mem s1)\<rparr>
                   in put_tx_io p (snd (wps_send data (conn_payload_size c) s2)) m))"

definition wps_mac_certification_fill_header :: "nat \<Rightarrow> u8 \<Rightarrow> 's wps_mac \<Rightarrow> 's wps_mac" where
  "wps_mac_certification_fill_header header sz m =
     m\<lparr>mac_mem := store_bytes header (certification_pattern PHY_CERTIF_BYTE0 PHY_CERTIF_BYTE1 (unat sz)) (mac_mem m)\<rparr>"

section \<open>Transmission\<close>

text \<open>The node behind the network's clock: \<open>unsync\<close> of the three functions.\<close>

definition mac_unsync :: "'s wps_mac \<Rightarrow> bool" where
  "mac_unsync m \<longleftrightarrow> slave_sync_state (mac_tdma_sync m) = STATE_SYNCING \<and> node_role m = NETWORK_NODE"

text \<open>The empty transmit frame with a header of \<open>sz\<close> bytes or, for \<open>None\<close>, without a header.\<close>

definition set_empty_frame_tx :: "u16 option \<Rightarrow> u64 \<Rightarrow> 's wps_mac \<Rightarrow> 's wps_mac" where
  "set_empty_frame_tx sz now m =
     (let mem = (case sz of None \<Rightarrow> 0 | Some n \<Rightarrow> overrun_buffer m + XLAYER_QUEUE_SPI_COMM_ADDITIONAL_BYTES);
          e = (case sz of None \<Rightarrow> 0 | Some n \<Rightarrow> mem + unat n)
      in upd_xlayer_frame (Some XL_EMPTY_TX) (\<lambda>f. f\<lparr>header_memory := mem, header_end_it := e, header_begin_it := e,
           payload_end_it := e, payload_begin_it := e, time_stamp := now\<rparr>) m)"

definition check_credits :: "nat option \<Rightarrow> 's wps_mac \<Rightarrow> bool \<times> 's wps_mac" where
  "check_credits p m = (let (valid, k) = link_credit_flow_ctrl_is_available (conn_credit_flow_ctrl (conn_at m p))
     in (valid, upd_conn p (\<lambda>c. c\<lparr>conn_credit_flow_ctrl := k\<rparr>) m))"

definition wps_mac_xlayer_get_xlayer_for_tx_main :: "nat option \<Rightarrow> 's wps_mac \<Rightarrow> xlayer_ref \<times> 's wps_mac" where
  "wps_mac_xlayer_get_xlayer_for_tx_main p m0 =
     (let unsync = mac_unsync m0; (valid_credits, m) = check_credits p m0; c = conn_at m p;
          node = (if conn_currently_enabled c \<and> valid_credits
                  then xlayer_queue_get_node (conn_xlayer_queue c) (mac_heap m) else None)
      in if conn_currently_enabled c \<and> valid_credits \<and> send_sync_frame c \<and> node \<noteq> None \<and> node_role m = NETWORK_COORDINATOR
         then (XL_EMPTY_TX, set_empty_frame_tx (Some (conn_header_size c)) (conn_tick c) m)
         else if node = None \<or> unsync
         then (XL_EMPTY_TX,
               set_empty_frame_tx
                 (if auto_sync_enable c \<and> \<not> unsync \<or> link_credit_flow_ctrl_is_skipped_frames_exceed (conn_credit_flow_ctrl c)
                  then Some (conn_header_size c) else None) (conn_tick c) m)
         else (XL_NODE (the node),
               upd_xlayer_frame (Some (XL_NODE (the node))) (\<lambda>f. f\<lparr>header_begin_it := header_end_it f\<rparr>) m))"

definition wps_mac_xlayer_get_xlayer_for_tx_auto :: "nat option \<Rightarrow> 's wps_mac \<Rightarrow> xlayer_ref \<times> 's wps_mac" where
  "wps_mac_xlayer_get_xlayer_for_tx_auto p m0 =
     (let unsync = mac_unsync m0; (valid_credits, m) = check_credits p m0; c = conn_at m p;
          node = (if conn_currently_enabled c \<and> valid_credits
                  then xlayer_queue_get_node (conn_xlayer_queue c) (mac_heap m) else None)
      in if node = None \<or> unsync
         then (XL_EMPTY_TX,
               set_empty_frame_tx
                 (if auto_sync_enable c \<and> \<not> unsync \<or> cfc_enabled (conn_credit_flow_ctrl c) \<or>
                     conn_ranging_mode c \<noteq> WPS_RANGING_DISABLED
                  then Some (conn_header_size c) else None) (conn_tick c) m)
         else (XL_NODE (the node),
               upd_xlayer_frame (Some (XL_NODE (the node))) (\<lambda>f. f\<lparr>header_begin_it := header_end_it f\<rparr>) m))"

section \<open>Reception\<close>

definition EMPTY_BYTE :: nat where "EMPTY_BYTE = 1"

definition wps_mac_xlayer_get_xlayer_for_rx :: "nat option \<Rightarrow> 's wps_mac \<Rightarrow> xlayer_ref \<times> 's wps_mac" where
  "wps_mac_xlayer_get_xlayer_for_rx p m0 =
     (let c = conn_at m0 p; unsync = (\<not> slave_synced m0 \<and> node_role m0 = NETWORK_NODE);
          (node, h) = xlayer_queue_get_free_node (conn_free_rx_queue c) (mac_heap m0);
          m = m0\<lparr>rx_node := node, mac_heap := h\<rparr>;
          mem = overrun_buffer m + XLAYER_QUEUE_SPI_COMM_ADDITIONAL_BYTES
      in case node of
           None \<Rightarrow>
             (XL_EMPTY_RX, upd_xlayer_frame (Some XL_EMPTY_RX) (\<lambda>f. f\<lparr>header_memory := mem, header_end_it := mem,
                header_begin_it := mem, payload_begin_it := mem + unat (conn_header_size c) + EMPTY_BYTE,
                payload_memory_size := conn_payload_size c, header_memory_size := ucast (conn_header_size c)\<rparr>) m)
         | Some a \<Rightarrow>
             (XL_NODE a, upd_xlayer_frame (Some (XL_NODE a)) (\<lambda>f. f\<lparr>
                payload_memory_size :=
                  (if unsync \<and> tx_sync_frame_on_syncing c then 0
                   else if conn_is_main c then link_scheduler_get_current_timeslot_main_max_payload_size (mac_scheduler m)
                   else link_scheduler_get_current_timeslot_auto_max_payload_size (mac_scheduler m)),
                header_memory_size := ucast (conn_header_size c)\<rparr>) m))"

text \<open>
  The payload memory of a received frame: \<open>allocate_payload\<close> is the end of both functions, for the
  descriptor the physical layer passes and the one the MAC works on.
\<close>

definition allocate_payload :: "xlayer_ref \<Rightarrow> xlayer_ref option \<Rightarrow> nat option \<Rightarrow> u8 \<Rightarrow> 's wps_mac \<Rightarrow> 's wps_mac" where
  "allocate_payload frame target p required_space m =
     (let c = conn_at m p in
      if required_space > conn_payload_size c
      then upd_xlayer_frame (Some frame) (\<lambda>f. f\<lparr>payload_memory := 0, payload_begin_it := 0\<rparr>) m
      else (let (mem, d) = xlayer_circular_data_allocate_space (data_at m (conn_rx_data c)) (ucast (conn_payload_size c));
                a = (case mem of None \<Rightarrow> 0 | Some x \<Rightarrow> x);
                m1 = m\<lparr>mac_data := set_data (conn_rx_data c) d (mac_data m)\<rparr>
            in upd_xlayer_frame target (\<lambda>f. f\<lparr>payload_memory := a, payload_begin_it := a,
                 max_frame_size := (if a \<noteq> 0 then conn_payload_size c else max_frame_size f)\<rparr>) m1))"

definition wps_mac_xlayer_update_main_rx_payload_buffer :: "xlayer_ref \<Rightarrow> u8 \<Rightarrow> 's wps_mac \<Rightarrow> 's wps_mac" where
  "wps_mac_xlayer_update_main_rx_payload_buffer frame required_space m0 =
     (let m = wps_mac_timeslots_find_received_timeslot_and_connection_main (mac_mem m0) m0 (xl_frame (xlayer_at m0 frame))
      in if rx_node m = None \<or> required_space = 0 then m
         else allocate_payload frame (main_xlayer m)
                (link_scheduler_get_current_main_connection (mac_scheduler m) (main_connection_id m)) required_space m)"

definition wps_mac_xlayer_update_auto_reply_rx_payload_buffer :: "xlayer_ref \<Rightarrow> u8 \<Rightarrow> 's wps_mac \<Rightarrow> 's wps_mac" where
  "wps_mac_xlayer_update_auto_reply_rx_payload_buffer frame required_space m0 =
     (let m = wps_mac_timeslots_find_received_timeslot_and_connection_auto (mac_mem m0) m0 (xl_frame (xlayer_at m0 frame))
      in if rx_node m = None \<or> required_space = 0 then m
         else allocate_payload frame (auto_xlayer m)
                (link_scheduler_get_current_auto_connection (mac_scheduler m) (auto_connection_id m)) required_space m)"

text \<open>The frame of an auto reply without a connection of its own.\<close>

definition set_empty_auto_reply_frame :: "nat option \<Rightarrow> 's wps_mac \<Rightarrow> 's wps_mac" where
  "set_empty_auto_reply_frame p m =
     (let mem = auto_reply_buffer m + XLAYER_QUEUE_SPI_COMM_ADDITIONAL_BYTES
      in upd_xlayer_frame (Some XL_EMPTY_AUTO) (\<lambda>f. f\<lparr>header_memory := mem, header_end_it := mem, header_begin_it := mem,
           payload_end_it := mem, payload_begin_it := mem, payload_memory_size := 0,
           header_memory_size := ucast (conn_ack_header_size (conn_at m p))\<rparr>) m)"

definition wps_mac_xlayer_get_xlayer_for_empty_rx_auto :: "nat option \<Rightarrow> 's wps_mac \<Rightarrow> xlayer_ref \<times> 's wps_mac" where
  "wps_mac_xlayer_get_xlayer_for_empty_rx_auto p m = (XL_EMPTY_AUTO, set_empty_auto_reply_frame p (m\<lparr>rx_node := None\<rparr>))"

definition wps_mac_xlayer_get_xlayer_for_empty_tx_auto :: "nat option \<Rightarrow> 's wps_mac \<Rightarrow> xlayer_ref \<times> 's wps_mac" where
  "wps_mac_xlayer_get_xlayer_for_empty_tx_auto p m = (XL_EMPTY_AUTO, set_empty_auto_reply_frame p m)"

section \<open>Values for the physical layer\<close>

definition wps_mac_xlayer_update_sync :: "'s wps_mac \<Rightarrow> 's wps_mac" where
  "wps_mac_xlayer_update_sync m = upd_config (\<lambda>c. c\<lparr>
     ci_power_up_delay := link_tdma_sync_get_pwr_up (mac_tdma_sync m),
     ci_sleep_time := link_tdma_sync_get_sleep_cycles (mac_tdma_sync m),
     ci_rx_timeout := ucast (if \<not> slave_synced m \<and> node_role m = NETWORK_NODE
       then link_tdma_get_rx_timeout_base_value (mac_tdma_sync m) (ci_chip_rate (mac_config m))
       else link_tdma_sync_get_timeout (mac_tdma_sync m))\<rparr>) m"

definition wps_mac_xlayer_update_main_link_parameter :: "'s wps_mac \<Rightarrow> 's wps_mac" where
  "wps_mac_xlayer_update_main_link_parameter m =
     (let c = conn_at m (main_connection m) in
      upd_xlayer_frame (main_xlayer m) (\<lambda>f. f\<lparr>destination_address := conn_destination_address c,
        source_address := conn_source_address c\<rparr>) m)"

definition wps_mac_xlayer_update_auto_reply_link_parameter :: "'s wps_mac \<Rightarrow> 's wps_mac" where
  "wps_mac_xlayer_update_auto_reply_link_parameter m =
     (let c = conn_at m (auto_connection m) in
      if auto_xlayer m = None then m
      else upd_xlayer_frame (auto_xlayer m) (\<lambda>f. f\<lparr>destination_address := conn_destination_address c,
             source_address := conn_source_address c\<rparr>) m)"

definition wps_mac_xlayer_update_empty_auto_conn_reply_link_parameter :: "'s wps_mac \<Rightarrow> 's wps_mac" where
  "wps_mac_xlayer_update_empty_auto_conn_reply_link_parameter m =
     (let c = conn_at m (main_connection m) in
      if auto_xlayer m = None then m
      else upd_xlayer_frame (auto_xlayer m) (\<lambda>f. f\<lparr>destination_address := conn_source_address c,
             source_address := conn_destination_address c\<rparr>) m)"

definition update_xlayer_modem_feat :: "'s wps_mac \<Rightarrow> 's wps_mac" where
  "update_xlayer_modem_feat m =
     (let c = conn_at m (main_connection m)
      in upd_config (\<lambda>x. x\<lparr>ci_fec := conn_fec c, ci_modulation := conn_modulation c, ci_chip_repet := conn_chip_repet c\<rparr>) m)"

end
