(* ===== verification/Mac_Frames.thy ===== *)
theory Mac_Frames
  imports Mac_Xlayer
begin

text \<open>
  What the MAC layer does with the outcome of a time slot (\<open>wps_mac.c\<close>): connection status, received
  frames, sent frames, synchronisation, statistics; and the frames it drops. The tables of header
  protocols are functions over the whole state, so they are parameters: \<open>tabs\<close> gives the table of the
  connection at an address, \<open>ack_tabs\<close> the one for its acknowledge frames. A header is read as the
  bytes from its address on, as many as the receive loop can reach.
\<close>

type_synonym 's protocol_tables = "nat \<Rightarrow> 's wps_mac link_protocol"

definition is_saw_arq_enable :: "'s wps_connection \<Rightarrow> bool" where
  "is_saw_arq_enable c = saw_enable (conn_saw_arq c)"

definition upd_saw :: "nat option \<Rightarrow> (saw_arq \<Rightarrow> saw_arq) \<Rightarrow> 's wps_mac \<Rightarrow> 's wps_mac" where
  "upd_saw p f = upd_conn p (\<lambda>c. c\<lparr>conn_saw_arq := f (conn_saw_arq c)\<rparr>)"

definition upd_credits :: "nat option \<Rightarrow> (credit_flow_ctrl \<Rightarrow> credit_flow_ctrl) \<Rightarrow> 's wps_mac \<Rightarrow> 's wps_mac" where
  "upd_credits p f = upd_conn p (\<lambda>c. c\<lparr>conn_credit_flow_ctrl := f (conn_credit_flow_ctrl c)\<rparr>)"

definition upd_ddcm :: "(link_ddcm option \<Rightarrow> link_ddcm option) \<Rightarrow> 's wps_mac \<Rightarrow> 's wps_mac" where
  "upd_ddcm f m = m\<lparr>mac_link_ddcm := the (f (Some (mac_link_ddcm m)))\<rparr>"

section \<open>Callbacks and connection status\<close>

definition set_callback_main :: "wps_callback_inst \<Rightarrow> 's wps_mac \<Rightarrow> 's wps_mac" where
  "set_callback_main cb = upd_config (\<lambda>c. c\<lparr>ci_callback_main := cb\<rparr>)"

definition set_callback_auto :: "wps_callback_inst \<Rightarrow> 's wps_mac \<Rightarrow> 's wps_mac" where
  "set_callback_auto cb = upd_config (\<lambda>c. c\<lparr>ci_callback_auto := cb\<rparr>)"

definition enqueue_callback_main :: "'s wps_mac \<Rightarrow> 's wps_mac" where
  "enqueue_callback_main m =
     m\<lparr>mac_callback_queue := wps_callback_enqueue (mac_callback_queue m) (Some (ci_callback_main (mac_config m)))\<rparr>"

definition enqueue_callback_auto :: "'s wps_mac \<Rightarrow> 's wps_mac" where
  "enqueue_callback_auto m =
     m\<lparr>mac_callback_queue := wps_callback_enqueue (mac_callback_queue m) (Some (ci_callback_auto (mac_config m)))\<rparr>"

definition reset_send_sync_frame :: "'s wps_connection \<Rightarrow> 's wps_connection" where
  "reset_send_sync_frame c = c\<lparr>send_sync_frame := (tx_sync_frame_on_syncing c \<and> \<not> certification_mode_enabled c)\<rparr>"

definition status_event :: "connect_status \<Rightarrow> wps_event" where
  "status_event s = (if s = CONNECT_STATUS_CONNECTED then WPS_EVENT_CONNECT else WPS_EVENT_DISCONNECT)"

definition update_connect_status_main :: "nat option \<Rightarrow> 's wps_mac \<Rightarrow> 's wps_mac" where
  "update_connect_status_main conn m =
     (case conn of None \<Rightarrow> m
      | Some a \<Rightarrow>
          (let c = mac_conns m a;
               synced = (if node_role m = NETWORK_NODE then slave_synced m else True);
               always_connected = (wps_mac_timeslots_is_current_timeslot_tx m \<and> ack_enable c = False);
               (changed, st) = link_update_connect_status (conn_connect_status c) (frame_outcome (main_xlayer_frame m))
                  synced always_connected (conn_elapsed_time_us c);
               m1 = upd_conn conn (\<lambda>c. c\<lparr>conn_connect_status := st\<rparr>) m
           in if changed
              then upd_conn conn (\<lambda>c. let c1 = c\<lparr>conn_wps_event := status_event (conn_status st)\<rparr>
                       in if node_role m = NETWORK_COORDINATOR \<and> conn_status st = CONNECT_STATUS_DISCONNECTED
                          then reset_send_sync_frame c1 else c1)
                     (enqueue_callback_main (set_callback_main (conn_evt c) m1))
              else m1))"

definition update_connect_status_auto :: "nat option \<Rightarrow> 's wps_mac \<Rightarrow> 's wps_mac" where
  "update_connect_status_auto conn m =
     (case conn of None \<Rightarrow> m
      | Some a \<Rightarrow>
          (let c = mac_conns m a;
               synced = (if node_role m = NETWORK_NODE then slave_synced m else True);
               (changed, st) = link_update_connect_status (conn_connect_status c) (frame_outcome (auto_xlayer_frame m))
                  synced False (conn_elapsed_time_us c);
               m1 = upd_conn conn (\<lambda>c. c\<lparr>conn_connect_status := st\<rparr>) m
           in if changed
              then upd_conn conn (\<lambda>c. c\<lparr>conn_wps_event := status_event (conn_status st)\<rparr>)
                     (enqueue_callback_auto (set_callback_auto (conn_evt c) m1))
              else m1))"

text \<open>The loops over the connections of the slot.\<close>

definition update_all_connect_status_main :: "'s wps_mac \<Rightarrow> 's wps_mac" where
  "update_all_connect_status_main m =
     fold (\<lambda>i m. update_connect_status_main (link_scheduler_get_current_main_connection (mac_scheduler m) (of_nat i)) m)
       [0..<unat (connection_count (main_conn_list (mac_timeslot m)))] m"

definition update_all_connect_status_auto :: "'s wps_mac \<Rightarrow> 's wps_mac" where
  "update_all_connect_status_auto m =
     fold (\<lambda>i m. update_connect_status_auto (link_scheduler_get_current_auto_connection (mac_scheduler m) (of_nat i)) m)
       [0..<unat (connection_count (auto_conn_list (mac_timeslot m)))] m"

section \<open>Headers\<close>

definition no_payload_received :: "xlayer_frame \<Rightarrow> bool" where
  "no_payload_received f = (header_begin_it f = payload_end_it f)"

definition header_bytes :: "nat \<Rightarrow> u16 \<Rightarrow> 's wps_mac \<Rightarrow> byte list" where
  "header_bytes a n m = load_bytes (mac_mem m) a (unat n + 255)"

definition set_last_used_main_connection :: "u8 \<Rightarrow> 's wps_mac \<Rightarrow> 's wps_mac" where
  "set_last_used_main_connection i m =
     (let s = mac_scheduler m; ts = sched_timeslot (schedule s); k = timeslot_ptr m
      in m\<lparr>mac_scheduler := s\<lparr>schedule := (schedule s)
           \<lparr>sched_timeslot := ts[k := (ts ! k)\<lparr>last_used_main_connection := i\<rparr>]\<rparr>\<rparr>\<rparr>)"

definition extract_header_main :: "'s protocol_tables \<Rightarrow> 's wps_mac \<Rightarrow> 's wps_mac" where
  "extract_header_main tabs m =
     (let m1 = upd_xlayer_frame (main_xlayer m) (\<lambda>f. f\<lparr>header_begin_it := header_memory f\<rparr>) m
      in if header_begin_it (main_xlayer_frame m1) = 0 then m1
         else (let m2 = upd_xlayer_frame (main_xlayer m1) (\<lambda>f. f\<lparr>header_begin_it := header_begin_it f + 1\<rparr>) m1;
                   n = conn_header_size (conn_at m2 (main_connection m2));
                   m3 = link_protocol_receive_buffer (tabs (the (main_connection m2)))
                          (header_bytes (header_begin_it (main_xlayer_frame m2)) n m2) (ucast n) m2;
                   m4 = m3\<lparr>main_connection := link_scheduler_get_current_main_connection (mac_scheduler m3) (main_connection_id m3)\<rparr>;
                   m5 = upd_xlayer_frame (main_xlayer m4) (\<lambda>f. f\<lparr>header_begin_it := header_begin_it f +
                          unat (conn_header_size (conn_at m4 (main_connection m4)))\<rparr>) m4
               in set_last_used_main_connection (main_connection_id m5) m5))"

definition extract_header_auto :: "'s protocol_tables \<Rightarrow> 's protocol_tables \<Rightarrow> 's wps_mac \<Rightarrow> 's wps_mac" where
  "extract_header_auto tabs ack_tabs m =
     (let (table, n) = (case auto_connection m of
              Some a \<Rightarrow> (tabs a, conn_header_size (mac_conns m a))
            | None \<Rightarrow> (let p = link_scheduler_get_current_main_connection (mac_scheduler m) (main_ack_connection_id m)
                       in (ack_tabs (the p), conn_ack_header_size (conn_at m p))));
          m1 = upd_xlayer_frame (auto_xlayer m) (\<lambda>f. f\<lparr>header_begin_it := header_memory f\<rparr>) m
      in if header_begin_it (auto_xlayer_frame m1) = 0 then m1
         else (let m2 = upd_xlayer_frame (auto_xlayer m1) (\<lambda>f. f\<lparr>header_begin_it := header_begin_it f + 1\<rparr>) m1;
                   m3 = link_protocol_receive_buffer table (header_bytes (header_begin_it (auto_xlayer_frame m2)) n m2) (ucast n) m2;
                   m4 = m3\<lparr>auto_connection := link_scheduler_get_current_auto_connection (mac_scheduler m3) (auto_connection_id m3)\<rparr>
               in upd_xlayer_frame (auto_xlayer m4) (\<lambda>f. f\<lparr>header_begin_it := header_begin_it f + unat n\<rparr>) m4))"

section \<open>Frames done\<close>

text \<open>Taking the head of the transmit queue off and giving its memory and node back.\<close>

definition send_done_io :: "wps_io \<Rightarrow> bool \<times> wps_io" where
  "send_done_io s =
     (let (node, h) = xlayer_queue_dequeue_node (io_queue s) (io_heap s); s1 = s\<lparr>io_heap := h\<rparr> in
      case node of
        None \<Rightarrow> (False, s1)
      | Some a \<Rightarrow>
          (True, s1\<lparr>io_tx_data := snd (xlayer_circular_data_free_space (io_tx_data s1)
                      (ptr_of (header_memory (io_frame s1 a))) (ucast (max_frame_size (io_frame s1 a)))),
                    io_heap := xlayer_queue_free_node (Some a) (io_heap s1)\<rparr>))"

definition send_done :: "nat option \<Rightarrow> 's wps_mac \<Rightarrow> bool \<times> 's wps_mac" where
  "send_done conn m =
     (case conn of
        None \<Rightarrow> (False, m)
      | Some a \<Rightarrow>
          (let m1 = upd_conn conn (\<lambda>c. c\<lparr>tx_flush := False\<rparr>) m;
               (ret, s) = send_done_io (conn_io conn m1);
               m2 = put_tx_io conn s m1
           in (ret, if certification_mode_enabled (conn_at m2 conn) then wps_mac_certification_send conn m2 else m2)))"

text \<open>
  Dropping the head frame. The functions fill the callback they are given, the main or the
  auto-reply one, and then enqueue the main one.
\<close>

definition drop_head :: "bool \<Rightarrow> nat option \<Rightarrow> 's wps_mac \<Rightarrow> 's wps_mac" where
  "drop_head to_auto conn m =
     (let cb = conn_tx_drop (conn_at m conn);
          m1 = enqueue_callback_main (if to_auto then set_callback_auto cb m else set_callback_main cb m);
          m2 = m1\<lparr>mac_main_signal := MAC_SIGNAL_WPS_TX_DROP\<rparr>
      in snd (send_done conn (wps_mac_statistics_update_tx_dropped_conn_stats conn m2)))"

partial_function (option) flush_timeout_frames_before_sending ::
  "bool \<Rightarrow> nat option \<Rightarrow> 's wps_mac \<Rightarrow> 's wps_mac option" where
  "flush_timeout_frames_before_sending to_auto conn m =
     (let c = conn_at m conn in
      case xlayer_queue_get_node (conn_xlayer_queue c) (mac_heap m) of
        None \<Rightarrow> Some m
      | Some a \<Rightarrow>
          (let f = xl_frame (xlayer_at m (XL_NODE a));
               (timeout, saw) = link_saw_arq_is_frame_timeout (conn_saw_arq c) (time_stamp f) (retry_count f) (conn_tick c);
               m1 = upd_saw conn (\<lambda>_. saw) (upd_xlayer_frame (Some (XL_NODE a)) (\<lambda>f. f\<lparr>retry_count := retry_count f + 1\<rparr>) m)
           in if timeout then flush_timeout_frames_before_sending to_auto conn (drop_head to_auto conn m1)
              else Some m1))"

text \<open>
  The address of the field \<open>xlayer\<close>, which is not the first of a node, is never \<open>NULL\<close>: the test of
  \<open>flush_tx_frame\<close> always succeeds, also on an empty queue.
\<close>

definition flush_tx_frame :: "bool \<Rightarrow> nat option \<Rightarrow> 's wps_mac \<Rightarrow> 's wps_mac" where
  "flush_tx_frame to_auto conn m = drop_head to_auto conn m"

end
