(* ===== verification/Mac_Process.thy ===== *)
theory Mac_Process
  imports Mac_Frames
begin

text \<open>
  The outcome of a slot (\<open>wps_mac.c\<close>): the handlers of received and transmitted frames, main and
  auto-reply, and \<open>process_main_frame_outcome\<close>, \<open>process_auto_frame_outcome\<close> and \<open>update_sync\<close>
  that call them.
\<close>

section \<open>Received frames\<close>

definition set_main_signal :: "wps_mac_output_signal \<Rightarrow> 's wps_mac \<Rightarrow> 's wps_mac" where
  "set_main_signal s m = m\<lparr>mac_main_signal := s\<rparr>"

definition set_auto_signal :: "wps_mac_output_signal \<Rightarrow> 's wps_mac \<Rightarrow> 's wps_mac" where
  "set_auto_signal s m = m\<lparr>mac_auto_signal := s\<rparr>"

definition free_rx_node :: "nat option \<Rightarrow> 's wps_mac \<Rightarrow> 's wps_mac" where
  "free_rx_node p m = (mac_free_node_with_data p (rx_node m) m)\<lparr>rx_node := None\<rparr>"

definition copy_signal_strength :: "xlayer_ref option \<Rightarrow> 's wps_mac \<Rightarrow> 's wps_mac" where
  "copy_signal_strength r m = upd_xlayer (the r) (\<lambda>x. x\<lparr>xl_config := (xl_config x)
     \<lparr>cfg_rssi_raw := ci_rssi_raw (mac_config m), cfg_rnsi_raw := ci_rnsi_raw (mac_config m)\<rparr>\<rparr>) m"

text \<open>The end of \<open>process_rx_main\<close>: a frame with a payload that is not a duplicate.\<close>

definition deliver_main :: "'s wps_mac \<Rightarrow> 's wps_mac" where
  "deliver_main m =
     (let p = main_connection m; c = conn_at m p in
      if xlayer_queue_get_free_space (Some (conn_xlayer_queue c)) (mac_heap m) = 0 \<or> rx_node m = None
      then enqueue_callback_main (upd_conn p (\<lambda>c. c\<lparr>conn_wps_error := WPS_RX_OVERRUN_ERROR\<rparr>)
             (set_main_signal MAC_SIGNAL_WPS_FRAME_RX_OVERRUN (set_callback_main (conn_evt c) (free_rx_node p m))))
      else (let m1 = set_callback_main (conn_rx_success c) (set_main_signal MAC_SIGNAL_WPS_FRAME_RX_SUCCESS m);
                m2 = enqueue_callback_main (m1\<lparr>mac_heap := snd (xlayer_queue_enqueue_node (conn_rx_queue c) (rx_node m1) (mac_heap m1))\<rparr>);
                m3 = (if ci_phases_info (mac_config m2)
                      then upd_xlayer (the (main_xlayer m2)) (\<lambda>x. x\<lparr>xl_config := (xl_config x)
                             \<lparr>cfg_phases_info := local_phases_info (phase_data m2)\<rparr>\<rparr>) m2 else m2)
            in upd_ddcm (\<lambda>d. link_ddcm_cca_event_update d (ci_rx_cca_retry_count (mac_config m3))
                 (ci_cca_retry_time (mac_config m3)) (mac_main_signal m3 = MAC_SIGNAL_WPS_FRAME_RX_SUCCESS)) m3))"

definition process_rx_main :: "'s protocol_tables \<Rightarrow> 's wps_mac \<Rightarrow> 's wps_mac" where
  "process_rx_main tabs m0 =
     (let m = upd_ddcm (\<lambda>d. link_ddcm_pll_cycles_update d (link_tdma_sync_get_sleep_cycles (mac_tdma_sync m0))) m0 in
      if input_main_signal m \<noteq> PHY_SIGNAL_FRAME_RECEIVED
      then (let m1 = update_all_connect_status_main m
            in wps_mac_statistics_update_main_conn_empty_frame
                 (set_main_signal MAC_SIGNAL_WPS_FRAME_RX_FAIL (free_rx_node (main_connection m1) m1)))
      else (let m1 = extract_header_main tabs m;
                m2 = update_connect_status_main (main_connection m1) m1;
                m3 = copy_signal_strength (main_xlayer m2) m2;
                dup = link_saw_arq_is_rx_frame_duplicate (conn_saw_arq (conn_at m3 (main_connection m3)));
                is_empty = no_payload_received (main_xlayer_frame m3);
                m4 = (if dup \<and> \<not> is_empty then upd_saw (main_connection m3) link_saw_arq_incr_duplicate_count m3 else m3)
            in if is_empty \<or> dup
               then wps_mac_statistics_update_main_conn_empty_frame
                      (set_main_signal MAC_SIGNAL_WPS_EMPTY (free_rx_node (main_connection m4) m4))
               else deliver_main (wps_mac_statistics_update_main_conn m4)))"

definition deliver_auto :: "'s wps_mac \<Rightarrow> 's wps_mac" where
  "deliver_auto m =
     (let p = auto_connection m; c = conn_at m p in
      enqueue_callback_auto
        (if xlayer_queue_get_free_space (Some (conn_xlayer_queue c)) (mac_heap m) = 0 \<or> rx_node m = None
         then upd_conn p (\<lambda>c. c\<lparr>conn_wps_error := WPS_RX_OVERRUN_ERROR\<rparr>)
                (set_auto_signal MAC_SIGNAL_WPS_FRAME_RX_OVERRUN (set_callback_auto (conn_evt c) (free_rx_node p m)))
         else (let m1 = set_callback_auto (conn_rx_success c) (set_auto_signal MAC_SIGNAL_WPS_FRAME_RX_SUCCESS m)
               in m1\<lparr>mac_heap := snd (xlayer_queue_enqueue_node (conn_rx_queue c) (rx_node m1) (mac_heap m1))\<rparr>)))"

definition process_rx_auto :: "'s protocol_tables \<Rightarrow> 's protocol_tables \<Rightarrow> 's wps_mac \<Rightarrow> 's wps_mac" where
  "process_rx_auto tabs ack_tabs m =
     (if input_auto_signal m \<noteq> PHY_SIGNAL_FRAME_RECEIVED
      then (let m1 = update_all_connect_status_auto m
            in wps_mac_statistics_update_auto_conn_empty_frame
                 (set_auto_signal MAC_SIGNAL_WPS_FRAME_RX_FAIL (free_rx_node (auto_connection m1) m1)))
      else (let m1 = extract_header_auto tabs ack_tabs m;
                m2 = update_connect_status_auto (auto_connection m1) m1;
                m3 = copy_signal_strength (auto_xlayer m2) m2
            in if no_payload_received (auto_xlayer_frame m3)
               then wps_mac_statistics_update_auto_conn_empty_frame
                      (set_auto_signal MAC_SIGNAL_WPS_EMPTY (free_rx_node (auto_connection m3) m3))
               else deliver_auto (wps_mac_statistics_update_auto_conn m3)))"

section \<open>Transmitted frames\<close>

text \<open>Both branches of \<open>process_tx_main\<close>.\<close>

definition tx_main_success :: "'s wps_mac \<Rightarrow> 's wps_mac" where
  "tx_main_success m =
     (let p = main_connection m;
          m1 = update_connect_status_main p (copy_signal_strength (main_xlayer m) m);
          m2 = enqueue_callback_main (set_callback_main (conn_tx_success (conn_at m1 p)) (set_main_signal MAC_SIGNAL_WPS_TX_SUCCESS m1));
          m3 = (if is_saw_arq_enable (conn_at m2 p)
                then upd_credits p link_credit_flow_ctrl_frame_ack_received (upd_saw p link_saw_arq_inc_seq_num m2) else m2)
      in snd (send_done p m3))"

definition tx_main_fail :: "'s wps_mac \<Rightarrow> 's wps_mac" where
  "tx_main_fail m =
     (let p = main_connection m; m1 = set_main_signal MAC_SIGNAL_WPS_TX_FAIL (update_all_connect_status_main m);
          m2 = enqueue_callback_main (set_callback_main (conn_tx_fail (conn_at m1 p)) m1)
      in if \<not> is_saw_arq_enable (conn_at m2 p) then snd (send_done p m2) else m2)"

definition process_tx_main :: "'s wps_mac \<Rightarrow> 's wps_mac" where
  "process_tx_main m =
     (let tx_success = (input_main_signal m = PHY_SIGNAL_FRAME_SENT_ACK \<or> \<not> ack_enable (conn_at m (main_connection m)));
          m1 = wps_mac_statistics_update_main_conn (if tx_success then tx_main_success m else tx_main_fail m);
          m2 = upd_ddcm (\<lambda>d. link_ddcm_pll_cycles_update d (link_tdma_sync_get_sleep_cycles (mac_tdma_sync m1))) m1
      in upd_ddcm (\<lambda>d. link_ddcm_cca_event_update d (ci_cca_try_count (mac_config m2)) (ci_cca_retry_time (mac_config m2))
           (mac_main_signal m2 = MAC_SIGNAL_WPS_TX_SUCCESS)) m2)"

definition process_tx_main_empty :: "'s wps_mac \<Rightarrow> 's wps_mac" where
  "process_tx_main_empty m =
     (let m1 = update_all_connect_status_main m; p = main_connection m1; c = conn_at m1 p;
          m2 = (if send_sync_frame c \<and> node_role m1 = NETWORK_COORDINATOR \<and>
                   conn_status (conn_connect_status c) = CONNECT_STATUS_CONNECTED
                then upd_conn p (\<lambda>c. c\<lparr>send_sync_frame := False\<rparr>) m1 else m1);
          m3 = (if input_main_signal m2 = PHY_SIGNAL_FRAME_SENT_ACK then upd_saw p link_saw_arq_inc_seq_num m2 else m2);
          m4 = wps_mac_statistics_update_main_conn_empty_frame (set_main_signal MAC_SIGNAL_WPS_EMPTY m3)
      in upd_ddcm (\<lambda>d. link_ddcm_pll_cycles_update d (link_tdma_sync_get_sleep_cycles (mac_tdma_sync m4))) m4)"

definition set_auto_outcome :: "frame_outcome \<Rightarrow> 's wps_mac \<Rightarrow> 's wps_mac" where
  "set_auto_outcome out m = upd_xlayer_frame (auto_xlayer m) (\<lambda>f. f\<lparr>frame_outcome := out\<rparr>) m"

definition process_tx_auto :: "'s wps_mac \<Rightarrow> 's wps_mac" where
  "process_tx_auto m =
     (case auto_connection m of
        None \<Rightarrow> set_auto_signal (if input_auto_signal m = PHY_SIGNAL_FRAME_SENT_NACK
                  then MAC_SIGNAL_WPS_TX_SUCCESS else MAC_SIGNAL_WPS_TX_FAIL) m
      | Some a \<Rightarrow>
          (let p = auto_connection m in
           wps_mac_statistics_update_auto_conn
             (if input_auto_signal m = PHY_SIGNAL_FRAME_NOT_SENT
              then (let m1 = set_auto_signal MAC_SIGNAL_WPS_TX_FAIL (set_auto_outcome FRAME_WAIT (update_all_connect_status_auto m))
                    in set_callback_auto (conn_tx_fail (conn_at m1 p)) m1)
              else (let m1 = set_auto_signal MAC_SIGNAL_WPS_TX_SUCCESS
                               (set_auto_outcome FRAME_SENT_ACK_LOST (update_connect_status_auto p m));
                        m2 = enqueue_callback_auto (set_callback_auto (conn_tx_success (conn_at m1 p)) m1)
                    in snd (send_done p (upd_credits p link_credit_flow_ctrl_auto_frame_sent m2))))))"

definition process_tx_auto_empty :: "'s wps_mac \<Rightarrow> 's wps_mac" where
  "process_tx_auto_empty m =
     wps_mac_statistics_update_auto_conn_empty_frame
       (set_auto_outcome FRAME_SENT_ACK_LOST (set_auto_signal MAC_SIGNAL_WPS_EMPTY (update_all_connect_status_auto m)))"

section \<open>Outcome of a slot\<close>

definition update_sync :: "'s wps_mac \<Rightarrow> 's wps_mac" where
  "update_sync m =
     (let c = conn_at m (main_connection m); out = frame_outcome (main_xlayer_frame m);
          wait = ci_rx_wait_time (mac_config m); retries = ci_rx_cca_retry_count (mac_config m)
      in if wps_mac_is_network_node m
         then (if \<not> slave_synced m
               then m\<lparr>mac_tdma_sync := link_tdma_sync_slave_find out wait (conn_cca c) retries (mac_tdma_sync m)\<rparr>
               else if conn_source_address c = syncing_address m
               then m\<lparr>mac_tdma_sync := link_tdma_sync_slave_adjust out wait (conn_cca c) retries (mac_tdma_sync m)\<rparr>
               else m)
         else m)"

definition process_main_frame_outcome :: "'s protocol_tables \<Rightarrow> 's wps_mac \<Rightarrow> 's wps_mac" where
  "process_main_frame_outcome tabs m =
     wps_mac_statistics_update_main_stats
       (if input_main_signal m = PHY_SIGNAL_FRAME_SENT_ACK \<or> input_main_signal m = PHY_SIGNAL_FRAME_SENT_NACK
        then (if main_xlayer m = Some XL_EMPTY_TX then process_tx_main_empty m else process_tx_main m)
        else if input_main_signal m = PHY_SIGNAL_FRAME_RECEIVED \<or> input_main_signal m = PHY_SIGNAL_FRAME_MISSED
        then update_sync (process_rx_main tabs
               (if mac_main_signal m = MAC_SIGNAL_SYNCING then upd_config (\<lambda>c. c\<lparr>ci_rx_wait_time := 0\<rparr>) m else m))
        else m)"

definition process_auto_frame_outcome :: "'s protocol_tables \<Rightarrow> 's protocol_tables \<Rightarrow> 's wps_mac \<Rightarrow> 's wps_mac" where
  "process_auto_frame_outcome tabs ack_tabs m =
     (if auto_xlayer m = None then m
      else wps_mac_statistics_update_auto_stats
        (if input_auto_signal m \<in> {PHY_SIGNAL_FRAME_SENT_ACK, PHY_SIGNAL_FRAME_SENT_NACK, PHY_SIGNAL_FRAME_NOT_SENT}
         then (if auto_xlayer m = Some XL_EMPTY_TX then process_tx_auto_empty m else process_tx_auto m)
         else if input_auto_signal m = PHY_SIGNAL_FRAME_RECEIVED \<or> input_auto_signal m = PHY_SIGNAL_FRAME_MISSED
         then process_rx_auto tabs ack_tabs m else m))"

end
