(* ===== verification/Mac_Prepare.thy ===== *)
theory Mac_Prepare
  imports Mac_Process Conn_Priority "HOL-Library.Monad_Syntax"
begin

text \<open>
  Preparing the next time slot (\<open>wps_mac.c\<close>): the scheduler and throttling choose the slot, the
  connection and the frame are picked, the sleep time is computed and the configuration of the
  physical layer filled in, and \<open>prepare_frame\<close> writes the header and hands the frame over. The calls into the
  physical layer are appended to \<open>phy_calls\<close>. \<open>r\<close> is the number \<open>rand\<close> yields for the jitter of a
  transmission. \<open>None\<close> stands for a loop that does not end, a division by zero, an access outside a
  channel table or a sleep time that cannot be converted.
\<close>

section \<open>Headers\<close>

text \<open>\<open>link_protocol_send_buffer\<close> writes through a pointer: the bytes of the protocols, from \<open>a\<close> on.\<close>

definition send_header :: "'s wps_mac link_protocol \<Rightarrow> nat \<Rightarrow> 's wps_mac \<Rightarrow> 's wps_mac" where
  "send_header table a m =
     (case link_protocol_send_buffer table m (load_bytes (mac_mem m) a (total_size (lp_protocols table))) of
        (_, buf, m1) \<Rightarrow> m1\<lparr>mac_mem := store_bytes a buf (mac_mem m1)\<rparr>)"

definition place_header :: "u16 \<Rightarrow> xlayer_frame \<Rightarrow> xlayer_frame" where
  "place_header sz f =
     (if user_payload f \<noteq> 0 then f\<lparr>header_begin_it := header_begin_it f - unat sz\<rparr>
      else (let a = payload_begin_it f - unat sz in f\<lparr>header_begin_it := a, header_end_it := a + unat sz\<rparr>))"

definition fill_header :: "'s protocol_tables \<Rightarrow> nat option \<Rightarrow> xlayer_ref option \<Rightarrow> 's wps_mac \<Rightarrow> 's wps_mac" where
  "fill_header tabs p x m =
     (let c = conn_at m p; m1 = upd_xlayer_frame x (place_header (conn_header_size c)) m;
          a = header_begin_it (xl_frame (xlayer_at m1 (the x)))
      in if certification_mode_enabled c then wps_mac_certification_fill_header a (ucast (conn_header_size c)) m1
         else send_header (tabs (the p)) a m1)"

definition fill_ack_header :: "'s protocol_tables \<Rightarrow> nat option \<Rightarrow> xlayer_ref option \<Rightarrow> 's wps_mac \<Rightarrow> 's wps_mac" where
  "fill_ack_header ack_tabs p x m =
     (let c = conn_at m p; m1 = upd_xlayer_frame x (place_header (conn_ack_header_size c)) m;
          a = header_begin_it (xl_frame (xlayer_at m1 (the x)))
      in if certification_mode_enabled c then wps_mac_certification_fill_header a (ucast (conn_ack_header_size c)) m1
         else send_header (ack_tabs (the p)) a m1)"

definition call_phy :: "phy_call list \<Rightarrow> 's wps_mac \<Rightarrow> 's wps_mac" where
  "call_phy cs m = m\<lparr>phy_calls := phy_calls m @ cs\<rparr>"

definition prepare_frame :: "'s protocol_tables \<Rightarrow> 's protocol_tables \<Rightarrow> 's wps_mac \<Rightarrow> 's wps_mac" where
  "prepare_frame tabs ack_tabs m =
     (let m1 =
        (if wps_mac_timeslots_is_current_timeslot_tx m
         then (if header_begin_it (main_xlayer_frame m) \<noteq> 0 then fill_header tabs (main_connection m) (main_xlayer m) m else m)
         else if auto_connection m \<noteq> None
         then (if header_begin_it (auto_xlayer_frame m) \<noteq> 0 then fill_header tabs (auto_connection m) (auto_xlayer m) m else m)
         else if ack_frame_enable (conn_at m (main_connection m)) = True
         then (if auto_xlayer m \<noteq> None then fill_ack_header ack_tabs (main_connection m) (auto_xlayer m) m else m)
         else m)
      in call_phy [PHY_SET_INPUT_SIGNAL (if mac_main_signal m1 = MAC_SIGNAL_SYNCING then PHY_SIGNAL_SYNCING else PHY_SIGNAL_PREPARE_RADIO),
                   PHY_SET_MAIN_XLAYER (main_xlayer m1), PHY_SET_AUTO_XLAYER (auto_xlayer m1), PHY_PREPARE_FRAME] m1)"

section \<open>Configuration of the physical layer\<close>

text \<open>
  The parts \<open>config_tx\<close> and \<open>config_rx\<close> share: the channel of a table for the chip rate, muting a
  disconnected link outside the lightest sleep level, and the values copied as they are.
\<close>

definition plain_channel :: "nat option \<Rightarrow> u32 \<Rightarrow> 's wps_mac \<Rightarrow> channel_ref" where
  "plain_channel p ch m = (if current_chip_rate m = CHIP_RATE_40_96_MHZ then CHANNEL_40_96 (the p) ch else CHANNEL_20_48 (the p) ch)"

definition fallback_channel :: "nat option \<Rightarrow> u8 \<Rightarrow> u32 \<Rightarrow> 's wps_mac \<Rightarrow> channel_ref" where
  "fallback_channel p i ch m =
     (if current_chip_rate m = CHIP_RATE_40_96_MHZ then FALLBACK_CHANNEL_40_96 (the p) i ch else FALLBACK_CHANNEL_20_48 (the p) i ch)"

definition mute_when_disconnected :: "'s wps_mac \<Rightarrow> 's wps_mac" where
  "mute_when_disconnected m =
     (if conn_status (conn_connect_status (conn_at m (main_connection m))) = CONNECT_STATUS_DISCONNECTED \<and>
         next_sleep_lvl (mac_scheduler m) \<noteq> lightest_sleep_lvl (schedule (mac_scheduler m))
      then upd_config (\<lambda>x. x\<lparr>ci_channel := MUTED_TRANSFER_CHANNEL\<rparr>)
             (m\<lparr>next_chip_rate := CHIP_RATE_20_48_MHZ,
                next_isi_mitig := (if dynamic_phy_mode_en m then ISI_MITIG_1 else ISI_MITIG_0),
                current_phy_mode := CHIP_RATE_20_48_ISI_1\<rparr>)
      else m)"

definition config_common :: "u8 \<Rightarrow> payload_buffer_update \<Rightarrow> 's wps_mac \<Rightarrow> 's wps_mac" where
  "config_common tries upd m =
     (let c = conn_at m (main_connection m); cca = conn_cca c in
      upd_config (\<lambda>x. x\<lparr>
        ci_cca_retry_time := retry_time_pll_cycles cca,
        ci_cca_max_try_count := tries,
        ci_cca_on_time := (if upd = UPDATE_AUTO_REPLY_RX_PAYLOAD_BUFFER then on_time_pll_cycles cca else ci_cca_on_time x),
        ci_cca_try_count := 0,
        ci_cca_fail_action := fail_action cca,
        ci_sleep_level := (if input_main_signal m = PHY_SIGNAL_CONNECT then SLEEP_IDLE else current_sleep_lvl (mac_scheduler m)),
        ci_next_sleep_level := next_sleep_lvl (mac_scheduler m),
        ci_gain_loop := (the (main_connection m), channel_index m),
        ci_phases_info := (conn_ranging_mode c \<noteq> WPS_RANGING_DISABLED),
        ci_expect_ack := ack_enable c,
        ci_certification_header_en := certification_mode_enabled c,
        ci_max_expected_header_size := max_expected_header_size m,
        ci_max_expected_payload_size := max_expected_payload_size m,
        ci_max_expected_auto_header_size := max_expected_header_size_auto m,
        ci_max_expected_auto_payload_size := max_expected_payload_size_auto m,
        ci_update_payload_buffer := upd,
        ci_chip_rate := current_chip_rate m,
        ci_isi_mitig := current_isi_mitig m\<rparr>) m)"

definition set_cca_threshold :: "u8 \<Rightarrow> 's wps_mac \<Rightarrow> 's wps_mac" where
  "set_cca_threshold tries m = upd_config (\<lambda>x. x\<lparr>ci_cca_threshold :=
     (if tries = 0 then WPS_DISABLE_CCA_THRESHOLD else cca_threshold (conn_cca (conn_at m (main_connection m))))\<rparr>) m"

definition config_tx :: "u32 \<Rightarrow> 's wps_mac \<Rightarrow> 's wps_mac" where
  "config_tx next_channel m =
     (let p = main_connection m; c = conn_at m p; payload_size = payload_memory_size (main_xlayer_frame m);
          (fallback_active, i) = link_fallback_get_index (conn_link_fallback c) payload_size;
          tries = (case fallback_cca_try_count (conn_cca c) of
              Some ts \<Rightarrow> if fb_threshold (conn_link_fallback c) \<noteq> None \<and> fallback_active = True \<and> payload_size \<noteq> 0
                then ts ! unat i else max_try_count (conn_cca c)
            | None \<Rightarrow> max_try_count (conn_cca c));
          channel = (if fallback_active = True \<and> payload_size \<noteq> 0 then fallback_channel p i next_channel m
                     else plain_channel p next_channel m)
      in config_common tries UPDATE_AUTO_REPLY_RX_PAYLOAD_BUFFER
           (mute_when_disconnected (upd_config (\<lambda>x. x\<lparr>ci_channel := channel\<rparr>) (set_cca_threshold tries m))))"

definition config_rx :: "u32 \<Rightarrow> 's wps_mac \<Rightarrow> 's wps_mac" where
  "config_rx next_channel m =
     (let p = main_connection m; payload_size = payload_memory_size (main_xlayer_frame m);
          (fallback_active, i) = (case auto_connection m of None \<Rightarrow> (False, 0)
             | Some a \<Rightarrow> link_fallback_get_index (conn_link_fallback (mac_conns m a)) payload_size);
          tries = link_cca_get_highest_try_count (conn_cca (conn_at m p));
          channel = (if fallback_active = True then fallback_channel (auto_connection m) i next_channel m
                     else plain_channel p next_channel m)
      in config_common tries UPDATE_MAIN_RX_PAYLOAD_BUFFER
           (mute_when_disconnected (upd_config (\<lambda>x. x\<lparr>ci_channel := channel\<rparr>) (set_cca_threshold tries m))))"

section \<open>The main frame\<close>

definition slot_sleep_lvl :: "'s wps_mac \<Rightarrow> sleep_lvl" where
  "slot_sleep_lvl m = (if input_main_signal m = PHY_SIGNAL_CONNECT then SLEEP_IDLE else current_sleep_lvl (mac_scheduler m))"

definition slot_rdo_value :: "'s wps_mac \<Rightarrow> u16" where
  "slot_rdo_value m = word_of_int (uint (link_rdo_get_offset (mac_link_rdo m)) * uint (ts_increment_count m))"

text \<open>The steps both functions share.\<close>

definition apply_phy_mode :: "sleep_lvl \<Rightarrow> 's wps_mac \<Rightarrow> 's wps_mac" where
  "apply_phy_mode lvl m =
     (if dynamic_phy_mode_en m
      then (let m1 = (if lvl = SLEEP_IDLE then m
                      else m\<lparr>current_chip_rate := next_chip_rate m, current_isi_mitig := next_isi_mitig m\<rparr>)
            in m1\<lparr>mac_tdma_sync := link_tdma_update_isi_mitig_pauses (current_isi_mitig m1) (mac_tdma_sync m1)\<rparr>)
      else m)"

definition take_back_delay :: "int \<Rightarrow> 's wps_mac \<Rightarrow> int \<times> 's wps_mac" where
  "take_back_delay delay m =
     (if delay_in_last_timeslot m then (delay - uint (last_timeslot_delay m), m\<lparr>delay_in_last_timeslot := False\<rparr>)
      else (delay, m))"

definition track_connection :: "nat option \<Rightarrow> 's wps_mac \<Rightarrow> 's wps_mac" where
  "track_connection p m = upd_conn p (\<lambda>c. c\<lparr>
     conn_elapsed_time_us := ucast (link_tdma_get_elapsed_time_us (conn_time_stamp_us c) (mac_tdma_sync m)),
     conn_time_stamp_us := link_tdma_get_time_stamp_pll_cycles (mac_tdma_sync m)\<rparr>) m"

definition track_time :: "'s wps_mac \<Rightarrow> 's wps_mac" where
  "track_time m0 =
     (let m = m0\<lparr>last_timer_increment_us := ucast (link_tdma_get_last_timer_increment_us (mac_tdma_sync m0))\<rparr>;
          m1 = track_connection (main_connection m) m;
          m2 = (if auto_connection m1 \<noteq> None then track_connection (auto_connection m1) m1 else m1)
      in m2\<lparr>mac_link_rdo := link_rdo_update_offset (mac_link_rdo m2) (last_timer_increment_us m2)\<rparr>)"

definition reset_gain_when_disconnected :: "'s wps_mac \<Rightarrow> 's wps_mac" where
  "reset_gain_when_disconnected m =
     upd_conn (main_connection m) (\<lambda>c.
       if conn_status (conn_connect_status c) = CONNECT_STATUS_DISCONNECTED
       then (let n = unat (max_channel_count c); gs = conn_gain_loop c
             in c\<lparr>conn_gain_loop := map link_gain_loop_reset_gain_index (take n gs) @ drop n gs\<rparr>)
       else c) m"

definition prepare_done :: "'s wps_mac \<Rightarrow> 's wps_mac" where
  "prepare_done m = m\<lparr>mac_main_signal := MAC_SIGNAL_WPS_PREPARE_DONE, mac_auto_signal := MAC_SIGNAL_WPS_EMPTY\<rparr>"

definition update_link_values :: "'s wps_mac \<Rightarrow> 's wps_mac" where
  "update_link_values m = update_xlayer_modem_feat (wps_mac_xlayer_update_sync (wps_mac_xlayer_update_main_link_parameter m))"

text \<open>The connections of a list of the slot, and the flushing loop over them.\<close>

definition slot_connections :: "timeslot_conn_list \<Rightarrow> nat list" where
  "slot_connections l = map the (take (unat (connection_count l)) (tcl_connection l))"

fun flush_main_connections :: "nat list \<Rightarrow> 's wps_mac \<Rightarrow> 's wps_mac option" where
  "flush_main_connections [] m = Some m"
| "flush_main_connections (a # as) m =
     do { m1 \<leftarrow> (if is_saw_arq_enable (mac_conns m a) \<and> is_saw_arq_guaranteed_delivery_mode (conn_saw_arq (mac_conns m a)) = False
                then flush_timeout_frames_before_sending False (Some a) m else Some m);
          flush_main_connections as (if tx_flush (mac_conns m1 a) then flush_tx_frame False (Some a) m1 else m1) }"

definition select_main_connection :: "'s wps_mac \<Rightarrow> 's wps_mac" where
  "select_main_connection m =
     (let l = main_conn_list (mac_timeslot m) in
      if connection_count l > 1
      then (let (i, conns) = wps_conn_priority_get_highest_main_conn_index (mac_heap m) (slot_connections l)
                               (tcl_priority l) (connection_count l) (mac_conns m);
                m1 = m\<lparr>main_connection_id := i, mac_conns := conns\<rparr>
            in m1\<lparr>main_connection := link_scheduler_get_current_main_connection (mac_scheduler m1) (main_connection_id m1)\<rparr>)
      else m)"

definition no_frame_to_send :: "'s wps_mac \<Rightarrow> bool" where
  "no_frame_to_send m \<longleftrightarrow> main_xlayer m = Some XL_EMPTY_TX \<and> header_memory (xl_frame (empty_frame_tx m)) = 0"

text \<open>What the slot adds to the sleep time: the delay of an idle transmitter, or the desynchronisation offset.\<close>

definition tx_delay :: "'s wps_mac \<Rightarrow> int \<times> 's wps_mac" where
  "tx_delay m =
     (if no_frame_to_send m then (sint (empty_queue_max_delay (conn_at m (main_connection m))), m)
      else if \<not> wps_mac_is_network_node m
      then (let (off, d) = link_ddcm_get_offset (Some (mac_link_ddcm m)) in (uint off, m\<lparr>mac_link_ddcm := the d\<rparr>))
      else (0, m))"

definition prepare_tx_main :: "nat \<Rightarrow> 's wps_mac \<Rightarrow> 's wps_mac option" where
  "prepare_tx_main r m0 =
     do { next_channel \<leftarrow> link_channel_hopping_get_channel (mac_channel_hopping m0);
          let rdo_value = slot_rdo_value m0;
          let lvl = slot_sleep_lvl m0;
          m1 \<leftarrow> flush_main_connections (slot_connections (main_conn_list (mac_timeslot m0))) (apply_phy_mode lvl m0);
          let m2 = select_main_connection m1;
          let (x, m3) = wps_mac_xlayer_get_xlayer_for_tx_main (main_connection m2) m2;
          let (delay, m4) = tx_delay (m3\<lparr>main_xlayer := Some x, auto_xlayer := None\<rparr>);
          let (delay, m5) = take_back_delay delay m4;
          let sleep_time = word_of_int delay + link_scheduler_get_sleep_time (mac_scheduler m5) + ucast rdo_value;
          t \<leftarrow> link_tdma_sync_update_tx r sleep_time (conn_cca (conn_at m5 (main_connection m5))) lvl
                (current_chip_rate m5) (mac_tdma_sync m5);
          let m6 = track_time (m5\<lparr>mac_tdma_sync := t\<rparr>);
          let m7 = (if no_frame_to_send m6
                    then m6\<lparr>last_timeslot_delay := ucast (empty_queue_max_delay (conn_at m6 (main_connection m6))),
                            delay_in_last_timeslot := True\<rparr> else m6);
          Some (update_link_values (config_tx next_channel (reset_gain_when_disconnected (prepare_done m7)))) }"

text \<open>A node that looks for the network listens on the middle channel, where fast synchronisation expects it.\<close>

definition rx_channel :: "u32 \<Rightarrow> 's wps_mac \<Rightarrow> (u32 \<times> 's wps_mac) option" where
  "rx_channel next_channel m =
     (let hop = mac_channel_hopping m in
      if \<not> slave_synced m \<and> node_role m = NETWORK_NODE \<and>
         conn_source_address (conn_at m (main_connection m)) = syncing_address m \<and> fast_sync_enabled m \<and>
         next_sleep_lvl (mac_scheduler m) = lightest_sleep_lvl (schedule (mac_scheduler m))
      then (if sequence_size (ch_sequence hop) = 0 then None
            else Some (ucast (middle_channel_idx hop) mod sequence_size (ch_sequence hop), set_main_signal MAC_SIGNAL_SYNCING m))
      else Some (next_channel, m))"

definition prepare_rx_main :: "'s wps_mac \<Rightarrow> 's wps_mac option" where
  "prepare_rx_main m0 =
     do { next_channel \<leftarrow> link_channel_hopping_get_channel (mac_channel_hopping m0);
          let rdo_value = slot_rdo_value m0;
          let lvl = slot_sleep_lvl m0;
          let (delay, m1) = take_back_delay 0 (apply_phy_mode lvl m0);
          let sleep_time = word_of_int delay + link_scheduler_get_sleep_time (mac_scheduler m1) + ucast rdo_value;
          let cca = (conn_cca (conn_at m1 (main_connection m1)))
                      \<lparr>rx_timeout_offset_pll_cycles := link_scheduler_get_current_timeslot_max_cca_rx_timeout_offset (mac_scheduler m1)\<rparr>;
          t \<leftarrow> link_tdma_sync_update_rx sleep_time cca lvl (current_chip_rate m1) (mac_tdma_sync m1);
          let m2 = prepare_done (track_time (m1\<lparr>mac_tdma_sync := t\<rparr>));
          let (x, m3) = wps_mac_xlayer_get_xlayer_for_rx (main_connection m2) m2;
          let m4 = m3\<lparr>main_xlayer := Some x, auto_xlayer := None\<rparr>;
          (ch, m5) \<leftarrow> rx_channel next_channel m4;
          Some (update_link_values (config_rx ch (reset_gain_when_disconnected m5))) }"

section \<open>The auto-reply frame\<close>

fun flush_auto_connections :: "nat list \<Rightarrow> 's wps_mac \<Rightarrow> 's wps_mac" where
  "flush_auto_connections [] m = m"
| "flush_auto_connections (a # as) m =
     flush_auto_connections as (if tx_flush (mac_conns m a) then flush_tx_frame True (Some a) m else m)"

definition select_auto_connection :: "'s wps_mac \<Rightarrow> 's wps_mac" where
  "select_auto_connection m =
     (let l = auto_conn_list (mac_timeslot m) in
      if connection_count l > 1
      then (let (i, conns) = wps_conn_priority_get_highest_auto_conn_index (mac_heap m) (slot_connections l)
                               (tcl_priority l) (connection_count l) (mac_conns m);
                m1 = m\<lparr>auto_connection_id := i, mac_conns := conns\<rparr>
            in m1\<lparr>auto_connection := link_scheduler_get_current_auto_connection (mac_scheduler m1) (auto_connection_id m1)\<rparr>)
      else m)"

definition prepare_tx_auto :: "'s wps_mac \<Rightarrow> 's wps_mac" where
  "prepare_tx_auto m =
     (let m1 = set_auto_signal MAC_SIGNAL_WPS_PREPARE_DONE
                 (select_auto_connection (flush_auto_connections (slot_connections (auto_conn_list (mac_timeslot m))) m));
          (x, m2) = wps_mac_xlayer_get_xlayer_for_tx_auto (auto_connection m1) m1
      in wps_mac_xlayer_update_auto_reply_link_parameter (m2\<lparr>auto_xlayer := Some x\<rparr>))"

definition prepare_rx_auto :: "'s wps_mac \<Rightarrow> 's wps_mac" where
  "prepare_rx_auto m =
     (let (x, m1) = wps_mac_xlayer_get_xlayer_for_rx (auto_connection m) (set_auto_signal MAC_SIGNAL_WPS_PREPARE_DONE m)
      in wps_mac_xlayer_update_auto_reply_link_parameter (m1\<lparr>auto_xlayer := Some x\<rparr>))"

definition prepare_tx_empty_conn_auto :: "'s wps_mac \<Rightarrow> 's wps_mac" where
  "prepare_tx_empty_conn_auto m =
     (let m1 = m\<lparr>main_ack_connection_id := last_used_main_connection (mac_timeslot m)\<rparr>;
          connection = link_scheduler_get_current_main_connection (mac_scheduler m1) (main_ack_connection_id m1);
          (x, m2) = wps_mac_xlayer_get_xlayer_for_empty_tx_auto connection (set_auto_signal MAC_SIGNAL_WPS_PREPARE_DONE m1)
      in wps_mac_xlayer_update_empty_auto_conn_reply_link_parameter (m2\<lparr>auto_xlayer := Some x\<rparr>))"

definition prepare_rx_empty_conn_auto :: "'s wps_mac \<Rightarrow> 's wps_mac" where
  "prepare_rx_empty_conn_auto m =
     (let (x, m1) = wps_mac_xlayer_get_xlayer_for_empty_rx_auto (main_connection m) (set_auto_signal MAC_SIGNAL_WPS_PREPARE_DONE m)
      in wps_mac_xlayer_update_empty_auto_conn_reply_link_parameter (m1\<lparr>auto_xlayer := Some x\<rparr>))"
section \<open>The next slot\<close>

text \<open>
  Throttling: a connection with a pattern advances in it and is enabled as the pattern says; slots
  without an enabled main connection are passed over. \<open>%\<close> by a pattern length of 0 is \<open>None\<close>.
\<close>

definition throttle_connection :: "'s wps_connection \<Rightarrow> 's wps_connection option" where
  "throttle_connection c =
     (case conn_pattern c of
        None \<Rightarrow> Some (c\<lparr>conn_currently_enabled := True\<rparr>)
      | Some pattern \<Rightarrow>
          if pattern_total_count c = 0 then None
          else (let k = word_of_int ((uint (pattern_count c) + 1) mod uint (pattern_total_count c))
                in Some (c\<lparr>pattern_count := k, conn_currently_enabled := pattern ! unat k\<rparr>)))"

fun throttle_main :: "nat list \<Rightarrow> 's wps_mac \<Rightarrow> 's wps_mac option" where
  "throttle_main [] m = Some m"
| "throttle_main (a # as) m =
     do { c \<leftarrow> throttle_connection (mac_conns m a); throttle_main as (upd_conn (Some a) (\<lambda>_. c) m) }"

definition enable_connections :: "nat list \<Rightarrow> 's wps_mac \<Rightarrow> 's wps_mac" where
  "enable_connections as m = fold (\<lambda>a. upd_conn (Some a) (\<lambda>c. c\<lparr>conn_currently_enabled := True\<rparr>)) as m"

definition source_address_at :: "'s wps_mac \<Rightarrow> nat \<Rightarrow> u16" where
  "source_address_at m a = conn_source_address (mac_conns m a)"

text \<open>One round: the connections of the current slot, and whether a main connection is enabled.\<close>

definition throttle_slot :: "'s wps_mac \<Rightarrow> (bool \<times> 's wps_mac) option" where
  "throttle_slot m =
     (let ts = link_scheduler_get_current_timeslot (mac_scheduler m); main = slot_connections (main_conn_list ts) in
      do { m1 \<leftarrow> throttle_main main m;
           let m2 = enable_connections (slot_connections (auto_conn_list ts)) m1;
           Some (list_ex (\<lambda>a. conn_currently_enabled (mac_conns m2 a)) main, m2) })"

definition next_time_slot :: "'s wps_mac \<Rightarrow> (u8 \<times> 's wps_mac) option" where
  "next_time_slot m = map_option (\<lambda>(inc, s). (inc, m\<lparr>mac_scheduler := s\<rparr>))
     (link_scheduler_increment_time_slot (source_address_at m) (mac_scheduler m))"

partial_function (option) handle_link_throttle :: "'s wps_mac \<Rightarrow> u8 \<Rightarrow> (u8 \<times> 's wps_mac) option" where
  "handle_link_throttle m inc_count =
     do { (ts_enabled, m1) \<leftarrow> throttle_slot m;
          if ts_enabled then Some (inc_count, m1)
          else do { (inc, m2) \<leftarrow> next_time_slot m1; handle_link_throttle m2 (inc_count + inc) } }"

definition prepare_auto :: "'s wps_mac \<Rightarrow> 's wps_mac" where
  "prepare_auto m =
     (if auto_connection m \<noteq> None
      then (if wps_mac_timeslots_is_current_auto_reply_timeslot_tx m then prepare_tx_auto m else prepare_rx_auto m)
      else if ack_frame_enable (conn_at m (main_connection m)) = True
      then (if wps_mac_timeslots_is_current_timeslot_tx m = True then prepare_rx_empty_conn_auto m else prepare_tx_empty_conn_auto m)
      else m)"

text \<open>The first half of \<open>process_next_timeslot\<close>: the slot and its first connections.\<close>

definition select_timeslot :: "'s wps_mac \<Rightarrow> 's wps_mac option" where
  "select_timeslot m0 =
     do { (inc, m1) \<leftarrow> next_time_slot (m0\<lparr>mac_scheduler := link_scheduler_reset_sleep_time (mac_scheduler m0)\<rparr>);
          (inc, m2) \<leftarrow> handle_link_throttle m1 inc;
          hop \<leftarrow> link_channel_hopping_increment_sequence (mac_channel_hopping m2) inc;
          ch \<leftarrow> link_channel_hopping_get_channel hop;
          let s = mac_scheduler m2;
          Some (m2\<lparr>ts_increment_count := inc, mac_channel_hopping := hop, channel_index := ucast ch,
                   timeslot_ptr := unat (current_time_slot_num s), main_connection_id := 0, auto_connection_id := 0,
                   main_connection := link_scheduler_get_current_main_connection s 0,
                   auto_connection := link_scheduler_get_current_auto_connection s 0\<rparr>) }"

definition process_next_timeslot :: "nat \<Rightarrow> 's wps_mac \<Rightarrow> 's wps_mac option" where
  "process_next_timeslot r m0 =
     do { m1 \<leftarrow> select_timeslot m0;
          m2 \<leftarrow> (if wps_mac_timeslots_is_current_timeslot_tx m1 then prepare_tx_main r m1 else prepare_rx_main m1);
          Some (prepare_auto m2) }"

definition get_status_error :: "link_connect_status \<Rightarrow> wps_error" where
  "get_status_error s = (if conn_status s = CONNECT_STATUS_CONNECTED then WPS_CONNECT_EVENT else WPS_DISCONNECT_EVENT)"

end
