(* ===== verification/Mac_Handlers.thy ===== *)
theory Mac_Handlers
  imports Mac_Prepare
begin

text \<open>
  The entry points of the MAC layer (\<open>wps_mac.c\<close>): initialisation and reset, the application's
  pending requests, and \<open>wps_mac_phy_callback\<close>, which the physical layer calls with the signals of
  the main and of the auto-reply frame. The request queues are lists, as their circular buffers
  implement them; a request carries the structure it points to. Tables of header protocols and the
  random number are arguments as in the other theories.
\<close>

section \<open>Initialisation\<close>

record wps_mac_sync_cfg =
  sy_sleep_level :: sleep_lvl
  sy_preamble_len :: u32
  sy_sfd_len :: u32
  sy_isi_mitig :: isi_mitig
  sy_isi_mitig_pauses :: u8
  sy_tx_jitter_enabled :: bool
  sy_chip_rate :: chip_rate_cfg

definition SYNC_RX_SETUP_TIME_US :: u16 where "SYNC_RX_SETUP_TIME_US = 7"

definition default_phy_mode :: "chip_rate_cfg \<Rightarrow> u8" where
  "default_phy_mode r = (case r of CHIP_RATE_20_48_MHZ \<Rightarrow> CHIP_RATE_20_48_ISI_1 | CHIP_RATE_27_30_MHZ \<Rightarrow> CHIP_RATE_27_30_ISI_1
     | CHIP_RATE_40_96_MHZ \<Rightarrow> CHIP_RATE_40_96_ISI_1)"

definition init_scheduler :: "u16 \<Rightarrow> scheduler \<Rightarrow> scheduler" where
  "init_scheduler addr s = link_scheduler_enable_tx (link_scheduler_set_first_time_slot (link_scheduler_init s addr))"

text \<open>\<open>rand\<close> and \<open>oob\<close> are those of \<open>link_channel_hopping_init\<close>.\<close>

definition wps_mac_init ::
  "(nat \<Rightarrow> nat \<Rightarrow> nat) \<Rightarrow> u8 \<Rightarrow> channel_sequence \<Rightarrow> wps_mac_sync_cfg \<Rightarrow> u16 \<Rightarrow> wps_role \<Rightarrow> bool \<Rightarrow> u8 \<Rightarrow> u32 \<Rightarrow>
   u8 \<Rightarrow> u8 \<Rightarrow> u8 \<Rightarrow> u8 \<Rightarrow> nat list \<Rightarrow> 's wps_mac \<Rightarrow> 's wps_mac option" where
  "wps_mac_init rand oob sequence cfg addr role random_sequence net lost_max payload header payload_auto header_auto conns m0 =
     (let s = init_scheduler addr (mac_scheduler m0);
          isi = (if dynamic_phy_mode_en m0 then ISI_MITIG_1 else sy_isi_mitig cfg)
      in map_option (\<lambda>hop. m0\<lparr>
           local_address := addr, node_role := role, delay_in_last_timeslot := False, last_timeslot_delay := 0,
           max_expected_header_size := header, max_expected_payload_size := payload,
           max_expected_header_size_auto := header_auto, max_expected_payload_size_auto := payload_auto,
           mac_network_id := net, mac_scheduler := s, timeslot_ptr := unat (current_time_slot_num s),
           main_connection_id := 0, auto_connection_id := 0,
           main_connection := link_scheduler_get_current_main_connection s 0,
           auto_connection := link_scheduler_get_current_auto_connection s 0,
           mac_channel_hopping := hop,
           mac_tdma_sync := link_tdma_sync_init (sy_sleep_level cfg) SYNC_RX_SETUP_TIME_US lost_max (ucast (sy_sfd_len cfg))
             (ucast (sy_preamble_len cfg)) (sy_isi_mitig cfg) (sy_isi_mitig_pauses cfg) (fast_sync_enabled m0)
             (sy_tx_jitter_enabled cfg) (sy_chip_rate cfg),
           stats_process_data := wps_mac_statistics_init (stats_process_data m0),
           current_chip_rate := sy_chip_rate cfg, next_chip_rate := sy_chip_rate cfg,
           current_isi_mitig := isi, next_isi_mitig := isi,
           phy_mode_swap_count_down := CHIP_RATE_COUNT_DOWN_INACTIVE, connection_list := conns,
           current_phy_mode := default_phy_mode (sy_chip_rate cfg)\<rparr>)
         (link_channel_hopping_init rand oob (mac_channel_hopping m0) sequence random_sequence net))"

definition wps_mac_reset :: "'s wps_mac \<Rightarrow> 's wps_mac" where
  "wps_mac_reset m = m\<lparr>mac_tdma_sync := (mac_tdma_sync m)\<lparr>frame_lost_duration := 0, sync_slave_offset := 0,
       slave_sync_state := STATE_SYNCING\<rparr>, mac_main_signal := MAC_SIGNAL_WPS_EMPTY\<rparr>"

definition wps_mac_enable_fast_sync :: "'s wps_mac \<Rightarrow> 's wps_mac" where
  "wps_mac_enable_fast_sync m = m\<lparr>fast_sync_enabled := True\<rparr>"

definition wps_mac_disable_fast_sync :: "'s wps_mac \<Rightarrow> 's wps_mac" where
  "wps_mac_disable_fast_sync m = m\<lparr>fast_sync_enabled := False\<rparr>"

section \<open>Requests of the application\<close>

text \<open>The pattern is an array inside the request, so the test for \<open>NULL\<close> always succeeds.\<close>

definition process_schedule_request :: "wps_schedule_ratio_cfg \<Rightarrow> 's wps_mac \<Rightarrow> 's wps_mac" where
  "process_schedule_request q m =
     (upd_conn (Some (rc_target_conn q)) (\<lambda>c. c\<lparr>active_ratio := rc_active_ratio q,
        pattern_total_count := rc_pattern_total_count q, pattern_count := rc_pattern_current_count q,
        conn_pattern := map_option (\<lambda>p. take (unat (rc_pattern_total_count q)) (rc_pattern_cfg q) @
          drop (unat (rc_pattern_total_count q)) p) (conn_pattern c)\<rparr>) m)
     \<lparr>schedule_ratio_cfg_queue := tl (schedule_ratio_cfg_queue m)\<rparr>"

definition process_write_request :: "u8 \<Rightarrow> u16 \<Rightarrow> reg_write_cfg \<Rightarrow> 's wps_mac \<Rightarrow> 's wps_mac" where
  "process_write_request reg data cfg m =
     (call_phy [PHY_WRITE_REGISTER reg data cfg] m)\<lparr>write_request_queue := tl (write_request_queue m)\<rparr>"

definition process_read_request :: "u8 \<Rightarrow> nat \<Rightarrow> nat \<Rightarrow> 's wps_mac \<Rightarrow> 's wps_mac" where
  "process_read_request reg rx_buffer xfer_cmplt m =
     (call_phy [PHY_READ_REGISTER reg rx_buffer xfer_cmplt] m)\<lparr>read_request_queue := tl (read_request_queue m)\<rparr>"

text \<open>The receive node is given back but stays in \<open>rx_node\<close>.\<close>

definition process_disconnect_request :: "'s wps_mac \<Rightarrow> 's wps_mac" where
  "process_disconnect_request m =
     (let m1 = call_phy [PHY_DISCONNECT] m
      in m1\<lparr>mac_heap := xlayer_queue_free_node (rx_node m1) (mac_heap m1), mac_signal := WPS_DISCONNECT\<rparr>)"

definition reset_connections_parameters :: "wps_role \<Rightarrow> 's wps_connection \<Rightarrow> 's wps_connection" where
  "reset_connections_parameters role c =
     (let c1 = c\<lparr>conn_connect_status := link_connect_status_reset (conn_connect_status c)\<rparr>
      in if role = NETWORK_COORDINATOR then reset_send_sync_frame c1 else c1)"

text \<open>\<open>wps_connection_list_iterate_connections\<close> over the connections of the list, from its head.\<close>

definition wps_connection_list_iterate_connections ::
  "('s wps_connection \<Rightarrow> 's wps_connection) \<Rightarrow> nat list \<Rightarrow> 's wps_mac \<Rightarrow> 's wps_mac" where
  "wps_connection_list_iterate_connections f as m = fold (\<lambda>a. upd_conn (Some a) f) as m"

definition process_request :: "xlayer_request \<Rightarrow> 's wps_mac \<Rightarrow> 's wps_mac" where
  "process_request request m =
     (case request of
        REQUEST_MAC_CHANGE_SCHEDULE_RATIO q \<Rightarrow> process_schedule_request q m
      | REQUEST_PHY_WRITE_REG reg data cfg \<Rightarrow> process_write_request reg data cfg m
      | REQUEST_PHY_READ_REG reg rx_buffer xfer_cmplt \<Rightarrow> process_read_request reg rx_buffer xfer_cmplt m
      | REQUEST_PHY_DISCONNECT \<Rightarrow>
          (let m1 = process_disconnect_request m
           in wps_connection_list_iterate_connections (reset_connections_parameters (node_role m1)) (connection_list m1) m1)
      | REQUEST_NONE \<Rightarrow> m)"

definition process_pending_request :: "'s wps_mac \<Rightarrow> 's wps_mac" where
  "process_pending_request m =
     (case request_queue m of
        [] \<Rightarrow> m
      | request # _ \<Rightarrow> (let m1 = process_request request m in m1\<lparr>request_queue := tl (request_queue m1)\<rparr>))"

section \<open>The callback of the physical layer\<close>

definition callback_context_switch :: "'s wps_mac \<Rightarrow> 's wps_mac" where
  "callback_context_switch m = m\<lparr>context_switches := context_switches m + 1\<rparr>"

definition wps_mac_phy_callback ::
  "'s protocol_tables \<Rightarrow> 's protocol_tables \<Rightarrow> nat \<Rightarrow> phy_output_signal \<Rightarrow> phy_output_signal \<Rightarrow> 's wps_mac \<Rightarrow> 's wps_mac option" where
  "wps_mac_phy_callback tabs ack_tabs r main_signal auto_signal m0 =
     (let m = m0\<lparr>input_main_signal := main_signal, input_auto_signal := auto_signal\<rparr> in
      if main_signal = PHY_SIGNAL_CONFIG_COMPLETE then Some (callback_context_switch (process_pending_request m))
      else if main_signal = PHY_SIGNAL_BLOCKING_CONFIG_DONE then Some (process_pending_request m)
      else if main_signal \<in> {PHY_SIGNAL_FRAME_SENT_ACK, PHY_SIGNAL_FRAME_SENT_NACK, PHY_SIGNAL_FRAME_RECEIVED, PHY_SIGNAL_FRAME_MISSED}
      then map_option (\<lambda>m1. let m2 = prepare_frame tabs ack_tabs m1
               in if input_main_signal m2 = PHY_SIGNAL_FRAME_MISSED \<and> dynamic_phy_mode_en m2
                  then wps_mac_handle_missing_phy_mode m2 else m2)
             (process_next_timeslot r (process_auto_frame_outcome tabs ack_tabs (process_main_frame_outcome tabs m)))
      else if main_signal = PHY_SIGNAL_CONNECT
      then map_option (\<lambda>m1. callback_context_switch (prepare_frame tabs ack_tabs m1)) (process_next_timeslot r m)
      else Some m)"

end
