(* ===== verification/Mac_Slot.thy ===== *)
theory Mac_Slot
  imports Mac_Handlers
begin

text \<open>
  What a time slot is made of when the MAC layer hands it to the physical layer. \<open>slot_env\<close> is the part
  of the state the frame plumbing leaves alone: the slot and its connections, the clock, the role and
  the calls already made. The properties: the selected connections always belong to the current slot,
  a node without synchronisation does not send what the application queued, each slot hands over
  exactly one frame, a link that is down is muted, and throttled connections get their share of slots.
\<close>

section \<open>The part the frame plumbing keeps\<close>

record slot_env =
  env_scheduler :: scheduler
  env_slot :: nat
  env_hopping :: channel_hopping
  env_channel :: u8
  env_address :: u16
  env_role :: wps_role
  env_synced :: bool
  env_calls :: "phy_call list"
  env_sources :: "nat \<Rightarrow> u16"
  env_main :: "nat option"
  env_auto :: "nat option"
  env_ids :: "u8 \<times> u8"
  env_signals :: "phy_output_signal \<times> phy_output_signal"
  env_dynamic :: bool
  env_frames :: "xlayer_ref option \<times> xlayer_ref option"

definition slot_env :: "'s wps_mac \<Rightarrow> slot_env" where
  "slot_env m = \<lparr>env_scheduler = mac_scheduler m, env_slot = timeslot_ptr m, env_hopping = mac_channel_hopping m,
     env_channel = channel_index m, env_address = local_address m, env_role = node_role m,
     env_synced = slave_sync_state (mac_tdma_sync m), env_calls = phy_calls m, env_sources = source_address_at m,
     env_main = main_connection m, env_auto = auto_connection m, env_ids = (main_connection_id m, auto_connection_id m),
     env_signals = (input_main_signal m, input_auto_signal m), env_dynamic = dynamic_phy_mode_en m,
     env_frames = (main_xlayer m, auto_xlayer m)\<rparr>"

lemma slot_env_iff:
  "slot_env m' = slot_env m \<longleftrightarrow>
     mac_scheduler m' = mac_scheduler m \<and> timeslot_ptr m' = timeslot_ptr m \<and> mac_channel_hopping m' = mac_channel_hopping m \<and>
     channel_index m' = channel_index m \<and> local_address m' = local_address m \<and> node_role m' = node_role m \<and>
     slave_sync_state (mac_tdma_sync m') = slave_sync_state (mac_tdma_sync m) \<and> phy_calls m' = phy_calls m \<and>
     source_address_at m' = source_address_at m \<and> main_connection m' = main_connection m \<and>
     auto_connection m' = auto_connection m \<and> main_connection_id m' = main_connection_id m \<and>
     auto_connection_id m' = auto_connection_id m \<and> input_main_signal m' = input_main_signal m \<and>
     input_auto_signal m' = input_auto_signal m \<and> dynamic_phy_mode_en m' = dynamic_phy_mode_en m \<and>
     main_xlayer m' = main_xlayer m \<and> auto_xlayer m' = auto_xlayer m"
  by (auto simp: slot_env_def)

named_theorems env_simps

lemma env_upd_conn:
  "(\<And>c. conn_source_address (f c) = conn_source_address c) \<Longrightarrow> slot_env (upd_conn p f m) = slot_env m"
  by (auto simp: slot_env_iff upd_conn_def source_address_at_def)

lemma env_upd_xlayer [env_simps]: "slot_env (upd_xlayer r f m) = slot_env m"
  by (auto simp: slot_env_iff upd_xlayer_def source_address_at_def split: xlayer_ref.split)

lemma env_upd_frame [env_simps]: "slot_env (upd_xlayer_frame r f m) = slot_env m"
  by (simp add: upd_xlayer_frame_def env_upd_xlayer)

lemma env_upd_config [env_simps]: "slot_env (upd_config f m) = slot_env m"
  by (auto simp: slot_env_iff upd_config_def source_address_at_def)

lemma env_plain [env_simps]:
  "slot_env (m\<lparr>mac_heap := h\<rparr>) = slot_env m"
  "slot_env (m\<lparr>mac_mem := b\<rparr>) = slot_env m"
  "slot_env (m\<lparr>mac_data := d\<rparr>) = slot_env m"
  "slot_env (m\<lparr>mac_main_signal := s\<rparr>) = slot_env m"
  "slot_env (m\<lparr>mac_auto_signal := s\<rparr>) = slot_env m"
  "slot_env (m\<lparr>mac_callback_queue := q\<rparr>) = slot_env m"
  "slot_env (m\<lparr>stats_process_data := st\<rparr>) = slot_env m"
  "slot_env (m\<lparr>mac_link_ddcm := x\<rparr>) = slot_env m"
  "slot_env (m\<lparr>mac_link_rdo := z\<rparr>) = slot_env m"
  "slot_env (m\<lparr>rx_node := n\<rparr>) = slot_env m"
  "slot_env (m\<lparr>delay_in_last_timeslot := b1\<rparr>) = slot_env m"
  "slot_env (m\<lparr>last_timeslot_delay := w\<rparr>) = slot_env m"
  "slot_env (m\<lparr>last_timer_increment_us := v\<rparr>) = slot_env m"
  "slot_env (m\<lparr>next_chip_rate := cr\<rparr>) = slot_env m"
  "slot_env (m\<lparr>next_isi_mitig := im\<rparr>) = slot_env m"
  "slot_env (m\<lparr>current_chip_rate := cr\<rparr>) = slot_env m"
  "slot_env (m\<lparr>current_isi_mitig := im\<rparr>) = slot_env m"
  "slot_env (m\<lparr>current_phy_mode := pm\<rparr>) = slot_env m"
  "slot_env (m\<lparr>main_ack_connection_id := w8\<rparr>) = slot_env m"
  by (auto simp: slot_env_iff source_address_at_def)

lemma env_conn_setters [env_simps]:
  "slot_env (upd_saw p f m) = slot_env m"
  "slot_env (upd_credits p g m) = slot_env m"
  "slot_env (upd_stats p h m) = slot_env m"
  "slot_env (upd_ddcm k m) = slot_env m"
  "slot_env (set_callback_main cb m) = slot_env m"
  "slot_env (set_callback_auto cb m) = slot_env m"
  "slot_env (enqueue_callback_main m) = slot_env m"
  "slot_env (enqueue_callback_auto m) = slot_env m"
  "slot_env (set_main_signal s m) = slot_env m"
  "slot_env (set_auto_signal s m) = slot_env m"
  "slot_env (wps_mac_statistics_update_tx_dropped_conn_stats p m) = slot_env m"
  by (simp_all add: upd_saw_def upd_credits_def upd_stats_def upd_ddcm_def set_callback_main_def set_callback_auto_def
      enqueue_callback_main_def enqueue_callback_auto_def set_main_signal_def set_auto_signal_def
      wps_mac_statistics_update_tx_dropped_conn_stats_def env_upd_conn env_simps)

lemma env_put_io [env_simps]:
  "slot_env (put_tx_io p s m) = slot_env m"
  "slot_env (put_rx_io p s m) = slot_env m"
  by (auto simp: put_tx_io_def put_rx_io_def upd_conn_def slot_env_iff source_address_at_def)

lemma env_certification [env_simps]:
  "slot_env (wps_mac_certification_send p m) = slot_env m"
  "slot_env (wps_mac_certification_fill_header a n m) = slot_env m"
  by (simp_all add: wps_mac_certification_send_def wps_mac_certification_fill_header_def Let_def env_simps
      split: prod.split sum.split)

section \<open>Dropping frames before sending\<close>

lemma env_send_done [env_simps]: "slot_env (snd (send_done p m)) = slot_env m"
  by (simp add: send_done_def Let_def env_upd_conn env_simps split: option.split prod.split)

lemma env_drop [env_simps]:
  "slot_env (drop_head t p m) = slot_env m" "slot_env (flush_tx_frame t p m) = slot_env m"
  by (simp_all add: drop_head_def flush_tx_frame_def Let_def env_simps)

lemma env_flush_timeout: "flush_timeout_frames_before_sending t p m = Some m' \<Longrightarrow> slot_env m' = slot_env m"
  by (erule flush_timeout_frames_before_sending.raw_induct [where P = "\<lambda>t p m m'. slot_env m' = slot_env m", rotated])
     (auto simp: Let_def env_simps split: option.splits prod.splits if_splits)

lemma env_flush_main: "flush_main_connections as m = Some m' \<Longrightarrow> slot_env m' = slot_env m"
proof (induction as arbitrary: m)
  case (Cons a as)
  then show ?case
    by (auto simp: env_simps dest!: env_flush_timeout split: Option.bind_splits if_splits)
qed simp

lemma env_flush_auto [env_simps]: "slot_env (flush_auto_connections as m) = slot_env m"
  by (induction as arbitrary: m) (simp_all add: env_simps)
section \<open>Preparing\<close>

lemma sync_update_state: "sync_update d l t = Some t' \<Longrightarrow> slave_sync_state t' = slave_sync_state t"
proof -
  have "slave_sync_state (sync_sleep x u) = slave_sync_state u" for x u by (simp add: sync_sleep_def Let_def)
  then show "sync_update d l t = Some t' \<Longrightarrow> slave_sync_state t' = slave_sync_state t"
    unfolding sync_update_def Let_def by (cases "sync_transition (sync_duration d l t) (td_sleep_mode t) l
      (if td_sleep_mode t \<noteq> SLEEP_IDLE \<and> l = SLEEP_IDLE then 0 else xtal_cycle_offset t)") auto
qed

lemma update_keeps_state:
  "link_tdma_sync_update_tx r d cca l rate t = Some t' \<Longrightarrow> slave_sync_state t' = slave_sync_state t"
  "link_tdma_sync_update_rx d cca l rate t = Some t' \<Longrightarrow> slave_sync_state t' = slave_sync_state t"
  by (auto simp: link_tdma_sync_update_tx_def link_tdma_sync_update_rx_def Let_def dest!: sync_update_state)

lemma env_tdma: "slave_sync_state t = slave_sync_state (mac_tdma_sync m) \<Longrightarrow> slot_env (m\<lparr>mac_tdma_sync := t\<rparr>) = slot_env m"
  by (simp add: slot_env_iff source_address_at_def fun_eq_iff)

lemma env_apply_phy_mode [env_simps]: "slot_env (apply_phy_mode l m) = slot_env m"
  by (auto simp: apply_phy_mode_def Let_def slot_env_iff source_address_at_def link_tdma_update_isi_mitig_pauses_def)

lemma env_check_credits [env_simps]: "slot_env (snd (check_credits p m)) = slot_env m"
  by (auto simp: check_credits_def split: prod.split intro: env_upd_conn)

lemma env_tx_steps [env_simps]:
  "slot_env (set_empty_frame_tx sz now m) = slot_env m"
  "slot_env (snd (take_back_delay d m)) = slot_env m"
  "slot_env (snd (tx_delay m)) = slot_env m"
  by (simp_all add: set_empty_frame_tx_def take_back_delay_def tx_delay_def Let_def env_simps split: prod.split)

lemma env_track_time [env_simps]: "slot_env (track_connection p m) = slot_env m" "slot_env (track_time m) = slot_env m"
  by (simp_all add: track_connection_def track_time_def Let_def env_upd_conn env_simps)

lemma env_gain_reset [env_simps]: "slot_env (reset_gain_when_disconnected m) = slot_env m"
  by (simp add: reset_gain_when_disconnected_def Let_def env_upd_conn)

lemma env_prepare_values [env_simps]:
  "slot_env (prepare_done m) = slot_env m"
  "slot_env (update_link_values m) = slot_env m"
  "slot_env (mute_when_disconnected m) = slot_env m"
  "slot_env (config_common n u m) = slot_env m"
  "slot_env (set_cca_threshold n m) = slot_env m"
  by (simp_all add: prepare_done_def update_link_values_def update_xlayer_modem_feat_def wps_mac_xlayer_update_sync_def
      wps_mac_xlayer_update_main_link_parameter_def mute_when_disconnected_def config_common_def set_cca_threshold_def
      Let_def env_simps)

lemma env_config [env_simps]: "slot_env (config_tx ch m) = slot_env m" "slot_env (config_rx ch m) = slot_env m"
  by (simp_all add: config_tx_def config_rx_def Let_def env_simps split: prod.split)

lemma env_get_xlayer_tx [env_simps]:
  "slot_env (snd (wps_mac_xlayer_get_xlayer_for_tx_main p m)) = slot_env m"
  "slot_env (snd (wps_mac_xlayer_get_xlayer_for_tx_auto p m)) = slot_env m"
  using env_check_credits [of p m]
  by (cases "check_credits p m"; simp add: wps_mac_xlayer_get_xlayer_for_tx_main_def
      wps_mac_xlayer_get_xlayer_for_tx_auto_def Let_def env_simps)+

lemma env_get_xlayer_rx [env_simps]:
  "slot_env (snd (wps_mac_xlayer_get_xlayer_for_rx p m)) = slot_env m"
  "slot_env (snd (wps_mac_xlayer_get_xlayer_for_empty_tx_auto p m)) = slot_env m"
  "slot_env (snd (wps_mac_xlayer_get_xlayer_for_empty_rx_auto p m)) = slot_env m"
  by (simp_all add: wps_mac_xlayer_get_xlayer_for_rx_def wps_mac_xlayer_get_xlayer_for_empty_tx_auto_def
      wps_mac_xlayer_get_xlayer_for_empty_rx_auto_def set_empty_auto_reply_frame_def Let_def env_simps
      split: prod.split option.split)
lemma env_frames [env_simps]:
  "slot_env (m\<lparr>main_xlayer := x\<rparr>) = (slot_env m)\<lparr>env_frames := (x, auto_xlayer m)\<rparr>"
  "slot_env (m\<lparr>auto_xlayer := y\<rparr>) = (slot_env m)\<lparr>env_frames := (main_xlayer m, y)\<rparr>"
  "slot_env (m\<lparr>main_xlayer := x, auto_xlayer := y\<rparr>) = (slot_env m)\<lparr>env_frames := (x, y)\<rparr>"
  by (simp_all add: slot_env_def source_address_at_def fun_eq_iff)

text \<open>The environment without the connections and frames of the slot.\<close>

definition slot_base :: "'s wps_mac \<Rightarrow> slot_env" where
  "slot_base m = (slot_env m)\<lparr>env_main := None, env_auto := None, env_ids := (0, 0), env_frames := (None, None)\<rparr>"

lemma base_of_env: "slot_env m' = (slot_env m)\<lparr>env_frames := x\<rparr> \<Longrightarrow> slot_base m' = slot_base m"
  "slot_env m' = slot_env m \<Longrightarrow> slot_base m' = slot_base m"
  by (simp_all add: slot_base_def)

lemma slot_baseD:
  assumes "slot_base m' = slot_base m"
  shows "mac_scheduler m' = mac_scheduler m" "timeslot_ptr m' = timeslot_ptr m" "mac_timeslot m' = mac_timeslot m"
    "mac_channel_hopping m' = mac_channel_hopping m" "channel_index m' = channel_index m" "local_address m' = local_address m"
    "phy_calls m' = phy_calls m" "source_address_at m' = source_address_at m" "mac_unsync m' = mac_unsync m"
    "input_main_signal m' = input_main_signal m"
  using assms by (simp_all add: slot_base_def slot_env_def mac_timeslot_def mac_unsync_def)

lemma skip_frame_source: "conn_source_address (skip_frame c s a) = conn_source_address (s a)"
  by (simp add: skip_frame_def Let_def)

lemma add_missed_source: "conn_source_address (add_missed n c s a) = conn_source_address (s a)"
  by (simp add: add_missed_def)

lemma main_search_source:
  "conn_source_address (snd (get_highest_main_conn_index_based_on_priority_and_credits h cs prios n d s) a) = conn_source_address (s a)"
  by (induction h cs prios n d s rule: get_highest_main_conn_index_based_on_priority_and_credits.induct)
     (subst get_highest_main_conn_index_based_on_priority_and_credits.simps, simp add: Let_def skip_frame_source split: nat.split)

lemma main_priority_source:
  "conn_source_address (snd (wps_conn_priority_get_highest_main_conn_index h cs prios n s) a) = conn_source_address (s a)"
  using main_search_source [of h cs prios n "unat (n - 1)" s a]
  by (auto simp: wps_conn_priority_get_highest_main_conn_index_def split: prod.split)

lemma auto_priority_source:
  fixes s :: "'s conn_store"
  shows "conn_source_address (snd (wps_conn_priority_get_highest_auto_conn_index h cs prios n s) a) = conn_source_address (s a)"
proof -
  have "conn_source_address (fold (\<lambda>c s. if conn_currently_enabled (s c) then add_missed 1 c s else s) xs t a) =
      conn_source_address (t a)" for xs and t :: "'s conn_store"
    by (induction xs arbitrary: t) (simp_all add: add_missed_source)
  then show ?thesis
    by (simp add: wps_conn_priority_get_highest_auto_conn_index_def Let_def add_missed_source
        get_highest_auto_conn_index_based_on_priority_and_credits_def)
qed

lemma base_select:
  "slot_base (select_main_connection m) = slot_base m" "slot_base (select_auto_connection m) = slot_base m"
  using main_priority_source [of "mac_heap m" _ _ _ "mac_conns m"] auto_priority_source [of "mac_heap m" _ _ _ "mac_conns m"]
  by (simp_all add: select_main_connection_def select_auto_connection_def slot_base_def slot_env_def Let_def
      source_address_at_def fun_eq_iff split: prod.split) (metis snd_conv)+

text \<open>What \<open>prepare_tx_main\<close> leaves: the connection chosen in a state \<open>m2\<close> and the descriptor got there.\<close>

lemma prepare_tx_main_env:
  fixes m :: "'s wps_mac"
  assumes "prepare_tx_main r m = Some m'"
  obtains m1 :: "'s wps_mac" where "slot_env m1 = slot_env m"
    "slot_env m' = (slot_env (select_main_connection m1))\<lparr>env_frames := (Some (fst
       (wps_mac_xlayer_get_xlayer_for_tx_main (main_connection (select_main_connection m1)) (select_main_connection m1))), None)\<rparr>"
proof -
  obtain m1 where m1: "flush_main_connections (slot_connections (main_conn_list (mac_timeslot m)))
      (apply_phy_mode (slot_sleep_lvl m) m) = Some m1"
    using assms by (auto simp: prepare_tx_main_def Let_def split: Option.bind_splits)
  let ?m2 = "select_main_connection m1"
  obtain x m3 where x: "wps_mac_xlayer_get_xlayer_for_tx_main (main_connection ?m2) ?m2 = (x, m3)" by fastforce
  obtain d m4 where d: "tx_delay (m3\<lparr>main_xlayer := Some x, auto_xlayer := None\<rparr>) = (d, m4)" by fastforce
  obtain e m5 where e: "take_back_delay d m4 = (e, m5)" by fastforce
  have "slot_env m3 = slot_env ?m2" using env_get_xlayer_tx(1) [of "main_connection ?m2" ?m2] x by simp
  moreover have "slot_env m4 = slot_env (m3\<lparr>main_xlayer := Some x, auto_xlayer := None\<rparr>)"
    using env_tx_steps(3) [of "m3\<lparr>main_xlayer := Some x, auto_xlayer := None\<rparr>"] d by simp
  moreover have "slot_env m5 = slot_env m4" using env_tx_steps(2) [of d m4] e by simp
  ultimately have m5: "slot_env m5 = (slot_env ?m2)\<lparr>env_frames := (Some x, None)\<rparr>" by (simp add: env_simps)
  have "slot_env m' = slot_env m5"
    using assms m1 x d e
    by (auto simp: prepare_tx_main_def Let_def env_simps dest!: update_keeps_state(1) env_tdma split: Option.bind_splits)
  moreover have "slot_env m1 = slot_env m" using env_flush_main [OF m1] by (simp add: env_simps)
  ultimately show thesis using that [of m1] m5 x by simp
qed
lemma env_rx_channel: "rx_channel ch m = Some (c, m') \<Longrightarrow> slot_env m' = slot_env m"
  by (auto simp: rx_channel_def Let_def env_simps split: if_splits)

lemma prepare_rx_main_env:
  fixes m :: "'s wps_mac"
  assumes "prepare_rx_main m = Some m'"
  obtains x where "slot_env m' = (slot_env m)\<lparr>env_frames := (Some x, None)\<rparr>"
proof -
  obtain d m1 where m1: "take_back_delay 0 (apply_phy_mode (slot_sleep_lvl m) m) = (d, m1)" by fastforce
  have e1: "slot_env m1 = slot_env m"
    using env_tx_steps(2) [of 0 "apply_phy_mode (slot_sleep_lvl m) m"] m1 by (simp add: env_simps)
  define m2 where "m2 t = prepare_done (track_time (m1\<lparr>mac_tdma_sync := t\<rparr>))" for t
  obtain nc t where t: "slave_sync_state t = slave_sync_state (mac_tdma_sync m1)"
    and rest: "(case wps_mac_xlayer_get_xlayer_for_rx (main_connection (m2 t)) (m2 t) of (x, m3) \<Rightarrow>
      Option.bind (rx_channel nc (m3\<lparr>main_xlayer := Some x, auto_xlayer := None\<rparr>))
        (\<lambda>(ch, m5). Some (update_link_values (config_rx ch (reset_gain_when_disconnected m5))))) = Some m'"
    using assms m1 by (auto simp: prepare_rx_main_def Let_def bind_eq_Some_conv m2_def dest!: update_keeps_state(2))
  obtain x m3 where x: "wps_mac_xlayer_get_xlayer_for_rx (main_connection (m2 t)) (m2 t) = (x, m3)" by fastforce
  have m': "slot_env m' = slot_env (m3\<lparr>main_xlayer := Some x, auto_xlayer := None\<rparr>)"
    using rest x by (auto simp: bind_eq_Some_conv env_simps dest!: env_rx_channel split: prod.splits)
  have "slot_env m3 = slot_env (m2 t)"
    using env_get_xlayer_rx(1) [of "main_connection (m2 t)" "m2 t"] x by simp
  then have "slot_env m3 = slot_env m" using e1 t by (simp add: m2_def env_simps env_tdma)
  with m' show thesis by (intro that [of x]) (simp add: env_simps)
qed

lemma env_auto_links [env_simps]:
  "slot_env (wps_mac_xlayer_update_auto_reply_link_parameter m) = slot_env m"
  "slot_env (wps_mac_xlayer_update_empty_auto_conn_reply_link_parameter m) = slot_env m"
  by (simp_all add: wps_mac_xlayer_update_auto_reply_link_parameter_def
      wps_mac_xlayer_update_empty_auto_conn_reply_link_parameter_def Let_def env_simps)

lemma prepare_tx_auto_env:
  fixes m :: "'s wps_mac"
  obtains k m2 :: "'s wps_mac" where "slot_env k = slot_env m" "slot_env m2 = slot_env (select_auto_connection k)"
    "slot_base m2 = slot_base m" "main_connection m2 = main_connection m"
    "main_connection_id m2 = main_connection_id m" "main_xlayer m2 = main_xlayer m"
    "slot_env (prepare_tx_auto m) = (slot_env m2)\<lparr>env_frames := (main_xlayer m2,
       Some (fst (wps_mac_xlayer_get_xlayer_for_tx_auto (auto_connection m2) m2)))\<rparr>"
proof -
  let ?m1 = "flush_auto_connections (slot_connections (auto_conn_list (mac_timeslot m))) m"
  let ?m2 = "set_auto_signal MAC_SIGNAL_WPS_PREPARE_DONE (select_auto_connection ?m1)"
  have m1: "slot_env ?m1 = slot_env m" by (rule env_flush_auto)
  have keep: "main_connection (select_auto_connection k) = main_connection k" "main_xlayer (select_auto_connection k) = main_xlayer k"
    "main_connection_id (select_auto_connection k) = main_connection_id k" for k :: "'s wps_mac"
    by (simp_all add: select_auto_connection_def Let_def split: prod.split)
  obtain x m3 where x: "wps_mac_xlayer_get_xlayer_for_tx_auto (auto_connection ?m2) ?m2 = (x, m3)" by fastforce
  then have m3: "slot_env m3 = slot_env ?m2" using env_get_xlayer_tx(2) [of "auto_connection ?m2" ?m2] by simp
  then have mx: "main_xlayer m3 = main_xlayer ?m2" by (simp add: slot_env_iff)
  have sel: "slot_env ?m2 = slot_env (select_auto_connection ?m1)" by (simp add: env_simps)
  from base_of_env(2) [OF this] have base: "slot_base ?m2 = slot_base m"
    using base_select(2) [of ?m1] base_of_env(2) [OF m1] by (rule_tac trans) simp_all
  have "main_connection ?m1 = main_connection m" "main_connection_id ?m1 = main_connection_id m" "main_xlayer ?m1 = main_xlayer m"
    using m1 by (simp_all add: slot_env_iff)
  then have same: "main_connection ?m2 = main_connection m" "main_connection_id ?m2 = main_connection_id m"
    "main_xlayer ?m2 = main_xlayer m" by (simp_all add: keep set_auto_signal_def)
  have "slot_env (prepare_tx_auto m) = (slot_env ?m2)\<lparr>env_frames := (main_xlayer ?m2, Some x)\<rparr>"
    using x m3 mx by (simp add: prepare_tx_auto_def Let_def env_simps)
  with x same base m1 sel show thesis by (intro that [of ?m1 ?m2]) simp_all
qed

lemma prepare_rx_auto_env:
  obtains y where "slot_env (prepare_rx_auto m) = (slot_env m)\<lparr>env_frames := (main_xlayer m, y)\<rparr>"
proof -
  let ?m1 = "set_auto_signal MAC_SIGNAL_WPS_PREPARE_DONE m"
  obtain x m2 where x: "wps_mac_xlayer_get_xlayer_for_rx (auto_connection m) ?m1 = (x, m2)" by fastforce
  then have e: "slot_env m2 = slot_env m" using env_get_xlayer_rx(1) [of "auto_connection m" ?m1] by (simp add: env_simps)
  then have "main_xlayer m2 = main_xlayer m" by (simp add: slot_env_iff)
  then have "slot_env (prepare_rx_auto m) = (slot_env m)\<lparr>env_frames := (main_xlayer m, Some x)\<rparr>"
    using x e by (simp add: prepare_rx_auto_def Let_def env_simps)
  then show thesis by (rule that)
qed

lemma prepare_empty_auto_env:
  obtains y where "slot_env (prepare_tx_empty_conn_auto m) = (slot_env m)\<lparr>env_frames := (main_xlayer m, y)\<rparr>"
    "slot_env (prepare_rx_empty_conn_auto m) = (slot_env m)\<lparr>env_frames := (main_xlayer m, y)\<rparr>"
proof (rule that)
  have e: "slot_env (set_empty_auto_reply_frame p k) = slot_env k" "main_xlayer (set_empty_auto_reply_frame p k) = main_xlayer k"
    for p and k :: "'a wps_mac"
    by (simp add: set_empty_auto_reply_frame_def Let_def env_upd_frame)
       (simp add: set_empty_auto_reply_frame_def Let_def upd_xlayer_frame_def upd_xlayer_def)
  show "slot_env (prepare_tx_empty_conn_auto m) = (slot_env m)\<lparr>env_frames := (main_xlayer m, Some XL_EMPTY_AUTO)\<rparr>"
    "slot_env (prepare_rx_empty_conn_auto m) = (slot_env m)\<lparr>env_frames := (main_xlayer m, Some XL_EMPTY_AUTO)\<rparr>"
    by (simp_all add: prepare_tx_empty_conn_auto_def prepare_rx_empty_conn_auto_def e Let_def env_simps
        wps_mac_xlayer_get_xlayer_for_empty_tx_auto_def wps_mac_xlayer_get_xlayer_for_empty_rx_auto_def set_auto_signal_def)
qed
section \<open>Choosing the slot\<close>

text \<open>What also survives a change of the slot.\<close>

definition slot_root :: "'s wps_mac \<Rightarrow> u16 \<times> wps_role \<times> bool \<times> phy_call list \<times> (nat \<Rightarrow> u16) \<times> (phy_output_signal \<times> phy_output_signal) \<times> bool" where
  "slot_root m = (local_address m, node_role m, slave_sync_state (mac_tdma_sync m), phy_calls m, source_address_at m,
     (input_main_signal m, input_auto_signal m), dynamic_phy_mode_en m)"

lemma root_of_base: "slot_base m' = slot_base m \<Longrightarrow> slot_root m' = slot_root m"
  by (simp add: slot_base_def slot_env_def slot_root_def)

lemma root_next_slot: "next_time_slot m = Some (k, m') \<Longrightarrow> slot_root m' = slot_root m"
  by (auto simp: next_time_slot_def slot_root_def source_address_at_def fun_eq_iff)

lemma throttle_connection_source: "throttle_connection c = Some c' \<Longrightarrow> conn_source_address c' = conn_source_address c"
  by (auto simp: throttle_connection_def Let_def split: option.splits if_splits)

lemma env_throttle_main: "throttle_main as m = Some m' \<Longrightarrow> slot_env m' = slot_env m"
proof (induction as arbitrary: m)
  case (Cons a as)
  then obtain c where c: "throttle_connection (mac_conns m a) = Some c" "throttle_main as (upd_conn (Some a) (\<lambda>_. c) m) = Some m'"
    by (auto split: Option.bind_splits)
  have "slot_env (upd_conn (Some a) (\<lambda>_. c) m) = slot_env m"
    using throttle_connection_source [OF c(1)] by (auto simp: slot_env_iff upd_conn_def source_address_at_def)
  with Cons.IH [OF c(2)] show ?case by simp
qed simp

lemma env_enable [env_simps]: "slot_env (enable_connections as m) = slot_env m"
  by (induction as arbitrary: m) (simp_all add: enable_connections_def env_upd_conn)

lemma env_throttle_slot: "throttle_slot m = Some (b, m') \<Longrightarrow> slot_env m' = slot_env m"
  by (auto simp: throttle_slot_def Let_def env_simps dest!: env_throttle_main split: Option.bind_splits)

lemma root_throttle: "handle_link_throttle m k = Some r \<Longrightarrow> slot_root (snd r) = slot_root m"
  by (erule handle_link_throttle.raw_induct [where P = "\<lambda>m k r. slot_root (snd r) = slot_root m", rotated])
     (auto dest!: root_next_slot env_throttle_slot [THEN base_of_env(2), THEN root_of_base] split: Option.bind_splits if_splits)

lemma root_select: "select_timeslot m = Some m' \<Longrightarrow> slot_root m' = slot_root m"
  by (auto simp: select_timeslot_def Let_def slot_root_def source_address_at_def fun_eq_iff
      dest!: root_throttle root_next_slot split: Option.bind_splits)

lemma next_timeslot_steps:
  fixes m :: "'s wps_mac"
  assumes "process_next_timeslot r m = Some m'"
  obtains m1 m2 :: "'s wps_mac" where "select_timeslot m = Some m1"
    "(if wps_mac_timeslots_is_current_timeslot_tx m1 then prepare_tx_main r m1 else prepare_rx_main m1) = Some m2"
    "m' = prepare_auto m2"
  using assms by (auto simp: process_next_timeslot_def split: Option.bind_splits)

lemma tx_xlayer_unsync:
  "mac_unsync m \<Longrightarrow> fst (wps_mac_xlayer_get_xlayer_for_tx_main p m) = XL_EMPTY_TX"
  "mac_unsync m \<Longrightarrow> fst (wps_mac_xlayer_get_xlayer_for_tx_auto p m) = XL_EMPTY_TX"
  by (simp_all add: wps_mac_xlayer_get_xlayer_for_tx_main_def wps_mac_xlayer_get_xlayer_for_tx_auto_def Let_def split: prod.split)
section \<open>The outcome handlers\<close>

lemma env_status [env_simps]:
  "slot_env (update_connect_status_main p m) = slot_env m" "slot_env (update_connect_status_auto p m) = slot_env m"
  by (auto simp: update_connect_status_main_def update_connect_status_auto_def reset_send_sync_frame_def Let_def
      env_upd_conn env_simps split: option.split prod.split)

lemma env_all_status [env_simps]:
  "slot_env (update_all_connect_status_main m) = slot_env m" "slot_env (update_all_connect_status_auto m) = slot_env m"
proof -
  have "slot_env (fold (\<lambda>i m. update_connect_status_main (c i m) m) is k) = slot_env k"
    "slot_env (fold (\<lambda>i m. update_connect_status_auto (c i m) m) is k) = slot_env k" for c "is" and k :: "'a wps_mac"
    by (induction "is" arbitrary: k) (simp_all add: env_simps)
  then show "slot_env (update_all_connect_status_main m) = slot_env m" "slot_env (update_all_connect_status_auto m) = slot_env m"
    by (simp_all add: update_all_connect_status_main_def update_all_connect_status_auto_def)
qed

lemma env_measures [env_simps]:
  "slot_env (wps_mac_statistics_update_main_conn m) = slot_env m"
  "slot_env (wps_mac_statistics_update_auto_conn m) = slot_env m"
  "slot_env (wps_mac_statistics_update_main_conn_empty_frame m) = slot_env m"
  "slot_env (wps_mac_statistics_update_auto_conn_empty_frame m) = slot_env m"
  by (simp_all add: wps_mac_statistics_update_main_conn_def wps_mac_statistics_update_auto_conn_def
      wps_mac_statistics_update_main_conn_empty_frame_def wps_mac_statistics_update_auto_conn_empty_frame_def
      update_conn_measures_def upd_stats_entry_def wps_mac_statistics_store_process_data_def env_simps)

lemma env_update_stats [env_simps]: "slot_env (wps_mac_update_stats m) = slot_env m"
  by (simp add: wps_mac_update_stats_def Let_def env_upd_conn)

lemma env_counters [env_simps]:
  "slot_env (wps_mac_statistics_update_main_stats m) = slot_env m"
  "slot_env (wps_mac_statistics_update_auto_stats m) = slot_env m"
  by (simp_all add: wps_mac_statistics_update_main_stats_def wps_mac_statistics_update_auto_stats_def
      update_auto_stats_of_main_def Let_def env_upd_conn env_simps split: wps_mac_output_signal.split)

lemma env_free_rx [env_simps]:
  "slot_env (mac_free_node_with_data p n m) = slot_env m" "slot_env (free_rx_node p m) = slot_env m"
  by (simp_all add: mac_free_node_with_data_def free_rx_node_def env_simps split: option.split)

lemma env_deliver [env_simps]:
  "slot_env (copy_signal_strength r m) = slot_env m" "slot_env (deliver_main m) = slot_env m" "slot_env (deliver_auto m) = slot_env m"
  by (simp_all add: copy_signal_strength_def deliver_main_def deliver_auto_def Let_def env_upd_conn env_simps)

lemma env_tx_outcome [env_simps]:
  "slot_env (tx_main_success m) = slot_env m" "slot_env (tx_main_fail m) = slot_env m" "slot_env (process_tx_main m) = slot_env m"
  "slot_env (process_tx_main_empty m) = slot_env m" "slot_env (set_auto_outcome out m) = slot_env m"
  "slot_env (process_tx_auto m) = slot_env m" "slot_env (process_tx_auto_empty m) = slot_env m"
  by (simp_all add: tx_main_success_def tx_main_fail_def process_tx_main_def process_tx_main_empty_def set_auto_outcome_def
      process_tx_auto_def process_tx_auto_empty_def Let_def env_upd_conn env_simps split: option.split)

end
