(* ===== verification/Mac_Handover.thy ===== *)
theory Mac_Handover
  imports Mac_Slot Wps_Header
begin

text \<open>
  What the MAC layer hands to the physical layer. The handlers rely on the tables of header protocols
  for one thing beside the bytes: that sending and receiving a header leaves the frames, the
  connections and the calls alone. This is the interface \<open>header_tables\<close>; the tables \<open>wps.c\<close>
  configures provide it.
\<close>

section \<open>The interface of the header tables\<close>

definition hand_env :: "'s wps_mac \<Rightarrow> phy_call list \<times> xlayer_ref option \<times> xlayer_ref option" where
  "hand_env m = (phy_calls m, main_xlayer m, auto_xlayer m)"

locale header_tables =
  fixes tabs :: "'s protocol_tables"
  assumes send_keeps: "p \<in> set (lp_protocols (tabs a)) \<Longrightarrow> hand_env (snd (pi_send p m)) = hand_env m"
    and receive_keeps: "p \<in> set (lp_protocols (tabs a)) \<Longrightarrow> hand_env (pi_receive p bs m) = hand_env m"
begin

lemma send_loop_keeps:
  "set ps \<subseteq> set (lp_protocols (tabs a)) \<Longrightarrow> hand_env (snd (snd (lp_send_loop ps n buf m))) = hand_env m"
  by (induction ps arbitrary: n buf m) (simp_all add: send_keeps [of _ a])

lemma receive_loop_keeps:
  "set ps \<subseteq> set (lp_protocols (tabs a)) \<Longrightarrow> hand_env (lp_receive_loop ps i j buf m) = hand_env m"
  by (induction ps arbitrary: i m) (simp_all add: receive_keeps [of _ a])

lemma receive_buffer_keeps: "hand_env (link_protocol_receive_buffer (tabs a) buf n m) = hand_env m"
  by (simp add: link_protocol_receive_buffer_def receive_loop_keeps [of _ a])

lemma send_header_keeps: "hand_env (send_header (tabs a) x m) = hand_env m"
proof -
  have "hand_env (k\<lparr>mac_mem := b\<rparr>) = hand_env k" for k :: "'s wps_mac" and b
    by (simp add: hand_env_def)
  then show ?thesis
    using send_loop_keeps [of "lp_protocols (tabs a)" a 0 _ m]
    by (simp add: send_header_def link_protocol_send_buffer_def split: prod.split) (metis snd_conv)
qed

end

section \<open>The configured tables\<close>

definition connection_tables :: "u8 \<Rightarrow> (nat \<Rightarrow> wps_header_cfg) \<Rightarrow> bool \<Rightarrow> 's protocol_tables" where
  "connection_tables sz cfg en a = fst (wps_configure_header_connection sz (cfg a) en)"

definition acknowledge_tables :: "(nat \<Rightarrow> wps_header_cfg) \<Rightarrow> 's protocol_tables" where
  "acknowledge_tables cfg a = the (wps_configure_header_acknowledge (cfg a) (Some (link_protocol_init 0)))"

text \<open>The callbacks of the protocols, whatever the place in the table.\<close>

definition hand_ok :: "'s wps_mac link_protocol_info \<Rightarrow> bool" where
  "hand_ok p \<longleftrightarrow> (\<forall>m bs. hand_env (snd (pi_send p m)) = hand_env m \<and> hand_env (pi_receive p bs m) = hand_env m)"

lemma hand_of_env: "slot_env m' = slot_env m \<Longrightarrow> hand_env m' = hand_env m"
  by (simp add: slot_env_iff hand_env_def)

lemma hand_upd_conn: "(\<And>c. conn_source_address (f c) = conn_source_address c) \<Longrightarrow> hand_env (upd_conn p f m) = hand_env m"
  by (intro hand_of_env env_upd_conn)

lemma hand_phy_mode: "hand_env (phy_mode_swap m) = hand_env m" "hand_env (phy_mode_count m) = hand_env m"
  by (simp_all add: phy_mode_swap_def phy_mode_count_def hand_env_def Let_def)

lemma hand_callback_queue: "hand_env (m\<lparr>mac_callback_queue := q\<rparr>) = hand_env m"
  by (rule hand_of_env) (simp add: env_simps)

lemma hand_upd_config: "hand_env (upd_config f m) = hand_env m"
  by (rule hand_of_env) (simp add: env_simps)

lemma hand_sends:
  "hand_env (snd (wps_mac_send_channel_index m)) = hand_env m" "hand_env (snd (wps_mac_send_timeslot_id_saw m)) = hand_env m"
  "hand_env (snd (wps_mac_send_rdo m)) = hand_env m" "hand_env (snd (wps_mac_send_ranging_phases m)) = hand_env m"
  "hand_env (snd (wps_mac_send_ranging_phase_count m)) = hand_env m" "hand_env (snd (wps_mac_send_connection_id m)) = hand_env m"
  "hand_env (snd (wps_mac_send_credit_flow_control m)) = hand_env m" "hand_env (snd (null_send m)) = hand_env m"
  "hand_env (snd (wps_mac_send_connection_id_header_acknowledge m)) = hand_env m"
  "hand_env (snd (wps_mac_send_credit_flow_control_header_acknowledge m)) = hand_env m"
  "hand_env (snd (wps_mac_send_phy_mode m)) = hand_env m"
  by (simp_all add: wps_mac_send_channel_index_def wps_mac_send_timeslot_id_saw_def wps_mac_send_rdo_def
      wps_mac_send_ranging_phases_def wps_mac_send_ranging_phase_count_def wps_mac_send_connection_id_def
      wps_mac_send_credit_flow_control_def wps_mac_send_connection_id_header_acknowledge_def null_send_def
      wps_mac_send_credit_flow_control_header_acknowledge_def wps_mac_send_phy_mode_def Let_def hand_phy_mode)

lemma hand_adopt: "hand_env (mac_adopt_timeslot i m) = hand_env m"
  by (simp add: mac_adopt_timeslot_def hand_env_def Let_def)

lemma hand_plain:
  "hand_env (m\<lparr>mac_channel_hopping := h\<rparr>) = hand_env m" "hand_env (m\<lparr>mac_main_signal := s\<rparr>) = hand_env m"
  "hand_env (m\<lparr>mac_link_rdo := z\<rparr>) = hand_env m" "hand_env (m\<lparr>phase_data := d\<rparr>) = hand_env m"
  "hand_env (m\<lparr>auto_connection_id := i\<rparr>) = hand_env m" "hand_env (m\<lparr>main_connection_id := i\<rparr>) = hand_env m"
  "hand_env (m\<lparr>main_ack_connection_id := i\<rparr>) = hand_env m" "hand_env (m\<lparr>main_connection := p\<rparr>) = hand_env m"
  "hand_env (m\<lparr>auto_connection := p\<rparr>) = hand_env m" "hand_env (m\<lparr>mac_scheduler := k\<rparr>) = hand_env m"
  "hand_env (m\<lparr>mac_mem := b\<rparr>) = hand_env m" "hand_env (m\<lparr>mac_tdma_sync := t\<rparr>) = hand_env m"
  "hand_env (m\<lparr>phy_mode_swap_count_down := w, requested_phy_mode := v\<rparr>) = hand_env m"
  by (simp_all add: hand_env_def)

lemma hand_receives:
  "hand_env (wps_mac_receive_channel_index bs m) = hand_env m" "hand_env (wps_mac_receive_timeslot_id_saw bs m) = hand_env m"
  "hand_env (wps_mac_receive_rdo bs m) = hand_env m" "hand_env (wps_mac_receive_ranging_phase_count bs m) = hand_env m"
  "hand_env (wps_mac_receive_connection_id bs m) = hand_env m" "hand_env (null_receive bs m) = hand_env m"
  "hand_env (wps_mac_receive_connection_id_header_acknowledge bs m) = hand_env m"
  "hand_env (wps_mac_receive_credit_flow_control bs m) = hand_env m"
  "hand_env (wps_mac_receive_credit_flow_control_header_acknowledge bs m) = hand_env m"
  "hand_env (wps_mac_receive_phy_mode bs m) = hand_env m"
  by (simp_all add: wps_mac_receive_channel_index_def wps_mac_receive_timeslot_id_saw_def wps_mac_receive_rdo_def
      wps_mac_receive_ranging_phase_count_def wps_mac_receive_connection_id_def null_receive_def
      wps_mac_receive_connection_id_header_acknowledge_def wps_mac_receive_credit_flow_control_def
      wps_mac_receive_credit_flow_control_header_acknowledge_def wps_mac_receive_phy_mode_def mac_set_credits_def
      Let_def hand_phy_mode hand_plain hand_adopt upd_main_saw_def hand_upd_conn)

lemma hand_receive_phases: "hand_env (wps_mac_receive_ranging_phases bs m) = hand_env m"
  by (simp add: wps_mac_receive_ranging_phases_def Let_def hand_plain hand_upd_conn hand_upd_config hand_callback_queue
      split: prod.split option.split)

lemma hand_protocol: "hand_ok (header_protocol i s r n) \<longleftrightarrow> (\<forall>m bs. hand_env (snd (s m)) = hand_env m \<and> hand_env (r bs m) = hand_env m)"
  by (simp add: hand_ok_def)

lemma hand_indexed: "hand_ok p \<Longrightarrow> hand_ok (p\<lparr>pi_index := i\<rparr>)"
  by (simp add: hand_ok_def)

definition table_ok :: "'s wps_mac link_protocol \<Rightarrow> bool" where
  "table_ok lp \<longleftrightarrow> (\<forall>p\<in>set (take (unat (current_number_of_protocol lp)) (protocol_info lp)). hand_ok p)"

lemma table_init: "table_ok (link_protocol_init n)"
  by (simp add: table_ok_def link_protocol_init_def)

lemma table_add:
  assumes "table_ok lp" "hand_ok p"
  shows "table_ok (snd (link_protocol_add lp p))"
proof -
  let ?k = "current_number_of_protocol lp" and ?xs = "protocol_info lp"
  have "hand_ok x" if "x \<in> set (take (unat (?k + 1)) (?xs[unat ?k := p\<lparr>pi_index := i\<rparr>]))" and small: "unat ?k < MAX_NUMBER_OF_PROTOCOL" for x i
  proof -
    have "unat (?k + 1) = unat ?k + 1"
      using small by (subst unat_plus_lt) (simp_all add: MAX_NUMBER_OF_PROTOCOL_def)
    with that(1) have "x \<in> set (take (unat ?k + 1) (?xs[unat ?k := p\<lparr>pi_index := i\<rparr>]))" by simp
    then have "x \<in> insert (p\<lparr>pi_index := i\<rparr>) (set (take (unat ?k) ?xs))"
      by (cases "unat ?k < length ?xs") (simp_all add: take_Suc_conv_app_nth list_update_beyond)
    then show ?thesis using assms by (auto simp: table_ok_def hand_indexed)
  qed
  then show ?thesis using assms(1) by (simp add: link_protocol_add_def table_ok_def)
qed

lemma table_add_list: "table_ok lp \<Longrightarrow> list_all hand_ok ps \<Longrightarrow> table_ok (lp_add_list ps lp)"
  by (induction ps arbitrary: lp) (simp_all add: lp_add_list_def table_add)

lemma table_add_option: "table_ok lp \<Longrightarrow> (\<And>p. x = Some p \<Longrightarrow> hand_ok p) \<Longrightarrow> table_ok (lp_add_option x lp)"
  by (simp add: lp_add_option_def table_add split: option.split)

lemma table_add_if: "table_ok lp \<Longrightarrow> hand_ok p \<Longrightarrow> table_ok (lp_add_if b p lp)"
  by (simp add: lp_add_if_def table_add)

lemma hand_ranging:
  "ranging_protocol mode = Some p \<Longrightarrow> hand_ok p" "ack_ranging_protocol mode = Some p \<Longrightarrow> hand_ok p"
  by (auto simp: ranging_protocol_def ack_ranging_protocol_def Let_def hand_protocol hand_sends hand_receives hand_receive_phases
      split: wps_ranging_mode.splits)

lemma table_connection: "table_ok (connection_tables sz cfg en a)"
  unfolding connection_tables_def wps_configure_header_connection_def Let_def fst_conv
  by (intro table_add_if table_add_option table_init) (auto simp: hand_protocol hand_sends hand_receives dest: hand_ranging)

lemma table_acknowledge: "table_ok (acknowledge_tables cfg a)"
  unfolding acknowledge_tables_def wps_configure_header_acknowledge_def Let_def option.case option.sel
  by (intro table_add_if table_add_option table_init) (auto simp: hand_protocol hand_sends hand_receives dest: hand_ranging)

interpretation conn: header_tables "connection_tables sz cfg en" for sz cfg en
  by unfold_locales
     (use table_connection [of sz cfg en] in \<open>auto simp: table_ok_def hand_ok_def lp_protocols_def\<close>)

interpretation ack: header_tables "acknowledge_tables cfg" for cfg
  by unfold_locales
     (use table_acknowledge [of cfg] in \<open>auto simp: table_ok_def hand_ok_def lp_protocols_def\<close>)

section \<open>The handlers over tables that keep the interface\<close>

text \<open>The operations that keep the slot environment.\<close>

lemmas hand_ops = env_conn_setters [THEN hand_of_env] env_upd_xlayer [THEN hand_of_env] env_upd_config [THEN hand_of_env]
  env_status [THEN hand_of_env] env_all_status [THEN hand_of_env] env_measures [THEN hand_of_env]
  env_counters [THEN hand_of_env] env_free_rx [THEN hand_of_env] env_deliver [THEN hand_of_env]
  env_tx_outcome [THEN hand_of_env] env_certification [THEN hand_of_env]

lemma hand_frame: "hand_env (upd_xlayer_frame r f m) = hand_env m"
  by (rule hand_of_env) (rule env_upd_frame)

lemma hand_update_sync: "hand_env (update_sync m) = hand_env m"
  by (simp add: update_sync_def Let_def hand_plain)

lemma hand_last_used: "hand_env (set_last_used_main_connection i m) = hand_env m"
  by (simp add: set_last_used_main_connection_def hand_env_def Let_def)

context header_tables
begin

lemma extract_main_keeps: "hand_env (extract_header_main tabs m) = hand_env m"
  by (simp add: extract_header_main_def Let_def hand_frame hand_plain hand_last_used receive_buffer_keeps)

lemma rx_main_keeps: "hand_env (process_rx_main tabs m) = hand_env m"
  by (simp add: process_rx_main_def Let_def extract_main_keeps hand_ops)

lemma main_outcome_keeps: "hand_env (process_main_frame_outcome tabs m) = hand_env m"
  by (simp add: process_main_frame_outcome_def hand_ops hand_update_sync rx_main_keeps)

lemma fill_keeps: "hand_env (fill_header tabs p x m) = hand_env m" "hand_env (fill_ack_header tabs p x m) = hand_env m"
  by (simp_all add: fill_header_def fill_ack_header_def Let_def send_header_keeps hand_frame hand_ops)

end

locale mac_tables = main: header_tables tabs + ack: header_tables ack_tabs
  for tabs :: "'s protocol_tables" and ack_tabs :: "'s protocol_tables"
begin

lemma extract_auto_keeps: "hand_env (extract_header_auto tabs ack_tabs m) = hand_env m"
  by (simp add: extract_header_auto_def Let_def hand_frame hand_plain main.receive_buffer_keeps ack.receive_buffer_keeps
      split: option.split prod.split)

lemma rx_auto_keeps: "hand_env (process_rx_auto tabs ack_tabs m) = hand_env m"
  by (simp add: process_rx_auto_def Let_def extract_auto_keeps hand_ops)

lemma auto_outcome_keeps: "hand_env (process_auto_frame_outcome tabs ack_tabs m) = hand_env m"
  by (simp add: process_auto_frame_outcome_def hand_ops rx_auto_keeps)

end

section \<open>The next slot\<close>

lemma prepare_auto_env:
  fixes m :: "'s wps_mac"
  shows "slot_base (prepare_auto m) = slot_base m \<and> main_connection (prepare_auto m) = main_connection m \<and>
    main_connection_id (prepare_auto m) = main_connection_id m \<and> main_xlayer (prepare_auto m) = main_xlayer m"
proof -
  have one: ?thesis if "slot_env (prepare_auto m) = (slot_env m)\<lparr>env_frames := (main_xlayer m, y)\<rparr>" for y
    using that base_of_env(1) [OF that] by (simp add: slot_env_def)
  have tx: "slot_base (prepare_tx_auto m) = slot_base m \<and> main_connection (prepare_tx_auto m) = main_connection m \<and>
    main_connection_id (prepare_tx_auto m) = main_connection_id m \<and> main_xlayer (prepare_tx_auto m) = main_xlayer m"
  proof -
    obtain m2 :: "'s wps_mac" where m2: "slot_base m2 = slot_base m" "main_connection m2 = main_connection m"
      "main_connection_id m2 = main_connection_id m" "main_xlayer m2 = main_xlayer m"
      "slot_env (prepare_tx_auto m) = (slot_env m2)\<lparr>env_frames := (main_xlayer m2,
         Some (fst (wps_mac_xlayer_get_xlayer_for_tx_auto (auto_connection m2) m2)))\<rparr>"
      using prepare_tx_auto_env [of m] by blast
    then show ?thesis using base_of_env(1) [OF m2(5)] by (simp add: slot_env_def)
  qed
  obtain y where rx: "slot_env (prepare_rx_auto m) = (slot_env m)\<lparr>env_frames := (main_xlayer m, y)\<rparr>"
    using prepare_rx_auto_env [of m] by blast
  obtain z where empty: "slot_env (prepare_tx_empty_conn_auto m) = (slot_env m)\<lparr>env_frames := (main_xlayer m, z)\<rparr>"
    "slot_env (prepare_rx_empty_conn_auto m) = (slot_env m)\<lparr>env_frames := (main_xlayer m, z)\<rparr>"
    using prepare_empty_auto_env [of m] by blast
  have "prepare_auto m \<in> {prepare_tx_auto m, prepare_rx_auto m, prepare_rx_empty_conn_auto m, prepare_tx_empty_conn_auto m, m}"
    by (simp add: prepare_auto_def)
  then consider "prepare_auto m = prepare_tx_auto m" | "prepare_auto m = prepare_rx_auto m" | "prepare_auto m = prepare_rx_empty_conn_auto m"
    | "prepare_auto m = prepare_tx_empty_conn_auto m" | "prepare_auto m = m"
    by blast
  then show ?thesis using tx rx empty one by cases simp_all
qed

lemma prepare_main_base:
  fixes m :: "'s wps_mac"
  assumes "(if wps_mac_timeslots_is_current_timeslot_tx m then prepare_tx_main r m else prepare_rx_main m) = Some m'"
  shows "slot_base m' = slot_base m \<and> (\<exists>x. main_xlayer m' = Some x) \<and> auto_connection m' = auto_connection m \<and> auto_xlayer m' = None \<and>
    (wps_mac_timeslots_is_current_timeslot_tx m \<and> mac_unsync m \<longrightarrow> main_xlayer m' = Some XL_EMPTY_TX)"
proof (cases "wps_mac_timeslots_is_current_timeslot_tx m")
  case True
  then obtain m1 :: "'s wps_mac" where m1: "slot_env m1 = slot_env m"
    and e: "slot_env m' = (slot_env (select_main_connection m1))\<lparr>env_frames := (Some (fst
       (wps_mac_xlayer_get_xlayer_for_tx_main (main_connection (select_main_connection m1)) (select_main_connection m1))), None)\<rparr>"
    using assms prepare_tx_main_env [of r m m'] by auto
  have keep: "auto_connection (select_main_connection k) = auto_connection k" for k :: "'s wps_mac"
    by (simp add: select_main_connection_def Let_def split: prod.split)
  have base: "slot_base (select_main_connection m1) = slot_base m"
    using base_select(1) [of m1] base_of_env(2) [OF m1] by simp
  have "slot_base m' = slot_base m" using base_of_env(1) [OF e] base by simp
  moreover have "auto_connection m' = auto_connection m" using e m1 keep [of m1] by (simp add: slot_env_def)
  moreover have "main_xlayer m' = Some XL_EMPTY_TX" if "mac_unsync m"
    using that slot_baseD(9) [OF base] e tx_xlayer_unsync(1) [of "select_main_connection m1"] by (simp add: slot_env_def)
  ultimately show ?thesis using e by (simp add: slot_env_def)
next
  case False
  then obtain x where "slot_env m' = (slot_env m)\<lparr>env_frames := (Some x, None)\<rparr>"
    using assms prepare_rx_main_env [of m m'] by auto
  with base_of_env(1) [OF this] False show ?thesis by (simp add: slot_env_def)
qed

lemma root_unsync: "slot_root m' = slot_root m \<Longrightarrow> mac_unsync m' = mac_unsync m"
  by (simp add: slot_root_def mac_unsync_def)

lemma next_timeslot_keeps:
  fixes m :: "'s wps_mac"
  assumes "process_next_timeslot r m = Some m'"
  shows "slot_root m' = slot_root m \<and> (\<exists>x. main_xlayer m' = Some x)"
proof -
  obtain m1 m2 :: "'s wps_mac" where m1: "select_timeslot m = Some m1"
    and m2: "(if wps_mac_timeslots_is_current_timeslot_tx m1 then prepare_tx_main r m1 else prepare_rx_main m1) = Some m2"
    and m': "m' = prepare_auto m2" using next_timeslot_steps [OF assms] by blast
  from prepare_main_base [OF m2] obtain x where x: "slot_base m2 = slot_base m1" "main_xlayer m2 = Some x" by blast
  have "slot_base m' = slot_base m1" "main_xlayer m' = Some x" using prepare_auto_env [of m2] x m' by simp_all
  then show ?thesis using root_of_base root_select [OF m1] by metis
qed

section \<open>One frame per slot\<close>

definition handed_over :: "phy_input_signal \<Rightarrow> 's wps_mac \<Rightarrow> phy_call list" where
  "handed_over s m = [PHY_SET_INPUT_SIGNAL s, PHY_SET_MAIN_XLAYER (main_xlayer m), PHY_SET_AUTO_XLAYER (auto_xlayer m), PHY_PREPARE_FRAME]"

definition frame_signals :: "phy_output_signal set" where
  "frame_signals = {PHY_SIGNAL_FRAME_SENT_ACK, PHY_SIGNAL_FRAME_SENT_NACK, PHY_SIGNAL_FRAME_RECEIVED,
     PHY_SIGNAL_FRAME_MISSED, PHY_SIGNAL_CONNECT}"

lemma hand_calls: "hand_env m' = hand_env m \<Longrightarrow> phy_calls m' = phy_calls m"
  "hand_env m' = hand_env m \<Longrightarrow> main_xlayer m' = main_xlayer m" "hand_env m' = hand_env m \<Longrightarrow> auto_xlayer m' = auto_xlayer m"
  by (simp_all add: hand_env_def)

lemma hand_missing: "hand_env (wps_mac_handle_missing_phy_mode m) = hand_env m"
  by (simp add: wps_mac_handle_missing_phy_mode_def hand_phy_mode)

context mac_tables
begin

lemma prepare_frame_hands_over:
  fixes m :: "'s wps_mac"
  obtains s where "s \<in> {PHY_SIGNAL_PREPARE_RADIO, PHY_SIGNAL_SYNCING}" "hand_env (prepare_frame tabs ack_tabs m) =
    (phy_calls m @ handed_over s m, main_xlayer m, auto_xlayer m)"
proof -
  define m1 where "m1 = (if wps_mac_timeslots_is_current_timeslot_tx m
         then (if header_begin_it (main_xlayer_frame m) \<noteq> 0 then fill_header tabs (main_connection m) (main_xlayer m) m else m)
         else if auto_connection m \<noteq> None
         then (if header_begin_it (auto_xlayer_frame m) \<noteq> 0 then fill_header tabs (auto_connection m) (auto_xlayer m) m else m)
         else if ack_frame_enable (conn_at m (main_connection m)) = True
         then (if auto_xlayer m \<noteq> None then fill_ack_header ack_tabs (main_connection m) (auto_xlayer m) m else m)
         else m)"
  have m1: "hand_env m1 = hand_env m" by (simp add: m1_def main.fill_keeps ack.fill_keeps)
  show thesis
  proof (rule that [of "if mac_main_signal m1 = MAC_SIGNAL_SYNCING then PHY_SIGNAL_SYNCING else PHY_SIGNAL_PREPARE_RADIO"])
    show "hand_env (prepare_frame tabs ack_tabs m) = (phy_calls m @ handed_over
      (if mac_main_signal m1 = MAC_SIGNAL_SYNCING then PHY_SIGNAL_SYNCING else PHY_SIGNAL_PREPARE_RADIO) m, main_xlayer m, auto_xlayer m)"
      using hand_calls [OF m1]
      by (simp only: prepare_frame_def Let_def m1_def [symmetric]) (simp add: call_phy_def hand_env_def handed_over_def)
  qed simp
qed

lemma callback_hands_over:
  fixes m :: "'s wps_mac"
  assumes cb: "wps_mac_phy_callback tabs ack_tabs r s a m = Some m'" and s: "s \<in> frame_signals"
  shows "\<exists>sig\<in>{PHY_SIGNAL_PREPARE_RADIO, PHY_SIGNAL_SYNCING}. phy_calls m' = phy_calls m @ handed_over sig m' \<and> main_xlayer m' \<noteq> None"
proof -
  define m0 where "m0 = m\<lparr>input_main_signal := s, input_auto_signal := a\<rparr>"
  have m0: "hand_env m0 = hand_env m" by (simp add: m0_def hand_env_def)
  obtain k m1 :: "'s wps_mac" where k: "hand_env k = hand_env m" and m1: "process_next_timeslot r k = Some m1"
    and m': "hand_env m' = hand_env (prepare_frame tabs ack_tabs m1)"
  proof (cases "s = PHY_SIGNAL_CONNECT")
    case True
    then obtain m1 where "process_next_timeslot r m0 = Some m1" "m' = callback_context_switch (prepare_frame tabs ack_tabs m1)"
      using cb by (auto simp: wps_mac_phy_callback_def Let_def m0_def)
    then show thesis using that [of m0 m1] m0 by (simp add: callback_context_switch_def hand_env_def)
  next
    case False
    let ?k = "process_auto_frame_outcome tabs ack_tabs (process_main_frame_outcome tabs m0)"
    from False obtain m1 where "process_next_timeslot r ?k = Some m1"
      "m' \<in> {prepare_frame tabs ack_tabs m1, wps_mac_handle_missing_phy_mode (prepare_frame tabs ack_tabs m1)}"
      using cb s by (auto simp: wps_mac_phy_callback_def Let_def m0_def frame_signals_def)
    then show thesis using that [of ?k m1] m0 by (auto simp: auto_outcome_keeps main.main_outcome_keeps hand_missing)
  qed
  obtain sig where sig: "sig \<in> {PHY_SIGNAL_PREPARE_RADIO, PHY_SIGNAL_SYNCING}"
    "hand_env (prepare_frame tabs ack_tabs m1) = (phy_calls m1 @ handed_over sig m1, main_xlayer m1, auto_xlayer m1)"
    using prepare_frame_hands_over [of m1] by blast
  have "phy_calls m1 = phy_calls m" "main_xlayer m1 \<noteq> None"
    using next_timeslot_keeps [OF m1] hand_calls [OF k] by (auto simp: slot_root_def)
  moreover have "phy_calls m' = phy_calls m1 @ handed_over sig m1" "main_xlayer m' = main_xlayer m1" "auto_xlayer m' = auto_xlayer m1"
    using sig(2) m' by (simp_all add: hand_env_def)
  ultimately show ?thesis using sig(1) by (intro bexI [of _ sig]) (simp_all add: handed_over_def)
qed

end

interpretation configured: mac_tables "connection_tables sz cfg en" "acknowledge_tables ack_cfg" for sz cfg en ack_cfg
  by (intro mac_tables.intro conn.header_tables_axioms ack.header_tables_axioms)

text \<open>
  C6. One frame per slot. On every outcome of a frame, and on the connection of the physical layer, the
  MAC callback ends, with the header tables \<open>wps.c\<close> configures for any connections, in exactly four new
  calls to the physical layer: the input signal, the main and the auto-reply descriptor the next slot
  chose, in that order, and one \<open>prepare_frame\<close>. The main descriptor is never \<open>NULL\<close>.
\<close>

theorem wps_mac_one_frame_per_slot:
  assumes "wps_mac_phy_callback (connection_tables sz cfg en) (acknowledge_tables ack_cfg) r s a m = Some m'"
    and "s \<in> frame_signals"
  shows "\<exists>sig\<in>{PHY_SIGNAL_PREPARE_RADIO, PHY_SIGNAL_SYNCING}.
    phy_calls m' = phy_calls m @ handed_over sig m' \<and> main_xlayer m' \<noteq> None"
  using assms by (rule configured.callback_hands_over)

text \<open>
  C16. A node that is not synchronised sends no data. While the slave clock is syncing, a slot in which the
  node transmits gives the physical layer the empty frame of the MAC, whatever its queues hold; the same
  holds for the auto-reply of a slot in which the node answers.
\<close>

theorem wps_mac_unsynced_sends_no_data:
  assumes "process_next_timeslot r m = Some m'" and "select_timeslot m = Some m1" and "mac_unsync m"
  shows "(wps_mac_timeslots_is_current_timeslot_tx m1 \<longrightarrow> main_xlayer m' = Some XL_EMPTY_TX) \<and>
    (auto_connection m1 \<noteq> None \<and> wps_mac_timeslots_is_current_auto_reply_timeslot_tx m1 \<longrightarrow> auto_xlayer m' = Some XL_EMPTY_TX)"
proof -
  obtain m2 where m2: "(if wps_mac_timeslots_is_current_timeslot_tx m1 then prepare_tx_main r m1 else prepare_rx_main m1) = Some m2"
    and m': "m' = prepare_auto m2" using next_timeslot_steps [OF assms(1)] assms(2) by auto
  note b = prepare_main_base [OF m2]
  have u: "mac_unsync m1" using root_unsync [OF root_select [OF assms(2)]] assms(3) by simp
  have "auto_xlayer m' = Some XL_EMPTY_TX"
    if a: "auto_connection m1 \<noteq> None" "wps_mac_timeslots_is_current_auto_reply_timeslot_tx m1"
  proof -
    have "m' = prepare_tx_auto m2" using a b slot_baseD [of m2 m1] m'
      by (auto simp: prepare_auto_def wps_mac_timeslots_is_current_auto_reply_timeslot_tx_def conn_at_def source_address_at_def fun_eq_iff)
    then show ?thesis
      using prepare_tx_auto_env [of m2] tx_xlayer_unsync(2) slot_baseD(9) u b by (metis (no_types, lifting) slot_env_def slot_env.select_convs(15) slot_env.update_convs(15) snd_conv)
  qed
  then show ?thesis using b u prepare_auto_env [of m2] m' by simp
qed

section \<open>Witnesses\<close>

text \<open>Without a change of the sleep level the sleep time can always be converted.\<close>

lemma sync_update_idle: "sync_update d SLEEP_IDLE t \<noteq> None"
  by (simp add: sync_update_def sync_transition_def uint_startup Let_def)

lemma update_idle:
  "\<exists>t'. link_tdma_sync_update_tx r d cca SLEEP_IDLE rate t = Some t'" "\<exists>t'. link_tdma_sync_update_rx d cca SLEEP_IDLE rate t = Some t'"
  using sync_update_idle by (simp_all add: link_tdma_sync_update_tx_def link_tdma_sync_update_rx_def Let_def split: option.split)

lemma prepare_tx_idle:
  assumes ch: "link_channel_hopping_get_channel (mac_channel_hopping m) = Some ch" and lvl: "slot_sleep_lvl m = SLEEP_IDLE"
    and fl: "flush_main_connections (slot_connections (main_conn_list (mac_timeslot m))) (apply_phy_mode SLEEP_IDLE m) = Some m1"
  shows "\<exists>m'. prepare_tx_main r m = Some m'"
proof -
  let ?m2 = "select_main_connection m1"
  obtain x m3 where x: "wps_mac_xlayer_get_xlayer_for_tx_main (main_connection ?m2) ?m2 = (x, m3)" by fastforce
  obtain d m4 where d: "tx_delay (m3\<lparr>main_xlayer := Some x, auto_xlayer := None\<rparr>) = (d, m4)" by fastforce
  obtain e m5 where e: "take_back_delay d m4 = (e, m5)" by fastforce
  obtain t where "link_tdma_sync_update_tx r (word_of_int e + link_scheduler_get_sleep_time (mac_scheduler m5) + ucast (slot_rdo_value m))
      (conn_cca (conn_at m5 (main_connection m5))) SLEEP_IDLE (current_chip_rate m5) (mac_tdma_sync m5) = Some t"
    using update_idle(1) by blast
  then show ?thesis by (simp only: prepare_tx_main_def ch lvl fl x d e Option.bind.simps prod.case Let_def) blast
qed

text \<open>A radio just connected whose only slot is its own, one connection without stop-and-wait.\<close>

definition node_slot_example :: timeslot where
  "node_slot_example = zero_timeslot\<lparr>main_conn_list := zero_conn_list\<lparr>connection_count := 1,
     tcl_connection := [Some 7, None, None]\<rparr>\<rparr>"

definition node_conn_example :: "unit wps_connection" where
  "node_conn_example = undefined\<lparr>conn_pattern := None, conn_source_address := 5,
     conn_saw_arq := undefined\<lparr>saw_enable := False\<rparr>, tx_flush := False\<rparr>"

definition node_mac_example :: "wps_role \<Rightarrow> unit wps_mac" where
  "node_mac_example role = undefined\<lparr>phy_calls := [], input_auto_signal := PHY_SIGNAL_CONNECT, node_role := role, local_address := 5, input_main_signal := PHY_SIGNAL_CONNECT,
     mac_tdma_sync := undefined\<lparr>slave_sync_state := STATE_SYNCING\<rparr>,
     mac_scheduler := link_scheduler_init (undefined\<lparr>schedule := \<lparr>sched_timeslot = [node_slot_example], sched_size = 1,
        lightest_sleep_lvl = SLEEP_IDLE\<rparr>\<rparr>) 5,
     mac_channel_hopping := \<lparr>hop_seq_index = 0, ch_sequence = \<lparr>cs_channel = [0, 1], sequence_size = 2, channel_number = 2,
        channel_sequence_buffer = None\<rparr>, channel_lookup_table = [0, 1], middle_channel_idx = 0\<rparr>,
     mac_conns := (\<lambda>_. node_conn_example)\<rparr>"

lemma node_slot_list:
  "slot_connections (main_conn_list node_slot_example) = [7]" "slot_connections (auto_conn_list node_slot_example) = []"
  "tcl_connection (main_conn_list node_slot_example) ! 0 = Some 7" "tcl_connection (auto_conn_list node_slot_example) ! 0 = None"
  "connection_count (main_conn_list node_slot_example) = 1"
  by (simp_all add: node_slot_example_def slot_connections_def zero_timeslot_def zero_conn_list_def WPS_MAX_CONN_PER_TIMESLOT_def)

lemma node_mac_fields:
  "mac_conns (node_mac_example role) = (\<lambda>_. node_conn_example)"
  "input_main_signal (node_mac_example role) = PHY_SIGNAL_CONNECT"
  "schedule (mac_scheduler (node_mac_example role)) = \<lparr>sched_timeslot = [node_slot_example], sched_size = 1, lightest_sleep_lvl = SLEEP_IDLE\<rparr>"
  "current_time_slot_num (mac_scheduler (node_mac_example role)) = 0"
  "tx_disabled (mac_scheduler (node_mac_example role)) = False"
  by (simp_all add: node_mac_example_def link_scheduler_init_def)

lemma node_selects:
  obtains m1 where "select_timeslot (node_mac_example role) = Some m1"
    "wps_mac_timeslots_is_current_timeslot_tx m1" "auto_connection m1 = None" "input_main_signal m1 = PHY_SIGNAL_CONNECT"
    "mac_timeslot m1 = node_slot_example" "\<not> is_saw_arq_enable (mac_conns m1 7)" "\<not> tx_flush (mac_conns m1 7)"
    "link_channel_hopping_get_channel (mac_channel_hopping m1) \<noteq> None"
proof -
  let ?m = "node_mac_example role"
  let ?k = "?m\<lparr>mac_scheduler := link_scheduler_reset_sleep_time (mac_scheduler ?m)\<rparr>"
  have "\<exists>s. link_scheduler_increment_time_slot (source_address_at ?k) (mac_scheduler ?k) = Some (1, s) \<and>
      current_time_slot_num s = 0 \<and> schedule s = \<lparr>sched_timeslot = [node_slot_example], sched_size = 1, lightest_sleep_lvl = SLEEP_IDLE\<rparr>"
    by (simp add: link_scheduler_increment_time_slot_def link_scheduler_reset_sleep_time_def node_mac_fields Let_def)
       (subst sched_skip_loop.simps, simp add: node_mac_fields sched_slot_def time_slot_is_empty_def node_slot_list Let_def)
  then obtain s where s: "link_scheduler_increment_time_slot (source_address_at ?k) (mac_scheduler ?k) = Some (1, s)"
      "current_time_slot_num s = 0" "schedule s = \<lparr>sched_timeslot = [node_slot_example], sched_size = 1, lightest_sleep_lvl = SLEEP_IDLE\<rparr>" by blast
  let ?m1 = "?k\<lparr>mac_scheduler := s\<rparr>"
  have n: "next_time_slot ?k = Some (1, ?m1)" using s(1) by (simp add: next_time_slot_def)
  let ?c = "node_conn_example\<lparr>conn_currently_enabled := True\<rparr>"
  let ?m2 = "upd_conn (Some 7) (\<lambda>_. ?c) ?m1"
  have "throttle_connection node_conn_example = Some ?c" by (simp add: throttle_connection_def node_conn_example_def)
  then have "throttle_slot ?m1 = Some (True, ?m2)"
    using s(2,3) by (simp add: throttle_slot_def link_scheduler_get_current_timeslot_def sched_slot_def node_mac_fields
        node_slot_list Let_def enable_connections_def upd_conn_def)
  then have t: "handle_link_throttle ?m1 1 = Some (1, ?m2)" by (subst handle_link_throttle.simps) simp
  let ?hop = "\<lparr>hop_seq_index = 1, ch_sequence = \<lparr>cs_channel = [0, 1], sequence_size = 2, channel_number = 2,
        channel_sequence_buffer = None\<rparr>, channel_lookup_table = [0, 1], middle_channel_idx = 0\<rparr> :: channel_hopping"
  have hop: "link_channel_hopping_increment_sequence (mac_channel_hopping ?m2) 1 = Some ?hop"
    "link_channel_hopping_get_channel ?hop = Some 1"
    by (simp_all add: upd_conn_def node_mac_example_def link_channel_hopping_increment_sequence_def link_channel_hopping_get_channel_def)
  let ?m3 = "?m2\<lparr>ts_increment_count := 1, mac_channel_hopping := ?hop, channel_index := 1,
     timeslot_ptr := 0, main_connection_id := 0, auto_connection_id := 0, main_connection := Some 7, auto_connection := None\<rparr>"
  have "link_scheduler_get_current_main_connection (mac_scheduler ?m2) 0 = Some 7"
    "link_scheduler_get_current_auto_connection (mac_scheduler ?m2) 0 = None"
    using s(2,3) by (simp_all add: upd_conn_def link_scheduler_get_current_main_connection_def sched_slot_def node_slot_list
        link_scheduler_get_current_auto_connection_def)
  then have sel: "select_timeslot ?m = Some ?m3"
    using hop s(2) by (simp only: select_timeslot_def n t Option.bind.simps prod.case Let_def) (simp add: upd_conn_def)
  show thesis
  proof (rule that [OF sel])
    show "wps_mac_timeslots_is_current_timeslot_tx ?m3"
      by (simp add: wps_mac_timeslots_is_current_timeslot_tx_def conn_at_def upd_conn_def node_mac_example_def node_conn_example_def)
    show "mac_timeslot ?m3 = node_slot_example" using s(3) by (simp add: mac_timeslot_def upd_conn_def sched_slot_def)
    show "\<not> is_saw_arq_enable (mac_conns ?m3 7)" "\<not> tx_flush (mac_conns ?m3 7)"
      by (simp_all add: is_saw_arq_enable_def upd_conn_def node_conn_example_def)
    show "link_channel_hopping_get_channel (mac_channel_hopping ?m3) \<noteq> None" using hop(2) by (simp add: upd_conn_def)
  qed (simp_all add: upd_conn_def node_mac_fields)
qed

lemma node_prepares:
  obtains m' where "process_next_timeslot r (node_mac_example role) = Some m'"
proof -
  obtain m1 where m1: "select_timeslot (node_mac_example role) = Some m1"
    "wps_mac_timeslots_is_current_timeslot_tx m1" "auto_connection m1 = None" "input_main_signal m1 = PHY_SIGNAL_CONNECT"
    "mac_timeslot m1 = node_slot_example" "\<not> is_saw_arq_enable (mac_conns m1 7)" "\<not> tx_flush (mac_conns m1 7)"
    "link_channel_hopping_get_channel (mac_channel_hopping m1) \<noteq> None" using node_selects [of role] by blast
  have lvl: "slot_sleep_lvl m1 = SLEEP_IDLE" using m1(4) by (simp add: slot_sleep_lvl_def)
  have "mac_conns (apply_phy_mode SLEEP_IDLE m1) = mac_conns m1" by (simp add: apply_phy_mode_def Let_def)
  then have f: "flush_main_connections [7] (apply_phy_mode SLEEP_IDLE m1) = Some (apply_phy_mode SLEEP_IDLE m1)"
    using m1(6,7) by simp
  obtain ch where ch: "link_channel_hopping_get_channel (mac_channel_hopping m1) = Some ch" using m1(8) by auto
  obtain m2 where "prepare_tx_main r m1 = Some m2"
    using prepare_tx_idle [OF ch lvl, of "apply_phy_mode SLEEP_IDLE m1" r] f m1(5) by (auto simp: node_slot_list)
  then show thesis using that m1(1,2) by (simp add: process_next_timeslot_def)
qed

theorem wps_mac_one_frame_per_slot_witness:
  "\<exists>m'. wps_mac_phy_callback (connection_tables 1 (\<lambda>_. header_cfg_example) False) (acknowledge_tables (\<lambda>_. header_cfg_example)) 3
      PHY_SIGNAL_CONNECT PHY_SIGNAL_CONNECT (node_mac_example NETWORK_COORDINATOR) = Some m' \<and> length (phy_calls m') = 4"
proof -
  let ?k = "node_mac_example NETWORK_COORDINATOR"
  have same: "?k\<lparr>input_main_signal := PHY_SIGNAL_CONNECT, input_auto_signal := PHY_SIGNAL_CONNECT\<rparr> = ?k"
    by (simp add: node_mac_example_def)
  obtain k' where k': "process_next_timeslot 3 ?k = Some k'" by (rule node_prepares)
  obtain m' where m': "wps_mac_phy_callback (connection_tables 1 (\<lambda>_. header_cfg_example) False)
      (acknowledge_tables (\<lambda>_. header_cfg_example)) 3 PHY_SIGNAL_CONNECT PHY_SIGNAL_CONNECT ?k = Some m'"
    by (simp add: wps_mac_phy_callback_def Let_def same k')
  from wps_mac_one_frame_per_slot [OF m'] show ?thesis
    using m' by (auto simp: frame_signals_def handed_over_def node_mac_example_def)
qed

theorem wps_mac_unsynced_sends_no_data_witness:
  "\<exists>m1 m'. select_timeslot (node_mac_example NETWORK_NODE) = Some m1 \<and>
    process_next_timeslot 3 (node_mac_example NETWORK_NODE) = Some m' \<and> main_xlayer m' = Some XL_EMPTY_TX"
proof -
  obtain m' where m': "process_next_timeslot 3 (node_mac_example NETWORK_NODE) = Some m'" by (rule node_prepares)
  obtain m1 where m1: "select_timeslot (node_mac_example NETWORK_NODE) = Some m1" "wps_mac_timeslots_is_current_timeslot_tx m1"
    by (rule node_selects)
  have "mac_unsync (node_mac_example NETWORK_NODE)" by (simp add: mac_unsync_def node_mac_example_def)
  from wps_mac_unsynced_sends_no_data [OF m' m1(1) this] show ?thesis using m' m1 by blast
qed

end
