(* ===== verification/Mac_Choice.thy ===== *)
theory Mac_Choice
  imports Mac_Handover
begin

text \<open>
  The slot and the connections \<open>process_next_timeslot\<close> chooses. The current slot is never empty, the
  connections and their numbers belong to it, whatever the search by priority and credits answers,
  and the search for a slot whose connections are not throttled ends exactly when there is one.
\<close>

section \<open>The searches stay in the list\<close>

lemma highest_index_lt:
  assumes "0 < unat count"
  shows "unat (get_highest_conn_index_based_on_priority s h cs prios count) < unat count"
proof -
  let ?es = "take (unat count) (zip (map (conn_ready s h) cs) prios)"
  have "highest_loop ?es 0 (WPS_MAX_CONN_PRIORITY + 1) 0 = 0 \<or>
      (\<exists>j. highest_loop ?es 0 (WPS_MAX_CONN_PRIORITY + 1) 0 = 0 + of_nat j \<and> best_entry ?es (WPS_MAX_CONN_PRIORITY + 1) j)"
    using highest_loop_spec [of "WPS_MAX_CONN_PRIORITY + 1" ?es 0 0] by (auto simp: WPS_MAX_CONN_PRIORITY_def)
  moreover have "unat (of_nat j :: u8) < unat count" if "best_entry ?es (WPS_MAX_CONN_PRIORITY + 1) j" for j
  proof -
    have "j < unat count" using that by (simp add: best_entry_def)
    moreover have "unat count < 256" by (rule unat_u8_lt)
    ultimately show ?thesis by (simp add: unat_of_nat)
  qed
  ultimately show ?thesis using assms by (auto simp: get_highest_conn_index_based_on_priority_def)
qed

lemma main_search_lt:
  assumes "0 < unat count"
    and "get_highest_main_conn_index_based_on_priority_and_credits h cs prios count d s = (i, t)"
  shows "i = USE_HIGHEST_CONNECTION_PRIORITY \<or> unat i < unat count"
  using assms(2)
proof (induction d arbitrary: prios s)
  case 0
  then show ?case using highest_index_lt [OF assms(1)]
    by (subst (asm) get_highest_main_conn_index_based_on_priority_and_credits.simps) (auto simp: Let_def split: if_splits)
next
  case (Suc d)
  from Suc.prems show ?case using highest_index_lt [OF assms(1)] Suc.IH
    unfolding get_highest_main_conn_index_based_on_priority_and_credits.simps [of h cs prios count "Suc d" s]
    by (auto simp: Let_def split: if_splits)
qed

lemma main_priority_lt:
  assumes "0 < unat count"
  shows "unat (fst (wps_conn_priority_get_highest_main_conn_index h cs prios count s)) < unat count"
proof -
  obtain i t where it: "get_highest_main_conn_index_based_on_priority_and_credits h cs prios count (unat (count - 1)) s = (i, t)"
    by fastforce
  then show ?thesis using main_search_lt [OF assms it] highest_index_lt [OF assms]
    by (auto simp: wps_conn_priority_get_highest_main_conn_index_def)
qed

lemma most_missed_lt:
  assumes "unat best_id < n" "unat i + length cs \<le> n" "n \<le> 256"
  shows "unat (most_missed_loop s cs i best best_id) < n"
  using assms
proof (induction cs arbitrary: i best best_id)
  case (Cons c cs)
  show ?case
  proof (cases cs)
    case Nil
    then show ?thesis using Cons.prems by (simp add: Let_def)
  next
    case (Cons c' cs')
    then have "unat (i + 1) = unat i + 1"
      using Cons.prems by (intro unat_plus_lt [THEN trans]) simp_all
    then show ?thesis using Cons.prems Cons.IH [of _ "i + 1"] by (simp add: Let_def)
  qed
qed simp

lemma auto_priority_lt:
  assumes "0 < unat count"
  shows "unat (fst (wps_conn_priority_get_highest_auto_conn_index h cs prios count s)) < unat count"
proof -
  have "unat (most_missed_loop t (take (unat count) cs) 0 0 0) < unat count" for t :: "'a conn_store"
    by (rule most_missed_lt) (use assms unat_u8_lt [of count] in \<open>simp_all add: less_imp_le\<close>)
  then show ?thesis
    by (simp add: wps_conn_priority_get_highest_auto_conn_index_def get_highest_auto_conn_index_based_on_priority_and_credits_def
        Let_def highest_index_lt [OF assms])
qed

section \<open>A well-formed slot\<close>

text \<open>Connection \<open>p\<close> is number \<open>i\<close> of the list.\<close>

definition conn_choice :: "timeslot_conn_list \<Rightarrow> u8 \<Rightarrow> nat option \<Rightarrow> bool" where
  "conn_choice l i p \<longleftrightarrow> p = tcl_connection l ! unat i \<and> unat i < max 1 (unat (connection_count l))"

definition mac_slot_wf :: "'s wps_mac \<Rightarrow> bool" where
  "mac_slot_wf m \<longleftrightarrow> scheduler_wf (mac_scheduler m) \<and>
     timeslot_ptr m = unat (current_time_slot_num (mac_scheduler m)) \<and>
     \<not> time_slot_is_empty (source_address_at m) (mac_scheduler m) (mac_timeslot m) \<and>
     conn_choice (main_conn_list (mac_timeslot m)) (main_connection_id m) (main_connection m) \<and>
     conn_choice (auto_conn_list (mac_timeslot m)) (auto_connection_id m) (auto_connection m)"

definition slot_current :: "'s wps_mac \<Rightarrow> bool" where
  "slot_current m \<longleftrightarrow> scheduler_wf (mac_scheduler m) \<and>
     \<not> time_slot_is_empty (source_address_at m) (mac_scheduler m) (link_scheduler_get_current_timeslot (mac_scheduler m))"

lemma empty_schedule:
  "schedule s' = schedule s \<Longrightarrow> tx_disabled s' = tx_disabled s \<Longrightarrow> sched_local_addr s' = sched_local_addr s \<Longrightarrow>
    time_slot_is_empty src s' = time_slot_is_empty src s"
  by (rule ext) (simp add: time_slot_is_empty_def split: option.split)

lemma increment_frame:
  "link_scheduler_increment_time_slot src s = Some (k, s') \<Longrightarrow>
    schedule s' = schedule s \<and> tx_disabled s' = tx_disabled s \<and> sched_local_addr s' = sched_local_addr s"
  by (auto simp: link_scheduler_increment_time_slot_def Let_def split: if_splits)

lemma next_slot_current:
  assumes "next_time_slot m = Some (k, m')" "scheduler_wf (mac_scheduler m)"
  shows "slot_current m' \<and> schedule (mac_scheduler m') = schedule (mac_scheduler m)"
proof -
  let ?src = "source_address_at m" and ?s = "mac_scheduler m"
  obtain s' where s': "link_scheduler_increment_time_slot ?src ?s = Some (k, s')" "m' = m\<lparr>mac_scheduler := s'\<rparr>"
    using assms(1) by (auto simp: next_time_slot_def)
  then obtain j where j: "j < unat (sched_size (schedule ?s))" "\<not> time_slot_is_empty ?src ?s (sched_slot ?s j)"
    using increment_diverges [OF assms(2), of ?src] by fastforce
  obtain d s'' where d: "link_scheduler_increment_time_slot ?src ?s = Some (of_nat d, s'')"
    "unat (current_time_slot_num s'') = slot_after ?s (unat (current_time_slot_num ?s)) d"
    "\<not> empty_after ?src ?s (unat (current_time_slot_num ?s)) d"
    using increment_returns [OF assms(2) j] by blast
  have s'': "s'' = s'" using d(1) s'(1) by simp
  note f = increment_frame [OF s'(1)]
  have same: "source_address_at m' = ?src" by (simp add: s'(2) source_address_at_def fun_eq_iff)
  have "unat (current_time_slot_num s') < unat (sched_size (schedule s'))"
    using d(2) assms(2) f unfolding s'' by (simp add: slot_after_def scheduler_wf_def)
  then have "scheduler_wf s'" using assms(2) f by (simp add: scheduler_wf_def)
  moreover have "\<not> time_slot_is_empty ?src s' (link_scheduler_get_current_timeslot s')"
    using d(2,3) f empty_schedule [of s' ?s] unfolding s''
    by (simp add: empty_after_def link_scheduler_get_current_timeslot_def sched_slot_def)
  ultimately show ?thesis using f same by (simp add: slot_current_def s'(2))
qed

lemma current_of_env: "slot_env m' = slot_env m \<Longrightarrow> slot_current m' = slot_current m"
  by (simp add: slot_env_iff slot_current_def)

lemma throttle_slot_current:
  "throttle_slot m = Some (b, m') \<Longrightarrow> slot_current m' = slot_current m \<and> mac_scheduler m' = mac_scheduler m"
  using env_throttle_slot [of m b m'] current_of_env [of m' m] by (simp add: slot_env_iff)

lemma throttle_step_current:
  assumes "slot_current m" "throttle_slot m = Some (b, m1)" "next_time_slot m1 = Some (k, m2)"
  shows "slot_current m2 \<and> schedule (mac_scheduler m2) = schedule (mac_scheduler m)"
  using throttle_slot_current [OF assms(2)] next_slot_current [OF assms(3)] assms(1) by (simp add: slot_current_def)

lemma throttle_current:
  "handle_link_throttle m k = Some r \<Longrightarrow> slot_current m \<longrightarrow>
    slot_current (snd r) \<and> schedule (mac_scheduler (snd r)) = schedule (mac_scheduler m)"
proof (erule handle_link_throttle.raw_induct [where P = "\<lambda>m k r. slot_current m \<longrightarrow>
       slot_current (snd r) \<and> schedule (mac_scheduler (snd r)) = schedule (mac_scheduler m)", rotated], rule impI)
  fix h :: "'a wps_mac \<Rightarrow> u8 \<Rightarrow> (u8 \<times> 'a wps_mac) option" and m k r
  assume ih: "\<And>m k r. h m k = Some r \<Longrightarrow> slot_current m \<longrightarrow>
      slot_current (snd r) \<and> schedule (mac_scheduler (snd r)) = schedule (mac_scheduler m)"
    and step: "(throttle_slot m \<bind> (\<lambda>(ts_enabled, m1). if ts_enabled then Some (k, m1)
      else next_time_slot m1 \<bind> (\<lambda>(inc, m2). h m2 (k + inc)))) = Some r" and m: "slot_current m"
  obtain b m1 where t: "throttle_slot m = Some (b, m1)" using step by (auto split: Option.bind_splits)
  show "slot_current (snd r) \<and> schedule (mac_scheduler (snd r)) = schedule (mac_scheduler m)"
  proof (cases b)
    case True
    then show ?thesis using step t throttle_slot_current [OF t] m by auto
  next
    case False
    then obtain i m2 where n: "next_time_slot m1 = Some (i, m2)" "h m2 (k + i) = Some r"
      using step t by (auto split: Option.bind_splits)
    show ?thesis using ih [OF n(2)] throttle_step_current [OF m t n(1)] by simp
  qed
qed

lemma select_current:
  assumes "select_timeslot m = Some m'" "scheduler_wf (mac_scheduler m)"
  shows "mac_slot_wf m' \<and> schedule (mac_scheduler m') = schedule (mac_scheduler m) \<and>
    main_connection_id m' = 0 \<and> auto_connection_id m' = 0"
proof -
  let ?m0 = "m\<lparr>mac_scheduler := link_scheduler_reset_sleep_time (mac_scheduler m)\<rparr>"
  have wf: "scheduler_wf (mac_scheduler ?m0)"
    using assms(2) by (simp add: scheduler_wf_def link_scheduler_reset_sleep_time_def)
  obtain k m1 j m2 hop ch where m1: "next_time_slot ?m0 = Some (k, m1)" and m2: "handle_link_throttle m1 k = Some (j, m2)"
    and m': "m' = m2\<lparr>ts_increment_count := j, mac_channel_hopping := hop, channel_index := ch,
       timeslot_ptr := unat (current_time_slot_num (mac_scheduler m2)), main_connection_id := 0, auto_connection_id := 0,
       main_connection := link_scheduler_get_current_main_connection (mac_scheduler m2) 0,
       auto_connection := link_scheduler_get_current_auto_connection (mac_scheduler m2) 0\<rparr>"
    using assms(1) by (auto simp: select_timeslot_def Let_def split: Option.bind_splits)
  have "slot_current m2" "schedule (mac_scheduler m2) = schedule (mac_scheduler m)"
    using next_slot_current [OF m1 wf] throttle_current [OF m2] by (simp_all add: link_scheduler_reset_sleep_time_def)
  then show ?thesis using m'
    by (auto simp: mac_slot_wf_def slot_current_def conn_choice_def mac_timeslot_def source_address_at_def [abs_def]
        link_scheduler_get_current_timeslot_def link_scheduler_get_current_main_connection_def
        link_scheduler_get_current_auto_connection_def)
qed

section \<open>The chosen connections\<close>

lemma slot_wf_env: "slot_env m' = slot_env m \<Longrightarrow> mac_slot_wf m' = mac_slot_wf m"
  by (simp add: slot_env_iff mac_slot_wf_def mac_timeslot_def)

lemma slot_wf_frames: "slot_env m' = (slot_env m)\<lparr>env_frames := x\<rparr> \<Longrightarrow> mac_slot_wf m' = mac_slot_wf m"
  by (simp add: slot_env_def mac_slot_wf_def mac_timeslot_def)

lemma choice_main:
  fixes m :: "'s wps_mac"
  assumes "mac_slot_wf m"
  shows "mac_slot_wf (select_main_connection m)"
proof -
  let ?l = "main_conn_list (mac_timeslot m)" and ?m' = "select_main_connection m"
  note b = slot_baseD [OF base_select(1) [of m]]
  have auto: "auto_connection ?m' = auto_connection m" "auto_connection_id ?m' = auto_connection_id m"
    by (simp_all add: select_main_connection_def Let_def split: prod.split)
  have "conn_choice ?l (main_connection_id ?m') (main_connection ?m')"
  proof (cases "1 < connection_count ?l")
    case True
    obtain i conns where i: "wps_conn_priority_get_highest_main_conn_index (mac_heap m) (slot_connections ?l)
        (tcl_priority ?l) (connection_count ?l) (mac_conns m) = (i, conns)" by fastforce
    have "0 < unat (connection_count ?l)" using True by (simp add: word_less_nat_alt)
    from main_priority_lt [OF this, of "mac_heap m" "slot_connections ?l" "tcl_priority ?l" "mac_conns m"] i
    have "unat i < unat (connection_count ?l)" by simp
    moreover have "?m' = m\<lparr>main_connection_id := i, mac_conns := conns,
        main_connection := link_scheduler_get_current_main_connection (mac_scheduler m) i\<rparr>"
      using True i by (simp add: select_main_connection_def Let_def)
    ultimately show ?thesis using assms
      by (simp add: conn_choice_def link_scheduler_get_current_main_connection_def mac_timeslot_def mac_slot_wf_def)
  next
    case False
    then have "?m' = m" by (simp add: select_main_connection_def Let_def)
    then show ?thesis using assms by (simp add: mac_slot_wf_def)
  qed
  then show ?thesis using assms b auto by (simp add: mac_slot_wf_def)
qed

lemma choice_auto:
  fixes m :: "'s wps_mac"
  assumes "mac_slot_wf m"
  shows "mac_slot_wf (select_auto_connection m)"
proof -
  let ?l = "auto_conn_list (mac_timeslot m)" and ?m' = "select_auto_connection m"
  note b = slot_baseD [OF base_select(2) [of m]]
  have main: "main_connection ?m' = main_connection m" "main_connection_id ?m' = main_connection_id m"
    by (simp_all add: select_auto_connection_def Let_def split: prod.split)
  have "conn_choice ?l (auto_connection_id ?m') (auto_connection ?m')"
  proof (cases "1 < connection_count ?l")
    case True
    obtain i conns where i: "wps_conn_priority_get_highest_auto_conn_index (mac_heap m) (slot_connections ?l)
        (tcl_priority ?l) (connection_count ?l) (mac_conns m) = (i, conns)" by fastforce
    have "0 < unat (connection_count ?l)" using True by (simp add: word_less_nat_alt)
    from auto_priority_lt [OF this, of "mac_heap m" "slot_connections ?l" "tcl_priority ?l" "mac_conns m"] i
    have "unat i < unat (connection_count ?l)" by simp
    moreover have "?m' = m\<lparr>auto_connection_id := i, mac_conns := conns,
        auto_connection := link_scheduler_get_current_auto_connection (mac_scheduler m) i\<rparr>"
      using True i by (simp add: select_auto_connection_def Let_def)
    ultimately show ?thesis using assms
      by (simp add: conn_choice_def link_scheduler_get_current_auto_connection_def mac_timeslot_def mac_slot_wf_def)
  next
    case False
    then have "?m' = m" by (simp add: select_auto_connection_def Let_def)
    then show ?thesis using assms by (simp add: mac_slot_wf_def)
  qed
  then show ?thesis using assms b main by (simp add: mac_slot_wf_def)
qed

lemma prepare_main_wf:
  fixes m :: "'s wps_mac"
  assumes "(if wps_mac_timeslots_is_current_timeslot_tx m then prepare_tx_main r m else prepare_rx_main m) = Some m'"
    and "mac_slot_wf m"
  shows "mac_slot_wf m'"
proof (cases "wps_mac_timeslots_is_current_timeslot_tx m")
  case True
  then obtain m1 :: "'s wps_mac" where "slot_env m1 = slot_env m"
    "slot_env m' = (slot_env (select_main_connection m1))\<lparr>env_frames := (Some (fst
       (wps_mac_xlayer_get_xlayer_for_tx_main (main_connection (select_main_connection m1)) (select_main_connection m1))), None)\<rparr>"
    using assms(1) prepare_tx_main_env [of r m m'] by auto
  then show ?thesis using slot_wf_env slot_wf_frames choice_main assms(2) by metis
next
  case False
  then obtain x where "slot_env m' = (slot_env m)\<lparr>env_frames := (Some x, None)\<rparr>"
    using assms(1) prepare_rx_main_env [of m m'] by auto
  then show ?thesis using slot_wf_frames assms(2) by blast
qed

lemma prepare_auto_wf:
  fixes m :: "'s wps_mac"
  assumes "mac_slot_wf m"
  shows "mac_slot_wf (prepare_auto m)"
proof -
  have one: ?thesis if "slot_env (prepare_auto m) = (slot_env m)\<lparr>env_frames := y\<rparr>" for y
    using slot_wf_frames [OF that] assms by simp
  have tx: "mac_slot_wf (prepare_tx_auto m)"
    using prepare_tx_auto_env [of m] slot_wf_env slot_wf_frames choice_auto assms by metis
  obtain y where rx: "slot_env (prepare_rx_auto m) = (slot_env m)\<lparr>env_frames := (main_xlayer m, y)\<rparr>"
    using prepare_rx_auto_env [of m] by blast
  obtain z where empty: "slot_env (prepare_tx_empty_conn_auto m) = (slot_env m)\<lparr>env_frames := (main_xlayer m, z)\<rparr>"
    "slot_env (prepare_rx_empty_conn_auto m) = (slot_env m)\<lparr>env_frames := (main_xlayer m, z)\<rparr>"
    using prepare_empty_auto_env [of m] by blast
  show ?thesis using tx one rx empty assms by (auto simp: prepare_auto_def split: if_splits)
qed

definition slot_lists_filled :: "scheduler \<Rightarrow> bool" where
  "slot_lists_filled s \<longleftrightarrow> (\<forall>ts\<in>set (sched_timeslot (schedule s)).
     \<forall>i<unat (connection_count (main_conn_list ts)). tcl_connection (main_conn_list ts) ! i \<noteq> None)"

text \<open>
  C20. A slot that is well formed. When \<open>process_next_timeslot\<close> returns on a schedule whose size and slot
  number are in range and whose connection lists hold a connection at every counted entry, the current
  slot is in range and not empty, the main and the auto-reply connection are the ones their numbers name in
  that slot, the numbers are below the counts of the lists, and the main connection, which every
  handler dereferences, is never \<open>NULL\<close>.
\<close>

theorem wps_mac_next_slot_well_formed:
  assumes "process_next_timeslot r m = Some m'"
    and "scheduler_wf (mac_scheduler m)" and "slot_lists_filled (mac_scheduler m)"
  shows "mac_slot_wf m' \<and> (\<exists>a. main_connection m' = Some a)"
proof -
  obtain m1 m2 where m1: "select_timeslot m = Some m1"
    and m2: "(if wps_mac_timeslots_is_current_timeslot_tx m1 then prepare_tx_main r m1 else prepare_rx_main m1) = Some m2"
    and m': "m' = prepare_auto m2" using next_timeslot_steps [OF assms(1)] by blast
  note s = select_current [OF m1 assms(2)]
  have wf: "mac_slot_wf m'" using prepare_auto_wf [OF prepare_main_wf [OF m2]] s m' by simp
  have "schedule (mac_scheduler m') = schedule (mac_scheduler m)"
    using prepare_auto_env [of m2] prepare_main_base [OF m2] s slot_baseD(1) m' by metis
  then have filled: "slot_lists_filled (mac_scheduler m')" using assms(3) by (simp add: slot_lists_filled_def)
  let ?l = "main_conn_list (mac_timeslot m')"
  have ts: "mac_timeslot m' \<in> set (sched_timeslot (schedule (mac_scheduler m')))"
    using wf by (simp add: mac_slot_wf_def scheduler_wf_def mac_timeslot_def sched_slot_def)
  have c: "main_connection m' = tcl_connection ?l ! unat (main_connection_id m')"
    "unat (main_connection_id m') < max 1 (unat (connection_count ?l))"
    using wf by (simp_all add: mac_slot_wf_def conn_choice_def)
  show ?thesis
  proof (cases "unat (main_connection_id m') = 0")
    case True
    then show ?thesis using wf c(1) by (auto simp: mac_slot_wf_def time_slot_is_empty_def split: option.splits)
  next
    case False
    then have "unat (main_connection_id m') < unat (connection_count ?l)" using c(2) by simp
    then show ?thesis using filled ts c(1) wf by (auto simp: slot_lists_filled_def)
  qed
qed

theorem wps_mac_next_slot_well_formed_witness:
  "\<exists>m'. process_next_timeslot 3 (node_mac_example NETWORK_NODE) = Some m' \<and> mac_slot_wf m'"
proof -
  obtain m' where m': "process_next_timeslot 3 (node_mac_example NETWORK_NODE) = Some m'" by (rule node_prepares)
  have "scheduler_wf (mac_scheduler (node_mac_example NETWORK_NODE))" by (simp add: scheduler_wf_def node_mac_fields)
  moreover have "slot_lists_filled (mac_scheduler (node_mac_example NETWORK_NODE))"
    by (simp add: slot_lists_filled_def node_mac_fields node_slot_list)
  ultimately show ?thesis using wps_mac_next_slot_well_formed [OF m'] m' by blast
qed

end
