(* ===== verification/Wps_Throttle.thy ===== *)
theory Wps_Throttle
  imports Mac_Choice "HOL-Library.Signed_Division"
begin

text \<open>
  Throttling a connection: \<open>wps_utils_gcd\<close> of \<open>wps_utils.c\<close>, the pattern \<open>wps.c\<close> builds for a ratio in
  percent, and the requests that install it. The properties follow a ratio from the call of the
  application to the slots the MAC layer then uses: the share is exact and evenly spread, the buffer of the pattern
  holds it only for multiples of five, and a ratio of zero can keep the MAC from ever choosing a slot.
\<close>

section \<open>The greatest common divisor\<close>

text \<open>The loop on C integers, whose remainder has the sign of the dividend.\<close>

function gcd_loop :: "int \<Rightarrow> int \<Rightarrow> int" where
  "gcd_loop predecesor latest_remainder =
     (if latest_remainder = 0 then predecesor else gcd_loop latest_remainder (predecesor smod latest_remainder))"
  by auto

termination
  by (relation "measure (\<lambda>(_, b). nat \<bar>b\<bar>)") (auto simp: smod_int_alt_def abs_mult abs_sgn_eq)

declare gcd_loop.simps [simp del]

definition wps_utils_gcd :: "int \<Rightarrow> int \<Rightarrow> int" where
  "wps_utils_gcd number1 number2 = gcd_loop number1 number2"

lemma gcd_loop_gcd: "\<bar>gcd_loop a b\<bar> = gcd a b"
proof (induction a b rule: gcd_loop.induct)
  case (1 a b)
  show ?case
  proof (cases "b = 0")
    case False
    have "gcd b (a smod b) = gcd b a"
      using sdiv_mult_smod_eq [of a b] by (metis add.commute gcd_add_mult mult.commute)
    then show ?thesis using 1 False by (simp add: gcd_loop.simps [of a b] gcd.commute)
  qed (simp add: gcd_loop.simps)
qed

lemma gcd_loop_nonneg: "0 \<le> a \<Longrightarrow> 0 \<le> b \<Longrightarrow> 0 \<le> gcd_loop a b"
proof (induction a b rule: gcd_loop.induct)
  case (1 a b)
  show ?case
  proof (cases "b = 0")
    case False
    then show ?thesis using 1 by (simp add: gcd_loop.simps [of a b] smod_int_alt_def sgn_if)
  qed (use 1 in \<open>simp add: gcd_loop.simps\<close>)
qed

lemma utils_gcd: "0 \<le> a \<Longrightarrow> 0 \<le> b \<Longrightarrow> wps_utils_gcd a b = gcd a b"
  using gcd_loop_gcd [of a b] gcd_loop_nonneg [of a b] by (simp add: wps_utils_gcd_def)

section \<open>The pattern\<close>

definition WPS_PATTERN_THROTTLE_GRANULARITY :: nat where "WPS_PATTERN_THROTTLE_GRANULARITY = 20"
definition PERCENT_DENOMINATOR :: int where "PERCENT_DENOMINATOR = 100"

text \<open>Writing the pattern into a buffer; \<open>None\<close> when it writes past its end.\<close>

definition pattern_numbers :: "u8 \<Rightarrow> u8 \<times> u8" where
  "pattern_numbers ratio =
     (let current_gcd = word_of_int (wps_utils_gcd (uint ratio) PERCENT_DENOMINATOR) :: u8
      in (word_of_int (uint ratio div uint current_gcd), word_of_int (PERCENT_DENOMINATOR div uint current_gcd)))"

definition generate_active_pattern :: "bool list \<Rightarrow> u8 \<Rightarrow> (u8 \<times> bool list) option" where
  "generate_active_pattern pattern ratio =
     (let (active_elements, total) = pattern_numbers ratio; n = unat total
      in if n \<le> length pattern
         then Some (total, fold (\<lambda>i p. (let pos = of_nat ((i * n) div unat active_elements) :: u16 in p[unat pos mod n := True]))
                [0..<unat active_elements] (replicate n False @ drop n pattern))
         else None)"

lemma numbers_spec:
  assumes "pattern_numbers r = (a, t)"
  shows "unat t = nat (100 div gcd (uint r) 100)" "100 * unat a = unat r * unat t" "0 < unat t" "unat t \<le> 100"
    "unat r \<le> 100 \<Longrightarrow> unat a \<le> unat t"
proof -
  define g where "g = gcd (uint r) 100"
  have g: "0 < g" "g dvd 100" "g dvd uint r" by (simp_all add: g_def)
  then have le: "g \<le> 100" by (simp add: zdvd_imp_le)
  have ug: "uint (word_of_int (wps_utils_gcd (uint r) PERCENT_DENOMINATOR) :: u8) = g"
    using g le by (simp add: utils_gcd PERCENT_DENOMINATOR_def g_def [symmetric] uint_word_of_int)
  have ur: "uint r < 256" using uint_bounded [of r] by simp
  obtain x where x: "uint r = g * x" using g(3) by (elim dvdE)
  obtain y where y: "100 = g * y" using g(2) by (elim dvdE)
  note xy = x y
  have "0 < g * y" "0 \<le> g * x" using xy uint_ge_0 [of r] by linarith+
  then have pos: "0 < y" "0 \<le> x" using g(1) by (simp_all add: zero_less_mult_iff zero_le_mult_iff)
  have "y \<le> g * y" "x \<le> g * x" using pos g(1) mult_right_mono [of 1 g] by simp_all
  moreover have "uint r div g = x" unfolding x using g(1) by simp
  moreover have "100 div g = y" unfolding y using g(1) by simp
  ultimately have q: "0 \<le> uint r div g" "uint r div g \<le> uint r" "0 < 100 div g" "100 div g \<le> 100"
    using xy pos by linarith+
  have a: "uint a = uint r div g" and t: "uint t = 100 div g"
    using assms q ur unfolding pattern_numbers_def Let_def ug by (auto simp: PERCENT_DENOMINATOR_def uint_word_of_int)
  have ax: "uint a = x" "uint t = y" using a t xy g by simp_all
  have "100 * uint a = uint r * uint t" unfolding ax using xy by simp
  then have "int (100 * unat a) = int (unat r * unat t)" by simp
  then show "100 * unat a = unat r * unat t" by (simp only: of_nat_eq_iff)
  show ut: "unat t = nat (100 div gcd (uint r) 100)" using t by (simp add: g_def unat_eq_nat_uint)
  show "0 < unat t" "unat t \<le> 100" using t q by (simp_all add: unat_eq_nat_uint)
  show "unat a \<le> unat t" if "unat r \<le> 100"
    using \<open>100 * unat a = unat r * unat t\<close> mult_le_mono1 [OF that, of "unat t"] by linarith
qed

text \<open>Which entries are set: the places \<open>i * T div A\<close>.\<close>

lemma set_places:
  assumes "\<forall>i\<in>set is. f i < length p"
  shows "length (fold (\<lambda>i p. p[f i := True]) is p) = length p \<and>
    (\<forall>k<length p. fold (\<lambda>i p. p[f i := True]) is p ! k \<longleftrightarrow> k \<in> f ` set is \<or> p ! k)"
  using assms
proof (induction "is" arbitrary: p)
  case (Cons i "is")
  then have "length (fold (\<lambda>i p. p[f i := True]) is (p[f i := True])) = length p \<and>
    (\<forall>k<length p. fold (\<lambda>i p. p[f i := True]) is (p[f i := True]) ! k \<longleftrightarrow> k \<in> f ` set is \<or> p[f i := True] ! k)"
    using Cons.IH [of "p[f i := True]"] by simp
  moreover have "k \<in> f ` set is \<or> p[f i := True] ! k \<longleftrightarrow> k \<in> f ` set (i # is) \<or> p ! k" if "k < length p" for k
    using that by (cases "k = f i") auto
  ultimately show ?case by simp
qed simp

lemma place_lt: "i < a \<Longrightarrow> 0 < n \<Longrightarrow> i * n div a < (n :: nat)"
  by (simp add: div_less_iff_less_mult mult.commute [of n])

lemma pattern_entries:
  assumes g: "generate_active_pattern buf r = Some (t, p)" and n: "pattern_numbers r = (a, t)"
  shows "length p = length buf" "unat t \<le> length buf" "drop (unat t) p = drop (unat t) buf"
    "k < unat t \<Longrightarrow> p ! k \<longleftrightarrow> (\<exists>i<unat a. k = i * unat t div unat a)"
proof -
  let ?n = "unat t" and ?a = "unat a"
  note s = numbers_spec [OF n]
  show len: "?n \<le> length buf" using g n by (auto simp: generate_active_pattern_def Let_def split: if_splits)
  let ?f = "\<lambda>i. unat (of_nat (i * ?n div ?a) :: u16) mod ?n"
  have f: "?f i = i * ?n div ?a" if "i < ?a" for i
    using place_lt [OF that s(3)] s(4) by (simp add: unat_of_nat)
  have p: "p = fold (\<lambda>i p. p[?f i := True]) [0..<?a] (replicate ?n False @ drop ?n buf)"
    using g n len by (simp add: generate_active_pattern_def Let_def)
  have "\<forall>i\<in>set [0..<?a]. ?f i < length (replicate ?n False @ drop ?n buf)"
    using s(3) len by (auto intro: less_le_trans [OF mod_less_divisor])
  from set_places [OF this] have q: "length p = length buf"
    "\<And>k. k < length buf \<Longrightarrow> p ! k \<longleftrightarrow> k \<in> ?f ` {0..<?a} \<or> (replicate ?n False @ drop ?n buf) ! k"
    using len unfolding p by auto
  show "length p = length buf" by (rule q(1))
  show "drop ?n p = drop ?n buf"
  proof (rule nth_equalityI)
    fix i assume "i < length (drop ?n p)"
    then have "?n + i < length buf" using q(1) by simp
    moreover have "?f j < ?n" for j using s(3) by (rule mod_less_divisor)
    then have "?n + i \<noteq> ?f j" for j using not_add_less1 [of ?n i] by metis
    then have "?n + i \<notin> ?f ` {0..<?a}" by blast
    ultimately show "drop ?n p ! i = drop ?n buf ! i" using q(2) [of "?n + i"] q(1) len by (simp add: nth_append)
  qed (simp add: q(1))
  show "p ! k \<longleftrightarrow> (\<exists>i<?a. k = i * ?n div ?a)" if "k < ?n"
    using q(2) [of k] that len f by (auto simp: nth_append image_iff)
qed

lemma ceil_le_iff: "0 < (t :: nat) \<Longrightarrow> (u + t - 1) div t \<le> c \<longleftrightarrow> u \<le> c * t"
proof -
  assume t: "0 < t"
  have "(u + t - 1) div t \<le> c \<longleftrightarrow> (u + t - 1) div t < Suc c" by auto
  also have "\<dots> \<longleftrightarrow> u + t - 1 < Suc c * t" using t by (rule div_less_iff_less_mult)
  finally show ?thesis using t by auto
qed

text \<open>The places below \<open>n\<close> are \<open>n * A / T\<close> of them, rounded up.\<close>

lemma places_below:
  assumes "0 < a" "a \<le> t" "n \<le> (t :: nat)"
  shows "card {k. k < n \<and> (\<exists>i<a. k = i * t div a)} = (n * a + t - 1) div t"
proof -
  let ?f = "\<lambda>i. i * t div a"
  have "?f i < ?f j" if "i < j" for i j
  proof -
    have "i * t + a \<le> j * t" using that assms(2) mult_le_mono1 [of "Suc i" j t] by simp
    then have "(i * t + a) div a \<le> j * t div a" by (rule div_le_mono)
    moreover have "(i * t + a) div a = i * t div a + 1" using assms(1) by (simp add: div_add_self2)
    ultimately show ?thesis by linarith
  qed
  then have "strict_mono ?f" by (rule strict_monoI)
  then have inj: "inj ?f" by (rule strict_mono_imp_inj_on)
  have i: "?f i < n \<longleftrightarrow> i < (n * a + t - 1) div t" for i
  proof -
    have "?f i < n \<longleftrightarrow> i * t < n * a" using assms(1) by (rule div_less_iff_less_mult)
    also have "\<dots> \<longleftrightarrow> Suc i * t \<le> n * a + t - 1" using assms(1,2) by (simp add: less_eq_Suc_le) arith
    also have "\<dots> \<longleftrightarrow> Suc i \<le> (n * a + t - 1) div t" using assms(1,2) by (simp add: less_eq_div_iff_mult_less_eq)
    finally show ?thesis by (simp add: Suc_le_eq)
  qed
  have "(n * a + t - 1) div t \<le> a" using assms by (simp add: ceil_le_iff [of t "n * a" a, simplified] mult.commute [of a])
  then have "{k. k < n \<and> (\<exists>i<a. k = ?f i)} = ?f ` {..<(n * a + t - 1) div t}"
    using i by (auto simp only: mem_Collect_eq image_iff lessThan_iff Bex_def) (blast intro: less_le_trans)+
  then show ?thesis using card_image [OF inj_on_subset [OF inj subset_UNIV]] by (simp add: card_lessThan)
qed

lemma count_true: "length (filter id p) = card {k. k < length p \<and> p ! k}"
  by (simp add: length_filter_conv_card)

lemma active_pattern_spec:
  assumes "generate_active_pattern buf r = Some (t, p)" and "unat r \<le> 100" and "n \<le> unat t"
  shows "unat t * gcd (unat r) 100 = 100 \<and> length (filter id (take (unat t) p)) * gcd (unat r) 100 = unat r \<and>
    length (filter id (take n p)) = (n * unat r + 99) div 100 \<and> length p = length buf \<and> drop (unat t) p = drop (unat t) buf"
proof -
  obtain a t' where n: "pattern_numbers r = (a, t')" by fastforce
  then have n: "pattern_numbers r = (a, t)" using assms(1) by (auto simp: generate_active_pattern_def Let_def split: if_splits)
  note s = numbers_spec [OF n] and e = pattern_entries [OF assms(1) n]
  have at: "unat a \<le> unat t" using s(5) assms(2) by simp
  have below: "length (filter id (take m p)) = (m * unat r + 99) div 100" if m: "m \<le> unat t" for m
  proof -
    have "length (filter id (take m p)) = card {k. k < m \<and> (\<exists>i<unat a. k = i * unat t div unat a)}"
      unfolding count_true using m e by (intro arg_cong [of _ _ card]) auto
    also have "\<dots> = (m * unat r + 99) div 100"
    proof (cases "unat a = 0")
      case True
      then have "unat r = 0" using s(2,3) by simp
      then show ?thesis using True by simp
    next
      case False
      then have "card {k. k < m \<and> (\<exists>i<unat a. k = i * unat t div unat a)} = (m * unat a + unat t - 1) div unat t"
        using at m by (intro places_below) simp_all
      also have "\<dots> = (m * unat r + 99) div 100"
      proof -
        have "m * unat a \<le> c * unat t \<longleftrightarrow> m * unat r \<le> c * 100" for c
        proof -
          have "m * unat a \<le> c * unat t \<longleftrightarrow> m * (100 * unat a) \<le> c * (100 * unat t)" by simp
          also have "\<dots> \<longleftrightarrow> m * unat r * unat t \<le> c * 100 * unat t" unfolding s(2) by (simp add: ac_simps)
          also have "\<dots> \<longleftrightarrow> m * unat r \<le> c * 100" using s(3) by simp
          finally show ?thesis .
        qed
        then have "(m * unat a + unat t - 1) div unat t \<le> c \<longleftrightarrow> (m * unat r + 100 - 1) div 100 \<le> c" for c
          using s(3) by (simp only: ceil_le_iff zero_less_numeral)
        then have "(m * unat a + unat t - 1) div unat t = (m * unat r + 100 - 1) div 100" by (meson le_antisym order_refl)
        then show ?thesis by simp
      qed
      finally show ?thesis .
    qed
    finally show ?thesis .
  qed
  have "(unat t * unat r + 99) div 100 = unat a" using s(2) by (simp add: mult.commute [of "unat t"])
  then have c: "length (filter id (take (unat t) p)) = unat a" using below [of "unat t"] by simp
  have g: "unat t * gcd (unat r) 100 = 100"
  proof -
    have "gcd (uint r) 100 = int (gcd (unat r) 100)" by (metis gcd_int_int_eq of_nat_numeral uint_nat)
    then have "unat t = 100 div gcd (unat r) 100" using s(1) by (simp add: nat_div_distrib)
    then show ?thesis by simp
  qed
  have "100 * (unat a * gcd (unat r) 100) = unat r * (unat t * gcd (unat r) 100)" using s(2) by (simp add: ac_simps)
  then have "unat a * gcd (unat r) 100 = unat r" unfolding g by simp
  then show ?thesis using c g below [OF assms(3)] e(1,3) by simp
qed

text \<open>
  C22. The active pattern. For a ratio of at most 100 percent the pattern \<open>generate_active_pattern\<close> writes has the
  denominator of the reduced fraction as its length and its numerator as the number of its active entries, and
  these are evenly spread: among the first \<open>n\<close> there are \<open>n\<close> times the ratio, rounded up. The rest of the
  buffer is not touched.
\<close>

theorem wps_active_pattern_exact:
  assumes "generate_active_pattern buf r = Some (t, p)" and "unat r \<le> 100" and "n \<le> unat t"
  shows "unat t * gcd (unat r) 100 = 100 \<and> length (filter id (take (unat t) p)) * gcd (unat r) 100 = unat r \<and>
    length (filter id (take n p)) = (n * unat r + 99) div 100 \<and> length p = length buf \<and> drop (unat t) p = drop (unat t) buf"
  using assms by (rule active_pattern_spec)

theorem wps_active_pattern_exact_witness:
  "\<exists>t p. generate_active_pattern (replicate 20 True) 40 = Some (t, p) \<and> length (filter id (take 3 p)) = 2 \<and> unat t = 5"
proof -
  have g: "generate_active_pattern (replicate 20 True) 40 = Some (5, [True, False, True, False, False] @ replicate 15 True)"
    by code_simp
  from wps_active_pattern_exact [OF g, of 3] show ?thesis using g by simp
qed

lemma fits_iff: "g dvd 100 \<Longrightarrow> 0 < g \<Longrightarrow> 100 div g \<le> 20 \<longleftrightarrow> 5 dvd (g :: int)"
proof -
  assume d: "g dvd 100" and g: "0 < g"
  obtain t where t: "100 = g * t" using d by (elim dvdE)
  have q: "100 div g = t" unfolding t using g by simp
  have "0 < g * t" using t by linarith
  then have t0: "0 < t" using g by (simp add: zero_less_mult_iff)
  show ?thesis
  proof
    assume "100 div g \<le> 20"
    then have "t \<in> {1..20}" using q t0 by simp
    then have "t \<in> set [1..20]" by simp
    then show "5 dvd g" using t by (simp add: upto.simps) (elim disjE; hypsubst; presburger)
  next
    assume "5 dvd g"
    then have "5 \<le> g" using g by (simp add: zdvd_imp_le)
    then have "5 * t \<le> g * t" using t0 by (intro mult_right_mono) simp_all
    then show "100 div g \<le> 20" using t q by linarith
  qed
qed

text \<open>
  C30. The pattern and its buffer. The buffers of a pattern hold \<open>WPS_PATTERN_THROTTLE_GRANULARITY\<close>, 20,
  entries, in the request and in the connection. Generating a pattern stays inside exactly when the ratio is a
  multiple of five percent; every other ratio the interface accepts, 1 for example, writes past the end.
\<close>

theorem wps_active_pattern_fits_iff:
  assumes "length buf = WPS_PATTERN_THROTTLE_GRANULARITY"
  shows "generate_active_pattern buf r = None \<longleftrightarrow> \<not> 5 dvd unat r"
proof -
  obtain a t where n: "pattern_numbers r = (a, t)" by fastforce
  let ?g = "gcd (uint r) 100"
  have "generate_active_pattern buf r = None \<longleftrightarrow> \<not> unat t \<le> 20"
    using n assms by (simp add: generate_active_pattern_def WPS_PATTERN_THROTTLE_GRANULARITY_def Let_def)
  also have "unat t \<le> 20 \<longleftrightarrow> 100 div ?g \<le> 20" using numbers_spec(1) [OF n] by (simp add: nat_le_iff)
  also have "\<dots> \<longleftrightarrow> 5 dvd ?g" by (rule fits_iff) simp_all
  also have "\<dots> \<longleftrightarrow> 5 dvd int (unat r)" by simp
  also have "\<dots> \<longleftrightarrow> 5 dvd unat r" using int_dvd_int_iff [of 5 "unat r"] by simp
  finally show ?thesis .
qed

theorem wps_active_pattern_fits_iff_witness:
  "generate_active_pattern (replicate 20 True) 1 = None \<and> generate_active_pattern (replicate 20 True) 35 \<noteq> None"
  using wps_active_pattern_fits_iff [of "replicate 20 True" 1] wps_active_pattern_fits_iff [of "replicate 20 True" 35]
  by (simp add: WPS_PATTERN_THROTTLE_GRANULARITY_def)

section \<open>Requests\<close>

text \<open>
  The requests go through queues of fixed sizes; a queue is a list here, and \<open>request_sizes\<close> the
  sizes given to \<open>wps_init_request_queue\<close>. A value of the request stands for the slot of the
  queue it is written to; \<open>buf\<close> is what the pattern of that slot held before.
\<close>

record request_sizes =
  rs_request :: nat
  rs_schedule_ratio :: nat
  rs_write :: nat
  rs_read :: nat

definition wps_set_active_ratio ::
  "request_sizes \<Rightarrow> bool list \<Rightarrow> nat \<Rightarrow> u8 \<Rightarrow> 's wps_mac \<Rightarrow> (wps_error \<times> 's wps_mac) option" where
  "wps_set_active_ratio sz buf connection ratio_percent m =
     (if length (schedule_ratio_cfg_queue m) = rs_schedule_ratio sz then Some (WPS_SCHEDULE_RATIO_REQUEST_QUEUE_FULL, m)
      else if length (request_queue m) = rs_request sz then Some (WPS_REQUEST_QUEUE_FULL, m)
      else map_option (\<lambda>(total, pattern).
             (let q = \<lparr>rc_active_ratio = ratio_percent, rc_pattern_total_count = total, rc_pattern_current_count = 0,
                       rc_target_conn = connection, rc_pattern_cfg = pattern\<rparr>
              in (WPS_NO_ERROR, m\<lparr>schedule_ratio_cfg_queue := schedule_ratio_cfg_queue m @ [q],
                                  request_queue := request_queue m @ [REQUEST_MAC_CHANGE_SCHEDULE_RATIO q]\<rparr>)))
           (generate_active_pattern buf ratio_percent))"

definition wps_init_connection_throttle :: "'s wps_connection \<Rightarrow> wps_error \<times> 's wps_connection" where
  "wps_init_connection_throttle c =
     (case conn_pattern c of
        None \<Rightarrow> (WPS_THROTTLING_PATTERN_NOT_ALLOCATED, c)
      | Some p \<Rightarrow> (WPS_NO_ERROR, c\<lparr>
          conn_pattern := Some (replicate WPS_PATTERN_THROTTLE_GRANULARITY True @ drop WPS_PATTERN_THROTTLE_GRANULARITY p),
          pattern_count := 0, pattern_total_count := of_nat WPS_PATTERN_THROTTLE_GRANULARITY, active_ratio := 100\<rparr>))"

text \<open>Whether a connection is enabled in each of the next \<open>n\<close> slots it is searched in.\<close>

fun enabled_visits :: "nat \<Rightarrow> 's wps_connection \<Rightarrow> bool list option" where
  "enabled_visits 0 c = Some []"
| "enabled_visits (Suc n) c =
     (case throttle_connection c of
        None \<Rightarrow> None
      | Some c' \<Rightarrow> map_option (\<lambda>es. conn_currently_enabled c' # es) (enabled_visits n c'))"

lemma throttle_step:
  assumes "conn_pattern c = Some p" "pattern_total_count c \<noteq> 0"
  obtains k where "throttle_connection c = Some (c\<lparr>pattern_count := k, conn_currently_enabled := p ! unat k\<rparr>)"
    "unat k = (unat (pattern_count c) + 1) mod unat (pattern_total_count c)"
proof -
  let ?t = "pattern_total_count c" and ?k = "pattern_count c"
  let ?w = "word_of_int ((uint ?k + 1) mod uint ?t) :: u8"
  have t: "0 < uint ?t" using assms(2) by (simp add: word_neq_0_conv word_less_def)
  have "(uint ?k + 1) mod uint ?t < 256" "0 \<le> (uint ?k + 1) mod uint ?t"
    using t pos_mod_bound [OF t, of "uint ?k + 1"] uint_bounded [of ?t] by (simp_all del: pos_mod_bound)
  then have "uint ?w = (uint ?k + 1) mod uint ?t" by (simp add: uint_word_of_int)
  then have "int (unat ?w) = int ((unat ?k + 1) mod unat ?t)" by (simp add: zmod_int add.commute)
  then have "unat ?w = (unat ?k + 1) mod unat ?t" by (simp only: of_nat_eq_iff)
  then show thesis using that [of ?w] assms by (simp add: throttle_connection_def Let_def)
qed

lemma enabled_visits_eq:
  assumes "conn_pattern c = Some p" "pattern_total_count c \<noteq> 0"
  shows "enabled_visits n c = Some (map (\<lambda>j. p ! ((unat (pattern_count c) + 1 + j) mod unat (pattern_total_count c))) [0..<n])"
  using assms
proof (induction n arbitrary: c)
  case (Suc n)
  obtain k where k: "throttle_connection c = Some (c\<lparr>pattern_count := k, conn_currently_enabled := p ! unat k\<rparr>)"
    "unat k = (unat (pattern_count c) + 1) mod unat (pattern_total_count c)" using throttle_step [OF Suc.prems] by blast
  let ?c = "c\<lparr>pattern_count := k, conn_currently_enabled := p ! unat k\<rparr>"
  have ih: "enabled_visits n ?c = Some (map (\<lambda>j. p ! ((unat k + 1 + j) mod unat (pattern_total_count c))) [0..<n])"
    using Suc.IH [of ?c] Suc.prems by simp
  have m: "(unat k + 1 + j) mod unat (pattern_total_count c)
      = (unat (pattern_count c) + 1 + Suc j) mod unat (pattern_total_count c)" for j
    unfolding k(2) by (metis add_Suc_right add_Suc_shift mod_add_left_eq plus_1_eq_Suc add.commute)
  have u: "[0..<Suc n] = 0 # map Suc [0..<n]" by (simp add: upt_conv_Cons map_Suc_upt del: upt_Suc)
  show ?case using k(2) ih m by (simp add: k(1) u del: upt_Suc)
qed simp

lemma rotated_count:
  assumes "length q = t" "0 < t"
  shows "length (filter id (map (\<lambda>j. q ! ((s + j) mod t)) [0..<t])) = length (filter id q)"
proof -
  have "map (\<lambda>j. q ! ((s + j) mod t)) [0..<t] = rotate s q"
    using assms by (intro nth_equalityI) (simp_all add: nth_rotate add.commute)
  then have "length (filter id (map (\<lambda>j. q ! ((s + j) mod t)) [0..<t])) =
      length (filter id (drop (s mod t) q)) + length (filter id (take (s mod t) q))"
    using assms(1) by (simp add: rotate_drop_take)
  also have "\<dots> = length (filter id (take (s mod t) q @ drop (s mod t) q))" by (simp only: filter_append length_append add.commute)
  finally show ?thesis by simp
qed

text \<open>
  C21. A ratio reaches the slots. When the application sets a ratio of at most 100 percent and the request is
  accepted, with no other request waiting, the MAC layer, once it has processed the request, enables the
  connection in exactly that ratio of the slots it searches it in: in every run of as many consecutive searches
  as the pattern is long, the denominator of the reduced fraction, wherever it starts.
\<close>

theorem wps_active_ratio_share:
  assumes "wps_set_active_ratio sz buf a ratio m = Some (WPS_NO_ERROR, m1)" and "request_queue m = []"
    and "conn_pattern (mac_conns m a) = Some p" and "length p = WPS_PATTERN_THROTTLE_GRANULARITY"
    and "length buf = WPS_PATTERN_THROTTLE_GRANULARITY" and "unat ratio \<le> 100"
  shows "let period = 100 div gcd (unat ratio) 100 in
    \<exists>es. enabled_visits (k + period) (mac_conns (process_pending_request m1) a) = Some es \<and>
      length (drop k es) = period \<and> 100 * length (filter id (drop k es)) = unat ratio * period"
proof -
  obtain t q where g: "generate_active_pattern buf ratio = Some (t, q)"
    and m1: "request_queue m1 = [REQUEST_MAC_CHANGE_SCHEDULE_RATIO \<lparr>rc_active_ratio = ratio, rc_pattern_total_count = t,
        rc_pattern_current_count = 0, rc_target_conn = a, rc_pattern_cfg = q\<rparr>]" "mac_conns m1 = mac_conns m"
    using assms(1,2) by (auto simp: wps_set_active_ratio_def Let_def split: if_splits)
  let ?c = "mac_conns (process_pending_request m1) a" and ?p = "take (unat t) q @ drop (unat t) p"
  have c: "pattern_total_count ?c = t" "pattern_count ?c = 0" "conn_pattern ?c = Some ?p"
    using m1 assms(3) by (simp_all add: process_pending_request_def process_request_def process_schedule_request_def upd_conn_def)
  obtain b where n: "pattern_numbers ratio = (b, t)"
    using g by (cases "pattern_numbers ratio") (auto simp: generate_active_pattern_def Let_def split: if_splits)
  note spec = active_pattern_spec [OF g assms(6) order_refl]
  have period: "100 div gcd (unat ratio) 100 = unat t" using numbers_spec(1) [OF n] spec
    by (metis nonzero_mult_div_cancel_right mult_0_right zero_neq_numeral)
  have t: "0 < unat t" "unat t \<le> 20" "length q = 20" "t \<noteq> 0"
    using numbers_spec(3) [OF n] spec pattern_entries(2) [OF g n] assms(5) by (auto simp: WPS_PATTERN_THROTTLE_GRANULARITY_def)
  let ?es = "\<lambda>n. map (\<lambda>j. ?p ! ((1 + j) mod unat t)) [0..<n]"
  have e: "enabled_visits (k + unat t) ?c = Some (?es (k + unat t))"
    using enabled_visits_eq [of ?c ?p "k + unat t"] c t by simp
  have "drop k (?es (k + unat t)) = map (\<lambda>j. take (unat t) q ! ((1 + k + j) mod unat t)) [0..<unat t]"
    using t by (intro nth_equalityI) (simp_all add: nth_append ac_simps)
  then have "length (filter id (drop k (?es (k + unat t)))) = length (filter id (take (unat t) q))"
    by (simp only:, intro rotated_count) (use t in simp_all)
  moreover have "100 * length (filter id (take (unat t) q)) = unat ratio * unat t"
    using spec by (metis (no_types, lifting) mult.assoc mult.commute)
  ultimately show ?thesis unfolding period Let_def using e by (intro exI [of _ "?es (k + unat t)"]) simp
qed

end
