(* ===== verification/Mac_Throttle.thy ===== *)
theory Mac_Throttle
  imports Wps_Throttle
begin

text \<open>
  When \<open>handle_link_throttle\<close>, the loop that passes over slots whose connections are all throttled,
  comes to an end: exactly when some slot of the schedule has a main connection that is enabled now or
  at some later place of its pattern. A ratio of zero on the only main connection makes it run for ever.
\<close>

section \<open>One slot\<close>

definition patterned :: "'s wps_connection \<Rightarrow> bool" where
  "patterned c \<longleftrightarrow> conn_pattern c \<noteq> None \<longrightarrow> pattern_total_count c \<noteq> 0"

text \<open>Whether the \<open>i\<close>-th search from now enables the connection.\<close>

definition enabled_at :: "'s wps_connection \<Rightarrow> nat \<Rightarrow> bool" where
  "enabled_at c i = (case conn_pattern c of None \<Rightarrow> True
     | Some p \<Rightarrow> p ! ((unat (pattern_count c) + i) mod unat (pattern_total_count c)))"

definition throttle_tick :: "'s wps_connection \<Rightarrow> 's wps_connection" where
  "throttle_tick c = the (throttle_connection c)"

lemma throttle_connection_tick: "patterned c \<Longrightarrow> throttle_connection c = Some (throttle_tick c)"
  by (auto simp: throttle_connection_def throttle_tick_def patterned_def Let_def split: option.split)

lemma tick_enabled:
  assumes "patterned c"
  shows "patterned (throttle_tick c)" "conn_currently_enabled (throttle_tick c) = enabled_at c 1"
    "enabled_at (throttle_tick c) i = enabled_at c (Suc i)"
proof -
  have "patterned (throttle_tick c) \<and> conn_currently_enabled (throttle_tick c) = enabled_at c 1 \<and>
      enabled_at (throttle_tick c) i = enabled_at c (Suc i)"
  proof (cases "conn_pattern c")
    case None
    then show ?thesis by (simp add: throttle_tick_def throttle_connection_def patterned_def enabled_at_def)
  next
    case (Some p)
    then have "pattern_total_count c \<noteq> 0" using assms by (simp add: patterned_def)
    then obtain k where k: "throttle_connection c = Some (c\<lparr>pattern_count := k, conn_currently_enabled := p ! unat k\<rparr>)"
      "unat k = (unat (pattern_count c) + 1) mod unat (pattern_total_count c)" using throttle_step [OF Some] by blast
    have "(unat k + i) mod unat (pattern_total_count c) = (unat (pattern_count c) + Suc i) mod unat (pattern_total_count c)"
      unfolding k(2) by (simp add: mod_simps)
    then show ?thesis using k Some assms by (simp add: throttle_tick_def patterned_def enabled_at_def)
  qed
  then show "patterned (throttle_tick c)" "conn_currently_enabled (throttle_tick c) = enabled_at c 1"
    "enabled_at (throttle_tick c) i = enabled_at c (Suc i)" by simp_all
qed

lemma throttle_main_eq:
  assumes "distinct as" "\<forall>a\<in>set as. patterned (mac_conns m a)"
  obtains m' where "throttle_main as m = Some m'"
    "mac_conns m' = (\<lambda>b. if b \<in> set as then throttle_tick (mac_conns m b) else mac_conns m b)"
  using assms
proof (induction as arbitrary: m thesis)
  case (Cons a as)
  let ?m = "upd_conn (Some a) (\<lambda>_. throttle_tick (mac_conns m a)) m"
  have t: "throttle_main (a # as) m = throttle_main as ?m"
    using Cons.prems(3) by (simp add: throttle_connection_tick)
  have c: "mac_conns ?m = (mac_conns m)(a := throttle_tick (mac_conns m a))" by (simp add: upd_conn_def)
  have "\<forall>b\<in>set as. patterned (mac_conns ?m b)" "distinct as" using Cons.prems(2,3) c by auto
  from Cons.IH [OF _ this(2,1)] obtain m' where "throttle_main as ?m = Some m'"
    "mac_conns m' = (\<lambda>b. if b \<in> set as then throttle_tick (mac_conns ?m b) else mac_conns ?m b)" by blast
  then show ?case using Cons.prems(1,2) t c by (intro Cons.prems(1) [of m']) (auto simp: fun_eq_iff)
qed simp

lemma enable_conns: "mac_conns (enable_connections as m) =
    (\<lambda>b. if b \<in> set as then (mac_conns m b)\<lparr>conn_currently_enabled := True\<rparr> else mac_conns m b)"
proof (induction as arbitrary: m)
  case (Cons a as)
  have "enable_connections (a # as) m = enable_connections as (upd_conn (Some a) (\<lambda>c. c\<lparr>conn_currently_enabled := True\<rparr>) m)"
    by (simp add: enable_connections_def)
  then show ?case using Cons.IH by (auto simp: upd_conn_def fun_eq_iff)
qed (simp add: enable_connections_def)

text \<open>The lists of main connections of the schedule: what the loop needs of them.\<close>

definition throttle_lists :: "schedule \<Rightarrow> bool" where
  "throttle_lists s \<longleftrightarrow> (\<forall>ts\<in>set (sched_timeslot s). distinct (slot_connections (main_conn_list ts)) \<and>
     set (slot_connections (main_conn_list ts)) \<inter> set (slot_connections (auto_conn_list ts)) = {})"

definition main_of_slot :: "'s wps_mac \<Rightarrow> nat \<Rightarrow> nat set" where
  "main_of_slot m j = set (slot_connections (main_conn_list (sched_slot (mac_scheduler m) j)))"

definition throttle_ready :: "'s wps_mac \<Rightarrow> bool" where
  "throttle_ready m \<longleftrightarrow> slot_current m \<and> throttle_lists (schedule (mac_scheduler m)) \<and>
     (\<forall>j<unat (sched_size (schedule (mac_scheduler m))). \<forall>a\<in>main_of_slot m j. patterned (mac_conns m a))"

lemma enabled_at_flag: "enabled_at (c\<lparr>conn_currently_enabled := b\<rparr>) i = enabled_at c i"
  "patterned (c\<lparr>conn_currently_enabled := b\<rparr>) = patterned c"
  by (simp_all add: enabled_at_def patterned_def split: option.split)

abbreviation current_slot :: "'s wps_mac \<Rightarrow> nat" where
  "current_slot m \<equiv> unat (current_time_slot_num (mac_scheduler m))"

text \<open>One search: it always returns, ticks the main connections of the slot, and tells whether one is enabled.\<close>

lemma throttle_slot_spec:
  assumes "throttle_ready m"
  obtains m' where "throttle_slot m = Some (\<exists>a\<in>main_of_slot m (current_slot m). enabled_at (mac_conns m a) 1, m')"
    "mac_scheduler m' = mac_scheduler m" "slot_current m'"
    "\<And>b. patterned (mac_conns m b) \<Longrightarrow> patterned (mac_conns m' b)"
    "\<And>b i. patterned (mac_conns m b) \<Longrightarrow> enabled_at (mac_conns m' b) i =
       enabled_at (mac_conns m b) (if b \<in> main_of_slot m (current_slot m) then Suc i else i)"
proof -
  let ?s = "mac_scheduler m" and ?ts = "link_scheduler_get_current_timeslot (mac_scheduler m)"
  let ?main = "slot_connections (main_conn_list ?ts)" and ?auto = "slot_connections (auto_conn_list ?ts)"
  have wf: "scheduler_wf ?s" using assms by (simp add: throttle_ready_def slot_current_def)
  then have cur: "current_slot m < unat (sched_size (schedule ?s))" "?ts \<in> set (sched_timeslot (schedule ?s))"
    by (simp_all add: scheduler_wf_def link_scheduler_get_current_timeslot_def sched_slot_def)
  have main: "main_of_slot m (current_slot m) = set ?main"
    by (simp add: main_of_slot_def link_scheduler_get_current_timeslot_def)
  have d: "distinct ?main" "set ?main \<inter> set ?auto = {}" "\<forall>a\<in>set ?main. patterned (mac_conns m a)"
    using assms cur main by (auto simp: throttle_ready_def throttle_lists_def)
  obtain m1 where m1: "throttle_main ?main m = Some m1"
    "mac_conns m1 = (\<lambda>b. if b \<in> set ?main then throttle_tick (mac_conns m b) else mac_conns m b)"
    using throttle_main_eq [OF d(1,3)] by blast
  let ?m2 = "enable_connections ?auto m1"
  have c: "mac_conns ?m2 = (\<lambda>b. if b \<in> set ?auto then (mac_conns m1 b)\<lparr>conn_currently_enabled := True\<rparr> else mac_conns m1 b)"
    by (rule enable_conns)
  have "conn_currently_enabled (mac_conns ?m2 a) = enabled_at (mac_conns m a) 1" if "a \<in> set ?main" for a
    using that d m1(2) c tick_enabled(2) [of "mac_conns m a"] by auto
  then have flag: "list_ex (\<lambda>a. conn_currently_enabled (mac_conns ?m2 a)) ?main \<longleftrightarrow>
      (\<exists>a\<in>main_of_slot m (current_slot m). enabled_at (mac_conns m a) 1)"
    unfolding main by (auto simp: list_ex_iff)
  have t: "throttle_slot m = Some (\<exists>a\<in>main_of_slot m (current_slot m). enabled_at (mac_conns m a) 1, ?m2)"
    using m1(1) flag by (simp add: throttle_slot_def Let_def)
  show thesis
  proof (rule that [OF t])
    show "mac_scheduler ?m2 = ?s" "slot_current ?m2"
      using throttle_slot_current [OF t] assms by (simp_all add: throttle_ready_def)
    show "patterned (mac_conns ?m2 b)" if "patterned (mac_conns m b)" for b
      using that m1(2) c tick_enabled(1) [of "mac_conns m b"] by (simp add: enabled_at_flag)
    show "enabled_at (mac_conns ?m2 b) i = enabled_at (mac_conns m b) (if b \<in> main_of_slot m (current_slot m) then Suc i else i)"
      if "patterned (mac_conns m b)" for b i
      using that m1(2) c tick_enabled(3) [of "mac_conns m b" i] by (simp add: enabled_at_flag main)
  qed
qed

section \<open>The loop\<close>

lemma slots_between: "i < n \<Longrightarrow> j < n \<Longrightarrow> (j + n - i) mod n = (if i \<le> j then j - i else j + n - i)" for i j n :: nat
proof -
  assume a: "i < n" "j < n"
  show ?thesis
  proof (cases "i \<le> j")
    case True
    then have "j + n - i = (j - i) + n" by simp
    then show ?thesis using True a by (simp only: mod_add_self2) simp
  qed (use a in simp)
qed

lemma slot_wraps: "i < n \<Longrightarrow> d \<le> n \<Longrightarrow> (i + d) mod n = (if i + d < n then i + d else i + d - n)" for i d n :: nat
  by (simp add: mod_if [of "i + d"])

lemma slots_closer:
  fixes i j n e d i' :: nat
  assumes "i < n" "j < n" "e = (if i \<le> j then j - i else j + n - i)" "d \<le> e"
    and "i' = (if i + d < n then i + d else i + d - n)"
  shows "(if i' \<le> j then j - i' else j + n - i') = e - d"
  using assms by (simp split: if_splits) linarith

lemma next_slot_distance:
  assumes "next_time_slot m = Some (k, m')" "scheduler_wf (mac_scheduler m)"
    and "j < unat (sched_size (schedule (mac_scheduler m)))"
    and "\<not> time_slot_is_empty (source_address_at m) (mac_scheduler m) (sched_slot (mac_scheduler m) j)"
    and "current_slot m \<noteq> j"
  shows "(j + unat (sched_size (schedule (mac_scheduler m))) - current_slot m') mod unat (sched_size (schedule (mac_scheduler m)))
    < (j + unat (sched_size (schedule (mac_scheduler m))) - current_slot m) mod unat (sched_size (schedule (mac_scheduler m)))"
proof -
  let ?s = "mac_scheduler m" and ?src = "source_address_at m"
  let ?n = "unat (sched_size (schedule ?s))" and ?i = "current_slot m"
  define e where "e = (j + ?n - ?i) mod ?n"
  have i: "?i < ?n" using assms(2) by (simp add: scheduler_wf_def)
  have e: "0 < e" "e < ?n" "(?i + e) mod ?n = j"
    using assms(3,5) i slots_between [OF i assms(3)] slot_wraps [OF i, of e]
    by (simp_all add: e_def split: if_splits)
  obtain d s' where d: "0 < d" "link_scheduler_increment_time_slot ?src ?s = Some (of_nat d, s')"
    "unat (current_time_slot_num s') = slot_after ?s ?i d"
    "\<forall>x. 0 < x \<and> x < d \<longrightarrow> empty_after ?src ?s ?i x"
    using increment_returns [OF assms(2-4)] by blast
  have m': "current_slot m' = (?i + d) mod ?n"
    using assms(1) d(2,3) by (auto simp: next_time_slot_def slot_after_def)
  have "\<not> empty_after ?src ?s ?i e" using assms(4) e(3) by (simp add: empty_after_def slot_after_def)
  then have de: "d \<le> e" using d(4) e(1) by (meson not_le)
  have "(?i + d) mod ?n < ?n" using i by simp
  then have "(j + ?n - (?i + d) mod ?n) mod ?n = (if (?i + d) mod ?n \<le> j then j - (?i + d) mod ?n else j + ?n - (?i + d) mod ?n)"
    using assms(3) by (rule slots_between)
  also have "\<dots> = e - d"
  proof (rule slots_closer [OF i assms(3) _ de])
    show "e = (if ?i \<le> j then j - ?i else j + ?n - ?i)" unfolding e_def by (rule slots_between [OF i assms(3)])
    show "(?i + d) mod ?n = (if ?i + d < ?n then ?i + d else ?i + d - ?n)" by (rule slot_wraps [OF i]) (use de e(2) in simp)
  qed
  finally have "(j + ?n - (?i + d) mod ?n) mod ?n = e - d" .
  then show ?thesis using d(1) de e(1) unfolding m' e_def [symmetric] by linarith
qed

text \<open>A slot that is not empty makes the scheduler move on.\<close>

lemma next_slot_returns:
  assumes "slot_current m"
  obtains k m' where "next_time_slot m = Some (k, m')"
proof -
  let ?s = "mac_scheduler m"
  have "current_slot m < unat (sched_size (schedule ?s))" "scheduler_wf ?s"
    "\<not> time_slot_is_empty (source_address_at m) ?s (sched_slot ?s (current_slot m))"
    using assms by (simp_all add: slot_current_def scheduler_wf_def link_scheduler_get_current_timeslot_def)
  then obtain k s' where "link_scheduler_increment_time_slot (source_address_at m) ?s = Some (k, s')"
    using increment_returns by blast
  then show thesis using that [of k "m\<lparr>mac_scheduler := s'\<rparr>"] by (simp add: next_time_slot_def)
qed

lemma next_slot_frame: "next_time_slot m = Some (k, m') \<Longrightarrow> mac_conns m' = mac_conns m \<and>
    source_address_at m' = source_address_at m \<and> schedule (mac_scheduler m') = schedule (mac_scheduler m) \<and>
    (\<forall>ts. time_slot_is_empty (source_address_at m') (mac_scheduler m') ts = time_slot_is_empty (source_address_at m) (mac_scheduler m) ts)"
proof -
  assume a: "next_time_slot m = Some (k, m')"
  then obtain s' where s': "link_scheduler_increment_time_slot (source_address_at m) (mac_scheduler m) = Some (k, s')"
    "m' = m\<lparr>mac_scheduler := s'\<rparr>" by (auto simp: next_time_slot_def)
  have "source_address_at m' = source_address_at m" by (simp add: s'(2) source_address_at_def fun_eq_iff)
  then show ?thesis using increment_frame [OF s'(1)] empty_schedule [of s' "mac_scheduler m"] s'(2) by simp
qed

lemma throttle_step_ready:
  assumes r: "throttle_ready m" and t: "throttle_slot m = Some (b, m1)" and n: "next_time_slot m1 = Some (k, m2)"
  shows "throttle_ready m2 \<and> schedule (mac_scheduler m2) = schedule (mac_scheduler m) \<and> mac_conns m2 = mac_conns m1 \<and>
    (\<forall>ts. time_slot_is_empty (source_address_at m2) (mac_scheduler m2) ts = time_slot_is_empty (source_address_at m) (mac_scheduler m) ts)"
proof -
  obtain m1' where m1': "throttle_slot m = Some (\<exists>a\<in>main_of_slot m (current_slot m). enabled_at (mac_conns m a) 1, m1')"
    "mac_scheduler m1' = mac_scheduler m" "slot_current m1'"
    "\<And>b. patterned (mac_conns m b) \<Longrightarrow> patterned (mac_conns m1' b)"
    "\<And>b i. patterned (mac_conns m b) \<Longrightarrow> enabled_at (mac_conns m1' b) i =
       enabled_at (mac_conns m b) (if b \<in> main_of_slot m (current_slot m) then Suc i else i)"
    by (rule throttle_slot_spec [OF r], rule that, assumption+)
  have m1: "m1' = m1" using m1'(1) t by simp
  note f = next_slot_frame [OF n]
  have src: "source_address_at m1 = source_address_at m" using env_throttle_slot [OF t] by (simp add: slot_env_iff)
  have "slot_current m2" using next_slot_current [OF n] m1'(3) unfolding m1 by (simp add: slot_current_def)
  moreover have "time_slot_is_empty (source_address_at m2) (mac_scheduler m2) ts
      = time_slot_is_empty (source_address_at m) (mac_scheduler m) ts" for ts
    using f src m1'(2) unfolding m1 by metis
  ultimately show ?thesis using f r m1'(2,4) unfolding m1 throttle_ready_def main_of_slot_def sched_slot_def by simp
qed

text \<open>A connection \<open>a\<close> of slot \<open>j\<close> that is enabled at its \<open>n\<close>-th search from now ends the loop.\<close>

lemma throttle_returns:
  assumes "throttle_ready m" "j < unat (sched_size (schedule (mac_scheduler m)))"
    and "\<not> time_slot_is_empty (source_address_at m) (mac_scheduler m) (sched_slot (mac_scheduler m) j)"
    and "a \<in> main_of_slot m j" "enabled_at (mac_conns m a) (Suc n)"
  shows "handle_link_throttle m c \<noteq> None"
proof -
  define dist where "dist m = (j + unat (sched_size (schedule (mac_scheduler m))) - current_slot m)
    mod unat (sched_size (schedule (mac_scheduler m)))" for m :: "'a wps_mac"
  show ?thesis using assms
  proof (induction "(n, dist m)" arbitrary: n m c rule: wf_induct_rule [OF wf_lex_prod [OF wf_less_than wf_less_than], consumes 0])
    case (1 n m)
    note r = "1.prems"(1)
    let ?here = "a \<in> main_of_slot m (current_slot m)"
    obtain m1 where m1: "throttle_slot m = Some (\<exists>a\<in>main_of_slot m (current_slot m). enabled_at (mac_conns m a) 1, m1)"
      "mac_scheduler m1 = mac_scheduler m" "slot_current m1"
      "\<And>b. patterned (mac_conns m b) \<Longrightarrow> patterned (mac_conns m1 b)"
      "\<And>b i. patterned (mac_conns m b) \<Longrightarrow> enabled_at (mac_conns m1 b) i =
         enabled_at (mac_conns m b) (if b \<in> main_of_slot m (current_slot m) then Suc i else i)"
      by (rule throttle_slot_spec [OF r], rule that, assumption+)
    obtain k m2 where n: "next_time_slot m1 = Some (k, m2)" using next_slot_returns [OF m1(3)] by blast
    show ?case
    proof (cases "\<exists>a\<in>main_of_slot m (current_slot m). enabled_at (mac_conns m a) 1")
      case True
      then show ?thesis using m1(1) by (subst handle_link_throttle.simps) simp
    next
      case False
      have step: "handle_link_throttle m c = handle_link_throttle m2 (c + k)"
        using False m1(1) n by (subst handle_link_throttle.simps) simp
      note s = throttle_step_ready [OF r m1(1) n]
      have pa: "patterned (mac_conns m a)" using r "1.prems"(2,4) by (auto simp: throttle_ready_def)
      have keep: "j < unat (sched_size (schedule (mac_scheduler m2)))"
        "\<not> time_slot_is_empty (source_address_at m2) (mac_scheduler m2) (sched_slot (mac_scheduler m2) j)" "a \<in> main_of_slot m2 j"
        using s "1.prems"(2-4) by (simp_all add: main_of_slot_def sched_slot_def)
      show ?thesis
      proof (cases ?here)
        case True
        then have "n \<noteq> 0" using False "1.prems"(5) by (cases n) auto
        then obtain n' where n': "n = Suc n'" by (cases n) auto
        then have "enabled_at (mac_conns m2 a) (Suc n')" using "1.prems"(5) True m1(5) [OF pa] s by simp
        from "1.hyps" [OF _ conjunct1 [OF s] keep this] show ?thesis unfolding step using n' by simp
      next
        case here: False
        then have ne: "current_slot m1 \<noteq> j" using "1.prems"(4) m1(2) by auto
        have e: "enabled_at (mac_conns m2 a) (Suc n)" using "1.prems"(5) here m1(5) [OF pa] s by simp
        have "source_address_at m1 = source_address_at m" using env_throttle_slot [OF m1(1)] by (simp add: slot_env_iff)
        then have "dist m2 < dist m"
          using next_slot_distance [OF n _ _ _ ne] m1(2) r "1.prems"(2,3) s
          by (simp add: dist_def throttle_ready_def slot_current_def)
        from "1.hyps" [OF _ conjunct1 [OF s] keep e] this show ?thesis unfolding step by simp
      qed
    qed
  qed
qed

text \<open>The converse: the loop ends only in a slot with an enabled connection.\<close>

definition ever_enabled :: "'s wps_connection \<Rightarrow> bool" where
  "ever_enabled c = (case conn_pattern c of None \<Rightarrow> True | Some p \<Rightarrow> True \<in> (\<lambda>k. p ! k) ` {..<unat (pattern_total_count c)})"

lemma ever_enabled_at:
  assumes "patterned c"
  shows "ever_enabled c \<longleftrightarrow> (\<exists>n. enabled_at c (Suc n))"
proof (cases "conn_pattern c")
  case (Some p)
  let ?t = "unat (pattern_total_count c)" and ?k = "unat (pattern_count c)"
  have t: "0 < ?t" using assms Some by (simp add: patterned_def unat_gt_0)
  have "\<exists>n. (?k + Suc n) mod ?t = k" if k: "k < ?t" for k
  proof -
    have "?k < ?t * (?k + 1)" using mult_le_mono1 [of 1 ?t "?k + 1"] t by simp
    then have "?k + Suc (k + ?t * (?k + 1) - ?k - 1) = k + ?t * (?k + 1)" by simp
    then show ?thesis using k by (metis mod_less mod_mult_self2)
  qed
  moreover have "(?k + Suc n) mod ?t < ?t" for n using t by simp
  ultimately have "(\<exists>k<?t. p ! k) \<longleftrightarrow> (\<exists>n. p ! ((?k + Suc n) mod ?t))" by metis
  then show ?thesis using Some by (auto simp: ever_enabled_def enabled_at_def)
qed (simp add: ever_enabled_def enabled_at_def)

definition some_slot_enabled :: "'s wps_mac \<Rightarrow> bool" where
  "some_slot_enabled m \<longleftrightarrow> (\<exists>j<unat (sched_size (schedule (mac_scheduler m))).
     \<not> time_slot_is_empty (source_address_at m) (mac_scheduler m) (sched_slot (mac_scheduler m) j) \<and>
     (\<exists>a\<in>main_of_slot m j. ever_enabled (mac_conns m a)))"

lemma throttle_stops_enabled:
  "handle_link_throttle m k = Some r \<Longrightarrow> throttle_ready m \<longrightarrow> some_slot_enabled m"
proof (erule handle_link_throttle.raw_induct [where P = "\<lambda>m k r. throttle_ready m \<longrightarrow> some_slot_enabled m", rotated], rule impI)
  fix h :: "'a wps_mac \<Rightarrow> u8 \<Rightarrow> (u8 \<times> 'a wps_mac) option" and m k r
  assume ih: "\<And>m k r. h m k = Some r \<Longrightarrow> throttle_ready m \<longrightarrow> some_slot_enabled m"
    and step: "(throttle_slot m \<bind> (\<lambda>(ts_enabled, m1). if ts_enabled then Some (k, m1)
      else next_time_slot m1 \<bind> (\<lambda>(inc, m2). h m2 (k + inc)))) = Some r" and r: "throttle_ready m"
  let ?here = "\<exists>a\<in>main_of_slot m (current_slot m). enabled_at (mac_conns m a) 1"
  have wf: "current_slot m < unat (sched_size (schedule (mac_scheduler m)))"
    "\<not> time_slot_is_empty (source_address_at m) (mac_scheduler m) (sched_slot (mac_scheduler m) (current_slot m))"
    using r by (simp_all add: throttle_ready_def slot_current_def scheduler_wf_def link_scheduler_get_current_timeslot_def)
  have pat: "patterned (mac_conns m a)" if "j < unat (sched_size (schedule (mac_scheduler m)))" "a \<in> main_of_slot m j" for a j
    using r that by (simp add: throttle_ready_def)
  obtain m1 where m1: "throttle_slot m = Some (?here, m1)" "mac_scheduler m1 = mac_scheduler m" "slot_current m1"
    "\<And>b. patterned (mac_conns m b) \<Longrightarrow> patterned (mac_conns m1 b)"
    "\<And>b i. patterned (mac_conns m b) \<Longrightarrow> enabled_at (mac_conns m1 b) i =
       enabled_at (mac_conns m b) (if b \<in> main_of_slot m (current_slot m) then Suc i else i)"
    by (rule throttle_slot_spec [OF r], rule that, assumption+)
  show "some_slot_enabled m"
  proof (cases ?here)
    case True
    then obtain a where a: "a \<in> main_of_slot m (current_slot m)" "enabled_at (mac_conns m a) (Suc 0)" by auto
    then have "ever_enabled (mac_conns m a)" using ever_enabled_at [OF pat [OF wf(1) a(1)]] by blast
    then show ?thesis using wf a(1) by (auto simp: some_slot_enabled_def)
  next
    case False
    then obtain i m2 where n: "next_time_slot m1 = Some (i, m2)" "h m2 (k + i) = Some r"
      using step m1(1) by (auto split: Option.bind_splits)
    note s = throttle_step_ready [OF r m1(1) n(1)]
    have "some_slot_enabled m2" using ih [OF n(2)] s by blast
    then obtain j a where j: "j < unat (sched_size (schedule (mac_scheduler m)))"
      "\<not> time_slot_is_empty (source_address_at m) (mac_scheduler m) (sched_slot (mac_scheduler m) j)"
      "a \<in> main_of_slot m j" and e: "ever_enabled (mac_conns m2 a)"
      using s by (auto simp: some_slot_enabled_def main_of_slot_def sched_slot_def)
    have p: "patterned (mac_conns m a)" using pat j by blast
    then have "patterned (mac_conns m2 a)" using s m1(4) by simp
    then obtain n where "enabled_at (mac_conns m2 a) (Suc n)" using e ever_enabled_at by blast
    then have "\<exists>n. enabled_at (mac_conns m a) (Suc n)" using s m1(5) [OF p] by (auto split: if_splits)
    then show ?thesis using j ever_enabled_at [OF p] by (auto simp: some_slot_enabled_def)
  qed
qed

text \<open>
  C14. The loop that passes over throttled slots ends exactly when it should. On a schedule whose lists
  have no connection twice and whose patterns are not empty, \<open>handle_link_throttle\<close> returns if and only if some
  slot that is not empty has a main connection without a pattern, or with an active entry in its pattern.
\<close>

theorem wps_mac_throttle_terminates_iff:
  assumes "throttle_ready m"
  shows "(\<exists>r. handle_link_throttle m c = Some r) \<longleftrightarrow> some_slot_enabled m"
proof
  assume "some_slot_enabled m"
  then obtain j a where j: "j < unat (sched_size (schedule (mac_scheduler m)))"
    "\<not> time_slot_is_empty (source_address_at m) (mac_scheduler m) (sched_slot (mac_scheduler m) j)"
    "a \<in> main_of_slot m j" "ever_enabled (mac_conns m a)" by (auto simp: some_slot_enabled_def)
  then have "patterned (mac_conns m a)" using assms by (simp add: throttle_ready_def)
  then obtain n where "enabled_at (mac_conns m a) (Suc n)" using j(4) ever_enabled_at by blast
  from throttle_returns [OF assms j(1-3) this] show "\<exists>r. handle_link_throttle m c = Some r" by simp
qed (use throttle_stops_enabled assms in blast)

lemma throttle_ready_next:
  assumes "next_time_slot m = Some (k, m')" "scheduler_wf (mac_scheduler m)" "throttle_lists (schedule (mac_scheduler m))"
    and "\<forall>j<unat (sched_size (schedule (mac_scheduler m))). \<forall>a\<in>main_of_slot m j. patterned (mac_conns m a)"
  shows "throttle_ready m'"
  using next_slot_current [OF assms(1,2)] next_slot_frame [OF assms(1)] assms(3,4)
  by (simp add: throttle_ready_def main_of_slot_def sched_slot_def)

text \<open>
  C29. A ratio of zero stops the radio. The interface takes ratios from 0 to 100; when zero is set for the
  connection that is the only main connection of the schedule, then, after the request is processed,
  the search for the next slot never comes to an end: \<open>process_next_timeslot\<close>, which runs in the interrupt of
  the radio, does not return.
\<close>

theorem wps_mac_zero_ratio_hangs:
  assumes "wps_set_active_ratio sz buf a 0 m = Some (WPS_NO_ERROR, m1)" and "request_queue m = []"
    and "conn_pattern (mac_conns m a) = Some p"
    and "scheduler_wf (mac_scheduler m)" and "throttle_lists (schedule (mac_scheduler m))"
    and "\<forall>ts\<in>set (sched_timeslot (schedule (mac_scheduler m))). set (slot_connections (main_conn_list ts)) \<subseteq> {a}"
  shows "process_next_timeslot r (process_pending_request m1) = None"
proof (rule ccontr)
  let ?m = "process_pending_request m1" and ?c = "mac_conns (process_pending_request m1) a"
  assume "process_next_timeslot r ?m \<noteq> None"
  then obtain k k' m2 r' where m2: "next_time_slot (?m\<lparr>mac_scheduler := link_scheduler_reset_sleep_time (mac_scheduler ?m)\<rparr>) = Some (k, m2)"
    "handle_link_throttle m2 k = Some r'"
    by (auto simp: process_next_timeslot_def select_timeslot_def Let_def split: Option.bind_splits)
  obtain t q where g: "generate_active_pattern buf 0 = Some (t, q)"
    and m1: "request_queue m1 = [REQUEST_MAC_CHANGE_SCHEDULE_RATIO \<lparr>rc_active_ratio = 0, rc_pattern_total_count = t,
        rc_pattern_current_count = 0, rc_target_conn = a, rc_pattern_cfg = q\<rparr>]" "mac_conns m1 = mac_conns m"
      "mac_scheduler m1 = mac_scheduler m"
    using assms(1,2) by (auto simp: wps_set_active_ratio_def Let_def split: if_splits)
  have c: "pattern_total_count ?c = t" "conn_pattern ?c = Some (take (unat t) q @ drop (unat t) p)"
    "mac_scheduler ?m = mac_scheduler m"
    using m1 assms(3) by (simp_all add: process_pending_request_def process_request_def process_schedule_request_def upd_conn_def)
  note spec = active_pattern_spec [OF g _ order_refl]
  obtain b where "pattern_numbers 0 = (b, t)"
    using g by (cases "pattern_numbers 0") (auto simp: generate_active_pattern_def Let_def split: if_splits)
  then have len: "unat t \<le> length q" using pattern_entries(1,2) [OF g] by simp
  have off: "\<not> q ! i" if "i < unat t" for i
  proof -
    have "unat (0 :: u8) \<le> 100" by simp
    from spec [OF this] have "length (filter id (take (unat t) q)) * gcd (unat (0 :: u8)) 100 = unat (0 :: u8)" by (elim conjE)
    then have "length (filter id (take (unat t) q)) = 0" by simp
    then have "\<forall>x\<in>set (take (unat t) q). \<not> x" by (simp add: filter_empty_conv)
    then show ?thesis using that len by (auto simp: in_set_conv_nth)
  qed
  have pc: "patterned ?c" using spec c(1) by (auto simp: patterned_def)
  have dead: "\<not> ever_enabled ?c" using c off len by (auto simp: ever_enabled_def nth_append)
  have main: "main_of_slot m2 j \<subseteq> {a}" if "j < unat (sched_size (schedule (mac_scheduler m)))" for j
    using that assms(4,6) next_slot_frame [OF m2(1)] c(3)
    by (auto simp: main_of_slot_def sched_slot_def scheduler_wf_def link_scheduler_reset_sleep_time_def)
  have f: "mac_conns m2 a = ?c" "schedule (mac_scheduler m2) = schedule (mac_scheduler m)"
    using next_slot_frame [OF m2(1)] c(3) by (simp_all add: link_scheduler_reset_sleep_time_def)
  have "throttle_ready m2"
  proof (rule throttle_ready_next [OF m2(1)])
    let ?m0 = "?m\<lparr>mac_scheduler := link_scheduler_reset_sleep_time (mac_scheduler ?m)\<rparr>"
    show "scheduler_wf (mac_scheduler ?m0)" "throttle_lists (schedule (mac_scheduler ?m0))"
      using assms(4,5) c(3) by (simp_all add: scheduler_wf_def link_scheduler_reset_sleep_time_def)
    show "\<forall>j<unat (sched_size (schedule (mac_scheduler ?m0))). \<forall>b\<in>main_of_slot ?m0 j. patterned (mac_conns ?m0 b)"
    proof (intro allI impI ballI)
      fix j b assume j: "j < unat (sched_size (schedule (mac_scheduler ?m0)))" "b \<in> main_of_slot ?m0 j"
      then have "sched_timeslot (schedule (mac_scheduler m)) ! j \<in> set (sched_timeslot (schedule (mac_scheduler m)))"
        using assms(4) c(3) by (simp add: scheduler_wf_def link_scheduler_reset_sleep_time_def)
      then have "b = a" using assms(6) j(2) c(3) by (auto simp: main_of_slot_def sched_slot_def link_scheduler_reset_sleep_time_def)
      then show "patterned (mac_conns ?m0 b)" using pc by simp
    qed
  qed
  then have "some_slot_enabled m2" using throttle_stops_enabled [OF m2(2)] by blast
  then obtain j b where j: "j < unat (sched_size (schedule (mac_scheduler m)))" "b \<in> main_of_slot m2 j" "ever_enabled (mac_conns m2 b)"
    using f by (auto simp: some_slot_enabled_def)
  then have "b = a" using main by blast
  then show False using j(3) f dead by simp
qed

section \<open>Witnesses\<close>

text \<open>One slot with one throttled connection.\<close>

definition throttle_slot_example :: timeslot where
  "throttle_slot_example = zero_timeslot\<lparr>main_conn_list := zero_conn_list\<lparr>connection_count := 1,
     tcl_connection := [Some 7, None, None]\<rparr>\<rparr>"

definition throttle_example :: "bool list \<Rightarrow> u8 \<Rightarrow> unit wps_mac" where
  "throttle_example p t = undefined\<lparr>request_queue := [], schedule_ratio_cfg_queue := [],
     mac_scheduler := link_scheduler_init (undefined\<lparr>schedule := \<lparr>sched_timeslot = [throttle_slot_example], sched_size = 1,
        lightest_sleep_lvl = SLEEP_IDLE\<rparr>\<rparr>) 5,
     mac_conns := (\<lambda>_. undefined\<lparr>conn_pattern := Some p, pattern_total_count := t, pattern_count := 0\<rparr>)\<rparr>"

lemma throttle_example_lists:
  "scheduler_wf (mac_scheduler (throttle_example p t))" "throttle_lists (schedule (mac_scheduler (throttle_example p t)))"
  "schedule (mac_scheduler (throttle_example p t)) = \<lparr>sched_timeslot = [throttle_slot_example], sched_size = 1, lightest_sleep_lvl = SLEEP_IDLE\<rparr>"
  "slot_connections (main_conn_list throttle_slot_example) = [7]"
  by (simp_all add: throttle_example_def scheduler_wf_def throttle_lists_def link_scheduler_init_def throttle_slot_example_def
      slot_connections_def zero_timeslot_def zero_conn_list_def)

lemma throttle_example_slot:
  "\<not> time_slot_is_empty src (mac_scheduler (throttle_example p t)) throttle_slot_example"
  "sched_slot (mac_scheduler (throttle_example p t)) 0 = throttle_slot_example"
  "current_time_slot_num (mac_scheduler (throttle_example p t)) = 0"
  by (simp_all add: throttle_example_def time_slot_is_empty_def link_scheduler_init_def throttle_slot_example_def sched_slot_def)

lemma throttle_example_ready: "t \<noteq> 0 \<Longrightarrow> throttle_ready (throttle_example p t)"
  using throttle_example_lists(2) [of p t]
  by (simp add: throttle_ready_def slot_current_def main_of_slot_def link_scheduler_get_current_timeslot_def
      patterned_def throttle_example_lists(1,3,4) throttle_example_slot) (simp add: throttle_example_def)

theorem wps_active_ratio_share_witness:
  "\<exists>m1 es. wps_set_active_ratio \<lparr>rs_request = 4, rs_schedule_ratio = 2, rs_write = 1, rs_read = 1\<rparr> (replicate 20 True) 7 40
      (throttle_example (replicate 20 True) 20) = Some (WPS_NO_ERROR, m1) \<and>
    enabled_visits 8 (mac_conns (process_pending_request m1) 7) = Some es \<and> length (filter id (drop 3 es)) = 2"
proof -
  let ?sz = "\<lparr>rs_request = 4, rs_schedule_ratio = 2, rs_write = 1, rs_read = 1\<rparr> :: request_sizes"
  have "generate_active_pattern (replicate 20 True) 40 \<noteq> None" by code_simp
  then obtain t q where g: "generate_active_pattern (replicate 20 True) 40 = Some (t, q)" by auto
  obtain m1 where m1: "wps_set_active_ratio ?sz (replicate 20 True) 7 40 (throttle_example (replicate 20 True) 20) = Some (WPS_NO_ERROR, m1)"
    unfolding wps_set_active_ratio_def Let_def g by (simp add: throttle_example_def)
  have r: "100 div gcd (unat (40 :: u8)) 100 = (5 :: nat)" by (simp add: gcd_non_0_nat)
  obtain es where "enabled_visits (3 + 5) (mac_conns (process_pending_request m1) 7) = Some es"
    "length (filter id (drop 3 es)) = 2"
    using wps_active_ratio_share [OF m1, of "replicate 20 True" 3] unfolding r Let_def
    by (auto simp: throttle_example_def WPS_PATTERN_THROTTLE_GRANULARITY_def)
  with m1 show ?thesis by auto
qed

theorem wps_mac_throttle_terminates_iff_witness:
  "(\<exists>r. handle_link_throttle (throttle_example [False, True] 2) 1 = Some r) \<and>
   handle_link_throttle (throttle_example [False, False] 2) 1 = None"
proof -
  have s: "some_slot_enabled (throttle_example p 2) \<longleftrightarrow> p ! 0 \<or> p ! 1" for p
    by (simp add: some_slot_enabled_def main_of_slot_def throttle_example_lists throttle_example_slot)
       (auto simp: ever_enabled_def throttle_example_def less_2_cases_iff)
  have "some_slot_enabled (throttle_example [False, True] 2)" "\<not> some_slot_enabled (throttle_example [False, False] 2)"
    by (simp_all add: s)
  then show ?thesis
    using wps_mac_throttle_terminates_iff [of "throttle_example [False, True] 2" 1] throttle_example_ready [of 2 "[False, True]"]
      wps_mac_throttle_terminates_iff [of "throttle_example [False, False] 2" 1] throttle_example_ready [of 2 "[False, False]"]
    by (cases "handle_link_throttle (throttle_example [False, False] 2) 1") auto
qed

theorem wps_mac_zero_ratio_hangs_witness:
  "\<exists>m1. wps_set_active_ratio \<lparr>rs_request = 4, rs_schedule_ratio = 2, rs_write = 1, rs_read = 1\<rparr> (replicate 20 True) 7 0
      (throttle_example (replicate 20 True) 20) = Some (WPS_NO_ERROR, m1) \<and>
    process_next_timeslot 3 (process_pending_request m1) = None"
proof -
  let ?sz = "\<lparr>rs_request = 4, rs_schedule_ratio = 2, rs_write = 1, rs_read = 1\<rparr> :: request_sizes"
  have "generate_active_pattern (replicate 20 True) 0 \<noteq> None" by code_simp
  then obtain t q where g: "generate_active_pattern (replicate 20 True) 0 = Some (t, q)" by auto
  obtain m1 where m1: "wps_set_active_ratio ?sz (replicate 20 True) 7 0 (throttle_example (replicate 20 True) 20) = Some (WPS_NO_ERROR, m1)"
    unfolding wps_set_active_ratio_def Let_def g by (simp add: throttle_example_def)
  have "request_queue (throttle_example (replicate 20 True) 20) = []"
    "conn_pattern (mac_conns (throttle_example (replicate 20 True) 20) 7) = Some (replicate 20 True)"
    by (simp_all add: throttle_example_def)
  from wps_mac_zero_ratio_hangs [OF m1 this throttle_example_lists(1,2), of 3] show ?thesis
    using m1 by (simp add: throttle_example_lists(3,4))
qed

end
