(* ===== verification/Mac_Flush.thy ===== *)
theory Mac_Flush
  imports Mac_Throttle
begin

text \<open>
  Dropping the frames whose time is over: \<open>flush_timeout_frames_before_sending\<close> drops the longest prefix of
  the queue whose frames are all timed out, gives their nodes back, and comes to an end; and what the
  sending of a frame does to the queue.
\<close>

section \<open>The head of the queue\<close>

definition node_frame :: "'s wps_mac \<Rightarrow> nat \<Rightarrow> xlayer_frame" where
  "node_frame m n = xl_frame (xlayer_at m (XL_NODE n))"

definition frame_timed_out :: "'s wps_connection \<Rightarrow> xlayer_frame \<Rightarrow> bool" where
  "frame_timed_out c f = fst (link_saw_arq_is_frame_timeout (conn_saw_arq c) (time_stamp f) (retry_count f) (conn_tick c))"

definition conn_frames_at :: "'s wps_mac \<Rightarrow> nat \<Rightarrow> nat list" where
  "conn_frames_at m a = xq_items (mac_heap m) (conn_xlayer_queue (mac_conns m a))"

text \<open>The part of a connection the search looks at, which dropping a frame keeps.\<close>

definition drop_key :: "'s wps_connection \<Rightarrow> saw_arq \<times> nat \<times> u64 \<times> bool" where
  "drop_key c = (conn_saw_arq c, conn_xlayer_queue c, conn_tick c, certification_mode_enabled c)"

lemma drop_keyD: "drop_key c' = drop_key c \<Longrightarrow> conn_saw_arq c' = conn_saw_arq c \<and> conn_xlayer_queue c' = conn_xlayer_queue c \<and>
    conn_tick c' = conn_tick c \<and> certification_mode_enabled c' = certification_mode_enabled c \<and>
    frame_timed_out c' = frame_timed_out c"
  by (simp add: drop_key_def frame_timed_out_def fun_eq_iff)

lemma before_drop:
  fixes m :: "'s wps_mac" and cb s a t
  defines "m2 \<equiv> wps_mac_statistics_update_tx_dropped_conn_stats (Some a) ((enqueue_callback_main
     (if t then set_callback_auto cb m else set_callback_main cb m))\<lparr>mac_main_signal := s\<rparr>)"
  shows "mac_heap m2 = mac_heap m" "drop_key (mac_conns m2 a) = drop_key (mac_conns m a)"
    "b \<noteq> a \<Longrightarrow> mac_conns m2 b = mac_conns m b"
  by (simp_all add: m2_def wps_mac_statistics_update_tx_dropped_conn_stats_def enqueue_callback_main_def set_callback_main_def
      set_callback_auto_def upd_config_def upd_conn_def drop_key_def)

lemma send_done_effect:
  fixes m :: "'s wps_mac"
  assumes d: "xlayer_queue_dequeue_node (conn_xlayer_queue (mac_conns m a)) (mac_heap m) = (Some n, h)"
    and nc: "\<not> certification_mode_enabled (mac_conns m a)"
  shows "mac_heap (snd (send_done (Some a) m)) = xlayer_queue_free_node (Some n) h"
    "drop_key (mac_conns (snd (send_done (Some a) m)) a) = drop_key (mac_conns m a)"
    "b \<noteq> a \<Longrightarrow> mac_conns (snd (send_done (Some a) m)) b = mac_conns m b"
proof -
  let ?m1 = "upd_conn (Some a) (\<lambda>c. c\<lparr>tx_flush := False\<rparr>) m"
  have m1: "mac_heap ?m1 = mac_heap m" "mac_conns ?m1 = (mac_conns m)(a := (mac_conns m a)\<lparr>tx_flush := False\<rparr>)"
    by (simp_all add: upd_conn_def)
  obtain r s where rs: "send_done_io (conn_io (Some a) ?m1) = (r, s)" by fastforce
  have "io_heap (conn_io (Some a) ?m1) = mac_heap m" "io_queue (conn_io (Some a) ?m1) = conn_xlayer_queue (mac_conns m a)"
    using m1 by (simp_all add: conn_io_def conn_at_def Let_def)
  then have h: "io_heap s = xlayer_queue_free_node (Some n) h"
    using rs d by (auto simp: send_done_io_def Let_def)
  let ?m2 = "put_tx_io (Some a) s ?m1"
  have m2: "mac_heap ?m2 = io_heap s"
    "mac_conns ?m2 = (mac_conns ?m1)(a := (mac_conns ?m1 a)\<lparr>conn_tx_node := io_tx_node s\<rparr>)"
    by (simp_all add: put_tx_io_def upd_conn_def)
  have "snd (send_done (Some a) m) = ?m2"
    using rs m1 m2 nc by (simp add: send_done_def conn_at_def)
  then show "mac_heap (snd (send_done (Some a) m)) = xlayer_queue_free_node (Some n) h"
    "drop_key (mac_conns (snd (send_done (Some a) m)) a) = drop_key (mac_conns m a)"
    "b \<noteq> a \<Longrightarrow> mac_conns (snd (send_done (Some a) m)) b = mac_conns m b"
    using m1 m2 h by (simp_all add: drop_key_def)
qed

lemma drop_head_effect:
  fixes m :: "'s wps_mac"
  assumes d: "xlayer_queue_dequeue_node (conn_xlayer_queue (mac_conns m a)) (mac_heap m) = (Some n, h)"
    and nc: "\<not> certification_mode_enabled (mac_conns m a)"
  shows "mac_heap (drop_head t (Some a) m) = xlayer_queue_free_node (Some n) h"
    "drop_key (mac_conns (drop_head t (Some a) m) a) = drop_key (mac_conns m a)"
    "b \<noteq> a \<Longrightarrow> mac_conns (drop_head t (Some a) m) b = mac_conns m b"
proof -
  define m2 where "m2 = wps_mac_statistics_update_tx_dropped_conn_stats (Some a) ((enqueue_callback_main
     (if t then set_callback_auto (conn_tx_drop (conn_at m (Some a))) m else set_callback_main (conn_tx_drop (conn_at m (Some a))) m))
     \<lparr>mac_main_signal := MAC_SIGNAL_WPS_TX_DROP\<rparr>)"
  have e: "drop_head t (Some a) m = snd (send_done (Some a) m2)" by (simp only: drop_head_def m2_def Let_def)
  have m2: "mac_heap m2 = mac_heap m" "drop_key (mac_conns m2 a) = drop_key (mac_conns m a)"
    "\<And>b. b \<noteq> a \<Longrightarrow> mac_conns m2 b = mac_conns m b"
    unfolding m2_def by (rule before_drop; assumption?)+
  note s = send_done_effect [of m2 a n h]
  show "mac_heap (drop_head t (Some a) m) = xlayer_queue_free_node (Some n) h"
    "drop_key (mac_conns (drop_head t (Some a) m) a) = drop_key (mac_conns m a)"
    "b \<noteq> a \<Longrightarrow> mac_conns (drop_head t (Some a) m) b = mac_conns m b"
    unfolding e using s d nc m2 drop_keyD [OF m2(2)] by simp_all
qed

lemma get_node_items:
  "xq_wf h q \<Longrightarrow> \<not> free_xlayer_queue_type (xqueues h q) \<Longrightarrow>
    xlayer_queue_get_node q h = (case xq_items h q of [] \<Rightarrow> None | n # _ \<Rightarrow> Some n)"
proof -
  assume a: "xq_wf h q" "\<not> free_xlayer_queue_type (xqueues h q)"
  show "xlayer_queue_get_node q h = (case xq_items h q of [] \<Rightarrow> None | n # _ \<Rightarrow> Some n)"
  proof (cases "xq_items h q")
    case Nil
    then show ?thesis using wf_size [OF a(1)] by (simp add: xlayer_queue_get_node_def)
  next
    case (Cons n ns)
    then have ne: "xq_size (xqueues h q) \<noteq> 0" using wf_size [OF a(1)] by simp
    then show ?thesis using wf_head [OF a(1) ne] a(2) Cons by (simp add: xlayer_queue_get_node_def)
  qed
qed

text \<open>Changing the descriptor in a node changes no queue.\<close>

lemma upd_xlayer_queues:
  fixes h :: xheap and n f
  defines "h' \<equiv> upd_node n (\<lambda>x. x\<lparr>xn_xlayer := f (xn_xlayer x)\<rparr>) h"
  shows "xq_items h' q = xq_items h q" "xheap_wf qs h' = xheap_wf qs h" "xqueues h' = xqueues h" "xq_cap h' q = xq_cap h q"
    "home_xlayer_queue (xnodes h' b) = home_xlayer_queue (xnodes h b)" "copy_count (xnodes h' b) = copy_count (xnodes h b)"
    "b \<noteq> n \<Longrightarrow> xnodes h' b = xnodes h b"
proof -
  have w: "xq_walk h' k p = xq_walk h k p" for k p
  proof (induction k arbitrary: p)
    case (Suc k)
    then show ?case by (cases p) (simp_all add: h'_def)
  qed simp
  show q: "xqueues h' = xqueues h" by (simp add: h'_def)
  have i: "xq_items h' q = xq_items h q" for q by (simp add: xq_items_def q w)
  then show "xq_items h' q = xq_items h q" .
  show "xheap_wf qs h' = xheap_wf qs h" by (simp add: xheap_wf_def xq_wf_def i q)
  show "xq_cap h' q = xq_cap h q" by (simp add: xq_cap_def q)
  show "home_xlayer_queue (xnodes h' b) = home_xlayer_queue (xnodes h b)" "copy_count (xnodes h' b) = copy_count (xnodes h b)"
    "b \<noteq> n \<Longrightarrow> xnodes h' b = xnodes h b" by (simp_all add: h'_def)
qed

text \<open>The queues a connection's frames live in: its own and the pools their nodes return to.\<close>

definition flushable :: "nat set \<Rightarrow> 's wps_mac \<Rightarrow> nat \<Rightarrow> bool" where
  "flushable qs m a \<longleftrightarrow> (let h = mac_heap m; c = mac_conns m a; q = conn_xlayer_queue c; ns = xq_items h q in
     xheap_wf qs h \<and> q \<in> qs \<and> \<not> free_xlayer_queue_type (xqueues h q) \<and> \<not> certification_mode_enabled c \<and>
     (\<forall>n\<in>set ns. home_xlayer_queue (xnodes h n) \<in> qs - {q}) \<and>
     (\<forall>r\<in>qs - {q}. length (xq_items h r) + length [n\<leftarrow>ns. home_xlayer_queue (xnodes h n) = r] \<le> xq_cap h r))"

lemma flushable_distinct: "flushable qs m a \<Longrightarrow> distinct (conn_frames_at m a)"
  by (simp add: flushable_def Let_def conn_frames_at_def xheap_wf_def xq_wf_def)

lemma flushable_retry:
  fixes m :: "'s wps_mac" and n f sa
  assumes "flushable qs m a"
  defines "m1 \<equiv> upd_saw (Some a) (\<lambda>_. sa) (upd_xlayer_frame (Some (XL_NODE n)) f m)"
  shows "flushable qs m1 a" "conn_frames_at m1 a = conn_frames_at m a"
    "sa = conn_saw_arq (mac_conns m a) \<Longrightarrow> drop_key (mac_conns m1 a) = drop_key (mac_conns m a)"
    "b \<noteq> n \<Longrightarrow> node_frame m1 b = node_frame m b"
    "xq_items (mac_heap m1) r = xq_items (mac_heap m) r" "returns_to (mac_heap m1) r b = returns_to (mac_heap m) r b"
proof -
  have h: "mac_heap m1 = upd_node n (\<lambda>x. x\<lparr>xn_xlayer := (\<lambda>x. x\<lparr>xl_frame := f (xl_frame x)\<rparr>) (xn_xlayer x)\<rparr>) (mac_heap m)"
    by (simp add: m1_def upd_saw_def upd_conn_def upd_xlayer_frame_def upd_xlayer_def)
  have c: "mac_conns m1 a = (mac_conns m a)\<lparr>conn_saw_arq := sa\<rparr>"
    by (simp add: m1_def upd_saw_def upd_conn_def upd_xlayer_frame_def upd_xlayer_def)
  note u = upd_xlayer_queues [where n = n and f = "\<lambda>x. x\<lparr>xl_frame := f (xl_frame x)\<rparr>" and h = "mac_heap m", folded h]
  have q: "conn_xlayer_queue (mac_conns m1 a) = conn_xlayer_queue (mac_conns m a)"
    "certification_mode_enabled (mac_conns m1 a) = certification_mode_enabled (mac_conns m a)" by (simp_all add: c)
  show "flushable qs m1 a" using assms(1) unfolding flushable_def Let_def q u .
  show "conn_frames_at m1 a = conn_frames_at m a" by (simp add: conn_frames_at_def q u)
  show "sa = conn_saw_arq (mac_conns m a) \<Longrightarrow> drop_key (mac_conns m1 a) = drop_key (mac_conns m a)"
    by (simp add: c drop_key_def)
  show "b \<noteq> n \<Longrightarrow> node_frame m1 b = node_frame m b" by (simp add: node_frame_def xlayer_at_def u(7))
  show "xq_items (mac_heap m1) r = xq_items (mac_heap m) r" by (rule u)
  show "returns_to (mac_heap m1) r b = returns_to (mac_heap m) r b" by (simp add: returns_to_def u)
qed

lemma free_keeps_frame: "xn_xlayer (xnodes (xlayer_queue_free_node (Some a) h) b) = xn_xlayer (xnodes h b)"
proof (cases "copy_count (xnodes h a) = 1")
  case True
  let ?q = "home_xlayer_queue (xnodes h a)"
  have "xn_xlayer (xnodes (snd (xlayer_queue_enqueue_node ?q (Some a) h)) b) = xn_xlayer (xnodes h b)"
    by (auto simp: xlayer_queue_enqueue_node_def upd_node_def upd_queue_def Let_def split: option.split)
  then show ?thesis using True by (simp add: xlayer_queue_free_node_def)
qed (simp add: xlayer_queue_free_node_def)

text \<open>Dropping the head leaves the rest of the queue, and the node goes home.\<close>

lemma drop_head_flushable:
  fixes m :: "'s wps_mac"
  assumes f: "flushable qs m a" and it: "conn_frames_at m a = n # ns"
  shows "flushable qs (drop_head t (Some a) m) a" "conn_frames_at (drop_head t (Some a) m) a = ns"
    "drop_key (mac_conns (drop_head t (Some a) m) a) = drop_key (mac_conns m a)"
    "node_frame (drop_head t (Some a) m) b = node_frame m b"
    "r \<in> qs - {conn_xlayer_queue (mac_conns m a)} \<Longrightarrow> xq_items (mac_heap (drop_head t (Some a) m)) r =
       xq_items (mac_heap m) r @ (if returns_to (mac_heap m) r n then [n] else [])"
    "b \<in> set ns \<Longrightarrow> returns_to (mac_heap (drop_head t (Some a) m)) r b = returns_to (mac_heap m) r b"
proof -
  let ?h = "mac_heap m" and ?c = "mac_conns m a" and ?m' = "drop_head t (Some a) m"
  let ?q = "conn_xlayer_queue (mac_conns m a)"
  have i: "xheap_wf qs ?h" "?q \<in> qs" "\<not> free_xlayer_queue_type (xqueues ?h ?q)" "\<not> certification_mode_enabled ?c"
    "xq_items ?h ?q = n # ns"
    "\<forall>x\<in>set (n # ns). home_xlayer_queue (xnodes ?h x) \<in> qs - {?q}"
    "\<forall>r\<in>qs - {?q}. length (xq_items ?h r) + length [x\<leftarrow>n # ns. home_xlayer_queue (xnodes ?h x) = r] \<le> xq_cap ?h r"
    using f it unfolding flushable_def Let_def conn_frames_at_def by simp_all
  have wq: "xq_wf ?h ?q" using i(1,2) by (simp add: xheap_wf_def)
  then have dis: "distinct (n # ns)" using i(5) by (simp add: xq_wf_def)
  obtain x h1 where d: "xlayer_queue_dequeue_node ?q ?h = (x, h1)" by fastforce
  note dq = xheap_dequeue [OF i(1,2,5) d]
  have ft1: "free_xlayer_queue_type (xqueues h1 ?q) = free_xlayer_queue_type (xqueues ?h ?q)"
    by (rule dequeue_Cons(7) [OF wq i(5) d])
  let ?home = "home_xlayer_queue (xnodes ?h n)"
  have home: "?home \<in> qs - {?q}" using i(6) by simp
  have hh: "home_xlayer_queue (xnodes h1 n) = ?home" by (simp add: dq(4))
  have "length (xq_items h1 ?home) < xq_cap h1 ?home"
    using i(7) [rule_format, OF home] dq(5,6) home by simp
  then have room: "length (xq_items h1 (home_xlayer_queue (xnodes h1 n))) < xq_cap h1 (home_xlayer_queue (xnodes h1 n))"
    by (simp add: hh)
  have hq: "home_xlayer_queue (xnodes h1 n) \<in> qs" using home hh by simp
  note fr = free_node_effect [OF dq(1,7) hq room]
  have d': "xlayer_queue_dequeue_node ?q ?h = (Some n, h1)" using d dq(2) by simp
  note e = drop_head_effect [OF d' i(4), where t = t]
  note k = drop_keyD [OF e(2)]
  show "drop_key (mac_conns ?m' a) = drop_key ?c" by (rule e(2))
  have ret: "returns_to h1 r b = returns_to ?h r b" for r b by (simp add: returns_to_def dq(4))
  have items: "xq_items (mac_heap ?m') r = xq_items ?h r @ (if returns_to ?h r n then [n] else [])"
    if "r \<in> qs - {?q}" for r
    using fr(2) [of r] dq(5) that by (simp add: e(1) ret)
  have own: "xq_items (mac_heap ?m') ?q = ns"
    using fr(2) [of ?q] i(2) dq(3) home hh by (auto simp: e(1) returns_to_def)
  have keep: "home_xlayer_queue (xnodes (mac_heap ?m') b) = home_xlayer_queue (xnodes ?h b)"
    "b \<noteq> n \<Longrightarrow> copy_count (xnodes (mac_heap ?m') b) = copy_count (xnodes ?h b)" for b
    using fr(4,5) [of b] by (simp_all add: e(1) dq(4))
  show "conn_frames_at ?m' a = ns" using own k by (simp add: conn_frames_at_def)
  show "node_frame ?m' b = node_frame m b"
    by (simp add: node_frame_def xlayer_at_def e(1) free_keeps_frame dq(4))
  show "r \<in> qs - {?q} \<Longrightarrow> xq_items (mac_heap ?m') r = xq_items ?h r @ (if returns_to ?h r n then [n] else [])"
    by (rule items)
  show "b \<in> set ns \<Longrightarrow> returns_to (mac_heap ?m') r b = returns_to ?h r b"
  proof -
    assume "b \<in> set ns"
    then have "b \<noteq> n" using dis by auto
    then show ?thesis using keep [of b] by (simp add: returns_to_def)
  qed
  have cap: "xq_cap (mac_heap ?m') r = xq_cap ?h r" for r using fr(3) dq(6) by (simp add: e(1))
  have ft: "\<not> free_xlayer_queue_type (xqueues (mac_heap ?m') ?q)"
  proof (cases "copy_count (xnodes h1 n) = 1")
    case True
    obtain ok g where g: "xlayer_queue_enqueue_node (home_xlayer_queue (xnodes h1 n)) (Some n) h1 = (ok, g)" by fastforce
    have "mac_heap ?m' = g" using True g by (simp add: e(1) xlayer_queue_free_node_def)
    then show ?thesis using xheap_enqueue(4) [OF dq(1) hq dq(7) room g] ft1 i(3) by simp
  next
    case False
    then show ?thesis using free_node_shared(2) [OF False] ft1 i(3) by (simp add: e(1))
  qed
  have "length (xq_items (mac_heap ?m') r) + length [x\<leftarrow>ns. home_xlayer_queue (xnodes (mac_heap ?m') x) = r] \<le> xq_cap (mac_heap ?m') r"
    if r: "r \<in> qs - {?q}" for r
    using i(7) [rule_format, OF r] items [OF r] by (auto simp: keep(1) cap returns_to_def split: if_splits)
  then show "flushable qs ?m' a"
    using fr(1) i(2,4,6) ft own k keep(1) by (simp add: flushable_def Let_def e(1))
qed

section \<open>The loop\<close>

definition queue_of :: "'s wps_mac \<Rightarrow> nat \<Rightarrow> nat" where
  "queue_of m a = conn_xlayer_queue (mac_conns m a)"

lemma takeWhile_cong_set: "(\<And>x. x \<in> set xs \<Longrightarrow> P x = Q x) \<Longrightarrow> takeWhile P xs = takeWhile Q xs \<and> dropWhile P xs = dropWhile Q xs"
  by (induction xs) simp_all

lemma flush_timeout_spec:
  fixes m :: "'s wps_mac"
  assumes "flushable qs m a" "saw_enable (conn_saw_arq (mac_conns m a))"
  defines "late \<equiv> \<lambda>n. frame_timed_out (mac_conns m a) (node_frame m n)"
  shows "\<exists>m'. flush_timeout_frames_before_sending t (Some a) m = Some m' \<and>
    conn_frames_at m' a = dropWhile late (conn_frames_at m a) \<and> flushable qs m' a \<and>
    (\<forall>r\<in>qs - {queue_of m a}. xq_items (mac_heap m') r =
       xq_items (mac_heap m) r @ filter (returns_to (mac_heap m) r) (takeWhile late (conn_frames_at m a)))"
  unfolding late_def using assms(1,2)
proof (induction "conn_frames_at m a" arbitrary: m)
  case Nil
  then have "xlayer_queue_get_node (conn_xlayer_queue (mac_conns m a)) (mac_heap m) = None"
    using get_node_items [of "mac_heap m" "conn_xlayer_queue (mac_conns m a)"]
    by (simp add: flushable_def Let_def conn_frames_at_def xheap_wf_def)
  then have "flush_timeout_frames_before_sending t (Some a) m = Some m"
    by (subst flush_timeout_frames_before_sending.simps) (simp add: conn_at_def)
  then show ?case using Nil by (intro exI [of _ m]) (simp flip: Nil.hyps(1))
next
  case (Cons n ns)
  let ?c = "mac_conns m a" and ?f = "node_frame m n"
  have get: "xlayer_queue_get_node (conn_xlayer_queue ?c) (mac_heap m) = Some n"
    using get_node_items [of "mac_heap m" "conn_xlayer_queue ?c"] Cons.prems(1) Cons.hyps(2)
    by (simp add: flushable_def Let_def conn_frames_at_def xheap_wf_def split: list.splits)
  let ?upd = "\<lambda>s. upd_saw (Some a) (\<lambda>_. s) (upd_xlayer_frame (Some (XL_NODE n)) (\<lambda>f. f\<lparr>retry_count := retry_count f + 1\<rparr>) m)"
  obtain s where to: "link_saw_arq_is_frame_timeout (conn_saw_arq ?c) (time_stamp ?f) (retry_count ?f) (conn_tick ?c)
      = (frame_timed_out ?c ?f, s)"
    using that [of "snd (link_saw_arq_is_frame_timeout (conn_saw_arq ?c) (time_stamp ?f) (retry_count ?f) (conn_tick ?c))"]
    by (simp add: frame_timed_out_def)
  have step: "flush_timeout_frames_before_sending t (Some a) m =
      (if frame_timed_out ?c ?f then flush_timeout_frames_before_sending t (Some a) (drop_head t (Some a) (?upd s)) else Some (?upd s))"
    using get to by (subst flush_timeout_frames_before_sending.simps) (simp add: conn_at_def node_frame_def Let_def)
  show ?case
  proof (cases "frame_timed_out ?c ?f")
    case True
    then have s: "s = conn_saw_arq ?c" using to Cons.prems(2) by (auto simp: link_saw_arq_is_frame_timeout_def Let_def)
    let ?m1 = "?upd (conn_saw_arq ?c)" and ?m2 = "drop_head t (Some a) (?upd (conn_saw_arq ?c))"
    note u = flushable_retry [OF Cons.prems(1), where n = n and f = "\<lambda>f. f\<lparr>retry_count := retry_count f + 1\<rparr>"
        and sa = "conn_saw_arq ?c"]
    have it1: "conn_frames_at ?m1 a = n # ns" using u(2) Cons.hyps(2) by simp
    note d = drop_head_flushable [OF u(1) it1, where t = t]
    note k = drop_keyD [OF u(3) [OF refl]] and k2 = drop_keyD [OF d(3)]
    have dis: "n \<notin> set ns"
      using flushable_distinct [OF Cons.prems(1)] by (simp flip: Cons.hyps(2))
    have late: "frame_timed_out (mac_conns ?m2 a) (node_frame ?m2 b) = frame_timed_out ?c (node_frame m b)" if "b \<in> set ns" for b
    proof -
      have "b \<noteq> n" using that dis by auto
      then show ?thesis using u(4) [of b] d(4) [of b] k k2 by simp
    qed
    have q: "queue_of ?m2 a = queue_of m a" using k k2 by (simp add: queue_of_def)
    obtain m' where m': "flush_timeout_frames_before_sending t (Some a) ?m2 = Some m'" "flushable qs m' a"
      "conn_frames_at m' a = dropWhile (\<lambda>n. frame_timed_out (mac_conns ?m2 a) (node_frame ?m2 n)) ns"
      "\<forall>r\<in>qs - {queue_of m a}. xq_items (mac_heap m') r = xq_items (mac_heap ?m2) r @
         filter (returns_to (mac_heap ?m2) r) (takeWhile (\<lambda>n. frame_timed_out (mac_conns ?m2 a) (node_frame ?m2 n)) ns)"
      using Cons.hyps(1) [of ?m2] d(1,2) k k2 Cons.prems(2) q by auto
    note w = takeWhile_cong_set [of ns, OF late]
    have pools: "xq_items (mac_heap m') r = xq_items (mac_heap m) r @ filter (returns_to (mac_heap m) r)
        (takeWhile (\<lambda>n. frame_timed_out ?c (node_frame m n)) (n # ns))" if r: "r \<in> qs - {queue_of m a}" for r
    proof -
      have "filter (returns_to (mac_heap ?m2) r) (takeWhile (\<lambda>n. frame_timed_out ?c (node_frame m n)) ns) =
          filter (returns_to (mac_heap m) r) (takeWhile (\<lambda>n. frame_timed_out ?c (node_frame m n)) ns)"
        using d(6) [of _ r] u(6) [of r] by (intro filter_cong refl) (auto dest: set_takeWhileD)
      moreover have "xq_items (mac_heap ?m2) r = xq_items (mac_heap m) r @ (if returns_to (mac_heap m) r n then [n] else [])"
        using d(5) [of r] u(5) [of r] u(6) [of r n] r k by (simp add: queue_of_def)
      ultimately show ?thesis using m'(4) r w True by auto
    qed
    show ?thesis using step s m' pools w True by (intro exI [of _ m']) (simp flip: Cons.hyps(2))
  next
    case False
    note u = flushable_retry [OF Cons.prems(1), where n = n and f = "\<lambda>f. f\<lparr>retry_count := retry_count f + 1\<rparr>" and sa = s]
    show ?thesis using step u False by (intro exI [of _ "?upd s"]) (simp flip: Cons.hyps(2))
  qed
qed

text \<open>
  C8. Timed-out frames leave the queue, and only they. On a connection with stop-and-wait whose queue and
  pools are well formed, \<open>flush_timeout_frames_before_sending\<close> returns; the queue is then what follows
  the longest prefix of timed-out frames, and every pool has received exactly the nodes of that
  prefix that belong to it and have no other copy, in order.
\<close>

theorem wps_mac_flush_timed_out:
  assumes "flushable qs m a" and "saw_enable (conn_saw_arq (mac_conns m a))"
  shows "\<exists>m'. flush_timeout_frames_before_sending t (Some a) m = Some m' \<and>
    conn_frames_at m' a = dropWhile (\<lambda>n. frame_timed_out (mac_conns m a) (node_frame m n)) (conn_frames_at m a) \<and>
    (\<forall>r\<in>qs - {queue_of m a}. xq_items (mac_heap m') r = xq_items (mac_heap m) r @
       filter (returns_to (mac_heap m) r) (takeWhile (\<lambda>n. frame_timed_out (mac_conns m a) (node_frame m n)) (conn_frames_at m a)))"
  using flush_timeout_spec [OF assms, of t] by blast

text \<open>One frame, sent five times already, on a connection that allows three retries.\<close>

definition flush_heap_example :: xheap where
  "flush_heap_example = upd_node 1000 (upd_frame (\<lambda>f. f\<lparr>retry_count := 5\<rparr>)) (snd (xlayer_queue_enqueue_node 9 (Some 1000)
     (snd (xlayer_queue_get_free_node 7 (xlayer_queue_init_queue 9 4 ''tx'' (xlayer_queue_init_pool 8 1000 7 2 ''pool'' zero_store))))))"

definition flush_mac_example :: "unit wps_mac" where
  "flush_mac_example = undefined\<lparr>mac_heap := flush_heap_example, mac_conns := (\<lambda>_. undefined\<lparr>conn_xlayer_queue := 9,
     certification_mode_enabled := False, conn_saw_arq := undefined\<lparr>saw_enable := True, ttl_tick := 0, ttl_retries := 3\<rparr>\<rparr>)\<rparr>"

theorem wps_mac_flush_timed_out_witness:
  "\<exists>m'. flush_timeout_frames_before_sending False (Some 4) flush_mac_example = Some m' \<and>
    conn_frames_at m' 4 = [] \<and> xq_items (mac_heap m') 7 = [1008, 1000]"
proof -
  let ?h = flush_heap_example
  have i: "xq_items ?h 9 = [1000]" "xq_items ?h 7 = [1008]" by (simp_all add: flush_heap_example_def xq_eval xq_items_def)
  have "xq_wf ?h 9" "xq_wf ?h 7" unfolding xq_wf_def i by (simp_all add: flush_heap_example_def xq_eval)
  then have w: "xheap_wf {7, 9} ?h" using i by (simp add: xheap_wf_def)
  have f: "\<not> free_xlayer_queue_type (xqueues ?h 9)" "home_xlayer_queue (xnodes ?h 1000) = 7"
    "xq_cap ?h 7 = 2" "copy_count (xnodes ?h 1000) = 1" "retry_count (xl_frame (xn_xlayer (xnodes ?h 1000))) = 5"
    by (simp_all add: flush_heap_example_def xq_eval xq_cap_def)
  have s: "{7, 9} - {9 :: nat} = {7}" by auto
  have m: "mac_heap flush_mac_example = ?h" "conn_xlayer_queue (mac_conns flush_mac_example 4) = 9"
    "saw_enable (conn_saw_arq (mac_conns flush_mac_example 4))" "\<not> certification_mode_enabled (mac_conns flush_mac_example 4)"
    "ttl_tick (conn_saw_arq (mac_conns flush_mac_example 4)) = 0" "ttl_retries (conn_saw_arq (mac_conns flush_mac_example 4)) = 3"
    by (simp_all add: flush_mac_example_def)
  have fl: "flushable {7, 9} flush_mac_example 4"
    using w i f by (simp add: flushable_def m s Let_def)
  have late: "frame_timed_out (mac_conns flush_mac_example 4) (node_frame flush_mac_example 1000)"
    using f m by (simp add: frame_timed_out_def link_saw_arq_is_frame_timeout_def node_frame_def xlayer_at_def Let_def)
  have fr: "conn_frames_at flush_mac_example 4 = [1000]" "queue_of flush_mac_example 4 = 9"
    by (simp_all add: conn_frames_at_def queue_of_def m i)
  obtain m' where "flush_timeout_frames_before_sending False (Some 4) flush_mac_example = Some m'" "conn_frames_at m' 4 = []"
    "xq_items (mac_heap m') 7 = [1008] @ filter (returns_to ?h 7) [1000]"
    using wps_mac_flush_timed_out [OF fl m(3), of False] late fr i m(1) unfolding s by auto
  then show ?thesis using f by (auto simp: returns_to_def)
qed

end
