(* ===== verification/Wps_Phy.thy ===== *)
theory Wps_Phy
  imports Mac_Xlayer Cca Phy_Registers
begin

text \<open>
  The physical layer (\<open>protocol_stack/sr1100/wps_phy_common.c\<close>, \<open>single_radio/wps_phy.c\<close>) in the
  build with one radio on SPI: a state machine driven by the interrupts of the radio and of the DMA.
  A state is a C function; a list of states is run from \<open>current_state\<close> at \<open>state_step\<close>, the lists to run
  next wait in a ring of ten entries, which the code writes and reads without looking at its count.

  What goes to the radio is logged in \<open>ph_ops\<close> in order, as are the calls to the interrupt controller and
  to the gain loop. What the radio answers to a blocking read is a parameter: the answer to the \<open>n\<close>-th
  question is \<open>ph_answers n\<close>. The registers a DMA transfer brings in are fields of \<open>sr_reg\<close> that the
  environment sets before it signals completion. The frame descriptors the MAC hands over are held by value, the
  channel tables behind \<open>ph_channels\<close>, and the bytes in \<open>ph_mem\<close>. \<open>upd\<close> is the function of the MAC that
  places a received payload.

  The result is \<open>None\<close> when the code would follow a \<open>NULL\<close> pointer, leave an array, or never return.
\<close>

section \<open>Data\<close>

datatype phy_state =
    ST_PREPARE_PHY | ST_SET_CONFIG | ST_SET_HEADER | ST_SET_PAYLOAD | ST_SET_HEADER_AND_PAYLOAD
  | ST_ENABLE_RADIO_IRQ | ST_CHECK_RADIO_IRQ | ST_READ_EVENTS | ST_PROCESS_EVENT_TX | ST_PROCESS_EVENT_RX
  | ST_HANDLE_GOOD_FRAME | ST_HANDLE_GOOD_AUTO_REPLY | ST_GET_FRAME_HEADER | ST_GET_AUTO_REPLY_HEADER
  | ST_GET_PAYLOAD | ST_CLOSE_SPI | ST_PREPARE_SYNCING | ST_READ_EVENTS_SYNCING
  | ST_TRANSFER_REGISTER | ST_OVERWRITE_REGISTERS | ST_NONE | ST_END

definition prepare_phy_states :: "phy_state list" where "prepare_phy_states = [ST_PREPARE_PHY, ST_END]"
definition set_config_states :: "phy_state list" where "set_config_states = [ST_SET_CONFIG, ST_CLOSE_SPI, ST_END]"
definition set_header_states :: "phy_state list" where "set_header_states = [ST_CLOSE_SPI, ST_SET_HEADER, ST_END]"
definition set_payload_states :: "phy_state list" where "set_payload_states = [ST_SET_PAYLOAD, ST_END]"
definition set_header_with_payload_states :: "phy_state list" where
  "set_header_with_payload_states = [ST_CLOSE_SPI, ST_SET_HEADER_AND_PAYLOAD, ST_END]"
definition wait_radio_states_tx :: "phy_state list" where
  "wait_radio_states_tx = [ST_CLOSE_SPI, ST_ENABLE_RADIO_IRQ, ST_READ_EVENTS, ST_CLOSE_SPI, ST_PROCESS_EVENT_TX, ST_END]"
definition wait_radio_states_rx :: "phy_state list" where
  "wait_radio_states_rx = [ST_CLOSE_SPI, ST_ENABLE_RADIO_IRQ, ST_READ_EVENTS, ST_CLOSE_SPI, ST_PROCESS_EVENT_RX, ST_END]"
definition handle_good_frame_states :: "phy_state list" where
  "handle_good_frame_states = [ST_CLOSE_SPI, ST_HANDLE_GOOD_FRAME, ST_END]"
definition handle_good_frame_auto_states :: "phy_state list" where
  "handle_good_frame_auto_states = [ST_CLOSE_SPI, ST_HANDLE_GOOD_AUTO_REPLY, ST_END]"
definition get_frame_header_states :: "phy_state list" where
  "get_frame_header_states = [ST_CLOSE_SPI, ST_GET_FRAME_HEADER, ST_END]"
definition get_auto_reply_header_states :: "phy_state list" where
  "get_auto_reply_header_states = [ST_CLOSE_SPI, ST_GET_AUTO_REPLY_HEADER, ST_END]"
definition get_payload_states :: "phy_state list" where "get_payload_states = [ST_GET_PAYLOAD, ST_END]"
definition new_frame_states :: "phy_state list" where "new_frame_states = [ST_CLOSE_SPI, ST_END]"
definition syncing_states :: "phy_state list" where
  "syncing_states = [ST_PREPARE_SYNCING, ST_READ_EVENTS_SYNCING, ST_CLOSE_SPI, ST_PROCESS_EVENT_RX, ST_END]"
definition wait_to_send_auto_reply :: "phy_state list" where "wait_to_send_auto_reply = [ST_CHECK_RADIO_IRQ, ST_END]"
definition transfer_register_states :: "phy_state list" where "transfer_register_states = [ST_TRANSFER_REGISTER, ST_END]"
definition overwrite_register_states :: "phy_state list" where "overwrite_register_states = [ST_OVERWRITE_REGISTERS, ST_END]"
definition end_states :: "phy_state list" where "end_states = [ST_NONE]"

text \<open>The shadow registers: first those a DMA transfer sends, then those it brings in.\<close>

record sr_registers =
  sr_actions_write :: u8
  sr_rx_address :: u16
  sr_tx_address :: u16
  sr_rx_tx_size :: u16
  sr_phy_0_1 :: u16
  sr_harddisables_ioconfig :: u16
  sr_preamb_debug :: u16
  sr_cca_settings :: u16
  sr_cca_thres_gain :: u16
  sr_rf_gain_manugain :: u16
  sr_if_baseband_gain_lna :: u16
  sr_rxbandfre_cfg1freq :: u16
  sr_cfg2freq_cfg3freq :: u16
  sr_cfg_widths_txpwr_randpulse :: u16
  sr_tx_pulse_pos :: u16
  sr_slpperiod_15_0 :: u16
  sr_slpperiod_pwrupdlay :: u16
  sr_timelimit_biasdelay :: u16
  sr_timercfg_sleepcfg :: u16
  sr_irq_write :: u16
  sr_frameproc_phasedata :: u16
  sr_irq_read :: u16
  sr_actions_read :: u8
  sr_power_state :: u8
  sr_frame_size :: u8
  sr_header_size :: u8
  sr_rssi_rnsi :: u16
  sr_rxtime :: u16
  sr_cir_info :: "u8 list"

datatype radio_op =
    WRITE_REG8 u8 u8 | WRITE_REG16 u8 u16 | READ_REG8 u8 | READ_REG16 u8 | READ_IRQ_PIN | IS_TRANSFER_BUSY
  | SPI_OPEN | SPI_CLOSE | ENABLE_IRQ_LINE | DISABLE_IRQ_LINE | ENABLE_DMA_LINE | DISABLE_DMA_LINE | RADIO_CONTEXT_SWITCH
  | DMA_RADIO_CFG sr_registers | DMA_READ_EVENTS | DMA_READ_INFO | DMA_READ_CIR u8
  | DMA_WRITE "u8 list" | DMA_READ_HEADER nat u8 | DMA_READ_PAYLOAD nat u8
  | REGISTER_READ_DONE nat u16 nat | GAIN_LOOP_UPDATE "nat \<times> u8" frame_outcome u32

record sr_reg_pattern =
  rp_if_baseband_gain_lna :: u16
  rp_rxbandfre_cfg1freq :: u16
  rp_cfg2freq_cfg3freq :: u16
  rp_cfg_widths_txpwr_randpulse :: u16
  rp_tx_pulse_pos :: u16

record rf_channel =
  ch_reg_pattern :: sr_reg_pattern
  ch_pulse_count :: u8
  ch_rnsi :: u8

record write_request_info =
  wr_target_register :: u8
  wr_data :: u16
  wr_pending_request :: bool

record read_request_info =
  rr_target_register :: u8
  rr_rx_buffer :: nat
  rr_xfer_cmplt :: nat
  rr_pending_request :: bool

record wps_phy =
  ph_input :: phy_input_signal
  ph_signal_main :: phy_output_signal
  ph_signal_auto :: phy_output_signal
  ph_rssi_offset :: i8
  ph_local_address :: u16
  ph_main :: xlayer_frame
  ph_auto :: "xlayer_frame option"
  ph_config :: xlayer_cfg_internal
  ph_channels :: "channel_ref \<Rightarrow> rf_channel"
  current_state :: "phy_state list"
  next_states :: circular_queue
  next_state_pool :: "nat \<Rightarrow> phy_state list"
  overwrite_regs_queue :: circular_queue
  overwrite_regs_pool :: "nat \<Rightarrow> u8 \<times> u16"
  state_step :: u8
  pwr_status_cmd :: u8
  radio_actions :: u8
  ph_header_size :: u8
  phase_offset_bytes_to_read :: u8
  phase_offset_feature_enabled :: bool
  empty_tx :: bool
  sleep_lvl_per_ts_enabled :: bool
  wait_for_ack_tx :: bool
  write_request_info :: write_request_info
  read_request_info :: read_request_info
  sr_reg :: sr_registers
  ph_mem :: "nat \<Rightarrow> u8"
  ph_ops :: "radio_op list"
  ph_answers :: "nat \<Rightarrow> u16"
  ph_asked :: nat

definition PHY_STATE_Q_SIZE :: u32 where "PHY_STATE_Q_SIZE = 10"
definition PHY_OVERWRITE_REG_Q_SIZE :: u32 where "PHY_OVERWRITE_REG_Q_SIZE = 10"
definition HDR_SIZE_SIZE :: nat where "HDR_SIZE_SIZE = 1"
definition RX_SAVED_BYTE_COUNT :: u8 where "RX_SAVED_BYTE_COUNT = 2"
definition EXTRA_BIAS_DELAY :: u32 where "EXTRA_BIAS_DELAY = 1"
definition MAX_HEADER_SIZE :: nat where "MAX_HEADER_SIZE = 10"
definition DISABLE_CCA_THRES :: u32 where "DISABLE_CCA_THRES = 0"
definition CCA_RETRYHDR_MASK :: u8 where "CCA_RETRYHDR_MASK = 0x0f"
definition FAST_SYNC_IDLE_SLEEP_VAL :: u32 where "FAST_SYNC_IDLE_SLEEP_VAL = 0xffff"
definition FAST_SYNC_IDLE_TIMEOUT_VAL :: u16 where "FAST_SYNC_IDLE_TIMEOUT_VAL = 0xffff - 8"
definition MAX_SLP_TIME_VAL_16 :: u32 where "MAX_SLP_TIME_VAL_16 = 0xffff"
definition MAX_SLP_TIME_VAL_8 :: u32 where "MAX_SLP_TIME_VAL_8 = 0xff"

definition SET_PHASE_OFFSET_BYTES :: "isi_mitig \<Rightarrow> u8" where
  "SET_PHASE_OFFSET_BYTES i = (if isi_mitig_val i = 3 then 16 else ucast (4 * (isi_mitig_val i + 2)))"

section \<open>Talking to the radio\<close>

definition radio :: "radio_op list \<Rightarrow> wps_phy \<Rightarrow> wps_phy" where
  "radio os s = s\<lparr>ph_ops := ph_ops s @ os\<rparr>"

definition ask :: "radio_op \<Rightarrow> wps_phy \<Rightarrow> u16 \<times> wps_phy" where
  "ask q s = (ph_answers s (ph_asked s), (radio [q] s)\<lparr>ph_asked := ph_asked s + 1\<rparr>)"

text \<open>The busy loops: write \<open>os\<close>, ask \<open>q\<close>, until the answer is right.\<close>

partial_function (option) poll :: "(u16 \<Rightarrow> bool) \<Rightarrow> radio_op list \<Rightarrow> radio_op \<Rightarrow> wps_phy \<Rightarrow> (u16 \<times> wps_phy) option" where
  "poll ok os q s = (let (v, s1) = ask q (radio os s) in if ok v then Some (v, s1) else poll ok os q s1)"

definition upd_reg :: "(sr_registers \<Rightarrow> sr_registers) \<Rightarrow> wps_phy \<Rightarrow> wps_phy" where "upd_reg f s = s\<lparr>sr_reg := f (sr_reg s)\<rparr>"
definition upd_cfg :: "(xlayer_cfg_internal \<Rightarrow> xlayer_cfg_internal) \<Rightarrow> wps_phy \<Rightarrow> wps_phy" where
  "upd_cfg f s = s\<lparr>ph_config := f (ph_config s)\<rparr>"
definition upd_main :: "(xlayer_frame \<Rightarrow> xlayer_frame) \<Rightarrow> wps_phy \<Rightarrow> wps_phy" where "upd_main f s = s\<lparr>ph_main := f (ph_main s)\<rparr>"
definition upd_auto :: "(xlayer_frame \<Rightarrow> xlayer_frame) \<Rightarrow> wps_phy \<Rightarrow> wps_phy" where
  "upd_auto f s = s\<lparr>ph_auto := map_option f (ph_auto s)\<rparr>"
definition signals :: "phy_output_signal \<Rightarrow> phy_output_signal \<Rightarrow> wps_phy \<Rightarrow> wps_phy" where
  "signals m a s = s\<lparr>ph_signal_main := m, ph_signal_auto := a\<rparr>"

definition ptr_diff :: "nat \<Rightarrow> nat \<Rightarrow> u8" where "ptr_diff e b = word_of_int (int e - int b)"
definition frame_header_size :: "xlayer_frame \<Rightarrow> u8" where "frame_header_size f = ptr_diff (header_end_it f) (header_begin_it f)"
definition frame_payload_size :: "xlayer_frame \<Rightarrow> u8" where "frame_payload_size f = ptr_diff (payload_end_it f) (payload_begin_it f)"

definition enqueue_states :: "phy_state list \<Rightarrow> wps_phy \<Rightarrow> wps_phy" where
  "enqueue_states st s =
     s\<lparr>next_state_pool := (next_state_pool s)(circular_queue_get_free_slot_raw (next_states s) := st),
       next_states := circular_queue_enqueue_raw (next_states s)\<rparr>"

definition main_is_tx :: "wps_phy \<Rightarrow> bool" where
  "main_is_tx s \<longleftrightarrow> destination_address (ph_main s) \<noteq> ph_local_address s"

definition auto_is_tx :: "xlayer_frame \<Rightarrow> wps_phy \<Rightarrow> bool" where
  "auto_is_tx f s \<longleftrightarrow> destination_address f \<noteq> ph_local_address s"

section \<open>Events\<close>

definition irq_bit :: "u16 \<Rightarrow> u32 \<Rightarrow> bool" where "irq_bit irq msk \<longleftrightarrow> MASK2VAL (ucast irq) msk \<noteq> 0"

definition tx_complete :: "u16 \<Rightarrow> bool" where
  "tx_complete irq \<longleftrightarrow> (irq_bit irq BIT_TXENDI \<and> \<not> irq_bit irq BIT_RXENDI \<and> \<not> irq_bit irq BIT_TIMEOUTI) \<or> irq_bit irq BIT_TXUDRFLI"
definition tx_complete_auto_reply :: "u16 \<Rightarrow> bool" where
  "tx_complete_auto_reply irq \<longleftrightarrow> (irq_bit irq BIT_ARTXENDI \<and> \<not> irq_bit irq BIT_TIMEOUTI) \<or> irq_bit irq BIT_TXUDRFLI"
definition rx_good :: "u16 \<Rightarrow> bool" where
  "rx_good irq \<longleftrightarrow> irq_bit irq BIT_RXENDI \<and> irq_bit irq BIT_CRCPASSI \<and> (irq_bit irq BIT_ADDRMATI \<or> irq_bit irq BIT_BRDCASTI)"
definition rx_good_auto_reply :: "u16 \<Rightarrow> bool" where
  "rx_good_auto_reply irq \<longleftrightarrow> irq_bit irq BIT_ARRXENDI \<and> irq_bit irq BIT_CRCPASSI \<and> (irq_bit irq BIT_ADDRMATI \<or> irq_bit irq BIT_BRDCASTI)"
definition rx_rejected :: "u16 \<Rightarrow> bool" where
  "rx_rejected irq \<longleftrightarrow> irq_bit irq BIT_RXENDI \<and> (\<not> irq_bit irq BIT_CRCPASSI \<or> \<not> (irq_bit irq BIT_ADDRMATI \<or> irq_bit irq BIT_BRDCASTI))"
definition rx_rejected_auto_reply :: "u16 \<Rightarrow> bool" where
  "rx_rejected_auto_reply irq \<longleftrightarrow> irq_bit irq BIT_ARRXENDI \<and> (\<not> irq_bit irq BIT_CRCPASSI \<or> \<not> (irq_bit irq BIT_ADDRMATI \<or> irq_bit irq BIT_BRDCASTI))"
definition rx_lost :: "u16 \<Rightarrow> bool" where
  "rx_lost irq \<longleftrightarrow> irq_bit irq BIT_TIMEOUTI \<and> \<not> irq_bit irq BIT_RXENDI"

definition set_irq_events :: "u32 \<Rightarrow> wps_phy \<Rightarrow> wps_phy" where
  "set_irq_events e = upd_reg (\<lambda>r. r\<lparr>sr_irq_write := ucast e\<rparr>)"
definition set_events_for_tx_with_ack :: "wps_phy \<Rightarrow> wps_phy" where
  "set_events_for_tx_with_ack = set_irq_events (flag BIT_ARRXENDE OR flag BIT_TIMEOUTE OR flag BIT_CCAFAILE)"
definition set_events_for_tx_without_ack :: "wps_phy \<Rightarrow> wps_phy" where
  "set_events_for_tx_without_ack = set_irq_events (flag BIT_TXENDE OR flag BIT_CCAFAILE)"
definition set_events_for_rx_with_ack :: "wps_phy \<Rightarrow> wps_phy" where
  "set_events_for_rx_with_ack = set_irq_events (flag BIT_RXENDE OR flag BIT_TIMEOUTE)"
definition set_events_for_rx_without_ack :: "wps_phy \<Rightarrow> wps_phy" where
  "set_events_for_rx_without_ack = set_irq_events (flag BIT_RXENDE OR flag BIT_TIMEOUTE)"
definition set_events_for_wakeup_only :: "wps_phy \<Rightarrow> wps_phy" where
  "set_events_for_wakeup_only = set_irq_events (flag BIT_WAKEUPE)"
definition set_events_for_empty_tx :: "wps_phy \<Rightarrow> wps_phy" where
  "set_events_for_empty_tx s =
     (upd_reg (\<lambda>r. r\<lparr>sr_if_baseband_gain_lna := 0, sr_rxbandfre_cfg1freq := 0, sr_cfg2freq_cfg3freq := 0,
                     sr_cfg_widths_txpwr_randpulse := 0, sr_tx_pulse_pos := 0, sr_irq_write := ucast (flag BIT_TXENDE)\<rparr>) s)
     \<lparr>empty_tx := True\<rparr>"

section \<open>Preparing a frame\<close>

definition enqueue_tx_prepare_frame_states :: "u8 \<Rightarrow> u8 \<Rightarrow> bool \<Rightarrow> wps_phy \<Rightarrow> wps_phy" where
  "enqueue_tx_prepare_frame_states header_size payload_size user s =
     (if user
      then (let s1 = (if unat header_size + unat payload_size \<noteq> 0 then enqueue_states set_header_states s else s)
            in if payload_size \<noteq> 0 then enqueue_states set_payload_states s1 else s1)
      else if unat header_size + unat payload_size \<noteq> 0 then enqueue_states set_header_with_payload_states s else s)"

definition enqueue_rx_prepare_frame_states :: "wps_phy \<Rightarrow> wps_phy" where
  "enqueue_rx_prepare_frame_states = enqueue_states wait_radio_states_rx"

text \<open>The sleep configuration both directions write.\<close>

definition next_sleep_cfg :: "wps_phy \<Rightarrow> u32" where
  "next_sleep_cfg s = sleep_lvl_val (ci_next_sleep_level (ph_config s)) OR flag BIT_SLPTIMEO OR flag BIT_SLPTXEND
     OR flag BITS_SLPRXEND OR flag BIT_AUTOWAKE"

text \<open>The reply the transmitter waits for: an auto-reply, an acknowledgement, nothing. The result is the size to receive.\<close>

definition expect_reply :: "wps_phy \<Rightarrow> u8 \<times> wps_phy" where
  "expect_reply s =
     (case ph_auto s of
        Some f \<Rightarrow>
          (if unat (payload_memory_size f) + unat (header_memory_size f) = 0 then RX_SAVED_BYTE_COUNT
           else payload_memory_size f + header_memory_size f + of_nat HDR_SIZE_SIZE,
           set_events_for_tx_with_ack (upd_reg (\<lambda>r. r\<lparr>sr_phy_0_1 := ucast (flag BIT_EXPECRP0)\<rparr>) s))
      | None \<Rightarrow>
          (if ci_expect_ack (ph_config s)
           then (RX_SAVED_BYTE_COUNT, set_events_for_tx_with_ack (upd_reg (\<lambda>r. r\<lparr>sr_phy_0_1 := ucast (flag BIT_EXPECRP0)\<rparr>) s))
           else (0, set_events_for_tx_without_ack (upd_reg (\<lambda>r. r\<lparr>sr_phy_0_1 := 0\<rparr>) s))))"

text \<open>Starting the transmission, or waking up without sending when there is no header.\<close>

definition start_transmission :: "u8 \<Rightarrow> u8 \<Rightarrow> wps_phy \<Rightarrow> u8 \<times> wps_phy" where
  "start_transmission header_size rx_packet_size s =
     (let cfg = ph_config s; flush = flag BIT_FLUSHTX OR flag BIT_FLUSHRX in
      if header_size = 0 \<and> \<not> ci_certification_header_en cfg
      then (0, let s1 = upd_reg (\<lambda>r. r\<lparr>sr_cca_thres_gain := ucast (MOV2MASK DISABLE_CCA_THRES BITS_CCATHRES)\<rparr>) s
               in if ci_sleep_level cfg \<in> {SLEEP_IDLE, SLEEP_IDLE_NO_WAKEONCE}
                  then set_events_for_wakeup_only (upd_reg (\<lambda>r. r\<lparr>sr_actions_write := ucast flush\<rparr>) s1)
                  else set_events_for_empty_tx
                         (upd_reg (\<lambda>r. r\<lparr>sr_actions_write := ucast (flush OR flag BIT_STARTTX), sr_phy_0_1 := 0\<rparr>) s1))
      else (rx_packet_size,
            upd_reg (\<lambda>r. r\<lparr>sr_actions_write := ucast (flush OR flag BIT_STARTTX),
                           sr_cca_thres_gain := ucast (MOV2MASK (if ci_cca_threshold cfg = WPS_DISABLE_CCA_THRESHOLD
                                                                  then DISABLE_CCA_THRES else ucast (ci_cca_threshold cfg)) BITS_CCATHRES)\<rparr>) s))"

definition cca_register :: "xlayer_cfg_internal \<Rightarrow> u16" where
  "cca_register cfg =
     (let abort = ci_cca_fail_action cfg = CCA_FAIL_ACTION_ABORT_TX;
          first = MOV2MASK (CCAINTERV_VAL2RAW (ci_cca_retry_time cfg)) BITS_CCAINTERV
            OR MOV2MASK (if abort then ucast (ci_cca_max_try_count cfg) - 1 else ucast (ci_cca_max_try_count cfg)) BITS_MAXRETRY
            OR MOV2MASK (CCA_ON_TIME_PLL_TO_REG (ci_cca_on_time cfg)) BITS_CCAONTIME OR flag BIT_IGNORPKT
            OR MOV2MASK (if ci_cca_fail_action cfg = CCA_FAIL_ACTION_TX then 1 else 0) BIT_TXANYWAY;
          retry_time = word_of_int (convert_pll_cycle_base (uint (ci_cca_retry_time cfg)) CHIP_RATE_20_48_MHZ (ci_chip_rate cfg));
          on_time = word_of_int (convert_pll_cycle_base (uint (ci_cca_on_time cfg)) CHIP_RATE_20_48_MHZ (ci_chip_rate cfg))
      in ucast ((ucast (ucast first :: u16) AND NOT (BITS_CCAINTERV OR BITS_CCAONTIME))
            OR MOV2MASK (CCAINTERV_VAL2RAW retry_time) BITS_CCAINTERV OR MOV2MASK (CCA_ON_TIME_PLL_TO_REG on_time) BITS_CCAONTIME))"

definition prepare_radio_tx :: "wps_phy \<Rightarrow> wps_phy" where
  "prepare_radio_tx s0 =
     (let cfg = ph_config s0; f = ph_main s0;
          tx_payload_size = frame_payload_size f; header_size = frame_header_size f;
          s1 = upd_reg (\<lambda>r. r\<lparr>sr_timercfg_sleepcfg := ucast (next_sleep_cfg s0)\<rparr>) s0;
          (rx_size, s2) = expect_reply s1;
          (rx_packet_size, s3) = start_transmission header_size rx_size s2;
          tx_size = (if unat header_size + unat tx_payload_size = 0 then 0
                     else of_nat (unat header_size + unat tx_payload_size + HDR_SIZE_SIZE));
          s4 = upd_reg (\<lambda>r. r\<lparr>sr_rx_tx_size := ucast (MOV2MASK (ucast rx_packet_size) BITS_RXPKTSIZE OR MOV2MASK tx_size BITS_TXPKTSIZE),
                              sr_frameproc_phasedata := 0,
                              sr_timelimit_biasdelay := ucast (MOV2MASK (TIMEOUT_VAL2RAW (ci_rx_timeout cfg)) BITS_TIMEOUT
                                OR flag BIT_ALTRPLTO OR MOV2MASK EXTRA_BIAS_DELAY BITS_BIASDELAY),
                              sr_cca_settings := cca_register cfg,
                              sr_tx_address := destination_address f, sr_rx_address := source_address f\<rparr>) s3
      in enqueue_states wait_radio_states_tx
           (enqueue_tx_prepare_frame_states header_size tx_payload_size (user_payload f \<noteq> 0) s4))"

text \<open>
  In \<open>prepare_radio_rx\<close> the closing parenthesis of \<open>SET_TIMEOUT\<close> stands after the other two fields.
\<close>

definition prepare_radio_rx :: "wps_phy \<Rightarrow> wps_phy" where
  "prepare_radio_rx s0 =
     (let cfg = ph_config s0; main = ph_main s0; reply = flag BIT_RADIODIR OR flag BIT_RPLYTXEN;
          s1 = upd_reg (\<lambda>r. r\<lparr>sr_timercfg_sleepcfg := ucast (next_sleep_cfg s0)\<rparr>) s0;
          (tx_address, s2) =
            (case ph_auto s1 of
               Some f \<Rightarrow>
                 (let payload_size = frame_payload_size f; header_size = frame_header_size f;
                      tx_packet_size = (if unat header_size + unat payload_size = 0 then 0
                                        else header_size + payload_size + of_nat HDR_SIZE_SIZE)
                  in (destination_address f,
                      enqueue_states wait_radio_states_rx
                        (enqueue_tx_prepare_frame_states header_size payload_size (user_payload f \<noteq> 0)
                          (set_events_for_rx_with_ack
                            (upd_reg (\<lambda>r. r\<lparr>sr_frameproc_phasedata := ucast reply,
                                            sr_phy_0_1 := ucast (flag BIT_EXPECRP0 OR MOV2MASK 0 BIT_RPLYADD0),
                                            sr_rx_tx_size := ucast (MOV2MASK (ucast tx_packet_size) BITS_TXPKTSIZE)\<rparr>) s1)))))
             | None \<Rightarrow>
                 (if ci_expect_ack cfg
                  then (source_address main,
                        enqueue_rx_prepare_frame_states
                          (set_events_for_rx_with_ack
                            (upd_reg (\<lambda>r. r\<lparr>sr_frameproc_phasedata := ucast reply,
                                            sr_phy_0_1 := ucast (flag BIT_EXPECRP0 OR MOV2MASK 0 BIT_RPLYADD0),
                                            sr_rx_tx_size := ucast (MOV2MASK 0 BITS_TXPKTSIZE)\<rparr>) s1)))
                  else (source_address main,
                        enqueue_rx_prepare_frame_states
                          (set_events_for_rx_without_ack
                            (upd_reg (\<lambda>r. r\<lparr>sr_phy_0_1 := 0, sr_frameproc_phasedata := ucast (flag BIT_RADIODIR)\<rparr>) s1)))));
          rx_size = of_nat (unat (payload_memory_size main) + unat (header_memory_size main) + HDR_SIZE_SIZE)
      in upd_reg (\<lambda>r. r\<lparr>sr_tx_address := tx_address,
                        sr_rx_tx_size := sr_rx_tx_size r OR ucast (MOV2MASK rx_size BITS_RXPKTSIZE),
                        sr_timelimit_biasdelay := ucast (MOV2MASK (TIMEOUT_VAL2RAW (ci_rx_timeout cfg) OR flag BIT_ALTRPLTO
                          OR MOV2MASK EXTRA_BIAS_DELAY BITS_BIASDELAY) BITS_TIMEOUT),
                        sr_cca_thres_gain := ucast (MOV2MASK DISABLE_CCA_THRES BITS_CCATHRES),
                        sr_actions_write := ucast (flag BIT_FLUSHTX OR flag BIT_FLUSHRX),
                        sr_rx_address := ph_local_address s2\<rparr>) s2)"

definition prepare_radio :: "wps_phy \<Rightarrow> wps_phy option" where
  "prepare_radio s0 =
     (let cfg = ph_config s0; chan = ph_channels s0 (ci_channel cfg); pat = ch_reg_pattern chan in
      case sr_get_integ_gain (ch_pulse_count chan) (ci_chip_rate cfg) of
        None \<Rightarrow> None
      | Some gain \<Rightarrow>
          (let s1 = s0\<lparr>ph_signal_auto := PHY_SIGNAL_NONE, radio_actions := 0\<rparr>;
               s2 = upd_reg (\<lambda>r. r\<lparr>sr_if_baseband_gain_lna := ucast ((ucast (rp_if_baseband_gain_lna pat) AND NOT BITS_INTEGGAIN)
                                       OR MOV2MASK gain BITS_INTEGGAIN),
                                   sr_rxbandfre_cfg1freq := rp_rxbandfre_cfg1freq pat,
                                   sr_cfg2freq_cfg3freq := rp_cfg2freq_cfg3freq pat,
                                   sr_cfg_widths_txpwr_randpulse := rp_cfg_widths_txpwr_randpulse pat,
                                   sr_tx_pulse_pos := rp_tx_pulse_pos pat\<rparr>) s1;
               s3 = (if main_is_tx s2 then prepare_radio_tx s2 else prepare_radio_rx s2);
               s4 = upd_reg (\<lambda>r. r\<lparr>sr_slpperiod_15_0 := ucast (MOV2MASK (ci_sleep_time cfg) BITS_SLPPERIOD_15_0),
                                   sr_slpperiod_pwrupdlay := ucast (MOV2MASK (drop_bit 16 (ci_sleep_time cfg)) BITS_SLPPERIOD_23_16
                                       OR MOV2MASK (PWRUPDELAY_VAL2RAW (ci_power_up_delay cfg)) BITS_PWRUPDLAY),
                                   sr_rf_gain_manugain := ucast (MOV2MASK 0x7f BITS_MANUGAIN OR MOV2MASK 0 BITS_PKTRFGAIN),
                                   sr_actions_write := sr_actions_write r OR ucast (flag BIT_SLEEP),
                                   sr_phy_0_1 := sr_phy_0_1 r OR of_nat (ci_fec cfg) OR of_nat (ci_modulation cfg) OR of_nat (ci_chip_repet cfg)
                                       OR ucast (MOV2MASK (isi_mitig_val (ci_isi_mitig cfg)) BITS_ISIMITIG0)\<rparr>) s3;
               s5 = (if phase_offset_feature_enabled s4
                     then upd_cfg (\<lambda>c. c\<lparr>ci_phase_offset_count := SET_PHASE_OFFSET_BYTES (ci_isi_mitig cfg)\<rparr>)
                            (s4\<lparr>phase_offset_bytes_to_read := SET_PHASE_OFFSET_BYTES (ci_isi_mitig cfg)\<rparr>)
                     else s4)
           in Some (upd_reg (\<lambda>r. r\<lparr>sr_harddisables_ioconfig := ucast ((ucast (sr_harddisables_ioconfig r) AND NOT BITS_CHIP_RATE)
                                       OR chip_rate_val (ci_chip_rate cfg)),
                                   sr_preamb_debug := ucast ((ucast (sr_preamb_debug r) AND NOT BIT_SUMRXADC)
                                       OR SUMRXADC (ci_chip_rate cfg))\<rparr>) s5)))"

definition prepare_phy :: "wps_phy \<Rightarrow> wps_phy option" where
  "prepare_phy s =
     (if ph_input s = PHY_SIGNAL_SYNCING then Some (enqueue_states syncing_states s)
      else (let s1 = enqueue_states set_config_states s;
                s2 = (if circular_queue_size (overwrite_regs_queue s1) \<noteq> 0 then enqueue_states overwrite_register_states s1 else s1)
            in prepare_radio s2))"

section \<open>Sending the configuration and the frame\<close>

text \<open>The wait for the processor of the radio before the sleep level of a slot changes.\<close>

definition needs_proc_off :: "u16 \<Rightarrow> xlayer_cfg_internal \<Rightarrow> bool" where
  "needs_proc_off timercfg cfg \<longleftrightarrow>
     MASK2VAL (ucast timercfg) BITS_SLPDEPTH_WAKEONCE \<noteq> MASK2VAL (sleep_lvl_val SLEEP_IDLE) BITS_SLPDEPTH_WAKEONCE \<and>
     ((ci_sleep_level cfg \<noteq> SLEEP_IDLE \<and> ci_next_sleep_level cfg = SLEEP_IDLE) \<or>
      (ci_sleep_level cfg = SLEEP_SHALLOW \<and> ci_next_sleep_level cfg = SLEEP_DEEP) \<or>
      (ci_sleep_level cfg = SLEEP_DEEP \<and> ci_next_sleep_level cfg = SLEEP_SHALLOW))"

definition change_sleep_level :: "wps_phy \<Rightarrow> wps_phy option" where
  "change_sleep_level s =
     (let (timercfg, s1) = ask (READ_REG16 REG16_TIMERCFG_SLEEPCFG) s; cfg = ph_config s in
      map_option (\<lambda>s2.
          (let s3 = (if ci_sleep_level cfg = SLEEP_IDLE \<and> ci_next_sleep_level cfg \<noteq> SLEEP_IDLE
                     then upd_reg (\<lambda>r. r\<lparr>sr_timercfg_sleepcfg := sr_timercfg_sleepcfg r OR ucast (flag BIT_SYNWAKUP)\<rparr>) s2 else s2)
           in radio [WRITE_REG16 REG16_TIMERCFG_SLEEPCFG (sr_timercfg_sleepcfg (sr_reg s3))] s3))
        (if needs_proc_off timercfg cfg
         then map_option snd (poll (\<lambda>v. \<not> irq_bit v BIT_PROC_ON) [] (READ_REG8 REG8_POWER_STATE) s1) else Some s1))"

definition set_config :: "wps_phy \<Rightarrow> wps_phy option" where
  "set_config s =
     map_option (\<lambda>s1. (let s2 = s1\<lparr>ph_signal_main := PHY_SIGNAL_PREPARE_DONE\<rparr> in radio [DMA_RADIO_CFG (sr_reg s2)] s2))
       (if sleep_lvl_per_ts_enabled s then change_sleep_level s else Some s)"

text \<open>The frame a transmitting slot sends: the main one, or the auto-reply of a receiving slot.\<close>

definition sent_frame :: "wps_phy \<Rightarrow> xlayer_frame option" where
  "sent_frame s = (if main_is_tx s then Some (ph_main s) else ph_auto s)"

definition mem_bytes :: "(nat \<Rightarrow> u8) \<Rightarrow> nat \<Rightarrow> nat \<Rightarrow> u8 list" where
  "mem_bytes mem a n = map (\<lambda>i. mem (a + i)) [0..<n]"

text \<open>The header is copied behind the command byte into a buffer with room for \<open>MAX_HEADER_SIZE - 1\<close> bytes.\<close>

definition set_header :: "wps_phy \<Rightarrow> wps_phy option" where
  "set_header s0 =
     (case sent_frame s0 of
        None \<Rightarrow> None
      | Some f \<Rightarrow>
          (let hdr_len = frame_header_size f; s = radio [DISABLE_IRQ_LINE] s0 in
           if unat hdr_len > MAX_HEADER_SIZE - 1 then None
           else Some (radio [DMA_WRITE ([REG_WRITE_BURST OR REG8_FIFOS, hdr_len] @ mem_bytes (ph_mem s) (header_begin_it f) (unat hdr_len))]
                       (s\<lparr>ph_signal_main := PHY_SIGNAL_YIELD\<rparr>))))"

definition set_payload :: "wps_phy \<Rightarrow> wps_phy option" where
  "set_payload s =
     (case sent_frame s of
        None \<Rightarrow> None
      | Some f \<Rightarrow>
          (let payload_len = frame_payload_size f in
           if ph_input s \<noteq> PHY_SIGNAL_DMA_CMPLT then Some (s\<lparr>ph_signal_main := PHY_SIGNAL_ERROR\<rparr>)
           else if payload_len = 0 then Some (s\<lparr>ph_signal_main := PHY_SIGNAL_PROCESSING, ph_input := PHY_SIGNAL_DMA_CMPLT\<rparr>)
           else Some (radio [DMA_WRITE (mem_bytes (ph_mem s) (payload_begin_it f) (unat payload_len))]
                       (s\<lparr>ph_signal_main := PHY_SIGNAL_YIELD\<rparr>))))"

text \<open>
  Header and payload in one transfer: the two bytes before the header become the command and the header
  size, and the bytes that follow in memory are sent.
\<close>

definition set_header_and_payload :: "wps_phy \<Rightarrow> wps_phy option" where
  "set_header_and_payload s0 =
     (if ph_input s0 \<noteq> PHY_SIGNAL_DMA_CMPLT then Some (s0\<lparr>ph_signal_main := PHY_SIGNAL_ERROR\<rparr>)
      else case sent_frame s0 of
        None \<Rightarrow> None
      | Some f \<Rightarrow>
          (let s = (radio [DISABLE_IRQ_LINE] s0)\<lparr>ph_signal_main := PHY_SIGNAL_YIELD\<rparr>;
               spi_tx_fifo = header_begin_it f - XLAYER_QUEUE_SPI_COMM_ADDITIONAL_BYTES;
               tx_fifo_len = frame_header_size f + frame_payload_size f + of_nat XLAYER_QUEUE_SPI_COMM_ADDITIONAL_BYTES in
           if unat tx_fifo_len \<le> XLAYER_QUEUE_SPI_COMM_ADDITIONAL_BYTES
           then Some (s\<lparr>ph_signal_main := PHY_SIGNAL_PROCESSING, ph_input := PHY_SIGNAL_DMA_CMPLT\<rparr>)
           else (let mem = (ph_mem s)(spi_tx_fifo := REG_WRITE_BURST OR REG8_FIFOS, spi_tx_fifo + 1 := frame_header_size f)
                 in Some (radio [DMA_WRITE (mem_bytes mem spi_tx_fifo (unat tx_fifo_len))] (s\<lparr>ph_mem := mem\<rparr>)))))"

definition enable_radio_irq :: "wps_phy \<Rightarrow> wps_phy" where
  "enable_radio_irq s =
     (if ph_input s \<noteq> PHY_SIGNAL_DMA_CMPLT then s\<lparr>ph_signal_main := PHY_SIGNAL_ERROR\<rparr>
      else (let (pin, s1) = ask READ_IRQ_PIN (radio [ENABLE_IRQ_LINE] (s\<lparr>ph_signal_main := PHY_SIGNAL_CONFIG_COMPLETE\<rparr>))
            in if pin \<noteq> 0 then radio [RADIO_CONTEXT_SWITCH] s1 else s1))"

definition check_radio_irq :: "wps_phy \<Rightarrow> wps_phy" where
  "check_radio_irq s =
     (let (pin, s1) = ask READ_IRQ_PIN (radio [ENABLE_IRQ_LINE] s)
      in if pin = 0 then s1\<lparr>ph_signal_main := PHY_SIGNAL_YIELD\<rparr> else s1)"

section \<open>Events of the radio\<close>

definition read_events :: "wps_phy \<Rightarrow> wps_phy" where
  "read_events s =
     (if ph_input s \<noteq> PHY_SIGNAL_RADIO_IRQ then s\<lparr>ph_signal_main := PHY_SIGNAL_ERROR\<rparr>
      else radio [DMA_READ_EVENTS] (s\<lparr>ph_signal_main := PHY_SIGNAL_YIELD\<rparr>))"

definition read_events_syncing :: "wps_phy \<Rightarrow> wps_phy" where
  "read_events_syncing s =
     (if ph_input s \<noteq> PHY_SIGNAL_RADIO_IRQ then s\<lparr>ph_signal_main := PHY_SIGNAL_ERROR\<rparr>
      else radio [DMA_READ_EVENTS]
             ((radio [WRITE_REG8 REG8_ACTIONS (ucast (flag BIT_SLEEP)),
                      WRITE_REG16 REG16_TIMERCFG_SLEEPCFG (ucast (MOV2MASK 1 BITS_SLPDEPTH_WAKEONCE OR flag BIT_SLPTIMEO
                        OR flag BIT_SLPTXEND OR flag BITS_SLPRXEND OR flag BIT_AUTOWAKE))] s)\<lparr>ph_signal_main := PHY_SIGNAL_YIELD\<rparr>))"

text \<open>The received power, corrected by the signed offset of the radio and not below zero.\<close>

definition rssi_raw_of :: "i8 \<Rightarrow> u16 \<Rightarrow> u32" where
  "rssi_raw_of offset rssi_rnsi =
     (let rssi = ucast (MASK2VAL (ucast rssi_rnsi) BITS_RSSI) :: u8
      in if sint offset > uint rssi then 0 else word_of_int (uint rssi - sint offset))"

definition update_rssi :: "u16 \<Rightarrow> wps_phy \<Rightarrow> wps_phy" where
  "update_rssi v s = upd_cfg (\<lambda>c. c\<lparr>ci_rssi_raw := rssi_raw_of (ph_rssi_offset s) v,
                                   ci_rnsi_raw := ucast (ch_rnsi (ph_channels s (ci_channel c)))\<rparr>) s"

definition read_rejected_rssi :: "wps_phy \<Rightarrow> wps_phy" where
  "read_rejected_rssi s = (let (v, s1) = ask (READ_REG16 REG16_RSSI_RNSI) s
     in update_rssi v (upd_reg (\<lambda>r. r\<lparr>sr_rssi_rnsi := v\<rparr>) s1))"

definition set_outcomes :: "frame_outcome \<Rightarrow> frame_outcome \<Rightarrow> wps_phy \<Rightarrow> wps_phy" where
  "set_outcomes mo ao s = upd_auto (\<lambda>f. f\<lparr>frame_outcome := ao\<rparr>) (upd_main (\<lambda>f. f\<lparr>frame_outcome := mo\<rparr>) s)"

definition handle_cca_fail :: "wps_phy \<Rightarrow> wps_phy" where
  "handle_cca_fail s = enqueue_states prepare_phy_states
     (set_outcomes FRAME_SENT_ACK_LOST FRAME_LOST (signals PHY_SIGNAL_FRAME_SENT_NACK PHY_SIGNAL_FRAME_MISSED s))"

definition read_cir :: "phy_state list \<Rightarrow> wps_phy \<Rightarrow> wps_phy" where
  "read_cir st s = enqueue_states st
     (radio [DMA_READ_CIR (phase_offset_bytes_to_read s + of_nat EMPTY_BYTE)]
       (upd_reg (\<lambda>r. r\<lparr>sr_cir_info := replicate PHASE_OFFSET_BYTE_COUNT 0\<rparr>) (s\<lparr>ph_signal_main := PHY_SIGNAL_YIELD\<rparr>)))"

text \<open>A good frame: wait for the auto-reply to be sent where there is one, then read the sizes.\<close>

definition handle_good_frame :: "wps_phy \<Rightarrow> wps_phy" where
  "handle_good_frame s0 =
     (let s = s0\<lparr>ph_signal_main := PHY_SIGNAL_YIELD\<rparr>; irq = sr_irq_read (sr_reg s);
          s1 = (case ph_auto s of
                  None \<Rightarrow> s
                | Some f \<Rightarrow>
                    (if auto_is_tx f s \<and> \<not> irq_bit irq BIT_BRDCASTI
                     then (if \<not> tx_complete_auto_reply irq
                           then radio [WRITE_REG16 REG16_IRQ (ucast (flag BIT_ARTXENDE)), DISABLE_IRQ_LINE] (s\<lparr>wait_for_ack_tx := True\<rparr>)
                           else s\<lparr>wait_for_ack_tx := False\<rparr>)\<lparr>ph_signal_auto := PHY_SIGNAL_FRAME_SENT_NACK\<rparr>
                     else s));
          s2 = (if phase_offset_feature_enabled s1
                then upd_cfg (\<lambda>c. c\<lparr>ci_phase_offset := take (unat (phase_offset_bytes_to_read s1)) (sr_cir_info (sr_reg s1))
                        @ drop (unat (phase_offset_bytes_to_read s1)) (ci_phase_offset c)\<rparr>) s1
                else s1);
          (v, s3) = ask (READ_REG8 REG8_FIFOS) s2
      in enqueue_states get_frame_header_states
           (radio [DMA_READ_INFO] (upd_cfg (\<lambda>c. c\<lparr>ci_rx_cca_retry_count := ucast v AND CCA_RETRYHDR_MASK\<rparr>) s3)))"

definition handle_good_auto_reply :: "wps_phy \<Rightarrow> wps_phy" where
  "handle_good_auto_reply s0 =
     (let s1 = s0\<lparr>ph_signal_main := PHY_SIGNAL_YIELD\<rparr>;
          s2 = (if phase_offset_feature_enabled s1
                then upd_cfg (\<lambda>c. c\<lparr>ci_phase_offset := take (unat (phase_offset_bytes_to_read s1)) (sr_cir_info (sr_reg s1))
                        @ drop (unat (phase_offset_bytes_to_read s1)) (ci_phase_offset c)\<rparr>) s1
                else s1)
      in enqueue_states get_auto_reply_header_states (radio [DMA_READ_INFO] s2))"

definition process_event_tx :: "wps_phy \<Rightarrow> wps_phy" where
  "process_event_tx s0 =
     (if ph_input s0 \<noteq> PHY_SIGNAL_DMA_CMPLT then s0\<lparr>ph_signal_main := PHY_SIGNAL_ERROR\<rparr>
      else (let s = upd_cfg (\<lambda>c. c\<lparr>ci_cca_try_count := ucast (MASK2VAL (ucast (sr_actions_read (sr_reg s0))) BITS_TXRETRIES)\<rparr>) s0;
                irq = sr_irq_read (sr_reg s); missed = signals PHY_SIGNAL_FRAME_SENT_NACK PHY_SIGNAL_FRAME_MISSED in
            if irq_bit irq BIT_CCAFAILI then handle_cca_fail s
            else if rx_good_auto_reply irq
            then (let s1 = set_outcomes FRAME_SENT_ACK FRAME_RECEIVED s
                  in if phase_offset_feature_enabled s1 then read_cir handle_good_frame_auto_states s1 else handle_good_auto_reply s1)
            else if rx_lost irq then enqueue_states prepare_phy_states (missed (set_outcomes FRAME_SENT_ACK_LOST FRAME_LOST s))
            else if rx_rejected_auto_reply irq
            then enqueue_states prepare_phy_states (read_rejected_rssi (missed (set_outcomes FRAME_SENT_ACK_REJECTED FRAME_REJECTED s)))
            else if tx_complete irq
            then enqueue_states prepare_phy_states
                   (missed (if \<not> empty_tx s then set_outcomes FRAME_SENT_ACK_LOST FRAME_LOST s
                            else (set_outcomes FRAME_WAIT FRAME_LOST s)\<lparr>empty_tx := False\<rparr>))
            else if irq_bit irq BIT_WAKEUPI then enqueue_states prepare_phy_states (missed (set_outcomes FRAME_WAIT FRAME_LOST s))
            else s))"

text \<open>On a time-out while the receiver is still on, the code waits for the end of the frame and clears the interrupt.\<close>

definition finish_reception :: "wps_phy \<Rightarrow> wps_phy option" where
  "finish_reception s =
     (if irq_bit (ucast (sr_power_state (sr_reg s))) BIT_RX_EN
      then map_option (\<lambda>(_, s1). snd (ask (READ_REG16 REG16_IRQ) s1))
             (poll (\<lambda>v. \<not> irq_bit v BIT_INFRAME) [] (READ_REG8 REG8_POWER_STATE) (radio [DISABLE_IRQ_LINE] s))
      else Some s)"

definition process_event_rx :: "wps_phy \<Rightarrow> wps_phy option" where
  "process_event_rx s =
     (if ph_input s \<noteq> PHY_SIGNAL_DMA_CMPLT then Some (s\<lparr>ph_signal_main := PHY_SIGNAL_ERROR\<rparr>)
      else (let irq = sr_irq_read (sr_reg s);
                missed = (\<lambda>s. signals PHY_SIGNAL_FRAME_MISSED
                   (if ph_auto s \<noteq> None then PHY_SIGNAL_FRAME_NOT_SENT else PHY_SIGNAL_FRAME_SENT_NACK) s) in
            if rx_good irq
            then (let s1 = upd_auto (\<lambda>f. f\<lparr>frame_outcome := FRAME_SENT_ACK\<rparr>) s
                  in Some (if phase_offset_feature_enabled s1 then read_cir handle_good_frame_states s1 else handle_good_frame s1))
            else if rx_lost irq
            then map_option (\<lambda>s1. enqueue_states prepare_phy_states (missed (set_outcomes FRAME_LOST FRAME_SENT_ACK_LOST s1)))
                   (finish_reception s)
            else if rx_rejected irq
            then Some (enqueue_states prepare_phy_states
                   (read_rejected_rssi (missed (set_outcomes FRAME_REJECTED FRAME_SENT_ACK_REJECTED s))))
            else Some s))"

section \<open>Reading the received frame\<close>

definition get_frame_header :: "wps_phy \<Rightarrow> wps_phy" where
  "get_frame_header s0 =
     (if ph_input s0 \<noteq> PHY_SIGNAL_DMA_CMPLT then s0\<lparr>ph_signal_main := PHY_SIGNAL_ERROR\<rparr>
      else (let cfg = ph_config s0; r = sr_reg s0;
                max_size = ci_max_expected_header_size cfg + ci_max_expected_payload_size cfg + of_nat HDR_SIZE_SIZE;
                frame_size = sr_frame_size r;
                s = update_rssi (sr_rssi_rnsi r) (upd_cfg (\<lambda>c. c\<lparr>ci_rx_wait_time := sr_rxtime r\<rparr>) s0);
                invalid = (\<lambda>oc s. enqueue_states prepare_phy_states
                   (signals PHY_SIGNAL_FRAME_MISSED PHY_SIGNAL_FRAME_SENT_NACK
                     (upd_main (\<lambda>f. f\<lparr>payload_end_it := header_begin_it f, frame_outcome := oc\<rparr>) s))) in
            if frame_size = 0 \<or> max_size < frame_size then invalid FRAME_RECEIVED_DATA_SIZE_INVALID s
            else (let s1 = (upd_reg (\<lambda>r. r\<lparr>sr_frame_size := frame_size - of_nat HDR_SIZE_SIZE\<rparr>) s)\<lparr>ph_header_size := sr_header_size r\<rparr> in
                  if ci_max_expected_header_size cfg < sr_header_size r then invalid FRAME_RECEIVED_HEADER_SIZE_INVALID s1
                  else (let s2 = upd_main (\<lambda>f. f\<lparr>frame_outcome := FRAME_RECEIVED, header_begin_it := header_memory f,
                                   payload_end_it := header_memory f + unat (sr_header_size r) + EMPTY_BYTE\<rparr>)
                                 (s1\<lparr>ph_signal_main := PHY_SIGNAL_YIELD\<rparr>);
                            s3 = enqueue_states prepare_phy_states (enqueue_states get_payload_states s2)
                        in if sr_header_size r = 0
                           then s3\<lparr>ph_signal_main := PHY_SIGNAL_PROCESSING, ph_input := PHY_SIGNAL_DMA_CMPLT\<rparr>
                           else radio [DMA_READ_HEADER (header_memory (ph_main s3)) (sr_header_size r + of_nat EMPTY_BYTE)] s3))))"

text \<open>The header of an auto-reply: the header size is compared with the maximum of the main frame.\<close>

definition get_auto_reply_header :: "wps_phy \<Rightarrow> wps_phy option" where
  "get_auto_reply_header s0 =
     (if ph_input s0 \<noteq> PHY_SIGNAL_DMA_CMPLT then Some (s0\<lparr>ph_signal_main := PHY_SIGNAL_ERROR\<rparr>)
      else (let cfg = ph_config s0; r = sr_reg s0;
                max_size = ci_max_expected_auto_header_size cfg + ci_max_expected_auto_payload_size cfg + of_nat HDR_SIZE_SIZE;
                frame_size = sr_frame_size r;
                s = update_rssi (sr_rssi_rnsi r) s0 in
            if frame_size = 0 \<or> max_size < frame_size
            then Some (enqueue_states prepare_phy_states (signals PHY_SIGNAL_FRAME_SENT_ACK PHY_SIGNAL_FRAME_MISSED s))
            else (let s1 = (upd_reg (\<lambda>r. r\<lparr>sr_frame_size := frame_size - of_nat HDR_SIZE_SIZE\<rparr>) s)\<lparr>ph_header_size := sr_header_size r\<rparr> in
                  if ci_max_expected_header_size cfg < sr_header_size r
                  then Some (enqueue_states prepare_phy_states
                         (signals PHY_SIGNAL_FRAME_MISSED PHY_SIGNAL_FRAME_SENT_NACK
                           (upd_main (\<lambda>f. f\<lparr>payload_end_it := header_begin_it f\<rparr>) s1)))
                  else (case ph_auto s1 of
                          None \<Rightarrow> None
                        | Some a \<Rightarrow>
                            (let s2 = (s1\<lparr>ph_signal_main := PHY_SIGNAL_YIELD\<rparr>)
                                   \<lparr>ph_auto := Some (a\<lparr>header_begin_it := header_memory a,
                                      payload_end_it := header_memory a + unat (sr_header_size r) + EMPTY_BYTE\<rparr>)\<rparr>;
                                 s3 = enqueue_states prepare_phy_states (enqueue_states get_payload_states s2)
                             in Some (if sr_header_size r = 0
                                 then s3\<lparr>ph_signal_main := PHY_SIGNAL_PROCESSING, ph_input := PHY_SIGNAL_DMA_CMPLT\<rparr>
                                 else radio [DMA_READ_HEADER (header_memory a) (sr_header_size r + of_nat EMPTY_BYTE)] s3))))))"

type_synonym update_payload = "payload_buffer_update \<Rightarrow> xlayer_frame \<Rightarrow> u8 \<Rightarrow> xlayer_frame"

text \<open>
  The frame received into is the auto-reply of a transmitting slot and the main one of a receiving slot.
  A \<open>payload_begin_it\<close> of 0 is \<open>NULL\<close>: there was no room, and the payload stays in the radio.
\<close>

definition received_frame :: "wps_phy \<Rightarrow> xlayer_frame option" where
  "received_frame s = (if main_is_tx s then ph_auto s else Some (ph_main s))"

definition put_received :: "xlayer_frame \<Rightarrow> wps_phy \<Rightarrow> wps_phy" where
  "put_received f s = (if main_is_tx s then s\<lparr>ph_auto := Some f\<rparr> else s\<lparr>ph_main := f\<rparr>)"

definition get_payload :: "update_payload \<Rightarrow> wps_phy \<Rightarrow> wps_phy option" where
  "get_payload upd s0 =
     (if ph_input s0 \<noteq> PHY_SIGNAL_DMA_CMPLT then Some (s0\<lparr>ph_signal_main := PHY_SIGNAL_ERROR\<rparr>)
      else case received_frame s0 of
        None \<Rightarrow> None
      | Some f0 \<Rightarrow>
          (let irq = sr_irq_read (sr_reg s0); payload_size = sr_frame_size (sr_reg s0) - ph_header_size s0; tx = main_is_tx s0;
               s = (if tx then s0\<lparr>ph_signal_auto := PHY_SIGNAL_FRAME_RECEIVED\<rparr> else s0\<lparr>ph_signal_main := PHY_SIGNAL_FRAME_RECEIVED\<rparr>);
               f = upd (ci_update_payload_buffer (ph_config s)) f0 payload_size;
               s1 = (if payload_size = 0 then radio [SPI_CLOSE] (put_received f s)
                     else if payload_begin_it f \<noteq> 0
                     then enqueue_states new_frame_states
                            (put_received (f\<lparr>payload_end_it := payload_begin_it f + unat payload_size\<rparr>)
                              (radio [DMA_READ_PAYLOAD (payload_begin_it f) payload_size] s))
                     else radio [SPI_CLOSE] (put_received f s))
           in Some (case ph_auto s1 of
                None \<Rightarrow> s1
              | Some a \<Rightarrow>
                  (if auto_is_tx a s1 \<and> wait_for_ack_tx s1 \<and> \<not> irq_bit irq BIT_BRDCASTI then enqueue_states wait_to_send_auto_reply s1
                   else if main_is_tx s1 then s1\<lparr>ph_signal_main := PHY_SIGNAL_FRAME_SENT_ACK\<rparr> else s1))))"

section \<open>Registers of the application\<close>

definition reg_bits :: "u8 \<Rightarrow> bool" where "reg_bits reg \<longleftrightarrow> REG_IS_16_BITS (reg AND NOT REG_WRITE)"

definition write_register_op :: "u8 \<Rightarrow> u8 \<Rightarrow> u16 \<Rightarrow> radio_op" where
  "write_register_op size_of reg data = (if reg_bits size_of then WRITE_REG16 reg data else WRITE_REG8 reg (ucast data))"

definition wait_transfer :: "wps_phy \<Rightarrow> wps_phy option" where
  "wait_transfer s = map_option (\<lambda>(_, s1). radio [SPI_CLOSE] s1) (poll (\<lambda>v. v = 0) [] IS_TRANSFER_BUSY s)"

definition finish_read_request :: "u16 \<Rightarrow> wps_phy \<Rightarrow> wps_phy" where
  "finish_read_request v s =
     (let rr = read_request_info s
      in (radio [REGISTER_READ_DONE (rr_rx_buffer rr) v (rr_xfer_cmplt rr)] s)\<lparr>read_request_info := rr\<lparr>rr_pending_request := False\<rparr>\<rparr>)"

definition transfer_register :: "wps_phy \<Rightarrow> wps_phy option" where
  "transfer_register s =
     (let wr = write_request_info s; rr = read_request_info s; reg = rr_target_register rr in
      if wr_pending_request wr
      then map_option (\<lambda>s1. (radio [write_register_op (wr_target_register wr) (wr_target_register wr) (wr_data wr)] s1)
                  \<lparr>write_request_info := wr\<lparr>wr_pending_request := False\<rparr>\<rparr>) (wait_transfer s)
      else if rr_pending_request rr
      then (if reg = REG8_FIFOS then Some (finish_read_request 0 s)
            else map_option (\<lambda>s1. (let (v, s2) = ask (if reg_bits reg then READ_REG16 reg else READ_REG8 reg) s1
                     in finish_read_request (if reg_bits reg then v else ucast (ucast v :: u8)) s2)) (wait_transfer s))
      else Some s)"

definition overwrite_queue_get_next :: "circular_queue \<Rightarrow> nat \<Rightarrow> nat" where
  "overwrite_queue_get_next q it = (let it1 = it + unat (item_size q) in if buffer_end q \<le> it1 then buffer_begin q else it1)"

text \<open>
  The registers to write in every slot. The address that is written is the one of the last single write
  request, not the one in the queue.
\<close>

fun overwrite_loop :: "nat \<Rightarrow> nat \<Rightarrow> wps_phy \<Rightarrow> wps_phy" where
  "overwrite_loop 0 it s = s"
| "overwrite_loop (Suc n) it s =
     (let (addr, val) = overwrite_regs_pool s it
      in overwrite_loop n (overwrite_queue_get_next (overwrite_regs_queue s) it)
           (radio [SPI_OPEN, write_register_op addr (wr_target_register (write_request_info s)) val, SPI_CLOSE] s))"

definition overwrite_registers :: "wps_phy \<Rightarrow> wps_phy" where
  "overwrite_registers s =
     overwrite_loop (unat (circular_queue_size (overwrite_regs_queue s))) (circular_queue_front_raw (overwrite_regs_queue s))
       (radio [SPI_CLOSE] s)"

text \<open>
  The loop over the queue compares with the first entry only: its pointer is set once. \<open>Some\<close> is the
  entry that was replaced; when there is none an entry is appended.
\<close>

fun overwrite_search :: "nat \<Rightarrow> u8 \<Rightarrow> u16 \<Rightarrow> nat \<Rightarrow> wps_phy \<Rightarrow> wps_phy option" where
  "overwrite_search 0 starting_reg data reg s = None"
| "overwrite_search (Suc n) starting_reg data reg s =
     (if (fst (overwrite_regs_pool s reg) AND NOT REG_WRITE) = starting_reg
      then Some (s\<lparr>overwrite_regs_pool := (overwrite_regs_pool s)(reg := (fst (overwrite_regs_pool s reg), data))\<rparr>)
      else overwrite_search n starting_reg data reg s)"

definition overwrite_queue_add_transfer :: "u8 \<Rightarrow> u16 \<Rightarrow> wps_phy \<Rightarrow> wps_phy" where
  "overwrite_queue_add_transfer starting_reg data s =
     (let q = overwrite_regs_queue s in
      case overwrite_search (unat (circular_queue_size q)) starting_reg data (circular_queue_front_raw q) s of
        Some s1 \<Rightarrow> s1
      | None \<Rightarrow> s\<lparr>overwrite_regs_pool := (overwrite_regs_pool s)(circular_queue_get_free_slot_raw q := (REG_WRITE OR starting_reg, data)),
                  overwrite_regs_queue := snd (circular_queue_enqueue q)\<rparr>)"

definition phy_write_register :: "u8 \<Rightarrow> u16 \<Rightarrow> reg_write_cfg \<Rightarrow> wps_phy \<Rightarrow> wps_phy" where
  "phy_write_register starting_reg data cfg s =
     (case cfg of
        WRITE_ONCE \<Rightarrow> enqueue_states transfer_register_states
          (s\<lparr>write_request_info := \<lparr>wr_target_register = starting_reg, wr_data = data, wr_pending_request = True\<rparr>\<rparr>)
      | WRITE_PERIODIC \<Rightarrow> overwrite_queue_add_transfer starting_reg data s)"

definition phy_clear_write_register :: "nat \<Rightarrow> wps_phy \<Rightarrow> wps_phy" where
  "phy_clear_write_register sizeof_reg s =
     s\<lparr>overwrite_regs_queue := circular_queue_init (buffer_begin (overwrite_regs_queue s)) PHY_OVERWRITE_REG_Q_SIZE (of_nat sizeof_reg)\<rparr>"

definition phy_read_register :: "u8 \<Rightarrow> nat \<Rightarrow> nat \<Rightarrow> wps_phy \<Rightarrow> wps_phy" where
  "phy_read_register target_register rx_buffer xfer_cmplt s =
     enqueue_states transfer_register_states
       (s\<lparr>read_request_info := \<lparr>rr_target_register = target_register, rr_rx_buffer = rx_buffer, rr_xfer_cmplt = xfer_cmplt,
           rr_pending_request = True\<rparr>\<rparr>)"

section \<open>Synchronisation\<close>

definition fast_sync_config_non_stop_rx :: "wps_phy \<Rightarrow> wps_phy" where
  "fast_sync_config_non_stop_rx s =
     (let up = MOV2MASK (PWRUPDELAY_VAL2RAW (ci_power_up_delay (ph_config s))) BITS_PWRUPDLAY in
      radio [WRITE_REG16 REG16_SLPPERIOD_PWRUPDLAY (ucast (up OR MOV2MASK MAX_SLP_TIME_VAL_8 BITS_SLPPERIOD_23_16)),
             WRITE_REG16 REG16_SLPPERIOD_15_0 (ucast (MOV2MASK FAST_SYNC_IDLE_SLEEP_VAL BITS_SLPPERIOD_15_0)),
             WRITE_REG16 REG16_SLPPERIOD_PWRUPDLAY (ucast (up OR MOV2MASK (drop_bit 16 FAST_SYNC_IDLE_SLEEP_VAL) BITS_SLPPERIOD_23_16)),
             WRITE_REG16 REG16_TIMELIMIT_BIASDELAY (ucast (MOV2MASK (TIMEOUT_VAL2RAW FAST_SYNC_IDLE_TIMEOUT_VAL) BITS_TIMEOUT
               OR flag BIT_ALTRPLTO OR MOV2MASK EXTRA_BIAS_DELAY BITS_BIASDELAY))] s)"

definition prepare_syncing :: "wps_phy \<Rightarrow> wps_phy option" where
  "prepare_syncing s0 =
     (let s = upd_cfg (\<lambda>c. c\<lparr>ci_sleep_level := SLEEP_IDLE\<rparr>) (s0\<lparr>ph_signal_main := PHY_SIGNAL_YIELD\<rparr>); cfg = ph_config s;
          chan = ph_channels s (ci_channel cfg); pat = ch_reg_pattern chan;
          settings = (if ci_expect_ack cfg then flag BIT_EXPECRP0 OR MOV2MASK 0 BIT_RPLYADD0 else 0);
          s1 = radio [WRITE_REG16 REG16_RX_TX_SIZEREG (ucast (MOV2MASK 0 BITS_TXPKTSIZE OR MOV2MASK MAX_FRAMESIZE BITS_RXPKTSIZE)),
                      WRITE_REG16 REG16_TXADDRESS (source_address (ph_main s)), WRITE_REG16 REG16_RXADDRESS (ph_local_address s),
                      WRITE_REG16 REG16_CCA_THRES_GAIN (ucast (MOV2MASK DISABLE_CCA_THRES BITS_CCATHRES)),
                      WRITE_REG16 REG16_FRAMEPROC_PHASEDATA (ucast (if ci_expect_ack cfg then flag BIT_RADIODIR OR flag BIT_RPLYTXEN
                        else flag BIT_RADIODIR)),
                      WRITE_REG16 REG16_PHY_0_1 (of_nat (ci_fec cfg) OR of_nat (ci_modulation cfg) OR of_nat (ci_chip_repet cfg) OR ucast settings),
                      WRITE_REG16 REG16_IRQ (ucast (flag BIT_RXENDE))] s;
          s2 = radio [WRITE_REG16 REG16_TIMERCFG_SLEEPCFG (ucast (sleep_lvl_val SLEEP_IDLE_NO_WAKEONCE OR flag BIT_SYNRXSTA)),
                      WRITE_REG8 REG8_ACTIONS (ucast (flag BIT_FLUSHTX OR flag BIT_FLUSHRX OR flag BIT_INITIMER)),
                      WRITE_REG16 REG16_RF_GAIN_MANUGAIN (ucast (MOV2MASK 0x7f BITS_MANUGAIN OR MOV2MASK 0 BITS_PKTRFGAIN))]
                 (fast_sync_config_non_stop_rx s1) in
      case sr_get_integ_gain (ch_pulse_count chan) (ci_chip_rate cfg) of
        None \<Rightarrow> None
      | Some gain \<Rightarrow>
          (let s3 = radio [WRITE_REG16 REG16_IF_BASEBAND_GAIN_LNA (ucast ((ucast (rp_if_baseband_gain_lna pat) AND NOT BITS_INTEGGAIN)
                              OR MOV2MASK gain BITS_INTEGGAIN)),
                           WRITE_REG16 REG16_RXBANDFRE_CFG1FREQ (rp_rxbandfre_cfg1freq pat),
                           WRITE_REG16 REG16_CFG2FREQ_CFG3FREQ (rp_cfg2freq_cfg3freq pat),
                           WRITE_REG16 REG16_CFG_WIDTHS_TXPWR_RANDPULSE (rp_cfg_widths_txpwr_randpulse pat),
                           WRITE_REG16 REG16_TX_PULSE_POS (rp_tx_pulse_pos pat)] s2;
               (v, s4) = ask (READ_REG16 REG16_HARDDISABLES_IOCONFIG) s3;
               (w, s5) = ask (READ_REG16 REG16_PREAMB_DEBUG)
                 (radio [WRITE_REG16 REG16_HARDDISABLES_IOCONFIG (ucast ((ucast v AND NOT BITS_CHIP_RATE) OR chip_rate_val (ci_chip_rate cfg)))] s4)
           in Some (radio [WRITE_REG16 REG16_PREAMB_DEBUG (ucast ((ucast w AND NOT BIT_SUMRXADC) OR SUMRXADC (ci_chip_rate cfg))),
                           ENABLE_IRQ_LINE] s5)))"

section \<open>The state machine\<close>

definition close_spi :: "wps_phy \<Rightarrow> wps_phy" where
  "close_spi s =
     (if ph_input s \<noteq> PHY_SIGNAL_DMA_CMPLT then s\<lparr>state_step := state_step s - 1, ph_signal_main := PHY_SIGNAL_YIELD\<rparr>
      else radio [SPI_CLOSE] s)"

text \<open>The next list of states is taken from the ring, whatever is there.\<close>

definition end_state :: "wps_phy \<Rightarrow> wps_phy" where
  "end_state s =
     s\<lparr>state_step := 0, current_state := next_state_pool s (circular_queue_front_raw (next_states s)),
       next_states := circular_queue_dequeue_raw (next_states s)\<rparr>"

fun run_state :: "update_payload \<Rightarrow> phy_state \<Rightarrow> wps_phy \<Rightarrow> wps_phy option" where
  "run_state upd ST_PREPARE_PHY s = prepare_phy s"
| "run_state upd ST_SET_CONFIG s = set_config s"
| "run_state upd ST_SET_HEADER s = set_header s"
| "run_state upd ST_SET_PAYLOAD s = set_payload s"
| "run_state upd ST_SET_HEADER_AND_PAYLOAD s = set_header_and_payload s"
| "run_state upd ST_ENABLE_RADIO_IRQ s = Some (enable_radio_irq s)"
| "run_state upd ST_CHECK_RADIO_IRQ s = Some (check_radio_irq s)"
| "run_state upd ST_READ_EVENTS s = Some (read_events s)"
| "run_state upd ST_PROCESS_EVENT_TX s = Some (process_event_tx s)"
| "run_state upd ST_PROCESS_EVENT_RX s = process_event_rx s"
| "run_state upd ST_HANDLE_GOOD_FRAME s = Some (handle_good_frame s)"
| "run_state upd ST_HANDLE_GOOD_AUTO_REPLY s = Some (handle_good_auto_reply s)"
| "run_state upd ST_GET_FRAME_HEADER s = Some (get_frame_header s)"
| "run_state upd ST_GET_AUTO_REPLY_HEADER s = get_auto_reply_header s"
| "run_state upd ST_GET_PAYLOAD s = get_payload upd s"
| "run_state upd ST_CLOSE_SPI s = Some (close_spi s)"
| "run_state upd ST_PREPARE_SYNCING s = prepare_syncing s"
| "run_state upd ST_READ_EVENTS_SYNCING s = Some (read_events_syncing s)"
| "run_state upd ST_TRANSFER_REGISTER s = transfer_register s"
| "run_state upd ST_OVERWRITE_REGISTERS s = Some (overwrite_registers s)"
| "run_state upd ST_NONE s = Some s"
| "run_state upd ST_END s = Some (end_state s)"

text \<open>The state function at \<open>state_step\<close>, with the step advanced; \<open>None\<close> behind the end of the list.\<close>

definition step_state :: "update_payload \<Rightarrow> wps_phy \<Rightarrow> wps_phy option" where
  "step_state upd s =
     (if unat (state_step s) < length (current_state s)
      then run_state upd (current_state s ! unat (state_step s)) (s\<lparr>state_step := state_step s + 1\<rparr>)
      else None)"

partial_function (option) phy_loop :: "update_payload \<Rightarrow> wps_phy \<Rightarrow> wps_phy option" where
  "phy_loop upd s =
     (case step_state upd s of
        None \<Rightarrow> None
      | Some s1 \<Rightarrow> if ph_signal_main s1 = PHY_SIGNAL_PROCESSING then phy_loop upd s1 else Some s1)"

definition phy_process :: "update_payload \<Rightarrow> wps_phy \<Rightarrow> wps_phy option" where
  "phy_process upd s =
     (case phy_loop upd (s\<lparr>ph_signal_main := PHY_SIGNAL_PROCESSING\<rparr>) of
        None \<Rightarrow> None
      | Some s1 \<Rightarrow>
          (if unat (state_step s1) < length (current_state s1)
           then Some (if current_state s1 ! unat (state_step s1) = ST_END then end_state s1 else s1)
           else None))"

definition wps_phy_end_process :: "wps_phy \<Rightarrow> wps_phy" where
  "wps_phy_end_process s =
     radio [GAIN_LOOP_UPDATE (ci_gain_loop (ph_config s)) (frame_outcome (ph_main s)) (ci_rssi_raw (ph_config s))] s"

text \<open>
  The callback of the MAC is called on the signals it handles. On \<open>PHY_SIGNAL_ERROR\<close> the code loops for ever.
\<close>

definition phy_outcomes :: "phy_output_signal set" where
  "phy_outcomes = {PHY_SIGNAL_FRAME_SENT_ACK, PHY_SIGNAL_FRAME_SENT_NACK, PHY_SIGNAL_FRAME_RECEIVED,
     PHY_SIGNAL_FRAME_MISSED, PHY_SIGNAL_FRAME_NOT_SENT}"

definition phy_handle :: "(wps_phy \<Rightarrow> wps_phy option) \<Rightarrow> wps_phy \<Rightarrow> wps_phy option" where
  "phy_handle wps_phy_callback s =
     (if ph_signal_main s \<in> {PHY_SIGNAL_CONFIG_COMPLETE, PHY_SIGNAL_CONNECT} then wps_phy_callback s
      else if ph_signal_main s \<in> phy_outcomes then wps_phy_callback (wps_phy_end_process s)
      else if ph_signal_main s = PHY_SIGNAL_ERROR then None
      else Some s)"

definition wps_phy_process :: "update_payload \<Rightarrow> (wps_phy \<Rightarrow> wps_phy option) \<Rightarrow> wps_phy \<Rightarrow> wps_phy option" where
  "wps_phy_process upd wps_phy_callback s =
     (case (if ph_signal_main s \<noteq> PHY_SIGNAL_CONNECT then phy_process upd s else Some s) of
        None \<Rightarrow> None
      | Some s1 \<Rightarrow> phy_handle wps_phy_callback s1)"

text \<open>
  The two interrupts (\<open>wps_radio_irq\<close>, \<open>wps_transfer_complete\<close>), without the signal of the MAC they store.
  While the MAC is disconnecting the first one returns at once; that state is outside this model.
\<close>

definition wps_phy_interrupt :: "update_payload \<Rightarrow> (wps_phy \<Rightarrow> wps_phy option) \<Rightarrow> phy_input_signal \<Rightarrow> wps_phy \<Rightarrow> wps_phy option" where
  "wps_phy_interrupt upd wps_phy_callback input s = wps_phy_process upd wps_phy_callback (s\<lparr>ph_input := input\<rparr>)"

section \<open>Connection\<close>

definition phy_connect :: "wps_phy \<Rightarrow> wps_phy" where
  "phy_connect s0 =
     (let s1 = radio [WRITE_REG8 REG8_ACTIONS (ucast (flag BIT_FLUSHTX OR flag BIT_FLUSHRX OR flag BIT_INITIMER OR flag BIT_SLEEP)),
                      WRITE_REG16 REG16_TIMELIMIT_BIASDELAY (ucast (MOV2MASK (TIMEOUT_VAL2RAW 0xffff) BITS_TIMEOUT OR flag BIT_ALTRPLTO
                        OR MOV2MASK EXTRA_BIAS_DELAY BITS_BIASDELAY))] s0;
          s2 = radio [ENABLE_IRQ_LINE, ENABLE_DMA_LINE] (snd (ask (READ_REG16 REG16_IRQ) s1));
          s3 = s2\<lparr>state_step := 0, current_state := prepare_phy_states,
                  next_states := circular_queue_init (buffer_begin (next_states s2)) PHY_STATE_Q_SIZE (item_size (next_states s2)),
                  ph_signal_main := PHY_SIGNAL_CONNECT\<rparr>;
          (pin, s4) = ask READ_IRQ_PIN s3
      in if pin \<noteq> 0 then radio [DISABLE_IRQ_LINE, ENABLE_IRQ_LINE] (snd (ask (READ_REG16 REG16_IRQ) s4)) else s4)"

definition wake_up :: "wps_phy \<Rightarrow> (u16 \<times> wps_phy) option" where
  "wake_up s = poll (\<lambda>v. irq_bit v BIT_AWAKE) [WRITE_REG8 REG8_ACTIONS 0] (READ_REG8 REG8_POWER_STATE) s"

definition phy_connect_single :: "wps_phy \<Rightarrow> wps_phy option" where
  "phy_connect_single s =
     map_option (\<lambda>(v, s1). radio [RADIO_CONTEXT_SWITCH] (phy_connect
         (radio [WRITE_REG16 REG16_SLPPERIOD_PWRUPDLAY (ucast (MOV2MASK MAX_SLP_TIME_VAL_8 BITS_SLPPERIOD_23_16)),
                 WRITE_REG16 REG16_SLPPERIOD_15_0 (ucast (MOV2MASK MAX_SLP_TIME_VAL_16 BITS_SLPPERIOD_15_0)),
                 WRITE_REG16 REG16_TIMERCFG_SLEEPCFG (ucast (sleep_lvl_val SLEEP_IDLE OR flag BIT_SLPTIMEO OR flag BIT_SLPTXEND
                   OR flag BITS_SLPRXEND OR flag BIT_AUTOWAKE))] (s1\<lparr>pwr_status_cmd := ucast v\<rparr>)))) (wake_up s)"

definition phy_abort_radio_events :: "wps_phy \<Rightarrow> wps_phy option" where
  "phy_abort_radio_events s =
     map_option (\<lambda>(_, s1). snd (ask (READ_REG16 REG16_IRQ)
         (radio [SPI_CLOSE, DISABLE_DMA_LINE, DISABLE_IRQ_LINE, WRITE_REG16 REG16_IRQ 0, WRITE_REG16 REG16_IRQTIME (ucast (flag BIT_DISABUFI))] s1)))
       (poll (\<lambda>v. v = 0) [] IS_TRANSFER_BUSY s)"

definition phy_disconnect :: "wps_phy \<Rightarrow> wps_phy option" where
  "phy_disconnect s =
     (case wake_up (radio [WRITE_REG16 REG16_TIMERCFG_SLEEPCFG 0] s) of
        None \<Rightarrow> None
      | Some (_, s1) \<Rightarrow>
          map_option snd (poll (\<lambda>v. (ucast v :: u8) = 0) [] (READ_REG8 REG8_POWER_STATE)
            (radio [WRITE_REG16 REG16_TIMERCFG_SLEEPCFG (ucast (sleep_lvl_val SLEEP_DEEP)), WRITE_REG8 REG8_ACTIONS (ucast (flag BIT_SLEEP))] s1)))"

definition wps_phy_disconnect :: "wps_phy \<Rightarrow> wps_phy option" where
  "wps_phy_disconnect s = (case phy_abort_radio_events s of None \<Rightarrow> None | Some s1 \<Rightarrow> phy_disconnect s1)"

definition phy_start_tx_now :: "wps_phy \<Rightarrow> wps_phy" where
  "phy_start_tx_now s =
     (let s1 = radio [WRITE_REG16 REG16_TIMERCFG_SLEEPCFG (ucast (MOV2MASK 1 BITS_SLPDEPTH_WAKEONCE OR flag BIT_SLPTIMEO
                        OR flag BIT_SLPTXEND OR flag BITS_SLPRXEND OR flag BIT_AUTOWAKE))] s;
          acts = radio_actions s1 OR ucast (flag BIT_INITIMER OR flag BIT_STARTTX)
      in radio [WRITE_REG8 REG8_ACTIONS acts] (s1\<lparr>radio_actions := acts\<rparr>))"

definition phy_set_main_xlayer :: "xlayer_frame \<Rightarrow> xlayer_cfg_internal \<Rightarrow> wps_phy \<Rightarrow> wps_phy" where
  "phy_set_main_xlayer f cfg s = s\<lparr>ph_config := cfg, ph_main := f\<rparr>"

definition phy_set_auto_xlayer :: "xlayer_frame option \<Rightarrow> wps_phy \<Rightarrow> wps_phy" where
  "phy_set_auto_xlayer f s = s\<lparr>ph_auto := f\<rparr>"

end
