(* ===== verification/Phy_Ring.thy ===== *)
theory Phy_Ring
  imports Wps_Phy
begin

text \<open>
  The ring of state lists of the physical layer. The code uses the raw operations of the queue, which look
  at no count: \<open>pending s ps\<close> says that the lists \<open>ps\<close> are in the ring, oldest first, and that there are at
  most ten of them. \<open>enqueue_states\<close> appends as long as there is room and \<open>end_state\<close> takes the oldest.
  \<open>control\<close> adds the list that is running and the step; the lemmas \<open>control_*\<close> say what each state function
  does to it, the bundle \<open>keeps\<close> that the rest of the code leaves it alone.
\<close>

definition pending :: "wps_phy \<Rightarrow> phy_state list list \<Rightarrow> bool" where
  "pending s ps \<longleftrightarrow>
     (let q = next_states s in
      capacity q = PHY_STATE_Q_SIZE \<and> 0 < unat (item_size q) \<and>
      buffer_end q = buffer_begin q + unat (capacity q) * unat (item_size q) \<and> length ps \<le> 10 \<and>
      (\<exists>d. dequeue_it q = cq_slot q d \<and> enqueue_it q = cq_slot q (d + length ps) \<and>
           (\<forall>i<length ps. next_state_pool s (cq_slot q (d + i)) = ps ! i)))"

lemma slot_next:
  assumes "capacity q = PHY_STATE_Q_SIZE" "0 < unat (item_size q)"
    and "buffer_end q = buffer_begin q + unat (capacity q) * unat (item_size q)"
  shows "(if buffer_end q \<le> cq_slot q i + unat (item_size q) then buffer_begin q else cq_slot q i + unat (item_size q))
    = cq_slot q (Suc i)"
  unfolding cq_slot_def assms(3) by (rule slot_step) (use assms in \<open>simp_all add: PHY_STATE_Q_SIZE_def\<close>)

lemma slot_cong: "buffer_begin q = buffer_begin r \<Longrightarrow> capacity q = capacity r \<Longrightarrow> item_size q = item_size r \<Longrightarrow> cq_slot q = cq_slot r"
  by (rule ext) (simp add: cq_slot_def)

lemma enqueue_raw_simps [simp]:
  "capacity (circular_queue_enqueue_raw q) = capacity q" "item_size (circular_queue_enqueue_raw q) = item_size q"
  "buffer_begin (circular_queue_enqueue_raw q) = buffer_begin q" "buffer_end (circular_queue_enqueue_raw q) = buffer_end q"
  "dequeue_it (circular_queue_enqueue_raw q) = dequeue_it q"
  by (simp_all add: circular_queue_enqueue_raw_def Let_def)

lemma dequeue_raw_simps [simp]:
  "capacity (circular_queue_dequeue_raw q) = capacity q" "item_size (circular_queue_dequeue_raw q) = item_size q"
  "buffer_begin (circular_queue_dequeue_raw q) = buffer_begin q" "buffer_end (circular_queue_dequeue_raw q) = buffer_end q"
  "enqueue_it (circular_queue_dequeue_raw q) = enqueue_it q"
  by (simp_all add: circular_queue_dequeue_raw_def Let_def)

lemma pending_enqueue:
  assumes "pending s ps" and "length ps < 10"
  shows "pending (enqueue_states st s) (ps @ [st])"
proof -
  define q where "q = next_states s"
  obtain d where q: "capacity q = PHY_STATE_Q_SIZE" "0 < unat (item_size q)"
      "buffer_end q = buffer_begin q + unat (capacity q) * unat (item_size q)"
    and d: "dequeue_it q = cq_slot q d" "enqueue_it q = cq_slot q (d + length ps)"
      "\<forall>i<length ps. next_state_pool s (cq_slot q (d + i)) = ps ! i"
    using assms(1) by (auto simp: pending_def Let_def q_def)
  have cap: "unat (capacity q) = 10" using q(1) by (simp add: PHY_STATE_Q_SIZE_def)
  have e: "enqueue_it (circular_queue_enqueue_raw q) = cq_slot q (d + length (ps @ [st]))"
    using slot_next [OF q, of "d + length ps"] d(2) by (simp add: circular_queue_enqueue_raw_def Let_def split: if_splits)
  have ne: "cq_slot q (d + i) \<noteq> cq_slot q (d + length ps)" if "i < length ps" for i
  proof
    assume "cq_slot q (d + i) = cq_slot q (d + length ps)"
    then have "(d + i) mod 10 = (d + length ps) mod 10" using q(2) by (simp add: cq_slot_def cap)
    then show False using mod_add_inj [of i 10 "length ps" d] that assms(2) by (auto simp: ac_simps)
  qed
  have "cq_slot (circular_queue_enqueue_raw q) = cq_slot q" by (rule slot_cong) simp_all
  then show ?thesis
    unfolding pending_def Let_def enqueue_states_def circular_queue_get_free_slot_raw_def
    using q e d ne assms(2)
    by (auto simp: q_def [symmetric] nth_append less_Suc_eq intro!: exI [where x = d])
qed

lemma pending_end:
  assumes "pending s (p # ps)"
  shows "pending (end_state s) ps" "current_state (end_state s) = p" "state_step (end_state s) = 0"
proof -
  define q where "q = next_states s"
  obtain d where q: "capacity q = PHY_STATE_Q_SIZE" "0 < unat (item_size q)"
      "buffer_end q = buffer_begin q + unat (capacity q) * unat (item_size q)"
    and d: "dequeue_it q = cq_slot q d" "enqueue_it q = cq_slot q (d + length (p # ps))"
      "\<forall>i<length (p # ps). next_state_pool s (cq_slot q (d + i)) = (p # ps) ! i" and l: "length (p # ps) \<le> 10"
    using assms by (auto simp: pending_def Let_def q_def)
  have e: "dequeue_it (circular_queue_dequeue_raw q) = cq_slot q (Suc d)"
    using slot_next [OF q, of d] d(1) by (simp add: circular_queue_dequeue_raw_def Let_def split: if_splits)
  have "cq_slot (circular_queue_dequeue_raw q) = cq_slot q" by (rule slot_cong) simp_all
  moreover have "next_state_pool s (cq_slot q (Suc d + i)) = ps ! i" if "i < length ps" for i
    using d(3) [rule_format, of "Suc i"] that by simp
  ultimately show "pending (end_state s) ps"
    unfolding pending_def Let_def end_state_def using q e d(2) l
    by (auto simp: q_def [symmetric] intro!: exI [where x = "Suc d"])
  show "current_state (end_state s) = p" using d(1) d(3) [rule_format, of 0]
    by (simp add: end_state_def circular_queue_front_raw_def q_def [symmetric])
  show "state_step (end_state s) = 0" by (simp add: end_state_def)
qed

lemma pending_init:
  assumes "next_states s = circular_queue_init b PHY_STATE_Q_SIZE sz" and "0 < unat sz" and "unat sz < 10 ^ 8"
  shows "pending s []"
  using assms by (simp add: pending_def circular_queue_init_def cq_slot_def PHY_STATE_Q_SIZE_def unat_word_ariths
      exI [where x = 0])

section \<open>Control\<close>

definition ctl :: "wps_phy \<Rightarrow> phy_state list \<times> u8 \<times> circular_queue \<times> (nat \<Rightarrow> phy_state list)" where
  "ctl s = (current_state s, state_step s, next_states s, next_state_pool s)"

definition control :: "wps_phy \<Rightarrow> phy_state list \<Rightarrow> u8 \<Rightarrow> phy_state list list \<Rightarrow> bool" where
  "control s cur n ps \<longleftrightarrow> current_state s = cur \<and> state_step s = n \<and> pending s ps"

lemma control_cong: "ctl s = ctl t \<Longrightarrow> control s cur n ps = control t cur n ps"
  by (simp add: ctl_def control_def pending_def)

lemma control_enqueue:
  "control s cur n ps \<Longrightarrow> length ps < 10 \<Longrightarrow> control (enqueue_states st s) cur n (ps @ [st])"
  using pending_enqueue [of s ps st] by (simp add: control_def) (simp add: enqueue_states_def)

lemma control_end: "control s cur n (p # ps) \<Longrightarrow> control (end_state s) p 0 ps"
  using pending_end [of s p ps] by (simp add: control_def)

end
