(* ===== verification/Phy_Quiet.thy ===== *)
theory Phy_Quiet
  imports Phy_Ring
begin

text \<open>
  What a state function may do besides its work. \<open>spi_run\<close> reads the log of operations as a protocol of the
  bus: a transfer of the DMA may start when the bus is idle, or, for the payload, when the burst the header began is
  open; a register is accessed only on an idle bus; the bus is released only when no transfer is in flight.
  \<open>quiet x s y t ps\<close> says that going from \<open>s\<close> to \<open>t\<close> took the bus from \<open>x\<close> to \<open>y\<close> along that
  protocol, appended the lists \<open>ps\<close> to the ring, and left the running list, the step, the addresses and the answers
  of the radio alone. The rules \<open>quiet_intros\<close> derive it along the text of a function.
\<close>

datatype spi = SPI_IDLE | SPI_BURST | SPI_BUSY

fun spi_step :: "spi \<Rightarrow> radio_op \<Rightarrow> spi option" where
  "spi_step b (WRITE_REG8 _ _) = (if b = SPI_IDLE then Some SPI_IDLE else None)"
| "spi_step b (WRITE_REG16 _ _) = (if b = SPI_IDLE then Some SPI_IDLE else None)"
| "spi_step b (READ_REG8 _) = (if b = SPI_IDLE then Some SPI_IDLE else None)"
| "spi_step b (READ_REG16 _) = (if b = SPI_IDLE then Some SPI_IDLE else None)"
| "spi_step b SPI_OPEN = (if b = SPI_IDLE then Some SPI_IDLE else None)"
| "spi_step b SPI_CLOSE = (if b = SPI_BUSY then None else Some SPI_IDLE)"
| "spi_step b (DMA_RADIO_CFG _) = (if b = SPI_IDLE then Some SPI_BUSY else None)"
| "spi_step b DMA_READ_EVENTS = (if b = SPI_IDLE then Some SPI_BUSY else None)"
| "spi_step b DMA_READ_INFO = (if b = SPI_IDLE then Some SPI_BUSY else None)"
| "spi_step b (DMA_READ_CIR _) = (if b = SPI_IDLE then Some SPI_BUSY else None)"
| "spi_step b (DMA_READ_HEADER _ _) = (if b = SPI_IDLE then Some SPI_BUSY else None)"
| "spi_step b (DMA_WRITE _) = (if b = SPI_BUSY then None else Some SPI_BUSY)"
| "spi_step b (DMA_READ_PAYLOAD _ _) = (if b = SPI_BUSY then None else Some SPI_BUSY)"
| "spi_step b _ = Some b"

fun spi_run :: "spi \<Rightarrow> radio_op list \<Rightarrow> spi option" where
  "spi_run b [] = Some b"
| "spi_run b (q # os) = (case spi_step b q of None \<Rightarrow> None | Some b1 \<Rightarrow> spi_run b1 os)"

lemma spi_run_append: "spi_run b (os @ qs) = (case spi_run b os of None \<Rightarrow> None | Some c \<Rightarrow> spi_run c qs)"
  by (induction os arbitrary: b) (simp_all split: option.split)

lemma spi_run_replicate: "spi_step b q = Some b \<Longrightarrow> spi_run b (replicate n q) = Some b"
  by (induction n) simp_all

definition quiet :: "spi \<Rightarrow> wps_phy \<Rightarrow> spi \<Rightarrow> wps_phy \<Rightarrow> phy_state list list \<Rightarrow> bool" where
  "quiet b s c t ps \<longleftrightarrow>
     current_state t = current_state s \<and> state_step t = state_step s \<and>
     (\<forall>qs. pending s qs \<longrightarrow> length qs + length ps \<le> 10 \<longrightarrow> pending t (qs @ ps)) \<and>
     (\<exists>os. ph_ops t = ph_ops s @ os \<and> spi_run b os = Some c) \<and>
     ph_answers t = ph_answers s \<and> ph_channels t = ph_channels s \<and> ph_local_address t = ph_local_address s \<and>
     destination_address (ph_main t) = destination_address (ph_main s) \<and>
     map_option destination_address (ph_auto t) = map_option destination_address (ph_auto s)"

named_theorems quiet_intros

lemma pending_cong: "next_states t = next_states s \<Longrightarrow> next_state_pool t = next_state_pool s \<Longrightarrow> pending t ps = pending s ps"
  by (simp add: pending_def)

lemma pending_log [simp]:
  "pending (s\<lparr>ph_ops := os\<rparr>) ps = pending s ps" "pending (s\<lparr>ph_ops := os, ph_asked := n\<rparr>) ps = pending s ps"
  by (rule pending_cong, simp, simp)+

lemma quiet_refl: "quiet b s b s []"
  by (simp add: quiet_def)

lemma quiet_trans:
  assumes "quiet a s b t ps" and "quiet b t c u qs"
  shows "quiet a s c u (ps @ qs)"
proof -
  obtain os1 os2 where "ph_ops t = ph_ops s @ os1" "spi_run a os1 = Some b" "ph_ops u = ph_ops t @ os2" "spi_run b os2 = Some c"
    using assms by (auto simp: quiet_def)
  then have "\<exists>os. ph_ops u = ph_ops s @ os \<and> spi_run a os = Some c" by (auto simp: spi_run_append)
  moreover have "pending u (rs @ ps @ qs)" if "pending s rs" "length rs + length (ps @ qs) \<le> 10" for rs
  proof -
    have "pending t (rs @ ps)" using that assms(1) by (simp add: quiet_def)
    then show ?thesis using that assms(2) by (simp add: quiet_def flip: append_assoc)
  qed
  ultimately show ?thesis using assms by (simp add: quiet_def)
qed

lemma quiet_same:
  assumes "quiet b s c t ps"
    and "current_state u = current_state t" "state_step u = state_step t" "next_states u = next_states t"
      "next_state_pool u = next_state_pool t" "ph_ops u = ph_ops t" "ph_answers u = ph_answers t" "ph_channels u = ph_channels t"
      "ph_local_address u = ph_local_address t" "destination_address (ph_main u) = destination_address (ph_main t)"
      "map_option destination_address (ph_auto u) = map_option destination_address (ph_auto t)"
  shows "quiet b s c u ps"
proof -
  have "pending u rs = pending t rs" for rs by (rule pending_cong) (use assms in simp_all)
  then show ?thesis using assms by (simp add: quiet_def)
qed

lemma quiet_reg [quiet_intros]: "quiet b s c t ps \<Longrightarrow> quiet b s c (upd_reg f t) ps"
  by (erule quiet_same) (simp_all add: upd_reg_def)
lemma quiet_cfg [quiet_intros]: "quiet b s c t ps \<Longrightarrow> quiet b s c (upd_cfg f t) ps"
  by (erule quiet_same) (simp_all add: upd_cfg_def)
lemma quiet_signal_main [quiet_intros]: "quiet b s c t ps \<Longrightarrow> quiet b s c (t\<lparr>ph_signal_main := x\<rparr>) ps"
  by (erule quiet_same) simp_all
lemma quiet_signal_auto [quiet_intros]: "quiet b s c t ps \<Longrightarrow> quiet b s c (t\<lparr>ph_signal_auto := x\<rparr>) ps"
  by (erule quiet_same) simp_all
lemma quiet_input [quiet_intros]: "quiet b s c t ps \<Longrightarrow> quiet b s c (t\<lparr>ph_input := x\<rparr>) ps"
  by (erule quiet_same) simp_all
lemma quiet_signals [quiet_intros]: "quiet b s c t ps \<Longrightarrow> quiet b s c (signals x y t) ps"
  unfolding signals_def by (erule quiet_same) simp_all
lemma quiet_flags [quiet_intros]:
  "quiet b s c t ps \<Longrightarrow> quiet b s c (t\<lparr>empty_tx := x\<rparr>) ps"
  "quiet b s c t ps \<Longrightarrow> quiet b s c (t\<lparr>wait_for_ack_tx := x\<rparr>) ps"
  "quiet b s c t ps \<Longrightarrow> quiet b s c (t\<lparr>ph_header_size := h\<rparr>) ps"
  "quiet b s c t ps \<Longrightarrow> quiet b s c (t\<lparr>phase_offset_bytes_to_read := h\<rparr>) ps"
  "quiet b s c t ps \<Longrightarrow> quiet b s c (t\<lparr>radio_actions := h\<rparr>) ps"
  "quiet b s c t ps \<Longrightarrow> quiet b s c (t\<lparr>ph_mem := m\<rparr>) ps"
  "quiet b s c t ps \<Longrightarrow> quiet b s c (t\<lparr>write_request_info := w\<rparr>) ps"
  "quiet b s c t ps \<Longrightarrow> quiet b s c (t\<lparr>read_request_info := r\<rparr>) ps"
  "quiet b s c t ps \<Longrightarrow> quiet b s c (t\<lparr>overwrite_regs_pool := p\<rparr>) ps"
  "quiet b s c t ps \<Longrightarrow> quiet b s c (t\<lparr>overwrite_regs_pool := p, overwrite_regs_queue := q\<rparr>) ps"
  "quiet b s c t ps \<Longrightarrow> quiet b s c (t\<lparr>ph_signal_auto := x', radio_actions := h\<rparr>) ps"
  "quiet b s c t ps \<Longrightarrow> quiet b s c (t\<lparr>ph_signal_main := x', ph_input := i\<rparr>) ps"
  by (erule quiet_same, simp_all)+
lemma quiet_main [quiet_intros]:
  "quiet b s c t ps \<Longrightarrow> (\<And>x. destination_address (f x) = destination_address x) \<Longrightarrow> quiet b s c (upd_main f t) ps"
  by (erule quiet_same) (simp_all add: upd_main_def)
lemma quiet_auto [quiet_intros]:
  "quiet b s c t ps \<Longrightarrow> (\<And>x. destination_address (f x) = destination_address x) \<Longrightarrow> quiet b s c (upd_auto f t) ps"
  by (erule quiet_same) (simp_all add: upd_auto_def option.map_comp comp_def)
lemma quiet_outcomes [quiet_intros]: "quiet b s c t ps \<Longrightarrow> quiet b s c (set_outcomes x y t) ps"
  unfolding set_outcomes_def by (intro quiet_intros) simp_all

lemma quiet_radio [quiet_intros]: "quiet b s c t ps \<Longrightarrow> spi_run c os = Some d \<Longrightarrow> quiet b s d (radio os t) ps"
  by (auto simp: quiet_def radio_def spi_run_append)

lemma quiet_ask: "quiet b s c t ps \<Longrightarrow> spi_step c q = Some c \<Longrightarrow> quiet b s c (snd (ask q t)) ps"
  by (auto simp: quiet_def ask_def radio_def spi_run_append)

lemma quiet_ask_eq: "ask q t = (v, u) \<Longrightarrow> quiet b s c t ps \<Longrightarrow> spi_step c q = Some c \<Longrightarrow> quiet b s c u ps"
  using quiet_ask [of b s c t ps q] by simp

lemma quiet_enqueue [quiet_intros]: "quiet b s c t ps \<Longrightarrow> quiet b s c (enqueue_states st t) (ps @ [st])"
proof -
  assume q: "quiet b s c t ps"
  have "quiet c t c (enqueue_states st t) [st]"
    using pending_enqueue [of t _ st] by (auto simp: quiet_def) (simp_all add: enqueue_states_def)
  then show ?thesis using quiet_trans [OF q] by simp
qed

text \<open>Polling: an answer of 0 that comes again and again ends every loop.\<close>

definition answers_again :: "wps_phy \<Rightarrow> bool" where
  "answers_again s \<longleftrightarrow> (\<forall>n. \<exists>k\<ge>n. ph_answers s k = 0)"

lemma poll_from:
  assumes "ph_answers s (ph_asked s + n) = 0" and "ok 0"
  shows "\<exists>v m. poll ok [] q s = Some (v, s\<lparr>ph_ops := ph_ops s @ replicate m q, ph_asked := ph_asked s + m\<rparr>) \<and> ok v"
  using assms(1)
proof (induction n arbitrary: s)
  case 0
  then show ?case using assms(2)
    by (auto simp: poll.simps [of ok "[]" q s] ask_def radio_def Let_def intro!: exI [where x = 1])
next
  case (Suc n)
  define t where "t = s\<lparr>ph_ops := ph_ops s @ [q], ph_asked := ph_asked s + 1\<rparr>"
  have e: "poll ok [] q s = (if ok (ph_answers s (ph_asked s)) then Some (ph_answers s (ph_asked s), t) else poll ok [] q t)"
    by (simp add: poll.simps [of ok "[]" q s] ask_def radio_def t_def)
  show ?case
  proof (cases "ok (ph_answers s (ph_asked s))")
    case True
    then show ?thesis by (auto simp: e t_def intro!: exI [where x = 1])
  next
    case False
    have "ph_answers t (ph_asked t + n) = 0" using Suc.prems by (simp add: t_def)
    from Suc.IH [OF this] obtain v m where "poll ok [] q t = Some (v, t\<lparr>ph_ops := ph_ops t @ replicate m q, ph_asked := ph_asked t + m\<rparr>)" "ok v"
      by blast
    then show ?thesis using False
      by (auto simp: e t_def intro!: exI [where x = "Suc m"])
  qed
qed

lemma poll_returns:
  assumes "answers_again s" and "ok 0"
  obtains v m where "poll ok [] q s = Some (v, s\<lparr>ph_ops := ph_ops s @ replicate m q, ph_asked := ph_asked s + m\<rparr>)" and "ok v"
proof -
  obtain k where "ph_asked s \<le> k" "ph_answers s k = 0" using assms(1) by (auto simp: answers_again_def)
  then have "ph_answers s (ph_asked s + (k - ph_asked s)) = 0" by simp
  from poll_from [OF this, of ok q] assms(2) show thesis using that by blast
qed

lemma quiet_polled:
  "quiet b s c t ps \<Longrightarrow> spi_step c q = Some c \<Longrightarrow> quiet b s c (t\<lparr>ph_ops := ph_ops t @ replicate m q, ph_asked := k\<rparr>) ps"
  by (auto simp: quiet_def spi_run_append spi_run_replicate)

lemma quiet_answers: "quiet b s c t ps \<Longrightarrow> answers_again t = answers_again s"
  by (simp add: quiet_def answers_again_def)

end
