(* ===== verification/Phy_Effects.thy ===== *)
theory Phy_Effects
  imports Phy_Quiet
begin

text \<open>
  What every state function of the physical layer does, in terms of \<open>quiet\<close>: the bus protocol it follows,
  the lists it appends to the ring, and the signal it leaves. The frames the next transfer needs are kept up to the
  point where they are sent (\<open>kept\<close>).
\<close>

lemmas prim_defs = radio_def upd_reg_def upd_cfg_def upd_main_def upd_auto_def signals_def set_outcomes_def enqueue_states_def

definition kept :: "wps_phy \<Rightarrow> wps_phy \<Rightarrow> bool" where
  "kept s t \<longleftrightarrow> ph_main t = ph_main s \<and> ph_auto t = ph_auto s \<and> ph_input t = ph_input s \<and>
     ph_signal_main t = ph_signal_main s \<and> ph_local_address t = ph_local_address s"

lemma signal_prims [simp]:
  "ph_signal_main (radio os s) = ph_signal_main s" "ph_signal_main (upd_reg f s) = ph_signal_main s"
  "ph_signal_main (upd_cfg g s) = ph_signal_main s" "ph_signal_main (upd_main h s) = ph_signal_main s"
  "ph_signal_main (upd_auto h s) = ph_signal_main s" "ph_signal_main (enqueue_states st s) = ph_signal_main s"
  "ph_signal_main (signals x y s) = x" "ph_signal_main (set_outcomes oc od s) = ph_signal_main s"
  "ph_signal_main (snd (ask q s)) = ph_signal_main s" "ph_signal_main (end_state s) = ph_signal_main s"
  by (simp_all add: prim_defs ask_def end_state_def)

lemma input_prims [simp]:
  "ph_input (radio os s) = ph_input s" "ph_input (upd_reg f s) = ph_input s" "ph_input (upd_cfg g s) = ph_input s"
  "ph_input (upd_main h s) = ph_input s" "ph_input (upd_auto h s) = ph_input s" "ph_input (enqueue_states st s) = ph_input s"
  "ph_input (signals x y s) = ph_input s" "ph_input (set_outcomes oc od s) = ph_input s"
  "ph_input (snd (ask q s)) = ph_input s" "ph_input (end_state s) = ph_input s"
  by (simp_all add: prim_defs ask_def end_state_def)

lemma kept_trans: "kept s t \<Longrightarrow> kept t u \<Longrightarrow> kept s u"
  by (simp add: kept_def)

lemma kept_prims:
  "kept s t \<Longrightarrow> kept s (upd_reg f t)" "kept s t \<Longrightarrow> kept s (upd_cfg g t)" "kept s t \<Longrightarrow> kept s (enqueue_states st t)"
  "kept s t \<Longrightarrow> kept s (t\<lparr>phase_offset_bytes_to_read := n\<rparr>)"
  by (simp_all add: kept_def prim_defs)

section \<open>Preparing\<close>

lemmas event_defs = set_irq_events_def set_events_for_tx_with_ack_def set_events_for_tx_without_ack_def
  set_events_for_rx_with_ack_def set_events_for_rx_without_ack_def set_events_for_wakeup_only_def set_events_for_empty_tx_def

lemma expect_reply_quiet: "quiet b s b (snd (expect_reply s)) []"
  by (auto simp: expect_reply_def event_defs intro!: quiet_intros quiet_refl split: option.split)

lemma expect_reply_kept: "kept s (snd (expect_reply s))"
  by (auto simp: expect_reply_def event_defs prim_defs kept_def split: option.split)

lemma start_transmission_quiet: "quiet b s c t ps \<Longrightarrow> quiet b s c (snd (start_transmission h n t)) ps"
  by (auto simp: start_transmission_def event_defs Let_def intro!: quiet_intros)

lemma start_transmission_kept: "kept s (snd (start_transmission h n s))"
  by (auto simp: start_transmission_def event_defs prim_defs kept_def Let_def)

definition header_lists :: "u8 \<Rightarrow> u8 \<Rightarrow> bool \<Rightarrow> phy_state list list" where
  "header_lists h p user =
     (if user then (if unat h + unat p \<noteq> 0 then [set_header_states] else []) @ (if p \<noteq> 0 then [set_payload_states] else [])
      else if unat h + unat p \<noteq> 0 then [set_header_with_payload_states] else [])"

lemma tx_frame_states_quiet:
  "quiet b s c t ps \<Longrightarrow> quiet b s c (enqueue_tx_prepare_frame_states h p user t) (ps @ header_lists h p user)"
  using quiet_enqueue [of b s c t ps set_header_states] quiet_enqueue [of b s c t ps set_header_with_payload_states]
    quiet_enqueue [of b s c t ps set_payload_states]
    quiet_enqueue [of b s c "enqueue_states set_header_states t" "ps @ [set_header_states]" set_payload_states]
  by (simp add: enqueue_tx_prepare_frame_states_def header_lists_def Let_def)

lemma tx_frame_states_kept: "kept s (enqueue_tx_prepare_frame_states h p user s)"
  by (simp add: enqueue_tx_prepare_frame_states_def kept_def prim_defs Let_def)

text \<open>The lists of a prepared slot, from the frame that is sent and the direction.\<close>

definition frame_lists :: "xlayer_frame \<Rightarrow> phy_state list list" where
  "frame_lists f = header_lists (frame_header_size f) (frame_payload_size f) (user_payload f \<noteq> 0)"

definition slot_lists :: "wps_phy \<Rightarrow> phy_state list list" where
  "slot_lists s = (case sent_frame s of None \<Rightarrow> [] | Some f \<Rightarrow> frame_lists f) @
     [if main_is_tx s then wait_radio_states_tx else wait_radio_states_rx]"

lemma prepare_tx_quiet:
  assumes "main_is_tx s"
  shows "quiet b s b (prepare_radio_tx s) (slot_lists s)" "kept s (prepare_radio_tx s)"
proof -
  define t where "t = snd (start_transmission (frame_header_size (ph_main s)) (fst (expect_reply (upd_reg (\<lambda>r. r\<lparr>sr_timercfg_sleepcfg := ucast (next_sleep_cfg s)\<rparr>) s)))
      (snd (expect_reply (upd_reg (\<lambda>r. r\<lparr>sr_timercfg_sleepcfg := ucast (next_sleep_cfg s)\<rparr>) s))))"
  have q: "quiet b s b t []"
    unfolding t_def by (rule start_transmission_quiet, rule quiet_trans [where ps = "[]" and qs = "[]", simplified],
      rule quiet_reg, rule quiet_refl, rule expect_reply_quiet)
  have k: "kept s t"
    unfolding t_def
    by (rule kept_trans [OF kept_trans [OF _ expect_reply_kept] start_transmission_kept]) (simp add: kept_def upd_reg_def)
  show "quiet b s b (prepare_radio_tx s) (slot_lists s)"
    using quiet_enqueue [OF tx_frame_states_quiet [OF quiet_reg [OF q]]] assms
    by (simp add: prepare_radio_tx_def Let_def split_def t_def slot_lists_def sent_frame_def frame_lists_def)
  show "kept s (prepare_radio_tx s)"
    unfolding prepare_radio_tx_def Let_def split_def t_def [symmetric]
    by (rule kept_prims, rule kept_trans [OF _ tx_frame_states_kept], rule kept_prims, rule k)
qed

lemma prepare_rx_quiet:
  assumes "\<not> main_is_tx s"
  shows "quiet b s b (prepare_radio_rx s) (slot_lists s)" "kept s (prepare_radio_rx s)"
proof -
  define s1 where "s1 = upd_reg (\<lambda>r. r\<lparr>sr_timercfg_sleepcfg := ucast (next_sleep_cfg s)\<rparr>) s"
  have q: "quiet b s b s1 []" unfolding s1_def by (intro quiet_intros quiet_refl)
  have k: "kept s s1" by (simp add: s1_def kept_def upd_reg_def)
  have a: "ph_auto s1 = ph_auto s" by (simp add: s1_def upd_reg_def)
  show "quiet b s b (prepare_radio_rx s) (slot_lists s)"
  proof (cases "ph_auto s")
    case None
    have "quiet b s b (enqueue_rx_prepare_frame_states (set_irq_events e (upd_reg f s1))) [wait_radio_states_rx]" for e f
      unfolding enqueue_rx_prepare_frame_states_def set_irq_events_def
      by (rule quiet_enqueue [where ps = "[]", simplified]) (intro quiet_intros q)
    then show ?thesis using assms None
      by (auto simp: prepare_radio_rx_def Let_def s1_def [symmetric] a slot_lists_def sent_frame_def event_defs(2-5) intro!: quiet_reg)
  next
    case (Some f)
    have "quiet b s b (enqueue_states wait_radio_states_rx (enqueue_tx_prepare_frame_states (frame_header_size f) (frame_payload_size f)
        (user_payload f \<noteq> 0) (set_irq_events e (upd_reg g s1)))) (frame_lists f @ [wait_radio_states_rx])" for e g
      unfolding set_irq_events_def frame_lists_def
      by (rule quiet_enqueue, rule tx_frame_states_quiet [where ps = "[]", simplified]) (intro quiet_intros q)
    then show ?thesis using assms Some
      by (auto simp: prepare_radio_rx_def Let_def s1_def [symmetric] a slot_lists_def sent_frame_def event_defs(4) intro!: quiet_reg)
  qed
  show "kept s (prepare_radio_rx s)"
    by (auto simp: prepare_radio_rx_def Let_def kept_def event_defs prim_defs enqueue_tx_prepare_frame_states_def
        enqueue_rx_prepare_frame_states_def split: option.split)
qed

definition prep_lists :: "wps_phy \<Rightarrow> phy_state list list" where
  "prep_lists s =
     (if ph_input s = PHY_SIGNAL_SYNCING then [syncing_states]
      else [set_config_states] @ (if circular_queue_size (overwrite_regs_queue s) \<noteq> 0 then [overwrite_register_states] else [])
        @ slot_lists s)"

definition gain_known :: "wps_phy \<Rightarrow> bool" where
  "gain_known s \<longleftrightarrow> sr_get_integ_gain (ch_pulse_count (ph_channels s (ci_channel (ph_config s)))) (ci_chip_rate (ph_config s)) \<noteq> None"

lemma prepare_radio_quiet:
  assumes "gain_known s"
  obtains t where "prepare_radio s = Some t" and "quiet b s b t (slot_lists s)" and "kept s t"
proof -
  obtain gain where g: "sr_get_integ_gain (ch_pulse_count (ph_channels s (ci_channel (ph_config s)))) (ci_chip_rate (ph_config s)) = Some gain"
    using assms by (auto simp: gain_known_def)
  define s2 where "s2 = upd_reg (\<lambda>r. r\<lparr>sr_if_baseband_gain_lna := ucast ((ucast (rp_if_baseband_gain_lna (ch_reg_pattern (ph_channels s (ci_channel (ph_config s))))) AND NOT BITS_INTEGGAIN)
                                       OR MOV2MASK gain BITS_INTEGGAIN),
                                   sr_rxbandfre_cfg1freq := rp_rxbandfre_cfg1freq (ch_reg_pattern (ph_channels s (ci_channel (ph_config s)))),
                                   sr_cfg2freq_cfg3freq := rp_cfg2freq_cfg3freq (ch_reg_pattern (ph_channels s (ci_channel (ph_config s)))),
                                   sr_cfg_widths_txpwr_randpulse := rp_cfg_widths_txpwr_randpulse (ch_reg_pattern (ph_channels s (ci_channel (ph_config s)))),
                                   sr_tx_pulse_pos := rp_tx_pulse_pos (ch_reg_pattern (ph_channels s (ci_channel (ph_config s))))\<rparr>)
      (s\<lparr>ph_signal_auto := PHY_SIGNAL_NONE, radio_actions := 0\<rparr>)"
  define s3 where "s3 = (if main_is_tx s2 then prepare_radio_tx s2 else prepare_radio_rx s2)"
  have q2: "quiet b s b s2 []" unfolding s2_def by (intro quiet_intros quiet_refl)
  have k2: "kept s s2" by (simp add: s2_def kept_def upd_reg_def)
  have "quiet b s2 b s3 (slot_lists s2)" "kept s2 s3"
    unfolding s3_def by (simp_all add: prepare_tx_quiet prepare_rx_quiet)
  moreover have "slot_lists s2 = slot_lists s"
    using k2 by (simp add: slot_lists_def sent_frame_def main_is_tx_def kept_def)
  ultimately have q3: "quiet b s b s3 (slot_lists s)" and k3: "kept s s3"
    using quiet_trans [OF q2] kept_trans [OF k2] by fastforce+
  obtain f g h where "prepare_radio s = Some (upd_reg g (if phase_offset_feature_enabled (upd_reg f s3)
        then upd_cfg h ((upd_reg f s3)\<lparr>phase_offset_bytes_to_read := SET_PHASE_OFFSET_BYTES (ci_isi_mitig (ph_config s))\<rparr>) else upd_reg f s3))"
    unfolding prepare_radio_def Let_def g option.case s2_def [symmetric] s3_def [symmetric] by blast
  then show thesis
    by (rule that) (auto intro!: quiet_intros kept_prims q3 k3)
qed

end
