(* ===== verification/Phy_Loop.thy ===== *)
theory Phy_Loop
  imports Phy_Effects
begin

text \<open>
  The loop over the state functions. \<open>at s rest ps\<close> says where the machine stands: the functions still to run in
  the current list and the lists in the ring. \<open>loops\<close> and \<open>processes\<close> say that \<open>phy_loop\<close> and \<open>phy_process\<close>
  return, along the protocol of the bus, in a state with a given property; the rules go through the lists one
  function at a time.
\<close>

definition at :: "wps_phy \<Rightarrow> phy_state list \<Rightarrow> phy_state list list \<Rightarrow> bool" where
  "at s rest ps \<longleftrightarrow> length (current_state s) \<le> 10 \<and> unat (state_step s) \<le> length (current_state s) \<and>
     drop (unat (state_step s)) (current_state s) = rest \<and> pending s ps"

definition advance :: "wps_phy \<Rightarrow> wps_phy" where
  "advance s = s\<lparr>state_step := state_step s + 1\<rparr>"

lemma pending_step [simp]: "pending (s\<lparr>state_step := n\<rparr>) = pending s"
  by (rule ext, rule pending_cong) simp_all

lemma drop_ConsD: "drop n xs = x # ys \<Longrightarrow> n < length xs \<and> xs ! n = x \<and> drop (Suc n) xs = ys"
  by (metis Cons_nth_drop_Suc drop_eq_Nil leI list.discI list.inject)

lemma at_step:
  assumes "at s (st # rest) ps"
  shows "step_state upd s = run_state upd st (advance s)" "at (advance s) rest ps"
proof -
  have d: "unat (state_step s) < length (current_state s)" "current_state s ! unat (state_step s) = st"
    "drop (Suc (unat (state_step s))) (current_state s) = rest"
    using assms drop_ConsD by (fastforce simp: at_def)+
  then show "step_state upd s = run_state upd st (advance s)" by (simp add: step_state_def advance_def)
  have "unat (state_step s + 1) = Suc (unat (state_step s))"
    using d(1) assms by (simp add: at_def unat_word_ariths)
  then show "at (advance s) rest ps" using assms d by (simp add: at_def advance_def)
qed

lemma at_quiet:
  "at s rest ps \<Longrightarrow> quiet b s c t qs \<Longrightarrow> length ps + length qs \<le> 10 \<Longrightarrow> at t rest (ps @ qs)"
  by (simp add: at_def quiet_def)

lemma at_end:
  "at s rest (p # ps) \<Longrightarrow> length p \<le> 10 \<Longrightarrow> at (end_state s) p ps"
  using pending_end [of s p ps] by (simp add: at_def)

lemma at_back: "at s (st # rest) ps \<Longrightarrow> at ((advance s)\<lparr>state_step := state_step (advance s) - 1, ph_signal_main := x\<rparr>) (st # rest) ps"
proof -
  have "pending ((advance s)\<lparr>state_step := state_step (advance s) - 1, ph_signal_main := x\<rparr>) ps = pending s ps"
    by (rule pending_cong) (simp_all add: advance_def)
  then show "at s (st # rest) ps \<Longrightarrow> ?thesis" by (simp add: at_def advance_def)
qed

definition loops :: "update_payload \<Rightarrow> spi \<Rightarrow> wps_phy \<Rightarrow> (spi \<Rightarrow> wps_phy \<Rightarrow> bool) \<Rightarrow> bool" where
  "loops upd b s P \<longleftrightarrow> (\<exists>t c os. phy_loop upd s = Some t \<and> ph_ops t = ph_ops s @ os \<and> spi_run b os = Some c \<and>
     ph_local_address t = ph_local_address s \<and> P c t)"

definition processes :: "update_payload \<Rightarrow> spi \<Rightarrow> wps_phy \<Rightarrow> (spi \<Rightarrow> wps_phy \<Rightarrow> bool) \<Rightarrow> bool" where
  "processes upd b s P \<longleftrightarrow> (\<exists>t c os. phy_process upd s = Some t \<and> ph_ops t = ph_ops s @ os \<and> spi_run b os = Some c \<and>
     ph_local_address t = ph_local_address s \<and> P c t)"

lemma loops_log:
  assumes "loops upd c t P" and "phy_loop upd s = phy_loop upd t" and "ph_ops t = ph_ops s @ os" and "spi_run b os = Some c"
    and "ph_local_address t = ph_local_address s"
  shows "loops upd b s P"
proof -
  obtain u d qs where u: "phy_loop upd t = Some u" "ph_ops u = ph_ops t @ qs" "spi_run c qs = Some d" "P d u"
    "ph_local_address u = ph_local_address t"
    using assms(1) by (auto simp: loops_def)
  have "ph_ops u = ph_ops s @ os @ qs" "spi_run b (os @ qs) = Some d" using u assms by (simp_all add: spi_run_append)
  then show ?thesis using u assms(2,5) unfolding loops_def by metis
qed

lemma loop_step:
  assumes "at s (st # rest) ps" and "run_state upd st (advance s) = Some t"
  shows "phy_loop upd s = (if ph_signal_main t = PHY_SIGNAL_PROCESSING then phy_loop upd t else Some t)"
  using phy_loop.simps [of upd s] at_step [OF assms(1)] assms(2) by simp

text \<open>A function that works quietly; afterwards the loop goes on or stops.\<close>

lemma loops_go:
  assumes "at s (st # rest) ps" and "run_state upd st (advance s) = Some t" and "quiet b (advance s) c t qs"
    and "length ps + length qs \<le> 10" and "ph_signal_main t = PHY_SIGNAL_PROCESSING"
    and "at t rest (ps @ qs) \<Longrightarrow> loops upd c t P"
  shows "loops upd b s P"
proof -
  obtain os where "ph_ops t = ph_ops s @ os" "spi_run b os = Some c" "ph_local_address t = ph_local_address s"
    using assms(3) by (auto simp: quiet_def advance_def)
  moreover have "loops upd c t P" using assms(6) at_quiet [OF at_step(2) [OF assms(1)] assms(3,4)] by simp
  ultimately show ?thesis using loops_log loop_step [OF assms(1,2)] assms(5) by simp
qed

lemma loops_stop:
  assumes "at s (st # rest) ps" and "run_state upd st (advance s) = Some t" and "quiet b (advance s) c t qs"
    and "length ps + length qs \<le> 10" and "ph_signal_main t \<noteq> PHY_SIGNAL_PROCESSING"
    and "at t rest (ps @ qs) \<Longrightarrow> P c t"
  shows "loops upd b s P"
proof -
  obtain os where "ph_ops t = ph_ops s @ os" "spi_run b os = Some c" "ph_local_address t = ph_local_address s"
    using assms(3) by (auto simp: quiet_def advance_def)
  moreover have "P c t" using assms(6) at_quiet [OF at_step(2) [OF assms(1)] assms(3,4)] by simp
  ultimately show ?thesis using loop_step [OF assms(1,2)] assms(5) by (auto simp: loops_def)
qed

text \<open>The two functions that change the control: the end of a list, and \<open>close_spi\<close> before the transfer is done.\<close>

lemma loops_end:
  assumes "at s (ST_END # rest) (p # ps)" and "length p \<le> 10" and "ph_signal_main s = PHY_SIGNAL_PROCESSING"
    and "at (end_state (advance s)) p ps \<Longrightarrow> loops upd b (end_state (advance s)) P"
  shows "loops upd b s P"
proof (rule loops_log [where os = "[]"])
  show "loops upd b (end_state (advance s)) P" using assms(4) at_end [OF at_step(2) [OF assms(1)] assms(2)] .
  show "phy_loop upd s = phy_loop upd (end_state (advance s))"
    using loop_step [OF assms(1)] assms(3) by (simp add: end_state_def advance_def)
qed (simp_all add: end_state_def advance_def)

lemma loops_wait:
  assumes "at s (ST_CLOSE_SPI # rest) ps" and "ph_input s \<noteq> PHY_SIGNAL_DMA_CMPLT"
    and "at ((advance s)\<lparr>state_step := state_step (advance s) - 1, ph_signal_main := PHY_SIGNAL_YIELD\<rparr>) (ST_CLOSE_SPI # rest) ps \<Longrightarrow>
      P b ((advance s)\<lparr>state_step := state_step (advance s) - 1, ph_signal_main := PHY_SIGNAL_YIELD\<rparr>)"
  shows "loops upd b s P"
proof -
  have i: "ph_input (advance s) = ph_input s" by (simp add: advance_def)
  have "phy_loop upd s = Some ((advance s)\<lparr>state_step := state_step (advance s) - 1, ph_signal_main := PHY_SIGNAL_YIELD\<rparr>)"
    using loop_step [OF assms(1)] assms(2) by (simp add: close_spi_def i)
  then show ?thesis using assms(3) [OF at_back [OF assms(1)]] unfolding loops_def
    by (intro exI [where x = "[]"] exI conjI) (auto simp: advance_def)
qed

lemma loops_close:
  assumes "at s (ST_CLOSE_SPI # rest) ps" and "ph_input s = PHY_SIGNAL_DMA_CMPLT" and "ph_signal_main s = PHY_SIGNAL_PROCESSING"
    and "b \<noteq> SPI_BUSY" and "at (radio [SPI_CLOSE] (advance s)) rest ps \<Longrightarrow> loops upd SPI_IDLE (radio [SPI_CLOSE] (advance s)) P"
  shows "loops upd b s P"
proof (rule loops_go [OF assms(1), where qs = "[]"])
  show "run_state upd ST_CLOSE_SPI (advance s) = Some (radio [SPI_CLOSE] (advance s))"
    using assms(2) by (simp add: close_spi_def advance_def)
  show "quiet b (advance s) SPI_IDLE (radio [SPI_CLOSE] (advance s)) []"
    using assms(4) by (auto intro!: quiet_intros quiet_refl)
  show "length ps + length ([] :: phy_state list list) \<le> 10" using assms(1) by (auto simp: at_def pending_def Let_def)
qed (use assms(3,5) in \<open>simp_all add: advance_def\<close>)

text \<open>A whole call: the loop, and the end of the list when it is reached.\<close>

definition finished :: "(spi \<Rightarrow> wps_phy \<Rightarrow> bool) \<Rightarrow> spi \<Rightarrow> wps_phy \<Rightarrow> bool" where
  "finished P c t \<longleftrightarrow> unat (state_step t) < length (current_state t) \<and>
     (if current_state t ! unat (state_step t) = ST_END then P c (end_state t) else P c t)"

lemma finished_here: "at t (st # rest) ps \<Longrightarrow> st \<noteq> ST_END \<Longrightarrow> P c t \<Longrightarrow> finished P c t"
  using drop_ConsD by (fastforce simp: at_def finished_def)

lemma finished_end: "at t (ST_END # rest) (p # ps) \<Longrightarrow> length p \<le> 10 \<Longrightarrow> (at (end_state t) p ps \<Longrightarrow> P c (end_state t)) \<Longrightarrow> finished P c t"
  using at_end drop_ConsD by (fastforce simp: at_def finished_def)

lemma processesI:
  assumes "loops upd b (s\<lparr>ph_signal_main := PHY_SIGNAL_PROCESSING\<rparr>) (finished P)"
  shows "processes upd b s P"
proof -
  obtain t c os where "phy_loop upd (s\<lparr>ph_signal_main := PHY_SIGNAL_PROCESSING\<rparr>) = Some t" "ph_ops t = ph_ops s @ os"
      "spi_run b os = Some c" "ph_local_address t = ph_local_address s" "finished P c t"
    using assms by (auto simp: loops_def)
  then show ?thesis by (auto simp: processes_def phy_process_def finished_def end_state_def split: if_splits)
qed

lemma pending_fields [simp]:
  "pending (s\<lparr>ph_signal_main := x\<rparr>) = pending s" "pending (s\<lparr>ph_input := i\<rparr>) = pending s" "pending (s\<lparr>sr_reg := r\<rparr>) = pending s"
  "pending (s\<lparr>ph_config := c\<rparr>) = pending s" "pending (s\<lparr>ph_main := f\<rparr>) = pending s" "pending (s\<lparr>ph_auto := a\<rparr>) = pending s"
  by (rule ext, rule pending_cong, simp, simp)+

lemma at_fields [simp]:
  "at (s\<lparr>ph_signal_main := x\<rparr>) = at s" "at (s\<lparr>ph_input := i\<rparr>) = at s" "at (s\<lparr>sr_reg := r\<rparr>) = at s"
  "at (s\<lparr>ph_config := c\<rparr>) = at s" "at (s\<lparr>ph_main := f\<rparr>) = at s" "at (s\<lparr>ph_auto := a\<rparr>) = at s"
  by (rule ext, rule ext, simp add: at_def)+

end
