(* ===== verification/Phy_Functions.thy ===== *)
theory Phy_Functions
  imports Phy_Loop
begin

text \<open>
  The effect of each state function: that it returns, what it does on the bus, the lists it appends to the ring
  and the signal it leaves. The assumptions are those the machine meets at the places where it runs them.
\<close>

definition pulses_known :: "wps_phy \<Rightarrow> bool" where
  "pulses_known s \<longleftrightarrow> (\<forall>c. ch_pulse_count (ph_channels s c) \<in> {1, 2, 3})"

lemma pulses_gain: "pulses_known s \<Longrightarrow> \<exists>g. sr_get_integ_gain (ch_pulse_count (ph_channels s c)) r = Some g"
  unfolding pulses_known_def sr_get_integ_gain_def MAX_PULSE_COUNT_def Let_def
  by (drule spec [where x = c]) auto

lemma sent_frame_cong: "ph_main t = ph_main s \<Longrightarrow> ph_auto t = ph_auto s \<Longrightarrow> ph_local_address t = ph_local_address s \<Longrightarrow> sent_frame t = sent_frame s"
  by (simp add: sent_frame_def main_is_tx_def)

lemma sent_prims [simp]:
  "sent_frame (radio os s) = sent_frame s" "sent_frame (upd_reg f s) = sent_frame s" "sent_frame (upd_cfg g s) = sent_frame s"
  "sent_frame (enqueue_states st s) = sent_frame s" "sent_frame (snd (ask q s)) = sent_frame s"
  "sent_frame (end_state s) = sent_frame s" "sent_frame (advance s) = sent_frame s"
  "sent_frame (s\<lparr>ph_signal_main := x\<rparr>) = sent_frame s" "sent_frame (s\<lparr>ph_input := i\<rparr>) = sent_frame s"
  "sent_frame (s\<lparr>ph_mem := m\<rparr>) = sent_frame s" "sent_frame (s\<lparr>state_step := n\<rparr>) = sent_frame s"
  "sent_frame (s\<lparr>sr_reg := r\<rparr>) = sent_frame s" "sent_frame (s\<lparr>ph_ops := l, ph_asked := k\<rparr>) = sent_frame s"
  "sent_frame (s\<lparr>read_request_info := rr\<rparr>) = sent_frame s" "sent_frame (s\<lparr>write_request_info := wr\<rparr>) = sent_frame s"
  by (rule sent_frame_cong; simp add: prim_defs ask_def end_state_def advance_def)+

lemma frame_prims [simp]:
  "ph_auto (radio os s) = ph_auto s" "sr_reg (radio os s) = sr_reg s" "ph_auto (snd (ask q s)) = ph_auto s" "sr_reg (snd (ask q s)) = sr_reg s"
  by (simp_all add: radio_def ask_def)

lemma kept_sent: "kept s t \<Longrightarrow> sent_frame t = sent_frame s"
  by (rule sent_frame_cong) (simp_all add: kept_def)

text \<open>A function returns, in a state with a given property.\<close>

definition returns :: "wps_phy option \<Rightarrow> (wps_phy \<Rightarrow> bool) \<Rightarrow> bool" where
  "returns r Q \<longleftrightarrow> (\<exists>t. r = Some t \<and> Q t)"

lemma returns_simps [simp]: "returns (Some t) Q = Q t" "returns None Q = False" "returns (map_option f r) Q = (\<exists>x. r = Some x \<and> Q (f x))"
  by (auto simp: returns_def)

lemma returns_mono: "returns r Q \<Longrightarrow> (\<And>t. Q t \<Longrightarrow> R t) \<Longrightarrow> returns r R"
  by (auto simp: returns_def)

section \<open>Preparing and sending\<close>

lemma prepare_phy_effect:
  assumes "pulses_known s"
  obtains t where "prepare_phy s = Some t" and "quiet b s b t (prep_lists s)" and "kept s t"
proof (cases "ph_input s = PHY_SIGNAL_SYNCING")
  case True
  then show thesis
    by (intro that [of "enqueue_states syncing_states s"])
      (auto simp: prepare_phy_def prep_lists_def kept_def prim_defs intro: quiet_enqueue [OF quiet_refl, simplified])
next
  case False
  define s1 where "s1 = enqueue_states set_config_states s"
  define s2 where "s2 = (if circular_queue_size (overwrite_regs_queue s) \<noteq> 0 then enqueue_states overwrite_register_states s1 else s1)"
  have o: "overwrite_regs_queue s1 = overwrite_regs_queue s" by (simp add: s1_def enqueue_states_def)
  have k: "kept s s2" by (simp add: s2_def s1_def kept_def prim_defs)
  have q1: "quiet b s b s1 [set_config_states]"
    unfolding s1_def using quiet_enqueue [OF quiet_refl, of b s set_config_states] by simp
  have q: "quiet b s b s2 (set_config_states # (if circular_queue_size (overwrite_regs_queue s) \<noteq> 0 then [overwrite_register_states] else []))"
    using q1 quiet_enqueue [OF q1, of overwrite_register_states] by (simp add: s2_def)
  have "pulses_known s2" using assms q by (simp add: pulses_known_def quiet_def)
  then have "gain_known s2" using pulses_gain unfolding gain_known_def by fastforce
  then obtain t where t: "prepare_radio s2 = Some t" "quiet b s2 b t (slot_lists s2)" "kept s2 t"
    by (rule prepare_radio_quiet)
  have "slot_lists s2 = slot_lists s" using k by (simp add: slot_lists_def sent_frame_def main_is_tx_def kept_def)
  then have "quiet b s b t (prep_lists s)" using quiet_trans [OF q t(2)] False by (simp add: prep_lists_def)
  moreover have "prepare_phy s = Some t"
    using t(1) False by (simp add: prepare_phy_def Let_def o s2_def flip: s1_def)
  ultimately show thesis using that kept_trans [OF k t(3)] by blast
qed

lemma overwrite_loop_quiet: "quiet b s SPI_IDLE t ps \<Longrightarrow> quiet b s SPI_IDLE (overwrite_loop n it t) ps"
proof (induction n arbitrary: it t)
  case (Suc n)
  have "quiet b s SPI_IDLE (radio [SPI_OPEN, write_register_op a r v, SPI_CLOSE] t) ps" for a r v
    by (rule quiet_radio [OF Suc.prems]) (simp add: write_register_op_def)
  then show ?case using Suc.IH by (simp split: prod.split)
qed simp

lemma overwrite_loop_frame:
  "sent_frame (overwrite_loop n it t) = sent_frame t \<and> ph_input (overwrite_loop n it t) = ph_input t \<and>
   ph_signal_main (overwrite_loop n it t) = ph_signal_main t"
  by (induction n arbitrary: it t) (auto split: prod.split)

lemma overwrite_effect:
  assumes "b \<noteq> SPI_BUSY"
  shows "quiet b s SPI_IDLE (overwrite_registers s) []" "sent_frame (overwrite_registers s) = sent_frame s"
    "ph_input (overwrite_registers s) = ph_input s" "ph_signal_main (overwrite_registers s) = ph_signal_main s"
proof -
  have "quiet b s SPI_IDLE (radio [SPI_CLOSE] s) []"
    by (rule quiet_radio [OF quiet_refl]) (use assms in simp)
  then show "quiet b s SPI_IDLE (overwrite_registers s) []" unfolding overwrite_registers_def by (rule overwrite_loop_quiet)
qed (simp_all add: overwrite_registers_def overwrite_loop_frame)

lemma poll_effect:
  assumes "quiet b s c t ps" and "answers_again s" and "ok 0" and "spi_step c q = Some c"
  obtains v u where "poll ok [] q t = Some (v, u)" and "quiet b s c u ps" and "kept t u" and "sr_reg u = sr_reg t"
proof -
  have "answers_again t" using quiet_answers [OF assms(1)] assms(2) by simp
  then obtain v m where "poll ok [] q t = Some (v, t\<lparr>ph_ops := ph_ops t @ replicate m q, ph_asked := ph_asked t + m\<rparr>)"
    using assms(3) by (rule poll_returns)
  then show thesis using that quiet_polled [OF assms(1,4)] by (simp add: kept_def)
qed

lemma irq_bit_0: "\<not> irq_bit 0 m"
  by (simp add: irq_bit_def MASK2VAL_def)

lemma change_sleep_effect:
  assumes "answers_again s"
  obtains t where "change_sleep_level s = Some t" and "quiet SPI_IDLE s SPI_IDLE t []" and "sent_frame t = sent_frame s"
proof -
  obtain v u where u: "ask (READ_REG16 REG16_TIMERCFG_SLEEPCFG) s = (v, u)" by fastforce
  have q: "quiet SPI_IDLE s SPI_IDLE u []" by (rule quiet_ask_eq [OF u quiet_refl]) simp
  have f: "sent_frame u = sent_frame s"
    using sent_prims(5) [of "READ_REG16 REG16_TIMERCFG_SLEEPCFG" s] by (simp add: u)
  obtain w where w: "(if needs_proc_off v (ph_config s)
         then map_option snd (poll (\<lambda>v. \<not> irq_bit v BIT_PROC_ON) [] (READ_REG8 REG8_POWER_STATE) u) else Some u) = Some w"
    and qw: "quiet SPI_IDLE s SPI_IDLE w []" and fw: "sent_frame w = sent_frame s"
  proof (cases "needs_proc_off v (ph_config s)")
    case True
    obtain x w where "poll (\<lambda>v. \<not> irq_bit v BIT_PROC_ON) [] (READ_REG8 REG8_POWER_STATE) u = Some (x, w)"
      "quiet SPI_IDLE s SPI_IDLE w []" "kept u w"
      by (rule poll_effect [OF q assms, of "\<lambda>v. \<not> irq_bit v BIT_PROC_ON" "READ_REG8 REG8_POWER_STATE"]) (simp_all add: irq_bit_0)
    then show ?thesis using True that f kept_sent by simp
  next
    case False
    then show ?thesis using that q f by simp
  qed
  have "returns (change_sleep_level s) (\<lambda>t. quiet SPI_IDLE s SPI_IDLE t [] \<and> sent_frame t = sent_frame s)"
    by (simp add: change_sleep_level_def u w) (auto simp: Let_def fw intro!: quiet_intros qw)
  then show thesis using that by (auto simp: returns_def)
qed

lemma set_config_effect:
  assumes "answers_again s"
  shows "returns (set_config s) (\<lambda>t. quiet SPI_IDLE s SPI_BUSY t [] \<and> ph_signal_main t = PHY_SIGNAL_PREPARE_DONE \<and>
    sent_frame t = sent_frame s)"
proof -
  obtain u where u: "(if sleep_lvl_per_ts_enabled s then change_sleep_level s else Some s) = Some u" "quiet SPI_IDLE s SPI_IDLE u []"
    "sent_frame u = sent_frame s"
  proof (cases "sleep_lvl_per_ts_enabled s")
    case True
    then show ?thesis using that by (auto intro: change_sleep_effect [OF assms])
  next
    case False
    then show ?thesis using that quiet_refl by simp
  qed
  show ?thesis
    by (simp add: set_config_def u(1) Let_def) (auto simp: u(3) intro!: quiet_radio quiet_signal_main u(2))
qed

lemma set_header_effect:
  assumes "sent_frame s = Some f" and "unat (frame_header_size f) \<le> 9" and "b \<noteq> SPI_BUSY"
  shows "returns (set_header s) (\<lambda>t. quiet b s SPI_BUSY t [] \<and> ph_signal_main t = PHY_SIGNAL_YIELD \<and> sent_frame t = sent_frame s)"
proof -
  have q: "quiet b s b (radio [DISABLE_IRQ_LINE] s) []" by (auto intro!: quiet_intros quiet_refl)
  have "quiet b s SPI_BUSY (radio [DMA_WRITE bs] ((radio [DISABLE_IRQ_LINE] s)\<lparr>ph_signal_main := PHY_SIGNAL_YIELD\<rparr>)) []" for bs
    by (rule quiet_radio [OF quiet_signal_main [OF q]]) (use assms(3) in simp)
  then show ?thesis using assms by (simp add: set_header_def Let_def MAX_HEADER_SIZE_def)
qed

text \<open>What a function that sends leaves: a transfer in flight, or nothing to do and the loop goes on.\<close>

definition sending :: "spi \<Rightarrow> wps_phy \<Rightarrow> wps_phy \<Rightarrow> bool" where
  "sending b s t \<longleftrightarrow> sent_frame t = sent_frame s \<and>
     (quiet b s SPI_BUSY t [] \<and> ph_signal_main t = PHY_SIGNAL_YIELD \<or>
      quiet b s b t [] \<and> ph_signal_main t = PHY_SIGNAL_PROCESSING \<and> ph_input t = PHY_SIGNAL_DMA_CMPLT)"

lemma set_payload_effect:
  assumes "sent_frame s = Some f" and "ph_input s = PHY_SIGNAL_DMA_CMPLT" and "b \<noteq> SPI_BUSY"
  shows "returns (set_payload s) (sending b s)"
proof -
  have "quiet b s b (s\<lparr>ph_signal_main := PHY_SIGNAL_PROCESSING, ph_input := PHY_SIGNAL_DMA_CMPLT\<rparr>) []"
    by (intro quiet_intros quiet_refl)
  moreover have "quiet b s SPI_BUSY (radio [DMA_WRITE bs] (s\<lparr>ph_signal_main := PHY_SIGNAL_YIELD\<rparr>)) []" for bs
    by (intro quiet_radio quiet_signal_main, rule quiet_refl) (use assms(3) in simp)
  ultimately show ?thesis using assms by (simp add: set_payload_def Let_def sending_def)
qed

lemma set_header_and_payload_effect:
  assumes "sent_frame s = Some f" and "ph_input s = PHY_SIGNAL_DMA_CMPLT" and "b \<noteq> SPI_BUSY"
  shows "returns (set_header_and_payload s) (sending b s)"
proof -
  define u where "u = (radio [DISABLE_IRQ_LINE] s)\<lparr>ph_signal_main := PHY_SIGNAL_YIELD\<rparr>"
  have q: "quiet b s b u []" unfolding u_def by (auto intro!: quiet_intros quiet_refl)
  have f: "sent_frame u = sent_frame s" "ph_signal_main u = PHY_SIGNAL_YIELD" by (simp_all add: u_def)
  have "quiet b s b (u\<lparr>ph_signal_main := PHY_SIGNAL_PROCESSING, ph_input := PHY_SIGNAL_DMA_CMPLT\<rparr>) []"
    by (intro quiet_intros q)
  moreover have "quiet b s SPI_BUSY (radio [DMA_WRITE bs] (u\<lparr>ph_mem := m\<rparr>)) []" for bs m
    by (intro quiet_radio quiet_flags, rule q) (use assms(3) in simp)
  ultimately show ?thesis
    using assms by (simp add: set_header_and_payload_def Let_def sending_def f flip: u_def)
qed

lemma enable_irq_effect:
  assumes "ph_input s = PHY_SIGNAL_DMA_CMPLT"
  shows "quiet b s b (enable_radio_irq s) []" "ph_signal_main (enable_radio_irq s) = PHY_SIGNAL_CONFIG_COMPLETE"
proof -
  define u where "u = snd (ask READ_IRQ_PIN (radio [ENABLE_IRQ_LINE] (s\<lparr>ph_signal_main := PHY_SIGNAL_CONFIG_COMPLETE\<rparr>)))"
  have "quiet b s b u []" unfolding u_def by (rule quiet_ask) (auto intro!: quiet_intros quiet_refl)
  then show "quiet b s b (enable_radio_irq s) []"
    using assms by (auto simp: enable_radio_irq_def Let_def split_def simp flip: u_def intro!: quiet_intros)
  show "ph_signal_main (enable_radio_irq s) = PHY_SIGNAL_CONFIG_COMPLETE"
    using assms by (simp add: enable_radio_irq_def Let_def split_def)
qed

lemma check_irq_effect:
  shows "quiet b s b (check_radio_irq s) []" "sent_frame (check_radio_irq s) = sent_frame s" "ph_input (check_radio_irq s) = ph_input s"
    "ph_signal_main (check_radio_irq s) \<in> {PHY_SIGNAL_YIELD, ph_signal_main s}"
proof -
  define u where "u = snd (ask READ_IRQ_PIN (radio [ENABLE_IRQ_LINE] s))"
  have "quiet b s b u []" unfolding u_def by (rule quiet_ask) (auto intro!: quiet_intros quiet_refl)
  then show "quiet b s b (check_radio_irq s) []"
    by (auto simp: check_radio_irq_def Let_def split_def simp flip: u_def intro!: quiet_intros)
qed (simp_all add: check_radio_irq_def Let_def split_def)

lemma read_events_effect:
  assumes "ph_input s = PHY_SIGNAL_RADIO_IRQ"
  shows "quiet SPI_IDLE s SPI_BUSY (read_events s) []" "ph_signal_main (read_events s) = PHY_SIGNAL_YIELD"
    "quiet SPI_IDLE s SPI_BUSY (read_events_syncing s) []" "ph_signal_main (read_events_syncing s) = PHY_SIGNAL_YIELD"
  using assms by (auto simp: read_events_def read_events_syncing_def intro!: quiet_radio [where c = SPI_IDLE] quiet_signal_main quiet_refl)

lemma prepare_syncing_effect:
  assumes "pulses_known s"
  shows "returns (prepare_syncing s) (\<lambda>t. quiet SPI_IDLE s SPI_IDLE t [] \<and> ph_signal_main t = PHY_SIGNAL_YIELD)"
proof -
  have r: "quiet SPI_IDLE s SPI_IDLE (radio os t) []" if "quiet SPI_IDLE s SPI_IDLE t []" "spi_run SPI_IDLE os = Some SPI_IDLE" for os t
    using quiet_radio that by blast
  have f: "quiet SPI_IDLE s SPI_IDLE (fast_sync_config_non_stop_rx t) []" if "quiet SPI_IDLE s SPI_IDLE t []" for t
    unfolding fast_sync_config_non_stop_rx_def Let_def by (rule r [OF that]) simp
  have fs: "ph_signal_main (fast_sync_config_non_stop_rx t) = ph_signal_main t" for t by (simp add: fast_sync_config_non_stop_rx_def Let_def)
  obtain g where g: "sr_get_integ_gain (ch_pulse_count (ph_channels s (ci_channel (ph_config s)))) (ci_chip_rate (ph_config s)) = Some g"
    using pulses_gain [OF assms] by blast
  show ?thesis
    by (simp add: prepare_syncing_def Let_def split_def g upd_cfg_def)
      (auto simp: fs intro!: r quiet_ask f quiet_cfg [unfolded upd_cfg_def] quiet_signal_main quiet_refl)
qed

end
