(* ===== verification/Phy_Reception.thy ===== *)
theory Phy_Reception
  imports Phy_Functions
begin

text \<open>
  The effect of the state functions that look at what the radio reports and fetch the received frame, of the
  access to a register of the application, and the conditions under which an event word is handled at all.
\<close>

definition mac_outcomes :: "phy_output_signal set" where
  "mac_outcomes = {PHY_SIGNAL_FRAME_SENT_ACK, PHY_SIGNAL_FRAME_SENT_NACK, PHY_SIGNAL_FRAME_RECEIVED, PHY_SIGNAL_FRAME_MISSED}"

text \<open>The slot is over: the outcome is for the MAC, and the next list prepares the next slot.\<close>

definition outcome :: "spi \<Rightarrow> wps_phy \<Rightarrow> wps_phy \<Rightarrow> bool" where
  "outcome b s t \<longleftrightarrow> quiet b s b t [prepare_phy_states] \<and> ph_signal_main t \<in> mac_outcomes"

text \<open>A transfer was started; the list \<open>g\<close> goes on when it is done.\<close>

definition fetching :: "wps_phy \<Rightarrow> phy_state list list \<Rightarrow> wps_phy \<Rightarrow> bool" where
  "fetching s gs t \<longleftrightarrow> quiet SPI_IDLE s SPI_BUSY t gs \<and> ph_signal_main t = PHY_SIGNAL_YIELD"

lemma outcomeI: "quiet b s b t [] \<Longrightarrow> ph_signal_main t \<in> mac_outcomes \<Longrightarrow> outcome b s (enqueue_states prepare_phy_states t)"
  using quiet_enqueue [of b s b t "[]"] by (simp add: outcome_def)

lemma quiet_rssi: "quiet b s c t ps \<Longrightarrow> quiet b s c (update_rssi v t) ps"
  unfolding update_rssi_def by (intro quiet_intros)

lemma quiet_rejected: "quiet b s SPI_IDLE t ps \<Longrightarrow> quiet b s SPI_IDLE (read_rejected_rssi t) ps"
  unfolding read_rejected_rssi_def Let_def split_def by (intro quiet_rssi quiet_reg quiet_ask) simp_all

lemma signal_rssi [simp]:
  "ph_signal_main (update_rssi v s) = ph_signal_main s" "ph_signal_main (read_rejected_rssi s) = ph_signal_main s"
  by (simp_all add: update_rssi_def read_rejected_rssi_def Let_def split_def)

section \<open>A good frame\<close>

lemma fetch_info:
  assumes "quiet SPI_IDLE s SPI_IDLE u []" and "ph_signal_main u = PHY_SIGNAL_YIELD"
  shows "fetching s [g] (enqueue_states g (radio [DMA_READ_INFO] u))"
  using quiet_enqueue [OF quiet_radio [OF assms(1)], of "[DMA_READ_INFO]" SPI_BUSY g] assms(2) by (simp add: fetching_def)

lemma good_frame_effect: "fetching s [get_frame_header_states] (handle_good_frame s)"
proof -
  have a: "quiet SPI_IDLE s SPI_IDLE (snd (ask (READ_REG8 REG8_FIFOS) t)) []" if "quiet SPI_IDLE s SPI_IDLE t []" for t
    by (rule quiet_ask [OF that]) simp
  have r: "quiet SPI_IDLE s SPI_IDLE (radio [WRITE_REG16 x y, DISABLE_IRQ_LINE] t) []" if "quiet SPI_IDLE s SPI_IDLE t []" for x y t
    by (rule quiet_radio [OF that]) simp
  show ?thesis
    unfolding handle_good_frame_def Let_def split_def
    by (rule fetch_info) (auto intro!: quiet_cfg a r quiet_flags quiet_signal_auto quiet_signal_main quiet_refl split: option.split)
qed

lemma good_auto_reply_effect: "fetching s [get_auto_reply_header_states] (handle_good_auto_reply s)"
  unfolding handle_good_auto_reply_def Let_def
  by (rule fetch_info) (auto intro!: quiet_cfg quiet_signal_main quiet_refl)

lemma read_cir_effect: "fetching s [g] (read_cir g s)"
proof -
  define u where "u = upd_reg (\<lambda>r. r\<lparr>sr_cir_info := replicate PHASE_OFFSET_BYTE_COUNT 0\<rparr>) (s\<lparr>ph_signal_main := PHY_SIGNAL_YIELD\<rparr>)"
  have "quiet SPI_IDLE s SPI_IDLE u []" unfolding u_def by (intro quiet_reg quiet_signal_main quiet_refl)
  from quiet_enqueue [OF quiet_radio [OF this], of "[DMA_READ_CIR n]" SPI_BUSY g for n]
  show ?thesis by (simp add: read_cir_def fetching_def flip: u_def) (simp add: u_def)
qed

lemma fetching_start: "fetching t gs u \<Longrightarrow> quiet SPI_IDLE s SPI_IDLE t [] \<Longrightarrow> fetching s gs u"
  using quiet_trans [of SPI_IDLE s SPI_IDLE t "[]"] by (simp add: fetching_def)

section \<open>The events\<close>

definition tx_handled :: "u16 \<Rightarrow> bool" where
  "tx_handled irq \<longleftrightarrow> irq_bit irq BIT_CCAFAILI \<or> rx_good_auto_reply irq \<or> rx_lost irq \<or> rx_rejected_auto_reply irq \<or>
     tx_complete irq \<or> irq_bit irq BIT_WAKEUPI"

definition rx_handled :: "u16 \<Rightarrow> bool" where
  "rx_handled irq \<longleftrightarrow> rx_good irq \<or> rx_lost irq \<or> rx_rejected irq"

lemma event_tx_effect:
  assumes "ph_input s = PHY_SIGNAL_DMA_CMPLT" and "tx_handled (sr_irq_read (sr_reg s))"
  shows "outcome SPI_IDLE s (process_event_tx s) \<or> fetching s [handle_good_frame_auto_states] (process_event_tx s) \<or>
    fetching s [get_auto_reply_header_states] (process_event_tx s)"
proof -
  define u where "u = upd_cfg (\<lambda>c. c\<lparr>ci_cca_try_count := ucast (MASK2VAL (ucast (sr_actions_read (sr_reg s))) BITS_TXRETRIES)\<rparr>) s"
  have q: "quiet SPI_IDLE s SPI_IDLE u []" unfolding u_def by (intro quiet_cfg quiet_refl)
  have r: "sr_reg u = sr_reg s" by (simp add: u_def upd_cfg_def)
  define v where "v = set_outcomes FRAME_SENT_ACK FRAME_RECEIVED u"
  have qv: "quiet SPI_IDLE s SPI_IDLE v []" unfolding v_def by (intro quiet_outcomes q)
  have good: "fetching s [handle_good_frame_auto_states] (read_cir handle_good_frame_auto_states v)"
    "fetching s [get_auto_reply_header_states] (handle_good_auto_reply v)"
    using fetching_start [OF _ qv] read_cir_effect good_auto_reply_effect by blast+
  have out: "outcome SPI_IDLE s (enqueue_states prepare_phy_states (signals PHY_SIGNAL_FRAME_SENT_NACK x (set_outcomes y z u)))"
    "outcome SPI_IDLE s (enqueue_states prepare_phy_states (signals PHY_SIGNAL_FRAME_SENT_NACK x ((set_outcomes y z u)\<lparr>empty_tx := e\<rparr>)))"
    "outcome SPI_IDLE s (enqueue_states prepare_phy_states (read_rejected_rssi (signals PHY_SIGNAL_FRAME_SENT_NACK x (set_outcomes y z u))))"
    "outcome SPI_IDLE s (handle_cca_fail u)" for x y z e
    unfolding handle_cca_fail_def
    by (rule outcomeI; auto simp: mac_outcomes_def intro!: quiet_outcomes quiet_signals quiet_rejected quiet_flags q)+
  show ?thesis
    using assms(1,2) good out unfolding process_event_tx_def Let_def u_def [symmetric] v_def [symmetric]
    by (auto simp: r tx_handled_def)
qed

lemma finish_reception_effect:
  assumes "answers_again s" and "quiet SPI_IDLE s SPI_IDLE t []"
  shows "returns (finish_reception t) (\<lambda>u. quiet SPI_IDLE s SPI_IDLE u [])"
proof (cases "irq_bit (ucast (sr_power_state (sr_reg t))) BIT_RX_EN")
  case True
  have q: "quiet SPI_IDLE s SPI_IDLE (radio [DISABLE_IRQ_LINE] t) []" by (rule quiet_radio [OF assms(2)]) simp
  obtain v u where "poll (\<lambda>v. \<not> irq_bit v BIT_INFRAME) [] (READ_REG8 REG8_POWER_STATE) (radio [DISABLE_IRQ_LINE] t) = Some (v, u)"
    "quiet SPI_IDLE s SPI_IDLE u []"
    by (rule poll_effect [OF q assms(1), of "\<lambda>v. \<not> irq_bit v BIT_INFRAME" "READ_REG8 REG8_POWER_STATE"]) (simp_all add: irq_bit_0)
  then show ?thesis using True quiet_ask [of SPI_IDLE s SPI_IDLE u "[]"] by (simp add: finish_reception_def)
next
  case False
  then show ?thesis using assms(2) by (simp add: finish_reception_def)
qed

lemma event_rx_effect:
  assumes "ph_input s = PHY_SIGNAL_DMA_CMPLT" and "rx_handled (sr_irq_read (sr_reg s))" and "answers_again s"
  shows "returns (process_event_rx s) (\<lambda>t. outcome SPI_IDLE s t \<or> fetching s [handle_good_frame_states] t \<or>
    fetching s [get_frame_header_states] t)"
proof -
  define v where "v = upd_auto (\<lambda>f. f\<lparr>frame_outcome := FRAME_SENT_ACK\<rparr>) s"
  have qv: "quiet SPI_IDLE s SPI_IDLE v []" unfolding v_def by (rule quiet_auto [OF quiet_refl]) simp
  have good: "fetching s [handle_good_frame_states] (read_cir handle_good_frame_states v)" "fetching s [get_frame_header_states] (handle_good_frame v)"
    using fetching_start [OF _ qv] read_cir_effect good_frame_effect by blast+
  obtain w where w: "finish_reception s = Some w" "quiet SPI_IDLE s SPI_IDLE w []"
    using finish_reception_effect [OF assms(3) quiet_refl] by (auto simp: returns_def)
  have out: "outcome SPI_IDLE s (enqueue_states prepare_phy_states (signals PHY_SIGNAL_FRAME_MISSED x (set_outcomes y z u)))"
    "outcome SPI_IDLE s (enqueue_states prepare_phy_states (read_rejected_rssi (signals PHY_SIGNAL_FRAME_MISSED x (set_outcomes y z u))))"
    if "quiet SPI_IDLE s SPI_IDLE u []" for u x y z
    by (rule outcomeI; auto simp: mac_outcomes_def intro!: quiet_outcomes quiet_signals quiet_rejected that)+
  show ?thesis
    using assms(1,2) good out [OF quiet_refl] out(1) [OF w(2)]
    unfolding process_event_rx_def Let_def v_def [symmetric]
    by (auto simp: rx_handled_def w(1))
qed
section \<open>The received frame\<close>

text \<open>After a header: the slot is over, or the payload is next, its header in flight or empty.\<close>

definition header_read :: "wps_phy \<Rightarrow> wps_phy \<Rightarrow> bool" where
  "header_read s t \<longleftrightarrow> outcome SPI_IDLE s t \<or> fetching s [get_payload_states, prepare_phy_states] t \<or>
     quiet SPI_IDLE s SPI_IDLE t [get_payload_states, prepare_phy_states] \<and>
       ph_signal_main t = PHY_SIGNAL_PROCESSING \<and> ph_input t = PHY_SIGNAL_DMA_CMPLT"

lemma header_read_payload:
  assumes "quiet SPI_IDLE s SPI_IDLE u []" and "ph_signal_main u = PHY_SIGNAL_YIELD"
  shows "header_read s ((enqueue_states prepare_phy_states (enqueue_states get_payload_states u))
      \<lparr>ph_signal_main := PHY_SIGNAL_PROCESSING, ph_input := PHY_SIGNAL_DMA_CMPLT\<rparr>)"
    "header_read s (radio [DMA_READ_HEADER a n] (enqueue_states prepare_phy_states (enqueue_states get_payload_states u)))"
proof -
  have q: "quiet SPI_IDLE s SPI_IDLE (enqueue_states prepare_phy_states (enqueue_states get_payload_states u)) [get_payload_states, prepare_phy_states]"
    using quiet_enqueue [OF quiet_enqueue [OF assms(1), of get_payload_states], of prepare_phy_states] by simp
  show "header_read s ((enqueue_states prepare_phy_states (enqueue_states get_payload_states u))
      \<lparr>ph_signal_main := PHY_SIGNAL_PROCESSING, ph_input := PHY_SIGNAL_DMA_CMPLT\<rparr>)"
    unfolding header_read_def by (intro disjI2 conjI quiet_flags q) simp_all
  show "header_read s (radio [DMA_READ_HEADER a n] (enqueue_states prepare_phy_states (enqueue_states get_payload_states u)))"
    unfolding header_read_def fetching_def using quiet_radio [OF q, of "[DMA_READ_HEADER a n]" SPI_BUSY] assms(2) by simp
qed

lemma header_read_outcome:
  "quiet SPI_IDLE s SPI_IDLE u [] \<Longrightarrow> ph_signal_main u \<in> mac_outcomes \<Longrightarrow> header_read s (enqueue_states prepare_phy_states u)"
  by (simp add: header_read_def outcomeI)

lemma frame_header_effect:
  assumes "ph_input s = PHY_SIGNAL_DMA_CMPLT"
  shows "header_read s (get_frame_header s)"
proof -
  define u where "u = update_rssi (sr_rssi_rnsi (sr_reg s)) (upd_cfg (\<lambda>c. c\<lparr>ci_rx_wait_time := sr_rxtime (sr_reg s)\<rparr>) s)"
  have q: "quiet SPI_IDLE s SPI_IDLE u []" unfolding u_def by (intro quiet_rssi quiet_cfg quiet_refl)
  have out: "header_read s (enqueue_states prepare_phy_states (signals PHY_SIGNAL_FRAME_MISSED x (upd_main f v)))"
    if "quiet SPI_IDLE s SPI_IDLE v []" "\<And>x. destination_address (f x) = destination_address x" for x f v
    by (rule header_read_outcome) (auto simp: mac_outcomes_def intro!: quiet_signals quiet_main that)
  have q1: "quiet SPI_IDLE s SPI_IDLE ((upd_reg f u)\<lparr>ph_header_size := n\<rparr>) []" for f n
    by (intro quiet_flags quiet_reg q)
  have pay: "header_read s ((enqueue_states prepare_phy_states (enqueue_states get_payload_states (upd_main f (v\<lparr>ph_signal_main := PHY_SIGNAL_YIELD\<rparr>))))
      \<lparr>ph_signal_main := PHY_SIGNAL_PROCESSING, ph_input := PHY_SIGNAL_DMA_CMPLT\<rparr>)"
    "header_read s (radio [DMA_READ_HEADER a n] (enqueue_states prepare_phy_states (enqueue_states get_payload_states (upd_main f (v\<lparr>ph_signal_main := PHY_SIGNAL_YIELD\<rparr>)))))"
    if "quiet SPI_IDLE s SPI_IDLE v []" "\<And>x. destination_address (f x) = destination_address x" for f v a n
    by (rule header_read_payload; auto intro!: quiet_main quiet_signal_main that)+
  show ?thesis
    using assms unfolding get_frame_header_def Let_def u_def [symmetric]
    by (auto intro!: out pay q q1 split del: if_split split: if_split)
qed

lemma auto_reply_header_effect:
  assumes "ph_input s = PHY_SIGNAL_DMA_CMPLT" and "ph_auto s = None \<Longrightarrow> sr_frame_size (sr_reg s) = 0"
  shows "returns (get_auto_reply_header s) (header_read s)"
proof -
  define u where "u = update_rssi (sr_rssi_rnsi (sr_reg s)) s"
  have q: "quiet SPI_IDLE s SPI_IDLE u []" unfolding u_def by (intro quiet_rssi quiet_refl)
  have a: "ph_auto u = ph_auto s" "sr_reg u = sr_reg s" by (simp_all add: u_def update_rssi_def upd_cfg_def)
  have q1: "quiet SPI_IDLE s SPI_IDLE ((upd_reg f u)\<lparr>ph_header_size := n\<rparr>) []" for f n
    by (intro quiet_flags quiet_reg q)
  have out: "header_read s (enqueue_states prepare_phy_states (signals PHY_SIGNAL_FRAME_SENT_ACK PHY_SIGNAL_FRAME_MISSED u))"
    "header_read s (enqueue_states prepare_phy_states (signals PHY_SIGNAL_FRAME_MISSED PHY_SIGNAL_FRAME_SENT_NACK
       (upd_main (\<lambda>f. f\<lparr>payload_end_it := header_begin_it f\<rparr>) ((upd_reg g u)\<lparr>ph_header_size := n\<rparr>))))" for g n
    by (rule header_read_outcome; auto simp: mac_outcomes_def intro!: quiet_signals quiet_main q q1)+
  define v where "v g n x y = ((upd_reg g u)\<lparr>ph_header_size := n, ph_signal_main := PHY_SIGNAL_YIELD\<rparr>)
      \<lparr>ph_auto := map_option (\<lambda>f. f\<lparr>header_begin_it := x, payload_end_it := y\<rparr>) (ph_auto s)\<rparr>" for g n x y
  have qv: "quiet SPI_IDLE s SPI_IDLE (v g n x y) []" for g n x y
    by (rule quiet_same [OF quiet_signal_main [OF q1]]) (simp_all add: v_def option.map_comp comp_def a(1) upd_reg_def)
  have pay: "header_read s ((enqueue_states prepare_phy_states (enqueue_states get_payload_states (v g n x y)))
      \<lparr>ph_signal_main := PHY_SIGNAL_PROCESSING, ph_input := PHY_SIGNAL_DMA_CMPLT\<rparr>)"
    "header_read s (radio [DMA_READ_HEADER b k] (enqueue_states prepare_phy_states (enqueue_states get_payload_states (v g n x y))))"
    for g n x y b k
    by (rule header_read_payload [OF qv], simp add: v_def)+
  show ?thesis
    using assms out pay unfolding get_auto_reply_header_def Let_def u_def [symmetric]
    by (auto simp: a upd_reg_def v_def split: option.split)
qed
text \<open>
  After the payload: a transfer may be in flight, whose end closes the bus (\<open>new_frame_states\<close>), and the
  auto-reply may still have to leave the radio (\<open>wait_to_send_auto_reply\<close>). Both come after the list that prepares
  the next slot and before the lists that slot appends.
\<close>

definition payload_read :: "spi \<Rightarrow> wps_phy \<Rightarrow> wps_phy \<Rightarrow> bool" where
  "payload_read b s t \<longleftrightarrow> ph_signal_main t \<in> mac_outcomes \<and>
     (\<exists>ns ws. ns \<in> {[], [new_frame_states]} \<and> ws \<in> {[], [wait_to_send_auto_reply]} \<and>
        quiet b s (if ns = [] then SPI_IDLE else SPI_BUSY) t (ns @ ws))"

lemma put_received_quiet:
  assumes "quiet b s c t ps" and "received_frame s = Some g" and "destination_address f = destination_address g"
  shows "quiet b s c (put_received f t) ps"
proof -
  have d: "main_is_tx t = main_is_tx s" using assms(1) by (simp add: quiet_def main_is_tx_def)
  have a: "map_option destination_address (ph_auto t) = map_option destination_address (ph_auto s)"
    "destination_address (ph_main t) = destination_address (ph_main s)" using assms(1) by (simp_all add: quiet_def)
  show ?thesis
    by (rule quiet_same [OF assms(1)]) (use assms(2,3) d a in \<open>auto simp: put_received_def received_frame_def split: if_splits\<close>)
qed

lemma payload_effect:
  assumes "ph_input s = PHY_SIGNAL_DMA_CMPLT" and "received_frame s = Some g" and "b \<noteq> SPI_BUSY"
    and "\<And>k f n. destination_address (upd k f n) = destination_address f"
    and "main_is_tx s \<Longrightarrow> ph_auto s = Some g \<Longrightarrow> \<not> auto_is_tx g s"
  shows "returns (get_payload upd s) (payload_read b s)"
proof -
  define u where "u = (if main_is_tx s then s\<lparr>ph_signal_auto := PHY_SIGNAL_FRAME_RECEIVED\<rparr> else s\<lparr>ph_signal_main := PHY_SIGNAL_FRAME_RECEIVED\<rparr>)"
  define f where "f n = upd (ci_update_payload_buffer (ph_config u)) g n" for n
  define e where "e v = (case ph_auto v of None \<Rightarrow> v
              | Some a \<Rightarrow> (if auto_is_tx a v \<and> wait_for_ack_tx v \<and> \<not> irq_bit (sr_irq_read (sr_reg s)) BIT_BRDCASTI
                   then enqueue_states wait_to_send_auto_reply v
                   else if main_is_tx v then v\<lparr>ph_signal_main := PHY_SIGNAL_FRAME_SENT_ACK\<rparr> else v))" for v
  have d: "destination_address (f n) = destination_address g" for n by (simp add: f_def assms(4))
  have qu: "quiet b s b u []" unfolding u_def by (auto intro: quiet_signal_main quiet_signal_auto quiet_refl)
  have close: "quiet b s SPI_IDLE (radio [SPI_CLOSE] (put_received x u)) []" if "destination_address x = destination_address g" for x
    by (rule quiet_radio [OF put_received_quiet [OF qu assms(2) that]]) (use assms(3) in simp)
  have fetch: "quiet b s SPI_BUSY (enqueue_states new_frame_states (put_received x (radio [DMA_READ_PAYLOAD y n] u))) [new_frame_states]"
    if "destination_address x = destination_address g" for x y n
    using quiet_enqueue [OF put_received_quiet [OF quiet_radio [OF qu, of "[DMA_READ_PAYLOAD y n]" SPI_BUSY] assms(2) that], of new_frame_states]
      assms(3) by simp
  have fin: "payload_read b s (e v)"
    if q: "quiet b s (if ns = [] then SPI_IDLE else SPI_BUSY) v ns" and n: "ns \<in> {[], [new_frame_states]}"
      and sig: "\<not> main_is_tx s \<Longrightarrow> ph_signal_main v = PHY_SIGNAL_FRAME_RECEIVED" for v ns
  proof -
    have same: "main_is_tx v = main_is_tx s" "ph_local_address v = ph_local_address s"
      "map_option destination_address (ph_auto v) = map_option destination_address (ph_auto s)"
      using q by (simp_all add: quiet_def main_is_tx_def)
    have tx: "main_is_tx s \<Longrightarrow> \<exists>a. ph_auto v = Some a \<and> \<not> auto_is_tx a v"
      using assms(2,5) same by (auto simp: received_frame_def auto_is_tx_def)
    have a: "payload_read b s v" if "\<not> main_is_tx s"
      unfolding payload_read_def using sig [OF that] q n by (intro conjI exI [where x = ns] exI [where x = "[]"]) (auto simp: mac_outcomes_def)
    have b: "payload_read b s (v\<lparr>ph_signal_main := PHY_SIGNAL_FRAME_SENT_ACK\<rparr>)"
      unfolding payload_read_def using quiet_signal_main [OF q] n
      by (intro conjI exI [where x = ns] exI [where x = "[]"]) (auto simp: mac_outcomes_def)
    have c: "payload_read b s (enqueue_states wait_to_send_auto_reply v)" if "\<not> main_is_tx s"
      unfolding payload_read_def using sig [OF that] quiet_enqueue [OF q] n
      by (intro conjI exI [where x = ns] exI [where x = "[wait_to_send_auto_reply]"]) (auto simp: mac_outcomes_def)
    show ?thesis
    proof (cases "main_is_tx s")
      case True
      then have "e v = v\<lparr>ph_signal_main := PHY_SIGNAL_FRAME_SENT_ACK\<rparr>" using tx same(1) by (auto simp: e_def)
      then show ?thesis using b by simp
    next
      case False
      then have "e v \<in> {v, enqueue_states wait_to_send_auto_reply v}" using same(1) by (auto simp: e_def split: option.split)
      then show ?thesis using a c False by auto
    qed
  qed
  have su: "\<not> main_is_tx s \<Longrightarrow> ph_signal_main u = PHY_SIGNAL_FRAME_RECEIVED" by (simp add: u_def)
  have sp: "ph_signal_main (put_received x v) = ph_signal_main v" for x v by (simp add: put_received_def)
  have r: "get_payload upd s = Some (e (if n = 0 then radio [SPI_CLOSE] (put_received (f n) u)
      else if payload_begin_it (f n) \<noteq> 0
      then enqueue_states new_frame_states (put_received ((f n)\<lparr>payload_end_it := payload_begin_it (f n) + unat n\<rparr>)
             (radio [DMA_READ_PAYLOAD (payload_begin_it (f n)) n] u))
      else radio [SPI_CLOSE] (put_received (f n) u)))" if "n = sr_frame_size (sr_reg s) - ph_header_size s" for n
    unfolding get_payload_def Let_def assms(1,2) option.case that f_def e_def u_def [symmetric] by simp
  show ?thesis
    unfolding r [OF refl] returns_simps
    using fin [where ns = "[]", simplified, OF close [OF d]] fin [where ns = "[new_frame_states]", simplified, OF fetch]
    by (simp add: d su sp)
qed

section \<open>A register of the application\<close>

lemma transfer_register_effect:
  assumes "answers_again s" and "b \<noteq> SPI_BUSY"
  shows "returns (transfer_register s) (\<lambda>t. (\<exists>c\<in>{SPI_IDLE, b}. quiet b s c t []) \<and> ph_signal_main t = ph_signal_main s \<and>
    ph_input t = ph_input s \<and> sent_frame t = sent_frame s \<and> ph_auto t = ph_auto s \<and> sr_reg t = sr_reg s)"
proof -
  obtain v u where u: "poll (\<lambda>v. v = 0) [] IS_TRANSFER_BUSY s = Some (v, u)" "quiet b s b u []" "kept s u" "sr_reg u = sr_reg s"
    by (rule poll_effect [OF quiet_refl assms(1), of "\<lambda>v. v = 0" b IS_TRANSFER_BUSY]) simp_all
  define w where "w = radio [SPI_CLOSE] u"
  have w: "wait_transfer s = Some w" by (simp add: wait_transfer_def u(1) w_def)
  have q: "quiet b s SPI_IDLE w []" unfolding w_def by (rule quiet_radio [OF u(2)]) (use assms(2) in simp)
  have k: "ph_signal_main w = ph_signal_main s" "ph_input w = ph_input s" "sent_frame w = sent_frame s" "ph_auto w = ph_auto s" "sr_reg w = sr_reg s"
    using u(3,4) kept_sent [OF u(3)] by (simp_all add: w_def kept_def)
  have wr: "quiet b s SPI_IDLE ((radio [write_register_op x y z] w)\<lparr>write_request_info := i\<rparr>) []" for x y z i
    by (intro quiet_flags, rule quiet_radio [OF q]) (simp add: write_register_op_def)
  have fin: "quiet b s c (finish_read_request x t) []" if "quiet b s c t []" for x t c
    unfolding finish_read_request_def Let_def by (intro quiet_flags, rule quiet_radio [OF that]) simp
  have rd: "quiet b s SPI_IDLE (finish_read_request x (snd (ask (READ_REG16 y) w))) []"
    "quiet b s SPI_IDLE (finish_read_request x (snd (ask (READ_REG8 y) w))) []" for x y
    by (rule fin, rule quiet_ask [OF q], simp)+
  have k2: "ph_signal_main (finish_read_request x t) = ph_signal_main t" "ph_input (finish_read_request x t) = ph_input t"
    "sent_frame (finish_read_request x t) = sent_frame t" "ph_auto (finish_read_request x t) = ph_auto t"
    "sr_reg (finish_read_request x t) = sr_reg t" for x t
    by (simp_all add: finish_read_request_def Let_def)
  define Q where "Q = (\<lambda>t. (\<exists>c\<in>{SPI_IDLE, b}. quiet b s c t []) \<and> ph_signal_main t = ph_signal_main s \<and> ph_input t = ph_input s \<and>
    sent_frame t = sent_frame s \<and> ph_auto t = ph_auto s \<and> sr_reg t = sr_reg s)"
  have QI: "Q t" if "c \<in> {SPI_IDLE, b}" "quiet b s c t []" "ph_signal_main t = ph_signal_main s" "ph_input t = ph_input s"
    "sent_frame t = sent_frame s" "ph_auto t = ph_auto s" "sr_reg t = sr_reg s" for t c
    unfolding Q_def using that by blast
  have "Q ((radio [write_register_op x y z] w)\<lparr>write_request_info := i\<rparr>)" for x y z i
    by (rule QI [OF _ wr]) (simp_all add: k)
  moreover have "Q (finish_read_request 0 s)" by (rule QI [OF _ fin [OF quiet_refl]]) (simp_all add: k2)
  moreover have "Q (finish_read_request x (snd (ask (READ_REG16 y) w)))" "Q (finish_read_request x (snd (ask (READ_REG8 y) w)))" for x y
    by (rule QI [OF _ rd(1)] QI [OF _ rd(2)]; simp add: k k2)+
  moreover have "Q s" by (rule QI [OF _ quiet_refl]) simp_all
  ultimately have "returns (transfer_register s) Q"
    unfolding transfer_register_def Let_def w split_def by simp
  then show ?thesis by (simp only: Q_def)
qed
lemma auto_reply_header_none:
  assumes "ph_input s = PHY_SIGNAL_DMA_CMPLT" and "ph_auto s = None" and "sr_frame_size (sr_reg s) = 0"
  shows "returns (get_auto_reply_header s) (outcome SPI_IDLE s)"
proof -
  have "quiet SPI_IDLE s SPI_IDLE (update_rssi (sr_rssi_rnsi (sr_reg s)) s) []" by (intro quiet_rssi quiet_refl)
  then show ?thesis
    using assms unfolding get_auto_reply_header_def Let_def by (auto simp: mac_outcomes_def intro!: outcomeI quiet_signals)
qed

end
