(* ===== verification/Phy_Run.thy ===== *)
theory Phy_Run
  imports Phy_Reception
begin

text \<open>
  Whole slots of the physical layer: the places where the machine waits between two interrupts, and that every
  interrupt which may come there takes it to another of them, along the protocol of the bus. \<open>waiting\<close> lists
  the places, \<open>settled\<close> those from which the MAC is told an outcome and chooses the next slot.
\<close>

section \<open>The environment of a slot\<close>

definition base :: "wps_phy \<Rightarrow> bool" where
  "base s \<longleftrightarrow> answers_again s \<and> pulses_known s \<and> (main_is_tx s \<longrightarrow> (\<forall>a. ph_auto s = Some a \<longrightarrow> \<not> auto_is_tx a s))"

lemma base_cong:
  assumes "ph_answers t = ph_answers s" "ph_channels t = ph_channels s" "ph_local_address t = ph_local_address s"
    "destination_address (ph_main t) = destination_address (ph_main s)"
    "map_option destination_address (ph_auto t) = map_option destination_address (ph_auto s)"
  shows "base t = base s" "main_is_tx t = main_is_tx s" "(received_frame t = None) = (received_frame s = None)"
proof -
  show m: "main_is_tx t = main_is_tx s" using assms by (simp add: main_is_tx_def)
  have "(ph_auto t = None) = (ph_auto s = None)" using assms(5) by (cases "ph_auto s"; cases "ph_auto t") auto
  then show "(received_frame t = None) = (received_frame s = None)" using m by (simp add: received_frame_def)
  have "(\<forall>a. ph_auto t = Some a \<longrightarrow> \<not> auto_is_tx a t) = (\<forall>a. ph_auto s = Some a \<longrightarrow> \<not> auto_is_tx a s)"
    using assms(3,5) by (cases "ph_auto s"; cases "ph_auto t") (auto simp: auto_is_tx_def)
  then show "base t = base s" using assms(1,2) m by (simp add: base_def answers_again_def pulses_known_def)
qed

lemma quiet_env:
  assumes "quiet b s c t ps"
  shows "base t = base s" "main_is_tx t = main_is_tx s" "(received_frame t = None) = (received_frame s = None)"
  by (rule base_cong; use assms in \<open>simp add: quiet_def\<close>)+

lemma env_prims [simp]:
  "base (radio os s) = base s" "base (advance s) = base s" "base (end_state s) = base s"
  "base (s\<lparr>ph_signal_main := x\<rparr>) = base s" "base (s\<lparr>ph_input := i\<rparr>) = base s" "base (s\<lparr>sr_reg := r\<rparr>) = base s" "base (s\<lparr>state_step := n\<rparr>) = base s"
  "main_is_tx (radio os s) = main_is_tx s" "main_is_tx (advance s) = main_is_tx s" "main_is_tx (end_state s) = main_is_tx s"
  "main_is_tx (s\<lparr>ph_signal_main := x\<rparr>) = main_is_tx s" "main_is_tx (s\<lparr>ph_input := i\<rparr>) = main_is_tx s"
  "main_is_tx (s\<lparr>sr_reg := r\<rparr>) = main_is_tx s" "main_is_tx (s\<lparr>state_step := n\<rparr>) = main_is_tx s"
  "received_frame (radio os s) = received_frame s" "received_frame (advance s) = received_frame s" "received_frame (end_state s) = received_frame s"
  "received_frame (s\<lparr>ph_signal_main := x\<rparr>) = received_frame s" "received_frame (s\<lparr>ph_input := i\<rparr>) = received_frame s"
  "received_frame (s\<lparr>sr_reg := r\<rparr>) = received_frame s" "received_frame (s\<lparr>state_step := n\<rparr>) = received_frame s"
  by (simp_all add: base_def main_is_tx_def received_frame_def auto_is_tx_def answers_again_def pulses_known_def radio_def advance_def end_state_def)

lemma advance_fields [simp]:
  "ph_input (advance s) = ph_input s" "ph_signal_main (advance s) = ph_signal_main s" "sr_reg (advance s) = sr_reg s"
  "ph_auto (advance s) = ph_auto s" "ph_ops (advance s) = ph_ops s" "ph_auto (end_state s) = ph_auto s" "sr_reg (end_state s) = sr_reg s"
  "ph_ops (end_state s) = ph_ops s"
  by (simp_all add: advance_def end_state_def)

section \<open>Where the machine waits\<close>

definition process_state :: "wps_phy \<Rightarrow> phy_state" where
  "process_state s = (if main_is_tx s then ST_PROCESS_EVENT_TX else ST_PROCESS_EVENT_RX)"

definition wait_states :: "wps_phy \<Rightarrow> phy_state list" where
  "wait_states s = [ST_CLOSE_SPI, ST_ENABLE_RADIO_IRQ, ST_READ_EVENTS, ST_CLOSE_SPI, process_state s, ST_END]"

definition sendable :: "wps_phy \<Rightarrow> bool" where
  "sendable s \<longleftrightarrow> (\<forall>f. sent_frame s = Some f \<longrightarrow> user_payload f \<noteq> 0 \<longrightarrow> unat (frame_header_size f) \<le> 9)"

text \<open>The lists that begin a slot: the configuration, the registers to overwrite, the frame; or a synchronisation.\<close>

definition starts :: "wps_phy \<Rightarrow> phy_state list list \<Rightarrow> bool" where
  "starts s gs \<longleftrightarrow> gs = [syncing_states] \<and> \<not> main_is_tx s \<or>
     sendable s \<and> (\<exists>os\<in>{[], [overwrite_register_states]}. gs = set_config_states # os @ slot_lists s)"

definition info_states :: "wps_phy \<Rightarrow> phy_state list set" where
  "info_states s = (if main_is_tx s then {handle_good_frame_auto_states, get_auto_reply_header_states}
     else {handle_good_frame_states, get_frame_header_states})"

inductive waiting :: "spi \<Rightarrow> wps_phy \<Rightarrow> bool" where
  W_new: "at s new_frame_states (ws @ gs) \<Longrightarrow> ws \<in> {[], [wait_to_send_auto_reply]} \<Longrightarrow> starts s gs \<Longrightarrow> base s \<Longrightarrow> waiting SPI_BUSY s"
| W_start: "at s g gs \<Longrightarrow> starts s (g # gs) \<Longrightarrow> base s \<Longrightarrow> waiting SPI_IDLE s"
| W_config: "at s [ST_CLOSE_SPI, ST_END] (os @ slot_lists s) \<Longrightarrow> os \<in> {[], [overwrite_register_states]} \<Longrightarrow> sendable s \<Longrightarrow> base s \<Longrightarrow>
    waiting SPI_BUSY s"
| W_payload: "at s set_payload_states [wait_states s] \<Longrightarrow> sent_frame s \<noteq> None \<Longrightarrow> base s \<Longrightarrow> waiting SPI_BUSY s"
| W_sent: "at s (wait_states s) [] \<Longrightarrow> base s \<Longrightarrow> waiting SPI_BUSY s"
| W_events: "at s [ST_READ_EVENTS, ST_CLOSE_SPI, process_state s, ST_END] ts \<Longrightarrow> ts \<in> {[], [transfer_register_states]} \<Longrightarrow> base s \<Longrightarrow>
    waiting SPI_IDLE s"
| W_syncing: "at s [ST_READ_EVENTS_SYNCING, ST_CLOSE_SPI, ST_PROCESS_EVENT_RX, ST_END] [] \<Longrightarrow> \<not> main_is_tx s \<Longrightarrow> base s \<Longrightarrow>
    waiting SPI_IDLE s"
| W_read: "at s [ST_CLOSE_SPI, process_state s, ST_END] ts \<Longrightarrow> ts \<in> {[], [transfer_register_states]} \<Longrightarrow> base s \<Longrightarrow> waiting SPI_BUSY s"
| W_register: "at s transfer_register_states [g] \<Longrightarrow> g \<in> info_states s \<Longrightarrow> base s \<Longrightarrow> waiting SPI_BUSY s"
| W_info: "at s g [] \<Longrightarrow> g \<in> info_states s \<Longrightarrow> base s \<Longrightarrow> waiting SPI_BUSY s"
| W_received: "at s get_payload_states [prepare_phy_states] \<Longrightarrow> received_frame s \<noteq> None \<Longrightarrow> base s \<Longrightarrow> waiting SPI_BUSY s"

inductive settled :: "spi \<Rightarrow> wps_phy \<Rightarrow> bool" where
  S_prepare: "at s prepare_phy_states (ns @ ws) \<Longrightarrow> ns \<in> {[], [new_frame_states]} \<Longrightarrow> ws \<in> {[], [wait_to_send_auto_reply]} \<Longrightarrow>
    answers_again s \<Longrightarrow> pulses_known s \<Longrightarrow> settled (if ns = [] then SPI_IDLE else SPI_BUSY) s"
| S_register: "at s transfer_register_states [prepare_phy_states] \<Longrightarrow> answers_again s \<Longrightarrow> pulses_known s \<Longrightarrow> settled SPI_IDLE s"

text \<open>What a call of the machine ends in: it waits, it waits with the configuration complete, or the slot is settled.\<close>

definition configured :: "spi \<Rightarrow> wps_phy \<Rightarrow> bool" where
  "configured b s \<longleftrightarrow> b = SPI_IDLE \<and> at s [ST_READ_EVENTS, ST_CLOSE_SPI, process_state s, ST_END] [] \<and> base s"

definition moving :: "spi \<Rightarrow> wps_phy \<Rightarrow> bool" where
  "moving b s \<longleftrightarrow> waiting b s \<and> ph_signal_main s \<in> {PHY_SIGNAL_YIELD, PHY_SIGNAL_PREPARE_DONE}"

definition after :: "spi \<Rightarrow> wps_phy \<Rightarrow> bool" where
  "after b s \<longleftrightarrow> moving b s \<or>
     configured b s \<and> ph_signal_main s = PHY_SIGNAL_CONFIG_COMPLETE \<or>
     settled b s \<and> ph_signal_main s \<in> mac_outcomes"

lemma afterI:
  "waiting b s \<Longrightarrow> ph_signal_main s \<in> {PHY_SIGNAL_YIELD, PHY_SIGNAL_PREPARE_DONE} \<Longrightarrow> after b s"
  "configured b s \<Longrightarrow> ph_signal_main s = PHY_SIGNAL_CONFIG_COMPLETE \<Longrightarrow> after b s"
  "settled b s \<Longrightarrow> ph_signal_main s \<in> mac_outcomes \<Longrightarrow> after b s"
  by (auto simp: after_def moving_def)

lemma movingI: "waiting b s \<Longrightarrow> ph_signal_main s \<in> {PHY_SIGNAL_YIELD, PHY_SIGNAL_PREPARE_DONE} \<Longrightarrow> moving b s"
  by (simp add: moving_def)

lemma moving_after: "loops upd b s (finished moving) \<Longrightarrow> loops upd b s (finished after)"
  by (fastforce simp: loops_def finished_def after_def)

lemmas list_defs = prepare_phy_states_def set_config_states_def set_header_states_def set_payload_states_def
  set_header_with_payload_states_def wait_radio_states_tx_def wait_radio_states_rx_def handle_good_frame_states_def
  handle_good_frame_auto_states_def get_frame_header_states_def get_auto_reply_header_states_def get_payload_states_def
  new_frame_states_def syncing_states_def wait_to_send_auto_reply_def transfer_register_states_def overwrite_register_states_def

lemma process_state_cong: "main_is_tx t = main_is_tx s \<Longrightarrow> process_state t = process_state s" "main_is_tx t = main_is_tx s \<Longrightarrow> wait_states t = wait_states s"
  by (simp_all add: process_state_def wait_states_def)

lemma slot_lists_cong: "sent_frame t = sent_frame s \<Longrightarrow> main_is_tx t = main_is_tx s \<Longrightarrow> slot_lists t = slot_lists s"
  by (simp add: slot_lists_def)

lemma sendable_cong: "sent_frame t = sent_frame s \<Longrightarrow> sendable t = sendable s"
  by (simp add: sendable_def)

lemma process_state_end: "process_state s \<noteq> ST_END" "process_state s \<noteq> ST_CLOSE_SPI"
  by (simp_all add: process_state_def)

section \<open>Sending\<close>

lemma enter_wait:
  assumes "at s (wait_states s) []" and "b \<noteq> SPI_BUSY" and "ph_input s = PHY_SIGNAL_DMA_CMPLT"
    and "ph_signal_main s = PHY_SIGNAL_PROCESSING" and "base s"
  shows "loops upd b s (finished after)"
proof (rule loops_close [OF assms(1) [unfolded wait_states_def] assms(3,4,2)])
  let ?u = "radio [SPI_CLOSE] (advance s)"
  assume a: "at ?u [ST_ENABLE_RADIO_IRQ, ST_READ_EVENTS, ST_CLOSE_SPI, process_state s, ST_END] []"
  have i: "ph_input (advance ?u) = PHY_SIGNAL_DMA_CMPLT" using assms(3) by simp
  note q = enable_irq_effect(1) [OF i, of SPI_IDLE] enable_irq_effect(2) [OF i]
  show "loops upd SPI_IDLE ?u (finished after)"
  proof (rule loops_stop [OF a _ q(1)])
    assume "at (enable_radio_irq (advance ?u)) [ST_READ_EVENTS, ST_CLOSE_SPI, process_state s, ST_END] ([] @ [])"
    moreover have "process_state (enable_radio_irq (advance ?u)) = process_state s" "base (enable_radio_irq (advance ?u))"
      using quiet_env [OF q(1)] assms(5) by (auto intro: process_state_cong)
    ultimately show "finished after SPI_IDLE (enable_radio_irq (advance ?u))"
      by (intro finished_here afterI(2)) (auto simp: configured_def q(2))
  qed (simp_all add: q(2))
qed
text \<open>A transfer of the frame was started: the next list waits for its end.\<close>

lemma finish_send:
  assumes "at s [ST_END] (ps @ [wait_states s])" and "ps \<in> {[], [set_payload_states]}" and "ps \<noteq> [] \<Longrightarrow> sent_frame s \<noteq> None"
    and "ph_signal_main s = PHY_SIGNAL_YIELD" and "base s"
  shows "finished after SPI_BUSY s"
proof (cases "ps = []")
  case True
  then have "at s [ST_END] (wait_states s # [])" using assms(1) by simp
  then show ?thesis
  proof (rule finished_end)
    assume "at (end_state s) (wait_states s) []"
    then have "waiting SPI_BUSY (end_state s)"
      using assms(5) process_state_cong(2) [of "end_state s" s] by (intro W_sent) simp_all
    then show "after SPI_BUSY (end_state s)" using assms(4) by (intro afterI(1)) simp_all
  qed (simp add: wait_states_def)
next
  case False
  then have "at s [ST_END] (set_payload_states # [wait_states s])" using assms(1,2) by simp
  then show ?thesis
  proof (rule finished_end)
    assume "at (end_state s) set_payload_states [wait_states s]"
    then have "waiting SPI_BUSY (end_state s)"
      using assms(3,5) False process_state_cong(2) [of "end_state s" s] by (intro W_payload) simp_all
    then show "after SPI_BUSY (end_state s)" using assms(4) by (intro afterI(1)) simp_all
  qed (simp add: set_payload_states_def)
qed

text \<open>The end of a list with the wait next, nothing in flight.\<close>

lemma end_to_wait:
  assumes "at s [ST_END] [wait_states s]" and "b \<noteq> SPI_BUSY" and "ph_input s = PHY_SIGNAL_DMA_CMPLT"
    and "ph_signal_main s = PHY_SIGNAL_PROCESSING" and "base s"
  shows "loops upd b s (finished after)"
proof (rule loops_end [OF assms(1) _ assms(4)])
  assume "at (end_state (advance s)) (wait_states s) []"
  then show "loops upd b (end_state (advance s)) (finished after)"
    using assms(2-5) process_state_cong(2) [of "end_state (advance s)" s] by (intro enter_wait) simp_all
qed (simp add: wait_states_def)

lemma sending_done:
  assumes "at s (st # [ST_END]) [wait_states s]" and "run_state upd st (advance s) = Some t" and "sending b (advance s) t"
    and "b \<noteq> SPI_BUSY" and "base s"
  shows "loops upd b s (finished after)"
proof (cases "ph_signal_main t = PHY_SIGNAL_YIELD")
  case True
  have q: "quiet b (advance s) SPI_BUSY t []" using assms(3) True by (auto simp: sending_def)
  show ?thesis
  proof (rule loops_stop [OF assms(1,2) q])
    assume "at t [ST_END] ([wait_states s] @ [])"
    then show "finished after SPI_BUSY t"
      using quiet_env [OF q] assms(5) process_state_cong(2) [of t s] True by (intro finish_send [where ps = "[]"]) simp_all
  qed (simp_all add: True)
next
  case False
  have q: "quiet b (advance s) b t []" "ph_signal_main t = PHY_SIGNAL_PROCESSING" "ph_input t = PHY_SIGNAL_DMA_CMPLT"
    using assms(3) False by (auto simp: sending_def)
  show ?thesis
  proof (rule loops_go [OF assms(1,2) q(1) _ q(2)])
    assume "at t [ST_END] ([wait_states s] @ [])"
    then show "loops upd b t (finished after)"
      using quiet_env [OF q(1)] assms(4,5) process_state_cong(2) [of t s] q by (intro end_to_wait) simp_all
  qed simp
qed

lemma slot_lists_cases:
  obtains "slot_lists s = [wait_states s]"
  | f ps where "sent_frame s = Some f" "user_payload f \<noteq> 0" "ps \<in> {[], [set_payload_states]}" "slot_lists s = set_header_states # ps @ [wait_states s]"
  | f where "sent_frame s = Some f" "slot_lists s = [set_header_with_payload_states, wait_states s]"
proof -
  have w: "(if main_is_tx s then wait_radio_states_tx else wait_radio_states_rx) = wait_states s"
    by (simp add: wait_states_def process_state_def list_defs)
  show thesis
  proof (cases "sent_frame s")
    case None
    then show thesis using that(1) by (simp add: slot_lists_def w)
  next
    case (Some f)
    then have sl: "slot_lists s = header_lists (frame_header_size f) (frame_payload_size f) (user_payload f \<noteq> 0) @ [wait_states s]"
      by (simp add: slot_lists_def w frame_lists_def)
    have z: "frame_payload_size f \<noteq> 0 \<Longrightarrow> unat (frame_payload_size f) \<noteq> 0" by (simp add: unat_eq_0)
    consider (none) "unat (frame_header_size f) + unat (frame_payload_size f) = 0"
      | (user) "unat (frame_header_size f) + unat (frame_payload_size f) \<noteq> 0" "user_payload f \<noteq> 0"
      | (one) "unat (frame_header_size f) + unat (frame_payload_size f) \<noteq> 0" "user_payload f = 0" by blast
    then show thesis
    proof cases
      case none
      then have "header_lists (frame_header_size f) (frame_payload_size f) (user_payload f \<noteq> 0) = []"
        using z by (auto simp: header_lists_def)
      then show thesis using sl by (intro that(1)) (simp only: append_Nil)
    next
      case user
      then have "header_lists (frame_header_size f) (frame_payload_size f) (user_payload f \<noteq> 0) =
          set_header_states # (if frame_payload_size f \<noteq> 0 then [set_payload_states] else [])"
        by (simp only: header_lists_def if_True append.simps not_False_eq_True)
      then show thesis
        using sl by (intro that(2) [OF Some user(2), of "if frame_payload_size f \<noteq> 0 then [set_payload_states] else []"]) (simp_all only: append.simps, simp)
    next
      case one
      then have "header_lists (frame_header_size f) (frame_payload_size f) (user_payload f \<noteq> 0) = [set_header_with_payload_states]"
        by (simp only: header_lists_def if_True if_False not_False_eq_True simp_thms)
      then show thesis using sl by (intro that(3) [OF Some]) (simp only: append.simps)
    qed
  qed
qed

lemma send_frame:
  assumes "at s [ST_END] (slot_lists s)" and "b \<noteq> SPI_BUSY" and "ph_input s = PHY_SIGNAL_DMA_CMPLT"
    and "ph_signal_main s = PHY_SIGNAL_PROCESSING" and "base s" and "sendable s"
  shows "loops upd b s (finished after)"
proof (cases rule: slot_lists_cases [of s])
  case 1
  then show ?thesis using assms end_to_wait by simp
next
  case (2 f ps)
  define u where "u = end_state (advance s)"
  define v where "v = radio [SPI_CLOSE] (advance u)"
  have u: "ph_input u = PHY_SIGNAL_DMA_CMPLT" "ph_signal_main u = PHY_SIGNAL_PROCESSING" using assms(3,4) by (simp_all add: u_def)
  have f: "sent_frame (advance v) = Some f" "unat (frame_header_size f) \<le> 9" "wait_states v = wait_states s"
    using 2 assms(6) process_state_cong(2) [of v s] by (simp_all add: u_def v_def sendable_def)
  show ?thesis
  proof (rule loops_end [OF assms(1) [unfolded 2(4)] _ assms(4), folded u_def])
    assume a: "at u set_header_states (ps @ [wait_states s])"
    show "loops upd b u (finished after)"
    proof (rule loops_close [OF a [unfolded set_header_states_def] u assms(2), folded v_def])
      assume a: "at v [ST_SET_HEADER, ST_END] (ps @ [wait_states s])"
      obtain t where t: "set_header (advance v) = Some t" "quiet SPI_IDLE (advance v) SPI_BUSY t []" "ph_signal_main t = PHY_SIGNAL_YIELD"
        "sent_frame t = sent_frame (advance v)"
        using set_header_effect [OF f(1,2), of SPI_IDLE] by (auto simp: returns_def)
      show "loops upd SPI_IDLE v (finished after)"
      proof (rule loops_stop [OF a _ t(2)])
        assume "at t [ST_END] ((ps @ [wait_states s]) @ [])"
        moreover have "wait_states t = wait_states s" "base t"
          using quiet_env [OF t(2)] assms(5) process_state_cong(2) [of t s] by (simp_all add: u_def v_def)
        ultimately show "finished after SPI_BUSY t"
          using t 2(3) f(1) by (intro finish_send [of _ ps]) auto
      qed (use t 2(3) in auto)
    qed
  qed (simp add: set_header_states_def)
next
  case (3 f)
  define u where "u = end_state (advance s)"
  define v where "v = radio [SPI_CLOSE] (advance u)"
  have u: "ph_input u = PHY_SIGNAL_DMA_CMPLT" "ph_signal_main u = PHY_SIGNAL_PROCESSING" using assms(3,4) by (simp_all add: u_def)
  have f: "sent_frame (advance v) = Some f" "wait_states v = wait_states s" "base v" "ph_input (advance v) = PHY_SIGNAL_DMA_CMPLT"
    using 3 assms u process_state_cong(2) [of v s] by (simp_all add: u_def v_def)
  show ?thesis
  proof (rule loops_end [OF assms(1) [unfolded 3(2)] _ assms(4), folded u_def])
    assume a: "at u set_header_with_payload_states [wait_states s]"
    show "loops upd b u (finished after)"
    proof (rule loops_close [OF a [unfolded set_header_with_payload_states_def] u assms(2), folded v_def])
      assume a: "at v [ST_SET_HEADER_AND_PAYLOAD, ST_END] [wait_states s]"
      obtain t where t: "set_header_and_payload (advance v) = Some t" "sending SPI_IDLE (advance v) t"
        using set_header_and_payload_effect [OF f(1,4), of SPI_IDLE] by (auto simp: returns_def)
      show "loops upd SPI_IDLE v (finished after)"
        by (rule sending_done [OF a [folded f(2)] _ t(2)]) (use t f in simp_all)
    qed
  qed (simp add: set_header_with_payload_states_def)
qed
section \<open>Starting a slot\<close>

lemma slot_lists_length: "length (slot_lists s) \<le> 3"
  by (cases rule: slot_lists_cases [of s]) auto

lemma starts_cong: "sent_frame t = sent_frame s \<Longrightarrow> main_is_tx t = main_is_tx s \<Longrightarrow> starts t gs = starts s gs"
  using slot_lists_cong [of t s] sendable_cong [of t s] by (simp add: starts_def)

lemma starts_length: "starts s gs \<Longrightarrow> length gs \<le> 5"
  using slot_lists_length [of s] by (auto simp: starts_def)

lemma starts_head: "starts s (g # gs) \<Longrightarrow> length g \<le> 10"
  by (auto simp: starts_def list_defs)

lemma starts_nonempty: "starts s gs \<Longrightarrow> \<exists>g hs. gs = g # hs"
  by (auto simp: starts_def)

lemma enter_start:
  assumes "at s g gs" and "starts s (g # gs)" and "base s"
  shows "loops upd SPI_IDLE s (finished moving)"
proof (cases "g = syncing_states")
  case True
  then have g: "gs = []" "\<not> main_is_tx s" using assms(2) by (auto simp: starts_def list_defs)
  have "pulses_known (advance s)" using assms(3) by (simp add: base_def pulses_known_def advance_def)
  then obtain t where t: "prepare_syncing (advance s) = Some t" "quiet SPI_IDLE (advance s) SPI_IDLE t []" "ph_signal_main t = PHY_SIGNAL_YIELD"
    using prepare_syncing_effect by (fastforce simp: returns_def)
  show ?thesis
  proof (rule loops_stop [OF assms(1) [unfolded True syncing_states_def g] _ t(2)])
    assume a: "at t [ST_READ_EVENTS_SYNCING, ST_CLOSE_SPI, ST_PROCESS_EVENT_RX, ST_END] ([] @ [])"
    have "waiting SPI_IDLE t" by (rule W_syncing) (use a g assms(3) quiet_env [OF t(2)] in simp_all)
    then show "finished moving SPI_IDLE t" by (intro finished_here [OF a] movingI) (simp_all add: t(3))
  qed (simp_all add: t)
next
  case False
  then obtain os where g: "g = set_config_states" "os \<in> {[], [overwrite_register_states]}" "gs = os @ slot_lists s" "sendable s"
    using assms(2) by (auto simp: starts_def)
  have "answers_again (advance s)" using assms(3) by (simp add: base_def answers_again_def advance_def)
  then obtain t where t: "set_config (advance s) = Some t" "quiet SPI_IDLE (advance s) SPI_BUSY t []"
    "ph_signal_main t = PHY_SIGNAL_PREPARE_DONE" "sent_frame t = sent_frame (advance s)"
    using set_config_effect by (fastforce simp: returns_def)
  show ?thesis
  proof (rule loops_stop [OF assms(1) [unfolded g(1) set_config_states_def] _ t(2)])
    assume a: "at t [ST_CLOSE_SPI, ST_END] (gs @ [])"
    have "slot_lists t = slot_lists s" "sendable t = sendable s"
      using t(4) quiet_env [OF t(2)] slot_lists_cong [of t s] sendable_cong [of t s] by simp_all
    then have "waiting SPI_BUSY t"
      using a g assms(3) quiet_env [OF t(2)] by (intro W_config [of _ os]) simp_all
    then show "finished moving SPI_BUSY t" by (intro finished_here [OF a] movingI) (simp_all add: t(3))
  qed (use t starts_length [OF assms(2)] in simp_all)
qed

lemma end_to_start:
  assumes "at s [ST_END] gs" and "starts s gs" and "base s" and "ph_signal_main s = PHY_SIGNAL_PROCESSING"
  shows "loops upd SPI_IDLE s (finished moving)"
proof -
  obtain g hs where g: "gs = g # hs" using starts_nonempty [OF assms(2)] by blast
  show ?thesis
  proof (rule loops_end [OF assms(1) [unfolded g] _ assms(4)])
    assume "at (end_state (advance s)) g hs"
    then show "loops upd SPI_IDLE (end_state (advance s)) (finished moving)"
      using assms(2,3) starts_cong [of "end_state (advance s)" s] g by (intro enter_start) simp_all
  qed (use starts_head assms(2) g in blast)
qed

lemma config_done:
  assumes "at s [ST_CLOSE_SPI, ST_END] (os @ slot_lists s)" and "os \<in> {[], [overwrite_register_states]}" and "sendable s" and "base s"
    and "b \<noteq> SPI_BUSY" and "ph_input s = PHY_SIGNAL_DMA_CMPLT" and "ph_signal_main s = PHY_SIGNAL_PROCESSING"
  shows "loops upd b s (finished after)"
proof (rule loops_close [OF assms(1,6,7,5)])
  let ?u = "radio [SPI_CLOSE] (advance s)"
  assume a: "at ?u [ST_END] (os @ slot_lists s)"
  have u: "slot_lists ?u = slot_lists s" "sendable ?u = sendable s" by (rule slot_lists_cong sendable_cong; simp)+
  show "loops upd SPI_IDLE ?u (finished after)"
  proof (cases "os = []")
    case True
    then show ?thesis using a u assms by (intro send_frame) simp_all
  next
    case False
    let ?v = "end_state (advance ?u)"
    have o: "os @ slot_lists s = overwrite_register_states # slot_lists s" using False assms(2) by simp
    show ?thesis
    proof (rule loops_end [OF a [unfolded o]])
      assume a: "at ?v overwrite_register_states (slot_lists s)"
      have nb: "SPI_IDLE \<noteq> SPI_BUSY" by simp
      note q = overwrite_effect(1) [OF nb, of "advance ?v"] overwrite_effect(2-4) [OF nb, of "advance ?v"]
      show "loops upd SPI_IDLE ?v (finished after)"
      proof (rule loops_go [OF a [unfolded overwrite_register_states_def] _ q(1)])
        assume a: "at (overwrite_registers (advance ?v)) [ST_END] (slot_lists s @ [])"
        have "slot_lists (overwrite_registers (advance ?v)) = slot_lists s" "sendable (overwrite_registers (advance ?v)) = sendable s"
          using q(2) quiet_env(2) [OF q(1)] slot_lists_cong [of "overwrite_registers (advance ?v)" s]
            sendable_cong [of "overwrite_registers (advance ?v)" s] by simp_all
        then show "loops upd SPI_IDLE (overwrite_registers (advance ?v)) (finished after)"
          using a assms quiet_env [OF q(1)] q by (intro send_frame) simp_all
      qed (use q assms slot_lists_length [of s] in simp_all)
    qed (simp_all add: overwrite_register_states_def assms)
  qed
qed

lemma enter_check_irq:
  assumes "at s wait_to_send_auto_reply gs" and "starts s gs" and "base s" and "ph_signal_main s = PHY_SIGNAL_PROCESSING"
  shows "loops upd SPI_IDLE s (finished moving)"
proof -
  define t where "t = check_radio_irq (advance s)"
  note q = check_irq_effect(1) [of SPI_IDLE "advance s", folded t_def] check_irq_effect(2-4) [of "advance s", folded t_def]
  have t: "starts t gs" "base t" using q(2) quiet_env [OF q(1)] assms(2,3) starts_cong [of t s] by simp_all
  show ?thesis
  proof (cases "ph_signal_main t = PHY_SIGNAL_PROCESSING")
    case True
    show ?thesis
    proof (rule loops_go [OF assms(1) [unfolded wait_to_send_auto_reply_def] _ q(1) _ True])
      assume "at t [ST_END] (gs @ [])"
      then show "loops upd SPI_IDLE t (finished moving)" using t True by (intro end_to_start) simp_all
    qed (use starts_length [OF assms(2)] in \<open>simp_all add: t_def\<close>)
  next
    case False
    then have y: "ph_signal_main t = PHY_SIGNAL_YIELD" using q(4) assms(4) by auto
    obtain g hs where g: "gs = g # hs" using starts_nonempty [OF assms(2)] by blast
    show ?thesis
    proof (rule loops_stop [OF assms(1) [unfolded wait_to_send_auto_reply_def] _ q(1) _ False])
      assume "at t [ST_END] (gs @ [])"
      then have "at t [ST_END] (g # hs)" by (simp add: g)
      then show "finished moving SPI_IDLE t"
      proof (rule finished_end)
        assume "at (end_state t) g hs"
        then have "waiting SPI_IDLE (end_state t)"
          using t starts_cong [of "end_state t" t] g by (intro W_start) simp_all
        then show "moving SPI_IDLE (end_state t)" by (intro movingI) (simp_all add: y)
      qed (use starts_head assms(2) g in blast)
    qed (use starts_length [OF assms(2)] in \<open>simp_all add: t_def\<close>)
  qed
qed
lemma new_frame_done:
  assumes "at s new_frame_states (ws @ gs)" and "ws \<in> {[], [wait_to_send_auto_reply]}" and "starts s gs" and "base s"
    and "b \<noteq> SPI_BUSY" and "ph_input s = PHY_SIGNAL_DMA_CMPLT" and "ph_signal_main s = PHY_SIGNAL_PROCESSING"
  shows "loops upd b s (finished after)"
proof (rule loops_close [OF assms(1) [unfolded new_frame_states_def] assms(6,7,5)])
  let ?u = "radio [SPI_CLOSE] (advance s)"
  assume a: "at ?u [ST_END] (ws @ gs)"
  have u: "starts ?u gs" using assms(3) starts_cong [of ?u s] by simp
  show "loops upd SPI_IDLE ?u (finished after)"
  proof (cases "ws = []")
    case True
    then show ?thesis using a u assms by (intro moving_after end_to_start) simp_all
  next
    case False
    then have w: "ws @ gs = wait_to_send_auto_reply # gs" using assms(2) by simp
    show ?thesis
    proof (rule loops_end [OF a [unfolded w]])
      assume "at (end_state (advance ?u)) wait_to_send_auto_reply gs"
      then show "loops upd SPI_IDLE (end_state (advance ?u)) (finished after)"
        using assms starts_cong [of "end_state (advance ?u)" s] by (intro moving_after enter_check_irq) simp_all
    qed (simp_all add: wait_to_send_auto_reply_def assms)
  qed
qed

text \<open>The slot the MAC chose: the preparation runs behind what the last slot left in the ring.\<close>

definition chosen :: "wps_phy \<Rightarrow> bool" where
  "chosen s \<longleftrightarrow> base s \<and> sendable s \<and> ph_input s \<in> {PHY_SIGNAL_PREPARE_RADIO, PHY_SIGNAL_SYNCING} \<and>
     (ph_input s = PHY_SIGNAL_SYNCING \<longrightarrow> \<not> main_is_tx s)"

lemma enter_prepare:
  assumes "at s prepare_phy_states (ns @ ws)" and "ns \<in> {[], [new_frame_states]}" and "ws \<in> {[], [wait_to_send_auto_reply]}"
    and "chosen s" and "ph_signal_main s = PHY_SIGNAL_PROCESSING"
  shows "loops upd (if ns = [] then SPI_IDLE else SPI_BUSY) s (finished moving)"
proof -
  let ?b = "if ns = [] then SPI_IDLE else SPI_BUSY" and ?gs = "prep_lists (advance s)"
  have "pulses_known (advance s)" using assms(4) by (simp add: chosen_def base_def pulses_known_def advance_def)
  then obtain t where t: "prepare_phy (advance s) = Some t" "quiet ?b (advance s) ?b t ?gs" "kept (advance s) t"
    by (rule prepare_phy_effect)
  have k: "sent_frame t = sent_frame s" "ph_input t = ph_input s" "main_is_tx t = main_is_tx s" "base t"
      "ph_signal_main t = PHY_SIGNAL_PROCESSING"
    using kept_sent [OF t(3)] t(3) quiet_env [OF t(2)] assms(4,5) by (simp_all add: kept_def chosen_def)
  have l: "slot_lists (advance s) = slot_lists s" by (rule slot_lists_cong) simp_all
  have "starts s ?gs" using assms(4) by (auto simp: prep_lists_def starts_def chosen_def l)
  then have st: "starts t ?gs" using k starts_cong [of t s] by simp
  show ?thesis
  proof (rule loops_go [OF assms(1) [unfolded prepare_phy_states_def] _ t(2)])
    assume a: "at t [ST_END] ((ns @ ws) @ ?gs)"
    show "loops upd ?b t (finished moving)"
    proof (cases "ns = []")
      case True
      show ?thesis
      proof (cases "ws = []")
        case True
        then show ?thesis using a \<open>ns = []\<close> st k by (auto intro: end_to_start)
      next
        case False
        then have w: "(ns @ ws) @ ?gs = wait_to_send_auto_reply # ?gs" using assms(3) \<open>ns = []\<close> by simp
        have "loops upd SPI_IDLE t (finished moving)"
        proof (rule loops_end [OF a [unfolded w] _ k(5)])
          assume "at (end_state (advance t)) wait_to_send_auto_reply ?gs"
          then show "loops upd SPI_IDLE (end_state (advance t)) (finished moving)"
            using st k starts_cong [of "end_state (advance t)" t] by (intro enter_check_irq) simp_all
        qed (simp add: wait_to_send_auto_reply_def)
        then show ?thesis using \<open>ns = []\<close> by simp
      qed
    next
      case False
      then have w: "(ns @ ws) @ ?gs = new_frame_states # (ws @ ?gs)" using assms(2) by simp
      let ?v = "end_state (advance t)"
      have "loops upd SPI_BUSY t (finished moving)"
      proof (rule loops_end [OF a [unfolded w] _ k(5)])
        assume a: "at ?v new_frame_states (ws @ ?gs)"
        have i: "ph_input ?v \<noteq> PHY_SIGNAL_DMA_CMPLT" using k(2) assms(4) by (auto simp: chosen_def)
        let ?w = "(advance ?v)\<lparr>state_step := state_step (advance ?v) - 1, ph_signal_main := PHY_SIGNAL_YIELD\<rparr>"
        show "loops upd SPI_BUSY ?v (finished moving)"
        proof (rule loops_wait [OF a [unfolded new_frame_states_def] i])
          assume a: "at ?w [ST_CLOSE_SPI, ST_END] (ws @ ?gs)"
          have "starts ?w ?gs" using st starts_cong [of ?w t] by simp
          then have "waiting SPI_BUSY ?w"
            using a assms(3) k by (intro W_new [of _ ws ?gs]) (simp_all add: new_frame_states_def)
          then show "finished moving SPI_BUSY ?w" by (intro finished_here [OF a] movingI) simp_all
        qed
      qed (simp add: new_frame_states_def)
      then show ?thesis using False by simp
    qed
  qed (use t k starts_length [OF st] assms(2,3) in auto)
qed

lemma settled_chosen:
  assumes "settled b s" and "chosen s" and "ph_signal_main s = PHY_SIGNAL_PROCESSING"
  shows "loops upd b s (finished moving)"
  using assms(1)
proof cases
  case (S_prepare ns ws)
  then show ?thesis using enter_prepare [of s ns ws] assms by simp
next
  case S_register
  have "answers_again (advance s)" using assms(2) by (simp add: chosen_def base_def answers_again_def advance_def)
  then obtain t where t: "transfer_register (advance s) = Some t" "quiet SPI_IDLE (advance s) SPI_IDLE t []"
    "ph_signal_main t = PHY_SIGNAL_PROCESSING" "ph_input t = ph_input s" "sent_frame t = sent_frame s"
    using transfer_register_effect [of "advance s" SPI_IDLE] assms(3) by (auto simp: returns_def)
  have c: "chosen t" using assms(2) t(4,5) quiet_env [OF t(2)] sendable_cong [of t s] by (simp add: chosen_def)
  show ?thesis
    unfolding S_register(1)
  proof (rule loops_go [OF S_register(2) [unfolded transfer_register_states_def] _ t(2)])
    assume a: "at t [ST_END] ([prepare_phy_states] @ [])"
    then have "at t [ST_END] (prepare_phy_states # [])" by simp
    then show "loops upd SPI_IDLE t (finished moving)"
    proof (rule loops_end)
      assume "at (end_state (advance t)) prepare_phy_states []"
      moreover have "chosen (end_state (advance t))"
        using c sendable_cong [of "end_state (advance t)" t] by (simp add: chosen_def)
      ultimately show "loops upd SPI_IDLE (end_state (advance t)) (finished moving)"
        using enter_prepare [of "end_state (advance t)" "[]" "[]" upd] t(3) by simp
    qed (simp_all add: prepare_phy_states_def t)
  qed (use t in simp_all)
qed
section \<open>Events and received frames\<close>

lemma settle:
  assumes "at s (ST_END # rest) (ts @ [prepare_phy_states])" and "ts \<in> {[], [transfer_register_states]}"
    and "ph_signal_main s \<in> mac_outcomes" and "base s"
  shows "finished after SPI_IDLE s"
proof -
  have e: "answers_again (end_state s)" "pulses_known (end_state s)"
    using assms(4) by (simp_all add: base_def answers_again_def pulses_known_def end_state_def)
  show ?thesis
  proof (cases "ts = []")
    case True
    then have "at s (ST_END # rest) (prepare_phy_states # [])" using assms(1) by simp
    then show ?thesis
    proof (rule finished_end)
      assume "at (end_state s) prepare_phy_states []"
      then have "settled SPI_IDLE (end_state s)" using S_prepare [of "end_state s" "[]" "[]"] e by simp
      then show "after SPI_IDLE (end_state s)" using assms(3) by (intro afterI(3)) simp_all
    qed (simp add: prepare_phy_states_def)
  next
    case False
    then have "at s (ST_END # rest) (transfer_register_states # [prepare_phy_states])" using assms(1,2) by simp
    then show ?thesis
    proof (rule finished_end)
      assume "at (end_state s) transfer_register_states [prepare_phy_states]"
      then have "settled SPI_IDLE (end_state s)" using e by (intro S_register) simp_all
      then show "after SPI_IDLE (end_state s)" using assms(3) by (intro afterI(3)) simp_all
    qed (simp add: transfer_register_states_def)
  qed
qed

lemma info_length: "g \<in> info_states s \<Longrightarrow> length g \<le> 10"
  by (auto simp: info_states_def list_defs split: if_splits)

lemma info_states_cong: "main_is_tx t = main_is_tx s \<Longrightarrow> info_states t = info_states s"
  by (simp add: info_states_def)

lemma fetch_started:
  assumes "at s (ST_END # rest) (ts @ [g])" and "ts \<in> {[], [transfer_register_states]}" and "g \<in> info_states s"
    and "ph_signal_main s = PHY_SIGNAL_YIELD" and "base s"
  shows "finished after SPI_BUSY s"
proof (cases "ts = []")
  case True
  then have "at s (ST_END # rest) (g # [])" using assms(1) by simp
  then show ?thesis
  proof (rule finished_end)
    assume "at (end_state s) g []"
    then have "waiting SPI_BUSY (end_state s)" using assms(3,5) info_states_cong [of "end_state s" s] by (intro W_info) simp_all
    then show "after SPI_BUSY (end_state s)" using assms(4) by (intro afterI(1)) simp_all
  qed (use info_length assms(3) in blast)
next
  case False
  then have "at s (ST_END # rest) (transfer_register_states # [g])" using assms(1,2) by simp
  then show ?thesis
  proof (rule finished_end)
    assume "at (end_state s) transfer_register_states [g]"
    then have "waiting SPI_BUSY (end_state s)" using assms(3,5) info_states_cong [of "end_state s" s] by (intro W_register) simp_all
    then show "after SPI_BUSY (end_state s)" using assms(4) by (intro afterI(1)) simp_all
  qed (simp add: transfer_register_states_def)
qed

definition event_handled :: "wps_phy \<Rightarrow> bool" where
  "event_handled s \<longleftrightarrow> (if main_is_tx s then tx_handled (sr_irq_read (sr_reg s)) else rx_handled (sr_irq_read (sr_reg s)))"

lemma event_done:
  assumes "at s [ST_CLOSE_SPI, process_state s, ST_END] ts" and "ts \<in> {[], [transfer_register_states]}" and "base s"
    and "b \<noteq> SPI_BUSY" and "ph_input s = PHY_SIGNAL_DMA_CMPLT" and "ph_signal_main s = PHY_SIGNAL_PROCESSING" and "event_handled s"
  shows "loops upd b s (finished after)"
proof (rule loops_close [OF assms(1,5,6,4)])
  let ?u = "radio [SPI_CLOSE] (advance s)"
  let ?v = "advance ?u"
  assume a: "at ?u [process_state s, ST_END] ts"
  have v: "ph_input ?v = PHY_SIGNAL_DMA_CMPLT" "sr_reg ?v = sr_reg s" "main_is_tx ?v = main_is_tx s" using assms(5) by simp_all
  have ag: "answers_again ?v" using assms(3) by (simp add: base_def answers_again_def advance_def radio_def)
  obtain t where t: "run_state upd (process_state s) ?v = Some t"
    "outcome SPI_IDLE ?v t \<or> (\<exists>g\<in>info_states s. fetching ?v [g] t)"
  proof (cases "main_is_tx s")
    case True
    then show ?thesis using that [of "process_event_tx ?v"] event_tx_effect [OF v(1)] v assms(7)
      by (auto simp: process_state_def event_handled_def info_states_def)
  next
    case False
    then show ?thesis using that event_rx_effect [OF v(1) _ ag] v assms(7)
      by (auto simp: process_state_def event_handled_def info_states_def returns_def)
  qed
  have l: "length ts + 1 \<le> 10" using assms(2) by auto
  from t(2) show "loops upd SPI_IDLE ?u (finished after)"
  proof
    assume "outcome SPI_IDLE ?v t"
    then have q: "quiet SPI_IDLE ?v SPI_IDLE t [prepare_phy_states]" and m: "ph_signal_main t \<in> mac_outcomes" by (auto simp: outcome_def)
    show ?thesis
    proof (rule loops_stop [OF a t(1) q])
      assume "at t [ST_END] (ts @ [prepare_phy_states])"
      then show "finished after SPI_IDLE t" using assms(2,3) m quiet_env [OF q] by (intro settle) simp_all
    qed (use l m in \<open>auto simp: mac_outcomes_def\<close>)
  next
    assume "\<exists>g\<in>info_states s. fetching ?v [g] t"
    then obtain g where g: "g \<in> info_states s" and q: "quiet SPI_IDLE ?v SPI_BUSY t [g]" and m: "ph_signal_main t = PHY_SIGNAL_YIELD"
      by (auto simp: fetching_def)
    show ?thesis
    proof (rule loops_stop [OF a t(1) q])
      assume "at t [ST_END] (ts @ [g])"
      then show "finished after SPI_BUSY t"
        using assms(2,3) m g quiet_env [OF q] info_states_cong [of t s] by (intro fetch_started) simp_all
    qed (use l m in auto)
  qed
qed

lemma enter_payload:
  assumes "at s get_payload_states [prepare_phy_states]" and "received_frame s \<noteq> None" and "base s" and "b \<noteq> SPI_BUSY"
    and "ph_input s = PHY_SIGNAL_DMA_CMPLT" and "\<And>k f n. destination_address (upd k f n) = destination_address f"
  shows "loops upd b s (finished after)"
proof -
  obtain g where g: "received_frame (advance s) = Some g" using assms(2) by auto
  have m: "main_is_tx (advance s) \<Longrightarrow> ph_auto (advance s) = Some g \<Longrightarrow> \<not> auto_is_tx g (advance s)"
    using assms(3) by (auto simp: base_def auto_is_tx_def advance_def)
  have i: "ph_input (advance s) = PHY_SIGNAL_DMA_CMPLT" using assms(5) by simp
  obtain t ns ws where t: "get_payload upd (advance s) = Some t" "ph_signal_main t \<in> mac_outcomes"
      "ns \<in> {[], [new_frame_states]}" "ws \<in> {[], [wait_to_send_auto_reply]}"
    and q: "quiet b (advance s) (if ns = [] then SPI_IDLE else SPI_BUSY) t (ns @ ws)"
    using payload_effect [where upd = upd, OF i g assms(4,6) m] unfolding returns_def payload_read_def by blast
  show ?thesis
  proof (rule loops_stop [OF assms(1) [unfolded get_payload_states_def] _ q])
    assume "at t [ST_END] ([prepare_phy_states] @ (ns @ ws))"
    then have "at t [ST_END] (prepare_phy_states # (ns @ ws))" by simp
    then show "finished after (if ns = [] then SPI_IDLE else SPI_BUSY) t"
    proof (rule finished_end)
      assume "at (end_state t) prepare_phy_states (ns @ ws)"
      moreover have "base t" using quiet_env [OF q] assms(3) by simp
      ultimately have "settled (if ns = [] then SPI_IDLE else SPI_BUSY) (end_state t)"
        using t(3,4) by (intro S_prepare) (simp_all add: base_def answers_again_def pulses_known_def end_state_def)
      then show "after (if ns = [] then SPI_IDLE else SPI_BUSY) (end_state t)" using t(2) by (intro afterI(3)) simp_all
    qed (simp add: prepare_phy_states_def)
  qed (use t in \<open>auto simp: mac_outcomes_def\<close>)
qed
text \<open>The header of a frame of another node: it is over, or its payload is next.\<close>

definition header_known :: "wps_phy \<Rightarrow> bool" where
  "header_known s \<longleftrightarrow> ph_auto s = None \<longrightarrow> sr_frame_size (sr_reg s) = 0"

lemma header_done:
  assumes "at s [st, ST_END] []" and "run_state upd st (advance s) = Some t" and "header_read (advance s) t"
    and "outcome SPI_IDLE (advance s) t \<or> received_frame s \<noteq> None" and "base s"
    and "\<And>k f n. destination_address (upd k f n) = destination_address f"
  shows "loops upd SPI_IDLE s (finished after)"
proof -
  consider (over) "outcome SPI_IDLE (advance s) t"
    | (header) "fetching (advance s) [get_payload_states, prepare_phy_states] t" "received_frame s \<noteq> None"
    | (none) "quiet SPI_IDLE (advance s) SPI_IDLE t [get_payload_states, prepare_phy_states]" "ph_signal_main t = PHY_SIGNAL_PROCESSING"
        "ph_input t = PHY_SIGNAL_DMA_CMPLT" "received_frame s \<noteq> None"
    using assms(3,4) by (auto simp: header_read_def)
  then show ?thesis
  proof cases
    case over
    then have q: "quiet SPI_IDLE (advance s) SPI_IDLE t [prepare_phy_states]" and m: "ph_signal_main t \<in> mac_outcomes"
      by (auto simp: outcome_def)
    show ?thesis
    proof (rule loops_stop [OF assms(1,2) q])
      assume "at t [ST_END] ([] @ [prepare_phy_states])"
      then show "finished after SPI_IDLE t" using m assms(5) quiet_env [OF q] by (intro settle [of _ _ "[]"]) simp_all
    qed (use m in \<open>auto simp: mac_outcomes_def\<close>)
  next
    case header
    then have q: "quiet SPI_IDLE (advance s) SPI_BUSY t [get_payload_states, prepare_phy_states]" and m: "ph_signal_main t = PHY_SIGNAL_YIELD"
      by (auto simp: fetching_def)
    show ?thesis
    proof (rule loops_stop [OF assms(1,2) q])
      assume "at t [ST_END] ([] @ [get_payload_states, prepare_phy_states])"
      then have "at t [ST_END] (get_payload_states # [prepare_phy_states])" by simp
      then show "finished after SPI_BUSY t"
      proof (rule finished_end)
        assume "at (end_state t) get_payload_states [prepare_phy_states]"
        moreover have "received_frame t \<noteq> None" "base t" using header(2) assms(5) quiet_env [OF q] by simp_all
        ultimately have "waiting SPI_BUSY (end_state t)" by (intro W_received) simp_all
        then show "after SPI_BUSY (end_state t)" using m by (intro afterI(1)) simp_all
      qed (simp add: get_payload_states_def)
    qed (simp_all add: m)
  next
    case none
    note q = none(1)
    show ?thesis
    proof (rule loops_go [OF assms(1,2) q _ none(2)])
      assume "at t [ST_END] ([] @ [get_payload_states, prepare_phy_states])"
      then have "at t [ST_END] (get_payload_states # [prepare_phy_states])" by simp
      then show "loops upd SPI_IDLE t (finished after)"
      proof (rule loops_end)
        assume "at (end_state (advance t)) get_payload_states [prepare_phy_states]"
        moreover have "received_frame t \<noteq> None" "base t" using none(4) assms(5) quiet_env [OF q] by simp_all
        ultimately show "loops upd SPI_IDLE (end_state (advance t)) (finished after)"
          using none assms(6) by (intro enter_payload) simp_all
      qed (use none in \<open>simp_all add: get_payload_states_def\<close>)
    qed simp
  qed
qed

lemma info_done:
  assumes "at s g []" and "g \<in> info_states s" and "base s" and "b \<noteq> SPI_BUSY" and "ph_input s = PHY_SIGNAL_DMA_CMPLT"
    and "ph_signal_main s = PHY_SIGNAL_PROCESSING" and "g = get_auto_reply_header_states \<Longrightarrow> header_known s"
    and "\<And>k f n. destination_address (upd k f n) = destination_address f"
  shows "loops upd b s (finished after)"
proof -
  define u where "u = radio [SPI_CLOSE] (advance s)"
  have u: "ph_input (advance u) = PHY_SIGNAL_DMA_CMPLT" "base u" "main_is_tx u = main_is_tx s" "ph_auto (advance u) = ph_auto s"
    "sr_reg (advance u) = sr_reg s"
    using assms(3,5) by (simp_all add: u_def)
  have close: "loops upd b s (finished after)" if "g = [ST_CLOSE_SPI, st, ST_END]" "at u [st, ST_END] [] \<Longrightarrow> loops upd SPI_IDLE u (finished after)" for st
    using loops_close [OF assms(1) [unfolded that(1)] assms(5,6,4)] that(2) by (simp add: u_def)
  have good: "loops upd b s (finished after)"
    if g: "g = [ST_CLOSE_SPI, st, ST_END]" and r: "run_state upd st (advance u) = Some t" and f: "fetching (advance u) [h] t"
      and h: "h \<in> info_states s" for st t h
  proof (rule close [OF g])
    assume a: "at u [st, ST_END] []"
    have q: "quiet SPI_IDLE (advance u) SPI_BUSY t [h]" and m: "ph_signal_main t = PHY_SIGNAL_YIELD" using f by (simp_all add: fetching_def)
    show "loops upd SPI_IDLE u (finished after)"
    proof (rule loops_stop [OF a r q])
      assume "at t [ST_END] ([] @ [h])"
      then show "finished after SPI_BUSY t"
        using m h u quiet_env [OF q] info_states_cong [of t s] by (intro fetch_started [of _ _ "[]" h]) simp_all
    qed (simp_all add: m)
  qed
  show ?thesis
  proof (cases "main_is_tx s")
    case tx: True
    then consider "g = handle_good_frame_auto_states" | "g = get_auto_reply_header_states" using assms(2) by (auto simp: info_states_def)
    then show ?thesis
    proof cases
      case 1
      show ?thesis
        by (rule good [of ST_HANDLE_GOOD_AUTO_REPLY "handle_good_auto_reply (advance u)" get_auto_reply_header_states])
          (use 1 tx good_auto_reply_effect in \<open>auto simp: list_defs info_states_def\<close>)
    next
      case 2
      show ?thesis
      proof (rule close [of ST_GET_AUTO_REPLY_HEADER])
        assume a: "at u [ST_GET_AUTO_REPLY_HEADER, ST_END] []"
        have k: "ph_auto (advance u) = None \<Longrightarrow> sr_frame_size (sr_reg (advance u)) = 0"
          using assms(7) 2 u by (simp add: header_known_def)
        obtain t where t: "get_auto_reply_header (advance u) = Some t" "header_read (advance u) t"
          using auto_reply_header_effect [OF u(1) k] by (auto simp: returns_def)
        have "outcome SPI_IDLE (advance u) t" if "ph_auto s = None"
          using auto_reply_header_none [OF u(1)] that k u t(1) by (auto simp: returns_def)
        then have "outcome SPI_IDLE (advance u) t \<or> received_frame u \<noteq> None"
          using tx u(3,4) by (auto simp: received_frame_def)
        then show "loops upd SPI_IDLE u (finished after)"
          using header_done [OF a _ t(2) _ u(2), of upd] assms(8) t(1) by simp
      qed (simp add: 2 list_defs)
    qed
  next
    case rx: False
    then consider "g = handle_good_frame_states" | "g = get_frame_header_states" using assms(2) by (auto simp: info_states_def)
    then show ?thesis
    proof cases
      case 1
      show ?thesis
        by (rule good [of ST_HANDLE_GOOD_FRAME "handle_good_frame (advance u)" get_frame_header_states])
          (use 1 rx good_frame_effect in \<open>auto simp: list_defs info_states_def\<close>)
    next
      case 2
      show ?thesis
      proof (rule close [of ST_GET_FRAME_HEADER])
        assume a: "at u [ST_GET_FRAME_HEADER, ST_END] []"
        have "received_frame u \<noteq> None" using rx u(3) by (simp add: received_frame_def)
        then show "loops upd SPI_IDLE u (finished after)"
          using header_done [OF a _ frame_header_effect [OF u(1)] _ u(2), of upd] assms(8) by simp
      qed (simp add: 2 list_defs)
    qed
  qed
qed

lemma register_done:
  assumes "at s transfer_register_states [g]" and "g \<in> info_states s" and "base s" and "b \<noteq> SPI_BUSY" and "ph_input s = PHY_SIGNAL_DMA_CMPLT"
    and "ph_signal_main s = PHY_SIGNAL_PROCESSING" and "g = get_auto_reply_header_states \<Longrightarrow> header_known s"
    and "\<And>k f n. destination_address (upd k f n) = destination_address f"
  shows "loops upd b s (finished after)"
proof -
  have "answers_again (advance s)" using assms(3) by (simp add: base_def answers_again_def advance_def)
  then obtain t c where t: "transfer_register (advance s) = Some t" "c \<in> {SPI_IDLE, b}" "quiet b (advance s) c t []"
    "ph_signal_main t = PHY_SIGNAL_PROCESSING" "ph_input t = PHY_SIGNAL_DMA_CMPLT" "ph_auto t = ph_auto s" "sr_reg t = sr_reg s"
    using transfer_register_effect [of "advance s" b] assms(4-6) by (auto simp: returns_def)
  show ?thesis
  proof (rule loops_go [OF assms(1) [unfolded transfer_register_states_def] _ t(3) _ t(4)])
    assume "at t [ST_END] ([g] @ [])"
    then have "at t [ST_END] (g # [])" by simp
    then show "loops upd c t (finished after)"
    proof (rule loops_end)
      assume "at (end_state (advance t)) g []"
      then show "loops upd c (end_state (advance t)) (finished after)"
        using t assms quiet_env [OF t(3)] info_states_cong [of "end_state (advance t)" s]
        by (intro info_done [of _ g]) (auto simp: header_known_def)
    qed (use info_length assms(2) t in auto)
  qed (use t in simp_all)
qed

end
