(* ===== verification/Phy_Machine.thy ===== *)
theory Phy_Machine
  imports Phy_Run Mac_Handover
begin

text \<open>
  The physical layer under any sequence of interrupts. An event is an interrupt of the DMA, with the registers a
  transfer brought in, or of the radio, together with what the MAC calls when its callback is run: as
  \<open>phy_call\<close>s, in the form the MAC of this development issues them. \<open>phy_run\<close> follows the machine and the
  protocol of the bus through a list of events. \<open>allowed\<close> is what the hardware and the MAC keep to.
\<close>

section \<open>Interrupts\<close>

record phy_event =
  ev_input :: phy_input_signal
  ev_registers :: sr_registers
  ev_mac :: "phy_output_signal \<Rightarrow> phy_output_signal \<Rightarrow> phy_call list"
  ev_frames :: "xlayer_ref \<Rightarrow> xlayer_frame"
  ev_config :: xlayer_cfg_internal

definition dma_in :: "sr_registers \<Rightarrow> wps_phy \<Rightarrow> wps_phy" where
  "dma_in r s = s\<lparr>sr_reg := (sr_reg s)\<lparr>sr_irq_read := sr_irq_read r, sr_actions_read := sr_actions_read r,
     sr_power_state := sr_power_state r, sr_frame_size := sr_frame_size r, sr_header_size := sr_header_size r,
     sr_rssi_rnsi := sr_rssi_rnsi r, sr_rxtime := sr_rxtime r, sr_cir_info := sr_cir_info r\<rparr>\<rparr>"

text \<open>The calls of the MAC (\<open>prepare_frame\<close>, \<open>process_pending_request\<close> in \<open>wps_mac.c\<close>), one after the other.\<close>

fun phy_call_run :: "update_payload \<Rightarrow> phy_event \<Rightarrow> phy_call \<Rightarrow> wps_phy \<Rightarrow> wps_phy option" where
  "phy_call_run upd e (PHY_SET_INPUT_SIGNAL i) s = Some (s\<lparr>ph_input := i\<rparr>)"
| "phy_call_run upd e (PHY_SET_MAIN_XLAYER None) s = None"
| "phy_call_run upd e (PHY_SET_MAIN_XLAYER (Some x)) s = Some (phy_set_main_xlayer (ev_frames e x) (ev_config e) s)"
| "phy_call_run upd e (PHY_SET_AUTO_XLAYER x) s = Some (phy_set_auto_xlayer (map_option (ev_frames e) x) s)"
| "phy_call_run upd e PHY_PREPARE_FRAME s = phy_process upd s"
| "phy_call_run upd e PHY_DISCONNECT s = wps_phy_disconnect s"
| "phy_call_run upd e (PHY_WRITE_REGISTER reg data cfg) s = Some (phy_write_register reg data cfg s)"
| "phy_call_run upd e (PHY_READ_REGISTER reg rx_buffer xfer_cmplt) s = Some (phy_read_register reg rx_buffer xfer_cmplt s)"

fun phy_calls_run :: "update_payload \<Rightarrow> phy_event \<Rightarrow> phy_call list \<Rightarrow> wps_phy \<Rightarrow> wps_phy option" where
  "phy_calls_run upd e [] s = Some s"
| "phy_calls_run upd e (c # cs) s = (case phy_call_run upd e c s of None \<Rightarrow> None | Some t \<Rightarrow> phy_calls_run upd e cs t)"

definition phy_interrupt :: "update_payload \<Rightarrow> phy_event \<Rightarrow> wps_phy \<Rightarrow> wps_phy option" where
  "phy_interrupt upd e s =
     wps_phy_interrupt upd (\<lambda>t. phy_calls_run upd e (ev_mac e (ph_signal_main t) (ph_signal_auto t)) t) (ev_input e)
       (if ev_input e = PHY_SIGNAL_DMA_CMPLT then dma_in (ev_registers e) s else s)"

text \<open>The end of a transfer leaves the bus open for what may follow.\<close>

definition bus_after :: "phy_event \<Rightarrow> spi \<Rightarrow> spi" where
  "bus_after e b = (if ev_input e = PHY_SIGNAL_DMA_CMPLT then SPI_BURST else b)"

fun phy_run :: "update_payload \<Rightarrow> spi \<Rightarrow> wps_phy \<Rightarrow> phy_event list \<Rightarrow> (spi \<times> wps_phy) option" where
  "phy_run upd b s [] = Some (b, s)"
| "phy_run upd b s (e # es) =
     (case phy_interrupt upd e s of
        None \<Rightarrow> None
      | Some t \<Rightarrow> (case spi_run (bus_after e b) (drop (length (ph_ops s)) (ph_ops t)) of
            None \<Rightarrow> None
          | Some c \<Rightarrow> phy_run upd c t es))"

section \<open>What the environment keeps to\<close>

text \<open>The room of \<open>set_header\<close> for a header that is sent apart from its payload.\<close>

definition header_fits :: "xlayer_frame \<Rightarrow> bool" where
  "header_fits f \<longleftrightarrow> user_payload f \<noteq> 0 \<longrightarrow> unat (frame_header_size f) \<le> 9"

definition slot_fits :: "u16 \<Rightarrow> phy_input_signal \<Rightarrow> xlayer_frame \<Rightarrow> xlayer_frame option \<Rightarrow> bool" where
  "slot_fits addr i m a \<longleftrightarrow> i \<in> {PHY_SIGNAL_PREPARE_RADIO, PHY_SIGNAL_SYNCING} \<and>
     (if destination_address m \<noteq> addr
      then i \<noteq> PHY_SIGNAL_SYNCING \<and> header_fits m \<and> (case a of None \<Rightarrow> True | Some f \<Rightarrow> destination_address f = addr)
      else (case a of None \<Rightarrow> True | Some f \<Rightarrow> header_fits f))"

fun slot_calls :: "u16 \<Rightarrow> (xlayer_ref \<Rightarrow> xlayer_frame) \<Rightarrow> phy_call list \<Rightarrow> bool" where
  "slot_calls addr fr [PHY_SET_INPUT_SIGNAL i, PHY_SET_MAIN_XLAYER (Some x), PHY_SET_AUTO_XLAYER y, PHY_PREPARE_FRAME] =
     slot_fits addr i (fr x) (map_option fr y)"
| "slot_calls addr fr cs = False"

fun register_calls :: "phy_call list \<Rightarrow> bool" where
  "register_calls [] = True"
| "register_calls [PHY_WRITE_REGISTER reg data cfg] = True"
| "register_calls [PHY_READ_REGISTER reg rx_buffer xfer_cmplt] = True"
| "register_calls cs = False"

definition phy_signals :: "phy_output_signal list" where
  "phy_signals = [PHY_SIGNAL_NONE, PHY_SIGNAL_PROCESSING, PHY_SIGNAL_YIELD, PHY_SIGNAL_CONFIG_COMPLETE, PHY_SIGNAL_BLOCKING_CONFIG_DONE,
     PHY_SIGNAL_CONNECT, PHY_SIGNAL_PREPARE_DONE, PHY_SIGNAL_FRAME_SENT_ACK, PHY_SIGNAL_FRAME_SENT_NACK, PHY_SIGNAL_FRAME_NOT_SENT,
     PHY_SIGNAL_FRAME_RECEIVED, PHY_SIGNAL_FRAME_MISSED, PHY_SIGNAL_ERROR]"

definition mac_fits :: "u16 \<Rightarrow> phy_event \<Rightarrow> bool" where
  "mac_fits addr e \<longleftrightarrow> list_all (\<lambda>a. register_calls (ev_mac e PHY_SIGNAL_CONFIG_COMPLETE a) \<and>
     (\<forall>m\<in>frame_signals. slot_calls addr (ev_frames e) (ev_mac e m a))) phy_signals"

lemma mac_fits_iff:
  "mac_fits addr e \<longleftrightarrow> (\<forall>a. register_calls (ev_mac e PHY_SIGNAL_CONFIG_COMPLETE a)) \<and>
     (\<forall>m\<in>frame_signals. \<forall>a. slot_calls addr (ev_frames e) (ev_mac e m a))"
proof -
  have "a \<in> set phy_signals" for a by (cases a) (simp_all add: phy_signals_def)
  then show ?thesis unfolding mac_fits_def list_all_iff by blast
qed

definition here :: "wps_phy \<Rightarrow> phy_state list" where "here s = drop (unat (state_step s)) (current_state s)"
definition next_list :: "wps_phy \<Rightarrow> phy_state list" where "next_list s = next_state_pool s (circular_queue_front_raw (next_states s))"

definition irq_states :: "phy_state set" where
  "irq_states = {ST_CLOSE_SPI, ST_READ_EVENTS, ST_READ_EVENTS_SYNCING, ST_SET_CONFIG, ST_PREPARE_SYNCING}"

text \<open>
  A transfer ends only when one is in flight. The events the radio reports are ones the code has a case for,
  and an acknowledgement without a descriptor brings no frame. The radio interrupts where its line is enabled or
  a transfer is still in flight, and to begin.
\<close>

definition allowed :: "spi \<Rightarrow> phy_event \<Rightarrow> wps_phy \<Rightarrow> bool" where
  "allowed b e s \<longleftrightarrow> mac_fits (ph_local_address s) e \<and>
     (if ev_input e = PHY_SIGNAL_DMA_CMPLT
      then b = SPI_BUSY \<and>
        (here s = [ST_CLOSE_SPI, ST_PROCESS_EVENT_TX, ST_END] \<longrightarrow> tx_handled (sr_irq_read (ev_registers e))) \<and>
        (here s = [ST_CLOSE_SPI, ST_PROCESS_EVENT_RX, ST_END] \<longrightarrow> rx_handled (sr_irq_read (ev_registers e))) \<and>
        (here s = get_auto_reply_header_states \<or> here s = transfer_register_states \<and> next_list s = get_auto_reply_header_states \<longrightarrow>
           ph_auto s = None \<longrightarrow> sr_frame_size (ev_registers e) = 0)
      else ev_input e = PHY_SIGNAL_RADIO_IRQ \<and>
        (ph_signal_main s = PHY_SIGNAL_CONNECT \<or> here s \<noteq> [] \<and> hd (here s) \<in> irq_states))"

fun run_allowed :: "update_payload \<Rightarrow> spi \<Rightarrow> wps_phy \<Rightarrow> phy_event list \<Rightarrow> bool" where
  "run_allowed upd b s [] = True"
| "run_allowed upd b s (e # es) =
     (allowed b e s \<and>
      (case phy_interrupt upd e s of
         None \<Rightarrow> True
       | Some t \<Rightarrow> (case spi_run (bus_after e b) (drop (length (ph_ops s)) (ph_ops t)) of
             None \<Rightarrow> True
           | Some c \<Rightarrow> run_allowed upd c t es)))"

section \<open>One interrupt\<close>

lemma waiting_cong:
  assumes "waiting b s" and "at t = at s" and "base t = base s" and "main_is_tx t = main_is_tx s" and "sent_frame t = sent_frame s"
    and "received_frame t = received_frame s"
  shows "waiting b t"
  using assms(1)
proof cases
  case (W_new ws gs)
  then show ?thesis using waiting.W_new [of t ws gs] starts_cong [of t s] assms by simp
next
  case (W_start g gs)
  then show ?thesis using waiting.W_start [of t g gs] starts_cong [of t s] assms by simp
next
  case (W_config os)
  then show ?thesis using waiting.W_config [of t os] slot_lists_cong [of t s] sendable_cong [of t s] assms by simp
next
  case W_payload
  then show ?thesis using waiting.W_payload [of t] process_state_cong(2) [of t s] assms by simp
next
  case W_sent
  then show ?thesis using waiting.W_sent [of t] process_state_cong(2) [of t s] assms by simp
next
  case (W_events ts)
  then show ?thesis using waiting.W_events [of t ts] process_state_cong(1) [of t s] assms by simp
next
  case W_syncing
  then show ?thesis using waiting.W_syncing [of t] assms by simp
next
  case (W_read ts)
  then show ?thesis using waiting.W_read [of t ts] process_state_cong(1) [of t s] assms by simp
next
  case (W_register g)
  then show ?thesis using waiting.W_register [of t g] info_states_cong [of t s] assms by simp
next
  case (W_info g)
  then show ?thesis using waiting.W_info [of t g] info_states_cong [of t s] assms by simp
next
  case W_received
  then show ?thesis using waiting.W_received [of t] assms by simp
qed

lemma waiting_close_irq:
  assumes "waiting b s" and "at s (ST_CLOSE_SPI # rest) ps" and "ph_input s \<noteq> PHY_SIGNAL_DMA_CMPLT"
  shows "loops upd b s (finished after)"
proof (rule loops_wait [OF assms(2,3)])
  let ?w = "(advance s)\<lparr>state_step := state_step (advance s) - 1, ph_signal_main := PHY_SIGNAL_YIELD\<rparr>"
  have w: "?w = s\<lparr>ph_signal_main := PHY_SIGNAL_YIELD\<rparr>" by (simp add: advance_def)
  assume a: "at ?w (ST_CLOSE_SPI # rest) ps"
  have "waiting b ?w" unfolding w by (rule waiting_cong [OF assms(1)]) simp_all
  then show "finished after b ?w" by (intro finished_here [OF a] afterI(1)) simp_all
qed

lemma at_here: "at s rest ps \<Longrightarrow> here s = rest" "at s rest (p # ps) \<Longrightarrow> next_list s = p"
  using pending_end(2) [of s p ps] by (auto simp: at_def here_def next_list_def end_state_def)

text \<open>An interrupt of the radio, and of the DMA, where the machine waits for it.\<close>

lemma waiting_irq:
  assumes "waiting b s" and "ph_input s = PHY_SIGNAL_RADIO_IRQ" and "ph_signal_main s = PHY_SIGNAL_PROCESSING"
    and "hd (here s) \<in> irq_states"
  shows "loops upd b s (finished after)"
proof -
  have i: "ph_input s \<noteq> PHY_SIGNAL_DMA_CMPLT" "ph_input (advance s) = PHY_SIGNAL_RADIO_IRQ" using assms(2) by simp_all
  note close = waiting_close_irq [OF assms(1) _ i(1)]
  show ?thesis
    using assms(1)
  proof cases
    case (W_new ws gs)
    then show ?thesis using close by (simp add: new_frame_states_def)
  next
    case (W_start g gs)
    then show ?thesis using moving_after [OF enter_start] by simp
  next
    case (W_config os)
    then show ?thesis using close by simp
  next
    case W_payload
    then show ?thesis using assms(4) at_here(1) by (fastforce simp: set_payload_states_def irq_states_def)
  next
    case W_sent
    then show ?thesis using close by (simp add: wait_states_def)
  next
    case (W_events ts)
    note q = read_events_effect(1,2) [OF i(2)]
    have "loops upd SPI_IDLE s (finished after)"
    proof (rule loops_stop [OF W_events(2) _ q(1)])
      let ?t = "read_events (advance s)"
      assume a: "at ?t [ST_CLOSE_SPI, process_state s, ST_END] (ts @ [])"
      have "waiting SPI_BUSY ?t"
        using a W_events quiet_env [OF q(1)] process_state_cong(1) [of ?t s] by (intro W_read [of _ ts]) simp_all
      then show "finished after SPI_BUSY ?t" by (intro finished_here [OF a] afterI(1)) (simp_all add: q(2))
    qed (use W_events q in auto)
    then show ?thesis using W_events by simp
  next
    case W_syncing
    note q = read_events_effect(3,4) [OF i(2)]
    have "loops upd SPI_IDLE s (finished after)"
    proof (rule loops_stop [OF W_syncing(2) _ q(1)])
      let ?t = "read_events_syncing (advance s)"
      assume a: "at ?t [ST_CLOSE_SPI, ST_PROCESS_EVENT_RX, ST_END] ([] @ [])"
      have "waiting SPI_BUSY ?t"
        using a W_syncing quiet_env [OF q(1)] by (intro W_read [of _ "[]"]) (simp_all add: process_state_def)
      then show "finished after SPI_BUSY ?t" by (intro finished_here [OF a] afterI(1)) (simp_all add: q(2))
    qed (use q in auto)
    then show ?thesis using W_syncing by simp
  next
    case (W_read ts)
    then show ?thesis using close by simp
  next
    case (W_register g)
    then show ?thesis using assms(4) at_here(1) by (fastforce simp: transfer_register_states_def irq_states_def)
  next
    case (W_info g)
    have "\<exists>st. g = [ST_CLOSE_SPI, st, ST_END]" using W_info(3) by (auto simp: info_states_def list_defs split: if_splits)
    then show ?thesis using close W_info by auto
  next
    case W_received
    then show ?thesis using assms(4) at_here(1) by (fastforce simp: get_payload_states_def irq_states_def)
  qed
qed

lemma waiting_dma:
  assumes "waiting SPI_BUSY s" and "ph_input s = PHY_SIGNAL_DMA_CMPLT" and "ph_signal_main s = PHY_SIGNAL_PROCESSING"
    and "here s = [ST_CLOSE_SPI, ST_PROCESS_EVENT_TX, ST_END] \<Longrightarrow> tx_handled (sr_irq_read (sr_reg s))"
    and "here s = [ST_CLOSE_SPI, ST_PROCESS_EVENT_RX, ST_END] \<Longrightarrow> rx_handled (sr_irq_read (sr_reg s))"
    and "here s = get_auto_reply_header_states \<or> here s = transfer_register_states \<and> next_list s = get_auto_reply_header_states \<Longrightarrow> header_known s"
    and "\<And>k f n. destination_address (upd k f n) = destination_address f"
  shows "loops upd SPI_BURST s (finished after)"
  using assms(1)
proof cases
  case (W_new ws gs)
  then show ?thesis using new_frame_done [of s ws gs SPI_BURST] assms by simp
next
  case (W_config os)
  then show ?thesis using config_done [of s os SPI_BURST] assms by simp
next
  case W_payload
  then obtain f where f: "sent_frame (advance s) = Some f" by auto
  have i: "ph_input (advance s) = PHY_SIGNAL_DMA_CMPLT" using assms(2) by simp
  obtain t where t: "set_payload (advance s) = Some t" "sending SPI_BURST (advance s) t"
    using set_payload_effect [OF f i, of SPI_BURST] by (auto simp: returns_def)
  show ?thesis
    by (rule sending_done [OF W_payload(1) [unfolded set_payload_states_def] _ t(2)]) (use W_payload t in simp_all)
next
  case W_sent
  then show ?thesis using enter_wait [of s SPI_BURST] assms by simp
next
  case (W_read ts)
  have h: "here s = [ST_CLOSE_SPI, process_state s, ST_END]" using at_here(1) W_read by blast
  then have "event_handled s" using assms(4,5) by (auto simp: event_handled_def process_state_def)
  then show ?thesis using event_done [of s ts SPI_BURST] W_read assms by simp
next
  case (W_register g)
  then show ?thesis using register_done [of s g SPI_BURST upd] at_here [of s transfer_register_states] assms by simp
next
  case (W_info g)
  then show ?thesis using info_done [of s g SPI_BURST upd] at_here(1) [of s g] assms by simp
next
  case W_received
  then show ?thesis using enter_payload [of s SPI_BURST upd] assms by simp
qed
section \<open>The calls of the MAC\<close>

definition safe :: "spi \<Rightarrow> wps_phy \<Rightarrow> bool" where
  "safe b s \<longleftrightarrow> (if ph_signal_main s = PHY_SIGNAL_CONNECT then b = SPI_IDLE \<and> settled b s else waiting b s) \<and>
     ph_signal_main s \<notin> {PHY_SIGNAL_ERROR, PHY_SIGNAL_PROCESSING}"

definition safely :: "spi \<Rightarrow> wps_phy \<Rightarrow> wps_phy option \<Rightarrow> bool" where
  "safely b s r \<longleftrightarrow> (\<exists>t c os. r = Some t \<and> ph_ops t = ph_ops s @ os \<and> spi_run b os = Some c \<and> ph_local_address t = ph_local_address s \<and> safe c t)"

lemma settled_cong:
  assumes "settled b s" and "at t = at s" and "ph_answers t = ph_answers s" and "ph_channels t = ph_channels s"
  shows "settled b t"
proof -
  have e: "answers_again t = answers_again s" "pulses_known t = pulses_known s" using assms by (simp_all add: answers_again_def pulses_known_def)
  show ?thesis
    using assms(1)
  proof cases
    case (S_prepare ns ws)
    then show ?thesis using settled.S_prepare [of t ns ws] assms e by simp
  next
    case S_register
    then show ?thesis using settled.S_register [of t] assms e by simp
  qed
qed

lemma slot_calls_shape:
  assumes "slot_calls addr fr cs"
  obtains i x y where "cs = [PHY_SET_INPUT_SIGNAL i, PHY_SET_MAIN_XLAYER (Some x), PHY_SET_AUTO_XLAYER y, PHY_PREPARE_FRAME]"
    and "slot_fits addr i (fr x) (map_option fr y)"
  using assms by (cases "(addr, fr, cs)" rule: slot_calls.cases) auto

lemma register_calls_shape:
  assumes "register_calls cs"
  obtains "cs = []" | reg data cfg where "cs = [PHY_WRITE_REGISTER reg data cfg]"
  | reg rx cmplt where "cs = [PHY_READ_REGISTER reg rx cmplt]"
  using assms by (cases cs rule: register_calls.cases) auto

text \<open>The next slot, chosen while the last one is settled.\<close>

lemma slot_chosen:
  assumes "settled b s" and "slot_calls (ph_local_address s) (ev_frames e) cs"
  shows "safely b s (phy_calls_run upd e cs s)"
proof -
  obtain i x y where cs: "cs = [PHY_SET_INPUT_SIGNAL i, PHY_SET_MAIN_XLAYER (Some x), PHY_SET_AUTO_XLAYER y, PHY_PREPARE_FRAME]"
    and fits: "slot_fits (ph_local_address s) i (ev_frames e x) (map_option (ev_frames e) y)"
    using assms(2) by (rule slot_calls_shape)
  define t where "t = s\<lparr>ph_input := i, ph_config := ev_config e, ph_main := ev_frames e x, ph_auto := map_option (ev_frames e) y\<rparr>"
  define u where "u = t\<lparr>ph_signal_main := PHY_SIGNAL_PROCESSING\<rparr>"
  have r: "phy_calls_run upd e cs s = phy_process upd t"
    by (simp add: cs t_def phy_set_main_xlayer_def phy_set_auto_xlayer_def split: option.split)
  have "settled b u" by (rule settled_cong [OF assms(1)]) (simp_all add: u_def t_def)
  moreover have "chosen u"
    using fits assms(1) by (auto simp: u_def t_def chosen_def base_def slot_fits_def header_fits_def sendable_def sent_frame_def main_is_tx_def
        auto_is_tx_def answers_again_def pulses_known_def elim!: settled.cases split: if_splits option.splits)
  ultimately have "loops upd b u (finished moving)" by (rule settled_chosen) (simp add: u_def)
  then have "processes upd b t moving" unfolding u_def by (rule processesI)
  then show ?thesis
    unfolding r processes_def safely_def by (auto simp: t_def moving_def safe_def)
qed

lemma pending_requests [simp]:
  "pending (s\<lparr>write_request_info := w\<rparr>) = pending s" "pending (s\<lparr>read_request_info := r\<rparr>) = pending s"
  "pending (s\<lparr>overwrite_regs_pool := p\<rparr>) = pending s" "pending (s\<lparr>overwrite_regs_pool := p, overwrite_regs_queue := q\<rparr>) = pending s"
  by (rule ext, rule pending_cong, simp, simp)+

text \<open>A request of the application, while the configuration is complete and the radio works.\<close>

lemma register_requested:
  assumes "configured b s" and "ph_signal_main s = PHY_SIGNAL_CONFIG_COMPLETE" and "register_calls cs"
  shows "safely b s (phy_calls_run upd e cs s)"
proof -
  have a: "b = SPI_IDLE" "at s [ST_READ_EVENTS, ST_CLOSE_SPI, process_state s, ST_END] []" "base s" using assms(1) by (auto simp: configured_def)
  have fin: "safely b s (Some t)"
    if q: "quiet SPI_IDLE s SPI_IDLE t ts" and ts: "ts \<in> {[], [transfer_register_states]}" and g: "ph_signal_main t = ph_signal_main s"
      and o: "ph_ops t = ph_ops s" for t ts
  proof -
    have "at t [ST_READ_EVENTS, ST_CLOSE_SPI, process_state s, ST_END] ([] @ ts)"
      by (rule at_quiet [OF a(2) q]) (use ts in auto)
    then have "waiting SPI_IDLE t"
      using ts a(3) quiet_env [OF q] process_state_cong(1) [of t s] by (intro W_events [of _ ts]) simp_all
    then show ?thesis
      using g o assms(2) a(1) q unfolding safely_def
      by (intro exI [where x = t] exI [where x = SPI_IDLE] exI [where x = "[]"]) (simp add: safe_def quiet_def)
  qed
  have w: "quiet SPI_IDLE s SPI_IDLE (enqueue_states transfer_register_states t) [transfer_register_states]"
    if "quiet SPI_IDLE s SPI_IDLE t []" for t
    using quiet_enqueue [OF that, of transfer_register_states] by simp
  have o: "overwrite_search n reg data it t = Some u \<Longrightarrow> \<exists>p. u = t\<lparr>overwrite_regs_pool := p\<rparr>" for n reg data it t u
    by (induction n arbitrary: it) (auto split: if_splits)
  have e: "ph_ops (enqueue_states st t) = ph_ops t" for st t by (simp add: enqueue_states_def)
  show ?thesis
    using assms(3)
  proof (cases rule: register_calls_shape)
    case 1
    then show ?thesis using fin [OF quiet_refl] by simp
  next
    case (2 reg data cfg)
    show ?thesis
    proof (cases cfg)
      case WRITE_ONCE
      then show ?thesis using 2 fin [OF w [OF quiet_flags(7) [OF quiet_refl]]] by (simp add: phy_write_register_def e)
    next
      case WRITE_PERIODIC
      have "\<exists>p q. overwrite_queue_add_transfer reg data s = s\<lparr>overwrite_regs_pool := p\<rparr> \<or>
          overwrite_queue_add_transfer reg data s = s\<lparr>overwrite_regs_pool := p, overwrite_regs_queue := q\<rparr>"
        using o by (fastforce simp: overwrite_queue_add_transfer_def Let_def split: option.split)
      then show ?thesis
        using 2 WRITE_PERIODIC fin [OF quiet_flags(9) [OF quiet_refl]] fin [OF quiet_flags(10) [OF quiet_refl]]
        by (auto simp: phy_write_register_def)
    qed
  next
    case (3 reg rx cmplt)
    then show ?thesis using fin [OF w [OF quiet_flags(8) [OF quiet_refl]]] by (simp add: phy_read_register_def e)
  qed
qed
section \<open>Every interrupt\<close>

lemma safely_trans:
  assumes "safely c t r" and "ph_ops t = ph_ops s @ os" and "spi_run b os = Some c" and "ph_local_address t = ph_local_address s"
  shows "safely b s r"
proof -
  obtain u d qs where "r = Some u" "ph_ops u = ph_ops t @ qs" "spi_run c qs = Some d" "ph_local_address u = ph_local_address t" "safe d u"
    using assms(1) by (auto simp: safely_def)
  moreover from this have "ph_ops u = ph_ops s @ os @ qs" "spi_run b (os @ qs) = Some d" using assms by (simp_all add: spi_run_append)
  ultimately show ?thesis using assms(4) unfolding safely_def by metis
qed

lemma handled_safe:
  assumes "after b s" and "mac_fits (ph_local_address s) e"
  shows "safely b s (phy_handle (\<lambda>t. phy_calls_run upd e (ev_mac e (ph_signal_main t) (ph_signal_auto t)) t) s)"
proof -
  consider "moving b s" | (config) "configured b s" "ph_signal_main s = PHY_SIGNAL_CONFIG_COMPLETE"
    | (settled) "settled b s" "ph_signal_main s \<in> mac_outcomes" using assms(1) by (auto simp: after_def)
  then show ?thesis
  proof cases
    case 1
    then show ?thesis by (fastforce simp: moving_def phy_handle_def phy_outcomes_def safely_def safe_def)
  next
    case config
    then show ?thesis using assms(2) register_requested [OF config] by (simp add: phy_handle_def mac_fits_iff)
  next
    case settled
    let ?t = "wps_phy_end_process s"
    have t: "settled b ?t" "ph_signal_main ?t = ph_signal_main s" "ph_local_address ?t = ph_local_address s"
      by (rule settled_cong [OF settled(1)], rule ext, rule ext,
          simp_all add: wps_phy_end_process_def radio_def at_def)
    have "slot_calls (ph_local_address ?t) (ev_frames e) (ev_mac e (ph_signal_main ?t) (ph_signal_auto ?t))"
      using assms(2) settled(2) t by (auto simp: mac_fits_iff mac_outcomes_def frame_signals_def)
    from slot_chosen [OF t(1) this, of upd]
    have "safely b s (phy_calls_run upd e (ev_mac e (ph_signal_main ?t) (ph_signal_auto ?t)) ?t)"
      by (rule safely_trans [where os = "[GAIN_LOOP_UPDATE (ci_gain_loop (ph_config s)) (frame_outcome (ph_main s)) (ci_rssi_raw (ph_config s))]"])
        (simp_all add: wps_phy_end_process_def radio_def)
    then show ?thesis using settled(2) by (auto simp: phy_handle_def phy_outcomes_def mac_outcomes_def)
  qed
qed

lemma interrupt_safe:
  assumes "safe b s" and "allowed b e s" and "\<And>k f n. destination_address (upd k f n) = destination_address f"
  shows "safely (bus_after e b) s (phy_interrupt upd e s)"
proof -
  define s0 where "s0 = (if ev_input e = PHY_SIGNAL_DMA_CMPLT then dma_in (ev_registers e) s else s)\<lparr>ph_input := ev_input e\<rparr>"
  define s1 where "s1 = s0\<lparr>ph_signal_main := PHY_SIGNAL_PROCESSING\<rparr>"
  have keep: "ph_ops s0 = ph_ops s" "ph_local_address s0 = ph_local_address s" "ph_signal_main s0 = ph_signal_main s" "at s1 = at s"
    "base s1 = base s" "main_is_tx s1 = main_is_tx s" "sent_frame s1 = sent_frame s" "received_frame s1 = received_frame s"
    "at s0 = at s" "ph_answers s0 = ph_answers s" "ph_channels s0 = ph_channels s" "ph_auto s1 = ph_auto s"
    "here s1 = here s" "next_list s1 = next_list s" "ph_input s1 = ev_input e" "ph_signal_main s1 = PHY_SIGNAL_PROCESSING"
    by (simp_all add: s1_def s0_def dma_in_def here_def next_list_def)
  have fits: "mac_fits (ph_local_address s0) e" using assms(2) keep by (simp add: allowed_def)
  have i: "phy_interrupt upd e s = wps_phy_process upd (\<lambda>t. phy_calls_run upd e (ev_mac e (ph_signal_main t) (ph_signal_auto t)) t) s0"
    by (simp add: phy_interrupt_def wps_phy_interrupt_def s0_def)
  show ?thesis
  proof (cases "ph_signal_main s = PHY_SIGNAL_CONNECT")
    case True
    then have b: "b = SPI_IDLE" "settled b s" using assms(1) by (auto simp: safe_def)
    have b2: "settled b s0" by (rule settled_cong [OF b(2)]) (simp_all add: keep)
    have C: "bus_after e b = b" using assms(2) b by (auto simp: allowed_def bus_after_def split: if_splits)
    have "slot_calls (ph_local_address s0) (ev_frames e) (ev_mac e (ph_signal_main s0) (ph_signal_auto s0))"
      using fits True keep(3) by (auto simp: mac_fits_iff frame_signals_def)
    from slot_chosen [OF b2 this, of upd]
    have A: "safely b s (phy_calls_run upd e (ev_mac e (ph_signal_main s0) (ph_signal_auto s0)) s0)"
      by (rule safely_trans [where os = "[]"]) (simp_all add: keep(1,2))
    have B: "phy_interrupt upd e s = phy_calls_run upd e (ev_mac e (ph_signal_main s0) (ph_signal_auto s0)) s0"
    proof -
      have "ph_signal_main s0 = PHY_SIGNAL_CONNECT" using True keep(3) by simp
      then show ?thesis
        unfolding i wps_phy_process_def phy_handle_def by (simp only: option.case insert_iff simp_thms if_True if_False)
    qed
    show ?thesis unfolding B C by (rule A)
  next
    case False
    then have "waiting b s" using assms(1) by (simp add: safe_def)
    then have w: "waiting b s1" by (rule waiting_cong) (simp_all add: keep)
    have "loops upd (bus_after e b) s1 (finished after)"
    proof (cases "ev_input e = PHY_SIGNAL_DMA_CMPLT")
      case dma: True
      then have "b = SPI_BUSY" using assms(2) by (simp add: allowed_def)
      moreover have "sr_irq_read (sr_reg s1) = sr_irq_read (ev_registers e)" "sr_frame_size (sr_reg s1) = sr_frame_size (ev_registers e)"
        using dma by (simp_all add: s1_def s0_def dma_in_def)
      moreover from this have "loops upd SPI_BURST s1 (finished after)"
        using w dma assms(2) by (intro waiting_dma assms(3)) (auto simp: keep allowed_def header_known_def)
      ultimately show ?thesis using dma by (simp add: bus_after_def)
    next
      case irq: False
      then have "ev_input e = PHY_SIGNAL_RADIO_IRQ" "hd (here s) \<in> irq_states" using assms(2) False by (auto simp: allowed_def)
      then show ?thesis using w irq keep waiting_irq [of b s1 upd] by (simp add: bus_after_def)
    qed
    then have "processes upd (bus_after e b) s0 after" unfolding s1_def by (rule processesI)
    then obtain t c os where t: "phy_process upd s0 = Some t" "ph_ops t = ph_ops s @ os" "spi_run (bus_after e b) os = Some c"
      "ph_local_address t = ph_local_address s" "after c t" by (auto simp: processes_def keep)
    have "safely c t (phy_handle (\<lambda>t. phy_calls_run upd e (ev_mac e (ph_signal_main t) (ph_signal_auto t)) t) t)"
      using handled_safe [OF t(5)] fits t(4) keep by simp
    from safely_trans [OF this t(2-4)] show ?thesis
      using False keep t(1) by (simp add: i wps_phy_process_def)
  qed
qed

lemma run_safe:
  assumes "safe b s" and "run_allowed upd b s es" and "\<And>k f n. destination_address (upd k f n) = destination_address f"
  shows "\<exists>c t. phy_run upd b s es = Some (c, t) \<and> safe c t"
  using assms(1,2)
proof (induction es arbitrary: b s)
  case (Cons e es)
  obtain t c os where t: "phy_interrupt upd e s = Some t" "ph_ops t = ph_ops s @ os" "spi_run (bus_after e b) os = Some c" "safe c t"
    using interrupt_safe [OF Cons.prems(1), of e upd] Cons.prems(2) assms(3) by (auto simp: safely_def)
  then show ?case using Cons.IH [OF t(4)] Cons.prems(2) by simp
qed simp

lemma waiting_lists:
  assumes "waiting b s"
  obtains rest ps where "at s rest ps" and "length ps \<le> 6"
  using assms
proof cases
  case (W_new ws gs)
  then show ?thesis using that starts_length [of s gs] by fastforce
next
  case (W_start g gs)
  then show ?thesis using that starts_length [of s "g # gs"] by fastforce
next
  case (W_config os)
  then show ?thesis using that slot_lists_length [of s] by fastforce
qed (use that in fastforce)+

lemma safe_ring:
  assumes "safe b s"
  shows "\<exists>ps. pending s ps \<and> length ps \<le> 6"
proof -
  have "\<exists>rest ps. at s rest ps \<and> length ps \<le> 6"
  proof (cases "ph_signal_main s = PHY_SIGNAL_CONNECT")
    case True
    then have "settled b s" using assms by (auto simp: safe_def)
    then show ?thesis
    proof cases
      case (S_prepare ns ws)
      then have "length (ns @ ws) \<le> 6" by auto
      then show ?thesis using S_prepare by blast
    next
      case S_register
      then show ?thesis by (intro exI [where x = transfer_register_states] exI [where x = "[prepare_phy_states]"]) simp
    qed
  next
    case False
    then have "waiting b s" using assms by (simp add: safe_def)
    then show ?thesis by (rule waiting_lists) blast
  qed
  then show ?thesis by (auto simp: at_def)
qed

lemma poll_fields:
  assumes "poll ok os q s = Some (v, u)"
  shows "next_states u = next_states s \<and> ph_answers u = ph_answers s \<and> ph_channels u = ph_channels s"
proof -
  have "next_states (snd r) = next_states s \<and> ph_answers (snd r) = ph_answers s \<and> ph_channels (snd r) = ph_channels s"
    if "poll ok os q s = Some r" for r
    by (rule poll.raw_induct [of "\<lambda>ok os q s r. next_states (snd r) = next_states s \<and> ph_answers (snd r) = ph_answers s \<and>
        ph_channels (snd r) = ph_channels s", OF _ that]) (fastforce simp: ask_def radio_def Let_def split: if_splits)
  then show ?thesis using assms by fastforce
qed

lemma radio_machine:
  "next_states (radio os s) = next_states s" "current_state (radio os s) = current_state s" "state_step (radio os s) = state_step s"
  "ph_signal_main (radio os s) = ph_signal_main s" "ph_answers (radio os s) = ph_answers s" "ph_channels (radio os s) = ph_channels s"
  "next_states (snd (ask q s)) = next_states s" "current_state (snd (ask q s)) = current_state s"
  "state_step (snd (ask q s)) = state_step s" "ph_signal_main (snd (ask q s)) = ph_signal_main s"
  "ph_answers (snd (ask q s)) = ph_answers s" "ph_channels (snd (ask q s)) = ph_channels s"
  by (simp_all add: radio_def ask_def)

lemma phy_connect_machine:
  "next_states (phy_connect s) = circular_queue_init (buffer_begin (next_states s)) PHY_STATE_Q_SIZE (item_size (next_states s)) \<and>
   current_state (phy_connect s) = prepare_phy_states \<and> state_step (phy_connect s) = 0 \<and> ph_signal_main (phy_connect s) = PHY_SIGNAL_CONNECT \<and>
   ph_answers (phy_connect s) = ph_answers s \<and> ph_channels (phy_connect s) = ph_channels s"
  by (simp only: phy_connect_def Let_def split_def radio_machine wps_phy.simps wps_phy.surjective split: if_split) (simp add: radio_machine)

lemma connect_safe:
  assumes "phy_connect_single s = Some t" and "0 < unat (item_size (next_states s))" and "unat (item_size (next_states s)) < 10 ^ 8"
    and "answers_again s" and "pulses_known s"
  shows "safe SPI_IDLE t"
proof -
  obtain v u where u: "wake_up s = Some (v, u)" and t: "t = radio [RADIO_CONTEXT_SWITCH] (phy_connect
         (radio [WRITE_REG16 REG16_SLPPERIOD_PWRUPDLAY (ucast (MOV2MASK MAX_SLP_TIME_VAL_8 BITS_SLPPERIOD_23_16)),
                 WRITE_REG16 REG16_SLPPERIOD_15_0 (ucast (MOV2MASK MAX_SLP_TIME_VAL_16 BITS_SLPPERIOD_15_0)),
                 WRITE_REG16 REG16_TIMERCFG_SLEEPCFG (ucast (sleep_lvl_val SLEEP_IDLE OR flag BIT_SLPTIMEO OR flag BIT_SLPTXEND
                   OR flag BITS_SLPRXEND OR flag BIT_AUTOWAKE))] (u\<lparr>pwr_status_cmd := ucast v\<rparr>)))"
    using assms(1) by (auto simp: phy_connect_single_def)
  have f: "next_states u = next_states s" "ph_answers u = ph_answers s" "ph_channels u = ph_channels s"
    using poll_fields u by (auto simp: wake_up_def)
  have c: "next_states t = circular_queue_init (buffer_begin (next_states s)) PHY_STATE_Q_SIZE (item_size (next_states s))"
    "current_state t = prepare_phy_states" "state_step t = 0" "ph_signal_main t = PHY_SIGNAL_CONNECT" "ph_answers t = ph_answers s"
    "ph_channels t = ph_channels s"
    unfolding t radio_machine using phy_connect_machine by (simp_all only: radio_machine f) (simp_all add: f)
  have "pending t []" by (rule pending_init [OF c(1) assms(2,3)])
  then have "at t prepare_phy_states []" using c by (simp add: at_def prepare_phy_states_def)
  then have "settled SPI_IDLE t" using S_prepare [of t "[]" "[]"] assms(4,5) c by (simp add: answers_again_def pulses_known_def)
  then show ?thesis using c by (simp add: safe_def)
qed


section \<open>An example\<close>

text \<open>A node that sends one frame of two header and three payload bytes after another; the radio is awake at once.\<close>

definition phy_frame_example :: xlayer_frame where
  "phy_frame_example = \<lparr>source_address = 5, destination_address = 7, header_memory = 100, header_begin_it = 110, header_end_it = 112,
     payload_memory = 112, payload_begin_it = 112, payload_end_it = 115, time_stamp = 0, retry_count = 0, header_memory_size = 20,
     payload_memory_size = 20, user_payload = 0, max_frame_size = 40, frame_outcome = FRAME_WAIT\<rparr>"

definition phy_config_example :: xlayer_cfg_internal where
  "phy_config_example = \<lparr>ci_expect_ack = False, ci_modulation = 0, ci_chip_repet = 0, ci_fec = 0, ci_channel = CHANNEL_20_48 0 0,
     ci_gain_loop = (0, 0), ci_power_up_delay = 10, ci_rx_timeout = 1000, ci_sleep_time = 5000, ci_rx_wait_time = 0,
     ci_cca_threshold = 0xff, ci_cca_on_time = 0, ci_cca_retry_time = 0, ci_cca_max_try_count = 1, ci_phase_offset = [],
     ci_phase_offset_count = 0, ci_cca_fail_action = CCA_FAIL_ACTION_TX, ci_cca_try_count = 0, ci_rnsi_raw = 0, ci_rssi_raw = 0,
     ci_sleep_level = SLEEP_IDLE, ci_next_sleep_level = SLEEP_IDLE, ci_phases_info = False, ci_rx_cca_retry_count = 0,
     ci_isi_mitig = ISI_MITIG_0, ci_certification_header_en = False, ci_max_expected_header_size = 10,
     ci_max_expected_payload_size = 20, ci_chip_rate = CHIP_RATE_20_48_MHZ, ci_max_expected_auto_header_size = 10,
     ci_max_expected_auto_payload_size = 20, ci_callback_main = undefined, ci_callback_auto = undefined,
     ci_update_payload_buffer = UPDATE_MAIN_RX_PAYLOAD_BUFFER\<rparr>"

definition sr_registers_example :: sr_registers where
  "sr_registers_example = \<lparr>sr_actions_write = 0, sr_rx_address = 0, sr_tx_address = 0, sr_rx_tx_size = 0, sr_phy_0_1 = 0,
     sr_harddisables_ioconfig = 0, sr_preamb_debug = 0, sr_cca_settings = 0, sr_cca_thres_gain = 0, sr_rf_gain_manugain = 0,
     sr_if_baseband_gain_lna = 0, sr_rxbandfre_cfg1freq = 0, sr_cfg2freq_cfg3freq = 0, sr_cfg_widths_txpwr_randpulse = 0,
     sr_tx_pulse_pos = 0, sr_slpperiod_15_0 = 0, sr_slpperiod_pwrupdlay = 0, sr_timelimit_biasdelay = 0, sr_timercfg_sleepcfg = 0,
     sr_irq_write = 0, sr_frameproc_phasedata = 0, sr_irq_read = 0x20, sr_actions_read = 0, sr_power_state = 0,
     sr_frame_size = 0, sr_header_size = 0, sr_rssi_rnsi = 0, sr_rxtime = 0, sr_cir_info = []\<rparr>"

definition phy_node_example :: wps_phy where
  "phy_node_example = \<lparr>ph_input = PHY_SIGNAL_RADIO_IRQ, ph_signal_main = PHY_SIGNAL_NONE, ph_signal_auto = PHY_SIGNAL_NONE,
     ph_rssi_offset = 0, ph_local_address = 5, ph_main = phy_frame_example, ph_auto = None, ph_config = phy_config_example,
     ph_channels = (\<lambda>_. \<lparr>ch_reg_pattern = \<lparr>rp_if_baseband_gain_lna = 0, rp_rxbandfre_cfg1freq = 0, rp_cfg2freq_cfg3freq = 0,
       rp_cfg_widths_txpwr_randpulse = 0, rp_tx_pulse_pos = 0\<rparr>, ch_pulse_count = 1, ch_rnsi = 0\<rparr>),
     current_state = end_states, next_states = circular_queue_init 1000 PHY_STATE_Q_SIZE 4, next_state_pool = (\<lambda>_. []),
     overwrite_regs_queue = circular_queue_init 2000 PHY_OVERWRITE_REG_Q_SIZE 4, overwrite_regs_pool = (\<lambda>_. (0, 0)),
     state_step = 0, pwr_status_cmd = 0, radio_actions = 0, ph_header_size = 0, phase_offset_bytes_to_read = 0,
     phase_offset_feature_enabled = False, empty_tx = False, sleep_lvl_per_ts_enabled = False, wait_for_ack_tx = False,
     write_request_info = \<lparr>wr_target_register = 0, wr_data = 0, wr_pending_request = False\<rparr>,
     read_request_info = \<lparr>rr_target_register = 0, rr_rx_buffer = 0, rr_xfer_cmplt = 0, rr_pending_request = False\<rparr>,
     sr_reg = sr_registers_example, ph_mem = (\<lambda>_. 0), ph_ops = [], ph_answers = (\<lambda>n. if n = 0 then 0x10 else 0), ph_asked = 0\<rparr>"

definition phy_event_example :: "phy_input_signal \<Rightarrow> phy_event" where
  "phy_event_example i = \<lparr>ev_input = i, ev_registers = sr_registers_example,
     ev_mac = (\<lambda>m _. if m = PHY_SIGNAL_CONFIG_COMPLETE then []
        else [PHY_SET_INPUT_SIGNAL PHY_SIGNAL_PREPARE_RADIO, PHY_SET_MAIN_XLAYER (Some XL_EMPTY_TX), PHY_SET_AUTO_XLAYER None, PHY_PREPARE_FRAME]),
     ev_frames = (\<lambda>_. phy_frame_example), ev_config = phy_config_example\<rparr>"

lemma example_connects:
  "\<exists>t. phy_connect_single phy_node_example = Some t \<and> current_state t = prepare_phy_states \<and> state_step t = 0 \<and>
    ph_signal_main t = PHY_SIGNAL_CONNECT"
proof -
  have "irq_bit 0x10 BIT_AWAKE" unfolding irq_bit_def BIT_AWAKE_def by (subst test_bit) (simp_all add: BIT_def)
  then have "\<exists>v u. wake_up phy_node_example = Some (v, u)"
    unfolding wake_up_def by (subst poll.simps) (simp add: ask_def radio_def phy_node_example_def)
  then show ?thesis using phy_connect_machine by (auto simp: phy_connect_single_def radio_machine)
qed

lemma example_fits: "mac_fits addr (phy_event_example i)"
  by (auto simp: mac_fits_iff phy_event_example_def frame_signals_def slot_fits_def header_fits_def phy_frame_example_def)

lemma example_again: "answers_again phy_node_example"
  unfolding answers_again_def
proof
  fix n
  show "\<exists>k\<ge>n. ph_answers phy_node_example k = 0" by (rule exI [where x = "Suc n"]) (simp add: phy_node_example_def)
qed


end
