(* ===== verification/Phy_Frames.thy ===== *)
theory Phy_Frames
  imports Phy_Machine
begin

text \<open>
  What the physical layer puts on the bus: the bytes of a frame, sent as one transfer or as two; the time-out
  register of a slot that sends and of one that receives; the addresses of the registers written in every slot.
\<close>

fun dma_bytes :: "radio_op list \<Rightarrow> u8 list" where
  "dma_bytes [] = []"
| "dma_bytes (DMA_WRITE bs # os) = bs @ dma_bytes os"
| "dma_bytes (_ # os) = dma_bytes os"

lemma dma_bytes_append [simp]: "dma_bytes (os @ qs) = dma_bytes os @ dma_bytes qs"
  by (induction os rule: dma_bytes.induct) simp_all

lemma mem_bytes_append: "mem_bytes mem a (m + n) = mem_bytes mem a m @ mem_bytes mem (a + m) n"
  by (rule nth_equalityI) (auto simp: mem_bytes_def nth_append)

lemma ptr_diff_add: "e = b + n \<Longrightarrow> ptr_diff e b = of_nat n"
  by (simp add: ptr_diff_def)

text \<open>
  C12. One transfer or two, the radio gets the same bytes. For a frame whose payload follows its header in
  memory, \<open>set_header\<close> and then \<open>set_payload\<close> hand the DMA the bytes that \<open>set_header_and_payload\<close> hands it
  at once, by writing the command and the header size into the two bytes before the header: the burst write to
  the FIFO, the size of the header, the header, the payload.
\<close>

theorem wps_phy_same_bytes_on_bus:
  assumes "sent_frame s = Some f" and "header_end_it f = header_begin_it f + h" and "payload_begin_it f = header_end_it f"
    and "payload_end_it f = payload_begin_it f + p" and "2 \<le> header_begin_it f" and "h \<le> 9" and "0 < p" and "h + p + 2 < 256"
    and "ph_input s = PHY_SIGNAL_DMA_CMPLT" and "ph_ops s = []"
  shows "\<exists>t u v. set_header s = Some t \<and> set_payload t = Some u \<and> set_header_and_payload s = Some v \<and>
    dma_bytes (ph_ops u) = dma_bytes (ph_ops v) \<and>
    dma_bytes (ph_ops v) = [REG_WRITE_BURST OR REG8_FIFOS, of_nat h] @ mem_bytes (ph_mem s) (header_begin_it f) (h + p)"
proof -
  have sz: "frame_header_size f = of_nat h" "frame_payload_size f = of_nat p"
    using ptr_diff_add assms(2,4) by (simp_all add: frame_header_size_def frame_payload_size_def)
  have n: "unat (of_nat h :: u8) = h" "unat (of_nat p :: u8) = p" "unat (of_nat h + of_nat p + 2 :: u8) = h + p + 2"
    using assms(6-8) by (simp_all add: unat_of_nat unat_word_ariths)
  then have p: "(of_nat p :: u8) \<noteq> 0" using assms(7) by (metis gr_implies_not0 unat_0)
  define bs where "bs = mem_bytes (ph_mem s) (header_begin_it f)"
  obtain t where t: "set_header s = Some t" "ph_ops t = [DISABLE_IRQ_LINE, DMA_WRITE ([REG_WRITE_BURST OR REG8_FIFOS, of_nat h] @ bs h)]"
      "sent_frame t = Some f" "ph_input t = PHY_SIGNAL_DMA_CMPLT" "ph_mem t = ph_mem s"
    using assms(1,6,9,10) by (simp add: set_header_def sz n(1) Let_def MAX_HEADER_SIZE_def bs_def) (simp add: radio_def)
  have "mem_bytes (ph_mem s) (payload_begin_it f) p = drop h (bs (h + p))"
    using assms(2,3) by (simp add: bs_def mem_bytes_append) (simp add: mem_bytes_def)
  then obtain u where u: "set_payload t = Some u" "ph_ops u = ph_ops t @ [DMA_WRITE (drop h (bs (h + p)))]"
    using t p by (simp add: set_payload_def sz n(2)) (simp add: radio_def)
  have hb: "bs h @ drop h (bs (h + p)) = bs (h + p)"
    by (simp add: bs_def mem_bytes_append) (simp add: mem_bytes_def)
  define b where "b = header_begin_it f - 2"
  define mem where "mem = (ph_mem s)(b := REG_WRITE_BURST OR REG8_FIFOS, b + 1 := of_nat h)"
  have hb2: "header_begin_it f = b + 2" using assms(5) by (simp add: b_def)
  have "mem_bytes mem b (2 + (h + p)) = [REG_WRITE_BURST OR REG8_FIFOS, of_nat h] @ bs (h + p)"
  proof -
    have "mem_bytes mem b 2 = [REG_WRITE_BURST OR REG8_FIFOS, of_nat h]" by (simp add: mem_bytes_def mem_def numeral_2_eq_2)
    moreover have "mem_bytes mem (b + 2) (h + p) = bs (h + p)" by (simp add: mem_bytes_def mem_def bs_def hb2)
    ultimately show ?thesis using mem_bytes_append [of mem b 2 "h + p"] by simp
  qed
  moreover have "set_header_and_payload s =
      Some (radio [DMA_WRITE (mem_bytes mem b (2 + (h + p)))] (((radio [DISABLE_IRQ_LINE] s)\<lparr>ph_signal_main := PHY_SIGNAL_YIELD\<rparr>)\<lparr>ph_mem := mem\<rparr>))"
    using assms(1,7,9) n(3) by (simp add: set_header_and_payload_def Let_def sz XLAYER_QUEUE_SPI_COMM_ADDITIONAL_BYTES_def mem_def b_def)
      (simp add: radio_def)
  moreover have "dma_bytes (ph_ops (radio [DMA_WRITE x] (((radio [DISABLE_IRQ_LINE] s)\<lparr>ph_signal_main := PHY_SIGNAL_YIELD\<rparr>)\<lparr>ph_mem := mem\<rparr>))) = x" for x
    using assms(10) by (simp add: radio_def)
  ultimately show ?thesis using t u hb by (simp add: bs_def)
qed

text \<open>A frame of two header and three payload bytes.\<close>

theorem wps_phy_same_bytes_on_bus_witness:
  "\<exists>u v. set_payload (the (set_header (phy_node_example\<lparr>ph_input := PHY_SIGNAL_DMA_CMPLT\<rparr>))) = Some u \<and>
    set_header_and_payload (phy_node_example\<lparr>ph_input := PHY_SIGNAL_DMA_CMPLT\<rparr>) = Some v \<and> dma_bytes (ph_ops u) = dma_bytes (ph_ops v) \<and>
    dma_bytes (ph_ops v) = [REG_WRITE_BURST OR REG8_FIFOS, 2, 0, 0, 0, 0, 0]"
proof -
  have "sent_frame (phy_node_example\<lparr>ph_input := PHY_SIGNAL_DMA_CMPLT\<rparr>) = Some phy_frame_example"
    by (simp add: phy_node_example_def sent_frame_def main_is_tx_def phy_frame_example_def)
  moreover have "mem_bytes (ph_mem (phy_node_example\<lparr>ph_input := PHY_SIGNAL_DMA_CMPLT\<rparr>)) 110 5 = [0, 0, 0, 0, 0]"
    by (simp add: phy_node_example_def mem_bytes_def upt_rec)
  moreover have "header_begin_it phy_frame_example = 110" "header_end_it phy_frame_example = 112" "payload_begin_it phy_frame_example = 112"
    "payload_end_it phy_frame_example = 115" "ph_ops phy_node_example = []"
    by (simp_all add: phy_frame_example_def phy_node_example_def)
  ultimately show ?thesis
    using wps_phy_same_bytes_on_bus [of "phy_node_example\<lparr>ph_input := PHY_SIGNAL_DMA_CMPLT\<rparr>" phy_frame_example 2 3] by auto
qed

section \<open>The time-out of a slot\<close>

lemma raw_timeout: "take_bit 13 (TIMEOUT_VAL2RAW v) = TIMEOUT_VAL2RAW v"
proof -
  have "unat (TIMEOUT_VAL2RAW v) < 2 ^ 13"
  proof (cases "v = 0")
    case False
    have l: "unat v < 65536" using unsigned_less [of v, where 'a = nat] by simp
    have "unat v < 2 ^ 32" using l by (rule less_trans) simp
    then have "take_bit 32 (unat v) = unat v" by (rule take_bit_nat_eq_self)
    then have u: "unat (ucast v :: u32) = unat v" by (simp add: unsigned_ucast_eq)
    then have "(ucast v :: u32) \<noteq> 0" using False by (metis unat_0 unat_eq_zero)
    then have "unat (ucast v - 1 :: u32) = unat v - 1" using unat_minus_one u by metis
    then have "unat ((ucast v - 1) div 8 :: u32) = (unat v - 1) div 8" by (simp add: unat_div)
    moreover have "(unat v - 1) div 8 < 2 ^ 13" 
    proof (rule less_mult_imp_div_less)
      have "unat v - 1 \<le> unat v" by (rule diff_le_self)
      also have "\<dots> < 2 ^ 13 * 8" using l by (rule less_le_trans) simp
      finally show "unat v - 1 < 2 ^ 13 * 8" .
    qed
    ultimately show ?thesis using False unfolding TIMEOUT_VAL2RAW_def by (simp only: if_False)
  qed (simp add: TIMEOUT_VAL2RAW_def)
  then show ?thesis by (simp add: word_unat_eq_iff unsigned_take_bit_eq take_bit_nat_eq_self)
qed

lemma bit_4: "bit (4 :: int) n \<longleftrightarrow> n = 2"
proof -
  have "(4 :: int) = push_bit 2 1" by simp
  then show ?thesis by (simp only: bit_push_bit_iff bit_1_iff) auto
qed

lemma bit_5: "bit (5 :: int) n \<longleftrightarrow> n = 0 \<or> n = 2"
proof -
  have "5 = (4 OR 1 :: int)" by simp
  then show ?thesis by (simp only: bit_or_iff bit_4 bit_1_iff) auto
qed

lemma timeout_fields:
  "MOV2MASK r BITS_TIMEOUT = push_bit 3 (take_bit 13 r)" "flag BIT_ALTRPLTO = 4" "MOV2MASK EXTRA_BIAS_DELAY BITS_BIASDELAY = 1"
proof -
  show "MOV2MASK r BITS_TIMEOUT = push_bit 3 (take_bit 13 r)"
    unfolding BITS_TIMEOUT_def by (rule bit_eqI) (auto simp: bit_field bit_push_bit_iff bit_take_bit_iff)
  have e: "BIT_ALTRPLTO = BITS16 2 2" unfolding BIT_ALTRPLTO_def BIT_def
    by (rule bit_eqI) (auto simp: bit_BITS16 bit_4)
  show "flag BIT_ALTRPLTO = 4"
    unfolding e by (rule bit_eqI) (auto simp: bit_field bit_4 bit_1_iff)
  show "MOV2MASK EXTRA_BIAS_DELAY BITS_BIASDELAY = 1"
    unfolding BITS_BIASDELAY_def EXTRA_BIAS_DELAY_def by (rule bit_eqI) (auto simp: bit_field bit_1_iff)
qed

lemma timeout_register:
  "drop_bit 3 (ucast (push_bit 3 (take_bit 13 r) OR 5 :: u32) :: u16) = ucast (take_bit 13 r)"
  "(ucast (push_bit 3 (take_bit 13 r) OR 5 :: u32) :: u16) AND 7 = 5"
  "drop_bit 3 (ucast (push_bit 3 (take_bit 13 r) :: u32) :: u16) = ucast (take_bit 13 r)"
  "(ucast (push_bit 3 (take_bit 13 r) :: u32) :: u16) AND 7 = 0"
proof -
  have m: "(7 :: u16) = mask 3" by (simp add: mask_eq_exp_minus_1)
  have b: "bit (ucast (push_bit 3 (take_bit 13 r) OR 5 :: u32) :: u16) k \<longleftrightarrow> k < 16 \<and> (k = 0 \<or> k = 2 \<or> 3 \<le> k \<and> bit r (k - 3))"
    "bit (ucast (push_bit 3 (take_bit 13 r) :: u32) :: u16) k \<longleftrightarrow> k < 16 \<and> 3 \<le> k \<and> bit r (k - 3)" for k
    by (auto simp: bit_ucast_iff bit_or_iff bit_push_bit_iff bit_take_bit_iff bit_5)
  show "drop_bit 3 (ucast (push_bit 3 (take_bit 13 r) OR 5 :: u32) :: u16) = ucast (take_bit 13 r)"
    "drop_bit 3 (ucast (push_bit 3 (take_bit 13 r) :: u32) :: u16) = ucast (take_bit 13 r)"
    by (rule bit_eqI; simp only: bit_drop_bit_eq comp_def b; auto simp: bit_ucast_iff bit_take_bit_iff)+
  show "(ucast (push_bit 3 (take_bit 13 r) OR 5 :: u32) :: u16) AND 7 = 5" "(ucast (push_bit 3 (take_bit 13 r) :: u32) :: u16) AND 7 = 0"
    unfolding m by (rule bit_eqI; simp only: bit_and_iff bit_mask_iff b; auto simp: bit_5)+
qed

lemma sr_prims [simp]:
  "sr_reg (upd_reg f s) = f (sr_reg s)" "sr_reg (enqueue_states st s) = sr_reg s"
  "sr_reg (enqueue_tx_prepare_frame_states h p u s) = sr_reg s"
  by (simp_all add: upd_reg_def enqueue_states_def enqueue_tx_prepare_frame_states_def Let_def)

text \<open>
  C32. The time-out of a receiving slot carries bits of other fields. Both directions mean to write the raw
  time-out with the bit \<open>ALTRPLTO\<close> and the bias delay beside it. A slot that sends does: the field of 13 bits
  holds the raw value, the three bits below it hold 5. In a slot that receives the parenthesis of \<open>SET_TIMEOUT\<close>
  closes too late: the field holds the raw value with the bits of 5 set in it, up to 40 chips more than asked, and
  the three bits below it are 0, so the radio neither has the alternate reply time-out nor a bias delay.
\<close>

theorem wps_phy_rx_timeout_misplaced:
  "drop_bit 3 (sr_timelimit_biasdelay (sr_reg (prepare_radio_tx s))) = ucast (TIMEOUT_VAL2RAW (ci_rx_timeout (ph_config s))) \<and>
   sr_timelimit_biasdelay (sr_reg (prepare_radio_tx s)) AND 7 = 5 \<and>
   drop_bit 3 (sr_timelimit_biasdelay (sr_reg (prepare_radio_rx s))) = ucast (TIMEOUT_VAL2RAW (ci_rx_timeout (ph_config s)) OR 5) \<and>
   sr_timelimit_biasdelay (sr_reg (prepare_radio_rx s)) AND 7 = 0"
proof -
  let ?r = "TIMEOUT_VAL2RAW (ci_rx_timeout (ph_config s))"
  have five: "4 OR 1 = (5 :: u32)" by simp
  have tx: "sr_timelimit_biasdelay (sr_reg (prepare_radio_tx s)) = ucast (push_bit 3 (take_bit 13 ?r) OR 5)"
    by (simp add: prepare_radio_tx_def Let_def split_def timeout_fields or.assoc five)
  have rx: "sr_timelimit_biasdelay (sr_reg (prepare_radio_rx s)) = ucast (push_bit 3 (take_bit 13 (?r OR 5)))"
    by (simp add: prepare_radio_rx_def Let_def split_def timeout_fields or.assoc five)
  have "take_bit 13 (?r OR 5) = ?r OR 5" by (simp add: take_bit_or raw_timeout)
  then show ?thesis unfolding tx rx using timeout_register [of ?r] timeout_register [of "?r OR 5"] by (simp add: raw_timeout)
qed

section \<open>The registers written in every slot\<close>

fun written_registers :: "radio_op list \<Rightarrow> u8 list" where
  "written_registers [] = []"
| "written_registers (WRITE_REG8 a v # os) = a # written_registers os"
| "written_registers (WRITE_REG16 a v # os) = a # written_registers os"
| "written_registers (_ # os) = written_registers os"

lemma written_append [simp]: "written_registers (os @ qs) = written_registers os @ written_registers qs"
  by (induction os rule: written_registers.induct) simp_all

lemma overwrite_loop_writes:
  "written_registers (ph_ops (overwrite_loop n it s)) = written_registers (ph_ops s) @ replicate n (wr_target_register (write_request_info s))"
proof (induction n arbitrary: it s)
  case (Suc n)
  obtain a v where "overwrite_regs_pool s it = (a, v)" by fastforce
  then show ?case using Suc.IH by (simp add: write_register_op_def radio_def replicate_append_same [symmetric])
qed simp

text \<open>
  C33. The registers to write in every slot are all written to one address. \<open>overwrite_registers\<close> takes the
  address from the last single write request instead of from the entries of its queue: whatever registers the
  application queued, there are as many writes as entries, every one of them to the register of that request.
\<close>

theorem wps_phy_overwrites_one_register:
  "written_registers (ph_ops (overwrite_registers s)) = written_registers (ph_ops s) @
     replicate (unat (circular_queue_size (overwrite_regs_queue s))) (wr_target_register (write_request_info s))"
  by (simp add: overwrite_registers_def overwrite_loop_writes radio_def)

end
