(* ===== verification/Spec2Isabelle.thy ===== *)
theory Spec2Isabelle
  imports Circular_Queue Circular_Data Xlayer_Queue Saw_Arq Link_Status Link_Protocol Scheduler
    Link_Quality Rate_Offset Channel_Hopping Wps_Callback Mac_Protocols Wps_Header Mac_Timeslots
    Conn_Priority Frag_Events Slot_Size Tdma_Timing Mac_Flush Phy_Frames
begin

text \<open>
  A verification development of the SPARK SR1100 wireless core (\<open>src/core/wireless\<close>), the firmware
  that lets a micro-controller exchange frames over an SR1100 ultra-wideband radio.

  \<^bold>\<open>The program.\<close> An application opens connections through the facade (\<open>api/swc\<close>,
  \<open>protocol_stack/wps.c\<close>). Each connection owns a queue of frame nodes (\<open>xlayer\<close>); the nodes come
  from pools shared by the connections, their bytes from circular buffers. The radio works on a
  fixed schedule of time slots. At every slot the MAC (\<open>wps_mac.c\<close>) asks the scheduler which
  connections the slot belongs to, picks one of them by priority and credits, has the header
  multiplexer write one small field per enabled protocol, and hands the frame to the physical
  layer; when the radio is done it updates the link modules (\<open>link\<close>): stop-and-wait ARQ, credits,
  connection status, signal quality, radio selection, channel hopping, rate offset. What the
  application must hear of is queued as a callback and run later.

  \<^bold>\<open>Theories and code.\<close> Definitions carry the names of the C functions.
    \<^item> \<open>Prelude\<close>: widths, named collections, lemmas on words and lists. \<open>Radio_Types\<close>: shared
      enumerations and records (\<open>sr1100_def.h\<close>, \<open>xlayer.h\<close>, \<open>link_phase.h\<close>).
    \<^item> \<open>Fifo\<close>: the contract of a bounded queue as the locale \<open>bounded_fifo\<close>; its laws give FIFO
      order for every run of operations. \<open>Circular_Queue\<close> (\<open>library/queue/circular_queue.c\<close>) and
      \<open>Xlayer_Queue\<close> (\<open>xlayer_queue.c\<close>) interpret it on the code's operations. The latter also
      has the pools, copy counts and the flush and unlink loops over an explicit store.
    \<^item> \<open>Circular_Data\<close> (\<open>xlayer_circular_data.c\<close>): the allocator of frame memory.
    \<^item> \<open>Bit_Macros\<close> (\<open>sr_bit_macros.h\<close>): masks and the fields they name.
    \<^item> \<open>Mac_Header\<close>, \<open>Saw_Arq\<close> (\<open>link_saw_arq.c\<close>): header byte 0 and the ARQ; the pair of
      endpoints over a lossy medium is the step relation \<open>saw_step\<close>.
    \<^item> \<open>Link_Status\<close> (\<open>link_connect_status.c\<close>, \<open>link_phase.c\<close>, \<open>link_fallback.c\<close>,
      \<open>link_credit_flow_ctrl.c\<close>), \<open>Link_Quality\<close> (\<open>link_lqi.c\<close>, \<open>link_gain_loop.c\<close>,
      \<open>link_utils.h\<close>, \<open>link_multi_radio.c\<close>), \<open>Rate_Offset\<close> (\<open>link_random_datarate_offset.c\<close>,
      \<open>link_ddcm.h\<close>), \<open>Channel_Hopping\<close>, \<open>Scheduler\<close>: one link module each.
    \<^item> \<open>Link_Protocol\<close> (\<open>link_protocol.c\<close>): the header multiplexer over an arbitrary device state;
      \<open>Mac_State\<close> is the state of the MAC and \<open>Mac_Protocols\<close> (\<open>wps_mac_protocols.c\<close>) the
      protocols themselves; \<open>Wps_Header\<close> is the part of \<open>wps.c\<close> that registers them.
    \<^item> \<open>Mac_Timeslots\<close> (\<open>wps_mac_timeslots.c\<close>), \<open>Conn_Priority\<close> (\<open>wps_conn_priority.c\<close>): which
      slot and connection a received header names, which connection may transmit.
    \<^item> \<open>Wps_Callback\<close> (\<open>wps_callback.c\<close>, \<open>wps_process_callback\<close>): the callback queue.
    \<^item> \<open>Wps_Conn\<close>: the send and read functions of a connection (\<open>wps.c\<close>) over its queue, pool,
      transmit buffer and the memory. \<open>Frame_Sink\<close> is the contract of putting frames on a
      connection one by one, as the locale \<open>frame_sink\<close>; \<open>Wps_Conn\<close> interprets it and
      \<open>Frag_Send\<close> uses it. \<open>Slot_Size\<close>: the distance of consecutive slots.
    \<^item> \<open>Wps_Frag\<close> (\<open>wps_frag.c\<close>): fragmentation; \<open>Frag_Send\<close>, \<open>Frag_Read\<close> and \<open>Frag_Events\<close>
      hold the abstract split of a payload into frames and the proofs on sending, reassembly and
      the receive and transmit events.
    \<^item> \<open>Cca\<close> (\<open>link_cca.c\<close>), \<open>Tdma_Sync\<close> (\<open>link_tdma_sync.c\<close>): channel assessment and the timing of
      the slots in the build with one radio; \<open>Tdma_Exact\<close> says what the written registers
      make the transceiver do (the wake-up timers the comments of \<open>link_tdma_sync.h\<close> describe, and the
      power-up register in its steps of eight chip cycles) and what one update writes;
      \<open>Tdma_Timing\<close> has the properties.
    \<^item> The MAC (\<open>wps_mac.c\<close>, \<open>wps_mac_xlayer.c\<close>): \<open>Mac_State\<close> is its record, a store of
      connections, frame nodes and time slots, with the calls it makes into the physical layer as a list;
      \<open>Mac_Xlayer\<close> chooses the descriptors, \<open>Mac_Stats\<close> queues the statistics, \<open>Mac_Prepare\<close>
      chooses and prepares the next slot, \<open>Mac_Frames\<close> handles frames that were sent, received or
      flushed, \<open>Mac_Process\<close> the outcomes of a slot, \<open>Mac_Handlers\<close> the requests of the
      application and the callback of the physical layer. \<open>Mac_Slot\<close>, \<open>Mac_Choice\<close>,
      \<open>Mac_Handover\<close> and \<open>Mac_Flush\<close> hold the proofs: what the steps keep, that the chosen slot
      is well formed, what reaches the physical layer, what flushing removes.
    \<^item> \<open>Wps_Throttle\<close> (\<open>wps.c\<close>, \<open>wps_utils.c\<close>): the pattern of active slots of a ratio and
      the request that installs it; \<open>Mac_Throttle\<close>: how the MAC consumes it, and when its loop ends.
    \<^item> The physical layer (\<open>wps_phy_common.c\<close>, \<open>single_radio/wps_phy.c\<close>): \<open>Phy_Registers\<close>
      has the fields of the registers, \<open>Wps_Phy\<close> the state machine that the
      interrupts drive: lists of state functions run from \<open>current_state\<close>, a ring of lists to run next,
      the log \<open>ph_ops\<close> of what goes to the radio. \<open>Phy_Ring\<close> is the ring, \<open>Phy_Quiet\<close> the
      protocol of the bus and what a state function leaves alone, \<open>Phy_Effects\<close>, \<open>Phy_Functions\<close>
      and \<open>Phy_Reception\<close> the effect of each function, \<open>Phy_Loop\<close> the rules for the loop over
      them, \<open>Phy_Run\<close> whole slots as the places where the machine waits, \<open>Phy_Machine\<close> every
      sequence of interrupts, with the calls of \<open>Mac_Handover\<close> as the answers of the MAC;
      \<open>Phy_Frames\<close> has what is put on the bus.

  \<^bold>\<open>What is shown.\<close> Containers: representation invariants kept by every operation, FIFO order,
  disjointness of live memory, conservation of nodes by a flush. Link modules: safety of the ARQ
  over all interleavings of losses (exactly once, in order, with empty frames as long as their
  acknowledgements are not lost), the functional behaviour of the
  scheduler, status, phase, quality and offset modules for arbitrary histories, permutation of
  channels. MAC: every header configuration fills its table exactly; a header written by one
  device and read by another transfers the fields; the announced change of PHY mode takes effect
  in the same slot on both sides; a ready connection is not starved. Fragmentation: sending is
  equivalent to a reference split, reading restores what was sent, and each payload of at most 256
  fragments received in order is announced once, while a longer one is lost. The MAC: a slot that is chosen is well formed, every outcome hands exactly one
  prepared slot to the physical layer, an unsynchronised node sends no data, flushing drops exactly
  the timed-out frames, a ratio of active slots is kept and the loop over throttled slots ends exactly
  when some connection is ever enabled. The physical layer: no sequence of interrupts makes it hang,
  reach its error state, break the protocol of the bus or overrun its ring. Timing: the transceiver starts when the schedule says at every
  sleep level, up to the step of the power-up register and without drift at 20.48 and 40.96 MHz, and a node
  corrects its clock by the measured error. Several theorems state the
  limits instead: where a counter wraps, where a buffer that is full is taken for an empty one,
  when the scheduler never returns.

  \<^bold>\<open>Conventions.\<close> C integers are words of their width and wrap; where the code compares or divides
  after promotion to \<open>int\<close> the model does so on \<open>unat\<close> or \<open>int\<close>. Pointers are \<open>nat\<close> addresses,
  \<open>NULL\<close> is \<open>None\<close>. Accesses outside an array are \<open>None\<close> or excluded by an invariant. Loops that
  may not end are partial functions to \<open>option\<close> (\<open>sched_skip_loop\<close>, \<open>callback_loop\<close>,
  \<open>xq_flush_loop\<close>, \<open>xq_unlink_find\<close>, the loops of \<open>Wps_Frag\<close>, \<open>handle_link_throttle\<close>, \<open>poll\<close>,
  \<open>phy_loop\<close>); that they return is proved where it holds, and for the
  scheduler and the throttled slots exactly when it holds. No fuel is used. The build is the default one, with a
  single radio on SPI. Frame memory that only the radio touches, and tables the configuration fills
  once, are functions; queues of requests and of callbacks are lists.

  \<^bold>\<open>Parameters.\<close> \<open>rand\<close> and the stack byte read past the channel table, the size of the C
  enumeration \<open>chip_rate_cfg_t\<close>, the memory a received header is read from, the source address
  behind a connection pointer, the effect of an application callback, and the answers and register
  values of the radio (\<open>ph_answers\<close>, the registers a transfer brings in), of which the theorem on
  interrupts assumes that a radio that is asked again and again answers 0 at some time and that it
  reports events the code has a case for.

  \<^bold>\<open>Not modelled.\<close> The initialisation of the physical layer (\<open>phy_init\<close>, a sequence of register
  writes and a wait on a timer before interrupts are enabled) and the build with several radios;
  \<open>sr_access.c\<close>, which turns the logged accesses into transfers of a chip the repository does not
  define; connecting, disconnecting and creating connections in \<open>wps.c\<close>, and \<open>wps_certification.c\<close>
  beside its protocol; the printing of statistics; pairing, audio, the API facade, board support,
  applications and third-party code. The manifest lists each part with its reason.
\<close>

end
